(* ===== verification/Wirble_Prelude.thy ===== *)
theory Wirble_Prelude
  imports Main "HOL-Library.Word"
begin

unbundle bit_operations_syntax

text \<open>
  Shared vocabulary of the development: the machine integer types of the C sources, the
  collections of simplification facts the component theories fill, the capacity-doubling
  loop that every growable array of the program runs, and the little-endian layout that
  \<^verbatim>\<open>memcpy\<close> of a scalar gives on the supported (little-endian) hosts.
\<close>

section \<open>Types and fact collections\<close>

type_synonym u8 = "8 word"
type_synonym u16 = "16 word"
type_synonym u32 = "32 word"
type_synonym u64 = "64 word"
type_synonym bytes = "u8 list"

named_theorems wvm_enc \<open>round trips of the instruction fields\<close>
named_theorems wvm_val \<open>facts on NaN-boxed values\<close>

abbreviation UINT32_MAX :: u32 where "UINT32_MAX \<equiv> - 1"

section \<open>Outcomes of C code\<close>

text \<open>
  What a piece of C can do besides returning: access memory outside an object, overflow a
  signed integer, shift by an amount outside the width, or run a loop forever. A model
  that meets one of these returns \<open>Inl\<close> of it.
\<close>

datatype fault = OutOfBounds | SignedOverflow | BadShift | NullDeref | Diverges

type_synonym 'a cres = "fault + 'a"

definition cbind :: "'a cres \<Rightarrow> ('a \<Rightarrow> 'b cres) \<Rightarrow> 'b cres" where
  "cbind m f = (case m of Inl e \<Rightarrow> Inl e | Inr x \<Rightarrow> f x)"

lemma cbind_simps [simp]: "cbind (Inl e) f = Inl e" "cbind (Inr x) f = f x"
  by (simp_all add: cbind_def)

lemma cbind_eq_Inr: "cbind m f = Inr y \<longleftrightarrow> (\<exists>x. m = Inr x \<and> f x = Inr y)"
  by (cases m) auto

lemma cbind_eq_Inl: "cbind m f = Inl e \<longleftrightarrow> m = Inl e \<or> (\<exists>x. m = Inr x \<and> f x = Inl e)"
  by (cases m) auto

text \<open>Reading and writing an array: outside its bounds both are undefined behaviour.\<close>

definition arr_get :: "'a list \<Rightarrow> nat \<Rightarrow> 'a cres" where
  "arr_get xs i = (if i < length xs then Inr (xs ! i) else Inl OutOfBounds)"

definition arr_set :: "'a list \<Rightarrow> nat \<Rightarrow> 'a \<Rightarrow> 'a list cres" where
  "arr_set xs i v = (if i < length xs then Inr (xs[i := v]) else Inl OutOfBounds)"

lemma arr_get_in [simp]: "i < length xs \<Longrightarrow> arr_get xs i = Inr (xs ! i)"
  by (simp add: arr_get_def)

lemma arr_set_in [simp]: "i < length xs \<Longrightarrow> arr_set xs i v = Inr (xs[i := v])"
  by (simp add: arr_set_def)

lemma arr_get_Inl: "arr_get xs i = Inl e \<longleftrightarrow> e = OutOfBounds \<and> length xs \<le> i"
  by (auto simp: arr_get_def)

lemma arr_set_Inl: "arr_set xs i v = Inl e \<longleftrightarrow> e = OutOfBounds \<and> length xs \<le> i"
  by (auto simp: arr_set_def)

section \<open>Generic lemmas\<close>

lemma set_upt_zero: "set [0..<n] = {i. i < n}"
  by auto

lemma distinct_full_length:
  assumes "distinct xs" and "set xs = {i. i < n}"
  shows "length xs = n"
  using assms distinct_card [of xs] by simp

lemma list_all_nthI: "(\<And>i. i < length xs \<Longrightarrow> P (xs ! i)) \<Longrightarrow> list_all P xs"
  by (simp add: list_all_length)

lemma find_distinct_key:
  "distinct (map f xs) \<Longrightarrow> x \<in> set xs \<Longrightarrow> find (\<lambda>y. f y = f x) xs = Some x"
  by (induction xs) (auto simp: image_iff)

lemma find_SomeD: "find P xs = Some x \<Longrightarrow> x \<in> set xs \<and> P x"
  by (induction xs) (auto split: if_splits)

lemma unat_add_no_wrap:
  fixes a b :: "'a::len word"
  assumes "unat a + unat b < 2 ^ LENGTH('a)"
  shows "unat (a + b) = unat a + unat b"
  using assms by (simp add: unat_word_ariths)

lemma unat_double_no_wrap:
  fixes a :: "'a::len word"
  assumes "2 * unat a < 2 ^ LENGTH('a)"
  shows "unat (a * 2) = 2 * unat a"
proof -
  have "a * 2 = a + a" by (simp add: mult.commute)
  then show ?thesis using assms unat_add_no_wrap [of a a] by (simp add: mult.commute)
qed

lemma unat_two_power_word:
  assumes "k < LENGTH('a::len)"
  shows "unat ((2 :: 'a word) ^ k) = 2 ^ k"
proof -
  have "(2 :: 'a word) ^ k = of_nat (2 ^ k)" by simp
  then have "unat ((2 :: 'a word) ^ k) = take_bit LENGTH('a) (2 ^ k)"
    by (simp only: unsigned_of_nat of_nat_id)
  also have "\<dots> = 2 ^ k" using assms by (simp add: take_bit_nat_eq_self)
  finally show ?thesis .
qed

lemma unat_word_of_int_small:
  assumes "0 \<le> x" and "x < 2 ^ LENGTH('a::len)"
  shows "unat (word_of_int x :: 'a word) = nat x"
  using assms by (simp add: unsigned_of_int take_bit_int_eq_self)

lemma unat_of_nat_small:
  "n < 2 ^ LENGTH('a::len) \<Longrightarrow> unat (of_nat n :: 'a word) = n"
  by (simp add: unsigned_of_nat take_bit_nat_eq_self)

section \<open>Capacity doubling\<close>

text \<open>
  The loop \<^verbatim>\<open>while (newCap < needed) newCap *= 2u;\<close> on an unsigned type. Unsigned
  multiplication wraps, so the loop need not stop: \<open>None\<close> is a loop that runs forever.
\<close>

partial_function (option) grow_cap :: "'a::len word \<Rightarrow> 'a word \<Rightarrow> 'a word option" where
  "grow_cap cap needed = (if cap < needed then grow_cap (cap * 2) needed else Some cap)"

lemma grow_cap_stop [simp]: "\<not> cap < needed \<Longrightarrow> grow_cap cap needed = Some cap"
  by (subst grow_cap.simps) simp

lemma grow_cap_step: "cap < needed \<Longrightarrow> grow_cap cap needed = grow_cap (cap * 2) needed"
  by (subst grow_cap.simps) simp

text \<open>
  From a positive capacity, and while the request is at most half of the type's range, the
  loop stops at a capacity that is large enough and less than twice the request.
\<close>

lemma grow_cap_returns:
  fixes cap needed :: "'a::len word"
  assumes "0 < unat cap" and "2 * unat needed \<le> 2 ^ LENGTH('a)"
  shows "\<exists>c. grow_cap cap needed = Some c \<and> unat needed \<le> unat c
           \<and> (c = cap \<or> unat c < 2 * unat needed)"
  using assms(1)
proof (induction "unat needed - unat cap" arbitrary: cap rule: less_induct)
  case less
  show ?case
  proof (cases "cap < needed")
    case False
    then show ?thesis by (simp add: word_less_nat_alt)
  next
    case True
    then have lt: "unat cap < unat needed" by (simp add: word_less_nat_alt)
    with assms(2) have dbl: "unat (cap * 2) = 2 * unat cap"
      by (intro unat_double_no_wrap) simp
    have "\<exists>c. grow_cap (cap * 2) needed = Some c \<and> unat needed \<le> unat c
            \<and> (c = cap * 2 \<or> unat c < 2 * unat needed)"
      by (rule less.hyps) (use less.prems lt dbl in auto)
    then show ?thesis using True lt dbl by (auto simp: grow_cap_step)
  qed
qed

text \<open>Whatever the loop returns is large enough.\<close>

lemma grow_cap_ge: "grow_cap cap needed = Some c \<Longrightarrow> needed \<le> c"
proof (rule grow_cap.raw_induct [where P = "\<lambda>cap needed c. needed \<le> c"])
  fix f :: "'a word \<Rightarrow> 'a word \<Rightarrow> 'a word option" and cap needed c
  assume "\<And>cap needed c. f cap needed = Some c \<Longrightarrow> needed \<le> c"
    and "(if cap < needed then f (cap * 2) needed else Some cap) = Some c"
  then show "needed \<le> c" by (auto split: if_splits)
qed

text \<open>
  A capacity that is a power of two runs into zero when the request exceeds the largest
  power of two of the type; zero doubled is zero, so the loop never stops.
\<close>

lemma grow_cap_zero_diverges: "0 < needed \<Longrightarrow> grow_cap 0 needed = None"
proof (rule ccontr)
  assume "0 < needed" "grow_cap 0 needed \<noteq> None"
  then obtain c where "grow_cap 0 needed = Some c" by auto
  moreover have "grow_cap cap needed = Some c \<Longrightarrow> \<not> (cap = 0 \<and> 0 < needed)" for cap c
    by (rule grow_cap.raw_induct [where P = "\<lambda>cap needed c. \<not> (cap = 0 \<and> 0 < needed)"])
       (auto split: if_splits)
  ultimately show False using \<open>0 < needed\<close> by blast
qed

lemma grow_cap_pow2_diverges:
  fixes needed :: "'a::len word"
  assumes "2 ^ (LENGTH('a) - 1) < unat needed" and "k \<le> LENGTH('a)"
  shows "grow_cap (2 ^ k) needed = None"
  using assms(2)
proof (induction "LENGTH('a) - k" arbitrary: k)
  case 0
  then have "(2 :: 'a word) ^ k = 0" by simp
  moreover have "0 < needed" using assms(1) by (simp add: word_less_nat_alt)
  ultimately show ?case using grow_cap_zero_diverges [of needed] by metis
next
  case (Suc d)
  then have k: "k < LENGTH('a)" by simp
  have "unat ((2 :: 'a word) ^ k) = 2 ^ k"
    using k by (rule unat_two_power_word)
  also have "\<dots> \<le> 2 ^ (LENGTH('a) - 1)"
    using k by (intro power_increasing) auto
  finally have "(2 :: 'a word) ^ k < needed"
    using assms(1) by (simp add: word_less_nat_alt)
  then have "grow_cap (2 ^ k) needed = grow_cap (2 ^ Suc k) needed"
    by (simp add: grow_cap_step mult.commute)
  also have "\<dots> = None" by (rule Suc.hyps(1)) (use Suc.hyps(2) k in auto)
  finally show ?case .
qed

section \<open>Little-endian layout of scalars\<close>

definition le_bytes :: "'a::len word \<Rightarrow> bytes" where
  "le_bytes w = map (\<lambda>i. ucast (drop_bit (8 * i) w)) [0..<LENGTH('a) div 8]"

primrec of_le_bytes :: "bytes \<Rightarrow> 'a::len word" where
  "of_le_bytes [] = 0"
| "of_le_bytes (b # bs) = ucast b OR push_bit 8 (of_le_bytes bs)"

lemma length_le_bytes [simp]: "length (le_bytes (w :: 'a::len word)) = LENGTH('a) div 8"
  by (simp add: le_bytes_def)

lemma bit_of_le_bytes:
  "bit (of_le_bytes bs :: 'a::len word) n \<longleftrightarrow>
     n < LENGTH('a) \<and> n div 8 < length bs \<and> bit (bs ! (n div 8)) (n mod 8)"
proof (induction bs arbitrary: n)
  case Nil
  then show ?case by simp
next
  case (Cons b bs)
  show ?case
  proof (cases "n < 8")
    case True
    then show ?thesis by (auto simp: bit_simps)
  next
    case False
    then have "n div 8 = Suc ((n - 8) div 8)" and "n mod 8 = (n - 8) mod 8"
      by (auto simp: le_div_geq le_mod_geq not_less)
    moreover have "\<not> bit b n" using False bit_imp_le_length [of b n] by auto
    ultimately show ?thesis using False Cons.IH [of "n - 8"]
      by (auto simp: bit_simps)
  qed
qed

lemma of_le_bytes_le_bytes [simp]:
  fixes w :: "'a::len word"
  assumes "8 dvd LENGTH('a)"
  shows "of_le_bytes (le_bytes w) = w"
proof (rule bit_word_eqI)
  fix n assume n: "n < LENGTH('a)"
  have "n div 8 < LENGTH('a) div 8"
    using n assms by (auto elim: dvdE)
  then show "bit (of_le_bytes (le_bytes w) :: 'a word) n = bit w n"
    using n by (simp add: bit_of_le_bytes le_bytes_def bit_simps)
qed

section \<open>Doubles\<close>

text \<open>
  A C \<^verbatim>\<open>double\<close> is given by its 64 bits. The comparison \<^verbatim>\<open>==\<close>: a NaN equals nothing, the two
  zeros are equal.
\<close>

definition double_is_nan :: "u64 \<Rightarrow> bool" where
  "double_is_nan x \<longleftrightarrow> 0x7FF0000000000000 < (x AND 0x7FFFFFFFFFFFFFFF)"

definition double_is_zero :: "u64 \<Rightarrow> bool" where
  "double_is_zero x \<longleftrightarrow> x AND 0x7FFFFFFFFFFFFFFF = 0"

definition double_eq :: "u64 \<Rightarrow> u64 \<Rightarrow> bool" where
  "double_eq x y \<longleftrightarrow>
     \<not> double_is_nan x \<and> \<not> double_is_nan y \<and> (x = y \<or> double_is_zero x \<and> double_is_zero y)"

lemma double_eq_refl_iff: "double_eq x x \<longleftrightarrow> \<not> double_is_nan x"
  by (simp add: double_eq_def)

lemma double_eq_sym: "double_eq x y \<Longrightarrow> double_eq y x"
  by (auto simp: double_eq_def)

end
