(* ===== verification/Wvm_Isa.thy ===== *)
theory Wvm_Isa
  imports Wirble_Prelude
begin

unbundle bit_operations_syntax

text \<open>
  The instruction set of the WIRBLE virtual machine: opcode and guard enumerations, the
  encoding table of \<^verbatim>\<open>wvm_encoder.c\<close>, the encoding and decoding macros of
  \<^verbatim>\<open>wirble-wvm.h\<close> on 64-bit instruction words, the opcode queries, and the NaN-boxed
  value representation.
\<close>

section \<open>Opcodes and encoding formats\<close>

datatype WVMEncodingType =
    WVM_ENC_OP | WVM_ENC_OP_R | WVM_ENC_OP_RR | WVM_ENC_OP_RRR | WVM_ENC_OP_R_IMM16
  | WVM_ENC_OP_R_IMM32 | WVM_ENC_OP_R_CONST | WVM_ENC_OP_RR_CONST | WVM_ENC_OP_R_STR
  | WVM_ENC_OP_JUMP | WVM_ENC_OP_R_JUMP | WVM_ENC_OP_RR_JUMP | WVM_ENC_OP_GUARD

datatype (plugins only: code size) WVMOpcodeEnum =
    WVM_OP_NOP | WVM_OP_HALT | WVM_OP_RETURN | WVM_OP_CALL | WVM_OP_TAILCALL | WVM_OP_JUMP
  | WVM_OP_JUMP_IF_TRUE | WVM_OP_JUMP_IF_FALSE | WVM_OP_MOVE | WVM_OP_LOAD_CONST
  | WVM_OP_LOAD_IMM | WVM_OP_LOAD_NIL | WVM_OP_LOAD_TRUE | WVM_OP_LOAD_FALSE | WVM_OP_ADD
  | WVM_OP_SUB | WVM_OP_MUL | WVM_OP_DIV | WVM_OP_MOD | WVM_OP_NEG | WVM_OP_INC
  | WVM_OP_DEC | WVM_OP_AND | WVM_OP_OR | WVM_OP_XOR | WVM_OP_NOT | WVM_OP_SHL
  | WVM_OP_SHR | WVM_OP_EQ | WVM_OP_NE | WVM_OP_LT | WVM_OP_LE | WVM_OP_GT | WVM_OP_GE
  | WVM_OP_LOAD_GLOBAL | WVM_OP_STORE_GLOBAL | WVM_OP_LOAD_UPVAL | WVM_OP_STORE_UPVAL
  | WVM_OP_LOAD_FIELD | WVM_OP_STORE_FIELD | WVM_OP_NEW_TABLE | WVM_OP_GET_INDEX
  | WVM_OP_SET_INDEX | WVM_OP_GET_LEN | WVM_OP_CLOSURE | WVM_OP_GUARD_TYPE
  | WVM_OP_GUARD_TRUE | WVM_OP_GUARD_FALSE | WVM_OP_GUARD_NOT_NIL | WVM_OP_GUARD_CLASS
  | WVM_OP_GUARD_RANGE | WVM_OP_GUARD_RESOURCE | WVM_OP_PUSH | WVM_OP_POP | WVM_OP_TO_INT
  | WVM_OP_TO_FLOAT | WVM_OP_TO_STRING | WVM_OP_TO_BOOL

text \<open>The opcodes in the order of the C enumeration; an opcode's number is its position.\<close>

definition wvm_all_opcodes :: "WVMOpcodeEnum list" where
  "wvm_all_opcodes =
    [WVM_OP_NOP, WVM_OP_HALT, WVM_OP_RETURN, WVM_OP_CALL, WVM_OP_TAILCALL, WVM_OP_JUMP,
     WVM_OP_JUMP_IF_TRUE, WVM_OP_JUMP_IF_FALSE, WVM_OP_MOVE, WVM_OP_LOAD_CONST,
     WVM_OP_LOAD_IMM, WVM_OP_LOAD_NIL, WVM_OP_LOAD_TRUE, WVM_OP_LOAD_FALSE, WVM_OP_ADD,
     WVM_OP_SUB, WVM_OP_MUL, WVM_OP_DIV, WVM_OP_MOD, WVM_OP_NEG, WVM_OP_INC, WVM_OP_DEC,
     WVM_OP_AND, WVM_OP_OR, WVM_OP_XOR, WVM_OP_NOT, WVM_OP_SHL, WVM_OP_SHR, WVM_OP_EQ,
     WVM_OP_NE, WVM_OP_LT, WVM_OP_LE, WVM_OP_GT, WVM_OP_GE, WVM_OP_LOAD_GLOBAL,
     WVM_OP_STORE_GLOBAL, WVM_OP_LOAD_UPVAL, WVM_OP_STORE_UPVAL, WVM_OP_LOAD_FIELD,
     WVM_OP_STORE_FIELD, WVM_OP_NEW_TABLE, WVM_OP_GET_INDEX, WVM_OP_SET_INDEX,
     WVM_OP_GET_LEN, WVM_OP_CLOSURE, WVM_OP_GUARD_TYPE, WVM_OP_GUARD_TRUE,
     WVM_OP_GUARD_FALSE, WVM_OP_GUARD_NOT_NIL, WVM_OP_GUARD_CLASS, WVM_OP_GUARD_RANGE,
     WVM_OP_GUARD_RESOURCE, WVM_OP_PUSH, WVM_OP_POP, WVM_OP_TO_INT, WVM_OP_TO_FLOAT,
     WVM_OP_TO_STRING, WVM_OP_TO_BOOL]"

definition WVM_OP_COUNT :: nat where
  "WVM_OP_COUNT = length wvm_all_opcodes"

primrec wvm_opcode_num :: "WVMOpcodeEnum \<Rightarrow> u8" where
  "wvm_opcode_num WVM_OP_NOP = 0"
| "wvm_opcode_num WVM_OP_HALT = 1"
| "wvm_opcode_num WVM_OP_RETURN = 2"
| "wvm_opcode_num WVM_OP_CALL = 3"
| "wvm_opcode_num WVM_OP_TAILCALL = 4"
| "wvm_opcode_num WVM_OP_JUMP = 5"
| "wvm_opcode_num WVM_OP_JUMP_IF_TRUE = 6"
| "wvm_opcode_num WVM_OP_JUMP_IF_FALSE = 7"
| "wvm_opcode_num WVM_OP_MOVE = 8"
| "wvm_opcode_num WVM_OP_LOAD_CONST = 9"
| "wvm_opcode_num WVM_OP_LOAD_IMM = 10"
| "wvm_opcode_num WVM_OP_LOAD_NIL = 11"
| "wvm_opcode_num WVM_OP_LOAD_TRUE = 12"
| "wvm_opcode_num WVM_OP_LOAD_FALSE = 13"
| "wvm_opcode_num WVM_OP_ADD = 14"
| "wvm_opcode_num WVM_OP_SUB = 15"
| "wvm_opcode_num WVM_OP_MUL = 16"
| "wvm_opcode_num WVM_OP_DIV = 17"
| "wvm_opcode_num WVM_OP_MOD = 18"
| "wvm_opcode_num WVM_OP_NEG = 19"
| "wvm_opcode_num WVM_OP_INC = 20"
| "wvm_opcode_num WVM_OP_DEC = 21"
| "wvm_opcode_num WVM_OP_AND = 22"
| "wvm_opcode_num WVM_OP_OR = 23"
| "wvm_opcode_num WVM_OP_XOR = 24"
| "wvm_opcode_num WVM_OP_NOT = 25"
| "wvm_opcode_num WVM_OP_SHL = 26"
| "wvm_opcode_num WVM_OP_SHR = 27"
| "wvm_opcode_num WVM_OP_EQ = 28"
| "wvm_opcode_num WVM_OP_NE = 29"
| "wvm_opcode_num WVM_OP_LT = 30"
| "wvm_opcode_num WVM_OP_LE = 31"
| "wvm_opcode_num WVM_OP_GT = 32"
| "wvm_opcode_num WVM_OP_GE = 33"
| "wvm_opcode_num WVM_OP_LOAD_GLOBAL = 34"
| "wvm_opcode_num WVM_OP_STORE_GLOBAL = 35"
| "wvm_opcode_num WVM_OP_LOAD_UPVAL = 36"
| "wvm_opcode_num WVM_OP_STORE_UPVAL = 37"
| "wvm_opcode_num WVM_OP_LOAD_FIELD = 38"
| "wvm_opcode_num WVM_OP_STORE_FIELD = 39"
| "wvm_opcode_num WVM_OP_NEW_TABLE = 40"
| "wvm_opcode_num WVM_OP_GET_INDEX = 41"
| "wvm_opcode_num WVM_OP_SET_INDEX = 42"
| "wvm_opcode_num WVM_OP_GET_LEN = 43"
| "wvm_opcode_num WVM_OP_CLOSURE = 44"
| "wvm_opcode_num WVM_OP_GUARD_TYPE = 45"
| "wvm_opcode_num WVM_OP_GUARD_TRUE = 46"
| "wvm_opcode_num WVM_OP_GUARD_FALSE = 47"
| "wvm_opcode_num WVM_OP_GUARD_NOT_NIL = 48"
| "wvm_opcode_num WVM_OP_GUARD_CLASS = 49"
| "wvm_opcode_num WVM_OP_GUARD_RANGE = 50"
| "wvm_opcode_num WVM_OP_GUARD_RESOURCE = 51"
| "wvm_opcode_num WVM_OP_PUSH = 52"
| "wvm_opcode_num WVM_OP_POP = 53"
| "wvm_opcode_num WVM_OP_TO_INT = 54"
| "wvm_opcode_num WVM_OP_TO_FLOAT = 55"
| "wvm_opcode_num WVM_OP_TO_STRING = 56"
| "wvm_opcode_num WVM_OP_TO_BOOL = 57"

definition wvm_opcode_of :: "u8 \<Rightarrow> WVMOpcodeEnum option" where
  "wvm_opcode_of w =
     (if unat w < WVM_OP_COUNT then Some (wvm_all_opcodes ! unat w) else None)"

primrec wvmOpcodeEncodings :: "WVMOpcodeEnum \<Rightarrow> WVMEncodingType" where
  "wvmOpcodeEncodings WVM_OP_NOP = WVM_ENC_OP"
| "wvmOpcodeEncodings WVM_OP_HALT = WVM_ENC_OP"
| "wvmOpcodeEncodings WVM_OP_RETURN = WVM_ENC_OP_R"
| "wvmOpcodeEncodings WVM_OP_CALL = WVM_ENC_OP_RRR"
| "wvmOpcodeEncodings WVM_OP_TAILCALL = WVM_ENC_OP_RRR"
| "wvmOpcodeEncodings WVM_OP_JUMP = WVM_ENC_OP_JUMP"
| "wvmOpcodeEncodings WVM_OP_JUMP_IF_TRUE = WVM_ENC_OP_R_JUMP"
| "wvmOpcodeEncodings WVM_OP_JUMP_IF_FALSE = WVM_ENC_OP_R_JUMP"
| "wvmOpcodeEncodings WVM_OP_MOVE = WVM_ENC_OP_RR"
| "wvmOpcodeEncodings WVM_OP_LOAD_CONST = WVM_ENC_OP_R_CONST"
| "wvmOpcodeEncodings WVM_OP_LOAD_IMM = WVM_ENC_OP_R_IMM32"
| "wvmOpcodeEncodings WVM_OP_LOAD_NIL = WVM_ENC_OP_R"
| "wvmOpcodeEncodings WVM_OP_LOAD_TRUE = WVM_ENC_OP_R"
| "wvmOpcodeEncodings WVM_OP_LOAD_FALSE = WVM_ENC_OP_R"
| "wvmOpcodeEncodings WVM_OP_ADD = WVM_ENC_OP_RRR"
| "wvmOpcodeEncodings WVM_OP_SUB = WVM_ENC_OP_RRR"
| "wvmOpcodeEncodings WVM_OP_MUL = WVM_ENC_OP_RRR"
| "wvmOpcodeEncodings WVM_OP_DIV = WVM_ENC_OP_RRR"
| "wvmOpcodeEncodings WVM_OP_MOD = WVM_ENC_OP_RRR"
| "wvmOpcodeEncodings WVM_OP_NEG = WVM_ENC_OP_RR"
| "wvmOpcodeEncodings WVM_OP_INC = WVM_ENC_OP_R"
| "wvmOpcodeEncodings WVM_OP_DEC = WVM_ENC_OP_R"
| "wvmOpcodeEncodings WVM_OP_AND = WVM_ENC_OP_RRR"
| "wvmOpcodeEncodings WVM_OP_OR = WVM_ENC_OP_RRR"
| "wvmOpcodeEncodings WVM_OP_XOR = WVM_ENC_OP_RRR"
| "wvmOpcodeEncodings WVM_OP_NOT = WVM_ENC_OP_RR"
| "wvmOpcodeEncodings WVM_OP_SHL = WVM_ENC_OP_RRR"
| "wvmOpcodeEncodings WVM_OP_SHR = WVM_ENC_OP_RRR"
| "wvmOpcodeEncodings WVM_OP_EQ = WVM_ENC_OP_RRR"
| "wvmOpcodeEncodings WVM_OP_NE = WVM_ENC_OP_RRR"
| "wvmOpcodeEncodings WVM_OP_LT = WVM_ENC_OP_RRR"
| "wvmOpcodeEncodings WVM_OP_LE = WVM_ENC_OP_RRR"
| "wvmOpcodeEncodings WVM_OP_GT = WVM_ENC_OP_RRR"
| "wvmOpcodeEncodings WVM_OP_GE = WVM_ENC_OP_RRR"
| "wvmOpcodeEncodings WVM_OP_LOAD_GLOBAL = WVM_ENC_OP_R_CONST"
| "wvmOpcodeEncodings WVM_OP_STORE_GLOBAL = WVM_ENC_OP_R_CONST"
| "wvmOpcodeEncodings WVM_OP_LOAD_UPVAL = WVM_ENC_OP_R_IMM16"
| "wvmOpcodeEncodings WVM_OP_STORE_UPVAL = WVM_ENC_OP_R_IMM16"
| "wvmOpcodeEncodings WVM_OP_LOAD_FIELD = WVM_ENC_OP_RR_CONST"
| "wvmOpcodeEncodings WVM_OP_STORE_FIELD = WVM_ENC_OP_RR_CONST"
| "wvmOpcodeEncodings WVM_OP_NEW_TABLE = WVM_ENC_OP_R"
| "wvmOpcodeEncodings WVM_OP_GET_INDEX = WVM_ENC_OP_RRR"
| "wvmOpcodeEncodings WVM_OP_SET_INDEX = WVM_ENC_OP_RRR"
| "wvmOpcodeEncodings WVM_OP_GET_LEN = WVM_ENC_OP_RR"
| "wvmOpcodeEncodings WVM_OP_CLOSURE = WVM_ENC_OP_R_CONST"
| "wvmOpcodeEncodings WVM_OP_GUARD_TYPE = WVM_ENC_OP_GUARD"
| "wvmOpcodeEncodings WVM_OP_GUARD_TRUE = WVM_ENC_OP_GUARD"
| "wvmOpcodeEncodings WVM_OP_GUARD_FALSE = WVM_ENC_OP_GUARD"
| "wvmOpcodeEncodings WVM_OP_GUARD_NOT_NIL = WVM_ENC_OP_GUARD"
| "wvmOpcodeEncodings WVM_OP_GUARD_CLASS = WVM_ENC_OP_GUARD"
| "wvmOpcodeEncodings WVM_OP_GUARD_RANGE = WVM_ENC_OP_GUARD"
| "wvmOpcodeEncodings WVM_OP_GUARD_RESOURCE = WVM_ENC_OP_GUARD"
| "wvmOpcodeEncodings WVM_OP_PUSH = WVM_ENC_OP_R"
| "wvmOpcodeEncodings WVM_OP_POP = WVM_ENC_OP_R"
| "wvmOpcodeEncodings WVM_OP_TO_INT = WVM_ENC_OP_RR"
| "wvmOpcodeEncodings WVM_OP_TO_FLOAT = WVM_ENC_OP_RR"
| "wvmOpcodeEncodings WVM_OP_TO_STRING = WVM_ENC_OP_RR"
| "wvmOpcodeEncodings WVM_OP_TO_BOOL = WVM_ENC_OP_RR"

primrec wvmOpcodeNames :: "WVMOpcodeEnum \<Rightarrow> string" where
  "wvmOpcodeNames WVM_OP_NOP = ''nop''"
| "wvmOpcodeNames WVM_OP_HALT = ''halt''"
| "wvmOpcodeNames WVM_OP_RETURN = ''return''"
| "wvmOpcodeNames WVM_OP_CALL = ''call''"
| "wvmOpcodeNames WVM_OP_TAILCALL = ''tailcall''"
| "wvmOpcodeNames WVM_OP_JUMP = ''jump''"
| "wvmOpcodeNames WVM_OP_JUMP_IF_TRUE = ''jump_if_true''"
| "wvmOpcodeNames WVM_OP_JUMP_IF_FALSE = ''jump_if_false''"
| "wvmOpcodeNames WVM_OP_MOVE = ''move''"
| "wvmOpcodeNames WVM_OP_LOAD_CONST = ''load_const''"
| "wvmOpcodeNames WVM_OP_LOAD_IMM = ''load_imm''"
| "wvmOpcodeNames WVM_OP_LOAD_NIL = ''load_nil''"
| "wvmOpcodeNames WVM_OP_LOAD_TRUE = ''load_true''"
| "wvmOpcodeNames WVM_OP_LOAD_FALSE = ''load_false''"
| "wvmOpcodeNames WVM_OP_ADD = ''add''"
| "wvmOpcodeNames WVM_OP_SUB = ''sub''"
| "wvmOpcodeNames WVM_OP_MUL = ''mul''"
| "wvmOpcodeNames WVM_OP_DIV = ''div''"
| "wvmOpcodeNames WVM_OP_MOD = ''mod''"
| "wvmOpcodeNames WVM_OP_NEG = ''neg''"
| "wvmOpcodeNames WVM_OP_INC = ''inc''"
| "wvmOpcodeNames WVM_OP_DEC = ''dec''"
| "wvmOpcodeNames WVM_OP_AND = ''and''"
| "wvmOpcodeNames WVM_OP_OR = ''or''"
| "wvmOpcodeNames WVM_OP_XOR = ''xor''"
| "wvmOpcodeNames WVM_OP_NOT = ''not''"
| "wvmOpcodeNames WVM_OP_SHL = ''shl''"
| "wvmOpcodeNames WVM_OP_SHR = ''shr''"
| "wvmOpcodeNames WVM_OP_EQ = ''eq''"
| "wvmOpcodeNames WVM_OP_NE = ''ne''"
| "wvmOpcodeNames WVM_OP_LT = ''lt''"
| "wvmOpcodeNames WVM_OP_LE = ''le''"
| "wvmOpcodeNames WVM_OP_GT = ''gt''"
| "wvmOpcodeNames WVM_OP_GE = ''ge''"
| "wvmOpcodeNames WVM_OP_LOAD_GLOBAL = ''load_global''"
| "wvmOpcodeNames WVM_OP_STORE_GLOBAL = ''store_global''"
| "wvmOpcodeNames WVM_OP_LOAD_UPVAL = ''load_upval''"
| "wvmOpcodeNames WVM_OP_STORE_UPVAL = ''store_upval''"
| "wvmOpcodeNames WVM_OP_LOAD_FIELD = ''load_field''"
| "wvmOpcodeNames WVM_OP_STORE_FIELD = ''store_field''"
| "wvmOpcodeNames WVM_OP_NEW_TABLE = ''new_table''"
| "wvmOpcodeNames WVM_OP_GET_INDEX = ''get_index''"
| "wvmOpcodeNames WVM_OP_SET_INDEX = ''set_index''"
| "wvmOpcodeNames WVM_OP_GET_LEN = ''get_len''"
| "wvmOpcodeNames WVM_OP_CLOSURE = ''closure''"
| "wvmOpcodeNames WVM_OP_GUARD_TYPE = ''guard_type''"
| "wvmOpcodeNames WVM_OP_GUARD_TRUE = ''guard_true''"
| "wvmOpcodeNames WVM_OP_GUARD_FALSE = ''guard_false''"
| "wvmOpcodeNames WVM_OP_GUARD_NOT_NIL = ''guard_not_nil''"
| "wvmOpcodeNames WVM_OP_GUARD_CLASS = ''guard_class''"
| "wvmOpcodeNames WVM_OP_GUARD_RANGE = ''guard_range''"
| "wvmOpcodeNames WVM_OP_GUARD_RESOURCE = ''guard_resource''"
| "wvmOpcodeNames WVM_OP_PUSH = ''push''"
| "wvmOpcodeNames WVM_OP_POP = ''pop''"
| "wvmOpcodeNames WVM_OP_TO_INT = ''to_int''"
| "wvmOpcodeNames WVM_OP_TO_FLOAT = ''to_float''"
| "wvmOpcodeNames WVM_OP_TO_STRING = ''to_string''"
| "wvmOpcodeNames WVM_OP_TO_BOOL = ''to_bool''"

datatype (plugins only: code size) WVMGuardKind =
    WVM_GUARD_TYPE_INT | WVM_GUARD_TYPE_FLOAT | WVM_GUARD_TYPE_STRING | WVM_GUARD_TYPE_BOOL
  | WVM_GUARD_TYPE_TABLE | WVM_GUARD_TYPE_FUNCTION | WVM_GUARD_TYPE_NIL
  | WVM_GUARD_TYPE_USERDATA | WVM_GUARD_COND_TRUE | WVM_GUARD_COND_FALSE
  | WVM_GUARD_COND_NOT_NIL | WVM_GUARD_COND_EQ | WVM_GUARD_COND_LT | WVM_GUARD_COND_LE
  | WVM_GUARD_RANGE_INT_LO | WVM_GUARD_RANGE_INT_HI | WVM_GUARD_RANGE_INT_BOTH
  | WVM_GUARD_CLASS | WVM_GUARD_SHAPE | WVM_GUARD_PROTO | WVM_GUARD_RES_STACK_OVERFLOW
  | WVM_GUARD_RES_MEMORY | WVM_GUARD_RES_TIMEOUT | WVM_GUARD_RES_RECURSION_DEPTH

definition wvm_all_guards :: "WVMGuardKind list" where
  "wvm_all_guards =
    [WVM_GUARD_TYPE_INT, WVM_GUARD_TYPE_FLOAT, WVM_GUARD_TYPE_STRING,
     WVM_GUARD_TYPE_BOOL, WVM_GUARD_TYPE_TABLE, WVM_GUARD_TYPE_FUNCTION,
     WVM_GUARD_TYPE_NIL, WVM_GUARD_TYPE_USERDATA, WVM_GUARD_COND_TRUE,
     WVM_GUARD_COND_FALSE, WVM_GUARD_COND_NOT_NIL, WVM_GUARD_COND_EQ, WVM_GUARD_COND_LT,
     WVM_GUARD_COND_LE, WVM_GUARD_RANGE_INT_LO, WVM_GUARD_RANGE_INT_HI,
     WVM_GUARD_RANGE_INT_BOTH, WVM_GUARD_CLASS, WVM_GUARD_SHAPE, WVM_GUARD_PROTO,
     WVM_GUARD_RES_STACK_OVERFLOW, WVM_GUARD_RES_MEMORY, WVM_GUARD_RES_TIMEOUT,
     WVM_GUARD_RES_RECURSION_DEPTH]"

primrec wvmGuardNames :: "WVMGuardKind \<Rightarrow> string" where
  "wvmGuardNames WVM_GUARD_TYPE_INT = ''type-int''"
| "wvmGuardNames WVM_GUARD_TYPE_FLOAT = ''type-float''"
| "wvmGuardNames WVM_GUARD_TYPE_STRING = ''type-string''"
| "wvmGuardNames WVM_GUARD_TYPE_BOOL = ''type-bool''"
| "wvmGuardNames WVM_GUARD_TYPE_TABLE = ''type-table''"
| "wvmGuardNames WVM_GUARD_TYPE_FUNCTION = ''type-function''"
| "wvmGuardNames WVM_GUARD_TYPE_NIL = ''type-nil''"
| "wvmGuardNames WVM_GUARD_TYPE_USERDATA = ''type-userdata''"
| "wvmGuardNames WVM_GUARD_COND_TRUE = ''cond-true''"
| "wvmGuardNames WVM_GUARD_COND_FALSE = ''cond-false''"
| "wvmGuardNames WVM_GUARD_COND_NOT_NIL = ''cond-not-nil''"
| "wvmGuardNames WVM_GUARD_COND_EQ = ''cond-eq''"
| "wvmGuardNames WVM_GUARD_COND_LT = ''cond-lt''"
| "wvmGuardNames WVM_GUARD_COND_LE = ''cond-le''"
| "wvmGuardNames WVM_GUARD_RANGE_INT_LO = ''range-int-lo''"
| "wvmGuardNames WVM_GUARD_RANGE_INT_HI = ''range-int-hi''"
| "wvmGuardNames WVM_GUARD_RANGE_INT_BOTH = ''range-int-both''"
| "wvmGuardNames WVM_GUARD_CLASS = ''class''"
| "wvmGuardNames WVM_GUARD_SHAPE = ''shape''"
| "wvmGuardNames WVM_GUARD_PROTO = ''proto''"
| "wvmGuardNames WVM_GUARD_RES_STACK_OVERFLOW = ''res-stack-overflow''"
| "wvmGuardNames WVM_GUARD_RES_MEMORY = ''res-memory''"
| "wvmGuardNames WVM_GUARD_RES_TIMEOUT = ''res-timeout''"
| "wvmGuardNames WVM_GUARD_RES_RECURSION_DEPTH = ''res-recursion-depth''"

text \<open>The numbering is the position in the enumeration, so decoding a number gives it back.\<close>

instantiation WVMOpcodeEnum :: enum
begin
definition enum_WVMOpcodeEnum :: "WVMOpcodeEnum list" where
  "enum_WVMOpcodeEnum = wvm_all_opcodes"
definition enum_all_WVMOpcodeEnum :: "(WVMOpcodeEnum \<Rightarrow> bool) \<Rightarrow> bool" where
  "enum_all_WVMOpcodeEnum P = list_all P wvm_all_opcodes"
definition enum_ex_WVMOpcodeEnum :: "(WVMOpcodeEnum \<Rightarrow> bool) \<Rightarrow> bool" where
  "enum_ex_WVMOpcodeEnum P = list_ex P wvm_all_opcodes"
instance
proof
  have all: "op \<in> set wvm_all_opcodes" for op :: WVMOpcodeEnum
    by (cases op) (simp_all add: wvm_all_opcodes_def)
  then show u: "(UNIV :: WVMOpcodeEnum set) = set enum_class.enum"
    by (auto simp: enum_WVMOpcodeEnum_def)
  show "distinct (enum_class.enum :: WVMOpcodeEnum list)"
    by (simp add: enum_WVMOpcodeEnum_def wvm_all_opcodes_def)
  fix P :: "WVMOpcodeEnum \<Rightarrow> bool"
  show "enum_class.enum_all P = Ball UNIV P"
    using all by (auto simp: enum_all_WVMOpcodeEnum_def list_all_iff)
  show "enum_class.enum_ex P = Bex UNIV P"
    using all by (auto simp: enum_ex_WVMOpcodeEnum_def list_ex_iff)
qed
end

lemma WVM_OP_COUNT_eq: "WVM_OP_COUNT = 58"
  by (simp add: WVM_OP_COUNT_def wvm_all_opcodes_def)

lemma wvm_opcode_of_num [simp]: "wvm_opcode_of (wvm_opcode_num op) = Some op"
  by (cases op) (simp_all add: wvm_opcode_of_def WVM_OP_COUNT_eq wvm_all_opcodes_def)

declare wvm_opcode_num.simps [simp del]

lemma wvm_opcode_num_inject [simp]: "wvm_opcode_num a = wvm_opcode_num b \<longleftrightarrow> a = b"
  by (metis option.inject wvm_opcode_of_num)

definition wvmGetEncoding :: "u8 \<Rightarrow> WVMEncodingType" where
  "wvmGetEncoding op =
     (case wvm_opcode_of op of Some e \<Rightarrow> wvmOpcodeEncodings e | None \<Rightarrow> WVM_ENC_OP)"

definition wvmOpcodeName :: "u8 \<Rightarrow> string" where
  "wvmOpcodeName op =
     (case wvm_opcode_of op of Some e \<Rightarrow> wvmOpcodeNames e | None \<Rightarrow> ''unknown'')"

definition wvmOpcodeRegCount :: "u8 \<Rightarrow> int" where
  "wvmOpcodeRegCount op =
     (case wvmGetEncoding op of
        WVM_ENC_OP_R \<Rightarrow> 1 | WVM_ENC_OP_RR \<Rightarrow> 2 | WVM_ENC_OP_RRR \<Rightarrow> 3
      | WVM_ENC_OP_R_IMM16 \<Rightarrow> 1 | WVM_ENC_OP_R_IMM32 \<Rightarrow> 1 | WVM_ENC_OP_R_CONST \<Rightarrow> 1
      | WVM_ENC_OP_R_STR \<Rightarrow> 1 | WVM_ENC_OP_R_JUMP \<Rightarrow> 1
      | WVM_ENC_OP_RR_CONST \<Rightarrow> 2 | WVM_ENC_OP_RR_JUMP \<Rightarrow> 2
      | WVM_ENC_OP_GUARD \<Rightarrow> 1
      | _ \<Rightarrow> 0)"

definition wvmOpcodeIsBranch :: "u8 \<Rightarrow> bool" where
  "wvmOpcodeIsBranch op \<longleftrightarrow>
     op = wvm_opcode_num WVM_OP_JUMP \<or> op = wvm_opcode_num WVM_OP_JUMP_IF_TRUE
   \<or> op = wvm_opcode_num WVM_OP_JUMP_IF_FALSE \<or> op = wvm_opcode_num WVM_OP_RETURN"

definition wvmOpcodeIsGuard :: "u8 \<Rightarrow> bool" where
  "wvmOpcodeIsGuard op \<longleftrightarrow>
     wvm_opcode_num WVM_OP_GUARD_TYPE \<le> op \<and> op \<le> wvm_opcode_num WVM_OP_GUARD_RESOURCE"

definition wvmOpcodeHasSideEffect :: "u8 \<Rightarrow> bool" where
  "wvmOpcodeHasSideEffect op \<longleftrightarrow>
     op = wvm_opcode_num WVM_OP_RETURN \<or> op = wvm_opcode_num WVM_OP_CALL
   \<or> op = wvm_opcode_num WVM_OP_TAILCALL \<or> op = wvm_opcode_num WVM_OP_STORE_GLOBAL
   \<or> op = wvm_opcode_num WVM_OP_STORE_UPVAL \<or> op = wvm_opcode_num WVM_OP_STORE_FIELD
   \<or> op = wvm_opcode_num WVM_OP_SET_INDEX"

definition wvmGuardKindName :: "nat \<Rightarrow> string" where
  "wvmGuardKindName kind =
     (if kind < length wvm_all_guards then wvmGuardNames (wvm_all_guards ! kind)
      else ''guard-unknown'')"

text \<open>The guard range test agrees with the encoding table on every opcode.\<close>

lemma wvm_opcode_num_less [simp]: "unat (wvm_opcode_num op) < WVM_OP_COUNT"
  using wvm_opcode_of_num [of op] by (auto simp: wvm_opcode_of_def split: if_splits)

lemma wvmGetEncoding_num [simp]: "wvmGetEncoding (wvm_opcode_num op) = wvmOpcodeEncodings op"
  by (simp add: wvmGetEncoding_def)

lemma wvmOpcodeIsGuard_iff:
  "wvmOpcodeIsGuard (wvm_opcode_num op) \<longleftrightarrow> wvmOpcodeEncodings op = WVM_ENC_OP_GUARD"
  by (cases op) (simp_all add: wvmOpcodeIsGuard_def wvm_opcode_num.simps word_le_nat_alt)

section \<open>Instruction words\<close>

type_synonym WVMInstr = u64
type_synonym WVMReg = u16

definition WVM_ENCODE_OP :: "u8 \<Rightarrow> WVMInstr" where
  "WVM_ENCODE_OP op = ucast op"

definition WVM_ENCODE_OP_R :: "u8 \<Rightarrow> WVMReg \<Rightarrow> WVMInstr" where
  "WVM_ENCODE_OP_R op a = ucast op OR push_bit 8 (ucast a)"

definition WVM_ENCODE_OP_RR :: "u8 \<Rightarrow> WVMReg \<Rightarrow> WVMReg \<Rightarrow> WVMInstr" where
  "WVM_ENCODE_OP_RR op a b = ucast op OR push_bit 8 (ucast a) OR push_bit 24 (ucast b)"

definition WVM_ENCODE_OP_RRR :: "u8 \<Rightarrow> WVMReg \<Rightarrow> WVMReg \<Rightarrow> WVMReg \<Rightarrow> WVMInstr" where
  "WVM_ENCODE_OP_RRR op a b c =
     ucast op OR push_bit 8 (ucast a) OR push_bit 24 (ucast b) OR push_bit 40 (ucast c)"

text \<open>Fields of 16 bits hold the low half of the value the macro is given.\<close>

definition WVM_ENCODE_OP_R_IMM16 :: "u8 \<Rightarrow> WVMReg \<Rightarrow> u32 \<Rightarrow> WVMInstr" where
  "WVM_ENCODE_OP_R_IMM16 op a imm =
     ucast op OR push_bit 8 (ucast a) OR push_bit 24 (ucast (ucast imm :: u16))"

definition WVM_ENCODE_OP_R_IMM32 :: "u8 \<Rightarrow> WVMReg \<Rightarrow> u32 \<Rightarrow> WVMInstr" where
  "WVM_ENCODE_OP_R_IMM32 op a imm =
     ucast op OR push_bit 8 (ucast a) OR push_bit 24 (ucast imm)"

definition WVM_ENCODE_OP_R_CONST :: "u8 \<Rightarrow> WVMReg \<Rightarrow> u32 \<Rightarrow> WVMInstr" where
  "WVM_ENCODE_OP_R_CONST op a k =
     ucast op OR push_bit 8 (ucast a) OR push_bit 24 (ucast k)"

definition WVM_ENCODE_OP_RR_CONST :: "u8 \<Rightarrow> WVMReg \<Rightarrow> WVMReg \<Rightarrow> u32 \<Rightarrow> WVMInstr" where
  "WVM_ENCODE_OP_RR_CONST op a b k =
     ucast op OR push_bit 8 (ucast a) OR push_bit 24 (ucast b) OR push_bit 40 (ucast (ucast k :: u16))"

definition WVM_ENCODE_OP_R_STR :: "u8 \<Rightarrow> WVMReg \<Rightarrow> u32 \<Rightarrow> WVMInstr" where
  "WVM_ENCODE_OP_R_STR op a s =
     ucast op OR push_bit 8 (ucast a) OR push_bit 24 (ucast s)"

definition WVM_ENCODE_OP_JUMP :: "u8 \<Rightarrow> u32 \<Rightarrow> WVMInstr" where
  "WVM_ENCODE_OP_JUMP op off = ucast op OR push_bit 8 (ucast off)"

definition WVM_ENCODE_OP_R_JUMP :: "u8 \<Rightarrow> WVMReg \<Rightarrow> u32 \<Rightarrow> WVMInstr" where
  "WVM_ENCODE_OP_R_JUMP op a off =
     ucast op OR push_bit 8 (ucast a) OR push_bit 24 (ucast off)"

definition WVM_ENCODE_OP_RR_JUMP :: "u8 \<Rightarrow> WVMReg \<Rightarrow> WVMReg \<Rightarrow> u32 \<Rightarrow> WVMInstr" where
  "WVM_ENCODE_OP_RR_JUMP op a b off =
     ucast op OR push_bit 8 (ucast a) OR push_bit 24 (ucast b) OR push_bit 40 (ucast (ucast off :: u16))"

definition WVM_ENCODE_GUARD :: "u8 \<Rightarrow> u8 \<Rightarrow> WVMReg \<Rightarrow> u32 \<Rightarrow> WVMInstr" where
  "WVM_ENCODE_GUARD op kind reg deopt =
     ucast op OR push_bit 8 (ucast kind) OR push_bit 16 (ucast reg) OR push_bit 32 (ucast deopt)"

definition WVM_DECODE_OP :: "WVMInstr \<Rightarrow> u8" where
  "WVM_DECODE_OP i = ucast (i AND 0xFF)"

definition WVM_DECODE_R_A :: "WVMInstr \<Rightarrow> WVMReg" where
  "WVM_DECODE_R_A i = ucast (drop_bit 8 i AND 0xFFFF)"

definition WVM_DECODE_R_B :: "WVMInstr \<Rightarrow> WVMReg" where
  "WVM_DECODE_R_B i = ucast (drop_bit 24 i AND 0xFFFF)"

definition WVM_DECODE_R_C :: "WVMInstr \<Rightarrow> WVMReg" where
  "WVM_DECODE_R_C i = ucast (drop_bit 40 i AND 0xFFFF)"

definition WVM_DECODE_IMM16 :: "WVMInstr \<Rightarrow> u16" where
  "WVM_DECODE_IMM16 i = ucast (drop_bit 24 i AND 0xFFFF)"

definition WVM_DECODE_IMM32 :: "WVMInstr \<Rightarrow> u32" where
  "WVM_DECODE_IMM32 i = ucast (drop_bit 24 i AND 0xFFFFFFFF)"

definition WVM_DECODE_CONST :: "WVMInstr \<Rightarrow> u32" where
  "WVM_DECODE_CONST i = ucast (drop_bit 24 i AND 0xFFFFFFFF)"

definition WVM_DECODE_STR :: "WVMInstr \<Rightarrow> u32" where
  "WVM_DECODE_STR i = ucast (drop_bit 24 i AND 0xFFFFFFFF)"

text \<open>The decoders of a signed field give the word; \<open>sint\<close> reads it as the C code does.\<close>

definition WVM_DECODE_JUMP :: "WVMInstr \<Rightarrow> u32" where
  "WVM_DECODE_JUMP i = ucast (drop_bit 8 i AND 0xFFFFFFFF)"

definition WVM_DECODE_R_JUMP :: "WVMInstr \<Rightarrow> u32" where
  "WVM_DECODE_R_JUMP i = ucast (drop_bit 24 i AND 0xFFFFFFFF)"

definition WVM_DECODE_RR_JUMP :: "WVMInstr \<Rightarrow> u16" where
  "WVM_DECODE_RR_JUMP i = ucast (drop_bit 40 i AND 0xFFFF)"

definition WVM_DECODE_GUARD_KIND :: "WVMInstr \<Rightarrow> u8" where
  "WVM_DECODE_GUARD_KIND i = ucast (drop_bit 8 i AND 0xFF)"

definition WVM_DECODE_GUARD_REG :: "WVMInstr \<Rightarrow> WVMReg" where
  "WVM_DECODE_GUARD_REG i = ucast (drop_bit 16 i AND 0xFFFF)"

definition WVM_DECODE_GUARD_DEOPT :: "WVMInstr \<Rightarrow> u32" where
  "WVM_DECODE_GUARD_DEOPT i = ucast (drop_bit 32 i AND 0xFFFFFFFF)"

lemmas wvm_encode_defs =
  WVM_ENCODE_OP_def WVM_ENCODE_OP_R_def WVM_ENCODE_OP_RR_def WVM_ENCODE_OP_RRR_def
  WVM_ENCODE_OP_R_IMM16_def WVM_ENCODE_OP_R_IMM32_def WVM_ENCODE_OP_R_CONST_def
  WVM_ENCODE_OP_RR_CONST_def WVM_ENCODE_OP_R_STR_def WVM_ENCODE_OP_JUMP_def
  WVM_ENCODE_OP_R_JUMP_def WVM_ENCODE_OP_RR_JUMP_def WVM_ENCODE_GUARD_def

lemmas wvm_decode_defs =
  WVM_DECODE_OP_def WVM_DECODE_R_A_def WVM_DECODE_R_B_def WVM_DECODE_R_C_def
  WVM_DECODE_IMM16_def WVM_DECODE_IMM32_def WVM_DECODE_CONST_def WVM_DECODE_STR_def
  WVM_DECODE_JUMP_def WVM_DECODE_R_JUMP_def WVM_DECODE_RR_JUMP_def
  WVM_DECODE_GUARD_KIND_def WVM_DECODE_GUARD_REG_def WVM_DECODE_GUARD_DEOPT_def

text \<open>The masks select exactly the low bits, so a decoded field is a truncated shift.\<close>

lemma mask_literals:
  "(0xFF :: u64) = mask 8" "(0xFFFF :: u64) = mask 16" "(0xFFFFFFFF :: u64) = mask 32"
  by (simp_all add: mask_eq_exp_minus_1)

lemmas wvm_field_simps = wvm_encode_defs wvm_decode_defs mask_literals

text \<open>Every field of every format decodes to what was encoded.\<close>

lemma decode_op_simps [simp]:
  "WVM_DECODE_OP (WVM_ENCODE_OP op) = op"
  "WVM_DECODE_OP (WVM_ENCODE_OP_R op a) = op"
  "WVM_DECODE_OP (WVM_ENCODE_OP_RR op a b) = op"
  "WVM_DECODE_OP (WVM_ENCODE_OP_RRR op a b c) = op"
  "WVM_DECODE_OP (WVM_ENCODE_OP_R_IMM16 op a imm) = op"
  "WVM_DECODE_OP (WVM_ENCODE_OP_R_IMM32 op a imm') = op"
  "WVM_DECODE_OP (WVM_ENCODE_OP_R_CONST op a k) = op"
  "WVM_DECODE_OP (WVM_ENCODE_OP_RR_CONST op a b k') = op"
  "WVM_DECODE_OP (WVM_ENCODE_OP_R_STR op a k) = op"
  "WVM_DECODE_OP (WVM_ENCODE_OP_JUMP op off) = op"
  "WVM_DECODE_OP (WVM_ENCODE_OP_R_JUMP op a off) = op"
  "WVM_DECODE_OP (WVM_ENCODE_OP_RR_JUMP op a b off') = op"
  "WVM_DECODE_OP (WVM_ENCODE_GUARD op kind a off) = op"
  by (rule bit_word_eqI; auto simp: wvm_field_simps bit_simps dest: bit_imp_le_length)+

lemma decode_reg_simps [simp]:
  "WVM_DECODE_R_A (WVM_ENCODE_OP_R op a) = a"
  "WVM_DECODE_R_A (WVM_ENCODE_OP_RR op a b) = a"
  "WVM_DECODE_R_A (WVM_ENCODE_OP_RRR op a b c) = a"
  "WVM_DECODE_R_A (WVM_ENCODE_OP_R_IMM16 op a imm) = a"
  "WVM_DECODE_R_A (WVM_ENCODE_OP_R_IMM32 op a imm') = a"
  "WVM_DECODE_R_A (WVM_ENCODE_OP_R_CONST op a k) = a"
  "WVM_DECODE_R_A (WVM_ENCODE_OP_RR_CONST op a b k') = a"
  "WVM_DECODE_R_A (WVM_ENCODE_OP_R_STR op a k) = a"
  "WVM_DECODE_R_A (WVM_ENCODE_OP_R_JUMP op a off) = a"
  "WVM_DECODE_R_A (WVM_ENCODE_OP_RR_JUMP op a b off') = a"
  "WVM_DECODE_R_B (WVM_ENCODE_OP_RR op a b) = b"
  "WVM_DECODE_R_B (WVM_ENCODE_OP_RRR op a b c) = b"
  "WVM_DECODE_R_B (WVM_ENCODE_OP_RR_CONST op a b k') = b"
  "WVM_DECODE_R_B (WVM_ENCODE_OP_RR_JUMP op a b off') = b"
  "WVM_DECODE_R_C (WVM_ENCODE_OP_RRR op a b c) = c"
  "WVM_DECODE_R_C (WVM_ENCODE_OP_RR_CONST op a b k') = ucast k'"
  by (rule bit_word_eqI; auto simp: wvm_field_simps bit_simps dest: bit_imp_le_length)+

lemma decode_payload_simps [simp]:
  "WVM_DECODE_IMM16 (WVM_ENCODE_OP_R_IMM16 op a imm) = ucast imm"
  "WVM_DECODE_IMM32 (WVM_ENCODE_OP_R_IMM32 op a imm') = imm'"
  "WVM_DECODE_CONST (WVM_ENCODE_OP_R_CONST op a k) = k"
  "WVM_DECODE_STR (WVM_ENCODE_OP_R_STR op a k) = k"
  "WVM_DECODE_JUMP (WVM_ENCODE_OP_JUMP op off) = off"
  "WVM_DECODE_R_JUMP (WVM_ENCODE_OP_R_JUMP op a off) = off"
  "WVM_DECODE_RR_JUMP (WVM_ENCODE_OP_RR_JUMP op a b off') = ucast off'"
  "WVM_DECODE_GUARD_KIND (WVM_ENCODE_GUARD op kind a off) = kind"
  "WVM_DECODE_GUARD_REG (WVM_ENCODE_GUARD op kind a off) = a"
  "WVM_DECODE_GUARD_DEOPT (WVM_ENCODE_GUARD op kind a off) = off"
  by (rule bit_word_eqI; auto simp: wvm_field_simps bit_simps dest: bit_imp_le_length)+

section \<open>NaN-boxed values\<close>

type_synonym WVMValue = u64

definition WVM_NANBOX_TAG_MASK :: u64 where "WVM_NANBOX_TAG_MASK = 0xFFFF000000000000"
definition WVM_NANBOX_QNAN :: u64 where "WVM_NANBOX_QNAN = 0x7FFC000000000000"
definition WVM_NANBOX_TAG_NIL :: u64 where
  "WVM_NANBOX_TAG_NIL = WVM_NANBOX_QNAN OR 0x0001000000000000"
definition WVM_NANBOX_TAG_FALSE :: u64 where
  "WVM_NANBOX_TAG_FALSE = WVM_NANBOX_QNAN OR 0x0002000000000000"
definition WVM_NANBOX_TAG_TRUE :: u64 where
  "WVM_NANBOX_TAG_TRUE = WVM_NANBOX_QNAN OR 0x0003000000000000"
definition WVM_NANBOX_TAG_INT :: u64 where
  "WVM_NANBOX_TAG_INT = WVM_NANBOX_QNAN OR 0x0004000000000000"
definition WVM_NANBOX_TAG_OBJ :: u64 where
  "WVM_NANBOX_TAG_OBJ = WVM_NANBOX_QNAN OR 0x8000000000000000"

abbreviation WVM_VALUE_NIL :: WVMValue where "WVM_VALUE_NIL \<equiv> WVM_NANBOX_TAG_NIL"
abbreviation WVM_VALUE_TRUE :: WVMValue where "WVM_VALUE_TRUE \<equiv> WVM_NANBOX_TAG_TRUE"
abbreviation WVM_VALUE_FALSE :: WVMValue where "WVM_VALUE_FALSE \<equiv> WVM_NANBOX_TAG_FALSE"

text \<open>
  \<open>WVM_VALUE_FROM_INT\<close> takes the 32 bits of the integer (the macro casts to
  \<^verbatim>\<open>uint32_t\<close>); \<open>WVM_VALUE_FROM_OBJ\<close> takes the address.
\<close>

definition WVM_VALUE_FROM_INT :: "u32 \<Rightarrow> WVMValue" where
  "WVM_VALUE_FROM_INT i = WVM_NANBOX_TAG_INT OR ucast i"
definition WVM_VALUE_FROM_OBJ :: "u64 \<Rightarrow> WVMValue" where
  "WVM_VALUE_FROM_OBJ p = WVM_NANBOX_TAG_OBJ OR (p AND 0x0000FFFFFFFFFFFF)"

definition WVM_IS_FLOAT :: "WVMValue \<Rightarrow> bool" where
  "WVM_IS_FLOAT v \<longleftrightarrow> v AND WVM_NANBOX_QNAN \<noteq> WVM_NANBOX_QNAN"
definition WVM_IS_NIL :: "WVMValue \<Rightarrow> bool" where
  "WVM_IS_NIL v \<longleftrightarrow> v = WVM_NANBOX_TAG_NIL"
definition WVM_IS_FALSE :: "WVMValue \<Rightarrow> bool" where
  "WVM_IS_FALSE v \<longleftrightarrow> v = WVM_NANBOX_TAG_FALSE"
definition WVM_IS_BOOL :: "WVMValue \<Rightarrow> bool" where
  "WVM_IS_BOOL v \<longleftrightarrow> v = WVM_NANBOX_TAG_TRUE \<or> v = WVM_NANBOX_TAG_FALSE"
definition WVM_IS_INT :: "WVMValue \<Rightarrow> bool" where
  "WVM_IS_INT v \<longleftrightarrow> v AND WVM_NANBOX_TAG_MASK = WVM_NANBOX_TAG_INT"
definition WVM_IS_OBJ :: "WVMValue \<Rightarrow> bool" where
  "WVM_IS_OBJ v \<longleftrightarrow> v AND WVM_NANBOX_TAG_OBJ = WVM_NANBOX_TAG_OBJ"

definition WVM_AS_INT :: "WVMValue \<Rightarrow> u32" where
  "WVM_AS_INT v = ucast (v AND 0xFFFFFFFF)"
definition WVM_AS_OBJ :: "WVMValue \<Rightarrow> u64" where
  "WVM_AS_OBJ v = v AND 0x0000FFFFFFFFFFFF"
definition WVM_IS_TRUTHY :: "WVMValue \<Rightarrow> bool" where
  "WVM_IS_TRUTHY v \<longleftrightarrow> \<not> WVM_IS_NIL v \<and> \<not> WVM_IS_FALSE v"

lemma wvm_tags [wvm_val]:
  "WVM_NANBOX_TAG_NIL = 0x7FFD000000000000" "WVM_NANBOX_TAG_FALSE = 0x7FFE000000000000"
  "WVM_NANBOX_TAG_TRUE = 0x7FFF000000000000" "WVM_NANBOX_TAG_INT = 0x7FFC000000000000"
  "WVM_NANBOX_TAG_OBJ = 0xFFFC000000000000"
  by (simp_all add: WVM_NANBOX_TAG_NIL_def WVM_NANBOX_TAG_FALSE_def WVM_NANBOX_TAG_TRUE_def
      WVM_NANBOX_TAG_INT_def WVM_NANBOX_TAG_OBJ_def WVM_NANBOX_QNAN_def)

lemma mask48_literal: "(0x0000FFFFFFFFFFFF :: u64) = mask 48"
  by (simp add: mask_eq_exp_minus_1)

lemma tag_literals:
  "(0xFFFF000000000000 :: u64) = push_bit 48 (mask 16)"
  "(0x7FFC000000000000 :: u64) = push_bit 50 (mask 13)"
  "(0xFFFC000000000000 :: u64) = push_bit 50 (mask 14)"
  by (simp_all add: mask_eq_exp_minus_1 push_bit_eq_mult)

lemma WVM_AS_INT_FROM_INT [simp]: "WVM_AS_INT (WVM_VALUE_FROM_INT i) = i"
  by (rule bit_word_eqI)
     (auto simp: WVM_AS_INT_def WVM_VALUE_FROM_INT_def wvm_tags tag_literals mask_literals
       bit_simps)

lemma WVM_IS_INT_FROM_INT [simp]: "WVM_IS_INT (WVM_VALUE_FROM_INT i)"
proof -
  have "(WVM_NANBOX_TAG_INT OR ucast i) AND WVM_NANBOX_TAG_MASK = WVM_NANBOX_TAG_INT"
    by (rule bit_word_eqI)
       (auto simp: wvm_tags WVM_NANBOX_TAG_MASK_def tag_literals bit_simps
         dest: bit_imp_le_length)
  then show ?thesis by (simp add: WVM_IS_INT_def WVM_VALUE_FROM_INT_def)
qed

lemma WVM_FROM_INT_inject [simp]: "WVM_VALUE_FROM_INT a = WVM_VALUE_FROM_INT b \<longleftrightarrow> a = b"
  by (metis WVM_AS_INT_FROM_INT)

lemma WVM_IS_INT_not_bool_nil: "WVM_IS_INT v \<Longrightarrow> \<not> WVM_IS_NIL v \<and> \<not> WVM_IS_BOOL v"
  by (auto simp: WVM_IS_INT_def WVM_IS_NIL_def WVM_IS_BOOL_def wvm_tags
      WVM_NANBOX_TAG_MASK_def)

lemma WVM_FROM_INT_truthy [simp]: "WVM_IS_TRUTHY (WVM_VALUE_FROM_INT i)"
  using WVM_IS_INT_not_bool_nil [OF WVM_IS_INT_FROM_INT [of i]]
  by (auto simp: WVM_IS_TRUTHY_def WVM_IS_BOOL_def WVM_IS_FALSE_def)

lemma WVM_truthy_consts [simp]:
  "WVM_IS_TRUTHY WVM_VALUE_TRUE" "\<not> WVM_IS_TRUTHY WVM_VALUE_FALSE"
  "\<not> WVM_IS_TRUTHY WVM_VALUE_NIL"
  by (simp_all add: WVM_IS_TRUTHY_def WVM_IS_NIL_def WVM_IS_FALSE_def wvm_tags)

lemma WVM_bools_not_int [simp]:
  "\<not> WVM_IS_INT WVM_VALUE_TRUE" "\<not> WVM_IS_INT WVM_VALUE_FALSE" "\<not> WVM_IS_INT WVM_VALUE_NIL"
  by (simp_all add: WVM_IS_INT_def WVM_NANBOX_TAG_MASK_def wvm_tags)

text \<open>A cleared register (all bits zero) is the float zero, not an integer.\<close>

lemma WVM_zero_not_int [simp]: "\<not> WVM_IS_INT 0"
  by (simp add: WVM_IS_INT_def wvm_tags)

text \<open>
  Integers, objects and floats do not overlap: the tag bits of an integer and of an object
  both contain the quiet-NaN pattern, and they differ in the sign bit.
\<close>

lemma wvm_bit_50:
  "v AND WVM_NANBOX_TAG_MASK = WVM_NANBOX_TAG_INT \<Longrightarrow> v AND WVM_NANBOX_QNAN = WVM_NANBOX_QNAN"
proof (rule bit_word_eqI)
  fix n assume h: "v AND WVM_NANBOX_TAG_MASK = WVM_NANBOX_TAG_INT" and "n < LENGTH(64)"
  then have "bit (v AND WVM_NANBOX_TAG_MASK) n = bit WVM_NANBOX_TAG_INT n" by simp
  then show "bit (v AND WVM_NANBOX_QNAN) n = bit WVM_NANBOX_QNAN n"
    by (auto simp: WVM_NANBOX_TAG_MASK_def WVM_NANBOX_QNAN_def wvm_tags tag_literals bit_simps)
qed

lemma WVM_IS_INT_not_float: "WVM_IS_INT v \<Longrightarrow> \<not> WVM_IS_FLOAT v"
  by (simp add: WVM_IS_INT_def WVM_IS_FLOAT_def wvm_bit_50)

lemma WVM_IS_INT_not_obj: "WVM_IS_INT v \<Longrightarrow> \<not> WVM_IS_OBJ v"
proof
  assume "WVM_IS_INT v" "WVM_IS_OBJ v"
  then have "bit (v AND WVM_NANBOX_TAG_MASK) 63 = bit WVM_NANBOX_TAG_INT 63"
    and "bit (v AND WVM_NANBOX_TAG_OBJ) 63 = bit WVM_NANBOX_TAG_OBJ 63"
    by (simp_all add: WVM_IS_INT_def WVM_IS_OBJ_def)
  then show False
    by (simp add: WVM_NANBOX_TAG_MASK_def wvm_tags tag_literals bit_simps)
qed

lemma WVM_obj_roundtrip:
  assumes "p AND 0x0000FFFFFFFFFFFF = p"
  shows "WVM_IS_OBJ (WVM_VALUE_FROM_OBJ p)" and "WVM_AS_OBJ (WVM_VALUE_FROM_OBJ p) = p"
proof -
  have "(WVM_NANBOX_TAG_OBJ OR p AND mask 48) AND WVM_NANBOX_TAG_OBJ = WVM_NANBOX_TAG_OBJ"
    by (rule bit_word_eqI) (auto simp: bit_simps)
  then show "WVM_IS_OBJ (WVM_VALUE_FROM_OBJ p)"
    by (simp only: WVM_IS_OBJ_def WVM_VALUE_FROM_OBJ_def mask48_literal)
  have "(WVM_NANBOX_TAG_OBJ OR p AND mask 48) AND mask 48 = p AND mask 48"
    by (rule bit_word_eqI) (auto simp: wvm_tags tag_literals bit_simps)
  then show "WVM_AS_OBJ (WVM_VALUE_FROM_OBJ p) = p"
    using assms by (simp only: WVM_AS_OBJ_def WVM_VALUE_FROM_OBJ_def mask48_literal)
qed

section \<open>Properties\<close>

text \<open>
  C29. Instruction words round-trip in all thirteen formats: decoding the opcode and each operand
  field of an encoded instruction gives back what was encoded, for all values of the fields; no
  field disturbs another. The three fields of 16 bits (the short immediate, the short jump and the
  constant of a two-register instruction, which is read with the macro of the third register) give
  back the low 16 bits of the value the macro was given.
\<close>

theorem instruction_fields_roundtrip:
  "WVM_DECODE_OP (WVM_ENCODE_OP op) = op
 \<and> (let i = WVM_ENCODE_OP_R op a in (WVM_DECODE_OP i, WVM_DECODE_R_A i) = (op, a))
 \<and> (let i = WVM_ENCODE_OP_RR op a b in
      (WVM_DECODE_OP i, WVM_DECODE_R_A i, WVM_DECODE_R_B i) = (op, a, b))
 \<and> (let i = WVM_ENCODE_OP_RRR op a b c in
      (WVM_DECODE_OP i, WVM_DECODE_R_A i, WVM_DECODE_R_B i, WVM_DECODE_R_C i) = (op, a, b, c))
 \<and> (let i = WVM_ENCODE_OP_R_IMM32 op a imm in
      (WVM_DECODE_OP i, WVM_DECODE_R_A i, WVM_DECODE_IMM32 i) = (op, a, imm))
 \<and> (let i = WVM_ENCODE_OP_R_IMM16 op a imm in
      (WVM_DECODE_OP i, WVM_DECODE_R_A i, WVM_DECODE_IMM16 i) = (op, a, ucast imm))
 \<and> (let i = WVM_ENCODE_OP_R_CONST op a k in
      (WVM_DECODE_OP i, WVM_DECODE_R_A i, WVM_DECODE_CONST i) = (op, a, k))
 \<and> (let i = WVM_ENCODE_OP_RR_CONST op a b k in
      (WVM_DECODE_OP i, WVM_DECODE_R_A i, WVM_DECODE_R_B i, WVM_DECODE_R_C i) = (op, a, b, ucast k))
 \<and> (let i = WVM_ENCODE_OP_R_STR op a k in
      (WVM_DECODE_OP i, WVM_DECODE_R_A i, WVM_DECODE_STR i) = (op, a, k))
 \<and> (let i = WVM_ENCODE_OP_JUMP op off in
      (WVM_DECODE_OP i, WVM_DECODE_JUMP i) = (op, off))
 \<and> (let i = WVM_ENCODE_OP_R_JUMP op a off in
      (WVM_DECODE_OP i, WVM_DECODE_R_A i, WVM_DECODE_R_JUMP i) = (op, a, off))
 \<and> (let i = WVM_ENCODE_OP_RR_JUMP op a b off in
      (WVM_DECODE_OP i, WVM_DECODE_R_A i, WVM_DECODE_R_B i, WVM_DECODE_RR_JUMP i)
        = (op, a, b, ucast off))
 \<and> (let i = WVM_ENCODE_GUARD op kind a deopt in
      (WVM_DECODE_OP i, WVM_DECODE_GUARD_KIND i, WVM_DECODE_GUARD_REG i, WVM_DECODE_GUARD_DEOPT i)
        = (op, kind, a, deopt))"
  by (simp add: Let_def)

text \<open>
  NaN boxing of integers: a boxed 32-bit integer is recognised as an integer, unboxes to
  the same bits, is truthy, and is neither a float, nor nil, nor a boolean, nor an object;
  and the constants nil, true and false are not integers.
\<close>

theorem nan_boxed_int_roundtrip:
  "WVM_IS_INT (WVM_VALUE_FROM_INT i) \<and> WVM_AS_INT (WVM_VALUE_FROM_INT i) = i
 \<and> WVM_IS_TRUTHY (WVM_VALUE_FROM_INT i)
 \<and> \<not> WVM_IS_FLOAT (WVM_VALUE_FROM_INT i) \<and> \<not> WVM_IS_OBJ (WVM_VALUE_FROM_INT i)
 \<and> \<not> WVM_IS_NIL (WVM_VALUE_FROM_INT i) \<and> \<not> WVM_IS_BOOL (WVM_VALUE_FROM_INT i)
 \<and> \<not> WVM_IS_INT WVM_VALUE_NIL \<and> \<not> WVM_IS_INT WVM_VALUE_TRUE \<and> \<not> WVM_IS_INT WVM_VALUE_FALSE"
  using WVM_IS_INT_not_float WVM_IS_INT_not_obj WVM_IS_INT_not_bool_nil WVM_IS_INT_FROM_INT
  by simp

end
