(* ===== verification/Wvm_State.thy ===== *)
theory Wvm_State
  imports Wvm_Isa
begin

text \<open>
  The virtual machine state of \<^verbatim>\<open>wirble-wvm.h\<close> and the operations of
  \<^verbatim>\<open>wvm_runtime.c\<close> that do not run bytecode: creation, allocation accounting,
  configuration, errors, and the operand stack. The stack array is a list as long as the
  allocated capacity; the allocator is a parameter that says which sizes it can serve.
\<close>

section \<open>State\<close>

record WVMGCConfig =
  heapThreshold :: u64
  heapGrowFactor :: u64
  generational :: u8
  incremental :: u8
  incrementalStepSize :: u32

record WVMGCStats =
  totalAllocated :: u64
  totalFreed :: u64
  liveObjects :: u64
  collectionCount :: u64
  lastPauseMs :: u64
  totalPauseMs :: u64

datatype WVMJITTier = WVM_JIT_NONE | WVM_JIT_BASELINE | WVM_JIT_OPTIMIZED | WVM_JIT_TRACE

record WVMJITConfig =
  enabled :: u8
  maxTier :: WVMJITTier
  baselineThreshold :: u32
  optimizedThreshold :: u32
  traceHotThreshold :: u32
  traceMaxLength :: u32
  traceMaxSideExits :: u32
  deoptThreshold :: u32
  codeCacheSize :: u64

record WVMFrame =
  fr_regCount :: u16
  fr_pc :: u32

text \<open>
  \<open>errorHandler\<close> says whether a handler is installed and \<open>handlerLog\<close> collects the
  messages it was called with; what a handler does is the embedder's code.
\<close>

record WVMState =
  stack :: "WVMValue list"
  stackSize :: u32
  stackCap :: u32
  topFrame :: "WVMFrame option"
  frameDepth :: u32
  maxFrameDepth :: u32
  gcConfig :: WVMGCConfig
  gcStats :: WVMGCStats
  bytesAllocated :: u64
  jitConfig :: WVMJITConfig
  lastError :: "string option"
  hasError :: bool
  errorHandler :: bool
  handlerLog :: "string list"
  userData :: u64

type_synonym allocator = "u64 \<Rightarrow> bool"

text \<open>The array has the recorded capacity and the size is within it.\<close>

definition wf_vm :: "WVMState \<Rightarrow> bool" where
  "wf_vm vm \<longleftrightarrow> length (stack vm) = unat (stackCap vm) \<and> stackSize vm \<le> stackCap vm"

section \<open>Creation, accounting, configuration\<close>

definition zero_gc_config :: WVMGCConfig where
  "zero_gc_config = \<lparr>heapThreshold = 0, heapGrowFactor = 0, generational = 0,
     incremental = 0, incrementalStepSize = 0\<rparr>"

definition zero_gc_stats :: WVMGCStats where
  "zero_gc_stats = \<lparr>totalAllocated = 0, totalFreed = 0, liveObjects = 0,
     collectionCount = 0, lastPauseMs = 0, totalPauseMs = 0\<rparr>"

definition zero_jit_config :: WVMJITConfig where
  "zero_jit_config = \<lparr>enabled = 0, maxTier = WVM_JIT_NONE, baselineThreshold = 0,
     optimizedThreshold = 0, traceHotThreshold = 0, traceMaxLength = 0,
     traceMaxSideExits = 0, deoptThreshold = 0, codeCacheSize = 0\<rparr>"

text \<open>
  \<open>wvmCreateEx\<close> allocates the state and then the 32-slot stack, each zeroed by
  \<^verbatim>\<open>calloc\<close>; it gives \<open>None\<close> when either allocation fails. \<open>state_ok\<close> says whether
  the state itself was allocated.
\<close>

definition wvmCreateEx :: "bool \<Rightarrow> allocator \<Rightarrow> WVMState option" where
  "wvmCreateEx state_ok ok =
     (if \<not> state_ok then None
      else if \<not> ok (32 * 8) then None
      else Some \<lparr>stack = replicate 32 0, stackSize = 0, stackCap = 32, topFrame = None,
        frameDepth = 0, maxFrameDepth = 16, gcConfig = zero_gc_config,
        gcStats = zero_gc_stats, bytesAllocated = 0, jitConfig = zero_jit_config,
        lastError = None, hasError = False, errorHandler = False, handlerLog = [],
        userData = 0\<rparr>)"

definition wvmCreate :: "bool \<Rightarrow> allocator \<Rightarrow> WVMState option" where
  "wvmCreate state_ok ok = wvmCreateEx state_ok ok"

text \<open>
  Allocation through the VM's hook: the flag says whether the hook returned a block. The
  byte counter wraps as \<^verbatim>\<open>size_t\<close> does. A reallocation adds the growth even when the
  hook fails, and never takes anything off when it shrinks.
\<close>

definition wvmAlloc :: "allocator \<Rightarrow> WVMState \<Rightarrow> u64 \<Rightarrow> bool \<times> WVMState" where
  "wvmAlloc ok vm sz =
     (if ok sz then (True, vm\<lparr>bytesAllocated := bytesAllocated vm + sz\<rparr>)
      else (False, vm))"

definition wvmRealloc :: "allocator \<Rightarrow> WVMState \<Rightarrow> u64 \<Rightarrow> u64 \<Rightarrow> bool \<times> WVMState" where
  "wvmRealloc ok vm oldSize newSize =
     (ok newSize,
      if oldSize < newSize
      then vm\<lparr>bytesAllocated := bytesAllocated vm + (newSize - oldSize)\<rparr> else vm)"

definition wvmFree :: "WVMState \<Rightarrow> u64 \<Rightarrow> WVMState" where
  "wvmFree vm sz =
     (if sz \<le> bytesAllocated vm
      then vm\<lparr>bytesAllocated := bytesAllocated vm - sz\<rparr> else vm)"

definition wvmSetGCConfig :: "WVMState \<Rightarrow> WVMGCConfig option \<Rightarrow> WVMState" where
  "wvmSetGCConfig vm config =
     (case config of Some c \<Rightarrow> vm\<lparr>gcConfig := c\<rparr> | None \<Rightarrow> vm)"

definition wvmGetGCConfig :: "WVMState \<Rightarrow> WVMGCConfig" where
  "wvmGetGCConfig vm = gcConfig vm"

definition wvmGetGCStats :: "WVMState \<Rightarrow> WVMGCStats" where
  "wvmGetGCStats vm = gcStats vm"

definition wvmForceGC :: "WVMState \<Rightarrow> WVMState" where
  "wvmForceGC vm = vm"

definition wvmSetJITConfig :: "WVMState \<Rightarrow> WVMJITConfig option \<Rightarrow> WVMState" where
  "wvmSetJITConfig vm config =
     (case config of Some c \<Rightarrow> vm\<lparr>jitConfig := c\<rparr> | None \<Rightarrow> vm)"

definition wvmGetJITConfig :: "WVMState \<Rightarrow> WVMJITConfig" where
  "wvmGetJITConfig vm = jitConfig vm"

definition wvmSetErrorHandler :: "WVMState \<Rightarrow> bool \<Rightarrow> WVMState" where
  "wvmSetErrorHandler vm handler = vm\<lparr>errorHandler := handler\<rparr>"

definition wvmGetLastError :: "WVMState \<Rightarrow> string option" where
  "wvmGetLastError vm = lastError vm"

definition wvmClearError :: "WVMState \<Rightarrow> WVMState" where
  "wvmClearError vm = vm\<lparr>lastError := None, hasError := False\<rparr>"

definition wvmSetErrorf :: "WVMState \<Rightarrow> string option \<Rightarrow> WVMState" where
  "wvmSetErrorf vm message =
     (let vm' = vm\<lparr>lastError := message, hasError := (message \<noteq> None)\<rparr>
      in case message of
           Some m \<Rightarrow> if errorHandler vm then vm'\<lparr>handlerLog := handlerLog vm' @ [m]\<rparr> else vm'
         | None \<Rightarrow> vm')"

definition wvmSetUserData :: "WVMState \<Rightarrow> u64 \<Rightarrow> WVMState" where
  "wvmSetUserData vm ud = vm\<lparr>userData := ud\<rparr>"

definition wvmGetUserData :: "WVMState \<Rightarrow> u64" where
  "wvmGetUserData vm = userData vm"

section \<open>The operand stack\<close>

definition wvmEnsureStack :: "allocator \<Rightarrow> WVMState \<Rightarrow> u32 \<Rightarrow> WVMState cres" where
  "wvmEnsureStack ok vm extra =
     (let needed = stackSize vm + extra in
      if needed \<le> stackCap vm then Inr vm
      else case grow_cap (if stackCap vm = 0 then 32 else stackCap vm) needed of
             None \<Rightarrow> Inl Diverges
           | Some newCap \<Rightarrow>
               if ok (ucast newCap * 8)
               then Inr (vm\<lparr>stack := stack vm @ replicate (unat (newCap - stackCap vm)) 0,
                           stackCap := newCap\<rparr>)
               else Inr vm)"

definition wvmPush :: "allocator \<Rightarrow> WVMState \<Rightarrow> WVMValue \<Rightarrow> WVMState cres" where
  "wvmPush ok vm val =
     cbind (wvmEnsureStack ok vm 1) (\<lambda>vm.
     cbind (arr_set (stack vm) (unat (stackSize vm)) val) (\<lambda>s.
     Inr (vm\<lparr>stack := s, stackSize := stackSize vm + 1\<rparr>)))"

definition wvmPop :: "WVMState \<Rightarrow> (WVMValue \<times> WVMState) cres" where
  "wvmPop vm =
     (if stackSize vm = 0 then Inr (WVM_VALUE_NIL, vm)
      else cbind (arr_get (stack vm) (unat (stackSize vm - 1))) (\<lambda>v.
           Inr (v, vm\<lparr>stackSize := stackSize vm - 1\<rparr>)))"

definition wvmPeek :: "WVMState \<Rightarrow> int \<Rightarrow> WVMValue cres" where
  "wvmPeek vm offset =
     (if offset < 0 \<or> stackSize vm \<le> word_of_int offset then Inr WVM_VALUE_NIL
      else arr_get (stack vm) (unat (stackSize vm - 1 - word_of_int offset)))"

definition wvmSetReg :: "allocator \<Rightarrow> WVMState \<Rightarrow> WVMReg \<Rightarrow> WVMValue \<Rightarrow> WVMState cres" where
  "wvmSetReg ok vm reg val =
     cbind (if stackCap vm \<le> ucast reg
            then wvmEnsureStack ok vm (ucast reg - stackSize vm + 1) else Inr vm) (\<lambda>vm.
     let vm = (if stackSize vm \<le> ucast reg then vm\<lparr>stackSize := ucast reg + 1\<rparr> else vm) in
     cbind (arr_set (stack vm) (unat reg) val) (\<lambda>s. Inr (vm\<lparr>stack := s\<rparr>)))"

definition wvmGetReg :: "WVMState \<Rightarrow> WVMReg \<Rightarrow> WVMValue cres" where
  "wvmGetReg vm reg =
     (if stackSize vm \<le> ucast reg then Inr WVM_VALUE_NIL
      else arr_get (stack vm) (unat reg))"

definition wvmStackSize :: "WVMState \<Rightarrow> u32" where
  "wvmStackSize vm = stackSize vm"

section \<open>The stack as a last-in first-out store\<close>

text \<open>
  The contract a client of an operand stack relies on: \<open>contents\<close> is the abstract stack,
  bottom first, and \<open>room\<close> the states in which one more value fits.
\<close>

locale lifo =
  fixes push :: "'s \<Rightarrow> 'v \<Rightarrow> 's cres"
    and pop :: "'s \<Rightarrow> ('v \<times> 's) cres"
    and contents :: "'s \<Rightarrow> 'v list"
    and inv :: "'s \<Rightarrow> bool"
    and room :: "nat \<Rightarrow> 's \<Rightarrow> bool"
  assumes push_ok: "\<lbrakk>inv s; room (Suc n) s\<rbrakk> \<Longrightarrow>
      \<exists>t. push s v = Inr t \<and> inv t \<and> room n t \<and> contents t = contents s @ [v]"
    and pop_ok: "\<lbrakk>inv s; contents s \<noteq> []\<rbrakk> \<Longrightarrow>
      \<exists>t. pop s = Inr (last (contents s), t) \<and> inv t \<and> contents t = butlast (contents s)"
begin

fun push_all :: "'s \<Rightarrow> 'v list \<Rightarrow> 's cres" where
  "push_all s [] = Inr s"
| "push_all s (v # vs) = cbind (push s v) (\<lambda>t. push_all t vs)"

fun pop_n :: "'s \<Rightarrow> nat \<Rightarrow> ('v list \<times> 's) cres" where
  "pop_n s 0 = Inr ([], s)"
| "pop_n s (Suc n) = cbind (pop s) (\<lambda>(v, t). cbind (pop_n t n) (\<lambda>(vs, u). Inr (v # vs, u)))"

lemma push_pop:
  assumes "inv s" and "room (Suc n) s"
  shows "\<exists>t u. push s v = Inr t \<and> pop t = Inr (v, u) \<and> inv u \<and> contents u = contents s"
proof -
  obtain t where t: "push s v = Inr t" "inv t" "contents t = contents s @ [v]"
    using push_ok [OF assms] by blast
  then obtain u where "pop t = Inr (v, u)" "inv u" "contents u = contents s"
    using pop_ok [of t] by auto
  with t show ?thesis by blast
qed

lemma push_all_ok:
  assumes "inv s" and "room (length vs + n) s"
  shows "\<exists>t. push_all s vs = Inr t \<and> inv t \<and> room n t \<and> contents t = contents s @ vs"
  using assms
proof (induction vs arbitrary: s)
  case Nil
  then show ?case by simp
next
  case (Cons v vs)
  then obtain t where t: "push s v = Inr t" "inv t" "room (length vs + n) t"
      "contents t = contents s @ [v]"
    using push_ok [of s "length vs + n" v] by auto
  obtain u where "push_all t vs = Inr u" "inv u" "room n u" "contents u = contents t @ vs"
    using Cons.IH [OF t(2,3)] by blast
  with t show ?case by auto
qed

lemma pop_n_ok:
  assumes "inv s" and "n \<le> length (contents s)"
  shows "\<exists>t. pop_n s n = Inr (take n (rev (contents s)), t) \<and> inv t
           \<and> contents t = take (length (contents s) - n) (contents s)"
  using assms
proof (induction n arbitrary: s)
  case 0
  then show ?case by simp
next
  case (Suc n)
  then have ne: "contents s \<noteq> []" by auto
  then obtain t where t: "pop s = Inr (last (contents s), t)" "inv t"
      "contents t = butlast (contents s)"
    using pop_ok [OF Suc.prems(1)] by blast
  obtain xs x where xs: "contents s = xs @ [x]"
    using ne by (metis append_butlast_last_id)
  obtain u where "pop_n t n = Inr (take n (rev xs), u)" "inv u"
      "contents u = take (length xs - n) xs"
    using Suc.IH [OF t(2)] Suc.prems(2) t(3) xs by auto
  with t xs show ?case by simp
qed

end

text \<open>
  A virtual machine's stack satisfies the contract while the allocator serves every request
  and the values fit below half of the 32-bit range, where the doubling loop stops.
\<close>

definition vm_contents :: "WVMState \<Rightarrow> WVMValue list" where
  "vm_contents vm = take (unat (stackSize vm)) (stack vm)"

definition vm_room :: "nat \<Rightarrow> WVMState \<Rightarrow> bool" where
  "vm_room n vm \<longleftrightarrow> unat (stackSize vm) + n \<le> 2 ^ 31"

lemma wf_vm_size: "wf_vm vm \<Longrightarrow> unat (stackSize vm) \<le> length (stack vm)"
  by (simp add: wf_vm_def word_le_nat_alt)

lemma length_vm_contents: "wf_vm vm \<Longrightarrow> length (vm_contents vm) = unat (stackSize vm)"
  using wf_vm_size [of vm] by (simp add: vm_contents_def)

lemma wvmEnsureStack_ok:
  assumes wf: "wf_vm vm" and ok: "\<And>n. ok n"
    and small: "unat (stackSize vm) + unat extra \<le> 2 ^ 31"
  shows "\<exists>vm' ys. wvmEnsureStack ok vm extra = Inr vm' \<and> wf_vm vm'
    \<and> unat (stackSize vm) + unat extra \<le> unat (stackCap vm')
    \<and> stack vm' = stack vm @ ys
    \<and> vm' = vm\<lparr>stack := stack vm', stackCap := stackCap vm'\<rparr>"
proof -
  let ?needed = "stackSize vm + extra"
  let ?cap = "if stackCap vm = 0 then 32 else stackCap vm"
  have n: "unat ?needed = unat (stackSize vm) + unat extra"
    using small by (intro unat_add_no_wrap) simp
  show ?thesis
  proof (cases "?needed \<le> stackCap vm")
    case True
    then show ?thesis using wf n
      by (auto simp: wvmEnsureStack_def word_le_nat_alt)
  next
    case False
    have "0 < unat ?cap" by (auto simp: unat_gt_0)
    then obtain c where c: "grow_cap ?cap ?needed = Some c" "unat ?needed \<le> unat c"
      using grow_cap_returns [of ?cap ?needed] n small by auto
    then have "unat (stackCap vm) \<le> unat c" using False by (simp add: word_le_nat_alt)
    then have "unat (c - stackCap vm) = unat c - unat (stackCap vm)"
      by (simp add: unat_sub word_le_nat_alt)
    then show ?thesis using wf c n False ok \<open>unat (stackCap vm) \<le> unat c\<close>
      by (auto simp: wvmEnsureStack_def wf_vm_def word_le_nat_alt)
  qed
qed

lemma wvmPush_ok:
  assumes wf: "wf_vm vm" and ok: "\<And>n. ok n" and room: "unat (stackSize vm) + 1 \<le> 2 ^ 31"
  shows "\<exists>vm'. wvmPush ok vm v = Inr vm' \<and> wf_vm vm'
    \<and> unat (stackSize vm') = unat (stackSize vm) + 1
    \<and> vm_contents vm' = vm_contents vm @ [v]"
proof -
  have 1: "unat (stackSize vm) + unat (1 :: u32) \<le> 2 ^ 31" using room by simp
  obtain vm1 ys where e: "wvmEnsureStack ok vm 1 = Inr vm1" "wf_vm vm1"
      "unat (stackSize vm) + 1 \<le> unat (stackCap vm1)" "stack vm1 = stack vm @ ys"
      "vm1 = vm\<lparr>stack := stack vm1, stackCap := stackCap vm1\<rparr>"
    using wvmEnsureStack_ok [of vm ok 1] wf ok 1 by auto
  have ss: "stackSize vm1 = stackSize vm" by (subst e(5)) simp
  have s: "unat (stackSize vm + 1) = unat (stackSize vm) + 1"
    using room by (subst unat_add_no_wrap) auto
  have lt: "unat (stackSize vm) < length (stack vm1)"
    using e(2,3) by (simp add: wf_vm_def)
  let ?vm' = "vm1\<lparr>stack := (stack vm1)[unat (stackSize vm) := v], stackSize := stackSize vm + 1\<rparr>"
  have "wvmPush ok vm v = Inr ?vm'" using e(1) lt ss by (simp add: wvmPush_def)
  moreover have "wf_vm ?vm'"
    using e(2,3) s by (simp add: wf_vm_def word_le_nat_alt)
  moreover have "vm_contents ?vm' = vm_contents vm @ [v]"
    using lt s e(4) wf_vm_size [OF wf]
    by (simp add: vm_contents_def take_Suc_conv_app_nth)
  ultimately show ?thesis using s by auto
qed

lemma wvmPop_ok:
  assumes wf: "wf_vm vm" and ne: "vm_contents vm \<noteq> []"
  shows "\<exists>vm'. wvmPop vm = Inr (last (vm_contents vm), vm') \<and> wf_vm vm'
    \<and> vm_contents vm' = butlast (vm_contents vm)"
proof -
  have nz: "stackSize vm \<noteq> 0" using ne by (auto simp: vm_contents_def)
  then have s: "unat (stackSize vm - 1) = unat (stackSize vm) - 1"
    by (rule unat_minus_one)
  have pos: "0 < unat (stackSize vm)" using nz by (simp add: unat_gt_0)
  have le: "unat (stackSize vm) \<le> length (stack vm)" by (rule wf_vm_size [OF wf])
  let ?vm' = "vm\<lparr>stackSize := stackSize vm - 1\<rparr>"
  have "last (vm_contents vm) = stack vm ! (unat (stackSize vm) - 1)"
    using ne le pos by (simp add: vm_contents_def last_conv_nth min_def)
  then have "wvmPop vm = Inr (last (vm_contents vm), ?vm')"
    using nz s le pos by (simp add: wvmPop_def)
  moreover have "wf_vm ?vm'" using wf s by (auto simp: wf_vm_def word_le_nat_alt)
  moreover have "vm_contents ?vm' = butlast (vm_contents vm)"
    using s le by (simp add: vm_contents_def butlast_take)
  ultimately show ?thesis by blast
qed

interpretation vm_lifo: lifo "wvmPush (\<lambda>_. True)" wvmPop vm_contents wf_vm vm_room
proof unfold_locales
  fix s n v
  assume "wf_vm s" and "vm_room (Suc n) s"
  then show "\<exists>t. wvmPush (\<lambda>_. True) s v = Inr t \<and> wf_vm t \<and> vm_room n t
               \<and> vm_contents t = vm_contents s @ [v]"
    using wvmPush_ok [of s "\<lambda>_. True" v] by (auto simp: vm_room_def)
next
  fix s
  assume "wf_vm s" and "vm_contents s \<noteq> []"
  then show "\<exists>t. wvmPop s = Inr (last (vm_contents s), t) \<and> wf_vm t
               \<and> vm_contents t = butlast (vm_contents s)"
    by (rule wvmPop_ok)
qed

lemma wvmCreate_wf: "wvmCreate s ok = Some vm \<Longrightarrow> wf_vm vm \<and> vm_contents vm = []"
  by (auto simp: wvmCreate_def wvmCreateEx_def wf_vm_def vm_contents_def split: if_splits)

text \<open>Registers: what was set is what is read, and other live registers keep their value.\<close>

lemma unat_reg_less: "unat (r :: WVMReg) < 65536"
  using unsigned_less [of r, where ?'a = nat] by simp

lemma unat_reg: "unat (ucast (r :: WVMReg) :: u32) = unat r"
  using unat_reg_less [of r] by (simp add: unsigned_ucast_eq take_bit_nat_eq_self)

lemma wvmSetReg_grow:
  assumes wf: "wf_vm vm" and ok: "\<And>n. ok n"
  shows "\<exists>vm' ys. (if stackCap vm \<le> ucast (r :: WVMReg)
      then wvmEnsureStack ok vm (ucast r - stackSize vm + 1) else Inr vm) = Inr vm'
    \<and> wf_vm vm' \<and> unat r < unat (stackCap vm') \<and> stack vm' = stack vm @ ys
    \<and> stackSize vm' = stackSize vm"
proof (cases "stackCap vm \<le> ucast r")
  case True
  have le: "stackSize vm \<le> ucast r" using True wf by (auto simp: wf_vm_def)
  then have d: "unat (ucast r - stackSize vm) = unat r - unat (stackSize vm)"
    by (simp add: unat_sub unat_reg)
  have le': "unat (stackSize vm) \<le> unat r" using le by (simp add: word_le_nat_alt unat_reg)
  have e: "unat (ucast r - stackSize vm + 1) = unat r - unat (stackSize vm) + 1"
    using d unat_reg_less [of r] by (subst unat_add_no_wrap) auto
  have "unat (stackSize vm) + unat (ucast r - stackSize vm + 1) \<le> 2 ^ 31"
    using e le' unat_reg_less [of r] by simp
  then obtain vm' ys where r: "wvmEnsureStack ok vm (ucast r - stackSize vm + 1) = Inr vm'"
      "wf_vm vm'" "unat (stackSize vm) + unat (ucast r - stackSize vm + 1) \<le> unat (stackCap vm')"
      "stack vm' = stack vm @ ys" "vm' = vm\<lparr>stack := stack vm', stackCap := stackCap vm'\<rparr>"
    using wvmEnsureStack_ok [of vm ok] wf ok by meson
  moreover have "stackSize vm' = stackSize vm" by (subst r(5)) simp
  ultimately show ?thesis using True e le' by auto
next
  case False
  then show ?thesis using wf by (auto simp: word_le_nat_alt unat_reg)
qed

lemma wvmSetReg_ok:
  assumes wf: "wf_vm vm" and ok: "\<And>n. ok n"
  shows "\<exists>vm'. wvmSetReg ok vm r v = Inr vm' \<and> wf_vm vm' \<and> wvmGetReg vm' r = Inr v
    \<and> (\<forall>q. q \<noteq> r \<longrightarrow> ucast q < stackSize vm \<longrightarrow> wvmGetReg vm' q = wvmGetReg vm q)"
proof -
  obtain vm1 ys where g: "(if stackCap vm \<le> ucast r
      then wvmEnsureStack ok vm (ucast r - stackSize vm + 1) else Inr vm) = Inr vm1"
      "wf_vm vm1" "unat r < unat (stackCap vm1)" "stack vm1 = stack vm @ ys"
      "stackSize vm1 = stackSize vm"
    using wvmSetReg_grow [of vm ok r] wf ok by blast
  have lt: "unat r < length (stack vm1)" using g(2,3) by (simp add: wf_vm_def)
  have r1: "unat (ucast r + 1 :: u32) = unat r + 1"
    using unat_reg_less [of r] by (subst unat_add_no_wrap) (auto simp: unat_reg)
  define sz where "sz = (if stackSize vm1 \<le> ucast r then ucast r + 1 else stackSize vm1)"
  let ?vm' = "vm1\<lparr>stack := (stack vm1)[unat r := v], stackSize := sz\<rparr>"
  have "wvmSetReg ok vm r v = Inr ?vm'"
    using g(1) lt by (auto simp: wvmSetReg_def sz_def Let_def)
  moreover have "wf_vm ?vm'"
    using g(2,3) r1 by (auto simp: wf_vm_def sz_def word_le_nat_alt unat_reg)
  moreover have "wvmGetReg ?vm' r = Inr v"
    using lt r1 by (auto simp: wvmGetReg_def sz_def word_le_nat_alt unat_reg)
  moreover have "wvmGetReg ?vm' q = wvmGetReg vm q" if "q \<noteq> r" "ucast q < stackSize vm" for q
    using that g(4,5) r1 wf_vm_size [OF wf] unsigned_word_eqI [of q r, where ?'a = nat]
    by (auto simp: wvmGetReg_def sz_def word_le_nat_alt word_less_nat_alt unat_reg nth_append
        nth_list_update)
  ultimately show ?thesis by auto
qed

section \<open>Properties\<close>

text \<open>
  The operand stack is last-in first-out: on a well-formed machine with fewer than
  \<open>2 ^ 31\<close> values, pushing a value (growing the array when it is full) and popping gives
  that value back and restores the contents, for every value and every capacity.
\<close>

theorem wvmPush_wvmPop:
  assumes "wf_vm vm" and "unat (stackSize vm) < 2 ^ 31"
  shows "\<exists>vm1 vm2. wvmPush (\<lambda>_. True) vm v = Inr vm1 \<and> wvmPop vm1 = Inr (v, vm2)
    \<and> wf_vm vm2 \<and> vm_contents vm2 = vm_contents vm"
  using vm_lifo.push_pop [of vm 0 v] assms by (auto simp: vm_room_def)

text \<open>
  Registers: setting a register of a well-formed machine, growing the array when the
  index is beyond the capacity, stores the value where the next read finds it and leaves
  every other live register as it was.
\<close>

theorem wvmSetReg_wvmGetReg:
  assumes "wf_vm vm"
  shows "\<exists>vm'. wvmSetReg (\<lambda>_. True) vm r v = Inr vm' \<and> wf_vm vm' \<and> wvmGetReg vm' r = Inr v
    \<and> (\<forall>q. q \<noteq> r \<and> ucast q < stackSize vm \<longrightarrow> wvmGetReg vm' q = wvmGetReg vm q)"
  using wvmSetReg_ok [of vm "\<lambda>_. True" r v] assms by blast

text \<open>
  C30. Growing the stack does not stop when more than \<open>2 ^ 31\<close> slots are requested: the
  capacity of a machine is a power of two from its creation on, and doubling it wraps to
  zero before it reaches the request.
\<close>

theorem wvmEnsureStack_diverges:
  assumes "stackCap vm = 2 ^ k" and "k < 32"
    and "2 ^ 31 < unat (stackSize vm) + unat extra"
    and "unat (stackSize vm) + unat extra < 2 ^ 32"
  shows "wvmEnsureStack ok vm extra = Inl Diverges"
proof -
  have n: "unat (stackSize vm + extra) = unat (stackSize vm) + unat extra"
    using assms(4) by (intro unat_add_no_wrap) simp
  have c: "unat ((2 :: u32) ^ k) = 2 ^ k" using assms(2) by (intro unat_two_power_word) simp
  have "(2 :: nat) ^ k \<le> 2 ^ 31" using assms(2) by (intro power_increasing) auto
  then have "\<not> stackSize vm + extra \<le> stackCap vm"
    using assms(1,3) n c by (simp add: word_le_nat_alt)
  moreover have "grow_cap (2 ^ k) (stackSize vm + extra) = None"
    using assms(2,3) n by (intro grow_cap_pow2_diverges) simp_all
  moreover have "stackCap vm \<noteq> 0" using assms(1) c by (metis power_not_zero unat_0 zero_neq_numeral)
  ultimately show ?thesis using assms(1) by (simp add: wvmEnsureStack_def Let_def)
qed

definition fresh_vm :: WVMState where
  "fresh_vm = the (wvmCreate True (\<lambda>_. True))"

lemma fresh_vm_simps:
  "wf_vm fresh_vm" "stackSize fresh_vm = 0" "stackCap fresh_vm = 32" "vm_contents fresh_vm = []"
  by (simp_all add: fresh_vm_def wvmCreate_def wvmCreateEx_def wf_vm_def vm_contents_def)

theorem wvmPush_wvmPop_witness:
  "\<exists>vm1 vm2. wvmPush (\<lambda>_. True) fresh_vm 7 = Inr vm1 \<and> wvmPop vm1 = Inr (7, vm2)
    \<and> wf_vm vm2 \<and> vm_contents vm2 = vm_contents fresh_vm"
  by (rule wvmPush_wvmPop) (simp_all add: fresh_vm_simps)

theorem wvmSetReg_wvmGetReg_witness:
  "\<exists>vm'. wvmSetReg (\<lambda>_. True) fresh_vm 40 9 = Inr vm' \<and> wvmGetReg vm' 40 = Inr 9"
  using wvmSetReg_wvmGetReg [OF fresh_vm_simps(1), of 40 9] by blast

theorem wvmEnsureStack_diverges_witness:
  "wvmEnsureStack (\<lambda>_. True) fresh_vm 0x80000001 = Inl Diverges"
  by (rule wvmEnsureStack_diverges [where k = 5]) (simp_all add: fresh_vm_simps)

end
