(* ===== verification/Wvm_Interp.thy ===== *)
theory Wvm_Interp
  imports Wvm_State "HOL-Library.Signed_Division"
begin

unbundle bit_operations_syntax

text \<open>
  Function prototypes, the bytecode verifier \<open>wvmVerifyPrototype\<close> and the interpreter
  \<open>wvmExecute\<close> of \<^verbatim>\<open>wvm_runtime.c\<close>. A run that does not return is \<open>None\<close>; a run
  that reaches undefined behaviour (an access outside the register array, a signed
  overflow, a bad shift) is \<open>Inl\<close> of the fault.
\<close>

section \<open>Prototypes and their verification\<close>

text \<open>
  A pointer with its count is a list, \<open>None\<close> a null pointer. The string pool and the
  nested prototypes are never filled by the code base; their counts are kept.
\<close>

record WVMPrototype =
  pr_name :: "bytes option"
  pr_source :: "bytes option"
  pr_instrs :: "WVMInstr list option"
  pr_consts :: "WVMValue list"
  pr_strCount :: u32
  pr_regCount :: u16
  pr_paramCount :: u16
  pr_isVararg :: u8
  pr_protoCount :: u32
  pr_lineMap :: "u32 list option"

definition proto_code :: "WVMPrototype \<Rightarrow> WVMInstr list" where
  "proto_code p = (case pr_instrs p of Some is \<Rightarrow> is | None \<Rightarrow> [])"

definition wvm_verify_instr :: "WVMPrototype \<Rightarrow> WVMInstr \<Rightarrow> string option" where
  "wvm_verify_instr p i =
     (let op = WVM_DECODE_OP i;
          bad_reg = ''prototype references an invalid register'' in
      if WVM_OP_COUNT \<le> unat op then Some ''prototype contains an invalid opcode''
      else case wvmGetEncoding op of
        WVM_ENC_OP_R \<Rightarrow>
          if pr_regCount p \<le> WVM_DECODE_R_A i then Some bad_reg else None
      | WVM_ENC_OP_RR \<Rightarrow>
          if pr_regCount p \<le> WVM_DECODE_R_A i \<or> pr_regCount p \<le> WVM_DECODE_R_B i
          then Some bad_reg else None
      | WVM_ENC_OP_RRR \<Rightarrow>
          if pr_regCount p \<le> WVM_DECODE_R_A i \<or> pr_regCount p \<le> WVM_DECODE_R_B i
             \<or> pr_regCount p \<le> WVM_DECODE_R_C i
          then Some bad_reg else None
      | WVM_ENC_OP_R_CONST \<Rightarrow>
          if pr_regCount p \<le> WVM_DECODE_R_A i
             \<or> length (pr_consts p) \<le> unat (WVM_DECODE_CONST i)
          then Some ''prototype references an invalid constant'' else None
      | WVM_ENC_OP_R_IMM32 \<Rightarrow>
          if pr_regCount p \<le> WVM_DECODE_R_A i then Some bad_reg else None
      | _ \<Rightarrow> None)"

fun wvm_verify_loop :: "WVMPrototype \<Rightarrow> WVMInstr list \<Rightarrow> string option" where
  "wvm_verify_loop p [] = None"
| "wvm_verify_loop p (i # is) =
     (case wvm_verify_instr p i of Some e \<Rightarrow> Some e | None \<Rightarrow> wvm_verify_loop p is)"

definition wvm_verify_error :: "WVMPrototype option \<Rightarrow> string option" where
  "wvm_verify_error proto =
     (case proto of
        None \<Rightarrow> Some ''prototype is missing bytecode''
      | Some p \<Rightarrow> (case pr_instrs p of
                    None \<Rightarrow> Some ''prototype is missing bytecode''
                  | Some is \<Rightarrow> wvm_verify_loop p is))"

definition wvmVerifyPrototype ::
  "WVMState \<Rightarrow> WVMPrototype option \<Rightarrow> bool \<times> WVMState" where
  "wvmVerifyPrototype vm proto =
     (case wvm_verify_error proto of
        Some e \<Rightarrow> (False, wvmSetErrorf vm (Some e))
      | None \<Rightarrow> (True, wvmClearError vm))"

lemma wvm_verify_loop_None:
  "wvm_verify_loop p is = None \<longleftrightarrow> (\<forall>i\<in>set is. wvm_verify_instr p i = None)"
  by (induction "is") (auto split: option.splits)

lemma wvm_verify_error_None:
  "wvm_verify_error (Some p) = None \<longleftrightarrow>
     pr_instrs p \<noteq> None \<and> (\<forall>i\<in>set (proto_code p). wvm_verify_instr p i = None)"
  by (auto simp: wvm_verify_error_def proto_code_def wvm_verify_loop_None split: option.splits)

section \<open>Arithmetic of the interpreter\<close>

text \<open>
  A C \<^verbatim>\<open>int32_t\<close> result: undefined unless the exact value fits.
\<close>

definition int32_result :: "int \<Rightarrow> u32 cres" where
  "int32_result x =
     (if - (2 ^ 31) \<le> x \<and> x < 2 ^ 31 then Inr (word_of_int x) else Inl SignedOverflow)"

definition wvm_bool :: "bool \<Rightarrow> WVMValue" where
  "wvm_bool b = (if b then WVM_VALUE_TRUE else WVM_VALUE_FALSE)"

definition wvm_int_op :: "WVMOpcodeEnum \<Rightarrow> u32 \<Rightarrow> u32 \<Rightarrow> WVMValue option cres" where
  "wvm_int_op op a b =
     (let num = (\<lambda>r. cbind r (\<lambda>w. Inr (Some (WVM_VALUE_FROM_INT w))));
          val = (\<lambda>v. Inr (Some v)) in
      case op of
        WVM_OP_ADD \<Rightarrow> num (int32_result (sint a + sint b))
      | WVM_OP_SUB \<Rightarrow> num (int32_result (sint a - sint b))
      | WVM_OP_MUL \<Rightarrow> num (int32_result (sint a * sint b))
      | WVM_OP_DIV \<Rightarrow> num (if b = 0 then Inr 0 else int32_result (sint a sdiv sint b))
      | WVM_OP_MOD \<Rightarrow> num (if b = 0 then Inr 0
          else cbind (int32_result (sint a sdiv sint b))
                 (\<lambda>_. int32_result (sint a smod sint b)))
      | WVM_OP_AND \<Rightarrow> num (Inr (a AND b))
      | WVM_OP_OR \<Rightarrow> num (Inr (a OR b))
      | WVM_OP_XOR \<Rightarrow> num (Inr (a XOR b))
      | WVM_OP_SHL \<Rightarrow> num (if sint b < 0 \<or> 32 \<le> sint b then Inl BadShift
          else if sint a < 0 then Inl SignedOverflow
          else int32_result (sint a * 2 ^ nat (sint b)))
      | WVM_OP_SHR \<Rightarrow> num (if sint b < 0 \<or> 32 \<le> sint b then Inl BadShift
          else int32_result (sint a div 2 ^ nat (sint b)))
      | WVM_OP_EQ \<Rightarrow> val (wvm_bool (sint a = sint b))
      | WVM_OP_NE \<Rightarrow> val (wvm_bool (sint a \<noteq> sint b))
      | WVM_OP_LT \<Rightarrow> val (wvm_bool (sint a < sint b))
      | WVM_OP_LE \<Rightarrow> val (wvm_bool (sint a \<le> sint b))
      | WVM_OP_GT \<Rightarrow> val (wvm_bool (sint b < sint a))
      | WVM_OP_GE \<Rightarrow> val (wvm_bool (sint b \<le> sint a))
      | _ \<Rightarrow> Inr None)"

definition wvm_exec_binary_int ::
  "WVMOpcodeEnum \<Rightarrow> WVMValue \<Rightarrow> WVMValue \<Rightarrow> WVMValue option cres" where
  "wvm_exec_binary_int op lhs rhs =
     (if \<not> WVM_IS_INT lhs \<or> \<not> WVM_IS_INT rhs then Inr None
      else wvm_int_op op (WVM_AS_INT lhs) (WVM_AS_INT rhs))"

section \<open>One instruction\<close>

datatype wvm_ctl = Continue u32 | Return bool

definition wvm_leave :: "WVMState \<Rightarrow> WVMState" where
  "wvm_leave vm = vm\<lparr>topFrame := None, frameDepth := 0\<rparr>"

definition wvm_fail :: "string \<Rightarrow> WVMState \<Rightarrow> (wvm_ctl \<times> WVMState) cres" where
  "wvm_fail msg vm = Inr (Return False, wvm_leave (wvmSetErrorf vm (Some msg)))"

definition wvm_put :: "WVMReg \<Rightarrow> WVMValue \<Rightarrow> u32 \<Rightarrow> WVMState \<Rightarrow> (wvm_ctl \<times> WVMState) cres" where
  "wvm_put a v pc vm =
     cbind (arr_set (stack vm) (unat a) v) (\<lambda>s. Inr (Continue (pc + 1), vm\<lparr>stack := s\<rparr>))"

definition wvm_jump :: "u32 \<Rightarrow> u32 \<Rightarrow> u32 cres" where
  "wvm_jump pc off = int32_result (sint pc + sint off)"

definition wvm_exec_op ::
  "WVMPrototype \<Rightarrow> WVMOpcodeEnum \<Rightarrow> WVMInstr \<Rightarrow> u32 \<Rightarrow> WVMState \<Rightarrow> (wvm_ctl \<times> WVMState) cres" where
  "wvm_exec_op p op i pc vm =
     (let a = WVM_DECODE_R_A i; b = WVM_DECODE_R_B i; c = WVM_DECODE_R_C i;
          reg = (\<lambda>r. arr_get (stack vm) (unat r));
          binary = cbind (reg b) (\<lambda>lhs. cbind (reg c) (\<lambda>rhs.
            cbind (wvm_exec_binary_int op lhs rhs) (\<lambda>r. case r of
              Some v \<Rightarrow> wvm_put a v pc vm
            | None \<Rightarrow> wvm_fail ''unsupported operand type in WVM interpreter'' vm))) in
      case op of
        WVM_OP_NOP \<Rightarrow> Inr (Continue (pc + 1), vm)
      | WVM_OP_HALT \<Rightarrow> Inr (Continue (word_of_nat (length (proto_code p))), vm)
      | WVM_OP_RETURN \<Rightarrow>
          cbind (reg a) (\<lambda>v. cbind (arr_set (stack vm) 0 v) (\<lambda>s.
            Inr (Return True, wvm_leave (vm\<lparr>stack := s, stackSize := ucast (pr_regCount p)\<rparr>))))
      | WVM_OP_MOVE \<Rightarrow> cbind (reg b) (\<lambda>v. wvm_put a v pc vm)
      | WVM_OP_LOAD_IMM \<Rightarrow> wvm_put a (WVM_VALUE_FROM_INT (WVM_DECODE_IMM32 i)) pc vm
      | WVM_OP_LOAD_CONST \<Rightarrow>
          cbind (arr_get (pr_consts p) (unat (WVM_DECODE_CONST i))) (\<lambda>v. wvm_put a v pc vm)
      | WVM_OP_LOAD_NIL \<Rightarrow> wvm_put a WVM_VALUE_NIL pc vm
      | WVM_OP_LOAD_TRUE \<Rightarrow> wvm_put a WVM_VALUE_TRUE pc vm
      | WVM_OP_LOAD_FALSE \<Rightarrow> wvm_put a WVM_VALUE_FALSE pc vm
      | WVM_OP_NEG \<Rightarrow>
          cbind (reg b) (\<lambda>v. cbind (int32_result (- sint (WVM_AS_INT v))) (\<lambda>w.
            wvm_put a (WVM_VALUE_FROM_INT w) pc vm))
      | WVM_OP_NOT \<Rightarrow>
          cbind (reg b) (\<lambda>v. wvm_put a (WVM_VALUE_FROM_INT (NOT (WVM_AS_INT v))) pc vm)
      | WVM_OP_ADD \<Rightarrow> binary | WVM_OP_SUB \<Rightarrow> binary | WVM_OP_MUL \<Rightarrow> binary
      | WVM_OP_DIV \<Rightarrow> binary | WVM_OP_MOD \<Rightarrow> binary | WVM_OP_AND \<Rightarrow> binary
      | WVM_OP_OR \<Rightarrow> binary | WVM_OP_XOR \<Rightarrow> binary | WVM_OP_SHL \<Rightarrow> binary
      | WVM_OP_SHR \<Rightarrow> binary | WVM_OP_EQ \<Rightarrow> binary | WVM_OP_NE \<Rightarrow> binary
      | WVM_OP_LT \<Rightarrow> binary | WVM_OP_LE \<Rightarrow> binary | WVM_OP_GT \<Rightarrow> binary
      | WVM_OP_GE \<Rightarrow> binary
      | WVM_OP_JUMP \<Rightarrow>
          cbind (wvm_jump pc (WVM_DECODE_JUMP i)) (\<lambda>t. Inr (Continue t, vm))
      | WVM_OP_JUMP_IF_TRUE \<Rightarrow>
          cbind (reg a) (\<lambda>v. cbind (if WVM_IS_TRUTHY v then wvm_jump pc (WVM_DECODE_R_JUMP i)
                                   else Inr (pc + 1)) (\<lambda>t. Inr (Continue t, vm)))
      | WVM_OP_JUMP_IF_FALSE \<Rightarrow>
          cbind (reg a) (\<lambda>v. cbind (if \<not> WVM_IS_TRUTHY v then wvm_jump pc (WVM_DECODE_R_JUMP i)
                                   else Inr (pc + 1)) (\<lambda>t. Inr (Continue t, vm)))
      | _ \<Rightarrow> wvm_fail ''opcode is not implemented in the Stage 10 interpreter'' vm)"

definition wvm_step :: "WVMPrototype \<Rightarrow> u32 \<Rightarrow> WVMState \<Rightarrow> (wvm_ctl \<times> WVMState) cres" where
  "wvm_step p pc vm =
     (let i = proto_code p ! unat pc;
          vm = vm\<lparr>topFrame := Some \<lparr>fr_regCount = pr_regCount p, fr_pc = pc\<rparr>\<rparr> in
      case wvm_opcode_of (WVM_DECODE_OP i) of
        Some op \<Rightarrow> wvm_exec_op p op i pc vm
      | None \<Rightarrow> wvm_fail ''opcode is not implemented in the Stage 10 interpreter'' vm)"

section \<open>The loop and the entry points\<close>

partial_function (option) wvm_loop ::
  "WVMPrototype \<Rightarrow> u32 \<Rightarrow> WVMState \<Rightarrow> (bool \<times> WVMState) cres option" where
  "wvm_loop p pc vm =
     (if \<not> unat pc < length (proto_code p) then Some (Inr (True, wvm_leave vm))
      else case wvm_step p pc vm of
             Inl e \<Rightarrow> Some (Inl e)
           | Inr (ctl, vm') \<Rightarrow> (case ctl of
               Return r \<Rightarrow> Some (Inr (r, vm'))
             | Continue pc' \<Rightarrow> wvm_loop p pc' vm'))"

text \<open>
  Entering a prototype: the stack is made large enough and the registers above the previous
  stack size are cleared by \<^verbatim>\<open>memset\<close>, which runs outside the array when the stack
  could not be grown.
\<close>

definition wvm_enter :: "allocator \<Rightarrow> WVMState \<Rightarrow> WVMPrototype \<Rightarrow> WVMState cres" where
  "wvm_enter ok vm p =
     (let prev = unat (stackSize vm); n = unat (pr_regCount p) in
      cbind (wvmEnsureStack ok vm (ucast (pr_regCount p))) (\<lambda>vm.
      cbind (if prev < n
             then (if n \<le> length (stack vm)
                   then Inr (take prev (stack vm) @ replicate (n - prev) 0 @ drop n (stack vm))
                   else Inl OutOfBounds)
             else Inr (stack vm)) (\<lambda>s.
      Inr (vm\<lparr>stack := s, stackSize := ucast (pr_regCount p),
              topFrame := Some \<lparr>fr_regCount = pr_regCount p, fr_pc = 0\<rparr>,
              frameDepth := 1\<rparr>))))"

definition wvmExecute ::
  "allocator \<Rightarrow> WVMState \<Rightarrow> WVMPrototype option \<Rightarrow> (bool \<times> WVMState) cres option" where
  "wvmExecute ok vm proto =
     (case proto of
        None \<Rightarrow> Some (Inr (False, vm))
      | Some p \<Rightarrow>
          (let (valid, vm) = wvmVerifyPrototype vm proto in
           if \<not> valid then Some (Inr (False, vm))
           else case wvm_enter ok (wvmClearError vm) p of
                  Inl e \<Rightarrow> Some (Inl e)
                | Inr vm \<Rightarrow> wvm_loop p 0 vm))"

text \<open>
  \<open>wvmCall\<close> ignores the arguments it is given. The result slot is written only when the
  caller passes one; \<open>None\<close> as the closure's prototype is a null pointer.
\<close>

definition wvmCall ::
  "allocator \<Rightarrow> WVMState \<Rightarrow> WVMPrototype option \<Rightarrow> WVMValue list \<Rightarrow> int
   \<Rightarrow> (bool \<times> WVMValue option \<times> WVMState) cres option" where
  "wvmCall ok vm proto args maxResults =
     (case proto of
        None \<Rightarrow> Some (Inr (False, None, vm))
      | Some p \<Rightarrow> (case wvmExecute ok vm (Some p) of
          None \<Rightarrow> None
        | Some (Inl e) \<Rightarrow> Some (Inl e)
        | Some (Inr (False, vm)) \<Rightarrow> Some (Inr (False, None, vm))
        | Some (Inr (True, vm)) \<Rightarrow>
            Some (if 0 < maxResults
                  then cbind (wvmGetReg vm 0) (\<lambda>v. Inr (True, Some v, vm))
                  else Inr (True, None, vm))))"

section \<open>Exactness of the arithmetic\<close>

text \<open>A boxed machine integer, and the range of \<^verbatim>\<open>int32_t\<close>.\<close>

definition wvm_box :: "int \<Rightarrow> WVMValue" where
  "wvm_box x = WVM_VALUE_FROM_INT (word_of_int x)"

definition in_int32 :: "int \<Rightarrow> bool" where
  "in_int32 x \<longleftrightarrow> - (2 ^ 31) \<le> x \<and> x < 2 ^ 31"

lemma sint_word_of_int32: "in_int32 x \<Longrightarrow> sint (word_of_int x :: u32) = x"
  by (auto simp: in_int32_def signed_of_int signed_take_bit_int_eq_self)

lemma int32_result_in: "in_int32 x \<Longrightarrow> int32_result x = Inr (word_of_int x)"
  by (simp add: int32_result_def in_int32_def)

lemma wvm_box_int [simp]:
  "WVM_IS_INT (wvm_box x)" "WVM_AS_INT (wvm_box x) = word_of_int x"
  by (simp_all add: wvm_box_def)

lemma word_of_int32_eq_0: "in_int32 x \<Longrightarrow> (word_of_int x :: u32) = 0 \<longleftrightarrow> x = 0"
  using sint_word_of_int32 [of x] by auto

text \<open>
  C31. Integer arithmetic of the interpreter is exact: for operands and results in the
  range of \<^verbatim>\<open>int32_t\<close>, the boxed results of addition, subtraction and multiplication are
  the mathematical ones, division and remainder truncate towards zero, and dividing by zero
  gives zero instead of trapping.
\<close>

theorem wvm_exec_binary_exact:
  assumes x: "in_int32 x" and y: "in_int32 y"
  shows "(in_int32 (x + y) \<longrightarrow>
      wvm_exec_binary_int WVM_OP_ADD (wvm_box x) (wvm_box y) = Inr (Some (wvm_box (x + y))))
    \<and> (in_int32 (x - y) \<longrightarrow>
      wvm_exec_binary_int WVM_OP_SUB (wvm_box x) (wvm_box y) = Inr (Some (wvm_box (x - y))))
    \<and> (in_int32 (x * y) \<longrightarrow>
      wvm_exec_binary_int WVM_OP_MUL (wvm_box x) (wvm_box y) = Inr (Some (wvm_box (x * y))))
    \<and> (y \<noteq> 0 \<and> in_int32 (x sdiv y) \<longrightarrow>
      wvm_exec_binary_int WVM_OP_DIV (wvm_box x) (wvm_box y) = Inr (Some (wvm_box (x sdiv y))))
    \<and> (y \<noteq> 0 \<and> in_int32 (x sdiv y) \<and> in_int32 (x smod y) \<longrightarrow>
      wvm_exec_binary_int WVM_OP_MOD (wvm_box x) (wvm_box y) = Inr (Some (wvm_box (x smod y))))
    \<and> (y = 0 \<longrightarrow>
      wvm_exec_binary_int WVM_OP_DIV (wvm_box x) (wvm_box y) = Inr (Some (wvm_box 0))
    \<and> wvm_exec_binary_int WVM_OP_MOD (wvm_box x) (wvm_box y) = Inr (Some (wvm_box 0)))"
  using sint_word_of_int32 [OF x] sint_word_of_int32 [OF y] word_of_int32_eq_0 [OF y]
  by (auto simp: wvm_exec_binary_int_def wvm_int_op_def Let_def int32_result_in wvm_box_def)

theorem wvm_exec_binary_exact_witness:
  "wvm_exec_binary_int WVM_OP_SUB (wvm_box 3) (wvm_box 10) = Inr (Some (wvm_box (-7)))
 \<and> wvm_exec_binary_int WVM_OP_DIV (wvm_box 3) (wvm_box 10) = Inr (Some (wvm_box 0))"
proof -
  have i: "in_int32 3" "in_int32 10" "in_int32 (3 - 10)" "in_int32 (3 sdiv 10)"
    by (simp_all add: in_int32_def signed_divide_int_def)
  show ?thesis using wvm_exec_binary_exact [OF i(1,2)] i(3,4)
    by (simp add: signed_divide_int_def)
qed

lemma sint_eq_iff: "sint (a :: 'a::len word) = sint b \<longleftrightarrow> a = b"
  by (auto intro: signed_word_eqI)

text \<open>
  Comparisons of boxed integers are the signed comparisons, for all operands, and the
  result is a boolean that \<open>WVM_IS_TRUTHY\<close> reads back.
\<close>

lemma wvm_exec_compare_signed:
  "map (\<lambda>op. wvm_exec_binary_int op (WVM_VALUE_FROM_INT a) (WVM_VALUE_FROM_INT b))
     [WVM_OP_EQ, WVM_OP_NE, WVM_OP_LT, WVM_OP_LE, WVM_OP_GT, WVM_OP_GE]
   = map (\<lambda>r. Inr (Some (wvm_bool r)))
       [a = b, a \<noteq> b, sint a < sint b, sint a \<le> sint b, sint b < sint a, sint b \<le> sint a]
 \<and> WVM_IS_TRUTHY (wvm_bool True) \<and> \<not> WVM_IS_TRUTHY (wvm_bool False)"
  by (simp add: wvm_exec_binary_int_def wvm_int_op_def Let_def wvm_bool_def sint_eq_iff)

end
