(* ===== verification/Bytebuf.thy ===== *)
theory Bytebuf
  imports Wirble_Prelude
begin

text \<open>
  Growable byte buffers: the common \<open>WirbleByteBuf\<close> of \<^verbatim>\<open>common/bytebuf.c\<close>, and the
  interface \<open>byte_sink\<close> that it and the \<open>WVMBuffer\<close> of the object writer provide. A heap
  block is a list as long as the allocation whose bytes are \<open>None\<close> while they are
  indeterminate; the allocator is a parameter saying which sizes it can serve.
\<close>

section \<open>Heap blocks\<close>

type_synonym block = "u8 option list"

definition realloc_block :: "block \<Rightarrow> nat \<Rightarrow> block" where
  "realloc_block d n = take n d @ replicate (n - length d) None"

definition memcpy_to :: "block \<Rightarrow> nat \<Rightarrow> bytes \<Rightarrow> block cres" where
  "memcpy_to d off src =
     (if off + length src \<le> length d
      then Inr (take off d @ map Some src @ drop (off + length src) d)
      else Inl OutOfBounds)"

definition read_block :: "bytes \<Rightarrow> nat \<Rightarrow> nat \<Rightarrow> bytes cres" where
  "read_block d off n =
     (if off + n \<le> length d then Inr (take n (drop off d)) else Inl OutOfBounds)"

text \<open>The C string in a block: the bytes before the first zero byte.\<close>

definition cstr :: "bytes \<Rightarrow> bytes" where
  "cstr bs = takeWhile (\<lambda>b. b \<noteq> 0) bs"

lemma cstr_id [simp]: "0 \<notin> set bs \<Longrightarrow> cstr bs = bs"
  by (simp add: cstr_def) (metis takeWhile_eq_all_conv)

text \<open>
  A block of \<open>cap\<close> bytes whose first \<open>len\<close> bytes are initialised, and the bytes it holds.
  Half of the address space bounds what a buffer is asked to hold; beyond it the doubling
  loops wrap.
\<close>

abbreviation sink_limit :: nat where "sink_limit \<equiv> 2 ^ 63"

definition wf_block :: "block \<Rightarrow> u64 \<Rightarrow> u64 \<Rightarrow> bool" where
  "wf_block d len cap \<longleftrightarrow> length d = unat cap \<and> len \<le> cap
     \<and> list_all (\<lambda>x. x \<noteq> None) (take (unat len) d)"

definition block_contents :: "block \<Rightarrow> u64 \<Rightarrow> bytes" where
  "block_contents d len = map the (take (unat len) d)"

lemma map_Some_the: "list_all (\<lambda>x. x \<noteq> None) xs \<Longrightarrow> map Some (map the xs) = xs"
  by (induction xs) auto

lemma block_contents_zero [simp]: "block_contents d 0 = []"
  by (simp add: block_contents_def)

lemma wf_block_empty [simp]: "wf_block d 0 cap \<longleftrightarrow> length d = unat cap"
  by (simp add: wf_block_def)

lemma wf_block_length: "wf_block d len cap \<Longrightarrow> length (block_contents d len) = unat len"
  by (simp add: wf_block_def block_contents_def word_le_nat_alt)

lemma wf_blockI:
  assumes "take (unat len) d = map Some bs" and "length d = unat cap" and "len \<le> cap"
  shows "wf_block d len cap \<and> block_contents d len = bs"
  using assms by (simp add: wf_block_def block_contents_def comp_def list_all_iff)

text \<open>Growing a block: the doubling loop ends, and the initialised bytes are kept.\<close>

lemma wf_block_grow:
  assumes wf: "wf_block d len cap" and lim: "unat n \<le> sink_limit" and "\<not> n \<le> cap"
  shows "\<exists>c. grow_cap (if cap = 0 then 64 else cap) n = Some c \<and> n \<le> c
           \<and> wf_block (realloc_block d (unat c)) len c
           \<and> block_contents (realloc_block d (unat c)) len = block_contents d len"
proof -
  let ?cap = "if cap = 0 then 64 else cap"
  have "0 < unat ?cap" by (simp add: unat_gt_0)
  then obtain c where c: "grow_cap ?cap n = Some c" "unat n \<le> unat c"
    using grow_cap_returns [of ?cap n] lim by auto
  have "unat len \<le> length d" "length d \<le> unat c" "len \<le> c"
    using wf assms(3) c(2) by (auto simp: wf_block_def word_le_nat_alt)
  moreover from this have "take (unat len) (realloc_block d (unat c)) = take (unat len) d"
    by (simp add: realloc_block_def)
  ultimately show ?thesis using c wf
    by (simp add: wf_block_def block_contents_def realloc_block_def word_le_nat_alt)
qed

text \<open>Copying into the free part of a block extends what it holds.\<close>

lemma wf_block_append:
  assumes wf: "wf_block d len cap" and fits: "unat len + length bs \<le> unat cap"
  shows "\<exists>d'. memcpy_to d (unat len) bs = Inr d' \<and> wf_block d' (len + of_nat (length bs)) cap
           \<and> block_contents d' (len + of_nat (length bs)) = block_contents d len @ bs"
proof -
  have "unat cap < 2 ^ 64"
    by (rule order_less_le_trans [OF unsigned_less]) simp
  with fits have lt: "unat len + length bs < 2 ^ 64" by simp
  then have n: "unat (of_nat (length bs) :: u64) = length bs"
    by (simp add: unsigned_of_nat take_bit_nat_eq_self)
  with lt have sum: "unat (len + of_nat (length bs)) = unat len + length bs"
    by (subst unat_add_no_wrap) simp_all
  define d' where "d' = take (unat len) d @ map Some bs @ drop (unat len + length bs) d"
  have ld: "length d = unat cap" and "unat len \<le> length d"
    using wf by (auto simp: wf_block_def word_le_nat_alt)
  then have "take (unat (len + of_nat (length bs))) d' = take (unat len) d @ map Some bs"
    by (simp add: sum min_def d'_def)
  also have "take (unat len) d = map Some (block_contents d len)"
    using wf by (simp only: wf_block_def block_contents_def map_Some_the)
  finally have "take (unat (len + of_nat (length bs))) d' = map Some (block_contents d len @ bs)"
    by simp
  moreover have "length d' = unat cap" using ld fits by (simp add: d'_def)
  ultimately have "wf_block d' (len + of_nat (length bs)) cap
      \<and> block_contents d' (len + of_nat (length bs)) = block_contents d len @ bs"
    using fits sum by (intro wf_blockI) (simp_all add: word_le_nat_alt)
  then show ?thesis using fits ld by (simp add: memcpy_to_def d'_def)
qed

section \<open>The interface of a byte sink\<close>

text \<open>A sink holds a byte sequence and appends to it.\<close>

locale byte_sink =
  fixes sink_inv :: "'b \<Rightarrow> bool"
    and contents :: "'b \<Rightarrow> bytes"
    and sink_write :: "'b \<Rightarrow> bytes \<Rightarrow> 'b cres"
  assumes write_append:
    "sink_inv b \<Longrightarrow> length (contents b) + length bs \<le> sink_limit \<Longrightarrow>
       \<exists>b'. sink_write b bs = Inr b' \<and> sink_inv b' \<and> contents b' = contents b @ bs"
begin

text \<open>A step appends \<open>bs\<close> to every sink with room for it.\<close>

definition appends :: "('b \<Rightarrow> 'b cres) \<Rightarrow> bytes \<Rightarrow> bool" where
  "appends f bs \<longleftrightarrow>
     (\<forall>b. sink_inv b \<longrightarrow> length (contents b) + length bs \<le> sink_limit \<longrightarrow>
        (\<exists>b'. f b = Inr b' \<and> sink_inv b' \<and> contents b' = contents b @ bs))"

lemma appends_write: "appends (\<lambda>b. sink_write b bs) bs"
  using write_append by (auto simp: appends_def)

lemma appends_skip: "appends Inr []"
  by (simp add: appends_def)

lemma appends_seq:
  assumes "appends f xs" and "appends g ys"
  shows "appends (\<lambda>b. cbind (f b) g) (xs @ ys)"
  unfolding appends_def
proof (intro allI impI)
  fix b assume b: "sink_inv b" "length (contents b) + length (xs @ ys) \<le> sink_limit"
  then obtain b1 where b1: "f b = Inr b1" "sink_inv b1" "contents b1 = contents b @ xs"
    using assms(1) by (fastforce simp: appends_def)
  then obtain b2 where "g b1 = Inr b2" "sink_inv b2" "contents b2 = contents b1 @ ys"
    using assms(2) b(2) by (fastforce simp: appends_def)
  with b1 show "\<exists>b'. cbind (f b) g = Inr b' \<and> sink_inv b'
                  \<and> contents b' = contents b @ xs @ ys" by simp
qed

text \<open>Writing the pieces of a sequence one by one writes their concatenation.\<close>

lemma appends_loop:
  assumes "\<And>x. appends (\<lambda>b. f b x) (enc x)"
    and "\<And>b. loop b [] = Inr b" and "\<And>b x xs. loop b (x # xs) = cbind (f b x) (\<lambda>b'. loop b' xs)"
  shows "appends (\<lambda>b. loop b xs) (concat (map enc xs))"
proof (induction xs)
  case Nil
  then show ?case using appends_skip by (simp add: assms(2))
next
  case (Cons x xs)
  then show ?case using appends_seq [OF assms(1) [of x] Cons.IH] by (simp add: assms(3))
qed

text \<open>A step that fails, on every sink with room for \<open>bs\<close>, after writing part of it.\<close>

definition fails :: "('b \<Rightarrow> 'b cres) \<Rightarrow> bytes \<Rightarrow> fault \<Rightarrow> bool" where
  "fails f bs e \<longleftrightarrow>
     (\<forall>b. sink_inv b \<longrightarrow> length (contents b) + length bs \<le> sink_limit \<longrightarrow> f b = Inl e)"

lemma fails_seq:
  assumes "appends f xs" and "fails g ys e"
  shows "fails (\<lambda>b. cbind (f b) g) (xs @ ys) e"
  unfolding fails_def
proof (intro allI impI)
  fix b assume b: "sink_inv b" "length (contents b) + length (xs @ ys) \<le> sink_limit"
  then obtain b1 where "f b = Inr b1" "sink_inv b1" "contents b1 = contents b @ xs"
    using assms(1) by (fastforce simp: appends_def)
  then show "cbind (f b) g = Inl e" using assms(2) b(2) by (simp add: fails_def)
qed

lemma appendsD:
  "appends f bs \<Longrightarrow> sink_inv b \<Longrightarrow> length (contents b) + length bs \<le> sink_limit \<Longrightarrow>
     \<exists>b'. f b = Inr b' \<and> sink_inv b' \<and> contents b' = contents b @ bs"
  by (simp add: appends_def)

end

section \<open>The common byte buffer\<close>

record WirbleByteBuf =
  bb_data :: block
  bb_size :: u64
  bb_capacity :: u64

definition wirble_bytebuf_init :: WirbleByteBuf where
  "wirble_bytebuf_init = \<lparr>bb_data = [], bb_size = 0, bb_capacity = 0\<rparr>"

definition wirble_bytebuf_destroy :: "WirbleByteBuf \<Rightarrow> WirbleByteBuf" where
  "wirble_bytebuf_destroy b = b\<lparr>bb_data := [], bb_size := 0, bb_capacity := 0\<rparr>"

definition wirble_bytebuf_clear :: "WirbleByteBuf \<Rightarrow> WirbleByteBuf" where
  "wirble_bytebuf_clear b = b\<lparr>bb_size := 0\<rparr>"

definition wirble_bytebuf_reserve ::
  "(u64 \<Rightarrow> bool) \<Rightarrow> WirbleByteBuf \<Rightarrow> u64 \<Rightarrow> (bool \<times> WirbleByteBuf) cres" where
  "wirble_bytebuf_reserve ok b capacity =
     (if capacity \<le> bb_capacity b then Inr (True, b)
      else case grow_cap (if bb_capacity b = 0 then 64 else bb_capacity b) capacity of
             None \<Rightarrow> Inl Diverges
           | Some new_capacity \<Rightarrow>
               if \<not> ok new_capacity then Inr (False, b)
               else Inr (True, b\<lparr>bb_data := realloc_block (bb_data b) (unat new_capacity),
                                 bb_capacity := new_capacity\<rparr>))"

definition wirble_bytebuf_append ::
  "(u64 \<Rightarrow> bool) \<Rightarrow> WirbleByteBuf \<Rightarrow> bytes option \<Rightarrow> u64 \<Rightarrow> (bool \<times> WirbleByteBuf) cres" where
  "wirble_bytebuf_append ok b data sz =
     (case data of
        None \<Rightarrow> Inr (sz = 0, b)
      | Some src \<Rightarrow>
          if sz = 0 then Inr (True, b)
          else cbind (wirble_bytebuf_reserve ok b (bb_size b + sz)) (\<lambda>(r, b).
                 if \<not> r then Inr (False, b)
                 else cbind (read_block src 0 (unat sz)) (\<lambda>bs.
                      cbind (memcpy_to (bb_data b) (unat (bb_size b)) bs) (\<lambda>d.
                      Inr (True, b\<lparr>bb_data := d, bb_size := bb_size b + sz\<rparr>)))))"

definition wirble_bytebuf_append_byte ::
  "(u64 \<Rightarrow> bool) \<Rightarrow> WirbleByteBuf \<Rightarrow> u8 \<Rightarrow> (bool \<times> WirbleByteBuf) cres" where
  "wirble_bytebuf_append_byte ok b byte = wirble_bytebuf_append ok b (Some [byte]) 1"

definition wirble_bytebuf_append_cstr ::
  "(u64 \<Rightarrow> bool) \<Rightarrow> WirbleByteBuf \<Rightarrow> bytes option \<Rightarrow> (bool \<times> WirbleByteBuf) cres" where
  "wirble_bytebuf_append_cstr ok b text =
     (case text of
        None \<Rightarrow> Inr (False, b)
      | Some s \<Rightarrow> wirble_bytebuf_append ok b (Some s) (of_nat (length (cstr s))))"

text \<open>
  \<open>wirble_bytebuf_read_file\<close> on a file whose successive \<^verbatim>\<open>fread\<close> calls return the given
  chunks (at most 4096 bytes each, the loop stopping at the first empty one); \<open>None\<close> is a
  file that cannot be opened.
\<close>

fun bytebuf_read_chunks ::
  "(u64 \<Rightarrow> bool) \<Rightarrow> WirbleByteBuf \<Rightarrow> bytes list \<Rightarrow> (bool \<times> WirbleByteBuf) cres" where
  "bytebuf_read_chunks ok b [] = Inr (True, b)"
| "bytebuf_read_chunks ok b (c # cs) =
     (if c = [] then Inr (True, b)
      else cbind (wirble_bytebuf_append ok b (Some c) (of_nat (length c))) (\<lambda>(r, b').
             if r then bytebuf_read_chunks ok b' cs else Inr (False, b')))"

definition wirble_bytebuf_read_file ::
  "(u64 \<Rightarrow> bool) \<Rightarrow> WirbleByteBuf \<Rightarrow> bytes list option \<Rightarrow> (bool \<times> WirbleByteBuf) cres" where
  "wirble_bytebuf_read_file ok b file =
     (case file of
        None \<Rightarrow> Inr (False, b)
      | Some chunks \<Rightarrow> bytebuf_read_chunks ok (wirble_bytebuf_clear b) chunks)"

text \<open>Well-formed buffers and the bytes they hold.\<close>

definition wf_bytebuf :: "WirbleByteBuf \<Rightarrow> bool" where
  "wf_bytebuf b \<longleftrightarrow> wf_block (bb_data b) (bb_size b) (bb_capacity b)"

definition bytebuf_contents :: "WirbleByteBuf \<Rightarrow> bytes" where
  "bytebuf_contents b = block_contents (bb_data b) (bb_size b)"

lemma wf_bytebuf_init [simp]:
  "wf_bytebuf wirble_bytebuf_init" "bytebuf_contents wirble_bytebuf_init = []"
  "wf_bytebuf b \<Longrightarrow> wf_bytebuf (wirble_bytebuf_clear b)"
  "bytebuf_contents (wirble_bytebuf_clear b) = []"
  by (simp_all add: wf_bytebuf_def bytebuf_contents_def wirble_bytebuf_init_def
        wirble_bytebuf_clear_def wf_block_def)

text \<open>
  Reserving up to half of the address space returns; when the allocator serves the request
  the capacity suffices, and in both cases the contents are kept.
\<close>

lemma bytebuf_reserve_ok:
  assumes wf: "wf_bytebuf b" and lim: "unat n \<le> sink_limit"
  shows "\<exists>r b'. wirble_bytebuf_reserve ok b n = Inr (r, b') \<and> wf_bytebuf b'
           \<and> bytebuf_contents b' = bytebuf_contents b \<and> bb_size b' = bb_size b
           \<and> (r \<longrightarrow> n \<le> bb_capacity b') \<and> ((\<forall>c. ok c) \<longrightarrow> r)"
proof (cases "n \<le> bb_capacity b")
  case True
  then show ?thesis using wf by (auto simp: wirble_bytebuf_reserve_def)
next
  case False
  with wf_block_grow [OF wf [unfolded wf_bytebuf_def] lim] obtain c where
    "grow_cap (if bb_capacity b = 0 then 64 else bb_capacity b) n = Some c" "n \<le> c"
    "wf_block (realloc_block (bb_data b) (unat c)) (bb_size b) c"
    "block_contents (realloc_block (bb_data b) (unat c)) (bb_size b)
       = block_contents (bb_data b) (bb_size b)" by blast
  with False wf show ?thesis
    by (cases "ok c") (auto simp: wirble_bytebuf_reserve_def wf_bytebuf_def bytebuf_contents_def)
qed

lemma bytebuf_append_ok:
  assumes wf: "wf_bytebuf b"
    and lim: "length (bytebuf_contents b) + length bs \<le> sink_limit"
  shows "\<exists>r b'. wirble_bytebuf_append ok b (Some bs) (of_nat (length bs)) = Inr (r, b')
           \<and> wf_bytebuf b' \<and> ((\<forall>c. ok c) \<longrightarrow> r)
           \<and> bytebuf_contents b' = (if r then bytebuf_contents b @ bs else bytebuf_contents b)"
proof (cases "bs = []")
  case True
  then show ?thesis using wf by (auto simp: wirble_bytebuf_append_def)
next
  case False
  let ?n = "of_nat (length bs) :: u64"
  have sz: "length (bytebuf_contents b) = unat (bb_size b)"
    using wf by (simp add: wf_bytebuf_def bytebuf_contents_def wf_block_length)
  have n: "unat ?n = length bs"
    using lim by (simp add: unsigned_of_nat take_bit_nat_eq_self)
  with False have n0: "?n \<noteq> 0" by (metis length_0_conv unat_0)
  have sum: "unat (bb_size b + ?n) = unat (bb_size b) + length bs"
    using lim sz n by (subst unat_add_no_wrap) simp_all
  obtain r b' where res: "wirble_bytebuf_reserve ok b (bb_size b + ?n) = Inr (r, b')"
    and wf': "wf_bytebuf b'" and same: "bytebuf_contents b' = bytebuf_contents b"
      "bb_size b' = bb_size b" and cap: "r \<longrightarrow> bb_size b + ?n \<le> bb_capacity b'"
    and all: "(\<forall>c. ok c) \<longrightarrow> r"
    using bytebuf_reserve_ok [OF wf, of "bb_size b + ?n" ok] lim sum sz by auto
  show ?thesis
  proof (cases r)
    case False
    then show ?thesis using res wf' same n0 all by (auto simp: wirble_bytebuf_append_def)
  next
    case True
    then have "unat (bb_size b') + length bs \<le> unat (bb_capacity b')"
      using cap sum same by (simp add: word_le_nat_alt)
    from wf_block_append [OF wf' [unfolded wf_bytebuf_def] this] True res n0 n same all
    show ?thesis by (auto simp: wirble_bytebuf_append_def read_block_def wf_bytebuf_def
          bytebuf_contents_def)
  qed
qed

definition bytebuf_write :: "WirbleByteBuf \<Rightarrow> bytes \<Rightarrow> WirbleByteBuf cres" where
  "bytebuf_write b bs =
     cbind (wirble_bytebuf_append (\<lambda>_. True) b (Some bs) (of_nat (length bs))) (\<lambda>(r, b'). Inr b')"

interpretation bytebuf_sink: byte_sink wf_bytebuf bytebuf_contents bytebuf_write
proof unfold_locales
  fix b and bs :: bytes
  assume "wf_bytebuf b" "length (bytebuf_contents b) + length bs \<le> sink_limit"
  then show "\<exists>b'. bytebuf_write b bs = Inr b' \<and> wf_bytebuf b'
               \<and> bytebuf_contents b' = bytebuf_contents b @ bs"
    using bytebuf_append_ok [of b bs "\<lambda>_. True"] by (auto simp: bytebuf_write_def)
qed

text \<open>
  Loading a file into a byte buffer replaces the contents by the bytes of the file: the
  reads are appended in order, nothing of the previous contents remains, no write leaves
  the allocation and the doubling loop ends, for files of up to half of the address space.
\<close>

theorem bytebuf_read_file_contents:
  assumes "wf_bytebuf b" and "\<forall>c\<in>set chunks. c \<noteq> []"
    and "length (concat chunks) \<le> sink_limit"
  shows "\<exists>b'. wirble_bytebuf_read_file (\<lambda>_. True) b (Some chunks) = Inr (True, b')
           \<and> wf_bytebuf b' \<and> bytebuf_contents b' = concat chunks"
proof -
  have step: "\<exists>b'. bytebuf_read_chunks (\<lambda>_. True) b cs = Inr (True, b')
           \<and> wf_bytebuf b' \<and> bytebuf_contents b' = bytebuf_contents b @ concat cs"
    if "wf_bytebuf b" "\<forall>c\<in>set cs. c \<noteq> []"
      "length (bytebuf_contents b) + length (concat cs) \<le> sink_limit" for b cs
    using that
  proof (induction cs arbitrary: b)
    case Nil
    then show ?case by simp
  next
    case (Cons c cs)
    obtain b' where "wirble_bytebuf_append (\<lambda>_. True) b (Some c) (of_nat (length c)) = Inr (True, b')"
      "wf_bytebuf b'" "bytebuf_contents b' = bytebuf_contents b @ c"
      using bytebuf_append_ok [of b c "\<lambda>_. True"] Cons.prems by auto
    then show ?case using Cons.IH [of b'] Cons.prems by auto
  qed
  from step [of "wirble_bytebuf_clear b" chunks] assms show ?thesis
    by (simp add: wirble_bytebuf_read_file_def)
qed

theorem bytebuf_read_file_contents_witness:
  "\<exists>b'. wirble_bytebuf_read_file (\<lambda>_. True) wirble_bytebuf_init (Some [[1, 2], [3]]) = Inr (True, b')
      \<and> wf_bytebuf b' \<and> bytebuf_contents b' = [1, 2, 3]"
  using bytebuf_read_file_contents [of wirble_bytebuf_init "[[1, 2], [3]]"] by simp

end
