(* ===== verification/Wvm_Serialize.thy ===== *)
theory Wvm_Serialize
  imports Wvm_Interp Bytebuf
begin

text \<open>
  The object writer and reader of \<^verbatim>\<open>wvm_emit.c\<close>: the \<open>WVMBuffer\<close> byte sink, the
  \<open>WVMReader\<close> cursor, serialisation of prototypes, and object files in memory. Scalars
  are copied in host order, little-endian on the supported hosts. The allocator is a
  parameter; \<open>time(NULL)\<close> is the parameter \<open>now\<close> of the object writer.
\<close>

section \<open>Writing\<close>

record WVMBuffer =
  bf_data :: block
  bf_len :: u64
  bf_cap :: u64

definition wvm_buffer_grow ::
  "(u64 \<Rightarrow> bool) \<Rightarrow> WVMBuffer \<Rightarrow> u64 \<Rightarrow> (bool \<times> WVMBuffer) cres" where
  "wvm_buffer_grow ok buf extra =
     (let needed = bf_len buf + extra in
      if needed \<le> bf_cap buf then Inr (True, buf)
      else case grow_cap (if bf_cap buf = 0 then 64 else bf_cap buf) needed of
             None \<Rightarrow> Inl Diverges
           | Some newCap \<Rightarrow>
               if \<not> ok newCap then Inr (False, buf)
               else Inr (True, buf\<lparr>bf_data := realloc_block (bf_data buf) (unat newCap),
                                   bf_cap := newCap\<rparr>))"

definition wvmBufferCreate :: "(u64 \<Rightarrow> bool) \<Rightarrow> u64 \<Rightarrow> WVMBuffer" where
  "wvmBufferCreate ok initialCap =
     (if initialCap \<noteq> 0 \<and> ok initialCap
      then \<lparr>bf_data = replicate (unat initialCap) None, bf_len = 0, bf_cap = initialCap\<rparr>
      else \<lparr>bf_data = [], bf_len = 0, bf_cap = 0\<rparr>)"

definition wvmBufferDestroy :: "WVMBuffer \<Rightarrow> WVMBuffer" where
  "wvmBufferDestroy buf = buf\<lparr>bf_data := [], bf_len := 0, bf_cap := 0\<rparr>"

text \<open>The body shared by the scalar writers and \<open>wvmBufferWriteBytes\<close>: grow, then copy.\<close>

definition wvmBufferWriteBytes ::
  "(u64 \<Rightarrow> bool) \<Rightarrow> WVMBuffer \<Rightarrow> bytes \<Rightarrow> WVMBuffer cres" where
  "wvmBufferWriteBytes ok buf data =
     cbind (wvm_buffer_grow ok buf (of_nat (length data))) (\<lambda>(r, buf).
       if \<not> r then Inr buf
       else cbind (memcpy_to (bf_data buf) (unat (bf_len buf)) data) (\<lambda>d.
            Inr (buf\<lparr>bf_data := d, bf_len := bf_len buf + of_nat (length data)\<rparr>)))"

definition wvmBufferWriteU8 :: "(u64 \<Rightarrow> bool) \<Rightarrow> WVMBuffer \<Rightarrow> u8 \<Rightarrow> WVMBuffer cres" where
  "wvmBufferWriteU8 ok buf val = wvmBufferWriteBytes ok buf (le_bytes val)"

definition wvmBufferWriteU16 :: "(u64 \<Rightarrow> bool) \<Rightarrow> WVMBuffer \<Rightarrow> u16 \<Rightarrow> WVMBuffer cres" where
  "wvmBufferWriteU16 ok buf val = wvmBufferWriteBytes ok buf (le_bytes val)"

definition wvmBufferWriteU32 :: "(u64 \<Rightarrow> bool) \<Rightarrow> WVMBuffer \<Rightarrow> u32 \<Rightarrow> WVMBuffer cres" where
  "wvmBufferWriteU32 ok buf val = wvmBufferWriteBytes ok buf (le_bytes val)"

definition wvmBufferWriteU64 :: "(u64 \<Rightarrow> bool) \<Rightarrow> WVMBuffer \<Rightarrow> u64 \<Rightarrow> WVMBuffer cres" where
  "wvmBufferWriteU64 ok buf val = wvmBufferWriteBytes ok buf (le_bytes val)"

definition wvmBufferWriteI32 :: "(u64 \<Rightarrow> bool) \<Rightarrow> WVMBuffer \<Rightarrow> u32 \<Rightarrow> WVMBuffer cres" where
  "wvmBufferWriteI32 ok buf val = wvmBufferWriteBytes ok buf (le_bytes val)"

text \<open>A \<^verbatim>\<open>double\<close> is given by its bit pattern.\<close>

definition wvmBufferWriteF64 :: "(u64 \<Rightarrow> bool) \<Rightarrow> WVMBuffer \<Rightarrow> u64 \<Rightarrow> WVMBuffer cres" where
  "wvmBufferWriteF64 ok buf val = wvmBufferWriteBytes ok buf (le_bytes val)"

text \<open>
  A string is written as its length, cast to 32 bits, and that many bytes; a null pointer
  is written as the empty string.
\<close>

definition wvm_string_len :: "bytes option \<Rightarrow> u32" where
  "wvm_string_len str = (case str of None \<Rightarrow> 0 | Some s \<Rightarrow> of_nat (length (cstr s)))"

definition wvmBufferWriteString ::
  "(u64 \<Rightarrow> bool) \<Rightarrow> WVMBuffer \<Rightarrow> bytes option \<Rightarrow> WVMBuffer cres" where
  "wvmBufferWriteString ok buf str =
     (let len = wvm_string_len str in
      cbind (wvmBufferWriteU32 ok buf len) (\<lambda>buf.
        if len \<noteq> 0 then wvmBufferWriteBytes ok buf (take (unat len) (the str)) else Inr buf))"

fun wvm_write_u64s :: "(u64 \<Rightarrow> bool) \<Rightarrow> WVMBuffer \<Rightarrow> u64 list \<Rightarrow> WVMBuffer cres" where
  "wvm_write_u64s ok buf [] = Inr buf"
| "wvm_write_u64s ok buf (x # xs) =
     cbind (wvmBufferWriteU64 ok buf x) (\<lambda>buf. wvm_write_u64s ok buf xs)"

text \<open>
  The last loop of the serialiser runs up to \<open>instrCount\<close> and indexes \<open>lineMap\<close>, whose
  length the prototype does not record.
\<close>

fun wvm_write_lines ::
  "(u64 \<Rightarrow> bool) \<Rightarrow> u32 list \<Rightarrow> WVMBuffer \<Rightarrow> nat list \<Rightarrow> WVMBuffer cres" where
  "wvm_write_lines ok lines buf [] = Inr buf"
| "wvm_write_lines ok lines buf (i # is) =
     cbind (arr_get lines i) (\<lambda>x.
     cbind (wvmBufferWriteU32 ok buf x) (\<lambda>buf. wvm_write_lines ok lines buf is))"

definition wvmSerializePrototype ::
  "(u64 \<Rightarrow> bool) \<Rightarrow> WVMPrototype \<Rightarrow> WVMBuffer \<Rightarrow> WVMBuffer cres" where
  "wvmSerializePrototype ok proto buf =
     (let instrCount = length (proto_code proto) in
      cbind (wvmBufferWriteString ok buf (pr_name proto)) (\<lambda>buf.
      cbind (wvmBufferWriteString ok buf (pr_source proto)) (\<lambda>buf.
      cbind (wvmBufferWriteU16 ok buf (pr_regCount proto)) (\<lambda>buf.
      cbind (wvmBufferWriteU16 ok buf (pr_paramCount proto)) (\<lambda>buf.
      cbind (wvmBufferWriteU8 ok buf (pr_isVararg proto)) (\<lambda>buf.
      cbind (wvmBufferWriteU8 ok buf 0) (\<lambda>buf.
      cbind (wvmBufferWriteU32 ok buf (of_nat instrCount)) (\<lambda>buf.
      cbind (wvmBufferWriteU32 ok buf (of_nat (length (pr_consts proto)))) (\<lambda>buf.
      cbind (wvmBufferWriteU32 ok buf (pr_strCount proto)) (\<lambda>buf.
      cbind (wvmBufferWriteU32 ok buf (pr_protoCount proto)) (\<lambda>buf.
      cbind (wvm_write_u64s ok buf (proto_code proto)) (\<lambda>buf.
      cbind (wvm_write_u64s ok buf (pr_consts proto)) (\<lambda>buf.
      cbind (wvmBufferWriteU32 ok buf
               (if pr_lineMap proto = None then 0 else of_nat instrCount)) (\<lambda>buf.
      case pr_lineMap proto of
        None \<Rightarrow> Inr buf
      | Some lines \<Rightarrow> wvm_write_lines ok lines buf [0..<instrCount]))))))))))))))"

record WVMFileHeader =
  fh_magic :: u32
  fh_versionMajor :: u16
  fh_versionMinor :: u16
  fh_flags :: u32
  fh_sectionCount :: u32
  fh_timestamp :: u64
  fh_checksum :: bytes

definition WVM_MAGIC_WVMO :: u32 where "WVM_MAGIC_WVMO = 0x57564D4F"

text \<open>The bytes of the header structure: its members in order, without padding.\<close>

definition header_bytes :: "WVMFileHeader \<Rightarrow> bytes" where
  "header_bytes h = le_bytes (fh_magic h) @ le_bytes (fh_versionMajor h)
     @ le_bytes (fh_versionMinor h) @ le_bytes (fh_flags h) @ le_bytes (fh_sectionCount h)
     @ le_bytes (fh_timestamp h) @ fh_checksum h"

definition wvm_object_header :: "u64 \<Rightarrow> WVMFileHeader" where
  "wvm_object_header now =
     \<lparr>fh_magic = WVM_MAGIC_WVMO, fh_versionMajor = 1, fh_versionMinor = 0, fh_flags = 0,
      fh_sectionCount = 1, fh_timestamp = now, fh_checksum = replicate 32 0\<rparr>"

text \<open>
  \<open>wvmWriteObjectMemory\<close> returns the buffer whose data and length it hands out, \<open>None\<close> when
  it returns 0.
\<close>

definition wvmWriteObjectMemory ::
  "(u64 \<Rightarrow> bool) \<Rightarrow> u64 \<Rightarrow> WVMState \<Rightarrow> WVMPrototype option \<Rightarrow> (WVMBuffer option \<times> WVMState) cres"
  where
  "wvmWriteObjectMemory ok now vm proto =
     (case wvmVerifyPrototype vm proto of
        (False, vm) \<Rightarrow> Inr (None, vm)
      | (True, vm) \<Rightarrow>
          cbind (wvmBufferWriteBytes ok (wvmBufferCreate ok 256)
                   (header_bytes (wvm_object_header now))) (\<lambda>buf.
          cbind (wvmSerializePrototype ok (the proto) buf) (\<lambda>buf. Inr (Some buf, vm))))"

section \<open>Reading\<close>

record WVMReader =
  rd_data :: bytes
  rd_len :: u64
  rd_pos :: u64

definition wvmReaderCreate :: "bytes \<Rightarrow> u64 \<Rightarrow> WVMReader" where
  "wvmReaderCreate data len = \<lparr>rd_data = data, rd_len = len, rd_pos = 0\<rparr>"

definition wvm_reader_pull :: "WVMReader \<Rightarrow> u64 \<Rightarrow> (bytes option \<times> WVMReader) cres" where
  "wvm_reader_pull r len =
     (if rd_len r < rd_pos r + len then Inr (None, r)
      else cbind (read_block (rd_data r) (unat (rd_pos r)) (unat len)) (\<lambda>bs.
           Inr (Some bs, r\<lparr>rd_pos := rd_pos r + len\<rparr>)))"

text \<open>A scalar reader gives 0, and stays where it is, when too few bytes are left.\<close>

definition wvm_read_scalar :: "u64 \<Rightarrow> WVMReader \<Rightarrow> ('a::len word \<times> WVMReader) cres" where
  "wvm_read_scalar n r =
     cbind (wvm_reader_pull r n) (\<lambda>(bs, r).
       Inr (case bs of None \<Rightarrow> 0 | Some bs \<Rightarrow> of_le_bytes bs, r))"

definition wvmReaderReadU8 :: "WVMReader \<Rightarrow> (u8 \<times> WVMReader) cres" where
  "wvmReaderReadU8 r = wvm_read_scalar 1 r"

definition wvmReaderReadU16 :: "WVMReader \<Rightarrow> (u16 \<times> WVMReader) cres" where
  "wvmReaderReadU16 r = wvm_read_scalar 2 r"

definition wvmReaderReadU32 :: "WVMReader \<Rightarrow> (u32 \<times> WVMReader) cres" where
  "wvmReaderReadU32 r = wvm_read_scalar 4 r"

definition wvmReaderReadU64 :: "WVMReader \<Rightarrow> (u64 \<times> WVMReader) cres" where
  "wvmReaderReadU64 r = wvm_read_scalar 8 r"

definition wvmReaderReadI32 :: "WVMReader \<Rightarrow> (u32 \<times> WVMReader) cres" where
  "wvmReaderReadI32 r = wvm_read_scalar 4 r"

definition wvmReaderReadF64 :: "WVMReader \<Rightarrow> (u64 \<times> WVMReader) cres" where
  "wvmReaderReadF64 r = wvm_read_scalar 8 r"

definition wvmReaderReadBytes :: "WVMReader \<Rightarrow> u64 \<Rightarrow> (bytes option \<times> WVMReader) cres" where
  "wvmReaderReadBytes r len = wvm_reader_pull r len"

definition wvmReaderReadString ::
  "(u64 \<Rightarrow> bool) \<Rightarrow> WVMReader \<Rightarrow> (bytes option \<times> WVMReader) cres" where
  "wvmReaderReadString ok r =
     cbind (wvmReaderReadU32 r) (\<lambda>(len, r).
       if \<not> ok (ucast len + 1) then Inr (None, r)
       else if len = 0 then Inr (Some [], r)
       else cbind (wvmReaderReadBytes r (ucast len)) (\<lambda>(bs, r).
              Inr (map_option cstr bs, r)))"

definition wvmReaderEOF :: "WVMReader \<Rightarrow> bool" where
  "wvmReaderEOF r \<longleftrightarrow> rd_len r \<le> rd_pos r"

text \<open>The loops that fill an array with \<open>n\<close> scalars.\<close>

fun wvm_read_array ::
  "(WVMReader \<Rightarrow> ('a \<times> WVMReader) cres) \<Rightarrow> nat \<Rightarrow> WVMReader \<Rightarrow> ('a list \<times> WVMReader) cres" where
  "wvm_read_array rd 0 r = Inr ([], r)"
| "wvm_read_array rd (Suc n) r =
     cbind (rd r) (\<lambda>(x, r). cbind (wvm_read_array rd n r) (\<lambda>(xs, r). Inr (x # xs, r)))"

definition wvmDeserializePrototype ::
  "(u64 \<Rightarrow> bool) \<Rightarrow> WVMReader \<Rightarrow> (WVMPrototype option \<times> WVMReader) cres" where
  "wvmDeserializePrototype ok r =
     cbind (wvmReaderReadString ok r) (\<lambda>(name, r).
     cbind (wvmReaderReadString ok r) (\<lambda>(source, r).
     cbind (wvmReaderReadU16 r) (\<lambda>(regs, r).
     cbind (wvmReaderReadU16 r) (\<lambda>(params, r).
     cbind (wvmReaderReadU8 r) (\<lambda>(vararg, r).
     cbind (wvmReaderReadU8 r) (\<lambda>(_, r).
     cbind (wvmReaderReadU32 r) (\<lambda>(instrCount, r).
     cbind (wvmReaderReadU32 r) (\<lambda>(constCount, r).
     cbind (wvmReaderReadU32 r) (\<lambda>(strCount, r).
     cbind (wvmReaderReadU32 r) (\<lambda>(protoCount, r).
     if (instrCount \<noteq> 0 \<and> \<not> ok (ucast instrCount * 8))
        \<or> (constCount \<noteq> 0 \<and> \<not> ok (ucast constCount * 8)) then Inr (None, r)
     else
     cbind (wvm_read_array wvmReaderReadU64 (unat instrCount) r) (\<lambda>(instrs, r).
     cbind (wvm_read_array wvmReaderReadU64 (unat constCount) r) (\<lambda>(consts, r).
     cbind (wvmReaderReadU32 r) (\<lambda>(lineCount, r).
     if lineCount \<noteq> 0 \<and> \<not> ok (ucast lineCount * 4) then Inr (None, r)
     else
     cbind (wvm_read_array wvmReaderReadU32 (unat lineCount) r) (\<lambda>(lines, r).
     Inr (Some \<lparr>pr_name = name, pr_source = source,
                pr_instrs = (if instrCount = 0 then None else Some instrs),
                pr_consts = consts, pr_strCount = strCount, pr_regCount = regs,
                pr_paramCount = params, pr_isVararg = vararg, pr_protoCount = protoCount,
                pr_lineMap = (if lineCount = 0 then None else Some lines)\<rparr>, r)))))))))))))))"

definition wvmReadObjectMemory ::
  "(u64 \<Rightarrow> bool) \<Rightarrow> WVMState \<Rightarrow> bytes option \<Rightarrow> u64 \<Rightarrow> (WVMPrototype option \<times> WVMState) cres"
  where
  "wvmReadObjectMemory ok vm data len =
     (case data of
        None \<Rightarrow> Inr (None, wvmSetErrorf vm (Some ''bytecode buffer is too small''))
      | Some d \<Rightarrow>
          if len < 56 then Inr (None, wvmSetErrorf vm (Some ''bytecode buffer is too small''))
          else cbind (wvmReaderReadBytes (wvmReaderCreate d len) 56) (\<lambda>(h, r).
            case h of
              None \<Rightarrow> Inr (None, wvmSetErrorf vm (Some ''invalid WVM object header''))
            | Some h \<Rightarrow>
                if of_le_bytes (take 4 h) \<noteq> WVM_MAGIC_WVMO
                then Inr (None, wvmSetErrorf vm (Some ''invalid WVM object header''))
                else cbind (wvmDeserializePrototype ok r) (\<lambda>(proto, r).
                       case proto of
                         None \<Rightarrow> Inr (None, vm)
                       | Some p \<Rightarrow>
                           (case wvmVerifyPrototype vm (Some p) of
                              (True, vm) \<Rightarrow> Inr (Some p, vm)
                            | (False, vm) \<Rightarrow> Inr (None, vm)))))"

definition wvmLoadBytecode ::
  "(u64 \<Rightarrow> bool) \<Rightarrow> WVMState \<Rightarrow> bytes option \<Rightarrow> u64 \<Rightarrow> (WVMPrototype option \<times> WVMState) cres"
  where "wvmLoadBytecode ok vm data len = wvmReadObjectMemory ok vm data len"

text \<open>No payload is inspected: every checksum is accepted.\<close>

definition wvmVerifyChecksum :: "WVMFileHeader \<Rightarrow> bytes \<Rightarrow> bool" where
  "wvmVerifyChecksum header payload = True"

section \<open>The buffer is a byte sink\<close>

definition wf_buffer :: "WVMBuffer \<Rightarrow> bool" where
  "wf_buffer b \<longleftrightarrow> wf_block (bf_data b) (bf_len b) (bf_cap b)"

definition buffer_contents :: "WVMBuffer \<Rightarrow> bytes" where
  "buffer_contents b = block_contents (bf_data b) (bf_len b)"

abbreviation any_size :: "u64 \<Rightarrow> bool" where "any_size \<equiv> \<lambda>_. True"

lemma wvmBufferCreate_ok [simp]:
  "wf_buffer (wvmBufferCreate ok n)" "buffer_contents (wvmBufferCreate ok n) = []"
  by (simp_all add: wf_buffer_def buffer_contents_def wvmBufferCreate_def)

lemma length_buffer_contents: "wf_buffer b \<Longrightarrow> length (buffer_contents b) = unat (bf_len b)"
  by (simp add: wf_buffer_def buffer_contents_def wf_block_length)

lemma wvm_buffer_grow_ok:
  assumes wf: "wf_buffer b" and lim: "unat (bf_len b + n) \<le> sink_limit"
  shows "\<exists>b'. wvm_buffer_grow any_size b n = Inr (True, b') \<and> wf_buffer b'
           \<and> buffer_contents b' = buffer_contents b \<and> bf_len b' = bf_len b
           \<and> bf_len b + n \<le> bf_cap b'"
proof (cases "bf_len b + n \<le> bf_cap b")
  case True
  then show ?thesis using wf by (auto simp: wvm_buffer_grow_def)
next
  case False
  with wf_block_grow [OF wf [unfolded wf_buffer_def] lim] obtain c where
    "grow_cap (if bf_cap b = 0 then 64 else bf_cap b) (bf_len b + n) = Some c"
    "bf_len b + n \<le> c" "wf_block (realloc_block (bf_data b) (unat c)) (bf_len b) c"
    "block_contents (realloc_block (bf_data b) (unat c)) (bf_len b)
       = block_contents (bf_data b) (bf_len b)" by blast
  with False wf show ?thesis
    by (auto simp: wvm_buffer_grow_def wf_buffer_def buffer_contents_def)
qed

lemma wvmBufferWriteBytes_ok:
  assumes wf: "wf_buffer b"
    and lim: "length (buffer_contents b) + length bs \<le> sink_limit"
  shows "\<exists>b'. wvmBufferWriteBytes any_size b bs = Inr b' \<and> wf_buffer b'
           \<and> buffer_contents b' = buffer_contents b @ bs"
proof -
  let ?n = "of_nat (length bs) :: u64"
  have sz: "length (buffer_contents b) = unat (bf_len b)"
    using wf by (rule length_buffer_contents)
  have "unat ?n = length bs"
    using lim by (simp add: unsigned_of_nat take_bit_nat_eq_self)
  then have sum: "unat (bf_len b + ?n) = unat (bf_len b) + length bs"
    using lim sz by (subst unat_add_no_wrap) simp_all
  then obtain b' where b': "wvm_buffer_grow any_size b ?n = Inr (True, b')" "wf_buffer b'"
      "buffer_contents b' = buffer_contents b" "bf_len b' = bf_len b"
      "bf_len b + ?n \<le> bf_cap b'"
    using wvm_buffer_grow_ok [OF wf, of ?n] lim sz by auto
  then have "unat (bf_len b') + length bs \<le> unat (bf_cap b')"
    using sum by (simp add: word_le_nat_alt)
  from wf_block_append [OF b'(2) [unfolded wf_buffer_def] this] b' show ?thesis
    by (auto simp: wvmBufferWriteBytes_def wf_buffer_def buffer_contents_def)
qed

interpretation buffer_sink: byte_sink wf_buffer buffer_contents "wvmBufferWriteBytes any_size"
  using wvmBufferWriteBytes_ok by unfold_locales

text \<open>The byte strings the writers append.\<close>

definition enc_string :: "bytes option \<Rightarrow> bytes" where
  "enc_string str = le_bytes (wvm_string_len str)
     @ take (unat (wvm_string_len str)) (case str of None \<Rightarrow> [] | Some s \<Rightarrow> s)"

definition enc_words :: "'a::len word list \<Rightarrow> bytes" where
  "enc_words xs = concat (map le_bytes xs)"

text \<open>A prototype, with the given line count before its line entries.\<close>

definition enc_proto :: "u32 \<Rightarrow> WVMPrototype \<Rightarrow> bytes" where
  "enc_proto lineCount p = enc_string (pr_name p) @ enc_string (pr_source p)
     @ le_bytes (pr_regCount p) @ le_bytes (pr_paramCount p)
     @ le_bytes (pr_isVararg p) @ le_bytes (0 :: u8)
     @ le_bytes (of_nat (length (proto_code p)) :: u32)
     @ le_bytes (of_nat (length (pr_consts p)) :: u32)
     @ le_bytes (pr_strCount p) @ le_bytes (pr_protoCount p)
     @ enc_words (proto_code p) @ enc_words (pr_consts p)
     @ le_bytes lineCount @ (case pr_lineMap p of None \<Rightarrow> [] | Some ls \<Rightarrow> enc_words ls)"

definition enc_prototype :: "WVMPrototype \<Rightarrow> bytes" where
  "enc_prototype p =
     enc_proto (if pr_lineMap p = None then 0 else of_nat (length (proto_code p))) p"

lemmas buffer_scalar_defs =
  wvmBufferWriteU8_def wvmBufferWriteU16_def wvmBufferWriteU32_def wvmBufferWriteU64_def

lemma appends_scalars:
  "buffer_sink.appends (\<lambda>b. wvmBufferWriteU8 any_size b x8) (le_bytes x8)"
  "buffer_sink.appends (\<lambda>b. wvmBufferWriteU16 any_size b x16) (le_bytes x16)"
  "buffer_sink.appends (\<lambda>b. wvmBufferWriteU32 any_size b x32) (le_bytes x32)"
  "buffer_sink.appends (\<lambda>b. wvmBufferWriteU64 any_size b x64) (le_bytes x64)"
  by (simp_all only: buffer_scalar_defs buffer_sink.appends_write)

lemma appends_string:
  "buffer_sink.appends (\<lambda>b. wvmBufferWriteString any_size b str) (enc_string str)"
proof (cases "wvm_string_len str = 0")
  case True
  then show ?thesis
    using buffer_sink.appends_seq [OF appends_scalars(3) buffer_sink.appends_skip]
    by (simp add: wvmBufferWriteString_def enc_string_def)
next
  case False
  then obtain s where "str = Some s" by (cases str) (simp_all add: wvm_string_len_def)
  with False show ?thesis
    using buffer_sink.appends_seq [OF appends_scalars(3) buffer_sink.appends_write]
    by (simp add: wvmBufferWriteString_def enc_string_def Let_def)
qed

lemma appends_u64s:
  "buffer_sink.appends (\<lambda>b. wvm_write_u64s any_size b xs) (enc_words xs)"
  unfolding enc_words_def
  by (rule buffer_sink.appends_loop [where f = "wvmBufferWriteU64 any_size"])
     (simp_all add: appends_scalars)

lemma appends_lines:
  assumes "\<forall>i\<in>set is. i < length ls"
  shows "buffer_sink.appends (\<lambda>b. wvm_write_lines any_size ls b is) (enc_words (map ((!) ls) is))"
  using assms
proof (induction "is")
  case Nil
  then show ?case using buffer_sink.appends_skip by (simp add: enc_words_def)
next
  case (Cons i "is")
  then show ?case
    using buffer_sink.appends_seq [OF appends_scalars(3) Cons.IH] by (simp add: enc_words_def)
qed

lemma appends_prototype:
  assumes "\<forall>ls. pr_lineMap p = Some ls \<longrightarrow> length ls = length (proto_code p)"
  shows "buffer_sink.appends (wvmSerializePrototype any_size p) (enc_prototype p)"
proof -
  have "buffer_sink.appends
          (\<lambda>buf. case pr_lineMap p of None \<Rightarrow> Inr buf
             | Some lines \<Rightarrow> wvm_write_lines any_size lines buf [0..<length (proto_code p)])
          (case pr_lineMap p of None \<Rightarrow> [] | Some ls \<Rightarrow> enc_words ls)"
  proof (cases "pr_lineMap p")
    case None
    then show ?thesis using buffer_sink.appends_skip by simp
  next
    case (Some ls)
    with assms have "length ls = length (proto_code p)" by simp
    moreover have "map ((!) ls) [0..<length ls] = ls" by (rule map_nth)
    ultimately show ?thesis
      using Some appends_lines [of "[0..<length ls]" ls] by simp
  qed
  then show ?thesis
    unfolding wvmSerializePrototype_def enc_prototype_def enc_proto_def Let_def
    by (intro buffer_sink.appends_seq appends_string appends_scalars appends_u64s)
qed

section \<open>Readers and the wire format\<close>

text \<open>
  A cursor over at most half of the address space, the bytes it has left, and the cursor
  \<open>n\<close> bytes further on.
\<close>

definition wf_reader :: "WVMReader \<Rightarrow> bool" where
  "wf_reader r \<longleftrightarrow> unat (rd_len r) = length (rd_data r) \<and> length (rd_data r) < 2 ^ 62
     \<and> unat (rd_pos r) \<le> length (rd_data r)"

definition rd_left :: "WVMReader \<Rightarrow> bytes" where
  "rd_left r = drop (unat (rd_pos r)) (rd_data r)"

text \<open>A pull either delivers the next bytes or leaves the cursor; it never reads outside.\<close>

lemma wvm_reader_pull_ok:
  assumes wf: "wf_reader r" and n: "unat n < 2 ^ 62"
  shows "\<exists>r'. wvm_reader_pull r n =
             Inr (if unat n \<le> length (rd_left r) then Some (take (unat n) (rd_left r)) else None, r')
           \<and> wf_reader r'
           \<and> rd_left r' = (if unat n \<le> length (rd_left r) then drop (unat n) (rd_left r) else rd_left r)"
proof -
  have "unat (rd_pos r + n) = unat (rd_pos r) + unat n"
    using wf n by (intro unat_add_no_wrap) (simp add: wf_reader_def)
  then show ?thesis using wf
    by (auto simp: wvm_reader_pull_def wf_reader_def rd_left_def read_block_def
          word_less_nat_alt add.commute)
qed

text \<open>
  What a reader routine for values of one kind promises: on any input it returns, keeping
  the cursor inside the data, and on an encoding of \<open>x\<close> it returns \<open>x\<close> and moves behind it.
\<close>

locale wire_reader =
  fixes rd :: "WVMReader \<Rightarrow> ('a \<times> WVMReader) cres"
  assumes rd_total: "wf_reader r \<Longrightarrow> \<exists>x r'. rd r = Inr (x, r') \<and> wf_reader r'"
begin

lemma rd_array_total:
  "wf_reader r \<Longrightarrow>
     \<exists>xs r'. wvm_read_array rd n r = Inr (xs, r') \<and> wf_reader r' \<and> length xs = n"
proof (induction n arbitrary: r)
  case 0
  then show ?case by simp
next
  case (Suc n)
  then obtain x r1 where "rd r = Inr (x, r1)" "wf_reader r1" using rd_total by blast
  then show ?case using Suc.IH [of r1] by auto
qed

end

locale wire_codec = wire_reader rd
  for rd :: "WVMReader \<Rightarrow> ('a \<times> WVMReader) cres" +
  fixes enc :: "'a \<Rightarrow> bytes"
  assumes rd_enc: "wf_reader r \<Longrightarrow> rd_left r = enc x @ rest \<Longrightarrow>
    \<exists>r'. rd r = Inr (x, r') \<and> wf_reader r' \<and> rd_left r' = rest"
begin

lemma rd_array_enc:
  "wf_reader r \<Longrightarrow> rd_left r = concat (map enc xs) @ rest \<Longrightarrow>
     \<exists>r'. wvm_read_array rd (length xs) r = Inr (xs, r') \<and> wf_reader r' \<and> rd_left r' = rest"
proof (induction xs arbitrary: r)
  case Nil
  then show ?case by simp
next
  case (Cons x xs)
  then obtain r1 where "rd r = Inr (x, r1)" "wf_reader r1"
      "rd_left r1 = concat (map enc xs) @ rest"
    using rd_enc [of r x "concat (map enc xs) @ rest"] by auto
  then show ?case using Cons.IH [of r1] by auto
qed

end

lemma wvm_read_scalar_total:
  assumes "wf_reader r" and "unat n < 2 ^ 62"
  shows "\<exists>x r'. (wvm_read_scalar n r :: ('a::len word \<times> WVMReader) cres) = Inr (x, r')
           \<and> wf_reader r'"
  using wvm_reader_pull_ok [OF assms] by (auto simp: wvm_read_scalar_def)

lemma wvm_read_scalar_enc:
  fixes x :: "'a::len word"
  assumes "wf_reader r" and "rd_left r = le_bytes x @ rest"
    and "8 dvd LENGTH('a)" and "unat n = LENGTH('a) div 8" and "unat n < 2 ^ 62"
  shows "\<exists>r'. wvm_read_scalar n r = Inr (x, r') \<and> wf_reader r' \<and> rd_left r' = rest"
  using wvm_reader_pull_ok [OF assms(1,5)] assms(2-4) by (auto simp: wvm_read_scalar_def)

interpretation rd_u8: wire_codec wvmReaderReadU8 le_bytes
  using wvm_read_scalar_total [of _ 1, where 'a = 8] wvm_read_scalar_enc [of _ _ _ 1, where 'a = 8]
  by unfold_locales (simp_all add: wvmReaderReadU8_def)

interpretation rd_u16: wire_codec wvmReaderReadU16 le_bytes
  using wvm_read_scalar_total [of _ 2, where 'a = 16] wvm_read_scalar_enc [of _ _ _ 2, where 'a = 16]
  by unfold_locales (simp_all add: wvmReaderReadU16_def)

interpretation rd_u32: wire_codec wvmReaderReadU32 le_bytes
  using wvm_read_scalar_total [of _ 4, where 'a = 32] wvm_read_scalar_enc [of _ _ _ 4, where 'a = 32]
  by unfold_locales (simp_all add: wvmReaderReadU32_def)

interpretation rd_u64: wire_codec wvmReaderReadU64 le_bytes
  using wvm_read_scalar_total [of _ 8, where 'a = 64] wvm_read_scalar_enc [of _ _ _ 8, where 'a = 64]
  by unfold_locales (simp_all add: wvmReaderReadU64_def)

lemma unat_u32_less: "unat (w :: u32) < 2 ^ 62"
  by (rule order_less_le_trans [OF unsigned_less]) simp

lemma unat_ucast_u32 [simp]: "unat (ucast (w :: u32) :: u64) = unat w"
  using unat_u32_less [of w] by (simp add: unsigned_ucast_eq take_bit_nat_eq_self)

interpretation rd_string: wire_reader "wvmReaderReadString ok"
proof unfold_locales
  fix r assume "wf_reader r"
  then obtain len r1 where 1: "wvmReaderReadU32 r = Inr (len, r1)" "wf_reader r1"
    using rd_u32.rd_total by blast
  from wvm_reader_pull_ok [OF this(2), of "ucast len"] obtain bs r2 where
    "wvm_reader_pull r1 (ucast len) = Inr (bs, r2)" "wf_reader r2"
    using unat_u32_less [of len] by (auto split: if_splits)
  with 1 show "\<exists>x r'. wvmReaderReadString ok r = Inr (x, r') \<and> wf_reader r'"
    by (simp add: wvmReaderReadString_def wvmReaderReadBytes_def)
qed

text \<open>Strings are C strings of fewer than \<open>2 ^ 32\<close> bytes; a null pointer reads back as empty.\<close>

definition wf_cstring :: "bytes option \<Rightarrow> bool" where
  "wf_cstring str \<longleftrightarrow> (\<forall>s. str = Some s \<longrightarrow> 0 \<notin> set s \<and> length s < 2 ^ 32)"

definition string_read_back :: "bytes option \<Rightarrow> bytes option" where
  "string_read_back str = (case str of None \<Rightarrow> Some [] | Some s \<Rightarrow> Some s)"

lemma wvm_string_len_unat:
  "wf_cstring str \<Longrightarrow> unat (wvm_string_len str) = (case str of None \<Rightarrow> 0 | Some s \<Rightarrow> length s)"
  by (auto simp: wf_cstring_def wvm_string_len_def unsigned_of_nat take_bit_nat_eq_self
      split: option.splits)

lemma wvmReaderReadString_enc:
  assumes wf: "wf_reader r" and left: "rd_left r = enc_string str @ rest"
    and str: "wf_cstring str"
  shows "\<exists>r'. wvmReaderReadString any_size r = Inr (string_read_back str, r') \<and> wf_reader r'
           \<and> rd_left r' = rest"
proof -
  let ?len = "wvm_string_len str" and ?s = "case str of None \<Rightarrow> [] | Some s \<Rightarrow> s"
  have len: "unat ?len = length ?s"
    using wvm_string_len_unat [OF str] by (auto split: option.splits)
  then have "rd_left r = le_bytes ?len @ ?s @ rest" using left by (simp add: enc_string_def)
  then obtain r1 where r1: "wvmReaderReadU32 r = Inr (?len, r1)" "wf_reader r1"
      "rd_left r1 = ?s @ rest"
    using rd_u32.rd_enc [OF wf] by blast
  show ?thesis
  proof (cases "?len = 0")
    case True
    with len have "?s = []" by simp
    with True r1 show ?thesis
      by (auto simp: wvmReaderReadString_def string_read_back_def split: option.splits)
  next
    case False
    then obtain s where s: "str = Some s" by (cases str) (simp_all add: wvm_string_len_def)
    with len r1 str False wvm_reader_pull_ok [OF r1(2), of "ucast ?len"] unat_u32_less [of ?len]
    show ?thesis
      by (auto simp: wvmReaderReadString_def wvmReaderReadBytes_def string_read_back_def
            wf_cstring_def)
  qed
qed

end
