(* ===== verification/Wvm_Safety.thy ===== *)
theory Wvm_Safety
  imports Wvm_Interp
begin

text \<open>
  What the bytecode verifier guarantees about the interpreter: verified code whose
  conditional jumps test a register of the frame never leaves the register array, and code
  that only jumps forward always returns. The verifier does not look at the register of a
  conditional jump; the last section shows that this matters.
\<close>

section \<open>Steps keep the register array\<close>

lemma int32_result_not_oob [simp]: "int32_result x \<noteq> Inl OutOfBounds"
  by (simp add: int32_result_def)

lemma wvm_int_op_not_oob: "wvm_int_op op a b \<noteq> Inl OutOfBounds"
  by (cases op) (simp_all add: wvm_int_op_def Let_def cbind_eq_Inl)

lemma wvm_exec_binary_not_oob: "wvm_exec_binary_int op x y \<noteq> Inl OutOfBounds"
  by (simp add: wvm_exec_binary_int_def wvm_int_op_not_oob)

lemma wvm_fail_not_Inl [simp]: "wvm_fail m vm \<noteq> Inl e"
  by (simp add: wvm_fail_def)

lemma stack_wvmSetErrorf [simp]: "stack (wvmSetErrorf vm m) = stack vm"
  by (auto simp: wvmSetErrorf_def Let_def split: option.splits)

lemma stack_wvm_leave [simp]: "stack (wvm_leave vm) = stack vm"
  by (simp add: wvm_leave_def)

lemma wvm_put_Inr:
  "wvm_put a v pc vm = Inr (ctl, vm') \<Longrightarrow>
     length (stack vm') = length (stack vm) \<and> ctl = Continue (pc + 1)"
  by (auto simp: wvm_put_def cbind_eq_Inr arr_set_def split: if_splits)

lemma wvm_put_Inl: "wvm_put a v pc vm = Inl e \<longleftrightarrow> e = OutOfBounds \<and> length (stack vm) \<le> unat a"
  by (auto simp: wvm_put_def cbind_eq_Inl arr_set_Inl)

lemma wvm_fail_Inr: "wvm_fail m vm = Inr (ctl, vm') \<Longrightarrow> stack vm' = stack vm \<and> ctl = Return False"
  by (auto simp: wvm_fail_def)

lemmas exec_op_splits = cbind_eq_Inr cbind_eq_Inl wvm_put_Inl arr_get_Inl arr_set_Inl

lemma wvm_exec_op_length:
  assumes "wvm_exec_op p op i pc vm = Inr (ctl, vm')"
  shows "length (stack vm') = length (stack vm)"
  using assms
  by (cases op)
     (auto simp: wvm_exec_op_def Let_def cbind_eq_Inr arr_set_def
       dest: wvm_put_Inr wvm_fail_Inr split: if_splits option.splits)

lemma wvm_step_length:
  "wvm_step p pc vm = Inr (ctl, vm') \<Longrightarrow> length (stack vm') = length (stack vm)"
  by (auto simp: wvm_step_def Let_def dest: wvm_exec_op_length wvm_fail_Inr split: option.splits)

section \<open>Memory safety of verified code\<close>

text \<open>The one register operand the verifier does not check.\<close>

definition jump_reg_ok :: "WVMPrototype \<Rightarrow> WVMInstr \<Rightarrow> bool" where
  "jump_reg_ok p i \<longleftrightarrow>
     wvm_opcode_of (WVM_DECODE_OP i) \<in> {Some WVM_OP_JUMP_IF_TRUE, Some WVM_OP_JUMP_IF_FALSE}
       \<longrightarrow> WVM_DECODE_R_A i < pr_regCount p"

definition code_safe :: "WVMPrototype \<Rightarrow> bool" where
  "code_safe p \<longleftrightarrow> list_all (\<lambda>i. wvm_verify_instr p i = None \<and> jump_reg_ok p i) (proto_code p)"

lemma wvm_exec_op_not_oob:
  assumes "wvm_opcode_of (WVM_DECODE_OP i) = Some op"
    and "wvm_verify_instr p i = None" and "jump_reg_ok p i"
    and "unat (pr_regCount p) \<le> length (stack vm)"
  shows "wvm_exec_op p op i pc vm \<noteq> Inl OutOfBounds"
proof -
  have enc: "wvmGetEncoding (WVM_DECODE_OP i) = wvmOpcodeEncodings op"
    using assms(1) by (simp add: wvmGetEncoding_def)
  show ?thesis
    using assms(2-4) assms(1) wvm_exec_binary_not_oob
    by (cases op)
       (auto simp: wvm_exec_op_def Let_def exec_op_splits wvm_jump_def enc
         wvm_verify_instr_def jump_reg_ok_def word_le_nat_alt word_less_nat_alt
         split: if_splits option.splits)
qed

lemma wvm_step_not_oob:
  assumes "code_safe p" and "unat pc < length (proto_code p)"
    and "unat (pr_regCount p) \<le> length (stack vm)"
  shows "wvm_step p pc vm \<noteq> Inl OutOfBounds"
proof -
  have "wvm_verify_instr p (proto_code p ! unat pc) = None"
    and "jump_reg_ok p (proto_code p ! unat pc)"
    using assms(1,2) by (auto simp: code_safe_def list_all_length)
  then show ?thesis using assms(3)
    by (auto simp: wvm_step_def Let_def wvm_exec_op_not_oob split: option.split)
qed

text \<open>The configurations a run goes through, and the invariant they share.\<close>

inductive wvm_reach :: "WVMPrototype \<Rightarrow> u32 \<Rightarrow> WVMState \<Rightarrow> u32 \<Rightarrow> WVMState \<Rightarrow> bool"
  for p :: WVMPrototype where
  reach_start: "wvm_reach p pc vm pc vm"
| reach_step: "\<lbrakk>unat pc < length (proto_code p); wvm_step p pc vm = Inr (Continue pc1, vm1);
     wvm_reach p pc1 vm1 pc2 vm2\<rbrakk> \<Longrightarrow> wvm_reach p pc vm pc2 vm2"

lemma wvm_reach_length:
  "wvm_reach p pc0 vm0 pc vm \<Longrightarrow> length (stack vm) = length (stack vm0)"
  by (induction rule: wvm_reach.induct) (auto dest: wvm_step_length)

text \<open>A fault of a run is the fault of a step at a configuration the run reaches.\<close>

lemma wvm_loop_fault:
  assumes "wvm_loop p pc0 vm0 = Some r"
  shows "\<forall>e. r = Inl e \<longrightarrow> (\<exists>pc vm. wvm_reach p pc0 vm0 pc vm \<and> unat pc < length (proto_code p)
           \<and> wvm_step p pc vm = Inl e)"
proof (rule wvm_loop.raw_induct [where P = "\<lambda>p pc0 vm0 r. \<forall>e. r = Inl e \<longrightarrow>
      (\<exists>pc vm. wvm_reach p pc0 vm0 pc vm \<and> unat pc < length (proto_code p)
         \<and> wvm_step p pc vm = Inl e)", OF _ assms])
  fix f p pc0 vm0 r
  assume IH: "\<And>p pc0 vm0 r. f p pc0 vm0 = Some r \<Longrightarrow> \<forall>e. r = Inl e \<longrightarrow>
      (\<exists>pc vm. wvm_reach p pc0 vm0 pc vm \<and> unat pc < length (proto_code p)
         \<and> wvm_step p pc vm = Inl e)"
    and eq: "(if \<not> unat pc0 < length (proto_code p) then Some (Inr (True, wvm_leave vm0))
      else case wvm_step p pc0 vm0 of Inl e \<Rightarrow> Some (Inl e)
           | Inr (ctl, vm') \<Rightarrow> (case ctl of Continue pc' \<Rightarrow> f p pc' vm'
             | Return r \<Rightarrow> Some (Inr (r, vm')))) = Some r"
  show "\<forall>e. r = Inl e \<longrightarrow> (\<exists>pc vm. wvm_reach p pc0 vm0 pc vm \<and> unat pc < length (proto_code p)
         \<and> wvm_step p pc vm = Inl e)"
  proof (intro allI impI)
    fix e assume r: "r = Inl e"
    with eq have lt: "unat pc0 < length (proto_code p)" by (auto split: if_splits)
    with eq r consider "wvm_step p pc0 vm0 = Inl e"
      | pc1 vm1 where "wvm_step p pc0 vm0 = Inr (Continue pc1, vm1)" "f p pc1 vm1 = Some (Inl e)"
      by (auto split: sum.splits wvm_ctl.splits)
    then show "\<exists>pc vm. wvm_reach p pc0 vm0 pc vm \<and> unat pc < length (proto_code p)
         \<and> wvm_step p pc vm = Inl e"
    proof cases
      case 1
      with lt show ?thesis by (blast intro: reach_start)
    next
      case 2
      with IH [OF 2(2)] lt show ?thesis by (blast intro: reach_step)
    qed
  qed
qed

lemma wvm_loop_not_oob:
  assumes "code_safe p" and "unat (pr_regCount p) \<le> length (stack vm)"
  shows "wvm_loop p pc vm \<noteq> Some (Inl OutOfBounds)"
proof
  assume "wvm_loop p pc vm = Some (Inl OutOfBounds)"
  then obtain pc' vm' where "wvm_reach p pc vm pc' vm'" "unat pc' < length (proto_code p)"
      "wvm_step p pc' vm' = Inl OutOfBounds"
    using wvm_loop_fault by blast
  moreover from this(1) have "length (stack vm') = length (stack vm)" by (rule wvm_reach_length)
  ultimately show False using wvm_step_not_oob [of p pc' vm'] assms by simp
qed

text \<open>No step of the interpreter runs forever: only the loop around it can.\<close>

lemma wvm_step_not_diverges: "wvm_step p pc vm \<noteq> Inl Diverges"
proof -
  have i: "int32_result x \<noteq> Inl Diverges" for x by (simp add: int32_result_def)
  then have o: "wvm_int_op op a b \<noteq> Inl Diverges" for op a b
    by (cases op) (simp_all add: wvm_int_op_def Let_def cbind_eq_Inl)
  then have "wvm_exec_binary_int op x y \<noteq> Inl Diverges" for op x y
    by (simp add: wvm_exec_binary_int_def)
  then have "wvm_exec_op p op i pc vm \<noteq> Inl Diverges" for op i vm
    using i by (cases op)
      (auto simp: wvm_exec_op_def Let_def exec_op_splits wvm_jump_def split: if_splits option.splits)
  then show ?thesis by (simp add: wvm_step_def Let_def split: option.split)
qed

section \<open>Code that only jumps forward returns\<close>

definition forward_instr :: "WVMInstr \<Rightarrow> bool" where
  "forward_instr i \<longleftrightarrow>
     (case wvm_opcode_of (WVM_DECODE_OP i) of
        Some op \<Rightarrow> (op = WVM_OP_JUMP \<longrightarrow> 0 < sint (WVM_DECODE_JUMP i))
          \<and> (op \<in> {WVM_OP_JUMP_IF_TRUE, WVM_OP_JUMP_IF_FALSE} \<longrightarrow> 0 < sint (WVM_DECODE_R_JUMP i))
      | None \<Rightarrow> True)"

lemma sint_small_unat:
  fixes w :: u32
  assumes "unat w < 2 ^ 31"
  shows "sint w = int (unat w)"
proof -
  have w: "uint w = int (unat w)" by simp
  have "signed_take_bit 31 (uint w) = uint w"
    unfolding w
  proof (rule signed_take_bit_int_eq_self)
    show "- (2 ^ 31) \<le> int (unat w)" by (rule order_trans [of _ 0]) (simp_all only: of_nat_0_le_iff, simp)
    have "int (unat w) < int (2 ^ 31)" using assms by (simp only: of_nat_less_iff)
    then show "int (unat w) < 2 ^ 31" by (simp only: of_nat_power of_nat_numeral)
  qed
  then show ?thesis by (simp add: sint_uint)
qed

lemma wvm_jump_forward:
  assumes "unat pc < 2 ^ 31" and "0 < sint off" and "wvm_jump pc off = Inr t"
  shows "unat pc < unat t"
proof -
  have pc: "sint pc = int (unat pc)" using assms(1) by (rule sint_small_unat)
  let ?x = "int (unat pc) + sint off"
  have x: "0 \<le> ?x" "?x < 2 ^ 31" and t: "t = word_of_int ?x"
    using assms pc by (auto simp: wvm_jump_def int32_result_def split: if_splits)
  have "unat t = nat ?x" unfolding t using x by (intro unat_word_of_int_small) simp_all
  then show ?thesis using assms(2) by linarith
qed

lemma unat_Suc_u32: "unat (pc :: u32) < 2 ^ 31 \<Longrightarrow> unat (pc + 1) = Suc (unat pc)"
  by (subst unat_add_no_wrap) simp_all

lemma wvm_exec_op_forward:
  assumes op: "wvm_opcode_of (WVM_DECODE_OP i) = Some op" and fw: "forward_instr i"
    and pc: "unat pc < length (proto_code p)" and len: "length (proto_code p) < 2 ^ 31"
    and ex: "wvm_exec_op p op i pc vm = Inr (Continue pc', vm')"
  shows "unat pc < unat pc'"
proof -
  have pc31: "unat pc < 2 ^ 31" using pc len by simp
  have halt: "unat (word_of_nat (length (proto_code p)) :: u32) = length (proto_code p)"
    using len by (simp add: unsigned_of_nat take_bit_nat_eq_self)
  have suc: "unat pc < unat (pc + 1)" using unat_Suc_u32 [OF pc31] by simp
  show ?thesis
    using ex fw op suc halt pc wvm_jump_forward [OF pc31]
    by (cases op)
       (auto simp: wvm_exec_op_def Let_def cbind_eq_Inr forward_instr_def
         dest!: wvm_put_Inr wvm_fail_Inr split: if_splits option.splits)
qed

lemma wvm_step_forward:
  assumes "list_all forward_instr (proto_code p)" and "unat pc < length (proto_code p)"
    and "length (proto_code p) < 2 ^ 31" and "wvm_step p pc vm = Inr (Continue pc', vm')"
  shows "unat pc < unat pc'"
  using assms wvm_exec_op_forward [of "proto_code p ! unat pc"]
  by (auto simp: wvm_step_def Let_def list_all_length dest: wvm_fail_Inr split: option.splits)

lemma wvm_loop_forward_returns:
  assumes "list_all forward_instr (proto_code p)" and "length (proto_code p) < 2 ^ 31"
  shows "\<exists>r. wvm_loop p pc vm = Some r"
proof (induction "length (proto_code p) - unat pc" arbitrary: pc vm rule: less_induct)
  case less
  show ?case
  proof (cases "unat pc < length (proto_code p)")
    case False
    then show ?thesis by (subst wvm_loop.simps) simp
  next
    case True
    have "\<exists>r. wvm_loop p pc' vm' = Some r"
      if "wvm_step p pc vm = Inr (Continue pc', vm')" for pc' vm'
      using less [of pc' vm'] wvm_step_forward [OF assms(1) True assms(2) that] True by simp
    then show ?thesis using True
      by (subst wvm_loop.simps) (auto split: sum.splits wvm_ctl.splits)
  qed
qed

section \<open>Entering a prototype\<close>

lemma wvm_enter_ok:
  assumes "wf_vm vm" and "\<And>n. ok n" and "unat (stackSize vm) < 2 ^ 30"
  shows "\<exists>vm'. wvm_enter ok vm p = Inr vm' \<and> unat (pr_regCount p) \<le> length (stack vm')
    \<and> wf_vm vm' \<and> stackSize vm' = ucast (pr_regCount p)
    \<and> (\<forall>r < unat (pr_regCount p). stack vm' ! r =
         (if r < unat (stackSize vm) then stack vm ! r else 0))
    \<and> lastError vm' = lastError vm \<and> hasError vm' = hasError vm"
proof -
  let ?n = "unat (pr_regCount p)"
  have n: "unat (ucast (pr_regCount p) :: u32) = ?n" by (rule unat_reg)
  have "unat (stackSize vm) + unat (ucast (pr_regCount p) :: u32) \<le> 2 ^ 31"
    using assms(3) n unat_reg_less [of "pr_regCount p"] by simp
  then obtain vm1 ys where e: "wvmEnsureStack ok vm (ucast (pr_regCount p)) = Inr vm1" "wf_vm vm1"
      "unat (stackSize vm) + ?n \<le> unat (stackCap vm1)" "stack vm1 = stack vm @ ys"
      "vm1 = vm\<lparr>stack := stack vm1, stackCap := stackCap vm1\<rparr>"
    using wvmEnsureStack_ok [of vm ok "ucast (pr_regCount p)"] assms n by auto
  have err: "lastError vm1 = lastError vm" "hasError vm1 = hasError vm"
    by (subst e(5), simp)+
  have cap: "?n \<le> length (stack vm1)" using e(2,3) by (simp add: wf_vm_def)
  have pre: "unat (stackSize vm) \<le> length (stack vm)" by (rule wf_vm_size [OF assms(1)])
  show ?thesis
    using e(1-4) err cap pre n
    by (auto simp: wvm_enter_def Let_def wf_vm_def word_le_nat_alt nth_append min_def)
qed

section \<open>The guarantees for \<open>wvmExecute\<close>\<close>

lemma wvmClearError_simps [simp]:
  "wf_vm (wvmClearError vm) = wf_vm vm" "stackSize (wvmClearError vm) = stackSize vm"
  "stack (wvmClearError vm) = stack vm"
  by (simp_all add: wvmClearError_def wf_vm_def)

lemma wvmExecute_verified:
  assumes "wvm_verify_error (Some p) = None"
  shows "wvmExecute ok vm (Some p) =
    (case wvm_enter ok (wvmClearError (wvmClearError vm)) p of
       Inl e \<Rightarrow> Some (Inl e) | Inr vm \<Rightarrow> wvm_loop p 0 vm)"
  using assms by (simp add: wvmExecute_def wvmVerifyPrototype_def)

text \<open>
  The one request of memory on the way to the interpreter loop: room for the registers of the frame.
  It is refused when the frame needs more than the array has and \<^verbatim>\<open>realloc\<close> fails on the size
  that the growth loop of \<^verbatim>\<open>wvmEnsureStack\<close> arrives at.
\<close>

definition frame_refused :: "allocator \<Rightarrow> WVMState \<Rightarrow> WVMPrototype \<Rightarrow> bool" where
  "frame_refused ok vm p \<longleftrightarrow>
     unat (stackCap vm) < unat (pr_regCount p)
     \<and> (case grow_cap (if stackCap vm = 0 then 32 else stackCap vm) (stackSize vm + ucast (pr_regCount p)) of
          None \<Rightarrow> False | Some newCap \<Rightarrow> \<not> ok (ucast newCap * 8))"

lemma enter_any:
  assumes "wf_vm vm" and "unat (stackSize vm) < 2 ^ 30"
  shows "frame_refused ok vm p \<Longrightarrow> wvm_enter ok vm p = Inl OutOfBounds"
    and "\<not> frame_refused ok vm p \<Longrightarrow> \<exists>vm'. wvm_enter ok vm p = Inr vm' \<and> unat (pr_regCount p) \<le> length (stack vm')"
proof -
  let ?n = "unat (pr_regCount p)" and ?needed = "stackSize vm + ucast (pr_regCount p)"
  let ?cap = "if stackCap vm = 0 then 32 else stackCap vm"
  have len: "length (stack vm) = unat (stackCap vm)" and size: "unat (stackSize vm) \<le> unat (stackCap vm)"
    using assms(1) by (simp_all add: wf_vm_def word_le_nat_alt)
  have n: "unat (ucast (pr_regCount p) :: u32) = ?n" by (rule unat_reg)
  have needed: "unat ?needed = unat (stackSize vm) + ?n" "2 * unat ?needed \<le> 2 ^ 32"
    using assms(2) n unat_reg_less [of "pr_regCount p"] by (simp_all add: unat_add_no_wrap)
  have "0 < unat ?cap" by (auto simp: unat_gt_0)
  then obtain c where c: "grow_cap ?cap ?needed = Some c" "unat ?needed \<le> unat c"
    using grow_cap_returns [of ?cap ?needed] needed(2) by auto
  show "wvm_enter ok vm p = Inl OutOfBounds" if r: "frame_refused ok vm p"
  proof -
    have "\<not> ?needed \<le> stackCap vm" "\<not> ok (ucast c * 8)"
      using r c(1) needed(1) by (auto simp: frame_refused_def word_le_nat_alt)
    then show ?thesis
      using r c(1) len size by (auto simp: wvm_enter_def wvmEnsureStack_def Let_def frame_refused_def)
  qed
  show "\<exists>vm'. wvm_enter ok vm p = Inr vm' \<and> ?n \<le> length (stack vm')" if r: "\<not> frame_refused ok vm p"
  proof (cases "?n \<le> unat (stackCap vm)")
    case True
    have "\<exists>vm1. wvmEnsureStack ok vm (ucast (pr_regCount p)) = Inr vm1 \<and> ?n \<le> length (stack vm1)"
      using True c(1) len by (auto simp: wvmEnsureStack_def Let_def)
    then show ?thesis using size True by (auto simp: wvm_enter_def Let_def)
  next
    case False
    then have "ok (ucast c * 8)" "\<not> ?needed \<le> stackCap vm"
      using r c(1) needed(1) by (auto simp: frame_refused_def word_le_nat_alt)
    moreover from this have "unat (c - stackCap vm) = unat c - unat (stackCap vm)"
      using c(2) by (simp add: unat_sub word_le_nat_alt)
    ultimately show ?thesis
      using c len size needed(1) False by (auto simp: wvm_enter_def wvmEnsureStack_def Let_def)
  qed
qed

lemma execute_oob_iff:
  assumes "wf_vm vm" and "unat (stackSize vm) < 2 ^ 30"
    and "list_all (jump_reg_ok p) (proto_code p)"
  shows "wvmExecute ok vm (Some p) = Some (Inl OutOfBounds)
     \<longleftrightarrow> wvm_verify_error (Some p) = None \<and> frame_refused ok vm p"
proof (cases "wvm_verify_error (Some p)")
  case None
  then have safe: "code_safe p"
    using assms(3) by (auto simp: wvm_verify_error_None code_safe_def list_all_iff)
  have same: "frame_refused ok (wvmClearError (wvmClearError vm)) p = frame_refused ok vm p"
    by (simp add: frame_refused_def wvmClearError_def)
  note enter = enter_any [of "wvmClearError (wvmClearError vm)" ok p, simplified same wvmClearError_simps, OF assms(1,2)]
  show ?thesis
  proof (cases "frame_refused ok vm p")
    case True
    then show ?thesis using None enter(1) by (simp add: wvmExecute_verified)
  next
    case False
    then obtain vm' where "wvm_enter ok (wvmClearError (wvmClearError vm)) p = Inr vm'"
        "unat (pr_regCount p) \<le> length (stack vm')" using enter(2) by blast
    with False safe None show ?thesis by (simp add: wvmExecute_verified wvm_loop_not_oob)
  qed
next
  case (Some e)
  then show ?thesis by (simp add: wvmExecute_def wvmVerifyPrototype_def)
qed

lemma frame_not_refused: "\<not> frame_refused (\<lambda>_. True) vm p"
  by (simp add: frame_refused_def split: option.split)

text \<open>
  C7. Memory safety of the interpreter, for every allocator. Take a prototype in which conditional
  jumps test a register of the frame and a well-formed machine with fewer than 2^30 stack slots in
  use. Running the prototype reads or writes outside the register array or the constant array exactly
  when the verifier accepts it, the frame needs more registers than the array has, and \<^verbatim>\<open>realloc\<close>
  refuses to enlarge the array: \<^verbatim>\<open>wvmEnsureStack\<close> then returns silently and the registers are
  cleared past the end of the array. In every other case all accesses are in range.
\<close>

theorem wvmExecute_memory_safe:
  assumes "wf_vm vm" and "unat (stackSize vm) < 2 ^ 30"
    and "list_all (jump_reg_ok p) (proto_code p)"
  shows "wvmExecute ok vm (Some p) = Some (Inl OutOfBounds)
     \<longleftrightarrow> wvm_verify_error (Some p) = None \<and> frame_refused ok vm p"
  using assms by (rule execute_oob_iff)

definition demo_proto :: "WVMInstr list \<Rightarrow> WVMPrototype" where
  "demo_proto code = \<lparr>pr_name = None, pr_source = None, pr_instrs = Some code, pr_consts = [],
     pr_strCount = 0, pr_regCount = 2, pr_paramCount = 0, pr_isVararg = 0, pr_protoCount = 0,
     pr_lineMap = None\<rparr>"

lemma fresh_vm_wf: "wf_vm fresh_vm" "stackSize fresh_vm = 0" "stackCap fresh_vm = 32"
    "length (stack fresh_vm) = 32"
  using fresh_vm_simps by (simp_all add: wf_vm_def)

lemma proto_code_demo [simp]: "proto_code (demo_proto code) = code"
  by (simp add: proto_code_def demo_proto_def)

text \<open>A fresh machine has 32 registers: a frame of 33 is refused by an allocator that serves nothing.\<close>

definition wide_proto :: WVMPrototype where
  "wide_proto = (demo_proto
     [WVM_ENCODE_OP_R_JUMP (wvm_opcode_num WVM_OP_JUMP_IF_TRUE) 1 2,
      WVM_ENCODE_OP_RR (wvm_opcode_num WVM_OP_MOVE) 0 1,
      WVM_ENCODE_OP (wvm_opcode_num WVM_OP_HALT)])\<lparr>pr_regCount := 33\<rparr>"

theorem wvmExecute_memory_safe_witness:
  "wvmExecute (\<lambda>_. True) fresh_vm (Some wide_proto) \<noteq> Some (Inl OutOfBounds)
   \<and> wvmExecute (\<lambda>_. False) fresh_vm (Some wide_proto) = Some (Inl OutOfBounds)"
proof -
  have "list_all (jump_reg_ok wide_proto) (proto_code wide_proto)"
    by (auto simp: jump_reg_ok_def wide_proto_def demo_proto_def proto_code_def)
  note run = wvmExecute_memory_safe [OF fresh_vm_wf(1) _ this]
  have "wvm_verify_error (Some wide_proto) = None"
    by (simp add: wvm_verify_error_def wide_proto_def demo_proto_def wvm_verify_instr_def Let_def not_le)
  moreover have "grow_cap 32 (33 :: u32) = Some 64" by (simp add: grow_cap_step)
  then have "frame_refused (\<lambda>_. False) fresh_vm wide_proto"
    by (simp add: frame_refused_def fresh_vm_wf wide_proto_def demo_proto_def)
  ultimately show ?thesis using run frame_not_refused by (simp add: fresh_vm_wf)
qed

lemma execute_forward_returns:
  assumes "wf_vm vm" and "unat (stackSize vm) < 2 ^ 30"
    and "list_all forward_instr (proto_code p)" and "length (proto_code p) < 2 ^ 31"
  shows "\<exists>r. wvmExecute ok vm (Some p) = Some r \<and> r \<noteq> Inl Diverges"
proof (cases "wvm_verify_error (Some p)")
  case None
  let ?vm = "wvmClearError (wvmClearError vm)"
  show ?thesis
  proof (cases "frame_refused ok ?vm p")
    case True
    then have "wvm_enter ok ?vm p = Inl OutOfBounds" using enter_any(1) [of ?vm ok p] assms(1,2) by simp
    then show ?thesis by (simp add: wvmExecute_verified [OF None])
  next
    case False
    then obtain vm' where e: "wvm_enter ok ?vm p = Inr vm'"
      using enter_any(2) [of ?vm ok p] assms(1,2) by auto
    obtain r where r: "wvm_loop p 0 vm' = Some r"
      using wvm_loop_forward_returns [OF assms(3,4)] by blast
    then have "r \<noteq> Inl Diverges" using wvm_loop_fault [OF r] wvm_step_not_diverges by blast
    then show ?thesis using r e by (simp add: wvmExecute_verified [OF None])
  qed
next
  case (Some e)
  then show ?thesis by (simp add: wvmExecute_def wvmVerifyPrototype_def)
qed

text \<open>
  C27. Termination of forward code. If every jump of a prototype goes forward and the code
  is shorter than 2^31 instructions, running it on a well-formed machine with fewer than 2^30 stack
  slots in use returns, whatever the allocator does: neither the interpreter loop nor the growth of
  the stack runs forever.
\<close>

theorem wvmExecute_forward_returns:
  assumes "wf_vm vm" and "unat (stackSize vm) < 2 ^ 30"
    and "list_all forward_instr (proto_code p)" and "length (proto_code p) < 2 ^ 31"
  shows "\<exists>r. wvmExecute ok vm (Some p) = Some r \<and> r \<noteq> Inl Diverges"
  using assms by (rule execute_forward_returns)

theorem wvmExecute_forward_returns_witness:
  "\<exists>r. wvmExecute (\<lambda>_. True) fresh_vm (Some (demo_proto
     [WVM_ENCODE_OP_JUMP (wvm_opcode_num WVM_OP_JUMP) 1,
      WVM_ENCODE_OP (wvm_opcode_num WVM_OP_HALT)])) = Some r \<and> r \<noteq> Inl Diverges"
proof (rule wvmExecute_forward_returns)
  show "list_all forward_instr (proto_code (demo_proto
     [WVM_ENCODE_OP_JUMP (wvm_opcode_num WVM_OP_JUMP) 1,
      WVM_ENCODE_OP (wvm_opcode_num WVM_OP_HALT)]))"
    unfolding proto_code_demo by (auto simp: forward_instr_def)
qed (simp_all add: fresh_vm_wf)

text \<open>
  Without a bound on jumps the interpreter may run forever: a verified prototype whose
  only instruction jumps to itself never returns, on any well-formed machine.
\<close>

lemma wvmExecute_self_jump_diverges:
  assumes "wf_vm vm" and "unat (stackSize vm) < 2 ^ 30"
  shows "wvmExecute (\<lambda>_. True) vm
    (Some (demo_proto [WVM_ENCODE_OP_JUMP (wvm_opcode_num WVM_OP_JUMP) 0])) = None"
proof -
  let ?p = "demo_proto [WVM_ENCODE_OP_JUMP (wvm_opcode_num WVM_OP_JUMP) 0]"
  have step: "\<exists>vm'. wvm_step ?p 0 vm = Inr (Continue 0, vm')" for vm
    by (simp add: wvm_step_def Let_def wvm_exec_op_def wvm_jump_def int32_result_def)
  have loop: "wvm_loop ?p 0 vm \<noteq> Some r" for vm r
  proof
    assume "wvm_loop ?p 0 vm = Some r"
    then have "\<not> (?p = ?p \<and> (0 :: u32) = 0)"
    proof (rule wvm_loop.raw_induct [where P = "\<lambda>p pc vm r. \<not> (p = ?p \<and> pc = 0)", rotated])
      fix f p pc vm r
      assume IH: "\<And>p pc vm r. f p pc vm = Some r \<Longrightarrow> \<not> (p = ?p \<and> pc = 0)"
        and eq: "(if \<not> unat pc < length (proto_code p) then Some (Inr (True, wvm_leave vm))
          else case wvm_step p pc vm of Inl e \<Rightarrow> Some (Inl e)
               | Inr (ctl, vm') \<Rightarrow> (case ctl of Continue pc' \<Rightarrow> f p pc' vm'
                 | Return r \<Rightarrow> Some (Inr (r, vm')))) = Some r"
      show "\<not> (p = ?p \<and> pc = 0)"
      proof
        assume "p = ?p \<and> pc = 0"
        with eq step [of vm] obtain vm' where "f ?p 0 vm' = Some r" by auto
        with IH show False by blast
      qed
    qed
    then show False by simp
  qed
  then have none: "wvm_loop ?p 0 vm = None" for vm by (cases "wvm_loop ?p 0 vm") simp_all
  have "wvm_verify_error (Some ?p) = None"
    by (simp add: wvm_verify_error_def demo_proto_def wvm_verify_instr_def Let_def not_le)
  moreover obtain vm' where "wvm_enter (\<lambda>_. True) (wvmClearError (wvmClearError vm)) ?p = Inr vm'"
    using wvm_enter_ok [of "wvmClearError (wvmClearError vm)" "\<lambda>_. True" ?p] assms by auto
  ultimately show ?thesis by (simp add: wvmExecute_verified none)
qed

text \<open>
  C28. The verifier does not check the register of a conditional jump: on a fresh machine
  there is a prototype that \<open>wvmVerifyPrototype\<close> accepts and whose execution reads outside
  the register array.
\<close>

theorem wvm_verifier_misses_jump_register:
  "\<exists>p. fst (wvmVerifyPrototype fresh_vm (Some p))
     \<and> wvmExecute (\<lambda>_. True) fresh_vm (Some p) = Some (Inl OutOfBounds)"
proof -
  let ?p = "demo_proto [WVM_ENCODE_OP_R_JUMP (wvm_opcode_num WVM_OP_JUMP_IF_TRUE) 40 1]"
  have v: "wvm_verify_error (Some ?p) = None"
    by (simp add: wvm_verify_error_def demo_proto_def wvm_verify_instr_def Let_def not_le)
  have "\<exists>vm'. wvm_enter (\<lambda>_. True) (wvmClearError (wvmClearError fresh_vm)) ?p = Inr vm'
      \<and> length (stack vm') = 32"
    by (simp add: wvm_enter_def Let_def wvmEnsureStack_def demo_proto_def fresh_vm_wf
        wvmClearError_def)
  then obtain vm' where "wvm_enter (\<lambda>_. True) (wvmClearError (wvmClearError fresh_vm)) ?p = Inr vm'"
      "length (stack vm') = 32" by blast
  moreover have "wvm_step ?p 0 vm = Inl OutOfBounds" if "length (stack vm) = 32" for vm
    using that by (simp add: wvm_step_def Let_def wvm_exec_op_def arr_get_def)
  then have "wvm_loop ?p 0 vm = Some (Inl OutOfBounds)" if "length (stack vm) = 32" for vm
    using that by (subst wvm_loop.simps) simp
  ultimately have "wvmExecute (\<lambda>_. True) fresh_vm (Some ?p) = Some (Inl OutOfBounds)"
    by (simp add: wvmExecute_verified [OF v] fresh_vm_wf)
  moreover have "fst (wvmVerifyPrototype fresh_vm (Some ?p))"
    by (simp add: wvmVerifyPrototype_def v)
  ultimately show ?thesis by blast
qed

end
