(* ===== verification/Wvm_Object.thy ===== *)
theory Wvm_Object
  imports Wvm_Serialize Wvm_Safety
begin

text \<open>
  Object files in memory: reading never leaves the given bytes, whatever they are, and
  returns verified prototypes only; what is written reads back; and two places where the
  writer trusts what it should check.
\<close>

section \<open>Arbitrary input\<close>

text \<open>Chaining a reader routine that always returns with one that does so afterwards.\<close>

definition rd_safe :: "('a \<times> WVMReader) cres \<Rightarrow> bool" where
  "rd_safe m \<longleftrightarrow> (\<exists>x r. m = Inr (x, r) \<and> wf_reader r)"

lemma rd_safe_return: "wf_reader r \<Longrightarrow> rd_safe (Inr (x, r))"
  by (simp add: rd_safe_def)

lemma rd_safe_bind:
  "rd_safe m \<Longrightarrow> (\<And>x r. wf_reader r \<Longrightarrow> rd_safe (f x r)) \<Longrightarrow> rd_safe (cbind m (\<lambda>(x, r). f x r))"
  by (auto simp: rd_safe_def)

lemma rd_safe_if: "rd_safe a \<Longrightarrow> rd_safe b \<Longrightarrow> rd_safe (if c then a else b)"
  by simp

lemma rd_safe_arrays:
  "wf_reader r \<Longrightarrow> rd_safe (wvm_read_array wvmReaderReadU64 n r)"
  "wf_reader r \<Longrightarrow> rd_safe (wvm_read_array wvmReaderReadU32 n r)"
  unfolding rd_safe_def using rd_u64.rd_array_total rd_u32.rd_array_total by blast+

lemmas rd_safe_intros = rd_safe_return rd_safe_bind rd_safe_if rd_safe_arrays
  rd_string.rd_total [folded rd_safe_def] rd_u8.rd_total [folded rd_safe_def]
  rd_u16.rd_total [folded rd_safe_def] rd_u32.rd_total [folded rd_safe_def]

lemma wvmDeserializePrototype_total:
  assumes "wf_reader r"
  shows "rd_safe (wvmDeserializePrototype ok r)"
  unfolding wvmDeserializePrototype_def using assms by (intro rd_safe_intros)

lemma wf_reader_create:
  "length d < 2 ^ 62 \<Longrightarrow> wf_reader (wvmReaderCreate d (of_nat (length d)))"
  "rd_left (wvmReaderCreate d len) = d"
  by (simp_all add: wf_reader_def rd_left_def wvmReaderCreate_def unsigned_of_nat
        take_bit_nat_eq_self)

text \<open>
  C26. Reading an object from arbitrary bytes is safe: whatever the input, with whatever
  allocations failing, \<open>wvmReadObjectMemory\<close> returns without reading outside the buffer,
  and a prototype it returns has passed the bytecode verifier.
\<close>

theorem wvmReadObjectMemory_robust:
  assumes "length d < 2 ^ 62"
  shows "\<exists>p vm'. wvmReadObjectMemory ok vm (Some d) (of_nat (length d)) = Inr (p, vm')
           \<and> (\<forall>q. p = Some q \<longrightarrow> wvm_verify_error (Some q) = None)"
proof -
  let ?r = "wvmReaderCreate d (of_nat (length d))"
  from wvm_reader_pull_ok [OF wf_reader_create(1) [OF assms], of 56] obtain h r where
    pull: "wvm_reader_pull ?r 56 = Inr (h, r)" "wf_reader r" by auto
  from wvmDeserializePrototype_total [OF this(2), of ok] obtain p r' where
    "wvmDeserializePrototype ok r = Inr (p, r')" by (auto simp: rd_safe_def)
  with pull(1) show ?thesis
    by (cases p)
       (auto simp: wvmReadObjectMemory_def wvmReaderReadBytes_def wvmVerifyPrototype_def
          split: option.splits)
qed

theorem wvmReadObjectMemory_robust_witness:
  "\<exists>p vm'. wvmReadObjectMemory (\<lambda>_. False) fresh_vm (Some (replicate 80 255)) 80 = Inr (p, vm')
     \<and> (case p of None \<Rightarrow> True | Some q \<Rightarrow> wvm_verify_error (Some q) = None)"
  using wvmReadObjectMemory_robust [of "replicate 80 255" "\<lambda>_. False" fresh_vm]
  by (auto split: option.splits)

section \<open>Round trip\<close>

text \<open>What a prototype looks like after a round trip: null names become empty strings.\<close>

definition read_back :: "WVMPrototype \<Rightarrow> WVMPrototype" where
  "read_back p = p\<lparr>pr_name := string_read_back (pr_name p),
                   pr_source := string_read_back (pr_source p)\<rparr>"

text \<open>Prototypes that fit the counters of the format.\<close>

definition storable :: "WVMPrototype \<Rightarrow> bool" where
  "storable p \<longleftrightarrow> wf_cstring (pr_name p) \<and> wf_cstring (pr_source p)
     \<and> proto_code p \<noteq> [] \<and> length (proto_code p) < 2 ^ 32 \<and> length (pr_consts p) < 2 ^ 32"

definition lines_match :: "WVMPrototype \<Rightarrow> bool" where
  "lines_match p \<longleftrightarrow> (\<forall>ls. pr_lineMap p = Some ls \<longrightarrow> length ls = length (proto_code p))"

lemma unat_of_nat_u32: "n < 2 ^ 32 \<Longrightarrow> unat (of_nat n :: u32) = n"
  by (simp add: unsigned_of_nat take_bit_nat_eq_self)

lemma of_nat_u32_zero_iff: "n < 2 ^ 32 \<Longrightarrow> (of_nat n :: u32) = 0 \<longleftrightarrow> n = 0"
  using unat_of_nat_u32 [of n] by (auto simp: unat_eq_0 [symmetric])

text \<open>One field read off the front of the input.\<close>

definition reads :: "('a \<times> WVMReader) cres \<Rightarrow> 'a \<Rightarrow> bytes \<Rightarrow> bool" where
  "reads m x rest \<longleftrightarrow> (\<exists>r'. m = Inr (x, r') \<and> wf_reader r' \<and> rd_left r' = rest)"

lemma reads_bind:
  "reads m x rest \<Longrightarrow> (\<And>r. wf_reader r \<Longrightarrow> rd_left r = rest \<Longrightarrow> reads (f x r) y rest') \<Longrightarrow>
     reads (cbind m (\<lambda>(x, r). f x r)) y rest'"
  by (auto simp: reads_def)

lemma reads_fields:
  "wf_reader r \<Longrightarrow> rd_left r = le_bytes x8 @ rest \<Longrightarrow> reads (wvmReaderReadU8 r) x8 rest"
  "wf_reader r \<Longrightarrow> rd_left r = le_bytes x16 @ rest \<Longrightarrow> reads (wvmReaderReadU16 r) x16 rest"
  "wf_reader r \<Longrightarrow> rd_left r = le_bytes x32 @ rest \<Longrightarrow> reads (wvmReaderReadU32 r) x32 rest"
  "wf_reader r \<Longrightarrow> rd_left r = enc_string str @ rest \<Longrightarrow> wf_cstring str \<Longrightarrow>
     reads (wvmReaderReadString any_size r) (string_read_back str) rest"
  "wf_reader r \<Longrightarrow> rd_left r = enc_words ws @ rest \<Longrightarrow> length ws = n \<Longrightarrow>
     reads (wvm_read_array wvmReaderReadU64 n r) ws rest"
  "wf_reader r \<Longrightarrow> rd_left r = enc_words ls @ rest \<Longrightarrow> length ls = n \<Longrightarrow>
     reads (wvm_read_array wvmReaderReadU32 n r) ls rest"
  using rd_u8.rd_enc rd_u16.rd_enc rd_u32.rd_enc wvmReaderReadString_enc
    rd_u64.rd_array_enc rd_u32.rd_array_enc
  unfolding reads_def enc_words_def by blast+

text \<open>The lines of a prototype, \<open>lc\<close> of them, none when there is no line map.\<close>

definition line_count :: "WVMPrototype \<Rightarrow> u32 \<Rightarrow> bool" where
  "line_count p lc \<longleftrightarrow> (case pr_lineMap p of None \<Rightarrow> lc = 0 | Some ls \<Rightarrow> lc \<noteq> 0 \<and> unat lc = length ls)"

lemma line_count_match:
  "storable p \<Longrightarrow> lines_match p \<Longrightarrow>
     line_count p (if pr_lineMap p = None then 0 else of_nat (length (proto_code p)))"
  by (auto simp: line_count_def storable_def lines_match_def unat_of_nat_u32 of_nat_u32_zero_iff
      split: option.splits)

lemma deserialize_enc:
  assumes wf: "wf_reader r" and left: "rd_left r = enc_proto lc p @ rest" and st: "storable p"
    and lc: "line_count p lc"
  shows "reads (wvmDeserializePrototype any_size r) (Some (read_back p)) rest"
proof -
  let ?ls = "case pr_lineMap p of None \<Rightarrow> [] | Some ls \<Rightarrow> ls"
  note cnt = unat_of_nat_u32 of_nat_u32_zero_iff
  have lines: "unat lc = length ?ls" "(if lc = 0 then None else Some ?ls) = pr_lineMap p"
    "(case pr_lineMap p of None \<Rightarrow> [] | Some ls \<Rightarrow> enc_words ls) = enc_words ?ls"
    using lc by (auto simp: line_count_def enc_words_def split: option.splits)
  have code: "Some (proto_code p) = pr_instrs p"
    using st by (auto simp: storable_def proto_code_def split: option.splits)
  show ?thesis
    unfolding wvmDeserializePrototype_def
    apply (rule reads_bind, rule reads_fields(4) [OF wf])
      apply (simp only: left enc_proto_def append_assoc)
     apply (simp only: st [unfolded storable_def])
    apply (rule reads_bind, erule reads_fields(4))
      apply (simp only: left enc_proto_def append_assoc)
     apply (simp only: st [unfolded storable_def])
    apply (rule reads_bind, erule reads_fields, assumption)+
    apply (simp only: if_False simp_thms)
    apply (rule reads_bind, erule reads_fields(5), assumption)
     apply (use st in \<open>simp add: storable_def cnt\<close>)
    apply (rule reads_bind, erule reads_fields(5), assumption)
     apply (use st in \<open>simp add: storable_def cnt\<close>)
    apply (rule reads_bind, erule reads_fields(3), assumption)
    apply (rule reads_bind, erule reads_fields(6))
      apply (simp only: lines(3))
     apply (simp only: lines(1))
    apply (use st in \<open>simp add: reads_def read_back_def storable_def cnt code lines(2)\<close>)
    done
qed

lemma length_header_bytes: "length (header_bytes (wvm_object_header now)) = 56"
  by (simp add: header_bytes_def wvm_object_header_def)

lemma header_magic:
  "of_le_bytes (take 4 (header_bytes (wvm_object_header now))) = WVM_MAGIC_WVMO"
  by (simp add: header_bytes_def wvm_object_header_def)

lemma verify_read_back: "wvm_verify_error (Some (read_back p)) = wvm_verify_error (Some p)"
proof -
  have sel: "pr_regCount (read_back p) = pr_regCount p" "pr_consts (read_back p) = pr_consts p"
    "pr_instrs (read_back p) = pr_instrs p" by (simp_all add: read_back_def)
  have "wvm_verify_instr (read_back p) i = wvm_verify_instr p i" for i
    unfolding wvm_verify_instr_def sel by (rule refl)
  then have "wvm_verify_loop (read_back p) is = wvm_verify_loop p is" for "is"
    by (induction "is") (simp_all split: option.splits)
  then show ?thesis by (simp add: wvm_verify_error_def sel split: option.splits)
qed

text \<open>The writer produces the header followed by the encoded prototype.\<close>

lemma wvmWriteObjectMemory_contents:
  assumes "wvm_verify_error (Some p) = None" and "lines_match p"
    and "56 + length (enc_prototype p) \<le> sink_limit"
  shows "\<exists>buf. wvmWriteObjectMemory any_size now vm (Some p) = Inr (Some buf, wvmClearError vm)
           \<and> wf_buffer buf
           \<and> buffer_contents buf = header_bytes (wvm_object_header now) @ enc_prototype p"
proof -
  let ?h = "header_bytes (wvm_object_header now)"
  have "buffer_sink.appends
          (\<lambda>b. cbind (wvmBufferWriteBytes any_size b ?h) (wvmSerializePrototype any_size p))
          (?h @ enc_prototype p)"
    using assms(2) by (intro buffer_sink.appends_seq buffer_sink.appends_write appends_prototype)
      (simp add: lines_match_def)
  from buffer_sink.appendsD [OF this, of "wvmBufferCreate any_size 256"] assms
  show ?thesis
    by (auto simp: wvmWriteObjectMemory_def wvmVerifyPrototype_def length_header_bytes
          cbind_eq_Inr)
qed

text \<open>The reader accepts the header followed by an encoded prototype that verifies.\<close>

lemma wvmReadObjectMemory_enc:
  assumes "wvm_verify_error (Some p) = None" and "storable p" and "line_count p lc"
    and d: "d = header_bytes (wvm_object_header now) @ enc_proto lc p" and "length d < 2 ^ 62"
  shows "wvmReadObjectMemory any_size vm (Some d) (of_nat (length d))
           = Inr (Some (read_back p), wvmClearError vm)"
proof -
  let ?h = "header_bytes (wvm_object_header now)" and ?r = "wvmReaderCreate d (of_nat (length d))"
  have rd: "wf_reader ?r" "rd_left ?r = ?h @ enc_proto lc p"
    using wf_reader_create [of d] assms(5) d by simp_all
  obtain r where r: "wvm_reader_pull ?r 56 = Inr (Some ?h, r)" "wf_reader r"
      "rd_left r = enc_proto lc p @ []"
    using wvm_reader_pull_ok [OF rd(1), of 56] rd(2) length_header_bytes by auto
  from deserialize_enc [OF r(2,3) assms(2,3)] obtain r' where
    "wvmDeserializePrototype any_size r = Inr (Some (read_back p), r')" by (auto simp: reads_def)
  moreover have "\<not> (of_nat (length d) :: u64) < 56"
  proof -
    have "unat (of_nat (length d) :: u64) = length d"
      using assms(5) by (simp add: unsigned_of_nat take_bit_nat_eq_self)
    then show ?thesis using d length_header_bytes [of now] by (simp add: word_less_nat_alt)
  qed
  ultimately show ?thesis
    using r(1) assms(1)
    by (simp add: wvmReadObjectMemory_def wvmReaderReadBytes_def header_magic
        wvmVerifyPrototype_def verify_read_back)
qed

text \<open>
  C14. Objects round trip: a verified prototype that fits the counters of the format is
  written to memory, and reading those bytes back gives the same prototype (with a null
  name or source read back as an empty string) and no error, whatever the time stamp.
\<close>

theorem wvm_object_roundtrip:
  assumes "wvm_verify_error (Some p) = None" and "storable p" and "lines_match p"
    and "56 + length (enc_prototype p) < 2 ^ 62"
  shows "\<exists>buf. wvmWriteObjectMemory any_size now vm (Some p) = Inr (Some buf, wvmClearError vm)
           \<and> wvmReadObjectMemory any_size vm2 (Some (buffer_contents buf)) (bf_len buf)
               = Inr (Some (read_back p), wvmClearError vm2)"
proof -
  obtain buf where w: "wvmWriteObjectMemory any_size now vm (Some p) = Inr (Some buf, wvmClearError vm)"
    and wf: "wf_buffer buf"
    and c: "buffer_contents buf = header_bytes (wvm_object_header now) @ enc_prototype p"
    using wvmWriteObjectMemory_contents [OF assms(1,3)] assms(4) by fastforce
  have "of_nat (length (buffer_contents buf)) = bf_len buf"
    by (simp only: length_buffer_contents [OF wf] of_nat_unat ucast_id)
  moreover have "length (buffer_contents buf) < 2 ^ 62"
    using assms(4) c length_header_bytes by simp
  ultimately have "wvmReadObjectMemory any_size vm2 (Some (buffer_contents buf)) (bf_len buf)
      = Inr (Some (read_back p), wvmClearError vm2)"
    using wvmReadObjectMemory_enc [OF assms(1,2) line_count_match [OF assms(2,3)]
        c [unfolded enc_prototype_def], of vm2] by simp
  with w show ?thesis by blast
qed

definition halt_proto :: WVMPrototype where
  "halt_proto = demo_proto [WVM_ENCODE_OP (wvm_opcode_num WVM_OP_HALT)]"

lemma halt_proto_ok:
  "wvm_verify_error (Some halt_proto) = None" "storable halt_proto" "lines_match halt_proto"
  "length (enc_prototype halt_proto) = 42"
proof -
  show "wvm_verify_error (Some halt_proto) = None"
    by (simp add: wvm_verify_error_None halt_proto_def wvm_verify_instr_def Let_def not_le)
       (simp add: demo_proto_def)
  show "storable halt_proto" "lines_match halt_proto" "length (enc_prototype halt_proto) = 42"
    unfolding storable_def lines_match_def halt_proto_def enc_prototype_def enc_proto_def proto_code_demo
    by (simp_all add: demo_proto_def wf_cstring_def enc_string_def enc_words_def
          wvm_string_len_def)
qed

theorem wvm_object_roundtrip_witness:
  "\<exists>buf. wvmWriteObjectMemory any_size 0 fresh_vm (Some halt_proto)
            = Inr (Some buf, wvmClearError fresh_vm)
       \<and> wvmReadObjectMemory any_size fresh_vm (Some (buffer_contents buf)) (bf_len buf)
            = Inr (Some (read_back halt_proto), wvmClearError fresh_vm)"
  by (rule wvm_object_roundtrip) (simp_all add: halt_proto_ok)

section \<open>Where the writer trusts what it should check\<close>

lemma write_without_memory:
  assumes "bf_cap b = 0" "bf_len b = 0" "0 < length bs" "length bs < 2 ^ 62"
  shows "wvmBufferWriteBytes (\<lambda>_. False) b bs = Inr b"
proof -
  have n: "unat (of_nat (length bs) :: u64) = length bs"
    using assms(4) by (simp add: unsigned_of_nat take_bit_nat_eq_self)
  obtain c where "grow_cap 64 (of_nat (length bs) :: u64) = Some c"
    using grow_cap_returns [of 64 "of_nat (length bs) :: u64"] n assms(4) by auto
  moreover have "(of_nat (length bs) :: u64) \<noteq> 0" using n assms(3) by (metis less_irrefl unat_0)
  ultimately show ?thesis using assms(1,2)
    by (simp add: wvmBufferWriteBytes_def wvm_buffer_grow_def)
qed

lemma serialize_without_memory:
  assumes "bf_cap b = 0" "bf_len b = 0"
    and "pr_name p = None" "pr_source p = None" "pr_lineMap p = None"
  shows "wvmSerializePrototype (\<lambda>_. False) p b = Inr b"
proof -
  have w: "wvmBufferWriteU8 (\<lambda>_. False) b x8 = Inr b" "wvmBufferWriteU16 (\<lambda>_. False) b x16 = Inr b"
    "wvmBufferWriteU32 (\<lambda>_. False) b x32 = Inr b" "wvmBufferWriteU64 (\<lambda>_. False) b x64 = Inr b"
    for x8 x16 x32 x64
    unfolding buffer_scalar_defs using assms(1,2) by (simp_all add: write_without_memory)
  then have "wvm_write_u64s (\<lambda>_. False) b xs = Inr b" for xs by (induction xs) simp_all
  with w show ?thesis using assms(3-5)
    by (simp add: wvmSerializePrototype_def wvmBufferWriteString_def wvm_string_len_def)
qed

text \<open>
  Writing without memory reports success. When no allocation succeeds, the buffer
  routines drop every byte, yet \<open>wvmWriteObjectMemory\<close> returns success on every verified
  prototype without strings and line map; the object it hands out is empty, and reading
  that object fails.
\<close>

theorem wvmWriteObjectMemory_drops_bytes:
  assumes "wvm_verify_error (Some p) = None"
    and "pr_name p = None" "pr_source p = None" "pr_lineMap p = None"
  shows "\<exists>buf. wvmWriteObjectMemory (\<lambda>_. False) now vm (Some p) = Inr (Some buf, wvmClearError vm)
           \<and> bf_len buf = 0
           \<and> (\<forall>ok vm2. wvmReadObjectMemory ok vm2 (Some (buffer_contents buf)) (bf_len buf) =
                Inr (None, wvmSetErrorf vm2 (Some ''bytecode buffer is too small'')))"
proof -
  let ?b = "\<lparr>bf_data = [], bf_len = 0, bf_cap = 0\<rparr> :: WVMBuffer"
  have "wvmBufferCreate (\<lambda>_. False) 256 = ?b" by (simp add: wvmBufferCreate_def)
  moreover have "wvmBufferWriteBytes (\<lambda>_. False) ?b (header_bytes (wvm_object_header now)) = Inr ?b"
    by (simp add: write_without_memory length_header_bytes)
  ultimately have "wvmWriteObjectMemory (\<lambda>_. False) now vm (Some p) = Inr (Some ?b, wvmClearError vm)"
    using assms serialize_without_memory [of ?b p]
    by (simp add: wvmWriteObjectMemory_def wvmVerifyPrototype_def)
  then show ?thesis by (auto simp: wvmReadObjectMemory_def)
qed

theorem wvmWriteObjectMemory_drops_bytes_witness:
  "\<exists>buf. wvmWriteObjectMemory (\<lambda>_. False) 0 fresh_vm (Some halt_proto)
            = Inr (Some buf, wvmClearError fresh_vm)
       \<and> bf_len buf = 0
       \<and> (\<forall>ok vm2. wvmReadObjectMemory ok vm2 (Some (buffer_contents buf)) (bf_len buf) =
            Inr (None, wvmSetErrorf vm2 (Some ''bytecode buffer is too small'')))"
  by (rule wvmWriteObjectMemory_drops_bytes) (simp_all add: halt_proto_ok, simp_all add: halt_proto_def demo_proto_def)

lemma fails_lines:
  assumes "\<exists>i\<in>set is. length ls \<le> i"
  shows "buffer_sink.fails (\<lambda>b. wvm_write_lines any_size ls b is)
           (enc_words (map ((!) ls) (filter (\<lambda>i. i < length ls) is))) OutOfBounds"
  using assms(1)
proof (induction "is")
  case Nil
  then show ?case by simp
next
  case (Cons i "is")
  show ?case
  proof (cases "i < length ls")
    case True
    with Cons show ?thesis
      using buffer_sink.fails_seq [OF appends_scalars(3) Cons.IH] by (simp add: enc_words_def)
  next
    case False
    then show ?thesis by (simp add: buffer_sink.fails_def arr_get_def)
  qed
qed

lemma fails_prototype:
  assumes "pr_lineMap p = Some ls" and "length ls < length (proto_code p)"
  shows "buffer_sink.fails (wvmSerializePrototype any_size p) (enc_prototype p) OutOfBounds"
proof -
  have "filter (\<lambda>i. i < length ls) [0..<length (proto_code p)] = [0..<length ls]"
    using upt_add_eq_append [of 0 "length ls" "length (proto_code p) - length ls"] assms(2)
    by (simp add: filter_empty_conv)
  moreover have "map ((!) ls) [0..<length ls] = ls" by (rule map_nth)
  ultimately have "buffer_sink.fails
     (\<lambda>b. wvm_write_lines any_size ls b [0..<length (proto_code p)]) (enc_words ls) OutOfBounds"
    using fails_lines [of "[0..<length (proto_code p)]" ls] assms(2) by fastforce
  then show ?thesis
    unfolding wvmSerializePrototype_def enc_prototype_def enc_proto_def Let_def assms(1) option.case
    by (intro buffer_sink.fails_seq appends_string appends_scalars appends_u64s)
qed

text \<open>
  C32. A loaded line map is trusted. An object may record fewer line entries than it has
  instructions: the reader and the verifier accept it, but writing the loaded prototype
  again reads past the end of its line map.
\<close>

theorem wvm_short_line_map_overread:
  assumes "wvm_verify_error (Some p) = None" and "storable p"
    and "pr_lineMap p = Some ls" and "ls \<noteq> []" and "length ls < length (proto_code p)"
    and "length (enc_prototype (read_back p)) + length (enc_prototype p) < 2 ^ 61"
  shows "\<exists>d q. wvmReadObjectMemory any_size vm (Some d) (of_nat (length d))
             = Inr (Some q, wvmClearError vm)
           \<and> wvmWriteObjectMemory any_size now (wvmClearError vm) (Some q) = Inl OutOfBounds"
proof -
  let ?h = "header_bytes (wvm_object_header now)" and ?q = "read_back p"
  let ?d = "?h @ enc_proto (of_nat (length ls)) p"
  have "length ls < 2 ^ 32" using assms(2,5) by (simp add: storable_def)
  then have "line_count p (of_nat (length ls))"
    using assms(3,4) by (simp add: line_count_def unat_of_nat_u32 of_nat_u32_zero_iff)
  moreover have "length ?d < 2 ^ 62"
    using assms(6) length_header_bytes [of now] by (simp add: enc_prototype_def enc_proto_def)
  ultimately have rd: "wvmReadObjectMemory any_size vm (Some ?d) (of_nat (length ?d))
      = Inr (Some ?q, wvmClearError vm)"
    using assms(1,2) by (intro wvmReadObjectMemory_enc) (assumption | rule refl)+
  have q: "pr_lineMap ?q = Some ls" "length ls < length (proto_code ?q)"
    using assms(3,5) by (simp_all add: read_back_def proto_code_def)
  have "buffer_sink.fails
          (\<lambda>b. cbind (wvmBufferWriteBytes any_size b ?h) (wvmSerializePrototype any_size ?q))
          (?h @ enc_prototype ?q) OutOfBounds"
    using q by (intro buffer_sink.fails_seq buffer_sink.appends_write fails_prototype)
  then have "cbind (wvmBufferWriteBytes any_size (wvmBufferCreate any_size 256) ?h)
      (wvmSerializePrototype any_size ?q) = Inl OutOfBounds"
    using assms(6) by (simp add: buffer_sink.fails_def length_header_bytes)
  then have "wvmWriteObjectMemory any_size now (wvmClearError vm) (Some ?q) = Inl OutOfBounds"
    using assms(1) verify_read_back [of p]
    by (auto simp: wvmWriteObjectMemory_def wvmVerifyPrototype_def cbind_eq_Inl)
  with rd show ?thesis by blast
qed

definition two_halts :: WVMPrototype where
  "two_halts = (demo_proto
     ([WVM_ENCODE_OP (wvm_opcode_num WVM_OP_HALT), WVM_ENCODE_OP (wvm_opcode_num WVM_OP_HALT)]))
     \<lparr>pr_lineMap := Some [7]\<rparr>"

theorem wvm_short_line_map_overread_witness:
  "\<exists>d q. wvmReadObjectMemory any_size fresh_vm (Some d) (of_nat (length d))
             = Inr (Some q, wvmClearError fresh_vm)
       \<and> wvmWriteObjectMemory any_size 0 (wvmClearError fresh_vm) (Some q) = Inl OutOfBounds"
proof (rule wvm_short_line_map_overread [of two_halts "[7]"])
  have code: "proto_code two_halts =
      [WVM_ENCODE_OP (wvm_opcode_num WVM_OP_HALT), WVM_ENCODE_OP (wvm_opcode_num WVM_OP_HALT)]"
    by (simp add: two_halts_def demo_proto_def proto_code_def)
  then show "wvm_verify_error (Some two_halts) = None"
    by (simp add: wvm_verify_error_None wvm_verify_instr_def Let_def not_le)
       (simp add: two_halts_def demo_proto_def)
  show "storable two_halts" "length [7] < length (proto_code two_halts)"
    using code by (simp_all add: storable_def wf_cstring_def)
       (simp_all add: two_halts_def demo_proto_def)
  show "pr_lineMap two_halts = Some [7]" by (simp add: two_halts_def)
  show "length (enc_prototype (read_back two_halts)) + length (enc_prototype two_halts) < 2 ^ 61"
    by (simp add: enc_prototype_def enc_proto_def read_back_def two_halts_def demo_proto_def
          enc_string_def enc_words_def wvm_string_len_def string_read_back_def proto_code_def)
qed simp

end
