(* ===== verification/Graph_Search.thy ===== *)
theory Graph_Search
  imports Wirble_Prelude
begin

text \<open>
  Depth-first and breadth-first search over a graph of numbered nodes with a visited array,
  as the WIL traversals and the block layout run them. A search is given by the successor
  list of each node; its results are the calls of the visitor, in preorder and postorder.
  The interface \<open>graph_traversal\<close> states what every traversal promises.
\<close>

section \<open>Depth-first search\<close>

text \<open>
  \<open>dfs succ ns vis\<close> visits the nodes of \<open>ns\<close> from left to right. A node whose mark is set is
  skipped; otherwise it is marked, its successors are visited, and it is emitted before
  (first trace) and after (second trace) them.
\<close>

function (sequential) dfs ::
  "(nat \<Rightarrow> nat list) \<Rightarrow> nat list \<Rightarrow> bool list \<Rightarrow> bool list \<times> nat list \<times> nat list" where
  "dfs succ [] vis = (vis, [], [])"
| "dfs succ (n # ns) vis =
     (if n < length vis \<and> \<not> vis ! n
      then let (v1, pre1, post1) = dfs succ (succ n) (vis[n := True]);
               (v2, pre2, post2) = dfs succ ns v1
           in (v2, n # pre1 @ pre2, post1 @ n # post2)
      else dfs succ ns vis)"
  by pat_completeness auto

text \<open>Unmarked nodes; marking one of them leaves one fewer.\<close>

abbreviation unmarked :: "bool list \<Rightarrow> nat" where
  "unmarked vis \<equiv> count_list vis False"

lemma unmarked_update:
  "n < length vis \<Longrightarrow> \<not> vis ! n \<Longrightarrow> Suc (unmarked (vis[n := True])) = unmarked vis"
  by (induction vis arbitrary: n) (auto split: nat.splits)

lemma dfs_unmarked_partial:
  "dfs_dom (succ, ns, vis) \<Longrightarrow> unmarked (fst (dfs succ ns vis)) \<le> unmarked vis"
proof (induction succ ns vis rule: dfs.pinduct)
  case (1 succ vis)
  then show ?case by (simp add: dfs.psimps)
next
  case (2 succ n ns vis)
  show ?case
  proof (cases "n < length vis \<and> \<not> vis ! n")
    case False
    then show ?thesis using 2 by (auto simp: dfs.psimps)
  next
    case True
    obtain v1 pre1 post1 where r1: "dfs succ (succ n) (vis[n := True]) = (v1, pre1, post1)"
      by (cases "dfs succ (succ n) (vis[n := True])")
    obtain v2 pre2 post2 where r2: "dfs succ ns v1 = (v2, pre2, post2)"
      by (cases "dfs succ ns v1")
    have "unmarked v1 \<le> unmarked (vis[n := True])" using "2.IH"(1) True r1 by simp
    moreover have "unmarked v2 \<le> unmarked v1" using "2.IH"(2) True r1 r2 by simp
    moreover have "dfs succ (n # ns) vis = (v2, n # pre1 @ pre2, post1 @ n # post2)"
      using "2.hyps" True r1 r2 by (simp add: dfs.psimps)
    ultimately show ?thesis using unmarked_update [of n vis] True by simp
  qed
qed

termination dfs
proof (relation "measures [\<lambda>(succ, ns, vis). unmarked vis, \<lambda>(succ, ns, vis). length ns]")
  fix succ :: "nat \<Rightarrow> nat list" and n ns vis x v1 y pre1 post1
  assume g: "n < length vis \<and> \<not> vis ! n"
  show "((succ, succ n, vis[n := True]), (succ, n # ns, vis))
      \<in> measures [\<lambda>(succ, ns, vis). unmarked vis, \<lambda>(succ, ns, vis). length ns]"
    using g unmarked_update [of n vis] by simp
  assume x: "x = dfs succ (succ n) (vis[n := True])" "(v1, y) = x"
    and d: "dfs_dom (succ, succ n, vis[n := True])"
  from dfs_unmarked_partial [OF d] x have "unmarked v1 \<le> unmarked (vis[n := True])"
    by (metis fst_conv)
  then show "((succ, ns, v1), (succ, n # ns, vis))
      \<in> measures [\<lambda>(succ, ns, vis). unmarked vis, \<lambda>(succ, ns, vis). length ns]"
    using g unmarked_update [of n vis] by simp
qed simp_all

lemma dfs_skip: "\<not> (n < length vis \<and> \<not> vis ! n) \<Longrightarrow> dfs succ (n # ns) vis = dfs succ ns vis"
  by auto

lemma dfs_enter:
  assumes "n < length vis" "\<not> vis ! n"
    and "dfs succ (succ n) (vis[n := True]) = (v1, pre1, post1)"
    and "dfs succ ns v1 = (v2, pre2, post2)"
  shows "dfs succ (n # ns) vis = (v2, n # pre1 @ pre2, post1 @ n # post2)"
  using assms by simp

text \<open>The two traces list the newly marked nodes, each once.\<close>

definition dfs_marks :: "bool list \<Rightarrow> bool list \<times> nat list \<times> nat list \<Rightarrow> bool" where
  "dfs_marks vis r \<longleftrightarrow> (case r of (v, pre, post) \<Rightarrow>
     length v = length vis \<and> (\<forall>i<length vis. v ! i \<longleftrightarrow> vis ! i \<or> i \<in> set pre)
     \<and> distinct pre \<and> distinct post \<and> set post = set pre
     \<and> (\<forall>i\<in>set pre. i < length vis \<and> \<not> vis ! i))"

lemma dfs_marks: "dfs_marks vis (dfs succ ns vis)"
proof (induction succ ns vis rule: dfs.induct)
  case (1 succ vis)
  then show ?case by (simp add: dfs_marks_def)
next
  case (2 succ n ns vis)
  show ?case
  proof (cases "n < length vis \<and> \<not> vis ! n")
    case False
    then show ?thesis using "2.IH"(3) dfs_skip [OF False] by simp
  next
    case True
    obtain v1 pre1 post1 where r1: "dfs succ (succ n) (vis[n := True]) = (v1, pre1, post1)"
      by (cases "dfs succ (succ n) (vis[n := True])")
    obtain v2 pre2 post2 where r2: "dfs succ ns v1 = (v2, pre2, post2)"
      by (cases "dfs succ ns v1")
    have "dfs_marks (vis[n := True]) (v1, pre1, post1)" using "2.IH"(1) True r1 by simp
    moreover have "dfs_marks v1 (v2, pre2, post2)" using "2.IH"(2) True r1 r2 by simp
    ultimately show ?thesis using True dfs_enter [OF _ _ r1 r2]
      by (auto simp: dfs_marks_def nth_list_update split: if_splits)
  qed
qed

text \<open>After a search, the roots and the successors of every emitted node are marked.\<close>

definition dfs_closed ::
  "(nat \<Rightarrow> nat list) \<Rightarrow> nat list \<Rightarrow> bool list \<times> nat list \<times> nat list \<Rightarrow> bool" where
  "dfs_closed succ ns r \<longleftrightarrow> (case r of (v, pre, post) \<Rightarrow>
     (\<forall>n\<in>set ns. n < length v \<longrightarrow> v ! n)
     \<and> (\<forall>i\<in>set pre. \<forall>j\<in>set (succ i). j < length v \<longrightarrow> v ! j))"

lemma dfs_mono:
  "dfs succ ns vis = (v, pre, post) \<Longrightarrow> length v = length vis \<and> (\<forall>i<length vis. vis ! i \<longrightarrow> v ! i)"
  using dfs_marks [of vis succ ns] by (auto simp: dfs_marks_def)

lemma dfs_closed: "dfs_closed succ ns (dfs succ ns vis)"
proof (induction succ ns vis rule: dfs.induct)
  case (1 succ vis)
  then show ?case by (simp add: dfs_closed_def)
next
  case (2 succ n ns vis)
  show ?case
  proof (cases "n < length vis \<and> \<not> vis ! n")
    case False
    obtain v pre post where r: "dfs succ ns vis = (v, pre, post)" by (cases "dfs succ ns vis")
    then show ?thesis using False "2.IH"(3) dfs_mono [OF r]
      by (auto simp: dfs_skip dfs_closed_def)
  next
    case True
    obtain v1 pre1 post1 where r1: "dfs succ (succ n) (vis[n := True]) = (v1, pre1, post1)"
      by (cases "dfs succ (succ n) (vis[n := True])")
    obtain v2 pre2 post2 where r2: "dfs succ ns v1 = (v2, pre2, post2)"
      by (cases "dfs succ ns v1")
    have "dfs_closed succ (succ n) (v1, pre1, post1)" using "2.IH"(1) True r1 by simp
    moreover have "dfs_closed succ ns (v2, pre2, post2)" using "2.IH"(2) True r1 r2 by simp
    ultimately show ?thesis using True dfs_enter [OF _ _ r1 r2] dfs_mono [OF r1] dfs_mono [OF r2]
      by (auto simp: dfs_closed_def)
  qed
qed

text \<open>Everything emitted is reachable from a root.\<close>

definition edge :: "(nat \<Rightarrow> nat list) \<Rightarrow> (nat \<times> nat) set" where
  "edge succ = {(a, b). b \<in> set (succ a)}"

lemma dfs_reachable:
  "dfs succ ns vis = (v, pre, post) \<Longrightarrow> i \<in> set pre \<Longrightarrow> \<exists>n\<in>set ns. (n, i) \<in> (edge succ)\<^sup>*"
proof (induction succ ns vis arbitrary: v pre post rule: dfs.induct)
  case (1 succ vis)
  then show ?case by simp
next
  case (2 succ n ns vis)
  show ?case
  proof (cases "n < length vis \<and> \<not> vis ! n")
    case False
    then show ?thesis using "2.IH"(3) "2.prems" by (auto simp: dfs_skip)
  next
    case True
    obtain v1 pre1 post1 where r1: "dfs succ (succ n) (vis[n := True]) = (v1, pre1, post1)"
      by (cases "dfs succ (succ n) (vis[n := True])")
    obtain v2 pre2 post2 where r2: "dfs succ ns v1 = (v2, pre2, post2)"
      by (cases "dfs succ ns v1")
    from "2.prems" True dfs_enter [OF _ _ r1 r2]
    consider "i = n" | "i \<in> set pre1" | "i \<in> set pre2" by auto
    then show ?thesis
    proof cases
      case 2
      then obtain m where "m \<in> set (succ n)" "(m, i) \<in> (edge succ)\<^sup>*"
        using "2.IH"(1) True r1 by blast
      then have "(n, i) \<in> (edge succ)\<^sup>*"
        by (auto simp: edge_def intro: converse_rtrancl_into_rtrancl)
      then show ?thesis by auto
    next
      case 3
      then show ?thesis using "2.IH"(2) True r1 r2 by auto
    qed auto
  qed
qed

text \<open>A search depends on the successors of the nodes of the graph only.\<close>

lemma dfs_cong:
  "(\<And>a. a < length vis \<Longrightarrow> f a = h a) \<Longrightarrow> dfs f ns vis = dfs h ns vis"
proof (induction f ns vis rule: dfs.induct)
  case (2 f n ns vis)
  show ?case
  proof (cases "n < length vis \<and> \<not> vis ! n")
    case False
    then have "dfs f (n # ns) vis = dfs f ns vis" "dfs h (n # ns) vis = dfs h ns vis"
      by (simp_all only: dfs_skip not_False_eq_True)
    then show ?thesis using "2.IH"(3) [OF False] "2.prems" by simp
  next
    case True
    obtain v1 pre1 post1 where r1: "dfs f (f n) (vis[n := True]) = (v1, pre1, post1)"
      by (cases "dfs f (f n) (vis[n := True])")
    obtain v2 pre2 post2 where r2: "dfs f ns v1 = (v2, pre2, post2)" by (cases "dfs f ns v1")
    have "dfs h (h n) (vis[n := True]) = (v1, pre1, post1)"
      using "2.IH"(1) [OF True] "2.prems" True r1 by simp
    moreover have "dfs h ns v1 = (v2, pre2, post2)"
      using "2.IH"(2) [OF True refl r1 [symmetric] refl] "2.prems" dfs_mono [OF r1] r2 by simp
    ultimately show ?thesis using dfs_enter [OF _ _ r1 r2] dfs_enter [of n vis h] True by simp
  qed
qed simp

section \<open>The interface of a traversal\<close>

text \<open>
  A traversal of a graph of \<open>size g\<close> nodes from a node emits exactly the nodes reachable
  from it, each once. So a buffer with a slot per node holds the trace, whatever the shape
  of the graph.
\<close>

locale graph_traversal =
  fixes ok :: "'g \<Rightarrow> bool"
    and nodes :: "'g \<Rightarrow> nat"
    and succs :: "'g \<Rightarrow> nat \<Rightarrow> nat list"
    and trav :: "'g \<Rightarrow> nat \<Rightarrow> nat list"
  assumes trav_distinct: "ok g \<Longrightarrow> s < nodes g \<Longrightarrow> distinct (trav g s)"
    and trav_reach: "ok g \<Longrightarrow> s < nodes g \<Longrightarrow> set (trav g s) = (edge (succs g))\<^sup>* `` {s}"
    and succs_in: "ok g \<Longrightarrow> s < nodes g \<Longrightarrow> t \<in> set (succs g s) \<Longrightarrow> t < nodes g"
begin

lemma trav_in:
  assumes "ok g" and "s < nodes g" and "t \<in> set (trav g s)"
  shows "t < nodes g"
proof -
  have "(s, t) \<in> (edge (succs g))\<^sup>*" using trav_reach assms by auto
  then show ?thesis
    by (induction rule: rtrancl_induct) (use assms(1,2) succs_in in \<open>auto simp: edge_def\<close>)
qed

lemma trav_length: "ok g \<Longrightarrow> s < nodes g \<Longrightarrow> length (trav g s) \<le> nodes g"
  using distinct_card [OF trav_distinct, of g s] trav_in [of g s]
    card_mono [of "{..<nodes g}" "set (trav g s)"] by auto

end

text \<open>Depth-first search from one node is a traversal, by either of its traces.\<close>

lemma dfs_from:
  assumes "\<And>a b. a < n \<Longrightarrow> b \<in> set (succ a) \<Longrightarrow> b < n" and "s < n"
    and "dfs succ [s] (replicate n False) = (v, pre, post)"
  shows "distinct pre" "distinct post" "set post = set pre" "set pre = (edge succ)\<^sup>* `` {s}"
proof -
  have m: "dfs_marks (replicate n False) (v, pre, post)"
    and c: "dfs_closed succ [s] (v, pre, post)"
    using dfs_marks [of "replicate n False" succ "[s]"] dfs_closed [of succ "[s]" "replicate n False"]
      assms(3) by simp_all
  then show "distinct pre" "distinct post" "set post = set pre" by (auto simp: dfs_marks_def)
  show "set pre = (edge succ)\<^sup>* `` {s}"
  proof
    show "set pre \<subseteq> (edge succ)\<^sup>* `` {s}" using dfs_reachable [OF assms(3)] by auto
    have mark: "i < n \<Longrightarrow> v ! i \<longleftrightarrow> i \<in> set pre" "i \<in> set pre \<Longrightarrow> i < n" for i
      using m by (auto simp: dfs_marks_def)
    have len: "length v = n" using m by (simp add: dfs_marks_def)
    have closed: "i \<in> set pre \<Longrightarrow> j \<in> set (succ i) \<Longrightarrow> j < n \<Longrightarrow> v ! j" "v ! s" for i j
      using c len assms(2) by (auto simp: dfs_closed_def)
    have "i \<in> set pre" if "(s, i) \<in> (edge succ)\<^sup>*" for i
      using that
    proof (induction rule: rtrancl_induct)
      case base
      then show ?case using mark closed(2) assms(2) by blast
    next
      case (step i j)
      then have "j \<in> set (succ i)" by (simp add: edge_def)
      then show ?case using mark closed(1) assms(1) step.IH by blast
    qed
    then show "(edge succ)\<^sup>* `` {s} \<subseteq> set pre" by auto
  qed
qed

section \<open>Breadth-first search\<close>

text \<open>The inner loop marks the unmarked successors and returns them for the queue.\<close>

fun bfs_enqueue :: "nat list \<Rightarrow> bool list \<Rightarrow> nat list \<times> bool list" where
  "bfs_enqueue [] vis = ([], vis)"
| "bfs_enqueue (i # is) vis =
     (if i < length vis \<and> \<not> vis ! i
      then let (q, v) = bfs_enqueue is (vis[i := True]) in (i # q, v)
      else bfs_enqueue is vis)"

lemma bfs_enqueue_unmarked:
  "bfs_enqueue is vis = (q, v) \<Longrightarrow> length q + unmarked v = unmarked vis"
proof (induction "is" vis arbitrary: q v rule: bfs_enqueue.induct)
  case (2 i "is" vis)
  then show ?case using unmarked_update [of i vis]
    by (auto split: if_splits prod.splits)
qed simp

function (sequential) bfs :: "(nat \<Rightarrow> nat list) \<Rightarrow> nat list \<Rightarrow> bool list \<Rightarrow> nat list" where
  "bfs succ [] vis = []"
| "bfs succ (n # q) vis =
     (let (new, v) = bfs_enqueue (succ n) vis in n # bfs succ (q @ new) v)"
  by pat_completeness auto

termination bfs
proof (relation "measure (\<lambda>(succ, q, vis). length q + unmarked vis)")
  fix succ :: "nat \<Rightarrow> nat list" and n q vis x new v
  assume "x = bfs_enqueue (succ n) vis" "(new, v) = x"
  then show "((succ, q @ new, v), (succ, n # q, vis))
      \<in> measure (\<lambda>(succ, q, vis). length q + unmarked vis)"
    using bfs_enqueue_unmarked [of "succ n" vis new v] by simp
qed simp

lemma bfs_enqueue_spec:
  "bfs_enqueue is vis = (q, v) \<Longrightarrow> length v = length vis \<and> distinct q
     \<and> set q = {i \<in> set is. i < length vis \<and> \<not> vis ! i}
     \<and> (\<forall>i<length vis. v ! i \<longleftrightarrow> vis ! i \<or> i \<in> set q)"
proof (induction "is" vis arbitrary: q v rule: bfs_enqueue.induct)
  case (2 i "is" vis)
  show ?case
  proof (cases "i < length vis \<and> \<not> vis ! i")
    case False
    then have "bfs_enqueue is vis = (q, v)" using "2.prems" by (simp split: if_splits)
    moreover have "{j \<in> set (i # is). j < length vis \<and> \<not> vis ! j}
        = {j \<in> set is. j < length vis \<and> \<not> vis ! j}" using False by auto
    ultimately show ?thesis using "2.IH"(2) [OF False] by simp
  next
    case True
    obtain q1 v1 where r: "bfs_enqueue is (vis[i := True]) = (q1, v1)" by fastforce
    then have "q = i # q1" "v = v1" using "2.prems" True by auto
    moreover have IH: "length v1 = length vis" "distinct q1"
      "set q1 = {j \<in> set is. j < length vis \<and> \<not> vis[i := True] ! j}"
      "\<And>j. j < length vis \<Longrightarrow> v1 ! j \<longleftrightarrow> vis[i := True] ! j \<or> j \<in> set q1"
      using "2.IH"(1) [OF True r] by auto
    moreover have "set (i # q1) = {j \<in> set (i # is). j < length vis \<and> \<not> vis ! j}"
      using True IH(3) by (auto simp: nth_list_update split: if_splits)
    moreover have "i \<notin> set q1" using True IH(3) by simp
    moreover have "v1 ! j \<longleftrightarrow> vis ! j \<or> j \<in> set (i # q1)" if "j < length vis" for j
      using IH(4) [OF that] that True by (cases "j = i") simp_all
    ultimately show ?thesis by simp
  qed
qed simp

definition bfs_inv :: "nat list \<Rightarrow> bool list \<Rightarrow> bool" where
  "bfs_inv q vis \<longleftrightarrow> distinct q \<and> (\<forall>i\<in>set q. i < length vis \<and> vis ! i)"

lemma bfs_inv_step:
  assumes "bfs_inv (n # q) vis" and "bfs_enqueue is vis = (new, v)"
  shows "bfs_inv (q @ new) v"
  using assms bfs_enqueue_spec [OF assms(2)] by (auto simp: bfs_inv_def)

text \<open>The trace emits the queue and what is newly marked, each once, and is closed.\<close>

lemma bfs_trace:
  "bfs_inv q vis \<Longrightarrow> distinct (bfs succ q vis) \<and> set q \<subseteq> set (bfs succ q vis)
     \<and> (\<forall>i\<in>set (bfs succ q vis). i < length vis \<and> (i \<in> set q \<or> \<not> vis ! i))
     \<and> (\<forall>i\<in>set (bfs succ q vis). \<forall>j\<in>set (succ i).
           j < length vis \<longrightarrow> vis ! j \<or> j \<in> set (bfs succ q vis))"
proof (induction succ q vis rule: bfs.induct)
  case (2 succ n q vis)
  obtain new v where e: "bfs_enqueue (succ n) vis = (new, v)" by fastforce
  have inv: "bfs_inv (q @ new) v" using "2.prems" e by (rule bfs_inv_step)
  have IH: "distinct (bfs succ (q @ new) v)" "set (q @ new) \<subseteq> set (bfs succ (q @ new) v)"
    "\<And>i. i \<in> set (bfs succ (q @ new) v) \<Longrightarrow> i < length v \<and> (i \<in> set (q @ new) \<or> \<not> v ! i)"
    "\<And>i j. i \<in> set (bfs succ (q @ new) v) \<Longrightarrow> j \<in> set (succ i) \<Longrightarrow> j < length v \<Longrightarrow>
       v ! j \<or> j \<in> set (bfs succ (q @ new) v)"
    using "2.IH" [OF e [symmetric] refl inv] by blast+
  have E: "length v = length vis" "set new = {i \<in> set (succ n). i < length vis \<and> \<not> vis ! i}"
    "\<And>i. i < length vis \<Longrightarrow> v ! i \<longleftrightarrow> vis ! i \<or> i \<in> set new"
    using bfs_enqueue_spec [OF e] by auto
  have n: "n < length vis" "vis ! n" "n \<notin> set q" using "2.prems" by (auto simp: bfs_inv_def)
  then have "n \<notin> set (bfs succ (q @ new) v)" using IH(3) [of n] E by auto
  moreover have "\<forall>i\<in>set (bfs succ (q @ new) v). i < length vis \<and> (i \<in> set (n # q) \<or> \<not> vis ! i)"
    using IH(3) E by auto
  moreover have "\<forall>i\<in>set (n # bfs succ (q @ new) v). \<forall>j\<in>set (succ i).
      j < length vis \<longrightarrow> vis ! j \<or> j \<in> set (bfs succ (q @ new) v)"
  proof (intro ballI impI)
    fix i j assume i: "i \<in> set (n # bfs succ (q @ new) v)" and j: "j \<in> set (succ i)" "j < length vis"
    have "v ! j \<or> j \<in> set (bfs succ (q @ new) v)"
    proof (cases "i = n")
      case True
      then show ?thesis using j E(2) E(3) [OF j(2)] by blast
    next
      case False
      then show ?thesis using i j IH(4) E(1) by auto
    qed
    then show "vis ! j \<or> j \<in> set (bfs succ (q @ new) v)" using E(3) [OF j(2)] IH(2) by auto
  qed
  ultimately show ?case using IH(1,2) n e by auto
qed simp

lemma bfs_reachable:
  "i \<in> set (bfs succ q vis) \<Longrightarrow> \<exists>n\<in>set q. (n, i) \<in> (edge succ)\<^sup>*"
proof (induction succ q vis rule: bfs.induct)
  case (2 succ n q vis)
  obtain new v where e: "bfs_enqueue (succ n) vis = (new, v)" by fastforce
  with "2.prems" consider "i = n" | "i \<in> set (bfs succ (q @ new) v)" by auto
  then show ?case
  proof cases
    case 2
    then obtain m where m: "m \<in> set q \<or> m \<in> set new" "(m, i) \<in> (edge succ)\<^sup>*"
      using "2.IH" [OF e [symmetric] refl] by auto
    moreover have "(n, i) \<in> (edge succ)\<^sup>*" if "m \<in> set new"
      using that m(2) bfs_enqueue_spec [OF e]
      by (auto simp: edge_def intro: converse_rtrancl_into_rtrancl)
    ultimately show ?thesis by auto
  qed auto
qed simp

lemma bfs_from:
  assumes "\<And>a b. a < n \<Longrightarrow> b \<in> set (succ a) \<Longrightarrow> b < n" and "s < n"
  defines "t \<equiv> bfs succ [s] ((replicate n False)[s := True])"
  shows "distinct t" "set t = (edge succ)\<^sup>* `` {s}"
proof -
  have inv: "bfs_inv [s] ((replicate n False)[s := True])" using assms(2) by (simp add: bfs_inv_def)
  have mark: "j < n \<Longrightarrow> (replicate n False)[s := True] ! j \<longleftrightarrow> j = s" for j
    using assms(2) by (simp add: nth_list_update)
  from bfs_trace [OF inv, of succ, folded t_def]
  show d: "distinct t" and "set t = (edge succ)\<^sup>* `` {s}"
  proof -
    assume tr: "distinct t \<and> set [s] \<subseteq> set t
      \<and> (\<forall>i\<in>set t. i < length ((replicate n False)[s := True])
           \<and> (i \<in> set [s] \<or> \<not> (replicate n False)[s := True] ! i))
      \<and> (\<forall>i\<in>set t. \<forall>j\<in>set (succ i). j < length ((replicate n False)[s := True]) \<longrightarrow>
           (replicate n False)[s := True] ! j \<or> j \<in> set t)"
    then show "distinct t" by blast
    have "i \<in> set t" if "(s, i) \<in> (edge succ)\<^sup>*" for i
      using that
    proof (induction rule: rtrancl_induct)
      case base
      then show ?case using tr by simp
    next
      case (step i j)
      then have "i < n" "j \<in> set (succ i)" using tr by (auto simp: edge_def)
      then show ?case using step.IH tr assms(1) mark by fastforce
    qed
    moreover have "(s, i) \<in> (edge succ)\<^sup>*" if "i \<in> set t" for i
      using bfs_reachable [OF that [unfolded t_def]] by simp
    ultimately show "set t = (edge succ)\<^sup>* `` {s}" by blast
  qed
qed

section \<open>Postorder of an acyclic graph\<close>

text \<open>
  When every edge leads to a node of smaller rank, a node is emitted in postorder after all
  its successors.
\<close>

definition after_succs :: "(nat \<Rightarrow> nat list) \<Rightarrow> bool list \<Rightarrow> nat list \<Rightarrow> bool" where
  "after_succs succ vis post \<longleftrightarrow>
     (\<forall>k<length post. \<forall>j\<in>set (succ (post ! k)). j < length vis \<longrightarrow> vis ! j \<or> j \<in> set (take k post))"

lemma after_succs_append:
  assumes "after_succs succ vis p" and "after_succs succ v q"
    and "\<And>i. i < length vis \<Longrightarrow> v ! i \<Longrightarrow> vis ! i \<or> i \<in> set p" and "length v = length vis"
  shows "after_succs succ vis (p @ q)"
  unfolding after_succs_def
proof (intro allI ballI impI)
  fix k j assume k: "k < length (p @ q)" and j: "j \<in> set (succ ((p @ q) ! k))" "j < length vis"
  show "vis ! j \<or> j \<in> set (take k (p @ q))"
  proof (cases "k < length p")
    case True
    then show ?thesis using assms(1) j by (auto simp: after_succs_def nth_append)
  next
    case False
    then have "v ! j \<or> j \<in> set (take (k - length p) q)"
      using assms(2,4) j k by (auto simp: after_succs_def nth_append)
    then show ?thesis using False assms(3) j(2) by auto
  qed
qed

lemma after_succs_snoc:
  assumes "after_succs succ vis p"
    and "\<And>j. j \<in> set (succ n) \<Longrightarrow> j < length vis \<Longrightarrow> vis ! j \<or> j \<in> set p"
  shows "after_succs succ vis (p @ [n])"
  unfolding after_succs_def
proof (intro allI ballI impI)
  fix k j assume k: "k < length (p @ [n])" and j: "j \<in> set (succ ((p @ [n]) ! k))" "j < length vis"
  show "vis ! j \<or> j \<in> set (take k (p @ [n]))"
  proof (cases "k < length p")
    case True
    then show ?thesis using assms(1) j by (auto simp: after_succs_def nth_append)
  next
    case False
    with k have "k = length p" by simp
    then show ?thesis using assms(2) j by simp
  qed
qed

lemma rank_rtrancl:
  assumes "\<And>a b. b \<in> set (succ a) \<Longrightarrow> rank b < (rank a :: nat)" and "(m, i) \<in> (edge succ)\<^sup>*"
  shows "rank i \<le> rank m"
  using assms(2) by (induction rule: rtrancl_induct) (use assms(1) in \<open>force simp: edge_def\<close>)+

lemma dfs_postorder:
  assumes "\<And>a b. b \<in> set (succ a) \<Longrightarrow> rank b < (rank a :: nat)"
  shows "dfs succ ns vis = (v, pre, post) \<Longrightarrow> after_succs succ vis post"
  using assms
proof (induction succ ns vis arbitrary: v pre post rule: dfs.induct)
  case (1 succ vis)
  then show ?case by (simp add: after_succs_def)
next
  case (2 succ n ns vis)
  show ?case
  proof (cases "n < length vis \<and> \<not> vis ! n")
    case False
    then show ?thesis using "2.IH"(3) "2.prems" by (auto simp: dfs_skip)
  next
    case True
    let ?vis = "vis[n := True]"
    obtain v1 pre1 post1 where r1: "dfs succ (succ n) ?vis = (v1, pre1, post1)"
      by (cases "dfs succ (succ n) ?vis")
    obtain v2 pre2 post2 where r2: "dfs succ ns v1 = (v2, pre2, post2)"
      by (cases "dfs succ ns v1")
    have post: "post = (post1 @ [n]) @ post2"
      using "2.prems"(1) True dfs_enter [OF _ _ r1 r2] by simp
    have m1: "length v1 = length vis" "\<And>i. i < length vis \<Longrightarrow> v1 ! i \<longleftrightarrow> ?vis ! i \<or> i \<in> set post1"
      using dfs_marks [of ?vis succ "succ n"] r1 by (auto simp: dfs_marks_def)
    have "after_succs succ ?vis post1" using "2.IH"(1) True r1 "2.prems"(2) by blast
    moreover have "j \<noteq> n" if "j \<in> set (succ i)" "i \<in> set post1" for i j
    proof -
      have "i \<in> set pre1" using that(2) dfs_marks [of ?vis succ "succ n"] r1 by (simp add: dfs_marks_def)
      then obtain m where "m \<in> set (succ n)" "(m, i) \<in> (edge succ)\<^sup>*" using dfs_reachable [OF r1] by blast
      then have "rank i < rank n" using "2.prems"(2) rank_rtrancl by (meson le_less_trans)
      then show ?thesis using "2.prems"(2) [OF that(1)] by auto
    qed
    ultimately have "after_succs succ vis post1"
      unfolding after_succs_def by (metis length_list_update nth_list_update_neq nth_mem)
    moreover have "vis ! j \<or> j \<in> set post1" if "j \<in> set (succ n)" "j < length vis" for j
    proof -
      have "v1 ! j" using dfs_closed [of succ "succ n" ?vis] r1 m1(1) that by (auto simp: dfs_closed_def)
      moreover have "j \<noteq> n" using "2.prems"(2) [OF that(1)] by auto
      ultimately show ?thesis using m1(2) [OF that(2)] by simp
    qed
    ultimately have "after_succs succ vis (post1 @ [n])" by (rule after_succs_snoc)
    moreover have "after_succs succ v1 post2"
      by (rule "2.IH"(2) [OF True refl r1 [symmetric] refl r2 "2.prems"(2)])
    ultimately show ?thesis unfolding post
      by (rule after_succs_append) (use m1 True in \<open>auto simp: nth_list_update split: if_splits\<close>)
  qed
qed

lemma dfs_postorder_from:
  assumes "\<And>a b. a < n \<Longrightarrow> b \<in> set (succ a) \<Longrightarrow> rank b < (rank a :: nat)"
    and "dfs succ [s] (replicate n False) = (v, pre, post)"
  shows "after_succs succ (replicate n False) post"
proof -
  let ?succ = "\<lambda>a. if a < n then succ a else []"
  have "dfs ?succ [s] (replicate n False) = (v, pre, post)"
    using assms(2) dfs_cong [of "replicate n False" ?succ succ] by simp
  then have "after_succs ?succ (replicate n False) post"
    by (rule dfs_postorder [rotated]) (use assms(1) in \<open>auto split: if_splits\<close>)
  moreover have "post ! k < n" if "k < length post" for k
    using dfs_marks [of "replicate n False" succ "[s]"] assms(2) nth_mem [OF that]
    by (auto simp: dfs_marks_def)
  ultimately show ?thesis by (simp add: after_succs_def)
qed

end
