(* ===== verification/Wil.thy ===== *)
theory Wil
  imports Graph_Search
begin

text \<open>
  The sea-of-nodes graph of \<^verbatim>\<open>wil/wil_nodes.c\<close>, its builder (\<^verbatim>\<open>wil_builder.c\<close>) and its
  verifier (\<^verbatim>\<open>wil_validate.c\<close>). The graph of a context is the list of its nodes; a node
  pointer is a position in that list, \<open>None\<close> a null pointer, and the node at position \<open>i\<close>
  has the id \<open>i + 1\<close>. Allocation is taken to succeed, so capacities are not modelled.
\<close>

section \<open>Nodes\<close>

datatype (plugins only: code size) WILNodeKind =
    WIL_NODE_CONST_INT | WIL_NODE_CONST_FLOAT | WIL_NODE_CONST_BOOL | WIL_NODE_UNDEF
  | WIL_NODE_PARAM
  | WIL_NODE_ADD | WIL_NODE_SUB | WIL_NODE_MUL | WIL_NODE_DIV | WIL_NODE_MOD
  | WIL_NODE_AND | WIL_NODE_OR | WIL_NODE_XOR | WIL_NODE_SHL | WIL_NODE_SHR
  | WIL_NODE_NEG | WIL_NODE_NOT | WIL_NODE_ABS
  | WIL_NODE_EQ | WIL_NODE_NE | WIL_NODE_LT | WIL_NODE_LE | WIL_NODE_GT | WIL_NODE_GE
  | WIL_NODE_LOAD | WIL_NODE_STORE | WIL_NODE_ALLOCA
  | WIL_NODE_START | WIL_NODE_REGION | WIL_NODE_IF | WIL_NODE_LOOP | WIL_NODE_RETURN
  | WIL_NODE_JUMP | WIL_NODE_PROJ
  | WIL_NODE_PHI | WIL_NODE_CALL | WIL_NODE_CALL_INDIRECT
  | WIL_NODE_CAST | WIL_NODE_BITCAST | WIL_NODE_EXTRACT | WIL_NODE_INSERT | WIL_NODE_SELECT

datatype WILNodeCategory =
  WIL_CAT_VALUE | WIL_CAT_CONTROL | WIL_CAT_EFFECT | WIL_CAT_CONSTANT | WIL_CAT_PARAMETER

datatype WILType =
  WIL_TYPE_VOID | WIL_TYPE_I1 | WIL_TYPE_I8 | WIL_TYPE_I16 | WIL_TYPE_I32 | WIL_TYPE_I64
  | WIL_TYPE_F32 | WIL_TYPE_F64 | WIL_TYPE_PTR | WIL_TYPE_CONTROL

datatype WILEdgeKind = WIL_EDGE_DATA | WIL_EDGE_CONTROL | WIL_EDGE_EFFECT

type_synonym node_ptr = "nat option"
type_synonym input_slot = "node_ptr \<times> WILEdgeKind"

text \<open>The payload union is given by its eight bytes.\<close>

record WILNode =
  wn_id :: u64
  wn_kind :: WILNodeKind
  wn_category :: WILNodeCategory
  wn_type :: WILType
  wn_name :: "string option"
  wn_inputs :: "input_slot list"
  wn_uses :: "nat list"
  wn_payload :: u64
  wn_removed :: bool

type_synonym WILGraph = "WILNode list"

definition wil_node_kind_category :: "WILNodeKind \<Rightarrow> WILNodeCategory" where
  "wil_node_kind_category kind =
     (case kind of
        WIL_NODE_CONST_INT \<Rightarrow> WIL_CAT_CONSTANT | WIL_NODE_CONST_FLOAT \<Rightarrow> WIL_CAT_CONSTANT
      | WIL_NODE_CONST_BOOL \<Rightarrow> WIL_CAT_CONSTANT | WIL_NODE_UNDEF \<Rightarrow> WIL_CAT_CONSTANT
      | WIL_NODE_PARAM \<Rightarrow> WIL_CAT_PARAMETER
      | WIL_NODE_START \<Rightarrow> WIL_CAT_CONTROL | WIL_NODE_REGION \<Rightarrow> WIL_CAT_CONTROL
      | WIL_NODE_IF \<Rightarrow> WIL_CAT_CONTROL | WIL_NODE_LOOP \<Rightarrow> WIL_CAT_CONTROL
      | WIL_NODE_RETURN \<Rightarrow> WIL_CAT_CONTROL | WIL_NODE_JUMP \<Rightarrow> WIL_CAT_CONTROL
      | WIL_NODE_PROJ \<Rightarrow> WIL_CAT_CONTROL
      | WIL_NODE_STORE \<Rightarrow> WIL_CAT_EFFECT | WIL_NODE_CALL \<Rightarrow> WIL_CAT_EFFECT
      | WIL_NODE_CALL_INDIRECT \<Rightarrow> WIL_CAT_EFFECT
      | _ \<Rightarrow> WIL_CAT_VALUE)"

text \<open>A null pointer is answered by the default of each accessor.\<close>

definition wil_node_get :: "WILGraph \<Rightarrow> node_ptr \<Rightarrow> WILNode option" where
  "wil_node_get g p =
     (case p of None \<Rightarrow> None | Some i \<Rightarrow> if i < length g then Some (g ! i) else None)"

definition wil_node_id :: "WILGraph \<Rightarrow> node_ptr \<Rightarrow> u64" where
  "wil_node_id g p = (case wil_node_get g p of None \<Rightarrow> 0 | Some n \<Rightarrow> wn_id n)"

definition wil_node_kind :: "WILGraph \<Rightarrow> node_ptr \<Rightarrow> WILNodeKind" where
  "wil_node_kind g p = (case wil_node_get g p of None \<Rightarrow> WIL_NODE_CONST_INT | Some n \<Rightarrow> wn_kind n)"

definition wil_node_category :: "WILGraph \<Rightarrow> node_ptr \<Rightarrow> WILNodeCategory" where
  "wil_node_category g p = (case wil_node_get g p of None \<Rightarrow> WIL_CAT_VALUE | Some n \<Rightarrow> wn_category n)"

definition wil_node_type :: "WILGraph \<Rightarrow> node_ptr \<Rightarrow> WILType" where
  "wil_node_type g p = (case wil_node_get g p of None \<Rightarrow> WIL_TYPE_VOID | Some n \<Rightarrow> wn_type n)"

definition wil_node_name :: "WILGraph \<Rightarrow> node_ptr \<Rightarrow> string option" where
  "wil_node_name g p = (case wil_node_get g p of None \<Rightarrow> None | Some n \<Rightarrow> wn_name n)"

definition wil_node_input_count :: "WILGraph \<Rightarrow> node_ptr \<Rightarrow> nat" where
  "wil_node_input_count g p = (case wil_node_get g p of None \<Rightarrow> 0 | Some n \<Rightarrow> length (wn_inputs n))"

definition wil_node_input :: "WILGraph \<Rightarrow> node_ptr \<Rightarrow> nat \<Rightarrow> node_ptr" where
  "wil_node_input g p i =
     (case wil_node_get g p of None \<Rightarrow> None
      | Some n \<Rightarrow> if length (wn_inputs n) \<le> i then None else fst (wn_inputs n ! i))"

definition wil_node_input_edge_kind :: "WILGraph \<Rightarrow> node_ptr \<Rightarrow> nat \<Rightarrow> WILEdgeKind" where
  "wil_node_input_edge_kind g p i =
     (case wil_node_get g p of None \<Rightarrow> WIL_EDGE_DATA
      | Some n \<Rightarrow> if length (wn_inputs n) \<le> i then WIL_EDGE_DATA else snd (wn_inputs n ! i))"

definition wil_node_use_count :: "WILGraph \<Rightarrow> node_ptr \<Rightarrow> nat" where
  "wil_node_use_count g p = (case wil_node_get g p of None \<Rightarrow> 0 | Some n \<Rightarrow> length (wn_uses n))"

definition wil_node_use :: "WILGraph \<Rightarrow> node_ptr \<Rightarrow> nat \<Rightarrow> node_ptr" where
  "wil_node_use g p i =
     (case wil_node_get g p of None \<Rightarrow> None
      | Some n \<Rightarrow> if length (wn_uses n) \<le> i then None else Some (wn_uses n ! i))"

definition wil_node_is_const :: "WILGraph \<Rightarrow> node_ptr \<Rightarrow> bool" where
  "wil_node_is_const g p =
     (case wil_node_get g p of None \<Rightarrow> False | Some n \<Rightarrow> wn_category n = WIL_CAT_CONSTANT)"

definition wil_node_const_int :: "WILGraph \<Rightarrow> node_ptr \<Rightarrow> u64" where
  "wil_node_const_int g p =
     (case wil_node_get g p of None \<Rightarrow> 0
      | Some n \<Rightarrow> if wn_kind n = WIL_NODE_CONST_INT then wn_payload n else 0)"

definition wil_node_const_float :: "WILGraph \<Rightarrow> node_ptr \<Rightarrow> u64" where
  "wil_node_const_float g p =
     (case wil_node_get g p of None \<Rightarrow> 0
      | Some n \<Rightarrow> if wn_kind n = WIL_NODE_CONST_FLOAT then wn_payload n else 0)"

definition wil_node_const_bool :: "WILGraph \<Rightarrow> node_ptr \<Rightarrow> u32" where
  "wil_node_const_bool g p =
     (case wil_node_get g p of None \<Rightarrow> 0
      | Some n \<Rightarrow> if wn_kind n = WIL_NODE_CONST_BOOL then ucast (wn_payload n) else 0)"

definition wil_graph_node_count :: "WILGraph \<Rightarrow> nat" where
  "wil_graph_node_count g = length g"

definition wil_graph_get_node :: "WILGraph \<Rightarrow> nat \<Rightarrow> node_ptr" where
  "wil_graph_get_node g i = (if length g \<le> i then None else Some i)"

definition wil_graph_find_node :: "WILGraph \<Rightarrow> u64 \<Rightarrow> node_ptr" where
  "wil_graph_find_node g i = find (\<lambda>k. wn_id (g ! k) = i) [0..<length g]"

definition wil_graph_first_node :: "WILGraph \<Rightarrow> node_ptr" where
  "wil_graph_first_node g = wil_graph_get_node g 0"

definition wil_graph_next_node :: "WILGraph \<Rightarrow> node_ptr \<Rightarrow> node_ptr" where
  "wil_graph_next_node g p =
     (case p of None \<Rightarrow> None
      | Some i \<Rightarrow> if i + 1 < length g then Some (i + 1) else None)"

section \<open>Building and editing\<close>

definition wil_node_kind_default_type ::
  "WILGraph \<Rightarrow> WILNodeKind \<Rightarrow> WILType \<Rightarrow> node_ptr \<Rightarrow> WILType" where
  "wil_node_kind_default_type g kind hint lhs =
     (if hint \<noteq> WIL_TYPE_VOID then hint
      else let of_lhs = (\<lambda>d. if lhs = None then d else wil_node_type g lhs) in
        case kind of
          WIL_NODE_CONST_BOOL \<Rightarrow> WIL_TYPE_I1 | WIL_NODE_EQ \<Rightarrow> WIL_TYPE_I1 | WIL_NODE_NE \<Rightarrow> WIL_TYPE_I1
        | WIL_NODE_LT \<Rightarrow> WIL_TYPE_I1 | WIL_NODE_LE \<Rightarrow> WIL_TYPE_I1 | WIL_NODE_GT \<Rightarrow> WIL_TYPE_I1
        | WIL_NODE_GE \<Rightarrow> WIL_TYPE_I1
        | WIL_NODE_START \<Rightarrow> WIL_TYPE_CONTROL | WIL_NODE_REGION \<Rightarrow> WIL_TYPE_CONTROL
        | WIL_NODE_IF \<Rightarrow> WIL_TYPE_CONTROL | WIL_NODE_LOOP \<Rightarrow> WIL_TYPE_CONTROL
        | WIL_NODE_RETURN \<Rightarrow> WIL_TYPE_CONTROL | WIL_NODE_JUMP \<Rightarrow> WIL_TYPE_CONTROL
        | WIL_NODE_PROJ \<Rightarrow> WIL_TYPE_CONTROL
        | WIL_NODE_STORE \<Rightarrow> WIL_TYPE_VOID | WIL_NODE_CALL \<Rightarrow> WIL_TYPE_VOID
        | WIL_NODE_CALL_INDIRECT \<Rightarrow> WIL_TYPE_VOID
        | WIL_NODE_ALLOCA \<Rightarrow> of_lhs WIL_TYPE_PTR | WIL_NODE_LOAD \<Rightarrow> of_lhs WIL_TYPE_PTR
        | WIL_NODE_EXTRACT \<Rightarrow> of_lhs WIL_TYPE_PTR | WIL_NODE_INSERT \<Rightarrow> of_lhs WIL_TYPE_PTR
        | WIL_NODE_CAST \<Rightarrow> of_lhs WIL_TYPE_PTR | WIL_NODE_BITCAST \<Rightarrow> of_lhs WIL_TYPE_PTR
        | WIL_NODE_SELECT \<Rightarrow> of_lhs WIL_TYPE_PTR | WIL_NODE_PHI \<Rightarrow> of_lhs WIL_TYPE_PTR
        | _ \<Rightarrow> of_lhs WIL_TYPE_I32)"

definition wil_node_create ::
  "WILGraph \<Rightarrow> WILNodeKind \<Rightarrow> WILType \<Rightarrow> string option \<Rightarrow> nat \<times> WILGraph" where
  "wil_node_create g kind ty nm =
     (length g,
      g @ [\<lparr>wn_id = of_nat (length g) + 1, wn_kind = kind,
            wn_category = wil_node_kind_category kind, wn_type = ty, wn_name = nm,
            wn_inputs = [], wn_uses = [], wn_payload = 0, wn_removed = False\<rparr>])"

definition wil_node_register_use :: "WILGraph \<Rightarrow> node_ptr \<Rightarrow> nat \<Rightarrow> WILGraph" where
  "wil_node_register_use g input user =
     (case input of None \<Rightarrow> g
      | Some m \<Rightarrow> g[m := (g ! m)\<lparr>wn_uses := wn_uses (g ! m) @ [user]\<rparr>])"

definition wil_node_unregister_use :: "WILGraph \<Rightarrow> node_ptr \<Rightarrow> nat \<Rightarrow> WILGraph" where
  "wil_node_unregister_use g input user =
     (case input of None \<Rightarrow> g
      | Some m \<Rightarrow> g[m := (g ! m)\<lparr>wn_uses := remove1 user (wn_uses (g ! m))\<rparr>])"

definition wil_node_add_input :: "WILGraph \<Rightarrow> nat \<Rightarrow> node_ptr \<Rightarrow> WILEdgeKind \<Rightarrow> WILGraph" where
  "wil_node_add_input g n input edge_kind =
     wil_node_register_use
       (g[n := (g ! n)\<lparr>wn_inputs := wn_inputs (g ! n) @ [(input, edge_kind)]\<rparr>]) input n"

definition wil_node_replace_input :: "WILGraph \<Rightarrow> nat \<Rightarrow> nat \<Rightarrow> node_ptr \<Rightarrow> WILGraph" where
  "wil_node_replace_input g n i new_input =
     (if length (wn_inputs (g ! n)) \<le> i then g
      else let g1 = wil_node_unregister_use g (fst (wn_inputs (g ! n) ! i)) n;
               g2 = g1[n := (g1 ! n)\<lparr>wn_inputs := (wn_inputs (g1 ! n))
                               [i := (new_input, snd (wn_inputs (g1 ! n) ! i))]\<rparr>]
           in wil_node_register_use g2 new_input n)"

definition wil_node_remove_input :: "WILGraph \<Rightarrow> nat \<Rightarrow> nat \<Rightarrow> WILGraph" where
  "wil_node_remove_input g n i =
     (if length (wn_inputs (g ! n)) \<le> i then g
      else let g1 = wil_node_unregister_use g (fst (wn_inputs (g ! n) ! i)) n
           in g1[n := (g1 ! n)\<lparr>wn_inputs := take i (wn_inputs (g1 ! n))
                                 @ drop (Suc i) (wn_inputs (g1 ! n))\<rparr>])"

text \<open>The inner loop of \<open>wil_node_replace_all_uses\<close> over the inputs of one user.\<close>

definition wil_replace_in_user :: "nat \<Rightarrow> nat \<Rightarrow> WILGraph \<Rightarrow> nat \<Rightarrow> WILGraph" where
  "wil_replace_in_user old new g user =
     foldl (\<lambda>g i. if fst (wn_inputs (g ! user) ! i) = Some old
                  then wil_node_replace_input g user i (Some new) else g)
       g [0..<length (wn_inputs (g ! user))]"

definition wil_node_replace_all_uses :: "WILGraph \<Rightarrow> nat \<Rightarrow> nat \<Rightarrow> WILGraph" where
  "wil_node_replace_all_uses g old new =
     (if old = new then g
      else foldl (wil_replace_in_user old new) g (wn_uses (g ! old)))"

definition wil_node_remove :: "WILGraph \<Rightarrow> nat \<Rightarrow> WILGraph" where
  "wil_node_remove g n =
     (if wn_uses (g ! n) \<noteq> [] then g
      else let g1 = foldl (\<lambda>g i. wil_node_remove_input g n i) g
                      (rev [0..<length (wn_inputs (g ! n))])
           in g1[n := (g1 ! n)\<lparr>wn_removed := True\<rparr>])"

section \<open>The builder\<close>

definition wil_build_unary ::
  "WILGraph \<Rightarrow> WILNodeKind \<Rightarrow> node_ptr \<Rightarrow> WILType \<Rightarrow> nat \<times> WILGraph" where
  "wil_build_unary g kind operand type_hint =
     (let (n, g1) = wil_node_create g kind (wil_node_kind_default_type g kind type_hint operand) None
      in (n, wil_node_add_input g1 n operand
               (if kind = WIL_NODE_RETURN then WIL_EDGE_CONTROL else WIL_EDGE_DATA)))"

definition wil_build_binary ::
  "WILGraph \<Rightarrow> WILNodeKind \<Rightarrow> node_ptr \<Rightarrow> node_ptr \<Rightarrow> WILType \<Rightarrow> nat \<times> WILGraph" where
  "wil_build_binary g kind lhs rhs type_hint =
     (let (n, g1) = wil_node_create g kind (wil_node_kind_default_type g kind type_hint lhs) None
      in (n, wil_node_add_input (wil_node_add_input g1 n lhs WIL_EDGE_DATA) n rhs WIL_EDGE_DATA))"

text \<open>The loop that adds a list of inputs to a node.\<close>

definition wil_add_inputs :: "WILGraph \<Rightarrow> nat \<Rightarrow> input_slot list \<Rightarrow> WILGraph" where
  "wil_add_inputs g n slots = foldl (\<lambda>g (input, edge_kind). wil_node_add_input g n input edge_kind) g slots"

definition wil_build_nary ::
  "WILGraph \<Rightarrow> WILNodeKind \<Rightarrow> input_slot list \<Rightarrow> WILType \<Rightarrow> string option \<Rightarrow> nat \<times> WILGraph" where
  "wil_build_nary g kind slots type_hint nm =
     (let ty = wil_node_kind_default_type g kind type_hint
                 (case slots of [] \<Rightarrow> None | s # _ \<Rightarrow> fst s);
          (n, g1) = wil_node_create g kind ty nm
      in (n, wil_add_inputs g1 n slots))"

definition wil_set_payload :: "nat \<times> WILGraph \<Rightarrow> u64 \<Rightarrow> nat \<times> WILGraph" where
  "wil_set_payload r v = (case r of (n, g) \<Rightarrow> (n, g[n := (g ! n)\<lparr>wn_payload := v\<rparr>]))"

definition wil_make_const_int :: "WILGraph \<Rightarrow> u64 \<Rightarrow> WILType \<Rightarrow> nat \<times> WILGraph" where
  "wil_make_const_int g v ty = wil_set_payload (wil_node_create g WIL_NODE_CONST_INT ty None) v"

text \<open>A \<^verbatim>\<open>double\<close> is given by its bits.\<close>

definition wil_make_const_float :: "WILGraph \<Rightarrow> u64 \<Rightarrow> WILType \<Rightarrow> nat \<times> WILGraph" where
  "wil_make_const_float g v ty = wil_set_payload (wil_node_create g WIL_NODE_CONST_FLOAT ty None) v"

definition wil_make_const_bool :: "WILGraph \<Rightarrow> u32 \<Rightarrow> nat \<times> WILGraph" where
  "wil_make_const_bool g v =
     wil_set_payload (wil_node_create g WIL_NODE_CONST_BOOL WIL_TYPE_I1 None) (if v \<noteq> 0 then 1 else 0)"

definition wil_make_undef :: "WILGraph \<Rightarrow> WILType \<Rightarrow> nat \<times> WILGraph" where
  "wil_make_undef g ty = wil_node_create g WIL_NODE_UNDEF ty None"

definition wil_make_param :: "WILGraph \<Rightarrow> u64 \<Rightarrow> WILType \<Rightarrow> string option \<Rightarrow> nat \<times> WILGraph" where
  "wil_make_param g i ty nm = wil_set_payload (wil_node_create g WIL_NODE_PARAM ty nm) i"

definition wil_make_add :: "WILGraph \<Rightarrow> node_ptr \<Rightarrow> node_ptr \<Rightarrow> nat \<times> WILGraph" where
  "wil_make_add g lhs rhs = wil_build_binary g WIL_NODE_ADD lhs rhs WIL_TYPE_VOID"

definition wil_make_sub :: "WILGraph \<Rightarrow> node_ptr \<Rightarrow> node_ptr \<Rightarrow> nat \<times> WILGraph" where
  "wil_make_sub g lhs rhs = wil_build_binary g WIL_NODE_SUB lhs rhs WIL_TYPE_VOID"

definition wil_make_mul :: "WILGraph \<Rightarrow> node_ptr \<Rightarrow> node_ptr \<Rightarrow> nat \<times> WILGraph" where
  "wil_make_mul g lhs rhs = wil_build_binary g WIL_NODE_MUL lhs rhs WIL_TYPE_VOID"

definition wil_make_div :: "WILGraph \<Rightarrow> node_ptr \<Rightarrow> node_ptr \<Rightarrow> nat \<times> WILGraph" where
  "wil_make_div g lhs rhs = wil_build_binary g WIL_NODE_DIV lhs rhs WIL_TYPE_VOID"

definition wil_make_mod :: "WILGraph \<Rightarrow> node_ptr \<Rightarrow> node_ptr \<Rightarrow> nat \<times> WILGraph" where
  "wil_make_mod g lhs rhs = wil_build_binary g WIL_NODE_MOD lhs rhs WIL_TYPE_VOID"

definition wil_make_and :: "WILGraph \<Rightarrow> node_ptr \<Rightarrow> node_ptr \<Rightarrow> nat \<times> WILGraph" where
  "wil_make_and g lhs rhs = wil_build_binary g WIL_NODE_AND lhs rhs WIL_TYPE_VOID"

definition wil_make_or :: "WILGraph \<Rightarrow> node_ptr \<Rightarrow> node_ptr \<Rightarrow> nat \<times> WILGraph" where
  "wil_make_or g lhs rhs = wil_build_binary g WIL_NODE_OR lhs rhs WIL_TYPE_VOID"

definition wil_make_xor :: "WILGraph \<Rightarrow> node_ptr \<Rightarrow> node_ptr \<Rightarrow> nat \<times> WILGraph" where
  "wil_make_xor g lhs rhs = wil_build_binary g WIL_NODE_XOR lhs rhs WIL_TYPE_VOID"

definition wil_make_shl :: "WILGraph \<Rightarrow> node_ptr \<Rightarrow> node_ptr \<Rightarrow> nat \<times> WILGraph" where
  "wil_make_shl g lhs rhs = wil_build_binary g WIL_NODE_SHL lhs rhs WIL_TYPE_VOID"

definition wil_make_shr :: "WILGraph \<Rightarrow> node_ptr \<Rightarrow> node_ptr \<Rightarrow> nat \<times> WILGraph" where
  "wil_make_shr g lhs rhs = wil_build_binary g WIL_NODE_SHR lhs rhs WIL_TYPE_VOID"

definition wil_make_eq :: "WILGraph \<Rightarrow> node_ptr \<Rightarrow> node_ptr \<Rightarrow> nat \<times> WILGraph" where
  "wil_make_eq g lhs rhs = wil_build_binary g WIL_NODE_EQ lhs rhs WIL_TYPE_VOID"

definition wil_make_ne :: "WILGraph \<Rightarrow> node_ptr \<Rightarrow> node_ptr \<Rightarrow> nat \<times> WILGraph" where
  "wil_make_ne g lhs rhs = wil_build_binary g WIL_NODE_NE lhs rhs WIL_TYPE_VOID"

definition wil_make_lt :: "WILGraph \<Rightarrow> node_ptr \<Rightarrow> node_ptr \<Rightarrow> nat \<times> WILGraph" where
  "wil_make_lt g lhs rhs = wil_build_binary g WIL_NODE_LT lhs rhs WIL_TYPE_VOID"

definition wil_make_le :: "WILGraph \<Rightarrow> node_ptr \<Rightarrow> node_ptr \<Rightarrow> nat \<times> WILGraph" where
  "wil_make_le g lhs rhs = wil_build_binary g WIL_NODE_LE lhs rhs WIL_TYPE_VOID"

definition wil_make_gt :: "WILGraph \<Rightarrow> node_ptr \<Rightarrow> node_ptr \<Rightarrow> nat \<times> WILGraph" where
  "wil_make_gt g lhs rhs = wil_build_binary g WIL_NODE_GT lhs rhs WIL_TYPE_VOID"

definition wil_make_ge :: "WILGraph \<Rightarrow> node_ptr \<Rightarrow> node_ptr \<Rightarrow> nat \<times> WILGraph" where
  "wil_make_ge g lhs rhs = wil_build_binary g WIL_NODE_GE lhs rhs WIL_TYPE_VOID"

definition wil_make_neg :: "WILGraph \<Rightarrow> node_ptr \<Rightarrow> nat \<times> WILGraph" where
  "wil_make_neg g operand = wil_build_unary g WIL_NODE_NEG operand WIL_TYPE_VOID"

definition wil_make_not :: "WILGraph \<Rightarrow> node_ptr \<Rightarrow> nat \<times> WILGraph" where
  "wil_make_not g operand = wil_build_unary g WIL_NODE_NOT operand WIL_TYPE_VOID"

definition wil_make_abs :: "WILGraph \<Rightarrow> node_ptr \<Rightarrow> nat \<times> WILGraph" where
  "wil_make_abs g operand = wil_build_unary g WIL_NODE_ABS operand WIL_TYPE_VOID"

definition wil_make_load :: "WILGraph \<Rightarrow> node_ptr \<Rightarrow> node_ptr \<Rightarrow> WILType \<Rightarrow> nat \<times> WILGraph" where
  "wil_make_load g address effect ty =
     wil_build_nary g WIL_NODE_LOAD [(address, WIL_EDGE_DATA), (effect, WIL_EDGE_EFFECT)] ty None"

definition wil_make_store :: "WILGraph \<Rightarrow> node_ptr \<Rightarrow> node_ptr \<Rightarrow> node_ptr \<Rightarrow> nat \<times> WILGraph" where
  "wil_make_store g address v effect =
     wil_build_nary g WIL_NODE_STORE
       [(address, WIL_EDGE_DATA), (v, WIL_EDGE_DATA), (effect, WIL_EDGE_EFFECT)] WIL_TYPE_VOID None"

text \<open>The payload of an \<open>alloca\<close> is the number of the allocated type.\<close>

definition wil_type_num :: "WILType \<Rightarrow> u64" where
  "wil_type_num ty =
     (case ty of WIL_TYPE_VOID \<Rightarrow> 0 | WIL_TYPE_I1 \<Rightarrow> 1 | WIL_TYPE_I8 \<Rightarrow> 2 | WIL_TYPE_I16 \<Rightarrow> 3
      | WIL_TYPE_I32 \<Rightarrow> 4 | WIL_TYPE_I64 \<Rightarrow> 5 | WIL_TYPE_F32 \<Rightarrow> 6 | WIL_TYPE_F64 \<Rightarrow> 7
      | WIL_TYPE_PTR \<Rightarrow> 8 | WIL_TYPE_CONTROL \<Rightarrow> 9)"

definition wil_make_alloca :: "WILGraph \<Rightarrow> WILType \<Rightarrow> node_ptr \<Rightarrow> nat \<times> WILGraph" where
  "wil_make_alloca g ty sz =
     (let (n, g1) = wil_set_payload (wil_node_create g WIL_NODE_ALLOCA WIL_TYPE_PTR None) (wil_type_num ty)
      in (n, if sz = None then g1 else wil_node_add_input g1 n sz WIL_EDGE_DATA))"

definition wil_make_start :: "WILGraph \<Rightarrow> nat \<times> WILGraph" where
  "wil_make_start g = wil_node_create g WIL_NODE_START WIL_TYPE_CONTROL (Some ''start'')"

definition wil_make_return :: "WILGraph \<Rightarrow> node_ptr \<Rightarrow> node_ptr \<Rightarrow> nat \<times> WILGraph" where
  "wil_make_return g control v =
     wil_build_nary g WIL_NODE_RETURN [(control, WIL_EDGE_CONTROL), (v, WIL_EDGE_DATA)] WIL_TYPE_CONTROL None"

definition wil_make_jump :: "WILGraph \<Rightarrow> node_ptr \<Rightarrow> node_ptr \<Rightarrow> nat \<times> WILGraph" where
  "wil_make_jump g control target =
     wil_build_nary g WIL_NODE_JUMP [(control, WIL_EDGE_CONTROL), (target, WIL_EDGE_CONTROL)] WIL_TYPE_CONTROL None"

definition wil_make_region :: "WILGraph \<Rightarrow> node_ptr list \<Rightarrow> nat \<times> WILGraph" where
  "wil_make_region g controls =
     wil_build_nary g WIL_NODE_REGION (map (\<lambda>c. (c, WIL_EDGE_CONTROL)) controls) WIL_TYPE_CONTROL None"

definition wil_make_if :: "WILGraph \<Rightarrow> node_ptr \<Rightarrow> node_ptr \<Rightarrow> nat \<times> WILGraph" where
  "wil_make_if g control condition =
     wil_build_nary g WIL_NODE_IF [(control, WIL_EDGE_CONTROL), (condition, WIL_EDGE_DATA)] WIL_TYPE_CONTROL None"

definition wil_make_loop :: "WILGraph \<Rightarrow> node_ptr \<Rightarrow> nat \<times> WILGraph" where
  "wil_make_loop g entry_control =
     wil_build_nary g WIL_NODE_LOOP [(entry_control, WIL_EDGE_CONTROL)] WIL_TYPE_CONTROL None"

definition wil_make_proj :: "WILGraph \<Rightarrow> node_ptr \<Rightarrow> u64 \<Rightarrow> nat \<times> WILGraph" where
  "wil_make_proj g control i =
     wil_set_payload (wil_build_unary g WIL_NODE_PROJ control WIL_TYPE_CONTROL) i"

definition wil_make_phi :: "WILGraph \<Rightarrow> node_ptr \<Rightarrow> node_ptr list \<Rightarrow> nat \<times> WILGraph" where
  "wil_make_phi g region vs =
     (let ty = (case vs of [] \<Rightarrow> WIL_TYPE_VOID | v # _ \<Rightarrow> wil_node_type g v);
          (n, g1) = wil_node_create g WIL_NODE_PHI ty None
      in (n, wil_add_inputs (wil_node_add_input g1 n region WIL_EDGE_CONTROL) n
               (map (\<lambda>v. (v, WIL_EDGE_DATA)) vs)))"

definition wil_make_call ::
  "WILGraph \<Rightarrow> node_ptr \<Rightarrow> node_ptr \<Rightarrow> string option \<Rightarrow> node_ptr list \<Rightarrow> nat \<times> WILGraph" where
  "wil_make_call g control effect callee args =
     (let (n, g1) = wil_node_create g WIL_NODE_CALL WIL_TYPE_VOID callee;
          g2 = wil_node_add_input g1 n control WIL_EDGE_CONTROL;
          g3 = wil_node_add_input g2 n effect WIL_EDGE_EFFECT
      in (n, wil_add_inputs g3 n (map (\<lambda>v. (v, WIL_EDGE_DATA)) args)))"

definition wil_make_call_indirect ::
  "WILGraph \<Rightarrow> node_ptr \<Rightarrow> node_ptr \<Rightarrow> node_ptr \<Rightarrow> node_ptr list \<Rightarrow> nat \<times> WILGraph" where
  "wil_make_call_indirect g control effect callee args =
     (let (n, g1) = wil_node_create g WIL_NODE_CALL_INDIRECT WIL_TYPE_VOID None;
          g2 = wil_node_add_input g1 n control WIL_EDGE_CONTROL;
          g3 = wil_node_add_input g2 n effect WIL_EDGE_EFFECT;
          g4 = wil_node_add_input g3 n callee WIL_EDGE_DATA
      in (n, wil_add_inputs g4 n (map (\<lambda>v. (v, WIL_EDGE_DATA)) args)))"

definition wil_make_cast :: "WILGraph \<Rightarrow> node_ptr \<Rightarrow> WILType \<Rightarrow> nat \<times> WILGraph" where
  "wil_make_cast g v target_type = wil_build_unary g WIL_NODE_CAST v target_type"

definition wil_make_bitcast :: "WILGraph \<Rightarrow> node_ptr \<Rightarrow> WILType \<Rightarrow> nat \<times> WILGraph" where
  "wil_make_bitcast g v target_type = wil_build_unary g WIL_NODE_BITCAST v target_type"

definition wil_make_extract :: "WILGraph \<Rightarrow> node_ptr \<Rightarrow> u64 \<Rightarrow> nat \<times> WILGraph" where
  "wil_make_extract g aggregate i =
     wil_set_payload (wil_build_unary g WIL_NODE_EXTRACT aggregate WIL_TYPE_VOID) i"

definition wil_make_insert :: "WILGraph \<Rightarrow> node_ptr \<Rightarrow> node_ptr \<Rightarrow> u64 \<Rightarrow> nat \<times> WILGraph" where
  "wil_make_insert g aggregate v i =
     wil_set_payload (wil_build_binary g WIL_NODE_INSERT aggregate v (wil_node_type g aggregate)) i"

definition wil_make_select :: "WILGraph \<Rightarrow> node_ptr \<Rightarrow> node_ptr \<Rightarrow> node_ptr \<Rightarrow> nat \<times> WILGraph" where
  "wil_make_select g condition true_val false_val =
     wil_build_nary g WIL_NODE_SELECT
       [(condition, WIL_EDGE_DATA), (true_val, WIL_EDGE_DATA), (false_val, WIL_EDGE_DATA)]
       (wil_node_type g true_val) None"

section \<open>The verifier\<close>

text \<open>The errors of \<open>wil_verify_node\<close>, with the numbers its messages print.\<close>

datatype wil_verify_err =
    InvalidId
  | NullInput u64 nat
  | MissingReverseUse u64 nat
  | UseWithoutInput u64 u64

fun wil_verify_inputs :: "WILGraph \<Rightarrow> nat \<Rightarrow> nat \<Rightarrow> input_slot list \<Rightarrow> wil_verify_err option" where
  "wil_verify_inputs g n k [] = None"
| "wil_verify_inputs g n k ((input, _) # slots) =
     (case input of
        None \<Rightarrow> Some (NullInput (wn_id (g ! n)) k)
      | Some m \<Rightarrow> if n \<notin> set (wn_uses (g ! m)) then Some (MissingReverseUse (wn_id (g ! n)) k)
                  else wil_verify_inputs g n (Suc k) slots)"

fun wil_verify_uses :: "WILGraph \<Rightarrow> nat \<Rightarrow> nat list \<Rightarrow> wil_verify_err option" where
  "wil_verify_uses g n [] = None"
| "wil_verify_uses g n (u # us) =
     (if Some n \<notin> fst ` set (wn_inputs (g ! u))
      then Some (UseWithoutInput (wn_id (g ! n)) (wn_id (g ! u)))
      else wil_verify_uses g n us)"

definition wil_verify_node :: "WILGraph \<Rightarrow> nat \<Rightarrow> wil_verify_err option" where
  "wil_verify_node g n =
     (if wn_id (g ! n) = 0 then Some InvalidId
      else case wil_verify_inputs g n 0 (wn_inputs (g ! n)) of
             Some e \<Rightarrow> Some e
           | None \<Rightarrow> wil_verify_uses g n (wn_uses (g ! n)))"

fun wil_verify_loop :: "WILGraph \<Rightarrow> nat list \<Rightarrow> wil_verify_err option" where
  "wil_verify_loop g [] = None"
| "wil_verify_loop g (n # ns) =
     (case wil_verify_node g n of Some e \<Rightarrow> Some e | None \<Rightarrow> wil_verify_loop g ns)"

text \<open>\<open>wil_verify_graph\<close> returns whether no error was set.\<close>

definition wil_verify_graph :: "WILGraph \<Rightarrow> wil_verify_err option" where
  "wil_verify_graph g = wil_verify_loop g [0..<length g]"

section \<open>Traversals\<close>

text \<open>The non-null inputs of a node, in order: the nodes a visit recurses into.\<close>

definition wil_inputs_of :: "WILGraph \<Rightarrow> nat \<Rightarrow> nat list" where
  "wil_inputs_of g n = List.map_filter fst (wn_inputs (g ! n))"

text \<open>
  A traversal is the sequence of nodes it calls the visitor with. The visited array has one
  slot per node (the slot of id 0 is never used).
\<close>

definition wil_visit_depth_first ::
  "WILGraph \<Rightarrow> nat \<Rightarrow> bool list \<Rightarrow> bool \<Rightarrow> bool list \<times> nat list" where
  "wil_visit_depth_first g n visited postorder =
     (case dfs (wil_inputs_of g) [n] visited of (v, pre, post) \<Rightarrow> (v, if postorder then post else pre))"

definition wil_graph_traverse_dfs :: "WILGraph \<Rightarrow> nat \<Rightarrow> nat list" where
  "wil_graph_traverse_dfs g start =
     snd (wil_visit_depth_first g start (replicate (length g) False) False)"

definition wil_graph_traverse_postorder :: "WILGraph \<Rightarrow> nat \<Rightarrow> nat list" where
  "wil_graph_traverse_postorder g start =
     snd (wil_visit_depth_first g start (replicate (length g) False) True)"

definition wil_graph_traverse_bfs :: "WILGraph \<Rightarrow> nat \<Rightarrow> nat list" where
  "wil_graph_traverse_bfs g start =
     bfs (wil_inputs_of g) [start] ((replicate (length g) False)[start := True])"

definition wil_graph_traverse_rpo :: "WILGraph \<Rightarrow> nat \<Rightarrow> nat list" where
  "wil_graph_traverse_rpo g start = rev (wil_graph_traverse_postorder g start)"

end
