(* ===== verification/Mal_Ir.thy ===== *)
theory Mal_Ir
  imports Wil
begin

text \<open>
  The machine abstraction layer of \<^verbatim>\<open>wirble-mal.h\<close>: types, opcodes, operands, instructions,
  blocks, functions and modules, with the constructors and editors of \<^verbatim>\<open>mal/mal_builder.c\<close>
  and the first half of \<^verbatim>\<open>mal/mal_ir.c\<close>. The linked lists of instructions, blocks and
  functions are lists (the pointer operations behind them are in \<open>Mal_List\<close>); counts are the
  lengths of the lists. Allocation is taken to succeed.
\<close>

section \<open>Data\<close>

type_synonym MALReg = u32
type_synonym MALBlockId = u32
type_synonym MALInstrId = u32

abbreviation (input) MAL_INVALID_REG :: MALReg where "MAL_INVALID_REG \<equiv> - 1"
abbreviation (input) MAL_INVALID_BLOCK :: MALBlockId where "MAL_INVALID_BLOCK \<equiv> - 1"
abbreviation (input) MAL_INVALID_INST :: MALInstrId where "MAL_INVALID_INST \<equiv> - 1"

datatype MALType =
    MAL_TYPE_VOID | MAL_TYPE_I1 | MAL_TYPE_I8 | MAL_TYPE_I16 | MAL_TYPE_I32 | MAL_TYPE_I64
  | MAL_TYPE_F32 | MAL_TYPE_F64 | MAL_TYPE_PTR | MAL_TYPE_VEC

text \<open>The opcodes are the values of the C enumeration, in its order.\<close>

type_synonym MALOpcode = nat

abbreviation (input) MAL_OP_NOP :: MALOpcode where "MAL_OP_NOP \<equiv> 0"
abbreviation (input) MAL_OP_COPY :: MALOpcode where "MAL_OP_COPY \<equiv> 1"
abbreviation (input) MAL_OP_LOAD :: MALOpcode where "MAL_OP_LOAD \<equiv> 2"
abbreviation (input) MAL_OP_STORE :: MALOpcode where "MAL_OP_STORE \<equiv> 3"
abbreviation (input) MAL_OP_LOAD_IMM :: MALOpcode where "MAL_OP_LOAD_IMM \<equiv> 4"
abbreviation (input) MAL_OP_MEMCPY :: MALOpcode where "MAL_OP_MEMCPY \<equiv> 5"
abbreviation (input) MAL_OP_MEMSET :: MALOpcode where "MAL_OP_MEMSET \<equiv> 6"
abbreviation (input) MAL_OP_ADD :: MALOpcode where "MAL_OP_ADD \<equiv> 7"
abbreviation (input) MAL_OP_SUB :: MALOpcode where "MAL_OP_SUB \<equiv> 8"
abbreviation (input) MAL_OP_MUL :: MALOpcode where "MAL_OP_MUL \<equiv> 9"
abbreviation (input) MAL_OP_UDIV :: MALOpcode where "MAL_OP_UDIV \<equiv> 10"
abbreviation (input) MAL_OP_SDIV :: MALOpcode where "MAL_OP_SDIV \<equiv> 11"
abbreviation (input) MAL_OP_UREM :: MALOpcode where "MAL_OP_UREM \<equiv> 12"
abbreviation (input) MAL_OP_SREM :: MALOpcode where "MAL_OP_SREM \<equiv> 13"
abbreviation (input) MAL_OP_NEG :: MALOpcode where "MAL_OP_NEG \<equiv> 14"
abbreviation (input) MAL_OP_INC :: MALOpcode where "MAL_OP_INC \<equiv> 15"
abbreviation (input) MAL_OP_DEC :: MALOpcode where "MAL_OP_DEC \<equiv> 16"
abbreviation (input) MAL_OP_AND :: MALOpcode where "MAL_OP_AND \<equiv> 17"
abbreviation (input) MAL_OP_OR :: MALOpcode where "MAL_OP_OR \<equiv> 18"
abbreviation (input) MAL_OP_XOR :: MALOpcode where "MAL_OP_XOR \<equiv> 19"
abbreviation (input) MAL_OP_NOT :: MALOpcode where "MAL_OP_NOT \<equiv> 20"
abbreviation (input) MAL_OP_SHL :: MALOpcode where "MAL_OP_SHL \<equiv> 21"
abbreviation (input) MAL_OP_LSHR :: MALOpcode where "MAL_OP_LSHR \<equiv> 22"
abbreviation (input) MAL_OP_ASHR :: MALOpcode where "MAL_OP_ASHR \<equiv> 23"
abbreviation (input) MAL_OP_ROTL :: MALOpcode where "MAL_OP_ROTL \<equiv> 24"
abbreviation (input) MAL_OP_ROTR :: MALOpcode where "MAL_OP_ROTR \<equiv> 25"
abbreviation (input) MAL_OP_FADD :: MALOpcode where "MAL_OP_FADD \<equiv> 26"
abbreviation (input) MAL_OP_FSUB :: MALOpcode where "MAL_OP_FSUB \<equiv> 27"
abbreviation (input) MAL_OP_FMUL :: MALOpcode where "MAL_OP_FMUL \<equiv> 28"
abbreviation (input) MAL_OP_FDIV :: MALOpcode where "MAL_OP_FDIV \<equiv> 29"
abbreviation (input) MAL_OP_FREM :: MALOpcode where "MAL_OP_FREM \<equiv> 30"
abbreviation (input) MAL_OP_FNEG :: MALOpcode where "MAL_OP_FNEG \<equiv> 31"
abbreviation (input) MAL_OP_FABS :: MALOpcode where "MAL_OP_FABS \<equiv> 32"
abbreviation (input) MAL_OP_FSQRT :: MALOpcode where "MAL_OP_FSQRT \<equiv> 33"
abbreviation (input) MAL_OP_FMA :: MALOpcode where "MAL_OP_FMA \<equiv> 34"
abbreviation (input) MAL_OP_ICMP_EQ :: MALOpcode where "MAL_OP_ICMP_EQ \<equiv> 35"
abbreviation (input) MAL_OP_ICMP_NE :: MALOpcode where "MAL_OP_ICMP_NE \<equiv> 36"
abbreviation (input) MAL_OP_ICMP_SLT :: MALOpcode where "MAL_OP_ICMP_SLT \<equiv> 37"
abbreviation (input) MAL_OP_ICMP_SLE :: MALOpcode where "MAL_OP_ICMP_SLE \<equiv> 38"
abbreviation (input) MAL_OP_ICMP_SGT :: MALOpcode where "MAL_OP_ICMP_SGT \<equiv> 39"
abbreviation (input) MAL_OP_ICMP_SGE :: MALOpcode where "MAL_OP_ICMP_SGE \<equiv> 40"
abbreviation (input) MAL_OP_ICMP_ULT :: MALOpcode where "MAL_OP_ICMP_ULT \<equiv> 41"
abbreviation (input) MAL_OP_ICMP_ULE :: MALOpcode where "MAL_OP_ICMP_ULE \<equiv> 42"
abbreviation (input) MAL_OP_ICMP_UGT :: MALOpcode where "MAL_OP_ICMP_UGT \<equiv> 43"
abbreviation (input) MAL_OP_ICMP_UGE :: MALOpcode where "MAL_OP_ICMP_UGE \<equiv> 44"
abbreviation (input) MAL_OP_FCMP_OEQ :: MALOpcode where "MAL_OP_FCMP_OEQ \<equiv> 45"
abbreviation (input) MAL_OP_FCMP_ONE :: MALOpcode where "MAL_OP_FCMP_ONE \<equiv> 46"
abbreviation (input) MAL_OP_FCMP_OLT :: MALOpcode where "MAL_OP_FCMP_OLT \<equiv> 47"
abbreviation (input) MAL_OP_FCMP_OLE :: MALOpcode where "MAL_OP_FCMP_OLE \<equiv> 48"
abbreviation (input) MAL_OP_FCMP_OGT :: MALOpcode where "MAL_OP_FCMP_OGT \<equiv> 49"
abbreviation (input) MAL_OP_FCMP_OGE :: MALOpcode where "MAL_OP_FCMP_OGE \<equiv> 50"
abbreviation (input) MAL_OP_FCMP_UEQ :: MALOpcode where "MAL_OP_FCMP_UEQ \<equiv> 51"
abbreviation (input) MAL_OP_FCMP_UNE :: MALOpcode where "MAL_OP_FCMP_UNE \<equiv> 52"
abbreviation (input) MAL_OP_BR :: MALOpcode where "MAL_OP_BR \<equiv> 53"
abbreviation (input) MAL_OP_CBR :: MALOpcode where "MAL_OP_CBR \<equiv> 54"
abbreviation (input) MAL_OP_SWITCH :: MALOpcode where "MAL_OP_SWITCH \<equiv> 55"
abbreviation (input) MAL_OP_RET :: MALOpcode where "MAL_OP_RET \<equiv> 56"
abbreviation (input) MAL_OP_UNREACHABLE :: MALOpcode where "MAL_OP_UNREACHABLE \<equiv> 57"
abbreviation (input) MAL_OP_PHI :: MALOpcode where "MAL_OP_PHI \<equiv> 58"
abbreviation (input) MAL_OP_SELECT :: MALOpcode where "MAL_OP_SELECT \<equiv> 59"
abbreviation (input) MAL_OP_INLINE_CALL :: MALOpcode where "MAL_OP_INLINE_CALL \<equiv> 60"
abbreviation (input) MAL_OP_CALL :: MALOpcode where "MAL_OP_CALL \<equiv> 61"
abbreviation (input) MAL_OP_TAILCALL :: MALOpcode where "MAL_OP_TAILCALL \<equiv> 62"
abbreviation (input) MAL_OP_ZEXT :: MALOpcode where "MAL_OP_ZEXT \<equiv> 63"
abbreviation (input) MAL_OP_SEXT :: MALOpcode where "MAL_OP_SEXT \<equiv> 64"
abbreviation (input) MAL_OP_TRUNC :: MALOpcode where "MAL_OP_TRUNC \<equiv> 65"
abbreviation (input) MAL_OP_FEXT :: MALOpcode where "MAL_OP_FEXT \<equiv> 66"
abbreviation (input) MAL_OP_FTRUNC :: MALOpcode where "MAL_OP_FTRUNC \<equiv> 67"
abbreviation (input) MAL_OP_BITCAST :: MALOpcode where "MAL_OP_BITCAST \<equiv> 68"
abbreviation (input) MAL_OP_PTRCAST :: MALOpcode where "MAL_OP_PTRCAST \<equiv> 69"
abbreviation (input) MAL_OP_INTTOPTR :: MALOpcode where "MAL_OP_INTTOPTR \<equiv> 70"
abbreviation (input) MAL_OP_PTRTOINT :: MALOpcode where "MAL_OP_PTRTOINT \<equiv> 71"
abbreviation (input) MAL_OP_SITOFP :: MALOpcode where "MAL_OP_SITOFP \<equiv> 72"
abbreviation (input) MAL_OP_UITOFP :: MALOpcode where "MAL_OP_UITOFP \<equiv> 73"
abbreviation (input) MAL_OP_FPTOSI :: MALOpcode where "MAL_OP_FPTOSI \<equiv> 74"
abbreviation (input) MAL_OP_FPTOUI :: MALOpcode where "MAL_OP_FPTOUI \<equiv> 75"
abbreviation (input) MAL_OP_ALLOCA :: MALOpcode where "MAL_OP_ALLOCA \<equiv> 76"
abbreviation (input) MAL_OP_STACKSAVE :: MALOpcode where "MAL_OP_STACKSAVE \<equiv> 77"
abbreviation (input) MAL_OP_STACKRESTORE :: MALOpcode where "MAL_OP_STACKRESTORE \<equiv> 78"
abbreviation (input) MAL_OP_ATOMIC_LOAD :: MALOpcode where "MAL_OP_ATOMIC_LOAD \<equiv> 79"
abbreviation (input) MAL_OP_ATOMIC_STORE :: MALOpcode where "MAL_OP_ATOMIC_STORE \<equiv> 80"
abbreviation (input) MAL_OP_ATOMIC_RMW :: MALOpcode where "MAL_OP_ATOMIC_RMW \<equiv> 81"
abbreviation (input) MAL_OP_ATOMIC_CAS :: MALOpcode where "MAL_OP_ATOMIC_CAS \<equiv> 82"
abbreviation (input) MAL_OP_VADD :: MALOpcode where "MAL_OP_VADD \<equiv> 83"
abbreviation (input) MAL_OP_VSUB :: MALOpcode where "MAL_OP_VSUB \<equiv> 84"
abbreviation (input) MAL_OP_VMUL :: MALOpcode where "MAL_OP_VMUL \<equiv> 85"
abbreviation (input) MAL_OP_VDIV :: MALOpcode where "MAL_OP_VDIV \<equiv> 86"
abbreviation (input) MAL_OP_VSHUFFLE :: MALOpcode where "MAL_OP_VSHUFFLE \<equiv> 87"
abbreviation (input) MAL_OP_VEXTRACT :: MALOpcode where "MAL_OP_VEXTRACT \<equiv> 88"
abbreviation (input) MAL_OP_VINSERT :: MALOpcode where "MAL_OP_VINSERT \<equiv> 89"
abbreviation (input) MAL_OP_VBROADCAST :: MALOpcode where "MAL_OP_VBROADCAST \<equiv> 90"
abbreviation (input) MAL_OP_TARGET :: MALOpcode where "MAL_OP_TARGET \<equiv> 91"

text \<open>
  The operand union: its tag is the constructor. A \<^verbatim>\<open>double\<close> is given by its bits, an
  \<^verbatim>\<open>int64_t\<close> by its word, a name that may be null by an option.
\<close>

datatype MALOperand =
    MAL_OPND_REG MALType MALReg
  | MAL_OPND_IMM_INT MALType u64
  | MAL_OPND_IMM_FLOAT MALType u64
  | MAL_OPND_BLOCK MALType MALBlockId
  | MAL_OPND_GLOBAL MALType "string option"
  | MAL_OPND_FUNC MALType "string option"
  | MAL_OPND_TYPE MALType MALType
  | MAL_OPND_VECDESC MALType MALType u32

record MALInst =
  mi_id :: MALInstrId
  mi_opcode :: MALOpcode
  mi_type :: MALType
  mi_dst :: MALReg
  mi_operands :: "MALOperand list"

record MALBlock =
  mb_id :: MALBlockId
  mb_name :: string
  mb_insts :: "MALInst list"
  mb_preds :: "MALBlockId list"
  mb_succs :: "MALBlockId list"
  mb_domParent :: u32
  mb_domChildren :: "MALBlockId list"
  mb_liveIn :: bytes
  mb_liveOut :: bytes

record MALFunction =
  mf_name :: string
  mf_retType :: MALType
  mf_paramTypes :: "MALType list"
  mf_blocks :: "MALBlock list"
  mf_nextSSAReg :: MALReg

text \<open>The type variable is the type of the machine description the module points to.\<close>

record 'mach MALModule =
  mm_functions :: "MALFunction list"
  mm_targetTriple :: string
  mm_mdsMachine :: "'mach option"

section \<open>Constructors and editors\<close>

definition mal_module_create :: "string option \<Rightarrow> 'mach MALModule" where
  "mal_module_create triple =
     \<lparr>mm_functions = [], mm_targetTriple = (case triple of None \<Rightarrow> ''unknown'' | Some t \<Rightarrow> t),
      mm_mdsMachine = None\<rparr>"

text \<open>The new function is the last one of the module; the pointer returned is its position.\<close>

definition mal_function_create ::
  "'mach MALModule \<Rightarrow> string option \<Rightarrow> MALType \<Rightarrow> nat \<times> 'mach MALModule" where
  "mal_function_create m nm retType =
     (length (mm_functions m),
      m\<lparr>mm_functions := mm_functions m @
          [\<lparr>mf_name = (case nm of None \<Rightarrow> ''anonymous'' | Some n \<Rightarrow> n), mf_retType = retType,
            mf_paramTypes = [], mf_blocks = [], mf_nextSSAReg = 0\<rparr>]\<rparr>)"

definition mal_block_create :: "MALFunction \<Rightarrow> string option \<Rightarrow> nat \<times> MALFunction" where
  "mal_block_create fn nm =
     (length (mf_blocks fn),
      fn\<lparr>mf_blocks := mf_blocks fn @
           [\<lparr>mb_id = of_nat (length (mf_blocks fn)),
             mb_name = (case nm of None \<Rightarrow> ''block'' | Some n \<Rightarrow> n), mb_insts = [],
             mb_preds = [], mb_succs = [], mb_domParent = 0, mb_domChildren = [],
             mb_liveIn = [], mb_liveOut = []\<rparr>]\<rparr>)"

definition mal_new_reg :: "MALFunction \<Rightarrow> MALReg \<times> MALFunction" where
  "mal_new_reg fn = (mf_nextSSAReg fn, fn\<lparr>mf_nextSSAReg := mf_nextSSAReg fn + 1\<rparr>)"

definition mal_inst_create :: "MALOpcode \<Rightarrow> MALType \<Rightarrow> MALReg \<Rightarrow> MALInst" where
  "mal_inst_create opc ty dst =
     \<lparr>mi_id = MAL_INVALID_INST, mi_opcode = opc, mi_type = ty, mi_dst = dst, mi_operands = []\<rparr>"

definition mal_inst_add_operand :: "MALInst \<Rightarrow> MALOperand \<Rightarrow> MALInst" where
  "mal_inst_add_operand inst opd = inst\<lparr>mi_operands := mi_operands inst @ [opd]\<rparr>"

definition mal_block_insert_end :: "MALBlock \<Rightarrow> MALInst \<Rightarrow> MALBlock" where
  "mal_block_insert_end b inst = b\<lparr>mb_insts := mb_insts b @ [inst]\<rparr>"

text \<open>An instruction of a block is named by its position.\<close>

definition mal_inst_remove :: "MALBlock \<Rightarrow> nat \<Rightarrow> MALBlock" where
  "mal_inst_remove b i = b\<lparr>mb_insts := take i (mb_insts b) @ drop (Suc i) (mb_insts b)\<rparr>"

definition mal_emit_phi :: "MALBlock \<Rightarrow> MALType \<Rightarrow> MALBlock" where
  "mal_emit_phi b ty = mal_block_insert_end b (mal_inst_create MAL_OP_PHI ty MAL_INVALID_REG)"

definition mal_inst_is_terminator :: "MALInst \<Rightarrow> bool" where
  "mal_inst_is_terminator inst =
     (mi_opcode inst = MAL_OP_BR \<or> mi_opcode inst = MAL_OP_CBR \<or> mi_opcode inst = MAL_OP_SWITCH
      \<or> mi_opcode inst = MAL_OP_RET \<or> mi_opcode inst = MAL_OP_UNREACHABLE)"

section \<open>Operands\<close>

definition mal_operand_reg :: "MALReg \<Rightarrow> MALType \<Rightarrow> MALOperand" where
  "mal_operand_reg reg ty = MAL_OPND_REG ty reg"

definition mal_operand_imm_int :: "u64 \<Rightarrow> MALType \<Rightarrow> MALOperand" where
  "mal_operand_imm_int v ty = MAL_OPND_IMM_INT ty v"

definition mal_operand_imm_float :: "u64 \<Rightarrow> MALType \<Rightarrow> MALOperand" where
  "mal_operand_imm_float v ty = MAL_OPND_IMM_FLOAT ty v"

definition mal_operand_block :: "MALBlockId \<Rightarrow> MALOperand" where
  "mal_operand_block block = MAL_OPND_BLOCK MAL_TYPE_VOID block"

definition mal_operand_equal :: "MALOperand \<Rightarrow> MALOperand \<Rightarrow> bool" where
  "mal_operand_equal lhs rhs =
     (case lhs of
        MAL_OPND_REG t a \<Rightarrow> (case rhs of MAL_OPND_REG u b \<Rightarrow> t = u \<and> a = b | _ \<Rightarrow> False)
      | MAL_OPND_IMM_INT t a \<Rightarrow> (case rhs of MAL_OPND_IMM_INT u b \<Rightarrow> t = u \<and> a = b | _ \<Rightarrow> False)
      | MAL_OPND_IMM_FLOAT t a \<Rightarrow>
          (case rhs of MAL_OPND_IMM_FLOAT u b \<Rightarrow> t = u \<and> double_eq a b | _ \<Rightarrow> False)
      | MAL_OPND_BLOCK t a \<Rightarrow> (case rhs of MAL_OPND_BLOCK u b \<Rightarrow> t = u \<and> a = b | _ \<Rightarrow> False)
      | MAL_OPND_GLOBAL t a \<Rightarrow>
          (case rhs of MAL_OPND_GLOBAL u b \<Rightarrow> t = u \<and> a \<noteq> None \<and> a = b | _ \<Rightarrow> False)
      | MAL_OPND_FUNC t a \<Rightarrow>
          (case rhs of MAL_OPND_FUNC u b \<Rightarrow> t = u \<and> a \<noteq> None \<and> a = b | _ \<Rightarrow> False)
      | MAL_OPND_TYPE t a \<Rightarrow> (case rhs of MAL_OPND_TYPE u b \<Rightarrow> t = u \<and> a = b | _ \<Rightarrow> False)
      | MAL_OPND_VECDESC t a m \<Rightarrow>
          (case rhs of MAL_OPND_VECDESC u b n \<Rightarrow> t = u \<and> a = b \<and> m = n | _ \<Rightarrow> False))"

fun mal_operand_is_zero :: "MALOperand \<Rightarrow> bool" where
  "mal_operand_is_zero (MAL_OPND_IMM_INT _ v) = (v = 0)"
| "mal_operand_is_zero (MAL_OPND_IMM_FLOAT _ v) = double_eq v 0"
| "mal_operand_is_zero _ = False"

fun mal_operand_is_one :: "MALOperand \<Rightarrow> bool" where
  "mal_operand_is_one (MAL_OPND_IMM_INT _ v) = (v = 1)"
| "mal_operand_is_one (MAL_OPND_IMM_FLOAT _ v) = double_eq v 0x3FF0000000000000"
| "mal_operand_is_one _ = False"

section \<open>Names\<close>

definition mal_type_name :: "MALType \<Rightarrow> string" where
  "mal_type_name ty =
     (case ty of
        MAL_TYPE_VOID \<Rightarrow> ''void'' | MAL_TYPE_I1 \<Rightarrow> ''i1'' | MAL_TYPE_I8 \<Rightarrow> ''i8''
      | MAL_TYPE_I16 \<Rightarrow> ''i16'' | MAL_TYPE_I32 \<Rightarrow> ''i32'' | MAL_TYPE_I64 \<Rightarrow> ''i64''
      | MAL_TYPE_F32 \<Rightarrow> ''f32'' | MAL_TYPE_F64 \<Rightarrow> ''f64'' | MAL_TYPE_PTR \<Rightarrow> ''ptr''
      | MAL_TYPE_VEC \<Rightarrow> ''vec'')"

definition mal_opcode_names :: "(MALOpcode \<times> string) list" where
  "mal_opcode_names =
     [(MAL_OP_NOP, ''nop''),
      (MAL_OP_COPY, ''copy''),
      (MAL_OP_LOAD, ''load''),
      (MAL_OP_STORE, ''store''),
      (MAL_OP_LOAD_IMM, ''load_imm''),
      (MAL_OP_ADD, ''add''),
      (MAL_OP_SUB, ''sub''),
      (MAL_OP_MUL, ''mul''),
      (MAL_OP_SDIV, ''sdiv''),
      (MAL_OP_SREM, ''srem''),
      (MAL_OP_NEG, ''neg''),
      (MAL_OP_AND, ''and''),
      (MAL_OP_OR, ''or''),
      (MAL_OP_XOR, ''xor''),
      (MAL_OP_NOT, ''not''),
      (MAL_OP_SHL, ''shl''),
      (MAL_OP_ASHR, ''ashr''),
      (MAL_OP_FADD, ''fadd''),
      (MAL_OP_FSUB, ''fsub''),
      (MAL_OP_FMUL, ''fmul''),
      (MAL_OP_FDIV, ''fdiv''),
      (MAL_OP_FNEG, ''fneg''),
      (MAL_OP_FABS, ''fabs''),
      (MAL_OP_ICMP_EQ, ''icmp_eq''),
      (MAL_OP_ICMP_NE, ''icmp_ne''),
      (MAL_OP_ICMP_SLT, ''icmp_slt''),
      (MAL_OP_ICMP_SLE, ''icmp_sle''),
      (MAL_OP_ICMP_SGT, ''icmp_sgt''),
      (MAL_OP_ICMP_SGE, ''icmp_sge''),
      (MAL_OP_BR, ''br''),
      (MAL_OP_CBR, ''cbr''),
      (MAL_OP_RET, ''ret''),
      (MAL_OP_PHI, ''phi''),
      (MAL_OP_SELECT, ''select''),
      (MAL_OP_SEXT, ''sext''),
      (MAL_OP_BITCAST, ''bitcast''),
      (MAL_OP_TARGET, ''target'')]"

definition mal_opcode_name :: "MALOpcode \<Rightarrow> string" where
  "mal_opcode_name opcode =
     (case map_of mal_opcode_names opcode of Some nm \<Rightarrow> nm | None \<Rightarrow> ''op'')"

section \<open>Facts\<close>

text \<open>On everything but floats and null names the comparison is equality.\<close>

fun plain_operand :: "MALOperand \<Rightarrow> bool" where
  "plain_operand (MAL_OPND_IMM_FLOAT _ v) = (\<not> double_is_nan v \<and> \<not> double_is_zero v)"
| "plain_operand (MAL_OPND_GLOBAL _ s) = (s \<noteq> None)"
| "plain_operand (MAL_OPND_FUNC _ s) = (s \<noteq> None)"
| "plain_operand _ = True"

lemma mal_operand_equal_plain: "plain_operand a \<Longrightarrow> mal_operand_equal a b \<longleftrightarrow> a = b"
  by (cases a; cases b) (auto simp: mal_operand_equal_def double_eq_def)

lemma mal_operand_equal_sym: "mal_operand_equal a b \<Longrightarrow> mal_operand_equal b a"
  by (cases a; cases b) (auto simp: mal_operand_equal_def dest: double_eq_sym)

fun operand_reg :: "MALOperand \<Rightarrow> MALReg option" where
  "operand_reg (MAL_OPND_REG _ r) = Some r"
| "operand_reg _ = None"

lemma mal_operand_equal_reg: "mal_operand_equal a b \<Longrightarrow> operand_reg a = operand_reg b"
  by (cases a; cases b) (auto simp: mal_operand_equal_def)

end
