(* ===== verification/Mal_Analysis.thy ===== *)
theory Mal_Analysis
  imports Mal_Ir
begin

text \<open>
  The analyses of \<^verbatim>\<open>mal/mal_validate.c\<close>: the control-flow graph, the dominator links, the
  liveness buffers and the SSA verifier. A block pointer is a position in the function's
  block list.
\<close>

section \<open>Control flow\<close>

definition mal_block_by_id :: "MALBlock list \<Rightarrow> MALBlockId \<Rightarrow> nat option" where
  "mal_block_by_id bs i = find (\<lambda>k. mb_id (bs ! k) = i) [0..<length bs]"

definition mal_block_add_edge :: "MALBlock list \<Rightarrow> nat \<Rightarrow> nat option \<Rightarrow> MALBlock list" where
  "mal_block_add_edge bs from dest =
     (case dest of None \<Rightarrow> bs
      | Some t \<Rightarrow>
          let bs1 = bs[from := (bs ! from)\<lparr>mb_succs := mb_succs (bs ! from) @ [mb_id (bs ! t)]\<rparr>]
          in bs1[t := (bs1 ! t)\<lparr>mb_preds := mb_preds (bs1 ! t) @ [mb_id (bs1 ! from)]\<rparr>])"

text \<open>
  Reading the member \<^verbatim>\<open>block\<close> of the operand union whatever its tag: the low four bytes of
  what is stored. \<open>addr\<close> gives the address at which a name is stored.
\<close>

definition mal_type_code :: "MALType \<Rightarrow> u32" where
  "mal_type_code ty = (case ty of
     MAL_TYPE_VOID \<Rightarrow> 0 | MAL_TYPE_I1 \<Rightarrow> 1 | MAL_TYPE_I8 \<Rightarrow> 2 | MAL_TYPE_I16 \<Rightarrow> 3 | MAL_TYPE_I32 \<Rightarrow> 4
   | MAL_TYPE_I64 \<Rightarrow> 5 | MAL_TYPE_F32 \<Rightarrow> 6 | MAL_TYPE_F64 \<Rightarrow> 7 | MAL_TYPE_PTR \<Rightarrow> 8 | MAL_TYPE_VEC \<Rightarrow> 9)"

definition operand_block_member :: "(string \<Rightarrow> u64) \<Rightarrow> MALOperand \<Rightarrow> u32" where
  "operand_block_member addr opd = (case opd of
     MAL_OPND_REG _ r \<Rightarrow> r | MAL_OPND_IMM_INT _ v \<Rightarrow> ucast v | MAL_OPND_IMM_FLOAT _ v \<Rightarrow> ucast v
   | MAL_OPND_BLOCK _ b \<Rightarrow> b
   | MAL_OPND_GLOBAL _ s \<Rightarrow> (case s of None \<Rightarrow> 0 | Some n \<Rightarrow> ucast (addr n))
   | MAL_OPND_FUNC _ s \<Rightarrow> (case s of None \<Rightarrow> 0 | Some n \<Rightarrow> ucast (addr n))
   | MAL_OPND_TYPE _ t \<Rightarrow> mal_type_code t | MAL_OPND_VECDESC _ t _ \<Rightarrow> mal_type_code t)"

definition operand_is_block :: "MALOperand \<Rightarrow> bool" where
  "operand_is_block opd = (case opd of MAL_OPND_BLOCK _ _ \<Rightarrow> True | _ \<Rightarrow> False)"

text \<open>One iteration of the loop of \<open>mal_compute_cfg\<close>.\<close>

definition mal_cfg_visit :: "(string \<Rightarrow> u64) \<Rightarrow> MALBlock list \<Rightarrow> nat \<Rightarrow> MALBlock list" where
  "mal_cfg_visit addr bs i =
     (let bs1 = bs[i := (bs ! i)\<lparr>mb_preds := [], mb_succs := []\<rparr>] in
      if mb_insts (bs ! i) = [] then bs1
      else let term = last (mb_insts (bs ! i)); ops = mi_operands term in
        if mi_opcode term = MAL_OP_BR \<and> 1 \<le> length ops \<and> operand_is_block (ops ! 0)
        then mal_block_add_edge bs1 i (mal_block_by_id bs1 (operand_block_member addr (ops ! 0)))
        else if mi_opcode term = MAL_OP_CBR \<and> 3 \<le> length ops
        then let bs2 = mal_block_add_edge bs1 i
                         (mal_block_by_id bs1 (operand_block_member addr (ops ! 1)))
             in mal_block_add_edge bs2 i
                  (mal_block_by_id bs2 (operand_block_member addr (ops ! 2)))
        else if \<not> mal_inst_is_terminator term \<and> Suc i < length bs
        then mal_block_add_edge bs1 i (Some (Suc i))
        else bs1)"

definition mal_compute_cfg :: "(string \<Rightarrow> u64) \<Rightarrow> MALFunction \<Rightarrow> MALFunction" where
  "mal_compute_cfg addr fn =
     fn\<lparr>mf_blocks := foldl (mal_cfg_visit addr) (mf_blocks fn) [0..<length (mf_blocks fn)]\<rparr>"

section \<open>Dominators and liveness\<close>

definition mal_dom_visit :: "MALBlock list \<times> nat option \<Rightarrow> nat \<Rightarrow> MALBlock list \<times> nat option" where
  "mal_dom_visit st i = (case st of (bs, prev) \<Rightarrow>
     let bs1 = bs[i := (bs ! i)\<lparr>mb_domChildren := [],
                    mb_domParent := (case prev of None \<Rightarrow> MAL_INVALID_BLOCK | Some p \<Rightarrow> mb_id (bs ! p))\<rparr>]
     in (case prev of None \<Rightarrow> bs1
         | Some p \<Rightarrow> bs1[p := (bs1 ! p)\<lparr>mb_domChildren := mb_domChildren (bs1 ! p) @ [mb_id (bs1 ! i)]\<rparr>],
         Some i))"

definition mal_compute_dominators :: "MALFunction \<Rightarrow> MALFunction" where
  "mal_compute_dominators fn =
     fn\<lparr>mf_blocks := fst (foldl mal_dom_visit (mf_blocks fn, None) [0..<length (mf_blocks fn)])\<rparr>"

definition mal_compute_liveness :: "MALFunction \<Rightarrow> MALFunction" where
  "mal_compute_liveness fn =
     (let buf = replicate (unat (mf_nextSSAReg fn)) 0 in
      fn\<lparr>mf_blocks := map (\<lambda>b. b\<lparr>mb_liveIn := buf, mb_liveOut := buf\<rparr>) (mf_blocks fn)\<rparr>)"

section \<open>The SSA verifier\<close>

fun mal_verify_operands :: "u32 \<Rightarrow> bool list \<Rightarrow> MALOperand list \<Rightarrow> bool" where
  "mal_verify_operands next defined [] = True"
| "mal_verify_operands next defined (opd # ops) =
     (case opd of
        MAL_OPND_REG _ r \<Rightarrow> if next \<le> r \<or> \<not> defined ! unat r then False
                            else mal_verify_operands next defined ops
      | _ \<Rightarrow> mal_verify_operands next defined ops)"

fun mal_verify_insts :: "u32 \<Rightarrow> bool list \<Rightarrow> MALInst list \<Rightarrow> bool list option" where
  "mal_verify_insts next defined [] = Some defined"
| "mal_verify_insts next defined (inst # insts) =
     (if \<not> mal_verify_operands next defined (mi_operands inst) then None
      else if mi_dst inst \<noteq> MAL_INVALID_REG then
        (if next \<le> mi_dst inst \<or> defined ! unat (mi_dst inst) then None
         else mal_verify_insts next (defined[unat (mi_dst inst) := True]) insts)
      else mal_verify_insts next defined insts)"

fun mal_verify_blocks :: "u32 \<Rightarrow> bool list \<Rightarrow> MALBlock list \<Rightarrow> bool" where
  "mal_verify_blocks next defined [] = True"
| "mal_verify_blocks next defined (b # bs) =
     (case mal_verify_insts next defined (mb_insts b) of
        None \<Rightarrow> False | Some defined' \<Rightarrow> mal_verify_blocks next defined' bs)"

definition mal_verify_ssa :: "MALFunction \<Rightarrow> bool" where
  "mal_verify_ssa fn =
     (let n = unat (mf_nextSSAReg fn);
          defined = map (\<lambda>r. r < length (mf_paramTypes fn) \<and> r < n) [0..<max 1 n]
      in mal_verify_blocks (mf_nextSSAReg fn) defined (mf_blocks fn))"

section \<open>The verifier decides single assignment\<close>

definition inst_uses :: "MALInst \<Rightarrow> MALReg set" where
  "inst_uses inst = {r. Some r \<in> operand_reg ` set (mi_operands inst)}"

text \<open>
  What SSA form asks of a sequence of instructions whose registers in \<open>S\<close> are defined before it:
  every operand register is allocated and defined before, and every result register is
  allocated and not defined before.
\<close>

definition ssa_form :: "u32 \<Rightarrow> MALReg set \<Rightarrow> MALInst list \<Rightarrow> bool" where
  "ssa_form next S insts \<longleftrightarrow>
     (\<forall>k<length insts.
        (\<forall>r\<in>inst_uses (insts ! k). r < next \<and> (r \<in> S \<or> (\<exists>j<k. mi_dst (insts ! j) = r)))
        \<and> (mi_dst (insts ! k) \<noteq> MAL_INVALID_REG \<longrightarrow>
             mi_dst (insts ! k) < next \<and> mi_dst (insts ! k) \<notin> S
             \<and> (\<forall>j<k. mi_dst (insts ! j) \<noteq> mi_dst (insts ! k))))"

definition inst_defs :: "MALInst \<Rightarrow> MALReg set" where
  "inst_defs inst = (if mi_dst inst = MAL_INVALID_REG then {} else {mi_dst inst})"

lemma less_next_valid: "(r :: u32) < n \<Longrightarrow> r \<noteq> - 1"
  by (metis word_not_simps(3))

lemma ssa_form_Nil [simp]: "ssa_form next S []"
  by (simp add: ssa_form_def)

lemma ssa_form_Cons [simp]:
  "ssa_form next S (inst # insts) \<longleftrightarrow>
     (\<forall>r\<in>inst_uses inst. r < next \<and> r \<in> S)
     \<and> (\<forall>r\<in>inst_defs inst. r < next \<and> r \<notin> S)
     \<and> ssa_form next (S \<union> inst_defs inst) insts"
  unfolding ssa_form_def length_Cons All_less_Suc2 Ex_less_Suc2 nth_Cons_0 nth_Cons_Suc inst_defs_def
  using less_next_valid by (auto; metis)

lemma ssa_form_append:
  "ssa_form next S (xs @ ys) \<longleftrightarrow>
     ssa_form next S xs \<and> ssa_form next (S \<union> (\<Union>i\<in>set xs. inst_defs i)) ys"
  by (induction xs arbitrary: S) (auto simp: Un_assoc)

text \<open>The array of the verifier as a set of registers.\<close>

definition defined_set :: "u32 \<Rightarrow> bool list \<Rightarrow> MALReg set" where
  "defined_set next defined = {r. r < next \<and> defined ! unat r}"

lemma mal_verify_operands_iff:
  "mal_verify_operands next defined ops \<longleftrightarrow>
     (\<forall>r. Some r \<in> operand_reg ` set ops \<longrightarrow> r < next \<and> r \<in> defined_set next defined)"
  by (induction ops) (auto simp: defined_set_def not_le split: MALOperand.splits)

lemma defined_set_update:
  assumes "r < next" and "unat next \<le> length defined"
  shows "defined_set next (defined[unat r := True]) = insert r (defined_set next defined)"
  using assms
  by (auto simp: defined_set_def nth_list_update word_less_nat_alt simp flip: word_unat_eq_iff)

lemma mal_verify_insts_spec:
  assumes "unat next \<le> length defined"
  shows "case mal_verify_insts next defined insts of
           None \<Rightarrow> \<not> ssa_form next (defined_set next defined) insts
         | Some d \<Rightarrow> ssa_form next (defined_set next defined) insts \<and> length d = length defined
             \<and> defined_set next d = defined_set next defined \<union> (\<Union>i\<in>set insts. inst_defs i)"
  using assms
proof (induction insts arbitrary: defined)
  case (Cons inst insts)
  have ops: "mal_verify_operands next defined (mi_operands inst) \<longleftrightarrow>
      (\<forall>r\<in>inst_uses inst. r < next \<and> r \<in> defined_set next defined)"
    by (auto simp: mal_verify_operands_iff inst_uses_def)
  let ?d = "defined[unat (mi_dst inst) := True]"
  have dst: "\<not> (next \<le> mi_dst inst \<or> defined ! unat (mi_dst inst)) \<longleftrightarrow>
      mi_dst inst < next \<and> mi_dst inst \<notin> defined_set next defined"
    by (auto simp: defined_set_def not_le)
  show ?case
    using Cons.IH [of defined] Cons.IH [of ?d] Cons.prems ops dst
      defined_set_update [of "mi_dst inst" "next" defined]
    by (auto simp: inst_defs_def split: option.splits)
qed simp

definition mal_insts :: "MALFunction \<Rightarrow> MALInst list" where
  "mal_insts fn = concat (map mb_insts (mf_blocks fn))"

lemma mal_verify_blocks_iff:
  assumes "unat next \<le> length defined"
  shows "mal_verify_blocks next defined bs \<longleftrightarrow>
    ssa_form next (defined_set next defined) (concat (map mb_insts bs))"
  using assms
proof (induction bs arbitrary: defined)
  case (Cons b bs)
  then show ?case
    using mal_verify_insts_spec [OF Cons.prems, of "mb_insts b"]
    by (auto simp: ssa_form_append split: option.splits)
qed simp

definition param_regs :: "MALFunction \<Rightarrow> MALReg set" where
  "param_regs fn = {r. r < mf_nextSSAReg fn \<and> unat r < length (mf_paramTypes fn)}"

lemma params_defined:
  "defined_set (mf_nextSSAReg fn)
     (map (\<lambda>r. r < length (mf_paramTypes fn) \<and> r < unat (mf_nextSSAReg fn))
        [0..<max 1 (unat (mf_nextSSAReg fn))]) = param_regs fn"
  by (auto simp: defined_set_def param_regs_def word_less_nat_alt less_max_iff_disj)

lemma verify_ssaI: "ssa_form (mf_nextSSAReg fn) (param_regs fn) (mal_insts fn) \<Longrightarrow> mal_verify_ssa fn"
  and verify_ssaD: "mal_verify_ssa fn \<Longrightarrow> ssa_form (mf_nextSSAReg fn) (param_regs fn) (mal_insts fn)"
  by (simp_all add: mal_verify_ssa_def Let_def mal_verify_blocks_iff mal_insts_def
      params_defined [unfolded One_nat_def])

text \<open>
  C12. \<^verbatim>\<open>mal_verify_ssa\<close> is equivalent to single assignment stated over the whole instruction
  sequence of the function: it returns 1 exactly when every register an instruction reads is
  allocated and is a parameter or the result of an earlier instruction, and every result
  register is allocated, no parameter and no earlier result.
\<close>

theorem mal_verify_ssa_iff:
  "mal_verify_ssa fn \<longleftrightarrow> ssa_form (mf_nextSSAReg fn) (param_regs fn) (mal_insts fn)"
  using verify_ssaI verify_ssaD by blast

section \<open>What the control-flow pass computes\<close>

text \<open>The blocks a block may continue with, read off its last instruction.\<close>

definition cfg_targets :: "(string \<Rightarrow> u64) \<Rightarrow> MALBlock list \<Rightarrow> nat \<Rightarrow> nat list" where
  "cfg_targets addr bs i =
     (if mb_insts (bs ! i) = [] then []
      else let term = last (mb_insts (bs ! i)); ops = mi_operands term;
               dest = (\<lambda>opd. case mal_block_by_id bs (operand_block_member addr opd) of
                              None \<Rightarrow> [] | Some t \<Rightarrow> [t])
           in if mi_opcode term = MAL_OP_BR \<and> 1 \<le> length ops \<and> operand_is_block (ops ! 0)
              then dest (ops ! 0)
              else if mi_opcode term = MAL_OP_CBR \<and> 3 \<le> length ops
              then dest (ops ! 1) @ dest (ops ! 2)
              else if \<not> mal_inst_is_terminator term \<and> Suc i < length bs then [Suc i] else [])"

text \<open>The edges that enter block \<open>j\<close> from block \<open>i\<close>, as the pass records them.\<close>

definition cfg_entries :: "(string \<Rightarrow> u64) \<Rightarrow> MALBlock list \<Rightarrow> nat \<Rightarrow> nat \<Rightarrow> MALBlockId list" where
  "cfg_entries addr bs j i = replicate (count_list (cfg_targets addr bs i) j) (mb_id (bs ! i))"

lemma find_upt_cong:
  "(\<And>k. k < n \<Longrightarrow> P k = Q k) \<Longrightarrow> find P [0..<n] = find Q [0..<n]"
  by (rule find_cong) auto

lemma mal_block_by_id_cong:
  assumes "map mb_id bs = map mb_id bs'"
  shows "mal_block_by_id bs = mal_block_by_id bs'"
proof
  fix i
  have l: "length bs = length bs'" using assms map_eq_imp_length_eq by blast
  moreover have "mb_id (bs ! k) = mb_id (bs' ! k)" if "k < length bs" for k
    using that assms l by (metis nth_map)
  ultimately show "mal_block_by_id bs i = mal_block_by_id bs' i"
    unfolding mal_block_by_id_def l [symmetric] by (intro find_upt_cong) auto
qed

lemma mal_block_by_id_less: "mal_block_by_id bs i = Some t \<Longrightarrow> t < length bs"
  by (auto simp: mal_block_by_id_def dest: find_SomeD)

lemma cfg_targets_less: "t \<in> set (cfg_targets addr bs i) \<Longrightarrow> t < length bs"
  by (auto simp: cfg_targets_def Let_def dest: mal_block_by_id_less sym [THEN mal_block_by_id_less]
      split: if_splits option.splits)

definition add_edges :: "MALBlock list \<Rightarrow> nat \<Rightarrow> nat list \<Rightarrow> MALBlock list" where
  "add_edges bs i ts = foldl (\<lambda>bs t. mal_block_add_edge bs i (Some t)) bs ts"

lemma nth_add_edge:
  assumes "i < length bs" and "t < length bs" and "j < length bs"
  shows "mal_block_add_edge bs i (Some t) ! j =
    (bs ! j)\<lparr>mb_succs := mb_succs (bs ! j) @ (if j = i then [mb_id (bs ! t)] else []),
             mb_preds := mb_preds (bs ! j) @ (if j = t then [mb_id (bs ! i)] else [])\<rparr>"
  using assms by (auto simp: mal_block_add_edge_def nth_list_update)

lemma length_add_edge [simp]: "length (mal_block_add_edge bs i d) = length bs"
  by (simp add: mal_block_add_edge_def Let_def split: option.splits)

lemma ids_add_edge:
  "i < length bs \<Longrightarrow> t < length bs \<Longrightarrow> map mb_id (mal_block_add_edge bs i (Some t)) = map mb_id bs"
  by (rule nth_equalityI) (auto simp: nth_add_edge)

lemma add_edges_spec:
  assumes "i < length bs" and "\<And>t. t \<in> set ts \<Longrightarrow> t < length bs"
  shows "length (add_edges bs i ts) = length bs \<and>
    (\<forall>j<length bs. add_edges bs i ts ! j =
      (bs ! j)\<lparr>mb_succs := mb_succs (bs ! j) @ (if j = i then map (\<lambda>t. mb_id (bs ! t)) ts else []),
               mb_preds := mb_preds (bs ! j) @ replicate (count_list ts j) (mb_id (bs ! i))\<rparr>)"
  using assms
proof (induction ts arbitrary: bs)
  case (Cons t ts)
  let ?bs = "mal_block_add_edge bs i (Some t)"
  have IH: "length (add_edges ?bs i ts) = length ?bs \<and>
    (\<forall>j<length ?bs. add_edges ?bs i ts ! j =
      (?bs ! j)\<lparr>mb_succs := mb_succs (?bs ! j) @ (if j = i then map (\<lambda>t. mb_id (?bs ! t)) ts else []),
               mb_preds := mb_preds (?bs ! j) @ replicate (count_list ts j) (mb_id (?bs ! i))\<rparr>)"
    by (rule Cons.IH) (use Cons.prems in auto)
  moreover have "map (\<lambda>t. mb_id (?bs ! t)) ts = map (\<lambda>t. mb_id (bs ! t)) ts"
    using Cons.prems by (auto simp: nth_add_edge)
  ultimately show ?case
    using Cons.prems by (auto simp: add_edges_def nth_add_edge replicate_app_Cons_same)
qed (auto simp: add_edges_def)

lemma mal_cfg_visit_eq:
  assumes "i < length bs"
  shows "mal_cfg_visit addr bs i =
    add_edges (bs[i := (bs ! i)\<lparr>mb_preds := [], mb_succs := []\<rparr>]) i (cfg_targets addr bs i)"
proof -
  let ?r = "bs[i := (bs ! i)\<lparr>mb_preds := [], mb_succs := []\<rparr>]"
  have ids: "map mb_id ?r = map mb_id bs"
    by (rule nth_equalityI) (use assms in \<open>auto simp: nth_list_update\<close>)
  have by_id: "mal_block_by_id ?r = mal_block_by_id bs" by (rule mal_block_by_id_cong [OF ids])
  have by_id2: "mal_block_by_id (mal_block_add_edge ?r i (mal_block_by_id bs x)) = mal_block_by_id bs" for x
  proof (cases "mal_block_by_id bs x")
    case None
    then show ?thesis by (simp add: mal_block_add_edge_def by_id)
  next
    case (Some t)
    with assms show ?thesis
      using mal_block_by_id_cong [OF ids_add_edge [of i ?r t]] mal_block_by_id_less [of bs x t] by_id
      by simp
  qed
  show ?thesis
    unfolding mal_cfg_visit_def cfg_targets_def Let_def by_id by_id2
    by (auto simp: add_edges_def mal_block_add_edge_def [of _ _ None] split: option.splits)
qed

text \<open>The blocks after the first \<open>k\<close> iterations.\<close>

definition cfg_after :: "(string \<Rightarrow> u64) \<Rightarrow> MALBlock list \<Rightarrow> nat \<Rightarrow> nat \<Rightarrow> MALBlock" where
  "cfg_after addr bs k j =
     (bs ! j)\<lparr>mb_succs := if j < k then map (\<lambda>t. mb_id (bs ! t)) (cfg_targets addr bs j)
                          else mb_succs (bs ! j),
              mb_preds := if j < k then concat (map (cfg_entries addr bs j) [j..<k])
                          else mb_preds (bs ! j) @ concat (map (cfg_entries addr bs j) [0..<k])\<rparr>"

lemma cfg_targets_cong:
  assumes "length bs' = length bs"
    and "\<And>j. j < length bs \<Longrightarrow> mb_id (bs' ! j) = mb_id (bs ! j) \<and> mb_insts (bs' ! j) = mb_insts (bs ! j)"
    and "i < length bs"
  shows "cfg_targets addr bs' i = cfg_targets addr bs i"
proof -
  have "map mb_id bs' = map mb_id bs" by (rule nth_equalityI) (use assms in auto)
  then have "mal_block_by_id bs' = mal_block_by_id bs" by (rule mal_block_by_id_cong)
  with assms show ?thesis by (simp add: cfg_targets_def Let_def)
qed

lemma cfg_loop:
  assumes "k \<le> length bs"
  shows "foldl (mal_cfg_visit addr) bs [0..<k] = map (cfg_after addr bs k) [0..<length bs]"
  using assms
proof (induction k)
  case 0
  then show ?case by (intro nth_equalityI) (auto simp: cfg_after_def)
next
  case (Suc k)
  let ?bs = "map (cfg_after addr bs k) [0..<length bs]"
  define r where "r = ?bs[k := (?bs ! k)\<lparr>mb_preds := [], mb_succs := []\<rparr>]"
  have len: "length r = length bs" by (simp add: r_def)
  have fields: "mb_id (?bs ! j) = mb_id (bs ! j) \<and> mb_insts (?bs ! j) = mb_insts (bs ! j)"
      "mb_id (r ! j) = mb_id (bs ! j)" if "j < length bs" for j
    using that Suc.prems by (auto simp: r_def cfg_after_def nth_list_update)
  have tg: "cfg_targets addr ?bs k = cfg_targets addr bs k"
    by (rule cfg_targets_cong) (use Suc.prems fields in auto)
  have spec: "length (add_edges r k (cfg_targets addr bs k)) = length r \<and>
    (\<forall>j<length r. add_edges r k (cfg_targets addr bs k) ! j =
      (r ! j)\<lparr>mb_succs := mb_succs (r ! j) @
                 (if j = k then map (\<lambda>t. mb_id (r ! t)) (cfg_targets addr bs k) else []),
               mb_preds := mb_preds (r ! j) @
                 replicate (count_list (cfg_targets addr bs k) j) (mb_id (r ! k))\<rparr>)"
    by (rule add_edges_spec) (use Suc.prems len in \<open>auto dest: cfg_targets_less\<close>)
  have tids: "map (\<lambda>t. mb_id (r ! t)) (cfg_targets addr bs k)
      = map (\<lambda>t. mb_id (bs ! t)) (cfg_targets addr bs k)"
    by (rule map_cong) (auto dest!: cfg_targets_less simp: fields)
  have visit: "mal_cfg_visit addr ?bs k = add_edges r k (cfg_targets addr bs k)"
    using Suc.prems by (simp add: mal_cfg_visit_eq tg r_def)
  have "mal_cfg_visit addr ?bs k = map (cfg_after addr bs (Suc k)) [0..<length bs]"
  proof (rule nth_equalityI)
    show "length (mal_cfg_visit addr ?bs k) = length (map (cfg_after addr bs (Suc k)) [0..<length bs])"
      using spec len by (simp add: visit)
  next
    fix j assume "j < length (mal_cfg_visit addr ?bs k)"
    then have j: "j < length bs" using spec len by (simp add: visit)
    have "mal_cfg_visit addr ?bs k ! j = (r ! j)\<lparr>mb_succs := mb_succs (r ! j) @
                 (if j = k then map (\<lambda>t. mb_id (bs ! t)) (cfg_targets addr bs k) else []),
               mb_preds := mb_preds (r ! j) @ cfg_entries addr bs j k\<rparr>"
      using Suc.prems spec j len fields(2) [of k] unfolding visit tids cfg_entries_def by simp
    also have "\<dots> = cfg_after addr bs (Suc k) j"
      using j Suc.prems by (auto simp: r_def cfg_after_def nth_list_update)
    finally show "mal_cfg_visit addr ?bs k ! j = map (cfg_after addr bs (Suc k)) [0..<length bs] ! j"
      using j by simp
  qed
  then show ?case using Suc by simp
qed

text \<open>
  C37. \<^verbatim>\<open>mal_compute_cfg\<close> gives every block as successors the ids of the blocks its last
  instruction can continue with (nothing for an empty block, the next block after an instruction
  that is no terminator), but as predecessors only the sources of the edges from the block itself
  and from later blocks: the predecessor list of a block is reset when the loop reaches it, after
  the edges of earlier blocks have been recorded.
\<close>

theorem mal_compute_cfg_spec:
  "mf_blocks (mal_compute_cfg addr fn) =
     map (\<lambda>j. (mf_blocks fn ! j)
            \<lparr>mb_succs := map (\<lambda>t. mb_id (mf_blocks fn ! t)) (cfg_targets addr (mf_blocks fn) j),
             mb_preds := concat (map (cfg_entries addr (mf_blocks fn) j)
                                   [j..<length (mf_blocks fn)])\<rparr>)
       [0..<length (mf_blocks fn)]"
  unfolding mal_compute_cfg_def by (simp add: cfg_loop cfg_after_def)

section \<open>What the dominator pass computes\<close>

definition dom_after :: "MALBlock list \<Rightarrow> nat \<Rightarrow> nat \<Rightarrow> MALBlock" where
  "dom_after bs k j =
     (if j < k
      then (bs ! j)\<lparr>mb_domChildren := if Suc j < k then [mb_id (bs ! Suc j)] else [],
                    mb_domParent := if j = 0 then MAL_INVALID_BLOCK else mb_id (bs ! (j - 1))\<rparr>
      else bs ! j)"

lemma dom_loop:
  assumes "k \<le> length bs"
  shows "foldl mal_dom_visit (bs, None) [0..<k] =
    (map (dom_after bs k) [0..<length bs], if k = 0 then None else Some (k - 1))"
  using assms
proof (induction k)
  case 0
  have "bs = map (dom_after bs 0) [0..<length bs]"
    by (rule nth_equalityI) (auto simp: dom_after_def)
  then show ?case by simp
next
  case (Suc k)
  let ?bs = "map (dom_after bs k) [0..<length bs]"
  let ?next = "mal_dom_visit (?bs, if k = 0 then None else Some (k - 1)) k"
  have "fst ?next = map (dom_after bs (Suc k)) [0..<length bs]"
  proof (rule nth_equalityI)
    show "length (fst ?next) = length (map (dom_after bs (Suc k)) [0..<length bs])"
      by (simp add: mal_dom_visit_def Let_def)
  next
    fix j assume "j < length (fst ?next)"
    then have "j < length bs" by (simp add: mal_dom_visit_def Let_def split: if_splits)
    then show "fst ?next ! j = map (dom_after bs (Suc k)) [0..<length bs] ! j"
      using Suc.prems
      by (cases "k = 0"; cases "j = k"; cases "Suc j = k")
        (simp_all add: mal_dom_visit_def Let_def dom_after_def nth_list_update)
  qed
  moreover have "snd ?next = Some k" by (simp add: mal_dom_visit_def Let_def)
  ultimately have "?next = (map (dom_after bs (Suc k)) [0..<length bs], Some k)"
    by (metis prod.collapse)
  then show ?case using Suc by simp
qed

text \<open>
  \<^verbatim>\<open>mal_compute_dominators\<close> links the blocks into one chain in list order: the parent of
  every block but the first is the block before it, its only child the block after it. The edges
  of the control-flow graph play no part.
\<close>

theorem mal_compute_dominators_chain:
  "mf_blocks (mal_compute_dominators fn) =
     map (\<lambda>j. (mf_blocks fn ! j)
            \<lparr>mb_domChildren := if Suc j < length (mf_blocks fn) then [mb_id (mf_blocks fn ! Suc j)] else [],
             mb_domParent := if j = 0 then MAL_INVALID_BLOCK else mb_id (mf_blocks fn ! (j - 1))\<rparr>)
       [0..<length (mf_blocks fn)]"
  unfolding mal_compute_dominators_def by (simp add: dom_loop dom_after_def)

end
