(* ===== verification/Ir_Meaning.thy ===== *)
theory Ir_Meaning
  imports Wirble_Prelude "HOL-Library.Signed_Division"
begin

text \<open>
  What the operators of the intermediate languages mean, apart from the code that translates one
  language into the next. An interpretation gives a function for every operator and a value for
  every literal; graphs (\<open>Wil_Meaning\<close>) and linear code (\<open>Mal_Denote\<close>) are each given a
  meaning under it, from their own node kinds and opcodes.
\<close>

section \<open>Operators\<close>

datatype num_class = Signed | Unsigned | Floating

datatype operator =
    OpAdd num_class | OpSub num_class | OpMul num_class | OpDiv num_class | OpRem num_class
  | OpNeg num_class | OpAbs num_class
  | OpAnd | OpOr | OpXor | OpNot | OpShl | OpShr num_class
  | OpEq num_class | OpNe num_class | OpLt num_class | OpLe num_class | OpGt num_class | OpGe num_class
  | OpSelect | OpExtend num_class | OpTruncate num_class | OpToFloat num_class | OpToInt num_class | OpBitcast

datatype value_type = IntT nat | FloatT nat | PointerT | VectorT | NoT

text \<open>
  \<open>ip_apply\<close> applies an operator with a result type, \<open>ip_int\<close> and \<open>ip_float\<close> read the 64 bits of a
  literal, and \<open>ip_none\<close> stands for what has no value.
\<close>

record 'v interp =
  ip_apply :: "operator \<Rightarrow> value_type \<Rightarrow> 'v list \<Rightarrow> 'v"
  ip_int :: "u64 \<Rightarrow> 'v"
  ip_float :: "u64 \<Rightarrow> 'v"
  ip_none :: 'v

section \<open>Laws of integers\<close>

text \<open>Zero and one behave as in any ring of machine integers; numbers that compare equal are equal.\<close>

definition neutral_elements :: "'v interp \<Rightarrow> bool" where
  "neutral_elements I \<longleftrightarrow>
     (\<forall>ty v. ip_apply I (OpAdd Signed) ty [v, ip_int I 0] = v \<and> ip_apply I (OpAdd Signed) ty [ip_int I 0, v] = v
      \<and> ip_apply I (OpSub Signed) ty [v, ip_int I 0] = v
      \<and> ip_apply I (OpMul Signed) ty [v, ip_int I 0] = ip_int I 0
      \<and> ip_apply I (OpMul Signed) ty [ip_int I 0, v] = ip_int I 0
      \<and> ip_apply I (OpMul Signed) ty [v, ip_int I 1] = v \<and> ip_apply I (OpMul Signed) ty [ip_int I 1, v] = v
      \<and> ip_apply I OpAnd ty [v, ip_int I 0] = ip_int I 0 \<and> ip_apply I OpOr ty [v, ip_int I 0] = v
      \<and> ip_apply I OpXor ty [v, ip_int I 0] = v \<and> ip_apply I OpShl ty [v, ip_int I 0] = v
      \<and> ip_apply I (OpShr Signed) ty [v, ip_int I 0] = v)"

definition float_literals_equal :: "'v interp \<Rightarrow> bool" where
  "float_literals_equal I \<longleftrightarrow> (\<forall>x y. double_eq x y \<longrightarrow> ip_float I x = ip_float I y)"

section \<open>Arithmetic on 32-bit words\<close>

text \<open>
  The integer operators on words of 32 bits, whatever the type; division by zero gives zero. It has no
  floating-point numbers.
\<close>

definition w32_truth :: "bool \<Rightarrow> u32" where
  "w32_truth b = (if b then 1 else 0)"

fun w32_binary :: "operator \<Rightarrow> u32 \<Rightarrow> u32 \<Rightarrow> u32" where
  "w32_binary (OpAdd _) a b = a + b"
| "w32_binary (OpSub _) a b = a - b"
| "w32_binary (OpMul _) a b = a * b"
| "w32_binary (OpDiv c) a b = (if c = Unsigned then a div b else word_of_int (sint a sdiv sint b))"
| "w32_binary (OpRem c) a b = (if c = Unsigned then a mod b else word_of_int (sint a smod sint b))"
| "w32_binary OpAnd a b = a AND b"
| "w32_binary OpOr a b = a OR b"
| "w32_binary OpXor a b = a XOR b"
| "w32_binary OpShl a b = push_bit (unat b) a"
| "w32_binary (OpShr c) a b = (if c = Unsigned then drop_bit (unat b) a else signed_drop_bit (unat b) a)"
| "w32_binary (OpEq _) a b = w32_truth (a = b)"
| "w32_binary (OpNe _) a b = w32_truth (a \<noteq> b)"
| "w32_binary (OpLt c) a b = w32_truth (if c = Unsigned then a < b else sint a < sint b)"
| "w32_binary (OpLe c) a b = w32_truth (if c = Unsigned then a \<le> b else sint a \<le> sint b)"
| "w32_binary (OpGt c) a b = w32_truth (if c = Unsigned then b < a else sint b < sint a)"
| "w32_binary (OpGe c) a b = w32_truth (if c = Unsigned then b \<le> a else sint b \<le> sint a)"
| "w32_binary _ a b = 0"

fun w32_unary :: "operator \<Rightarrow> u32 \<Rightarrow> u32" where
  "w32_unary (OpNeg _) a = - a"
| "w32_unary (OpAbs _) a = (if sint a < 0 then - a else a)"
| "w32_unary OpNot a = NOT a"
| "w32_unary (OpExtend _) a = a"
| "w32_unary (OpTruncate _) a = a"
| "w32_unary OpBitcast a = a"
| "w32_unary _ a = 0"

definition w32_apply :: "operator \<Rightarrow> value_type \<Rightarrow> u32 list \<Rightarrow> u32" where
  "w32_apply op ty vs =
     (case vs of [a] \<Rightarrow> w32_unary op a | [a, b] \<Rightarrow> w32_binary op a b
      | [c, a, b] \<Rightarrow> if op = OpSelect then if c \<noteq> 0 then a else b else 0 | _ \<Rightarrow> 0)"

definition w32 :: "u32 interp" where
  "w32 = \<lparr>ip_apply = w32_apply, ip_int = ucast, ip_float = (\<lambda>_. 0), ip_none = 0\<rparr>"

lemma w32_laws: "neutral_elements w32" "float_literals_equal w32"
  by (simp_all add: neutral_elements_def float_literals_equal_def w32_def w32_apply_def)

end
