(* ===== verification/Mal_Denote.thy ===== *)
theory Mal_Denote
  imports Mal_Analysis Ir_Meaning
begin

text \<open>
  A denotation for straight-line MAL functions, against which the passes that rewrite MAL are
  proved correct.
\<close>

text \<open>
  MAL comes with no interpreter. An interpretation gives every opcode at a type a function on
  values and every operand that is no register a value; a function then denotes the operand values
  of its return instructions, in order.
\<close>

definition operand_val :: "(MALOperand \<Rightarrow> 'v) \<Rightarrow> (MALReg \<Rightarrow> 'v) \<Rightarrow> MALOperand \<Rightarrow> 'v" where
  "operand_val imm env opd = (case operand_reg opd of Some r \<Rightarrow> env r | None \<Rightarrow> imm opd)"

fun mal_run :: "(MALOpcode \<Rightarrow> MALType \<Rightarrow> 'v list \<Rightarrow> 'v) \<Rightarrow> (MALOperand \<Rightarrow> 'v) \<Rightarrow> (MALReg \<Rightarrow> 'v) \<Rightarrow>
    MALInst list \<Rightarrow> 'v list list" where
  "mal_run sem imm env [] = []"
| "mal_run sem imm env (inst # insts) =
     (let vs = map (operand_val imm env) (mi_operands inst) in
      if mi_opcode inst = MAL_OP_RET then vs # mal_run sem imm env insts
      else mal_run sem imm (env(mi_dst inst := sem (mi_opcode inst) (mi_type inst) vs)) insts)"

text \<open>The values the instructions define, in order.\<close>

fun mal_values :: "(MALOpcode \<Rightarrow> MALType \<Rightarrow> 'v list \<Rightarrow> 'v) \<Rightarrow> (MALOperand \<Rightarrow> 'v) \<Rightarrow> (MALReg \<Rightarrow> 'v) \<Rightarrow>
    MALInst list \<Rightarrow> 'v list" where
  "mal_values sem imm env [] = []"
| "mal_values sem imm env (inst # insts) =
     (let vs = map (operand_val imm env) (mi_operands inst) in
      if mi_opcode inst = MAL_OP_RET then mal_values sem imm env insts
      else let v = sem (mi_opcode inst) (mi_type inst) vs
           in v # mal_values sem imm (env(mi_dst inst := v)) insts)"

definition mal_denote ::
  "(MALOpcode \<Rightarrow> MALType \<Rightarrow> 'v list \<Rightarrow> 'v) \<Rightarrow> (MALOperand \<Rightarrow> 'v) \<Rightarrow> (nat \<Rightarrow> 'v) \<Rightarrow> MALFunction \<Rightarrow> 'v list list" where
  "mal_denote sem imm args fn = mal_run sem imm (\<lambda>r. args (unat r)) (mal_insts fn)"

definition copy_moves :: "(MALOpcode \<Rightarrow> MALType \<Rightarrow> 'v list \<Rightarrow> 'v) \<Rightarrow> bool" where
  "copy_moves sem \<longleftrightarrow> (\<forall>ty v. sem MAL_OP_COPY ty [v] = v)"

section \<open>The operators of MAL\<close>

text \<open>
  The opcodes that are operators, by their names in \<^verbatim>\<open>wirble-mal.h\<close>. A conversion may carry its
  target type as a second operand, which is no value.
\<close>

definition mal_operators :: "(MALOpcode \<times> operator) list" where
  "mal_operators =
     [(MAL_OP_ADD, OpAdd Signed), (MAL_OP_SUB, OpSub Signed), (MAL_OP_MUL, OpMul Signed),
      (MAL_OP_UDIV, OpDiv Unsigned), (MAL_OP_SDIV, OpDiv Signed), (MAL_OP_UREM, OpRem Unsigned),
      (MAL_OP_SREM, OpRem Signed), (MAL_OP_NEG, OpNeg Signed),
      (MAL_OP_AND, OpAnd), (MAL_OP_OR, OpOr), (MAL_OP_XOR, OpXor), (MAL_OP_NOT, OpNot),
      (MAL_OP_SHL, OpShl), (MAL_OP_LSHR, OpShr Unsigned), (MAL_OP_ASHR, OpShr Signed),
      (MAL_OP_FADD, OpAdd Floating), (MAL_OP_FSUB, OpSub Floating), (MAL_OP_FMUL, OpMul Floating),
      (MAL_OP_FDIV, OpDiv Floating), (MAL_OP_FREM, OpRem Floating), (MAL_OP_FNEG, OpNeg Floating),
      (MAL_OP_FABS, OpAbs Floating),
      (MAL_OP_ICMP_EQ, OpEq Signed), (MAL_OP_ICMP_NE, OpNe Signed), (MAL_OP_ICMP_SLT, OpLt Signed),
      (MAL_OP_ICMP_SLE, OpLe Signed), (MAL_OP_ICMP_SGT, OpGt Signed), (MAL_OP_ICMP_SGE, OpGe Signed),
      (MAL_OP_ICMP_ULT, OpLt Unsigned), (MAL_OP_ICMP_ULE, OpLe Unsigned), (MAL_OP_ICMP_UGT, OpGt Unsigned),
      (MAL_OP_ICMP_UGE, OpGe Unsigned),
      (MAL_OP_FCMP_OEQ, OpEq Floating), (MAL_OP_FCMP_ONE, OpNe Floating), (MAL_OP_FCMP_OLT, OpLt Floating),
      (MAL_OP_FCMP_OLE, OpLe Floating), (MAL_OP_FCMP_OGT, OpGt Floating), (MAL_OP_FCMP_OGE, OpGe Floating),
      (MAL_OP_SELECT, OpSelect), (MAL_OP_ZEXT, OpExtend Unsigned), (MAL_OP_SEXT, OpExtend Signed),
      (MAL_OP_TRUNC, OpTruncate Signed), (MAL_OP_FEXT, OpExtend Floating), (MAL_OP_FTRUNC, OpTruncate Floating),
      (MAL_OP_BITCAST, OpBitcast), (MAL_OP_SITOFP, OpToFloat Signed), (MAL_OP_UITOFP, OpToFloat Unsigned),
      (MAL_OP_FPTOSI, OpToInt Signed), (MAL_OP_FPTOUI, OpToInt Unsigned)]"

definition mal_value_type :: "MALType \<Rightarrow> value_type" where
  "mal_value_type ty =
     (case ty of MAL_TYPE_I1 \<Rightarrow> IntT 1 | MAL_TYPE_I8 \<Rightarrow> IntT 8 | MAL_TYPE_I16 \<Rightarrow> IntT 16 | MAL_TYPE_I32 \<Rightarrow> IntT 32
      | MAL_TYPE_I64 \<Rightarrow> IntT 64 | MAL_TYPE_F32 \<Rightarrow> FloatT 32 | MAL_TYPE_F64 \<Rightarrow> FloatT 64
      | MAL_TYPE_PTR \<Rightarrow> PointerT | MAL_TYPE_VEC \<Rightarrow> VectorT | MAL_TYPE_VOID \<Rightarrow> NoT)"

fun is_conversion :: "operator \<Rightarrow> bool" where
  "is_conversion (OpExtend _) = True"
| "is_conversion (OpTruncate _) = True"
| "is_conversion (OpToFloat _) = True"
| "is_conversion (OpToInt _) = True"
| "is_conversion OpBitcast = True"
| "is_conversion _ = False"

definition mal_sem :: "'v interp \<Rightarrow> MALOpcode \<Rightarrow> MALType \<Rightarrow> 'v list \<Rightarrow> 'v" where
  "mal_sem I opcode ty vs =
     (if opcode = MAL_OP_COPY then (case vs of [v] \<Rightarrow> v | _ \<Rightarrow> ip_none I)
      else case map_of mal_operators opcode of None \<Rightarrow> ip_none I
      | Some op \<Rightarrow> ip_apply I op (mal_value_type ty) (if is_conversion op then take 1 vs else vs))"

definition mal_imm :: "'v interp \<Rightarrow> MALOperand \<Rightarrow> 'v" where
  "mal_imm I opd =
     (case opd of MAL_OPND_IMM_INT _ v \<Rightarrow> ip_int I v | MAL_OPND_IMM_FLOAT _ x \<Rightarrow> ip_float I x
      | _ \<Rightarrow> ip_none I)"

lemma mal_copy_moves: "copy_moves (mal_sem I)"
  by (simp add: copy_moves_def mal_sem_def)

section \<open>Replacing instructions\<close>

text \<open>Instructions that define the same register and read the same values can replace each other.\<close>

definition same_meaning ::
  "(MALOpcode \<Rightarrow> MALType \<Rightarrow> 'v list \<Rightarrow> 'v) \<Rightarrow> (MALOperand \<Rightarrow> 'v) \<Rightarrow> MALInst \<Rightarrow> MALInst \<Rightarrow> bool" where
  "same_meaning sem imm a b \<longleftrightarrow>
     mi_opcode a \<noteq> MAL_OP_RET \<and> mi_opcode b \<noteq> MAL_OP_RET \<and> mi_dst a = mi_dst b
     \<and> (\<forall>env. sem (mi_opcode a) (mi_type a) (map (operand_val imm env) (mi_operands a))
            = sem (mi_opcode b) (mi_type b) (map (operand_val imm env) (mi_operands b)))"

lemma mal_run_same_meaning:
  "list_all2 (\<lambda>a b. a = b \<or> same_meaning sem imm a b) xs ys \<Longrightarrow>
     mal_run sem imm env ys = mal_run sem imm env xs"
proof (induction arbitrary: env rule: list_all2_induct)
  case (Cons x xs y ys)
  show ?case
  proof (cases "x = y")
    case True
    with Cons.IH show ?thesis by (simp add: Let_def del: fun_upd_apply)
  next
    case False
    then have "mi_opcode x \<noteq> MAL_OP_RET" "mi_opcode y \<noteq> MAL_OP_RET" "mi_dst x = mi_dst y"
        "sem (mi_opcode x) (mi_type x) (map (operand_val imm env) (mi_operands x))
           = sem (mi_opcode y) (mi_type y) (map (operand_val imm env) (mi_operands y))"
      using Cons.hyps(1) unfolding same_meaning_def by blast+
    with Cons.IH show ?thesis by (simp add: Let_def del: fun_upd_apply)
  qed
qed simp

end
