(* ===== verification/Mds.thy ===== *)
theory Mds
  imports Mal_Denote
begin

text \<open>
  The machine descriptions and the instruction selector: the built-in tables of
  \<^verbatim>\<open>mds/mds_tables.c\<close>, the patterns of \<^verbatim>\<open>mds_patterns.c\<close>, the lowering of \<^verbatim>\<open>mds_selector.c\<close>
  and the byte encoding of \<^verbatim>\<open>mds_printer.c\<close>. The index \<^verbatim>\<open>instrById\<close> is the list of instructions
  itself; a pattern pointer is a position in the selector's pattern list.
\<close>

section \<open>Machines\<close>

datatype MDSTargetKind = MDS_TARGET_GENERIC | MDS_TARGET_X86_64 | MDS_TARGET_AARCH64 | MDS_TARGET_WASM

datatype MDSRegisterClass =
  MDS_REGCLASS_GPR | MDS_REGCLASS_FP | MDS_REGCLASS_VECTOR | MDS_REGCLASS_SPECIAL

datatype MDSOperandType = MDS_OPERAND_REG | MDS_OPERAND_IMM | MDS_OPERAND_MEM | MDS_OPERAND_LABEL

datatype MDSEndianness = MDS_ENDIAN_LITTLE | MDS_ENDIAN_BIG

record MDSRegister =
  rg_id :: u32
  rg_name :: string
  rg_regClass :: MDSRegisterClass
  rg_bitWidth :: u32
  rg_allocatable :: bool
  rg_parentReg :: u32

record MDSOperandDesc =
  od_name :: string
  od_type :: MDSOperandType
  od_regClass :: MDSRegisterClass
  od_bitWidth :: u32
  od_isInput :: bool
  od_isOutput :: bool
  od_isTiedTo :: int
  od_immMin :: int
  od_immMax :: int

record MDSInstruction =
  in_id :: u32
  in_mnemonic :: string
  in_asmTemplate :: string
  in_operands :: "MDSOperandDesc list"
  in_fixedBytes :: bytes
  in_selectionCost :: int
  in_latency :: int
  in_throughput :: int

record MDSMachine =
  mc_targetKind :: MDSTargetKind
  mc_name :: string
  mc_vendor :: string
  mc_endianness :: MDSEndianness
  mc_pointerSize :: u32
  mc_registers :: "MDSRegister list"
  mc_instructions :: "MDSInstruction list"

definition mds_basename :: "string option \<Rightarrow> string" where
  "mds_basename path =
     (case path of None \<Rightarrow> ''generic'' | Some p \<Rightarrow> rev (takeWhile (\<lambda>c. c \<noteq> CHR ''/'') (rev p)))"

text \<open>\<^verbatim>\<open>tolower\<close> of the C locale.\<close>

definition tolower :: "char \<Rightarrow> char" where
  "tolower c = (if 65 \<le> (of_char c :: nat) \<and> (of_char c :: nat) \<le> 90 then char_of ((of_char c :: nat) + 32) else c)"

definition mds_contains_token :: "string \<Rightarrow> string \<Rightarrow> bool" where
  "mds_contains_token txt token =
     (if token = [] \<or> length txt < length token then False
      else list_ex (\<lambda>i. take (length token) (drop i (map tolower txt)) = map tolower token)
             [0..<Suc (length txt - length token)])"

definition mds_target_kind_from_name :: "string option \<Rightarrow> MDSTargetKind" where
  "mds_target_kind_from_name nm =
     (let base = mds_basename nm in
      if mds_contains_token base ''x86_64'' \<or> mds_contains_token base ''amd64''
         \<or> mds_contains_token base ''x64'' then MDS_TARGET_X86_64
      else if mds_contains_token base ''aarch64'' \<or> mds_contains_token base ''arm64''
      then MDS_TARGET_AARCH64
      else if mds_contains_token base ''wasm'' then MDS_TARGET_WASM
      else MDS_TARGET_GENERIC)"

definition mdsTargetKindName :: "MDSTargetKind \<Rightarrow> string" where
  "mdsTargetKindName kind =
     (case kind of MDS_TARGET_X86_64 \<Rightarrow> ''x86_64'' | MDS_TARGET_AARCH64 \<Rightarrow> ''aarch64''
      | MDS_TARGET_WASM \<Rightarrow> ''wasm'' | MDS_TARGET_GENERIC \<Rightarrow> ''generic'')"

definition mds_find_instruction_by_mnemonic :: "MDSMachine \<Rightarrow> string \<Rightarrow> MDSInstruction option" where
  "mds_find_instruction_by_mnemonic machine mnemonic =
     find (\<lambda>instr. in_mnemonic instr = mnemonic) (mc_instructions machine)"

definition mds_make_reg_operand :: "string \<Rightarrow> bool \<Rightarrow> bool \<Rightarrow> MDSOperandDesc" where
  "mds_make_reg_operand nm isInput isOutput =
     \<lparr>od_name = nm, od_type = MDS_OPERAND_REG, od_regClass = MDS_REGCLASS_GPR, od_bitWidth = 64,
      od_isInput = isInput, od_isOutput = isOutput, od_isTiedTo = - 1, od_immMin = 0, od_immMax = 0\<rparr>"

definition mds_make_imm_operand :: "string \<Rightarrow> MDSOperandDesc" where
  "mds_make_imm_operand nm =
     \<lparr>od_name = nm, od_type = MDS_OPERAND_IMM, od_regClass = MDS_REGCLASS_GPR, od_bitWidth = 64,
      od_isInput = True, od_isOutput = False, od_isTiedTo = - 1,
      od_immMin = - (2 ^ 63), od_immMax = 2 ^ 63 - 1\<rparr>"

definition mds_init_instruction :: "u32 \<Rightarrow> string \<Rightarrow> string \<Rightarrow> MDSOperandDesc list \<Rightarrow> MDSInstruction" where
  "mds_init_instruction i mnemonic asmTemplate operands =
     \<lparr>in_id = i, in_mnemonic = mnemonic, in_asmTemplate = asmTemplate, in_operands = operands,
      in_fixedBytes = [ucast i], in_selectionCost = 1, in_latency = 1, in_throughput = 1\<rparr>"

definition mds_build_builtin_registers :: "MDSRegister list" where
  "mds_build_builtin_registers =
     map (\<lambda>(i, nm, cls, width, alloc).
            \<lparr>rg_id = i, rg_name = nm, rg_regClass = cls, rg_bitWidth = width, rg_allocatable = alloc,
             rg_parentReg = 0\<rparr>)
       [(0, ''r0'', MDS_REGCLASS_GPR, 64, True), (1, ''r1'', MDS_REGCLASS_GPR, 64, True),
        (2, ''r2'', MDS_REGCLASS_GPR, 64, True), (3, ''r3'', MDS_REGCLASS_GPR, 64, True),
        (4, ''sp'', MDS_REGCLASS_SPECIAL, 64, False)]"

definition mds_prefix :: "MDSTargetKind \<Rightarrow> string" where
  "mds_prefix kind =
     (case kind of MDS_TARGET_X86_64 \<Rightarrow> ''x64'' | MDS_TARGET_AARCH64 \<Rightarrow> ''a64''
      | MDS_TARGET_WASM \<Rightarrow> ''wasm'' | MDS_TARGET_GENERIC \<Rightarrow> ''generic'')"

text \<open>The operand lists shared by the instructions of the table, and the table.\<close>

definition binaryReg :: "MDSOperandDesc list" where
  "binaryReg = [mds_make_reg_operand ''dst'' False True, mds_make_reg_operand ''src'' True False]"
definition binaryImm :: "MDSOperandDesc list" where
  "binaryImm = [mds_make_reg_operand ''dst'' False True, mds_make_imm_operand ''imm'']"
definition ternaryReg :: "MDSOperandDesc list" where
  "ternaryReg = [mds_make_reg_operand ''dst'' False True, mds_make_reg_operand ''lhs'' True False,
                 mds_make_reg_operand ''rhs'' True False]"
definition ternaryImm :: "MDSOperandDesc list" where
  "ternaryImm = [mds_make_reg_operand ''dst'' False True, mds_make_reg_operand ''lhs'' True False,
                 mds_make_imm_operand ''imm'']"
definition retOps :: "MDSOperandDesc list" where
  "retOps = [mds_make_reg_operand ''value'' True False]"

definition mds_instr_table :: "(string \<times> MDSOperandDesc list \<times> string) list" where
  "mds_instr_table =
     [(''mov.rr'', binaryReg, ''mov %0, %1''), (''mov.ri'', binaryImm, ''mov %0, %1''),
      (''add.rr'', ternaryReg, ''add %0, %1, %2''), (''add.ri'', ternaryImm, ''add %0, %1, %2''),
      (''sub.rr'', ternaryReg, ''sub %0, %1, %2''), (''sub.ri'', ternaryImm, ''sub %0, %1, %2''),
      (''mul.rr'', ternaryReg, ''mul %0, %1, %2''), (''neg'', binaryReg, ''neg %0, %1''),
      (''and.rr'', ternaryReg, ''and %0, %1, %2''), (''or.rr'', ternaryReg, ''or %0, %1, %2''),
      (''xor.rr'', ternaryReg, ''xor %0, %1, %2''), (''not'', binaryReg, ''not %0, %1''),
      (''shl.ri'', ternaryImm, ''shl %0, %1, %2''), (''ashr.ri'', ternaryImm, ''ashr %0, %1, %2''),
      (''icmp.eq'', ternaryReg, ''icmp.eq %0, %1, %2''), (''icmp.ne'', ternaryReg, ''icmp.ne %0, %1, %2''),
      (''icmp.slt'', ternaryReg, ''icmp.slt %0, %1, %2''), (''icmp.sle'', ternaryReg, ''icmp.sle %0, %1, %2''),
      (''icmp.sgt'', ternaryReg, ''icmp.sgt %0, %1, %2''), (''icmp.sge'', ternaryReg, ''icmp.sge %0, %1, %2''),
      (''ret'', retOps, ''ret %0'')]"

definition mds_build_builtin_instructions :: "MDSTargetKind \<Rightarrow> MDSInstruction list" where
  "mds_build_builtin_instructions kind =
     map (\<lambda>i. case mds_instr_table ! i of (nm, ops, template) \<Rightarrow>
            mds_init_instruction (of_nat i) (mds_prefix kind @ ''.'' @ nm)
              ((case kind of MDS_TARGET_X86_64 \<Rightarrow> ''x86_64'' | MDS_TARGET_AARCH64 \<Rightarrow> ''aarch64''
                | MDS_TARGET_WASM \<Rightarrow> ''wasm'' | MDS_TARGET_GENERIC \<Rightarrow> ''generic'') @ '' '' @ template) ops)
       [0..<length mds_instr_table]"

definition mdsLoadMachine :: "string option \<Rightarrow> MDSMachine" where
  "mdsLoadMachine path =
     (let kind = mds_target_kind_from_name path in
      \<lparr>mc_targetKind = kind, mc_name = mdsTargetKindName kind,
       mc_vendor = (if kind = MDS_TARGET_AARCH64 then ''ARM''
                    else if kind = MDS_TARGET_WASM then ''W3C'' else ''Generic''),
       mc_endianness = MDS_ENDIAN_LITTLE,
       mc_pointerSize = (if kind = MDS_TARGET_WASM then 4 else 8),
       mc_registers = mds_build_builtin_registers,
       mc_instructions = mds_build_builtin_instructions kind\<rparr>)"

text \<open>Names and templates of a loaded machine are never null.\<close>

definition mdsValidateMachine :: "MDSMachine \<Rightarrow> bool" where
  "mdsValidateMachine machine \<longleftrightarrow> mc_instructions machine \<noteq> []"

section \<open>Patterns\<close>

record operand_constraint =
  oc_mustBeConst :: bool
  oc_mustBeReg :: bool
  oc_mustBeImm :: bool
  oc_bitWidth :: nat

record MDSPattern =
  pt_id :: u32
  pt_malOpcode :: MALOpcode
  pt_operands :: "operand_constraint list"
  pt_emitInstrs :: "u32 list"
  pt_cost :: int

record MDSInstrSelector =
  sl_machine :: MDSMachine
  sl_patterns :: "MDSPattern list"
  sl_patternsByOpcode :: "nat option list"

definition mds_operand_bit_width :: "MALType \<Rightarrow> nat" where
  "mds_operand_bit_width ty =
     (case ty of MAL_TYPE_I1 \<Rightarrow> 1 | MAL_TYPE_I8 \<Rightarrow> 8 | MAL_TYPE_I16 \<Rightarrow> 16 | MAL_TYPE_I32 \<Rightarrow> 32
      | MAL_TYPE_I64 \<Rightarrow> 64 | MAL_TYPE_PTR \<Rightarrow> 64 | MAL_TYPE_F32 \<Rightarrow> 32 | MAL_TYPE_F64 \<Rightarrow> 64
      | MAL_TYPE_VEC \<Rightarrow> 128 | MAL_TYPE_VOID \<Rightarrow> 0)"

fun operand_type :: "MALOperand \<Rightarrow> MALType" where
  "operand_type (MAL_OPND_REG t _) = t"
| "operand_type (MAL_OPND_IMM_INT t _) = t"
| "operand_type (MAL_OPND_IMM_FLOAT t _) = t"
| "operand_type (MAL_OPND_BLOCK t _) = t"
| "operand_type (MAL_OPND_GLOBAL t _) = t"
| "operand_type (MAL_OPND_FUNC t _) = t"
| "operand_type (MAL_OPND_TYPE t _) = t"
| "operand_type (MAL_OPND_VECDESC t _ _) = t"

definition mds_is_immediate :: "MALOperand \<Rightarrow> bool" where
  "mds_is_immediate opd =
     (case opd of MAL_OPND_IMM_INT _ _ \<Rightarrow> True | MAL_OPND_IMM_FLOAT _ _ \<Rightarrow> True | _ \<Rightarrow> False)"

definition mds_match_operand_constraint :: "operand_constraint list \<Rightarrow> nat \<Rightarrow> MALOperand \<Rightarrow> bool" where
  "mds_match_operand_constraint ops i opd =
     (if length ops \<le> i then False
      else let c = ops ! i; width = mds_operand_bit_width (operand_type opd) in
        if oc_mustBeConst c \<and> \<not> mds_is_immediate opd then False
        else if oc_mustBeReg c \<and> operand_reg opd = None then False
        else if oc_mustBeImm c \<and> \<not> mds_is_immediate opd then False
        else if oc_bitWidth c \<noteq> 0 \<and> width \<noteq> 0 \<and> oc_bitWidth c < width then False
        else True)"

definition mds_pattern_matches_inst :: "MDSPattern \<Rightarrow> MALInst \<Rightarrow> bool" where
  "mds_pattern_matches_inst pattern inst =
     (if pt_malOpcode pattern \<noteq> mi_opcode inst then False
      else if length (pt_operands pattern) \<noteq> length (mi_operands inst) then False
      else list_all (\<lambda>i. mds_match_operand_constraint (pt_operands pattern) i (mi_operands inst ! i))
             [0..<length (mi_operands inst)])"

definition mdsAddPattern :: "MDSInstrSelector \<Rightarrow> MDSPattern \<Rightarrow> MDSInstrSelector" where
  "mdsAddPattern selector pattern =
     (let n = length (sl_patterns selector); opcode = pt_malOpcode pattern;
          table = sl_patternsByOpcode selector in
      selector\<lparr>sl_patterns := sl_patterns selector @ [pattern],
               sl_patternsByOpcode :=
                 if opcode \<le> MAL_OP_TARGET \<and> table ! opcode = None then table[opcode := Some n] else table\<rparr>)"

definition mds_build_mnemonic :: "MDSMachine \<Rightarrow> string \<Rightarrow> string" where
  "mds_build_mnemonic machine suffix = mds_prefix (mc_targetKind machine) @ ''.'' @ suffix"

text \<open>The constraints on the inputs of a built-in pattern: its descriptor less an output operand.\<close>

definition builtin_constraints :: "MDSInstruction \<Rightarrow> bool \<Rightarrow> bool \<Rightarrow> operand_constraint list" where
  "builtin_constraints instr firstInputReg lastInputImm =
     (let descs = in_operands instr;
          n = (if descs = [] then 0 else length descs - (if od_isOutput (descs ! 0) then 1 else 0));
          zero = \<lparr>oc_mustBeConst = False, oc_mustBeReg = False, oc_mustBeImm = False, oc_bitWidth = 0\<rparr>;
          ops0 = replicate n zero;
          ops1 = (if 1 \<le> n
                  then ops0[0 := \<lparr>oc_mustBeConst = (n = 1 \<and> lastInputImm), oc_mustBeReg = firstInputReg,
                                  oc_mustBeImm = (n = 1 \<and> lastInputImm), oc_bitWidth = 64\<rparr>]
                  else ops0)
      in if 2 \<le> n
         then ops1[0 := (ops1 ! 0)\<lparr>oc_mustBeReg := firstInputReg\<rparr>,
                   1 := \<lparr>oc_mustBeConst = lastInputImm, oc_mustBeReg = (\<not> lastInputImm),
                         oc_mustBeImm = lastInputImm, oc_bitWidth = 64\<rparr>]
         else ops1)"

definition mds_add_builtin_pattern ::
  "MDSInstrSelector \<Rightarrow> MALOpcode \<Rightarrow> string \<Rightarrow> bool \<Rightarrow> bool \<Rightarrow> MDSInstrSelector" where
  "mds_add_builtin_pattern selector opcode suffix firstInputReg lastInputImm =
     (case mds_find_instruction_by_mnemonic (sl_machine selector)
             (mds_build_mnemonic (sl_machine selector) suffix) of
        None \<Rightarrow> selector
      | Some instr \<Rightarrow>
          mdsAddPattern selector
            \<lparr>pt_id = of_nat (length (sl_patterns selector)), pt_malOpcode = opcode,
             pt_operands = builtin_constraints instr firstInputReg lastInputImm,
             pt_emitInstrs = [in_id instr], pt_cost = in_selectionCost instr\<rparr>)"

text \<open>The calls of \<open>mdsLoadPatterns\<close>; each of them succeeds when allocation does.\<close>

definition mds_pattern_table :: "(MALOpcode \<times> string \<times> bool \<times> bool) list" where
  "mds_pattern_table =
     [(MAL_OP_COPY, ''mov.rr'', True, False), (MAL_OP_COPY, ''mov.ri'', False, True),
      (MAL_OP_ADD, ''add.rr'', True, False), (MAL_OP_ADD, ''add.ri'', True, True),
      (MAL_OP_SUB, ''sub.rr'', True, False), (MAL_OP_SUB, ''sub.ri'', True, True),
      (MAL_OP_MUL, ''mul.rr'', True, False), (MAL_OP_NEG, ''neg'', True, False),
      (MAL_OP_AND, ''and.rr'', True, False), (MAL_OP_OR, ''or.rr'', True, False),
      (MAL_OP_XOR, ''xor.rr'', True, False), (MAL_OP_NOT, ''not'', True, False),
      (MAL_OP_SHL, ''shl.ri'', True, True), (MAL_OP_ASHR, ''ashr.ri'', True, True),
      (MAL_OP_ICMP_EQ, ''icmp.eq'', True, False), (MAL_OP_ICMP_NE, ''icmp.ne'', True, False),
      (MAL_OP_ICMP_SLT, ''icmp.slt'', True, False), (MAL_OP_ICMP_SLE, ''icmp.sle'', True, False),
      (MAL_OP_ICMP_SGT, ''icmp.sgt'', True, False), (MAL_OP_ICMP_SGE, ''icmp.sge'', True, False),
      (MAL_OP_RET, ''ret'', True, False)]"

definition mdsLoadPatterns :: "MDSInstrSelector \<Rightarrow> MDSInstrSelector" where
  "mdsLoadPatterns selector =
     foldl (\<lambda>sel (opcode, suffix, firstReg, lastImm).
              mds_add_builtin_pattern sel opcode suffix firstReg lastImm)
       selector mds_pattern_table"

definition mdsCreateSelector :: "MDSMachine \<Rightarrow> MDSInstrSelector" where
  "mdsCreateSelector machine =
     mdsLoadPatterns \<lparr>sl_machine = machine, sl_patterns = [],
                      sl_patternsByOpcode = replicate (Suc MAL_OP_TARGET) None\<rparr>"

definition mdsMatchPattern :: "MDSInstrSelector \<Rightarrow> MALInst \<Rightarrow> MDSPattern option" where
  "mdsMatchPattern selector inst = find (\<lambda>p. mds_pattern_matches_inst p inst) (sl_patterns selector)"

definition mdsSelectBestPattern :: "MDSInstrSelector \<Rightarrow> MALInst \<Rightarrow> MDSPattern option" where
  "mdsSelectBestPattern selector inst =
     foldl (\<lambda>best pattern.
              if \<not> mds_pattern_matches_inst pattern inst then best
              else (case best of None \<Rightarrow> Some pattern
                    | Some b \<Rightarrow> if pt_cost pattern < pt_cost b then Some pattern else best))
       None (sl_patterns selector)"

section \<open>Lowering\<close>

record MDSInst =
  si_desc :: MDSInstruction
  si_operands :: "MALOperand list"

record MDSBasicBlock =
  sb_id :: u32
  sb_instructions :: "MDSInst list"
  sb_successors :: "u32 list"

record MDSProgram =
  sp_machine :: MDSMachine
  sp_blocks :: "MDSBasicBlock list"

definition mds_desc_from_pattern :: "MDSInstrSelector \<Rightarrow> MDSPattern option \<Rightarrow> MDSInstruction option" where
  "mds_desc_from_pattern selector pattern =
     (case pattern of
        None \<Rightarrow> None
      | Some p \<Rightarrow>
          (case pt_emitInstrs p of
             [] \<Rightarrow> None
           | i # _ \<Rightarrow> if length (mc_instructions (sl_machine selector)) \<le> unat i then None
                      else Some (mc_instructions (sl_machine selector) ! unat i)))"

definition mds_build_selected_inst :: "MDSInstrSelector \<Rightarrow> MALInst \<Rightarrow> MDSInst option" where
  "mds_build_selected_inst selector inst =
     (case mds_desc_from_pattern selector (mdsSelectBestPattern selector inst) of
        None \<Rightarrow> None
      | Some desc \<Rightarrow>
          let dst = (if mi_dst inst \<noteq> MAL_INVALID_REG \<and> in_operands desc \<noteq> []
                        \<and> od_isOutput (in_operands desc ! 0)
                     then [MAL_OPND_REG (mi_type inst) (mi_dst inst)] else [])
          in Some \<lparr>si_desc = desc, si_operands = dst @ mi_operands inst\<rparr>)"

fun mds_lower_insts :: "MDSInstrSelector \<Rightarrow> MALInst list \<Rightarrow> MDSInst list option" where
  "mds_lower_insts selector [] = Some []"
| "mds_lower_insts selector (inst # insts) =
     (case mds_build_selected_inst selector inst of
        None \<Rightarrow> None
      | Some lowered \<Rightarrow> map_option ((#) lowered) (mds_lower_insts selector insts))"

fun mds_lower_blocks :: "MDSInstrSelector \<Rightarrow> MALBlock list \<Rightarrow> MDSBasicBlock list option" where
  "mds_lower_blocks selector [] = Some []"
| "mds_lower_blocks selector (b # bs) =
     (case mds_lower_insts selector (mb_insts b) of
        None \<Rightarrow> None
      | Some insts \<Rightarrow>
          map_option ((#) \<lparr>sb_id = mb_id b, sb_instructions = insts, sb_successors = mb_succs b\<rparr>)
            (mds_lower_blocks selector bs))"

text \<open>The two loops over functions and their blocks visit the blocks of all functions in order.\<close>

definition mdsLowerFromMAL ::
  "MDSMachine MALModule \<Rightarrow> MDSInstrSelector option \<Rightarrow> MDSMachine option \<Rightarrow> MDSProgram option" where
  "mdsLowerFromMAL module selector machine =
     (let resolved = (case machine of
                        Some mc \<Rightarrow> Some mc
                      | None \<Rightarrow> (case selector of Some sel \<Rightarrow> Some (sl_machine sel)
                                 | None \<Rightarrow> mm_mdsMachine module)) in
      case resolved of
        None \<Rightarrow> None
      | Some mc \<Rightarrow>
          let sel = (case selector of Some sel \<Rightarrow> sel | None \<Rightarrow> mdsCreateSelector mc) in
          map_option (\<lambda>bs. \<lparr>sp_machine = mc, sp_blocks = bs\<rparr>)
            (mds_lower_blocks sel (concat (map mf_blocks (mm_functions module)))))"

definition malLowerToMDS ::
  "MDSMachine MALModule \<Rightarrow> MDSInstrSelector option \<Rightarrow> MDSProgram option" where
  "malLowerToMDS m isel =
     (let machine = (case isel of Some sel \<Rightarrow> Some (sl_machine sel) | None \<Rightarrow> mm_mdsMachine m);
          machine1 = (case machine of Some mc \<Rightarrow> Some mc
                      | None \<Rightarrow> Some (mdsLoadMachine (Some (mm_targetTriple m))))
      in mdsLowerFromMAL m isel machine1)"

section \<open>Byte encoding\<close>

definition mds_emit_payload :: "MALOperand \<Rightarrow> u64" where
  "mds_emit_payload opd =
     (case opd of MAL_OPND_REG _ r \<Rightarrow> ucast r | MAL_OPND_IMM_INT _ v \<Rightarrow> v
      | MAL_OPND_BLOCK _ b \<Rightarrow> ucast b | _ \<Rightarrow> 0)"

definition mdsEmitBuffer :: "MDSProgram \<Rightarrow> bytes" where
  "mdsEmitBuffer program =
     concat (map (\<lambda>block.
       concat (map (\<lambda>inst. (in_fixedBytes (si_desc inst) ! 0)
                            # concat (map (\<lambda>opd. le_bytes (mds_emit_payload opd)) (si_operands inst)))
         (sb_instructions block)))
       (sp_blocks program))"

definition mds_encode_payload :: "MALOperand \<Rightarrow> u64" where
  "mds_encode_payload opd =
     (case opd of MAL_OPND_REG _ r \<Rightarrow> ucast r | MAL_OPND_IMM_INT _ v \<Rightarrow> v | _ \<Rightarrow> 0)"

definition mdsEncodeInstruction :: "MDSInstruction \<Rightarrow> MALOperand list \<Rightarrow> bytes" where
  "mdsEncodeInstruction instr operands =
     (case in_fixedBytes instr of [] \<Rightarrow> 0 | b # _ \<Rightarrow> b)
     # concat (map (\<lambda>opd. le_bytes (mds_encode_payload opd)) operands)"

definition mdsDecodeInstruction :: "MDSMachine \<Rightarrow> bytes \<Rightarrow> MDSInstruction option" where
  "mdsDecodeInstruction machine bs =
     (if bs = [] then None
      else if length (mc_instructions machine) \<le> unat (bs ! 0) then None
      else Some (mc_instructions machine ! unat (bs ! 0)))"

section \<open>The best pattern\<close>

lemma foldl_skip: "foldl (\<lambda>a x. if \<not> P x then a else f a x) a xs = foldl f a (filter P xs)"
  by (induction xs arbitrary: a) simp_all

text \<open>The loop keeps the first element of least cost.\<close>

lemma foldl_first_min:
  fixes cost :: "'a \<Rightarrow> int"
  assumes "xs \<noteq> []"
  defines "pick \<equiv> \<lambda>best x. case best of None \<Rightarrow> Some x | Some b \<Rightarrow> if cost x < cost b then Some x else best"
  shows "foldl pick None xs = find (\<lambda>x. cost x = Min (cost ` set xs)) xs
     \<and> (\<exists>b. foldl pick None xs = Some b \<and> cost b = Min (cost ` set xs))"
  using assms(1)
proof (induction xs rule: rev_induct)
  case (snoc x xs)
  show ?case
  proof (cases "xs = []")
    case True
    then show ?thesis by (simp add: pick_def)
  next
    case False
    with snoc obtain b where b: "foldl pick None xs = Some b" "cost b = Min (cost ` set xs)"
      "find (\<lambda>x. cost x = Min (cost ` set xs)) xs = Some b" by metis
    have M: "Min (cost ` set (xs @ [x])) = min (cost x) (Min (cost ` set xs))"
      using False by (simp add: Min_insert)
    have app: "find P (xs @ [x]) = (case find P xs of Some y \<Rightarrow> Some y | None \<Rightarrow> if P x then Some x else None)" for P
      by (induction xs) auto
    show ?thesis
    proof (cases "cost x < cost b")
      case True
      have "find (\<lambda>y. cost y = cost x) xs = None"
        using True b(2) by (auto simp: find_None_iff) (metis Min_le finite_imageI finite_set imageI not_less)
      with True b M show ?thesis by (simp add: pick_def app)
    next
      case False
      with b M show ?thesis by (simp add: pick_def app)
    qed
  qed
qed simp

text \<open>
  C23. \<^verbatim>\<open>mdsSelectBestPattern\<close> returns the first pattern of least cost among those that match the
  instruction, and nothing exactly when none matches.
\<close>

theorem mdsSelectBestPattern_first_min:
  "mdsSelectBestPattern selector inst =
     (let ps = filter (\<lambda>p. mds_pattern_matches_inst p inst) (sl_patterns selector) in
      find (\<lambda>p. pt_cost p = Min (pt_cost ` set ps)) ps)"
proof (cases "filter (\<lambda>p. mds_pattern_matches_inst p inst) (sl_patterns selector) = []")
  case True
  then show ?thesis by (simp add: mdsSelectBestPattern_def foldl_skip)
next
  case False
  then show ?thesis
    using foldl_first_min [OF False, of pt_cost] by (simp add: mdsSelectBestPattern_def foldl_skip)
qed

lemma select_best_SomeD:
  assumes "mdsSelectBestPattern selector inst = Some p"
  shows "p \<in> set (sl_patterns selector)" and "mds_pattern_matches_inst p inst"
proof -
  let ?ps = "filter (\<lambda>p. mds_pattern_matches_inst p inst) (sl_patterns selector)"
  have "?ps \<noteq> []" using assms by (auto simp: mdsSelectBestPattern_def foldl_skip)
  then have "p \<in> set ?ps"
    using assms foldl_first_min [of ?ps pt_cost] find_SomeD [of _ ?ps p]
    by (auto simp: mdsSelectBestPattern_def foldl_skip)
  then show "p \<in> set (sl_patterns selector)" "mds_pattern_matches_inst p inst" by auto
qed

lemma select_best_None:
  "mdsSelectBestPattern selector inst = None \<longleftrightarrow>
     (\<forall>p\<in>set (sl_patterns selector). \<not> mds_pattern_matches_inst p inst)"
proof -
  let ?ps = "filter (\<lambda>p. mds_pattern_matches_inst p inst) (sl_patterns selector)"
  have "mdsSelectBestPattern selector inst = None \<longleftrightarrow> ?ps = []"
  proof (cases "?ps = []")
    case False
    then obtain b where "mdsSelectBestPattern selector inst = Some b"
      using foldl_first_min [OF False, of pt_cost] unfolding mdsSelectBestPattern_def foldl_skip by blast
    with False show ?thesis by simp
  qed (simp add: mdsSelectBestPattern_def foldl_skip)
  then show ?thesis by (simp add: filter_empty_conv)
qed

section \<open>The built-in machines\<close>

lemma upt_21: "[0..<21] = [0, 1, 2, 3, 4, 5, 6, 7, 8, 9, 10, 11, 12, 13, 14, 15, 16, 17, 18, 19, 20 :: nat]"
  by (simp add: upt_rec)

lemma table_lengths [simp]: "length mds_instr_table = 21" "length mds_pattern_table = 21"
  by (simp_all add: mds_instr_table_def mds_pattern_table_def)

text \<open>The patterns are declared in the order of the instructions, one for each.\<close>

lemma tables_agree: "map (\<lambda>(_, suffix, _). suffix) mds_pattern_table = map fst mds_instr_table"
  by (simp add: mds_instr_table_def mds_pattern_table_def)

lemma table_names_distinct: "distinct (map fst mds_instr_table)"
  by (simp add: mds_instr_table_def)

definition machine_instr :: "MDSMachine \<Rightarrow> nat \<Rightarrow> MDSInstruction" where
  "machine_instr machine i = mc_instructions machine ! i"

lemma builtin_instr:
  assumes "i < 21"
  shows "in_id (machine_instr (mdsLoadMachine path) i) = of_nat i"
    and "in_mnemonic (machine_instr (mdsLoadMachine path) i)
           = mds_build_mnemonic (mdsLoadMachine path) (fst (mds_instr_table ! i))"
    and "in_operands (machine_instr (mdsLoadMachine path) i) = fst (snd (mds_instr_table ! i))"
    and "in_fixedBytes (machine_instr (mdsLoadMachine path) i) = [ucast (of_nat i :: u32)]"
    and "in_selectionCost (machine_instr (mdsLoadMachine path) i) = 1"
    and "length (mc_instructions (mdsLoadMachine path)) = 21"
  using assms
  by (simp_all add: machine_instr_def mdsLoadMachine_def Let_def mds_build_builtin_instructions_def
      mds_init_instruction_def mds_build_mnemonic_def split: prod.splits)

lemma builtin_find:
  assumes "i < 21"
  shows "mds_find_instruction_by_mnemonic (mdsLoadMachine path)
           (mds_build_mnemonic (mdsLoadMachine path) (fst (mds_instr_table ! i)))
         = Some (machine_instr (mdsLoadMachine path) i)"
proof -
  let ?mc = "mdsLoadMachine path"
  have len: "length (mc_instructions ?mc) = 21" using builtin_instr(6) [OF assms] .
  have "map in_mnemonic (mc_instructions ?mc) = map (mds_build_mnemonic ?mc) (map fst mds_instr_table)"
    by (rule nth_equalityI) (use len builtin_instr(2) in \<open>auto simp: machine_instr_def\<close>)
  moreover have "inj (mds_build_mnemonic ?mc)" by (auto simp: mds_build_mnemonic_def inj_def)
  ultimately have "distinct (map in_mnemonic (mc_instructions ?mc))"
    using table_names_distinct by (metis distinct_map inj_on_subset subset_UNIV)
  moreover have "machine_instr ?mc i \<in> set (mc_instructions ?mc)"
    using assms len by (simp add: machine_instr_def)
  ultimately show ?thesis
    using find_distinct_key [of in_mnemonic _ "machine_instr ?mc i"] builtin_instr(2) [OF assms]
    by (simp add: mds_find_instruction_by_mnemonic_def)
qed

definition builtin_pattern :: "MDSMachine \<Rightarrow> nat \<Rightarrow> MDSPattern" where
  "builtin_pattern machine i =
     (case mds_pattern_table ! i of (opcode, _, firstReg, lastImm) \<Rightarrow>
        \<lparr>pt_id = of_nat i, pt_malOpcode = opcode,
         pt_operands = builtin_constraints (machine_instr machine i) firstReg lastImm,
         pt_emitInstrs = [of_nat i], pt_cost = 1\<rparr>)"

lemma load_patterns_loop:
  fixes path :: "string option"
  assumes "k \<le> 21"
  defines "sel \<equiv> \<lparr>sl_machine = mdsLoadMachine path, sl_patterns = [],
                  sl_patternsByOpcode = replicate (Suc MAL_OP_TARGET) None\<rparr>"
  shows "let r = foldl (\<lambda>sel (opcode, suffix, firstReg, lastImm).
                  mds_add_builtin_pattern sel opcode suffix firstReg lastImm) sel (take k mds_pattern_table)
         in sl_machine r = mdsLoadMachine path
            \<and> sl_patterns r = map (builtin_pattern (mdsLoadMachine path)) [0..<k]"
  using assms(1)
proof (induction k)
  case 0
  then show ?case by (simp add: sel_def)
next
  case (Suc k)
  obtain opcode suffix firstReg lastImm where e: "mds_pattern_table ! k = (opcode, suffix, firstReg, lastImm)"
    by (metis prod.exhaust)
  have "suffix = map (\<lambda>(_, suffix, _). suffix) mds_pattern_table ! k" using e Suc.prems by simp
  then have "suffix = fst (mds_instr_table ! k)" using Suc.prems by (simp add: tables_agree)
  with Suc e builtin_find [of k path] builtin_instr [of k path] show ?case
    by (simp add: take_Suc_conv_app_nth Let_def mds_add_builtin_pattern_def mdsAddPattern_def builtin_pattern_def)
qed

lemma builtin_selector:
  "sl_machine (mdsCreateSelector (mdsLoadMachine path)) = mdsLoadMachine path"
  "sl_patterns (mdsCreateSelector (mdsLoadMachine path)) = map (builtin_pattern (mdsLoadMachine path)) [0..<21]"
  using load_patterns_loop [of 21 path]
  by (simp_all add: mdsCreateSelector_def mdsLoadPatterns_def Let_def)

section \<open>Selection is complete and well typed\<close>

text \<open>An operand fits an operand descriptor when it is of the kind the descriptor asks for.\<close>

definition operand_fits :: "MDSOperandDesc \<Rightarrow> MALOperand \<Rightarrow> bool" where
  "operand_fits desc opd =
     (case od_type desc of MDS_OPERAND_REG \<Rightarrow> operand_reg opd \<noteq> None
      | MDS_OPERAND_IMM \<Rightarrow> mds_is_immediate opd | _ \<Rightarrow> False)"

definition fits_width :: "MALOperand \<Rightarrow> bool" where
  "fits_width opd \<longleftrightarrow> mds_operand_bit_width (operand_type opd) \<le> 64"

definition input_descs :: "MDSOperandDesc list \<Rightarrow> MDSOperandDesc list" where
  "input_descs descs = (if descs \<noteq> [] \<and> od_isOutput (descs ! 0) then tl descs else descs)"

definition has_output :: "MDSOperandDesc list \<Rightarrow> bool" where
  "has_output descs \<longleftrightarrow> descs \<noteq> [] \<and> od_isOutput (descs ! 0)"

text \<open>Row \<open>i\<close> of the tables: its opcode and the descriptors of its inputs.\<close>

definition row_opcode :: "nat \<Rightarrow> MALOpcode" where
  "row_opcode i = fst (mds_pattern_table ! i)"

definition row_descs :: "nat \<Rightarrow> MDSOperandDesc list" where
  "row_descs i = fst (snd (mds_instr_table ! i))"

definition desc_constraint :: "MDSOperandDesc \<Rightarrow> operand_constraint" where
  "desc_constraint desc =
     (let imm = (od_type desc = MDS_OPERAND_IMM) in
      \<lparr>oc_mustBeConst = imm, oc_mustBeReg = (\<not> imm), oc_mustBeImm = imm, oc_bitWidth = 64\<rparr>)"

text \<open>The constraints of every built-in pattern are those its input descriptors state.\<close>

lemmas desc_list_defs = binaryReg_def binaryImm_def ternaryReg_def ternaryImm_def retOps_def
  mds_make_reg_operand_def mds_make_imm_operand_def

lemma shape_constraints:
  "in_operands instr = binaryReg \<Longrightarrow> builtin_constraints instr True False = map desc_constraint (input_descs binaryReg)"
  "in_operands instr = binaryImm \<Longrightarrow> builtin_constraints instr False True = map desc_constraint (input_descs binaryImm)"
  "in_operands instr = ternaryReg \<Longrightarrow> builtin_constraints instr True False = map desc_constraint (input_descs ternaryReg)"
  "in_operands instr = ternaryImm \<Longrightarrow> builtin_constraints instr True True = map desc_constraint (input_descs ternaryImm)"
  "in_operands instr = retOps \<Longrightarrow> builtin_constraints instr True False = map desc_constraint (input_descs retOps)"
  by (simp_all add: builtin_constraints_def input_descs_def desc_constraint_def Let_def desc_list_defs)

text \<open>The operand shapes and flags the two tables combine.\<close>

definition row_shape :: "nat \<Rightarrow> MDSOperandDesc list \<times> bool \<times> bool" where
  "row_shape i = (row_descs i, snd (snd (mds_pattern_table ! i)))"

lemma row_shapes:
  "map row_shape [0..<21] =
     [(binaryReg, True, False), (binaryImm, False, True), (ternaryReg, True, False), (ternaryImm, True, True),
      (ternaryReg, True, False), (ternaryImm, True, True), (ternaryReg, True, False), (binaryReg, True, False),
      (ternaryReg, True, False), (ternaryReg, True, False), (ternaryReg, True, False), (binaryReg, True, False),
      (ternaryImm, True, True), (ternaryImm, True, True), (ternaryReg, True, False), (ternaryReg, True, False),
      (ternaryReg, True, False), (ternaryReg, True, False), (ternaryReg, True, False), (ternaryReg, True, False),
      (retOps, True, False)]"
  unfolding upt_21 row_shape_def row_descs_def mds_pattern_table_def mds_instr_table_def by simp

lemma row_shape_cases:
  assumes "i < 21"
  shows "row_shape i \<in> {(binaryReg, True, False), (binaryImm, False, True), (ternaryReg, True, False),
    (ternaryImm, True, True), (retOps, True, False)}"
proof -
  have "row_shape i \<in> set (map row_shape [0..<21])" using assms by simp
  then show ?thesis unfolding row_shapes by auto
qed

lemma row_constraints:
  assumes "i < 21" and "in_operands instr = row_descs i"
  shows "(case mds_pattern_table ! i of (_, _, firstReg, lastImm) \<Rightarrow>
            builtin_constraints instr firstReg lastImm) = map desc_constraint (input_descs (row_descs i))"
  using row_shape_cases [OF assms(1)] assms(2) shape_constraints [of instr]
  by (auto simp: row_shape_def split: prod.splits)

lemma row_opcodes:
  "map row_opcode [0..<21] =
     [MAL_OP_COPY, MAL_OP_COPY, MAL_OP_ADD, MAL_OP_ADD, MAL_OP_SUB, MAL_OP_SUB, MAL_OP_MUL, MAL_OP_NEG,
      MAL_OP_AND, MAL_OP_OR, MAL_OP_XOR, MAL_OP_NOT, MAL_OP_SHL, MAL_OP_ASHR, MAL_OP_ICMP_EQ, MAL_OP_ICMP_NE,
      MAL_OP_ICMP_SLT, MAL_OP_ICMP_SLE, MAL_OP_ICMP_SGT, MAL_OP_ICMP_SGE, MAL_OP_RET]"
  unfolding upt_21 row_opcode_def mds_pattern_table_def by simp

lemma row_output_reg:
  assumes "i < 21"
  shows "list_all (\<lambda>desc. od_type desc = MDS_OPERAND_REG \<or> od_type desc = MDS_OPERAND_IMM) (row_descs i)"
    and "has_output (row_descs i) \<Longrightarrow> od_type (row_descs i ! 0) = MDS_OPERAND_REG"
    and "has_output (row_descs i) \<Longrightarrow> row_opcode i \<noteq> MAL_OP_RET"
proof -
  have "row_descs i \<in> {binaryReg, binaryImm, ternaryReg, ternaryImm, retOps}"
    using row_shape_cases [OF assms] by (auto simp: row_shape_def)
  then show "list_all (\<lambda>desc. od_type desc = MDS_OPERAND_REG \<or> od_type desc = MDS_OPERAND_IMM) (row_descs i)"
    and "has_output (row_descs i) \<Longrightarrow> od_type (row_descs i ! 0) = MDS_OPERAND_REG"
    by (auto simp: desc_list_defs)
  have "row_opcode i = map row_opcode [0..<21] ! i" "row_shape i = map row_shape [0..<21] ! i"
    using assms by simp_all
  moreover have "i < 20 \<or> i = 20" using assms by auto
  ultimately show "has_output (row_descs i) \<Longrightarrow> row_opcode i \<noteq> MAL_OP_RET"
  proof (elim disjE)
    assume "i < 20" "row_opcode i = map row_opcode [0..<21] ! i"
    then have "row_opcode i \<in> set (take 20 (map row_opcode [0..<21]))"
      by (metis in_set_conv_nth length_map length_take length_upt min_less_iff_conj nth_take assms diff_zero)
    then show "row_opcode i \<noteq> MAL_OP_RET" unfolding row_opcodes by auto
  next
    assume "has_output (row_descs i)" "i = 20" "row_shape i = map row_shape [0..<21] ! i"
    then have False unfolding row_shapes by (simp add: row_shape_def has_output_def desc_list_defs)
    then show "row_opcode i \<noteq> MAL_OP_RET" ..
  qed
qed

lemma builtin_matches_iff:
  assumes "i < 21"
  shows "mds_pattern_matches_inst (builtin_pattern (mdsLoadMachine path) i) inst \<longleftrightarrow>
    mi_opcode inst = row_opcode i
    \<and> list_all2 (\<lambda>desc opd. operand_fits desc opd \<and> fits_width opd) (input_descs (row_descs i)) (mi_operands inst)"
proof -
  obtain opcode suffix firstReg lastImm where e: "mds_pattern_table ! i = (opcode, suffix, firstReg, lastImm)"
    by (metis prod.exhaust)
  let ?ds = "input_descs (row_descs i)"
  have op: "pt_malOpcode (builtin_pattern (mdsLoadMachine path) i) = row_opcode i"
    by (simp add: builtin_pattern_def row_opcode_def e)
  have cs: "pt_operands (builtin_pattern (mdsLoadMachine path) i) = map desc_constraint ?ds"
    using row_constraints [OF assms, of "machine_instr (mdsLoadMachine path) i"] builtin_instr(3) [OF assms, of path]
    by (simp add: builtin_pattern_def e row_descs_def)
  have kinds: "list_all (\<lambda>desc. od_type desc = MDS_OPERAND_REG \<or> od_type desc = MDS_OPERAND_IMM) ?ds"
    using row_output_reg(1) [OF assms] by (auto simp: input_descs_def list_all_iff dest: list.set_sel(2))
  have one: "mds_match_operand_constraint (map desc_constraint ?ds) k opd \<longleftrightarrow>
      operand_fits (?ds ! k) opd \<and> fits_width opd" if "k < length ?ds" for k opd
    using that kinds
    by (auto simp: mds_match_operand_constraint_def desc_constraint_def Let_def operand_fits_def
        fits_width_def list_all_length)
  show ?thesis
    unfolding mds_pattern_matches_inst_def op cs list_all2_conv_all_nth
    using one by (auto simp: list_all_iff)
qed

definition mds_selectable :: "MALInst \<Rightarrow> bool" where
  "mds_selectable inst \<longleftrightarrow>
     list_ex (\<lambda>i. mi_opcode inst = row_opcode i
                \<and> list_all2 (\<lambda>desc opd. operand_fits desc opd \<and> fits_width opd)
                    (input_descs (row_descs i)) (mi_operands inst)) [0..<21]"

lemma selected_row:
  assumes "mds_build_selected_inst (mdsCreateSelector (mdsLoadMachine path)) inst = Some s"
  obtains i where "i < 21" and "mi_opcode inst = row_opcode i"
    and "list_all2 (\<lambda>desc opd. operand_fits desc opd \<and> fits_width opd) (input_descs (row_descs i)) (mi_operands inst)"
    and "si_desc s = machine_instr (mdsLoadMachine path) i"
    and "si_operands s = (if mi_dst inst \<noteq> MAL_INVALID_REG \<and> has_output (row_descs i)
           then [MAL_OPND_REG (mi_type inst) (mi_dst inst)] else []) @ mi_operands inst"
proof -
  let ?sel = "mdsCreateSelector (mdsLoadMachine path)"
  obtain p where p: "mdsSelectBestPattern ?sel inst = Some p"
    using assms by (auto simp: mds_build_selected_inst_def mds_desc_from_pattern_def split: option.splits)
  then obtain i where i: "i < 21" "p = builtin_pattern (mdsLoadMachine path) i"
    using select_best_SomeD(1) [OF p] by (auto simp: builtin_selector)
  have m: "mds_pattern_matches_inst (builtin_pattern (mdsLoadMachine path) i) inst"
    using select_best_SomeD(2) [OF p] i(2) by simp
  have id: "pt_emitInstrs p = [of_nat i]" using i(2) by (simp add: builtin_pattern_def split: prod.splits)
  have u: "unat (of_nat i :: u32) = i" using i(1) by (intro unat_of_nat_small) simp
  have s: "s = \<lparr>si_desc = machine_instr (mdsLoadMachine path) i,
      si_operands = (if mi_dst inst \<noteq> - 1 \<and> has_output (row_descs i)
        then [MAL_OPND_REG (mi_type inst) (mi_dst inst)] else []) @ mi_operands inst\<rparr>"
    using assms p id u i(1) builtin_instr(3,6) [OF i(1), of path]
    by (auto simp: mds_build_selected_inst_def mds_desc_from_pattern_def builtin_selector Let_def
        row_descs_def has_output_def machine_instr_def split: if_splits)
  with m i(1) builtin_matches_iff [OF i(1), of path inst] show thesis by (intro that [of i]) auto
qed

lemma selectable_selected:
  assumes "mds_selectable inst"
  obtains s where "mds_build_selected_inst (mdsCreateSelector (mdsLoadMachine path)) inst = Some s"
proof -
  let ?sel = "mdsCreateSelector (mdsLoadMachine path)"
  from assms obtain i where i: "i < 21" "mds_pattern_matches_inst (builtin_pattern (mdsLoadMachine path) i) inst"
    by (auto simp: mds_selectable_def list_ex_iff builtin_matches_iff)
  then have "builtin_pattern (mdsLoadMachine path) i \<in> set (sl_patterns ?sel)" by (simp add: builtin_selector)
  then obtain p where p: "mdsSelectBestPattern ?sel inst = Some p" using select_best_None i(2) by fastforce
  then obtain k where k: "k < 21" "p = builtin_pattern (mdsLoadMachine path) k"
    using select_best_SomeD(1) [OF p] by (auto simp: builtin_selector)
  have "unat (of_nat k :: u32) = k" using k(1) by (intro unat_of_nat_small) simp
  with p k builtin_instr(6) [OF k(1), of path] have "mds_build_selected_inst ?sel inst \<noteq> None"
    by (auto simp: mds_build_selected_inst_def mds_desc_from_pattern_def builtin_selector
        builtin_pattern_def Let_def split: prod.splits)
  then show thesis using that by blast
qed

text \<open>
  C21. Selection on a built-in machine is complete and well typed. An instruction is selected exactly
  when some row of the tables has its opcode and asks for its operands, none of them wider than 64
  bits; and when the instruction has a result register (or is a return), the machine instruction
  chosen has the row's mnemonic for that opcode and its operands are, one for one, of the kinds its
  descriptors declare: a register for a register, an immediate for an immediate.
\<close>

theorem mds_selection_typed:
  assumes "mi_opcode inst = MAL_OP_RET \<or> mi_dst inst \<noteq> MAL_INVALID_REG"
  shows "(mds_build_selected_inst (mdsCreateSelector (mdsLoadMachine path)) inst \<noteq> None
            \<longleftrightarrow> mds_selectable inst)
       \<and> (case mds_build_selected_inst (mdsCreateSelector (mdsLoadMachine path)) inst of
            None \<Rightarrow> True
          | Some s \<Rightarrow>
              list_all2 operand_fits (in_operands (si_desc s)) (si_operands s)
              \<and> (\<exists>i<21. row_opcode i = mi_opcode inst
                  \<and> in_mnemonic (si_desc s) = mds_build_mnemonic (mdsLoadMachine path) (fst (mds_instr_table ! i))))"
proof -
  let ?sel = "mdsCreateSelector (mdsLoadMachine path)"
  have "mds_build_selected_inst ?sel inst \<noteq> None" if "mds_selectable inst"
    using selectable_selected [OF that] by blast
  moreover have "mds_selectable inst
      \<and> list_all2 operand_fits (in_operands (si_desc s)) (si_operands s)
      \<and> (\<exists>i<21. row_opcode i = mi_opcode inst
           \<and> in_mnemonic (si_desc s) = mds_build_mnemonic (mdsLoadMachine path) (fst (mds_instr_table ! i)))"
    if s: "mds_build_selected_inst ?sel inst = Some s" for s
  proof -
    obtain i where i: "i < 21" "mi_opcode inst = row_opcode i"
        "list_all2 (\<lambda>desc opd. operand_fits desc opd \<and> fits_width opd) (input_descs (row_descs i)) (mi_operands inst)"
        "si_desc s = machine_instr (mdsLoadMachine path) i"
        "si_operands s = (if mi_dst inst \<noteq> - 1 \<and> has_output (row_descs i)
           then [MAL_OPND_REG (mi_type inst) (mi_dst inst)] else []) @ mi_operands inst"
      by (rule selected_row [OF s])
    have descs: "in_operands (si_desc s) = row_descs i"
      using builtin_instr(3) [OF i(1), of path] by (simp add: i(4) row_descs_def)
    have ins: "list_all2 operand_fits (input_descs (row_descs i)) (mi_operands inst)"
      using i(3) by (rule list_all2_mono) simp
    have "list_all2 operand_fits (row_descs i) (si_operands s)"
    proof (cases "has_output (row_descs i)")
      case True
      then obtain d ds where d: "row_descs i = d # ds" "od_type d = MDS_OPERAND_REG"
        using row_output_reg(2) [OF i(1)] by (cases "row_descs i") (auto simp: has_output_def)
      have "mi_dst inst \<noteq> - 1" using assms True row_output_reg(3) [OF i(1)] i(2) by auto
      with True d ins i(5) show ?thesis by (simp add: input_descs_def has_output_def operand_fits_def)
    next
      case False
      then have "input_descs (row_descs i) = row_descs i" by (auto simp: input_descs_def has_output_def)
      with False show ?thesis using ins i(5) by simp
    qed
    with descs i builtin_instr(2) [OF i(1), of path] show ?thesis
      by (auto simp: mds_selectable_def list_ex_iff)
  qed
  ultimately show ?thesis by (auto split: option.splits)
qed

theorem mds_selection_typed_witness:
  "mds_build_selected_inst (mdsCreateSelector (mdsLoadMachine (Some ''machines/x86_64.json'')))
     \<lparr>mi_id = 0, mi_opcode = MAL_OP_COPY, mi_type = MAL_TYPE_I32, mi_dst = 1,
      mi_operands = [MAL_OPND_REG MAL_TYPE_I32 0]\<rparr> \<noteq> None"
proof -
  let ?i = "\<lparr>mi_id = 0, mi_opcode = MAL_OP_COPY, mi_type = MAL_TYPE_I32, mi_dst = 1,
      mi_operands = [MAL_OPND_REG MAL_TYPE_I32 0]\<rparr>"
  have "mds_selectable ?i"
    unfolding mds_selectable_def list_ex_iff
    by (rule bexI [of _ 0]) (simp_all add: row_opcode_def row_descs_def mds_pattern_table_def
        mds_instr_table_def desc_list_defs input_descs_def operand_fits_def fits_width_def
        mds_operand_bit_width_def)
  then show ?thesis
    using mds_selection_typed [of ?i "Some ''machines/x86_64.json''"] by simp
qed

section \<open>Encoding\<close>

text \<open>A built-in instruction is recovered from its encoding, whatever its operands.\<close>

lemma mds_decode_encode:
  assumes "i < 21"
  shows "mdsDecodeInstruction (mdsLoadMachine path)
           (mdsEncodeInstruction (machine_instr (mdsLoadMachine path) i) operands)
         = Some (machine_instr (mdsLoadMachine path) i)"
proof -
  have "i \<in> set [0..<21]" using assms by simp
  then have "unat (ucast (of_nat i :: u32) :: u8) = i" unfolding upt_21 by auto
  with assms builtin_instr [OF assms, of path] show ?thesis
    by (simp add: mdsDecodeInstruction_def mdsEncodeInstruction_def machine_instr_def)
qed

end
