(* ===== verification/Tos.thy ===== *)
theory Tos
  imports Mds "HOL-Library.Multiset"
begin

text \<open>
  The target-ordered stream of \<^verbatim>\<open>tos/tos_stream.c\<close> and \<^verbatim>\<open>tos/tos_opt.c\<close>: building the stream from a
  selected program, the reverse-postorder layout, finalization and validation, cloning, and the
  choice among program versions. Positions and counts are natural numbers (an array has fewer than
  \<open>2 ^ 32 - 1\<close> elements); \<open>TOS_INVALID_INSTR\<close> is the largest 32-bit value.
\<close>

section \<open>The stream\<close>

datatype TOSOrderKind = TOS_ORDER_INPUT | TOS_ORDER_REVERSE_POSTORDER

definition TOS_INVALID_INSTR :: nat where "TOS_INVALID_INSTR = 4294967295"

record TOSInst =
  ti_id :: nat
  ti_blockId :: u32
  ti_order :: nat
  ti_desc :: "MDSInstruction option"
  ti_operands :: "MALOperand list"

record TOSBlock =
  tb_id :: u32
  tb_layoutIndex :: nat
  tb_firstInstr :: nat
  tb_instrCount :: nat
  tb_successors :: "u32 list"

record TOSProgram =
  tp_machine :: MDSMachine
  tp_blocks :: "TOSBlock list"
  tp_instructions :: "TOSInst list"
  tp_orderKind :: TOSOrderKind
  tp_isFinalized :: bool

definition append_instruction :: "TOSProgram \<Rightarrow> MDSInst \<Rightarrow> u32 \<Rightarrow> nat \<Rightarrow> TOSProgram" where
  "append_instruction program inst blockId order =
     program\<lparr>tp_instructions := tp_instructions program @
       [\<lparr>ti_id = length (tp_instructions program), ti_blockId = blockId, ti_order = order,
         ti_desc = Some (si_desc inst), ti_operands = si_operands inst\<rparr>]\<rparr>"

definition copy_block_metadata :: "MDSBasicBlock \<Rightarrow> nat \<Rightarrow> TOSBlock" where
  "copy_block_metadata src layoutIndex =
     \<lparr>tb_id = sb_id src, tb_layoutIndex = layoutIndex, tb_firstInstr = TOS_INVALID_INSTR,
      tb_instrCount = 0, tb_successors = sb_successors src\<rparr>"

definition emit_block_instructions :: "TOSProgram \<Rightarrow> MDSBasicBlock \<Rightarrow> nat \<Rightarrow> TOSProgram" where
  "emit_block_instructions program block blockIndex =
     (let b = tp_blocks program ! blockIndex; insts = sb_instructions block in
      if insts = []
      then program\<lparr>tp_blocks := (tp_blocks program)
                     [blockIndex := b\<lparr>tb_firstInstr := TOS_INVALID_INSTR, tb_instrCount := 0\<rparr>]\<rparr>
      else foldl (\<lambda>program i. append_instruction program (insts ! i) (sb_id block) i)
             (program\<lparr>tp_blocks := (tp_blocks program)
                        [blockIndex := b\<lparr>tb_firstInstr := length (tp_instructions program),
                                         tb_instrCount := length insts\<rparr>]\<rparr>)
             [0..<length insts])"

text \<open>The block array is filled front to back.\<close>

definition tosBuildFromMDS :: "MDSProgram \<Rightarrow> TOSProgram" where
  "tosBuildFromMDS program =
     foldl (\<lambda>tos i. emit_block_instructions
              (tos\<lparr>tp_blocks := tp_blocks tos @ [copy_block_metadata (sp_blocks program ! i) i]\<rparr>)
              (sp_blocks program ! i) i)
       \<lparr>tp_machine = sp_machine program, tp_blocks = [], tp_instructions = [],
        tp_orderKind = TOS_ORDER_INPUT, tp_isFinalized = False\<rparr>
       [0..<length (sp_blocks program)]"

definition tos_find_block_index :: "TOSProgram \<Rightarrow> u32 \<Rightarrow> nat option" where
  "tos_find_block_index program blockId =
     find (\<lambda>i. tb_id (tp_blocks program ! i) = blockId) [0..<length (tp_blocks program)]"

text \<open>A deep copy: the same value.\<close>

definition tos_clone_program :: "TOSProgram \<Rightarrow> TOSProgram" where
  "tos_clone_program program =
     program\<lparr>tp_blocks := map (\<lambda>b. b\<lparr>tb_successors := map id (tb_successors b)\<rparr>) (tp_blocks program),
             tp_instructions := map (\<lambda>i. i\<lparr>ti_operands := map id (ti_operands i)\<rparr>) (tp_instructions program)\<rparr>"

section \<open>Layout\<close>

text \<open>
  \<^verbatim>\<open>visit_block\<close> is a depth-first search over the blocks its block's successor ids name;
  \<^verbatim>\<open>compute_layout_order\<close> starts it at block 0 and then at every block not yet seen, and reverses
  the postorder.
\<close>

definition tos_succs :: "TOSProgram \<Rightarrow> nat \<Rightarrow> nat list" where
  "tos_succs program i =
     List.map_filter (tos_find_block_index program) (tb_successors (tp_blocks program ! i))"

definition compute_layout_order :: "TOSProgram \<Rightarrow> nat list" where
  "compute_layout_order program =
     (let n = length (tp_blocks program) in
      if n = 0 then []
      else (case dfs (tos_succs program) (0 # [0..<n]) (replicate n False) of
              (_, _, postorder) \<Rightarrow> rev postorder))"

definition rebuild_instruction_stream ::
  "TOSProgram \<Rightarrow> nat list \<Rightarrow> TOSBlock list \<times> TOSInst list" where
  "rebuild_instruction_stream program order =
     foldl (\<lambda>(target, rebuilt) layoutIndex.
              let sourceBlock = tp_blocks program ! (order ! layoutIndex);
                  sourceFirst = tb_firstInstr sourceBlock; n = tb_instrCount sourceBlock
              in (target @ [sourceBlock\<lparr>tb_layoutIndex := layoutIndex,
                              tb_firstInstr := if n = 0 then TOS_INVALID_INSTR else length rebuilt\<rparr>],
                  rebuilt @ map (\<lambda>i. (tp_instructions program ! (sourceFirst + i))
                                       \<lparr>ti_id := length rebuilt + i, ti_order := i\<rparr>) [0..<n]))
       ([], []) [0..<length (tp_blocks program)]"

text \<open>
  The validator reads the instruction array at positions it has not compared with its length: such
  a read past the end is undefined.
\<close>

fun tos_check_insts :: "TOSInst list \<Rightarrow> TOSBlock \<Rightarrow> nat \<Rightarrow> nat list \<Rightarrow> bool cres" where
  "tos_check_insts insts b cursor [] = Inr True"
| "tos_check_insts insts b cursor (i # is) =
     cbind (arr_get insts (cursor + i)) (\<lambda>inst.
       if ti_id inst \<noteq> cursor + i \<or> ti_blockId inst \<noteq> tb_id b \<or> ti_order inst \<noteq> i \<or> ti_desc inst = None
       then Inr False else tos_check_insts insts b cursor is)"

fun tos_validate_blocks :: "TOSInst list \<Rightarrow> nat \<Rightarrow> nat \<Rightarrow> TOSBlock list \<Rightarrow> bool cres" where
  "tos_validate_blocks insts blockIndex cursor [] = Inr (cursor = length insts)"
| "tos_validate_blocks insts blockIndex cursor (b # bs) =
     (if tb_layoutIndex b \<noteq> blockIndex then Inr False
      else if tb_instrCount b = 0 then
        (if tb_firstInstr b \<noteq> TOS_INVALID_INSTR then Inr False
         else tos_validate_blocks insts (Suc blockIndex) cursor bs)
      else if tb_firstInstr b \<noteq> cursor then Inr False
      else cbind (tos_check_insts insts b cursor [0..<tb_instrCount b]) (\<lambda>ok.
             if ok then tos_validate_blocks insts (Suc blockIndex) (cursor + tb_instrCount b) bs
             else Inr False))"

definition tosValidateProgram :: "TOSProgram \<Rightarrow> bool cres" where
  "tosValidateProgram program = tos_validate_blocks (tp_instructions program) 0 0 (tp_blocks program)"

definition tosFinalizeProgram :: "TOSProgram \<Rightarrow> bool cres \<times> TOSProgram" where
  "tosFinalizeProgram program =
     (if tp_isFinalized program \<and> tp_orderKind program = TOS_ORDER_REVERSE_POSTORDER
      then (tosValidateProgram program, program)
      else if tp_blocks program = []
      then (Inr True, program\<lparr>tp_orderKind := TOS_ORDER_REVERSE_POSTORDER, tp_isFinalized := True\<rparr>)
      else let (blocks, insts) = rebuild_instruction_stream program (compute_layout_order program);
               program1 = program\<lparr>tp_blocks := blocks, tp_instructions := insts,
                                  tp_orderKind := TOS_ORDER_REVERSE_POSTORDER, tp_isFinalized := True\<rparr>
           in (tosValidateProgram program1, program1))"

section \<open>Optimization context and versions\<close>

record TOSContext =
  tc_machine :: "MDSMachine option"
  tc_peepholesApplied :: u64
  tc_subInstrCreated :: u64
  tc_tracesCompiled :: u64
  tc_versionsGenerated :: u64

definition tos_create :: "MDSMachine option \<Rightarrow> TOSContext" where
  "tos_create machine =
     \<lparr>tc_machine = machine, tc_peepholesApplied = 0, tc_subInstrCreated = 0, tc_tracesCompiled = 0,
      tc_versionsGenerated = 0\<rparr>"

definition tos_apply_peepholes :: "TOSContext \<Rightarrow> TOSProgram \<Rightarrow> bool cres \<times> TOSContext \<times> TOSProgram" where
  "tos_apply_peepholes ctx prog =
     (let (ok, prog1) = tosFinalizeProgram prog
      in (ok, ctx\<lparr>tc_peepholesApplied := tc_peepholesApplied ctx + 1\<rparr>, prog1))"

definition tos_apply_subinstr :: "TOSContext \<Rightarrow> TOSProgram \<Rightarrow> bool cres \<times> TOSContext \<times> TOSProgram" where
  "tos_apply_subinstr ctx prog =
     (let (ok, prog1) = tosFinalizeProgram prog
      in (ok, ctx\<lparr>tc_subInstrCreated := tc_subInstrCreated ctx + 1\<rparr>, prog1))"

definition tos_optimize_program :: "TOSContext \<Rightarrow> TOSProgram \<Rightarrow> bool cres \<times> TOSContext \<times> TOSProgram" where
  "tos_optimize_program ctx prog =
     (case tosFinalizeProgram prog of
        (Inr True, prog1) \<Rightarrow> tos_apply_subinstr ctx prog1
      | (r, prog1) \<Rightarrow> (r, ctx, prog1))"

definition tos_reset_stats :: "TOSContext \<Rightarrow> TOSContext" where
  "tos_reset_stats ctx =
     ctx\<lparr>tc_peepholesApplied := 0, tc_subInstrCreated := 0, tc_tracesCompiled := 0, tc_versionsGenerated := 0\<rparr>"

definition tos_trace_compile :: "TOSContext \<Rightarrow> u64 \<Rightarrow> bool \<times> TOSContext" where
  "tos_trace_compile ctx i =
     (if i = - 1 then (False, ctx) else (True, ctx\<lparr>tc_tracesCompiled := tc_tracesCompiled ctx + 1\<rparr>))"

record TOSVersionCandidate =
  vc_id :: u32
  vc_program :: "TOSProgram option"
  vc_measuredCycles :: u64

text \<open>The output array is given by its length; \<open>None\<close> is a null array.\<close>

definition tos_generate_versions ::
  "TOSContext \<Rightarrow> TOSProgram \<Rightarrow> TOSVersionCandidate list option \<Rightarrow>
     TOSContext \<times> TOSVersionCandidate list option \<times> nat" where
  "tos_generate_versions ctx input out =
     (case out of
        Some (_ # rest) \<Rightarrow>
          (ctx\<lparr>tc_versionsGenerated := tc_versionsGenerated ctx + 1\<rparr>,
           Some (\<lparr>vc_id = 0, vc_program = Some (tos_clone_program input),
                  vc_measuredCycles = of_nat (length (tp_instructions input))\<rparr> # rest), 1)
      | _ \<Rightarrow> (ctx, out, 1))"

definition tos_benchmark_versions :: "TOSVersionCandidate list \<Rightarrow> TOSVersionCandidate list" where
  "tos_benchmark_versions versions =
     map (\<lambda>v. v\<lparr>vc_measuredCycles := (case vc_program v of None \<Rightarrow> - 1
                   | Some p \<Rightarrow> of_nat (length (tp_instructions p)))\<rparr>) versions"

definition tos_select_best_version :: "TOSVersionCandidate list \<Rightarrow> (u32 \<times> u64) option" where
  "tos_select_best_version versions =
     (case versions of
        [] \<Rightarrow> None
      | v # vs \<Rightarrow>
          Some (foldl (\<lambda>(bestId, bestCycles) w.
                   if vc_measuredCycles w < bestCycles then (vc_id w, vc_measuredCycles w)
                   else (bestId, bestCycles)) (vc_id v, vc_measuredCycles v) vs))"

text \<open>A module is optimized through selection; its stream is thrown away afterwards.\<close>

definition tos_optimize_module :: "TOSContext \<Rightarrow> MDSMachine MALModule \<Rightarrow> bool cres \<times> TOSContext" where
  "tos_optimize_module ctx module =
     (case tc_machine ctx of
        None \<Rightarrow> (Inr False, ctx)
      | Some machine \<Rightarrow>
          (case malLowerToMDS module (Some (mdsCreateSelector machine)) of
             None \<Rightarrow> (Inr False, ctx)
           | Some mdsProgram \<Rightarrow>
               (case tos_optimize_program ctx (tosBuildFromMDS mdsProgram) of (ok, ctx1, _) \<Rightarrow> (ok, ctx1))))"

section \<open>Placing segments one after the other\<close>

text \<open>
  Both loops that fill a stream place blocks with their instructions one after the other; \<open>place\<close>
  is one such step on a block and its instructions.
\<close>

definition place :: "TOSBlock list \<times> TOSInst list \<Rightarrow> TOSBlock \<times> TOSInst list \<Rightarrow> TOSBlock list \<times> TOSInst list" where
  "place st bs = (case st of (blocks, insts) \<Rightarrow> case bs of (b, seg) \<Rightarrow>
     (blocks @ [b\<lparr>tb_layoutIndex := length blocks,
                  tb_firstInstr := if seg = [] then TOS_INVALID_INSTR else length insts,
                  tb_instrCount := length seg\<rparr>],
      insts @ map (\<lambda>i. (seg ! i)\<lparr>ti_id := length insts + i, ti_order := i\<rparr>) [0..<length seg]))"

definition tos_code :: "TOSInst \<Rightarrow> MDSInstruction option \<times> MALOperand list" where
  "tos_code inst = (ti_desc inst, ti_operands inst)"

definition block_segment :: "TOSInst list \<Rightarrow> TOSBlock \<Rightarrow> TOSInst list" where
  "block_segment insts b = (if tb_instrCount b = 0 then []
     else map (\<lambda>i. insts ! (tb_firstInstr b + i)) [0..<tb_instrCount b])"

text \<open>What a stream says: the blocks in layout order with their ids, successors and code.\<close>

definition tos_contents ::
  "TOSBlock list \<Rightarrow> TOSInst list \<Rightarrow> (u32 \<times> u32 list \<times> (MDSInstruction option \<times> MALOperand list) list) list" where
  "tos_contents blocks insts =
     map (\<lambda>b. (tb_id b, tb_successors b, map tos_code (block_segment insts b))) blocks"

definition segments_ok :: "(TOSBlock \<times> TOSInst list) list \<Rightarrow> bool" where
  "segments_ok xs \<longleftrightarrow>
     (\<forall>(b, seg)\<in>set xs. \<forall>i\<in>set seg. ti_blockId i = tb_id b \<and> ti_desc i \<noteq> None)"

lemma tos_check_insts_True:
  "tos_check_insts insts b cursor is = Inr True \<longleftrightarrow>
     (\<forall>i\<in>set is. cursor + i < length insts \<and> ti_id (insts ! (cursor + i)) = cursor + i
        \<and> ti_blockId (insts ! (cursor + i)) = tb_id b \<and> ti_order (insts ! (cursor + i)) = i
        \<and> ti_desc (insts ! (cursor + i)) \<noteq> None)"
  by (induction insts b cursor "is" rule: tos_check_insts.induct)
    (auto simp: cbind_eq_Inr arr_get_def split: if_splits)

lemma place_prefix:
  "foldl place (bs0, is0) xs = (bs, is) \<Longrightarrow> (\<exists>nb. bs = bs0 @ nb) \<and> (\<exists>ni. is = is0 @ ni)"
proof (induction xs arbitrary: bs0 is0)
  case (Cons x xs)
  obtain bs1 is1 where p: "place (bs0, is0) x = (bs1, is1)" by fastforce
  then have "(\<exists>nb. bs1 = bs0 @ nb) \<and> (\<exists>ni. is1 = is0 @ ni)" by (auto simp: place_def split: prod.splits)
  moreover have "(\<exists>nb. bs = bs1 @ nb) \<and> (\<exists>ni. is = is1 @ ni)" using Cons p by simp
  ultimately show ?case by auto
qed simp

text \<open>Placing segments whose instructions belong to their blocks gives a valid stream with their contents.\<close>

lemma place_valid:
  assumes "foldl place (bs0, is0) xs = (bs, is)" and "segments_ok xs"
  shows "tos_validate_blocks is (length bs0) (length is0) (drop (length bs0) bs) = Inr True
    \<and> tos_contents (drop (length bs0) bs) is = map (\<lambda>(b, seg). (tb_id b, tb_successors b, map tos_code seg)) xs"
  using assms
proof (induction xs arbitrary: bs0 is0)
  case Nil
  then show ?case by (simp add: tos_contents_def)
next
  case (Cons x xs)
  obtain b seg where x: "x = (b, seg)" by fastforce
  let ?b = "b\<lparr>tb_layoutIndex := length bs0,
              tb_firstInstr := if seg = [] then TOS_INVALID_INSTR else length is0,
              tb_instrCount := length seg\<rparr>"
  let ?seg = "map (\<lambda>i. (seg ! i)\<lparr>ti_id := length is0 + i, ti_order := i\<rparr>) [0..<length seg]"
  have "place (bs0, is0) x = (bs0 @ [?b], is0 @ ?seg)" by (simp add: x place_def)
  then have step: "foldl place (bs0 @ [?b], is0 @ ?seg) xs = (bs, is)"
    using Cons.prems(1) by (simp only: foldl_Cons)
  obtain nb ni where split: "bs = (bs0 @ [?b]) @ nb" "is = (is0 @ ?seg) @ ni"
    using place_prefix [OF step] by blast
  then have at: "is ! (length is0 + i) = (seg ! i)\<lparr>ti_id := length is0 + i, ti_order := i\<rparr>"
      "length is0 + i < length is" if "i < length seg" for i
    using that by (simp_all add: nth_append)
  have drop: "drop (length bs0) bs = ?b # drop (length (bs0 @ [?b])) bs" using split(1) by simp
  have IH: "tos_validate_blocks is (Suc (length bs0)) (length is0 + length seg)
        (drop (length (bs0 @ [?b])) bs) = Inr True"
      "tos_contents (drop (length (bs0 @ [?b])) bs) is
        = map (\<lambda>(b, seg). (tb_id b, tb_successors b, map tos_code seg)) xs"
    using Cons.IH [OF step] Cons.prems(2) by (simp_all add: segments_ok_def)
  have "tos_check_insts is ?b (length is0) [0..<length seg] = Inr True"
    using at Cons.prems(2) by (auto simp: tos_check_insts_True segments_ok_def x)
  moreover have "map tos_code (block_segment is ?b) = map tos_code seg"
    using at by (intro nth_equalityI) (auto simp: block_segment_def tos_code_def)
  ultimately show ?case
    using IH unfolding drop by (auto simp: cbind_def tos_contents_def x)
qed

section \<open>Building\<close>

definition built_segment :: "MDSBasicBlock \<Rightarrow> TOSBlock \<times> TOSInst list" where
  "built_segment b =
     (copy_block_metadata b 0,
      map (\<lambda>inst. \<lparr>ti_id = 0, ti_blockId = sb_id b, ti_order = 0, ti_desc = Some (si_desc inst),
                   ti_operands = si_operands inst\<rparr>) (sb_instructions b))"

lemma append_loop:
  "foldl (\<lambda>program i. append_instruction program (f i) bid i) program [0..<n] =
     program\<lparr>tp_instructions := tp_instructions program @
       map (\<lambda>i. \<lparr>ti_id = length (tp_instructions program) + i, ti_blockId = bid, ti_order = i,
                 ti_desc = Some (si_desc (f i)), ti_operands = si_operands (f i)\<rparr>) [0..<n]\<rparr>"
  by (induction n) (simp_all add: append_instruction_def)

lemma build_step:
  assumes "length (tp_blocks tos) = i"
  shows "emit_block_instructions (tos\<lparr>tp_blocks := tp_blocks tos @ [copy_block_metadata b i]\<rparr>) b i =
    (case place (tp_blocks tos, tp_instructions tos) (built_segment b) of
       (blocks, insts) \<Rightarrow> tos\<lparr>tp_blocks := blocks, tp_instructions := insts\<rparr>)"
  using assms
  by (auto simp: emit_block_instructions_def Let_def append_loop place_def built_segment_def
      copy_block_metadata_def list_update_append)

lemma place_length: "foldl place (bs0, is0) xs = (bs, is) \<Longrightarrow> length bs = length bs0 + length xs"
proof (induction xs arbitrary: bs0 is0)
  case (Cons x xs)
  obtain bs1 is1 where p: "place (bs0, is0) x = (bs1, is1)" by fastforce
  then have "length bs1 = Suc (length bs0)" by (auto simp: place_def split: prod.splits)
  with Cons p show ?case by simp
qed simp

lemma build_loop:
  assumes "k \<le> length (sp_blocks p)"
  shows "foldl (\<lambda>tos i. emit_block_instructions
           (tos\<lparr>tp_blocks := tp_blocks tos @ [copy_block_metadata (sp_blocks p ! i) i]\<rparr>) (sp_blocks p ! i) i)
           \<lparr>tp_machine = sp_machine p, tp_blocks = [], tp_instructions = [],
            tp_orderKind = TOS_ORDER_INPUT, tp_isFinalized = False\<rparr> [0..<k]
       = (case foldl place ([], []) (map built_segment (take k (sp_blocks p))) of
            (blocks, insts) \<Rightarrow>
              \<lparr>tp_machine = sp_machine p, tp_blocks = blocks, tp_instructions = insts,
               tp_orderKind = TOS_ORDER_INPUT, tp_isFinalized = False\<rparr>)"
  using assms
proof (induction k)
  case (Suc k)
  obtain bs ts where p: "foldl place ([], []) (map built_segment (take k (sp_blocks p))) = (bs, ts)" by fastforce
  have "length bs = k" using place_length [OF p] Suc.prems by simp
  let ?tos = "\<lparr>tp_machine = sp_machine p, tp_blocks = bs, tp_instructions = ts,
               tp_orderKind = TOS_ORDER_INPUT, tp_isFinalized = False\<rparr>"
  from \<open>length bs = k\<close> show ?case
    using Suc p build_step [of ?tos k "sp_blocks p ! k"]
    by (simp add: take_Suc_conv_app_nth split: prod.splits)
qed simp

lemma tosBuildFromMDS_eq:
  "tosBuildFromMDS p =
     (case foldl place ([], []) (map built_segment (sp_blocks p)) of
        (blocks, insts) \<Rightarrow>
          \<lparr>tp_machine = sp_machine p, tp_blocks = blocks, tp_instructions = insts,
           tp_orderKind = TOS_ORDER_INPUT, tp_isFinalized = False\<rparr>)"
  using build_loop [of "length (sp_blocks p)" p] by (simp add: tosBuildFromMDS_def)

definition mds_contents ::
  "MDSProgram \<Rightarrow> (u32 \<times> u32 list \<times> (MDSInstruction option \<times> MALOperand list) list) list" where
  "mds_contents p =
     map (\<lambda>b. (sb_id b, sb_successors b, map (\<lambda>i. (Some (si_desc i), si_operands i)) (sb_instructions b)))
       (sp_blocks p)"

lemma built_valid:
  "tosValidateProgram (tosBuildFromMDS p) = Inr True"
  "tos_contents (tp_blocks (tosBuildFromMDS p)) (tp_instructions (tosBuildFromMDS p)) = mds_contents p"
proof -
  obtain bs ts where f: "foldl place ([], []) (map built_segment (sp_blocks p)) = (bs, ts)" by fastforce
  have ok: "segments_ok (map built_segment (sp_blocks p))"
    by (auto simp: segments_ok_def built_segment_def copy_block_metadata_def)
  show "tosValidateProgram (tosBuildFromMDS p) = Inr True"
    using place_valid [OF f ok] by (simp add: tosBuildFromMDS_eq f tosValidateProgram_def)
  show "tos_contents (tp_blocks (tosBuildFromMDS p)) (tp_instructions (tosBuildFromMDS p)) = mds_contents p"
    using place_valid [OF f ok]
    by (simp add: tosBuildFromMDS_eq f mds_contents_def built_segment_def copy_block_metadata_def
        tos_code_def o_def)
qed

section \<open>Finalizing\<close>

lemma validated_segments:
  "tos_validate_blocks insts i cursor bs = Inr True \<Longrightarrow> b \<in> set bs \<Longrightarrow>
     \<forall>x\<in>set (block_segment insts b). ti_blockId x = tb_id b \<and> ti_desc x \<noteq> None"
proof (induction insts i cursor bs rule: tos_validate_blocks.induct)
  case (2 insts i cursor c bs)
  show ?case
  proof (cases "b = c")
    case True
    with 2(3) show ?thesis
      by (auto simp: block_segment_def cbind_eq_Inr tos_check_insts_True split: if_splits)
  next
    case False
    with 2 show ?thesis by (auto simp: cbind_eq_Inr split: if_splits)
  qed
qed simp

lemma layout_order_perm:
  "distinct (compute_layout_order program)
   \<and> set (compute_layout_order program) = {i. i < length (tp_blocks program)}"
proof (cases "tp_blocks program = []")
  case False
  let ?n = "length (tp_blocks program)"
  obtain v pre post where d: "dfs (tos_succs program) (0 # [0..<?n]) (replicate ?n False) = (v, pre, post)"
    by (metis prod.exhaust)
  have m: "dfs_marks (replicate ?n False) (v, pre, post)"
    using dfs_marks [of "replicate ?n False" "tos_succs program" "0 # [0..<?n]"] d by simp
  have c: "dfs_closed (tos_succs program) (0 # [0..<?n]) (v, pre, post)"
    using dfs_closed [of "tos_succs program" "0 # [0..<?n]" "replicate ?n False"] d by simp
  have "length v = ?n" "distinct post" "set post = set pre" using m by (simp_all add: dfs_marks_def)
  moreover have "i \<in> set pre \<longleftrightarrow> i < ?n" for i
  proof
    show "i \<in> set pre \<Longrightarrow> i < ?n" using m by (simp add: dfs_marks_def)
    assume i: "i < ?n"
    then have "v ! i" using c \<open>length v = ?n\<close> by (simp add: dfs_closed_def)
    with i m show "i \<in> set pre" by (simp add: dfs_marks_def)
  qed
  ultimately have "distinct post \<and> set post = {i. i < ?n}" by blast
  with d False show ?thesis by (simp add: compute_layout_order_def)
qed (simp add: compute_layout_order_def)

definition moved_segment :: "TOSProgram \<Rightarrow> nat \<Rightarrow> TOSBlock \<times> TOSInst list" where
  "moved_segment program i = (let b = tp_blocks program ! i in (b, block_segment (tp_instructions program) b))"

lemma rebuild_step:
  "place (target, rebuilt) (moved_segment program i) =
     (let sourceBlock = tp_blocks program ! i;
          sourceFirst = tb_firstInstr sourceBlock; n = tb_instrCount sourceBlock
      in (target @ [sourceBlock\<lparr>tb_layoutIndex := length target,
                      tb_firstInstr := if n = 0 then TOS_INVALID_INSTR else length rebuilt\<rparr>],
          rebuilt @ map (\<lambda>i. (tp_instructions program ! (sourceFirst + i))
                               \<lparr>ti_id := length rebuilt + i, ti_order := i\<rparr>) [0..<n]))"
  by (simp add: place_def moved_segment_def block_segment_def Let_def)

lemma rebuild_loop:
  assumes "k \<le> length order"
  shows "foldl (\<lambda>(target, rebuilt) layoutIndex.
              let sourceBlock = tp_blocks program ! (order ! layoutIndex);
                  sourceFirst = tb_firstInstr sourceBlock; n = tb_instrCount sourceBlock
              in (target @ [sourceBlock\<lparr>tb_layoutIndex := layoutIndex,
                              tb_firstInstr := if n = 0 then TOS_INVALID_INSTR else length rebuilt\<rparr>],
                  rebuilt @ map (\<lambda>i. (tp_instructions program ! (sourceFirst + i))
                                       \<lparr>ti_id := length rebuilt + i, ti_order := i\<rparr>) [0..<n]))
       ([], []) [0..<k] = foldl place ([], []) (map (moved_segment program) (take k order))"
  using assms
proof (induction k)
  case (Suc k)
  obtain bs ts where p: "foldl place ([], []) (map (moved_segment program) (take k order)) = (bs, ts)" by fastforce
  have "length bs = k" using place_length [OF p] Suc.prems by simp
  with Suc p show ?case by (simp add: take_Suc_conv_app_nth rebuild_step Let_def)
qed simp

lemma place_code:
  "foldl place (bs0, is0) xs = (bs, is) \<Longrightarrow>
     map tos_code is = map tos_code is0 @ concat (map (map tos_code \<circ> snd) xs)"
proof (induction xs arbitrary: bs0 is0)
  case (Cons x xs)
  obtain b seg where x: "x = (b, seg)" by fastforce
  have "map (\<lambda>i. tos_code ((seg ! i)\<lparr>ti_id := j + i, ti_order := i\<rparr>)) [0..<length seg] = map tos_code seg" for j
    by (rule nth_equalityI) (simp_all add: tos_code_def)
  with Cons x show ?case by (simp add: place_def o_def)
qed simp

text \<open>A program of one block keeps its code as a whole.\<close>

lemma single_block_code:
  assumes "sp_blocks p = [b]"
  shows "map tos_code (tp_instructions (tosBuildFromMDS p))
       = map (\<lambda>i. (Some (si_desc i), si_operands i)) (sb_instructions b)"
    and "map tos_code (tp_instructions (snd (tosFinalizeProgram (tosBuildFromMDS p))))
       = map (\<lambda>i. (Some (si_desc i), si_operands i)) (sb_instructions b)"
proof -
  let ?t = "tosBuildFromMDS p"
  obtain bs ts where f: "foldl place ([], []) (map built_segment (sp_blocks p)) = (bs, ts)" by fastforce
  have t: "tp_blocks ?t = bs" "tp_instructions ?t = ts" "\<not> tp_isFinalized ?t"
    by (simp_all add: tosBuildFromMDS_eq f)
  show code: "map tos_code (tp_instructions ?t) = map (\<lambda>i. (Some (si_desc i), si_operands i)) (sb_instructions b)"
    using place_code [OF f] assms by (simp add: t built_segment_def tos_code_def o_def)
  have len: "length bs = 1" using place_length [OF f] assms by simp
  have "distinct (compute_layout_order ?t)" "set (compute_layout_order ?t) = {0}"
    using layout_order_perm [of ?t] len t(1) by auto
  then have "compute_layout_order ?t = [0]"
    by (cases "compute_layout_order ?t") (auto simp: subset_singleton_iff)
  moreover obtain bs' ts' where r: "rebuild_instruction_stream ?t (compute_layout_order ?t) = (bs', ts')" by fastforce
  ultimately have "foldl place ([], []) [moved_segment ?t 0] = (bs', ts')"
    using rebuild_loop [of 1 "[0]" ?t] len t(1) by (simp add: rebuild_instruction_stream_def)
  from place_code [OF this] have "map tos_code ts' = map tos_code (block_segment ts (bs ! 0))"
    by (simp add: moved_segment_def t Let_def)
  also have "\<dots> = map (\<lambda>i. (Some (si_desc i), si_operands i)) (sb_instructions b)"
    using built_valid(2) [of p] assms len
    by (auto simp: tos_contents_def mds_contents_def t length_Suc_conv)
  finally show "map tos_code (tp_instructions (snd (tosFinalizeProgram ?t)))
       = map (\<lambda>i. (Some (si_desc i), si_operands i)) (sb_instructions b)"
    using t len r by (auto simp: tosFinalizeProgram_def Let_def)
qed

lemma finalize_valid:
  assumes "tosValidateProgram t = Inr True"
    and "rebuild_instruction_stream t (compute_layout_order t) = (bs, ts)"
  shows "tos_validate_blocks ts 0 0 bs = Inr True
    \<and> tos_contents bs ts
        = map (\<lambda>i. tos_contents (tp_blocks t) (tp_instructions t) ! i) (compute_layout_order t)"
proof -
  let ?order = "compute_layout_order t"
  have perm: "distinct ?order" "set ?order = {i. i < length (tp_blocks t)}" using layout_order_perm by auto
  have len: "length ?order = length (tp_blocks t)" by (rule distinct_full_length [OF perm])
  have f: "foldl place ([], []) (map (moved_segment t) ?order) = (bs, ts)"
    using assms(2) rebuild_loop [of "length ?order" ?order t] len
    by (simp add: rebuild_instruction_stream_def)
  have "segments_ok (map (moved_segment t) ?order)"
    unfolding segments_ok_def
  proof (intro ballI, clarify)
    fix b seg x assume "(b, seg) \<in> set (map (moved_segment t) ?order)" and x: "x \<in> set seg"
    then obtain i where i: "i < length (tp_blocks t)" "b = tp_blocks t ! i"
        "seg = block_segment (tp_instructions t) b"
      using perm(2) by (auto simp: moved_segment_def Let_def)
    then have "b \<in> set (tp_blocks t)" by simp
    with validated_segments [OF assms(1) [unfolded tosValidateProgram_def]] x i(3)
    show "ti_blockId x = tb_id b \<and> ti_desc x \<noteq> None" by blast
  qed
  from place_valid [OF f this] have "tos_validate_blocks ts 0 0 bs = Inr True"
      "tos_contents bs ts = map (\<lambda>(b, seg). (tb_id b, tb_successors b, map tos_code seg)) (map (moved_segment t) ?order)"
    by simp_all
  then show ?thesis
    using perm(2) by (auto simp: moved_segment_def Let_def tos_contents_def)
qed

lemma stream_preserved:
  "let t = tosBuildFromMDS p; t' = snd (tosFinalizeProgram t) in
     tosValidateProgram t = Inr True
   \<and> tos_contents (tp_blocks t) (tp_instructions t) = mds_contents p
   \<and> fst (tosFinalizeProgram t) = Inr True \<and> tosValidateProgram t' = Inr True
   \<and> mset (tos_contents (tp_blocks t') (tp_instructions t')) = mset (mds_contents p)
   \<and> tp_isFinalized t' \<and> tp_orderKind t' = TOS_ORDER_REVERSE_POSTORDER
   \<and> tosFinalizeProgram t' = (Inr True, t')"
proof -
  let ?t = "tosBuildFromMDS p"
  let ?c = "tos_contents (tp_blocks ?t) (tp_instructions ?t)"
  have nf: "\<not> tp_isFinalized ?t" by (simp add: tosBuildFromMDS_eq split: prod.splits)
  show ?thesis
  proof (cases "tp_blocks ?t = []")
    case True
    then have "?c = []" by (simp add: tos_contents_def)
    with True nf built_valid [of p] show ?thesis
      by (simp add: tosFinalizeProgram_def Let_def tosValidateProgram_def tos_contents_def)
  next
    case False
    obtain bs ts where r: "rebuild_instruction_stream ?t (compute_layout_order ?t) = (bs, ts)" by fastforce
    note fv = finalize_valid [OF built_valid(1) r]
    have perm: "distinct (compute_layout_order ?t)" "set (compute_layout_order ?t) = {i. i < length (tp_blocks ?t)}"
      using layout_order_perm by auto
    have "mset (compute_layout_order ?t) = mset [0..<length (tp_blocks ?t)]"
      using set_eq_iff_mset_eq_distinct [OF perm(1) distinct_upt, of 0 "length (tp_blocks ?t)"]
        perm(2) set_upt_zero by metis
    then have "mset (map (\<lambda>i. ?c ! i) (compute_layout_order ?t)) = mset (map (\<lambda>i. ?c ! i) [0..<length (tp_blocks ?t)])"
      by (simp only: mset_map)
    also have "map (\<lambda>i. ?c ! i) [0..<length (tp_blocks ?t)] = ?c"
      by (rule nth_equalityI) (simp_all add: tos_contents_def)
    finally have "mset (tos_contents bs ts) = mset (mds_contents p)" using fv built_valid(2) by simp
    moreover have "snd (tosFinalizeProgram ?t) = ?t\<lparr>tp_blocks := bs, tp_instructions := ts,
        tp_orderKind := TOS_ORDER_REVERSE_POSTORDER, tp_isFinalized := True\<rparr>"
      using nf False r by (simp add: tosFinalizeProgram_def Let_def)
    moreover have "fst (tosFinalizeProgram ?t) = Inr True"
      using nf False r fv by (simp add: tosFinalizeProgram_def Let_def tosValidateProgram_def)
    ultimately show ?thesis
      using fv built_valid [of p]
      by (simp add: Let_def tosFinalizeProgram_def [of "_\<lparr>tp_isFinalized := True\<rparr>"] tosValidateProgram_def)
  qed
qed

text \<open>
  C11. The stream built from a selected program is valid and has the program's blocks, successors,
  instructions and operands, in order; finalizing it succeeds, marks it finalized in reverse
  postorder and leaves a valid stream with the same blocks and code, permuted as a whole block at a
  time; finalizing again changes nothing.
\<close>

theorem tos_stream_preserved:
  "let t = tosBuildFromMDS p; t' = snd (tosFinalizeProgram t) in
     tosValidateProgram t = Inr True
   \<and> tos_contents (tp_blocks t) (tp_instructions t) = mds_contents p
   \<and> fst (tosFinalizeProgram t) = Inr True \<and> tosValidateProgram t' = Inr True
   \<and> mset (tos_contents (tp_blocks t') (tp_instructions t')) = mset (mds_contents p)
   \<and> tp_isFinalized t' \<and> tp_orderKind t' = TOS_ORDER_REVERSE_POSTORDER
   \<and> tosFinalizeProgram t' = (Inr True, t')"
  by (rule stream_preserved)

section \<open>Where the entry block goes\<close>

lemma tos_succs_less: "j \<in> set (tos_succs t i) \<Longrightarrow> j < length (tp_blocks t)"
  by (auto simp: tos_succs_def map_filter_def tos_find_block_index_def)
    (metis find_SomeD atLeastLessThan_iff set_upt)

text \<open>
  The first block of the layout is the entry block, block 0, exactly when every block is
  reachable from it: the postorder is reversed as a whole, so a block that is only found by the
  later searches comes before the entry.
\<close>

theorem tos_entry_first_iff:
  assumes "tp_blocks t \<noteq> []"
  shows "compute_layout_order t ! 0 = 0 \<longleftrightarrow>
    (\<forall>i<length (tp_blocks t). (0, i) \<in> (edge (tos_succs t))\<^sup>*)"
proof -
  let ?n = "length (tp_blocks t)" and ?s = "tos_succs t"
  let ?vis = "replicate ?n False"
  obtain v1 pre1 post1 where d1: "dfs ?s (?s 0) (?vis[0 := True]) = (v1, pre1, post1)" by (metis prod.exhaust)
  obtain v2 pre2 post2 where d2: "dfs ?s [0..<?n] v1 = (v2, pre2, post2)" by (metis prod.exhaust)
  have n: "0 < ?n" using assms by simp
  have single: "dfs ?s [0] ?vis = (v1, 0 # pre1 @ [], post1 @ 0 # [])"
    by (rule dfs_enter) (use n d1 in simp_all)
  have whole: "dfs ?s (0 # [0..<?n]) ?vis = (v2, 0 # pre1 @ pre2, post1 @ 0 # post2)"
    by (rule dfs_enter) (use n d1 d2 in simp_all)
  have m1: "dfs_marks ?vis (v1, 0 # pre1, post1 @ [0])"
    using dfs_marks [of ?vis ?s "[0]"] single by simp
  then have len: "length v1 = ?n" by (simp add: dfs_marks_def)
  have seen: "v1 ! i \<longleftrightarrow> (0, i) \<in> (edge ?s)\<^sup>*" if "i < ?n" for i
  proof -
    have "set (0 # pre1) = (edge ?s)\<^sup>* `` {0}"
      using dfs_from(4) [of ?n ?s 0, OF _ n single] tos_succs_less by simp
    then have "i \<in> set (0 # pre1) \<longleftrightarrow> (0, i) \<in> (edge ?s)\<^sup>*" by blast
    moreover have "v1 ! i \<longleftrightarrow> i \<in> set (0 # pre1)" using m1 that by (simp add: dfs_marks_def)
    ultimately show ?thesis by simp
  qed
  have m2: "dfs_marks v1 (v2, pre2, post2)" using dfs_marks [of v1 ?s "[0..<?n]"] d2 by simp
  have c2: "dfs_closed ?s [0..<?n] (v2, pre2, post2)" using dfs_closed [of ?s "[0..<?n]" v1] d2 by simp
  have all: "post2 = [] \<longleftrightarrow> (\<forall>i<?n. v1 ! i)"
  proof
    assume "post2 = []"
    then have "pre2 = []" using m2 by (simp add: dfs_marks_def)
    then show "\<forall>i<?n. v1 ! i" using m2 c2 len by (simp add: dfs_marks_def dfs_closed_def)
  next
    assume seen: "\<forall>i<?n. v1 ! i"
    have "i \<notin> set pre2" for i
    proof
      assume "i \<in> set pre2"
      then have "i < ?n" "\<not> v1 ! i" using m2 len by (simp_all add: dfs_marks_def)
      with seen show False by blast
    qed
    then have "set pre2 = {}" by (simp only: set_eq_iff empty_iff simp_thms)
    moreover have "set post2 = set pre2" using m2 by (simp add: dfs_marks_def)
    ultimately show "post2 = []" by simp
  qed
  have mw: "dfs_marks ?vis (v2, 0 # pre1 @ pre2, post1 @ 0 # post2)"
    using dfs_marks [of ?vis ?s "0 # [0..<?n]"] whole by simp
  have "0 \<notin> set post2" using mw by (simp add: dfs_marks_def)
  then have "last (post1 @ 0 # post2) = 0 \<longleftrightarrow> post2 = []" by (metis last_appendR last_in_set last_ConsR last_ConsL list.distinct(1))
  moreover have "compute_layout_order t ! 0 = last (post1 @ 0 # post2)"
  proof -
    have "compute_layout_order t = rev (post1 @ 0 # post2)"
      using n whole by (simp add: compute_layout_order_def Let_def)
    then show ?thesis by (simp add: hd_conv_nth [symmetric] hd_rev del: rev_append)
  qed
  ultimately show ?thesis using all seen by simp
qed

definition two_block_program :: TOSProgram where
  "two_block_program =
     \<lparr>tp_machine = mdsLoadMachine None,
      tp_blocks = [\<lparr>tb_id = 0, tb_layoutIndex = 0, tb_firstInstr = TOS_INVALID_INSTR, tb_instrCount = 0,
                    tb_successors = []\<rparr>,
                   \<lparr>tb_id = 1, tb_layoutIndex = 1, tb_firstInstr = TOS_INVALID_INSTR, tb_instrCount = 0,
                    tb_successors = []\<rparr>],
      tp_instructions = [], tp_orderKind = TOS_ORDER_INPUT, tp_isFinalized = False\<rparr>"

theorem tos_entry_first_iff_witness: "compute_layout_order two_block_program ! 0 \<noteq> 0"
proof -
  have succs: "tos_succs two_block_program i = []" if "i < 2" for i
    using that by (cases i) (auto simp: two_block_program_def tos_succs_def map_filter_def)
  have "(0, 1) \<notin> (edge (tos_succs two_block_program))\<^sup>*"
  proof
    assume "(0, 1) \<in> (edge (tos_succs two_block_program))\<^sup>*"
    then show False by (cases rule: converse_rtranclE) (use succs [of 0] in \<open>auto simp: edge_def\<close>)
  qed
  moreover have "length (tp_blocks two_block_program) = 2" "tp_blocks two_block_program \<noteq> []"
    by (simp_all add: two_block_program_def)
  ultimately show ?thesis using tos_entry_first_iff [of two_block_program] by fastforce
qed

section \<open>The cheapest version\<close>

lemma tos_select_best_version_min:
  assumes "tos_select_best_version versions = Some (bestId, bestCycles)"
  shows "bestCycles = Min (vc_measuredCycles ` set versions)
    \<and> (\<exists>v\<in>set versions. vc_id v = bestId \<and> vc_measuredCycles v = bestCycles)"
proof -
  obtain v vs where vs: "versions = v # vs" using assms by (auto simp: tos_select_best_version_def split: list.splits)
  let ?f = "\<lambda>(bestId, bestCycles) w. if vc_measuredCycles w < bestCycles then (vc_id w, vc_measuredCycles w)
              else (bestId, bestCycles)"
  have "foldl ?f (vc_id v, vc_measuredCycles v) ws = (b, c) \<Longrightarrow>
      c = Min (vc_measuredCycles ` set (v # ws)) \<and> (\<exists>x\<in>set (v # ws). vc_id x = b \<and> vc_measuredCycles x = c)"
    for ws b c
  proof (induction ws arbitrary: b c rule: rev_induct)
    case (snoc w ws)
    obtain b0 c0 where f: "foldl ?f (vc_id v, vc_measuredCycles v) ws = (b0, c0)" by fastforce
    have M: "Min (vc_measuredCycles ` set (v # ws @ [w]))
        = min (vc_measuredCycles w) (Min (vc_measuredCycles ` set (v # ws)))"
      by (simp add: insert_commute [of "vc_measuredCycles v"])
    have IH: "c0 = Min (vc_measuredCycles ` set (v # ws))"
        "\<exists>x\<in>set (v # ws). vc_id x = b0 \<and> vc_measuredCycles x = c0" using snoc.IH [OF f] by auto
    show ?case
    proof (cases "vc_measuredCycles w < c0")
      case True
      with snoc.prems f have "b = vc_id w" "c = vc_measuredCycles w" by auto
      with True show ?thesis unfolding M IH(1) [symmetric] by (auto simp: min_def)
    next
      case False
      with snoc.prems f have "b = b0" "c = c0" by auto
      with False IH(2) show ?thesis unfolding M IH(1) [symmetric] by (auto simp: min_def)
    qed
  qed auto
  then show ?thesis using assms vs by (simp add: tos_select_best_version_def)
qed

end
