(* ===== verification/Wvm_Encode.thy ===== *)
theory Wvm_Encode
  imports Tos Wvm_Safety
begin

unbundle bit_operations_syntax

text \<open>
  The bytecode encoder of \<^verbatim>\<open>wvm/wvm_encoder.c\<close>: the builder of instruction and constant arrays, the
  translation of one target-ordered instruction by its mnemonic, and \<open>wvmPrototypeFromTOS\<close>, which
  makes a prototype of a whole program. The allocator is a parameter saying which sizes it can serve;
  an array has fewer than \<open>2 ^ 31\<close> elements, so capacities are natural numbers.
\<close>

section \<open>The builder\<close>

record WVMEncodeBuilder =
  eb_instrs :: "WVMInstr list"
  eb_instrCap :: nat
  eb_consts :: "WVMValue list"
  eb_constCap :: nat
  eb_scratchReg :: WVMReg
  eb_regCount :: u16

definition wvm_builder_append_instr :: "allocator \<Rightarrow> WVMEncodeBuilder \<Rightarrow> WVMInstr \<Rightarrow> WVMEncodeBuilder option" where
  "wvm_builder_append_instr ok builder instr =
     (let newCap = (if eb_instrCap builder = 0 then 8 else eb_instrCap builder * 2);
          grow = (length (eb_instrs builder) = eb_instrCap builder) in
      if grow \<and> \<not> ok (of_nat (newCap * 8)) then None
      else Some (builder\<lparr>eb_instrs := eb_instrs builder @ [instr],
                         eb_instrCap := (if grow then newCap else eb_instrCap builder)\<rparr>))"

definition wvm_builder_append_const ::
  "allocator \<Rightarrow> WVMEncodeBuilder \<Rightarrow> WVMValue \<Rightarrow> (u32 \<times> WVMEncodeBuilder) option" where
  "wvm_builder_append_const ok builder v =
     (let newCap = (if eb_constCap builder = 0 then 4 else eb_constCap builder * 2);
          grow = (length (eb_consts builder) = eb_constCap builder) in
      if grow \<and> \<not> ok (of_nat (newCap * 8)) then None
      else Some (of_nat (length (eb_consts builder)),
                 builder\<lparr>eb_consts := eb_consts builder @ [v],
                         eb_constCap := (if grow then newCap else eb_constCap builder)\<rparr>))"

text \<open>
  The register holding an operand: an immediate is loaded into the scratch register. The bits of a
  floating-point operand are those of the value.
\<close>

definition wvm_load_const :: "allocator \<Rightarrow> WVMEncodeBuilder \<Rightarrow> WVMValue \<Rightarrow> (WVMReg \<times> WVMEncodeBuilder) option" where
  "wvm_load_const ok builder v =
     (case wvm_builder_append_const ok builder v of
        None \<Rightarrow> None
      | Some (constIndex, builder) \<Rightarrow>
          map_option (Pair (eb_scratchReg builder))
            (wvm_builder_append_instr ok builder
              (WVM_ENCODE_OP_R_CONST (wvm_opcode_num WVM_OP_LOAD_CONST) (eb_scratchReg builder) constIndex)))"

definition wvm_operand_to_reg ::
  "allocator \<Rightarrow> WVMEncodeBuilder \<Rightarrow> MALOperand \<Rightarrow> (WVMReg \<times> WVMEncodeBuilder) option" where
  "wvm_operand_to_reg ok builder operand =
     (case operand of
        MAL_OPND_REG _ r \<Rightarrow> Some (ucast r, builder)
      | MAL_OPND_IMM_INT _ v \<Rightarrow>
          if - (2 ^ 31) \<le> sint v \<and> sint v \<le> 2 ^ 31 - 1
          then map_option (Pair (eb_scratchReg builder))
                 (wvm_builder_append_instr ok builder
                   (WVM_ENCODE_OP_R_IMM32 (wvm_opcode_num WVM_OP_LOAD_IMM) (eb_scratchReg builder) (ucast v)))
          else wvm_load_const ok builder (WVM_VALUE_FROM_INT (ucast v))
      | MAL_OPND_IMM_FLOAT _ f \<Rightarrow> wvm_load_const ok builder f
      | _ \<Rightarrow> None)"

section \<open>One instruction\<close>

text \<open>Whether \<^verbatim>\<open>strstr\<close> finds the needle, and whether a mnemonic is one of the four machines' spellings.\<close>

definition strstr :: "string \<Rightarrow> string \<Rightarrow> bool" where
  "strstr haystack needle \<longleftrightarrow>
     list_ex (\<lambda>i. take (length needle) (drop i haystack) = needle) [0..<Suc (length haystack)]"

definition machine_mnemonic :: "string \<Rightarrow> string \<Rightarrow> bool" where
  "machine_mnemonic nm suffix \<longleftrightarrow>
     nm = ''x64.'' @ suffix \<or> nm = ''generic.'' @ suffix \<or> nm = ''a64.'' @ suffix \<or> nm = ''wasm.'' @ suffix"

text \<open>The tests of \<^verbatim>\<open>WVM_EMIT_BIN\<close>, in their order.\<close>

definition wvm_emit_bin_table :: "(string \<times> WVMOpcodeEnum) list" where
  "wvm_emit_bin_table =
     [(''add.'', WVM_OP_ADD), (''sub.'', WVM_OP_SUB), (''mul.'', WVM_OP_MUL), (''and.'', WVM_OP_AND),
      (''or.'', WVM_OP_OR), (''xor.'', WVM_OP_XOR), (''shl.'', WVM_OP_SHL), (''ashr.'', WVM_OP_SHR),
      (''icmp.eq'', WVM_OP_EQ), (''icmp.ne'', WVM_OP_NE), (''icmp.slt'', WVM_OP_LT),
      (''icmp.sle'', WVM_OP_LE), (''icmp.sgt'', WVM_OP_GT), (''icmp.sge'', WVM_OP_GE)]"

definition wvm_emit_bin_opcode :: "string \<Rightarrow> WVMOpcodeEnum option" where
  "wvm_emit_bin_opcode nm = map_option snd (find (\<lambda>(needle, _). strstr nm needle) wvm_emit_bin_table)"

definition wvm_emit_from_mnemonic ::
  "allocator \<Rightarrow> WVMEncodeBuilder \<Rightarrow> TOSInst \<Rightarrow> WVMEncodeBuilder option" where
  "wvm_emit_from_mnemonic ok builder inst =
     (case ti_desc inst of
        None \<Rightarrow> None
      | Some desc \<Rightarrow>
     let nm = in_mnemonic desc; ops = ti_operands inst; n = length ops in
     if machine_mnemonic nm ''mov.rr'' then
       if n \<noteq> 2 then None
       else (case operand_reg (ops ! 0) of
               None \<Rightarrow> None
             | Some d \<Rightarrow> (case wvm_operand_to_reg ok builder (ops ! 1) of
                 None \<Rightarrow> None
               | Some (rhs, builder) \<Rightarrow>
                   wvm_builder_append_instr ok builder
                     (WVM_ENCODE_OP_RR (wvm_opcode_num WVM_OP_MOVE) (ucast d) rhs)))
     else if machine_mnemonic nm ''mov.ri'' then
       if n \<noteq> 2 then None
       else (case operand_reg (ops ! 0) of
               None \<Rightarrow> None
             | Some d \<Rightarrow> (case wvm_operand_to_reg ok builder (ops ! 1) of
                 None \<Rightarrow> None
               | Some (rhs, builder) \<Rightarrow>
                   if rhs = ucast d then Some builder
                   else wvm_builder_append_instr ok builder
                          (WVM_ENCODE_OP_RR (wvm_opcode_num WVM_OP_MOVE) (ucast d) rhs)))
     else if machine_mnemonic nm ''ret'' then
       if n \<noteq> 1 then None
       else (case wvm_operand_to_reg ok builder (ops ! 0) of
               None \<Rightarrow> None
             | Some (dst, builder) \<Rightarrow>
                 wvm_builder_append_instr ok builder (WVM_ENCODE_OP_R (wvm_opcode_num WVM_OP_RETURN) dst))
     else if n < 2 then None
     else case operand_reg (ops ! 0) of
       None \<Rightarrow> None
     | Some d \<Rightarrow> (case wvm_operand_to_reg ok builder (ops ! 1) of
         None \<Rightarrow> None
       | Some (lhs, builder) \<Rightarrow>
           if machine_mnemonic nm ''neg'' then
             wvm_builder_append_instr ok builder
               (WVM_ENCODE_OP_RR (wvm_opcode_num WVM_OP_NEG) (ucast d) lhs)
           else if machine_mnemonic nm ''not'' then
             wvm_builder_append_instr ok builder
               (WVM_ENCODE_OP_RR (wvm_opcode_num WVM_OP_NOT) (ucast d) lhs)
           else if n < 3 then None
           else (case wvm_operand_to_reg ok builder (ops ! 2) of
               None \<Rightarrow> None
             | Some (rhs, builder) \<Rightarrow> (case wvm_emit_bin_opcode nm of
                 None \<Rightarrow> None
               | Some op \<Rightarrow>
                   wvm_builder_append_instr ok builder
                     (WVM_ENCODE_OP_RRR (wvm_opcode_num op) (ucast d) lhs rhs)))))"

section \<open>The whole program\<close>

definition tos_max_reg :: "TOSProgram \<Rightarrow> u32" where
  "tos_max_reg program =
     foldl (\<lambda>maxReg inst. foldl (\<lambda>maxReg opd. case operand_reg opd of
                                       Some r \<Rightarrow> if maxReg < r then r else maxReg
                                     | None \<Rightarrow> maxReg) maxReg (ti_operands inst))
       0 (tp_instructions program)"

definition wvm_compute_reg_count :: "TOSProgram \<Rightarrow> u16" where
  "wvm_compute_reg_count program =
     (let maxReg = tos_max_reg program in
      if 65534 \<le> maxReg then 65535 else ucast (maxReg + 2))"

fun wvm_emit_all :: "allocator \<Rightarrow> WVMEncodeBuilder \<Rightarrow> TOSInst list \<Rightarrow> WVMEncodeBuilder option" where
  "wvm_emit_all ok builder [] = Some builder"
| "wvm_emit_all ok builder (inst # insts) =
     (case wvm_emit_from_mnemonic ok builder inst of
        None \<Rightarrow> None | Some builder \<Rightarrow> wvm_emit_all ok builder insts)"

definition wvm_strdup :: "allocator \<Rightarrow> bytes option \<Rightarrow> bytes option" where
  "wvm_strdup ok txt =
     (case txt of None \<Rightarrow> None
      | Some t \<Rightarrow> if ok (of_nat (length t) + 1) then Some t else None)"

definition wvm_text :: "string \<Rightarrow> bytes" where
  "wvm_text s = map of_char s"

text \<open>\<open>proto_ok\<close> says whether the prototype itself can be allocated.\<close>

definition wvmPrototypeFromTOS ::
  "allocator \<Rightarrow> bool \<Rightarrow> TOSProgram option \<Rightarrow> bytes option \<Rightarrow> bytes option \<Rightarrow> WVMPrototype option" where
  "wvmPrototypeFromTOS ok proto_ok program nm source =
     (case program of
        None \<Rightarrow> None
      | Some program \<Rightarrow>
     let regCount = wvm_compute_reg_count program;
         builder = \<lparr>eb_instrs = [], eb_instrCap = 0, eb_consts = [], eb_constCap = 0,
                    eb_scratchReg = regCount - 1, eb_regCount = regCount\<rparr> in
     case wvm_emit_all ok builder (tp_instructions program) of
       None \<Rightarrow> None
     | Some builder \<Rightarrow>
         (case (if eb_instrs builder = []
                then wvm_builder_append_instr ok builder (WVM_ENCODE_OP (wvm_opcode_num WVM_OP_HALT))
                else Some builder) of
            None \<Rightarrow> None
          | Some builder \<Rightarrow>
              if \<not> proto_ok then None
              else if \<not> ok (of_nat (4 * length (eb_instrs builder))) then None
              else Some \<lparr>pr_name = wvm_strdup ok (Some (case nm of None \<Rightarrow> wvm_text ''main'' | Some n \<Rightarrow> n)),
                         pr_source = wvm_strdup ok (Some (case source of None \<Rightarrow> wvm_text ''<tos>'' | Some s \<Rightarrow> s)),
                         pr_instrs = Some (eb_instrs builder), pr_consts = eb_consts builder,
                         pr_strCount = 0, pr_regCount = eb_regCount builder, pr_paramCount = 0,
                         pr_isVararg = 0, pr_protoCount = 0,
                         pr_lineMap = Some (replicate (length (eb_instrs builder)) 0)\<rparr>))"

section \<open>What the encoder emits\<close>

definition emit_opcodes :: "WVMOpcodeEnum set" where
  "emit_opcodes = snd ` set wvm_emit_bin_table"

inductive emitted :: "u16 \<Rightarrow> nat \<Rightarrow> WVMInstr \<Rightarrow> bool" for rc :: u16 and n :: nat where
  emitted_halt: "emitted rc n (WVM_ENCODE_OP (wvm_opcode_num WVM_OP_HALT))"
| emitted_ret: "a < rc \<Longrightarrow> emitted rc n (WVM_ENCODE_OP_R (wvm_opcode_num WVM_OP_RETURN) a)"
| emitted_unary: "\<lbrakk>op \<in> {WVM_OP_MOVE, WVM_OP_NEG, WVM_OP_NOT}; a < rc; b < rc\<rbrakk>
    \<Longrightarrow> emitted rc n (WVM_ENCODE_OP_RR (wvm_opcode_num op) a b)"
| emitted_binary: "\<lbrakk>op \<in> emit_opcodes; a < rc; b < rc; c < rc\<rbrakk>
    \<Longrightarrow> emitted rc n (WVM_ENCODE_OP_RRR (wvm_opcode_num op) a b c)"
| emitted_imm: "a < rc \<Longrightarrow> emitted rc n (WVM_ENCODE_OP_R_IMM32 (wvm_opcode_num WVM_OP_LOAD_IMM) a v)"
| emitted_const: "\<lbrakk>a < rc; unat k < n\<rbrakk>
    \<Longrightarrow> emitted rc n (WVM_ENCODE_OP_R_CONST (wvm_opcode_num WVM_OP_LOAD_CONST) a k)"

lemma emitted_mono: "\<lbrakk>emitted rc n i; n \<le> m\<rbrakk> \<Longrightarrow> emitted rc m i"
  by (induction rule: emitted.induct) (auto intro: emitted.intros)

lemma emit_opcodesD:
  assumes "op \<in> emit_opcodes"
  shows "wvmOpcodeEncodings op = WVM_ENC_OP_RRR" and "op \<noteq> WVM_OP_JUMP"
    and "op \<noteq> WVM_OP_JUMP_IF_TRUE" and "op \<noteq> WVM_OP_JUMP_IF_FALSE"
  using assms by (auto simp: emit_opcodes_def wvm_emit_bin_table_def)

lemma unary_opcodesD:
  assumes "op \<in> {WVM_OP_MOVE, WVM_OP_NEG, WVM_OP_NOT}"
  shows "wvmOpcodeEncodings op = WVM_ENC_OP_RR" and "op \<noteq> WVM_OP_JUMP"
    and "op \<noteq> WVM_OP_JUMP_IF_TRUE" and "op \<noteq> WVM_OP_JUMP_IF_FALSE"
  using assms by auto

lemmas instr_checks = wvm_verify_instr_def jump_reg_ok_def forward_instr_def

lemma emitted_verifies:
  assumes "emitted (pr_regCount p) (length (pr_consts p)) i"
  shows "wvm_verify_instr p i = None \<and> jump_reg_ok p i \<and> forward_instr i"
  using assms
proof cases
  case (emitted_binary op a b c)
  then show ?thesis using emit_opcodesD [of op]
    by (simp add: instr_checks Let_def not_le del: wvmOpcodeEncodings.simps)
next
  case (emitted_unary op a b)
  show ?thesis using unary_opcodesD [OF emitted_unary(2)] emitted_unary(1,3,4)
    by (simp add: instr_checks Let_def not_le del: wvmOpcodeEncodings.simps)
qed (simp_all add: instr_checks Let_def not_le)

definition builder_ok :: "WVMEncodeBuilder \<Rightarrow> bool" where
  "builder_ok b \<longleftrightarrow> eb_scratchReg b < eb_regCount b
     \<and> list_all (emitted (eb_regCount b) (length (eb_consts b))) (eb_instrs b)"

text \<open>The builder keeps its registers; the arrays grow at their ends.\<close>

definition builder_grows :: "WVMEncodeBuilder \<Rightarrow> WVMEncodeBuilder \<Rightarrow> bool" where
  "builder_grows b b' \<longleftrightarrow> builder_ok b' \<and> eb_regCount b' = eb_regCount b
     \<and> eb_scratchReg b' = eb_scratchReg b"

lemma append_instr_ok:
  assumes "wvm_builder_append_instr ok b i = Some b'" and "builder_ok b"
    and "emitted (eb_regCount b) (length (eb_consts b)) i"
  shows "builder_grows b b'"
  using assms by (auto simp: wvm_builder_append_instr_def Let_def builder_ok_def builder_grows_def split: if_splits)

lemma load_const_ok:
  assumes "wvm_load_const ok b v = Some (r, b')" and "builder_ok b"
  shows "builder_grows b b' \<and> r < eb_regCount b"
proof -
  obtain k b1 where k: "wvm_builder_append_const ok b v = Some (k, b1)" "r = eb_scratchReg b1"
      "wvm_builder_append_instr ok b1
         (WVM_ENCODE_OP_R_CONST (wvm_opcode_num WVM_OP_LOAD_CONST) (eb_scratchReg b1) k) = Some b'"
    using assms(1) by (auto simp: wvm_load_const_def split: option.splits)
  have b1: "eb_instrs b1 = eb_instrs b" "eb_consts b1 = eb_consts b @ [v]" "eb_regCount b1 = eb_regCount b"
      "eb_scratchReg b1 = eb_scratchReg b" "k = of_nat (length (eb_consts b))"
    using k(1) by (auto simp: wvm_builder_append_const_def Let_def split: if_splits)
  have "unat (of_nat (length (eb_consts b)) :: u32) \<le> length (eb_consts b)"
    by (simp add: unsigned_of_nat take_bit_nat_less_eq_self)
  then have "unat k < length (eb_consts b1)" using b1 by simp
  moreover have "builder_ok b1"
    using assms(2) b1 by (auto simp: builder_ok_def list_all_iff intro: emitted_mono)
  ultimately have "builder_grows b1 b'" using append_instr_ok [OF k(3)] b1
    by (simp add: builder_ok_def emitted_const)
  then have "builder_ok b'" "eb_regCount b' = eb_regCount b" "eb_scratchReg b' = eb_scratchReg b"
    using b1 by (simp_all add: builder_grows_def)
  moreover have "r < eb_regCount b" using b1 k(2) assms(2) by (simp add: builder_ok_def)
  ultimately show ?thesis by (simp add: builder_grows_def)
qed

definition reg_below :: "u16 \<Rightarrow> MALOperand \<Rightarrow> bool" where
  "reg_below rc opd \<longleftrightarrow> (case operand_reg opd of Some r \<Rightarrow> unat r < unat rc | None \<Rightarrow> True)"

lemma ucast_reg_below:
  assumes "unat (r :: u32) < unat (rc :: u16)"
  shows "(ucast r :: u16) < rc"
proof -
  have "unat (ucast r :: u16) \<le> unat r"
    by (simp add: unsigned_ucast_eq take_bit_nat_less_eq_self)
  then show ?thesis using assms by (simp add: word_less_nat_alt)
qed

lemma operand_to_reg_ok:
  assumes "wvm_operand_to_reg ok b opd = Some (r, b')" and "builder_ok b" and "reg_below (eb_regCount b) opd"
  shows "builder_grows b b' \<and> r < eb_regCount b"
proof (cases opd)
  case (MAL_OPND_REG ty q)
  then show ?thesis using assms
    by (auto simp: wvm_operand_to_reg_def builder_grows_def reg_below_def intro: ucast_reg_below)
next
  case (MAL_OPND_IMM_INT ty v)
  show ?thesis
  proof (cases "- (2 ^ 31) \<le> sint v \<and> sint v \<le> 2 ^ 31 - 1")
    case True
    let ?i = "WVM_ENCODE_OP_R_IMM32 (wvm_opcode_num WVM_OP_LOAD_IMM) (eb_scratchReg b) (ucast v)"
    have "map_option (Pair (eb_scratchReg b)) (wvm_builder_append_instr ok b ?i) = Some (r, b')"
      using assms(1) True unfolding MAL_OPND_IMM_INT wvm_operand_to_reg_def
      by (simp only: MALOperand.case if_True simp_thms)
    then have "wvm_builder_append_instr ok b ?i = Some b'" "r = eb_scratchReg b" by auto
    with append_instr_ok [of ok b _ b'] assms(2) show ?thesis by (simp add: builder_ok_def emitted_imm)
  next
    case False
    then have "wvm_load_const ok b (WVM_VALUE_FROM_INT (ucast v)) = Some (r, b')"
      using assms(1) unfolding MAL_OPND_IMM_INT wvm_operand_to_reg_def by (simp only: MALOperand.case if_False)
    then show ?thesis using assms(2) by (rule load_const_ok)
  qed
qed (use assms load_const_ok in \<open>auto simp: wvm_operand_to_reg_def\<close>)

lemma wvm_emit_bin_opcode_in: "wvm_emit_bin_opcode nm = Some op \<Longrightarrow> op \<in> emit_opcodes"
  by (auto simp: wvm_emit_bin_opcode_def emit_opcodes_def find_Some_iff)
     (metis image_eqI nth_mem snd_conv)

definition regs_below :: "u16 \<Rightarrow> TOSInst \<Rightarrow> bool" where
  "regs_below rc inst \<longleftrightarrow> list_all (reg_below rc) (ti_operands inst)"

lemma regs_below_nth: "\<lbrakk>regs_below rc inst; i < length (ti_operands inst)\<rbrakk> \<Longrightarrow> reg_below rc (ti_operands inst ! i)"
  by (simp add: regs_below_def list_all_length)

text \<open>Loading one operand and then emitting an instruction that may read it.\<close>

lemma operand_then_instr:
  assumes "(case wvm_operand_to_reg ok b opd of None \<Rightarrow> None
            | Some (r, b1) \<Rightarrow> wvm_builder_append_instr ok b1 (enc r)) = Some b'"
    and "builder_ok b" and "reg_below (eb_regCount b) opd"
    and "\<And>r n. r < eb_regCount b \<Longrightarrow> emitted (eb_regCount b) n (enc r)"
  shows "builder_grows b b'"
proof -
  obtain r b1 where r: "wvm_operand_to_reg ok b opd = Some (r, b1)"
      "wvm_builder_append_instr ok b1 (enc r) = Some b'" using assms(1) by (auto split: option.splits)
  have g: "builder_grows b b1" "r < eb_regCount b" using operand_to_reg_ok [OF r(1) assms(2,3)] by auto
  then have "builder_grows b1 b'"
    using append_instr_ok [OF r(2)] assms(4) [OF g(2)] by (simp add: builder_grows_def)
  then show ?thesis using g by (simp add: builder_grows_def)
qed

lemma emit_ok:
  assumes "wvm_emit_from_mnemonic ok b inst = Some b'" and "builder_ok b" and "regs_below (eb_regCount b) inst"
  shows "builder_grows b b'"
proof -
  obtain desc where desc: "ti_desc inst = Some desc"
    using assms(1) by (auto simp: wvm_emit_from_mnemonic_def split: option.splits)
  let ?nm = "in_mnemonic desc" and ?ops = "ti_operands inst" and ?rc = "eb_regCount b"
  have op: "reg_below ?rc (?ops ! i)" if "i < length ?ops" for i
    using regs_below_nth [OF assms(3) that] .
  have dst: "ucast d < ?rc" if "operand_reg (?ops ! i) = Some d" "i < length ?ops" for i d
    using op [OF that(2)] that(1) by (simp add: reg_below_def ucast_reg_below)
  note E = assms(1) [unfolded wvm_emit_from_mnemonic_def desc option.case Let_def]
  consider (rr) "machine_mnemonic ?nm ''mov.rr''" | (ri) "\<not> machine_mnemonic ?nm ''mov.rr''" "machine_mnemonic ?nm ''mov.ri''"
    | (ret) "\<not> machine_mnemonic ?nm ''mov.rr''" "\<not> machine_mnemonic ?nm ''mov.ri''" "machine_mnemonic ?nm ''ret''"
    | (other) "\<not> machine_mnemonic ?nm ''mov.rr''" "\<not> machine_mnemonic ?nm ''mov.ri''" "\<not> machine_mnemonic ?nm ''ret''"
    by blast
  then show ?thesis
  proof cases
    case rr
    with E obtain d where d: "length ?ops = 2" "operand_reg (?ops ! 0) = Some d"
      and e: "(case wvm_operand_to_reg ok b (?ops ! 1) of None \<Rightarrow> None
         | Some (r, b1) \<Rightarrow> wvm_builder_append_instr ok b1
             (WVM_ENCODE_OP_RR (wvm_opcode_num WVM_OP_MOVE) (ucast d) r)) = Some b'"
      by (simp split: if_splits option.splits(2))
    show ?thesis
      by (rule operand_then_instr [OF e assms(2)]) (use d dst [OF d(2)] op in \<open>simp_all add: emitted_unary\<close>)
  next
    case ret
    with E have n: "length ?ops = 1"
      and e: "(case wvm_operand_to_reg ok b (?ops ! 0) of None \<Rightarrow> None
         | Some (r, b1) \<Rightarrow> wvm_builder_append_instr ok b1 (WVM_ENCODE_OP_R (wvm_opcode_num WVM_OP_RETURN) r)) = Some b'"
      by (simp_all split: if_splits)
    show ?thesis by (rule operand_then_instr [OF e assms(2)]) (use n op in \<open>simp_all add: emitted_ret\<close>)
  next
    case ri
    with E obtain d r b1 where d: "length ?ops = 2" "operand_reg (?ops ! 0) = Some d"
      and r: "wvm_operand_to_reg ok b (?ops ! 1) = Some (r, b1)"
      and e: "(if r = ucast d then Some b1 else wvm_builder_append_instr ok b1
             (WVM_ENCODE_OP_RR (wvm_opcode_num WVM_OP_MOVE) (ucast d) r)) = Some b'"
      by (simp split: if_splits option.splits prod.splits)
    have g: "builder_grows b b1" "r < ?rc" using operand_to_reg_ok [OF r assms(2)] op d by auto
    show ?thesis
    proof (cases "r = ucast d")
      case True
      with e g show ?thesis by simp
    next
      case False
      with e have "builder_grows b1 b'"
        using append_instr_ok [of ok b1 _ b'] g dst [OF d(2)] d by (simp add: builder_grows_def emitted_unary)
      with g show ?thesis by (simp add: builder_grows_def)
    qed
  next
    case other
    with E obtain d l b1 where d: "2 \<le> length ?ops" "operand_reg (?ops ! 0) = Some d"
      and l: "wvm_operand_to_reg ok b (?ops ! 1) = Some (l, b1)"
      and e: "(if machine_mnemonic ?nm ''neg'' then wvm_builder_append_instr ok b1
             (WVM_ENCODE_OP_RR (wvm_opcode_num WVM_OP_NEG) (ucast d) l)
           else if machine_mnemonic ?nm ''not'' then wvm_builder_append_instr ok b1
             (WVM_ENCODE_OP_RR (wvm_opcode_num WVM_OP_NOT) (ucast d) l)
           else if length ?ops < 3 then None
           else (case wvm_operand_to_reg ok b1 (?ops ! 2) of
               None \<Rightarrow> None
             | Some (rhs, builder) \<Rightarrow> (case wvm_emit_bin_opcode ?nm of
                 None \<Rightarrow> None
               | Some op \<Rightarrow> wvm_builder_append_instr ok builder
                     (WVM_ENCODE_OP_RRR (wvm_opcode_num op) (ucast d) l rhs)))) = Some b'"
      by (simp split: if_split_asm option.splits(2) prod.splits(2) add: not_less)
    have g: "builder_grows b b1" "l < ?rc" using operand_to_reg_ok [OF l assms(2)] op d by auto
    have dr: "ucast d < ?rc" using dst [OF d(2)] d(1) by (cases ?ops) auto
    have "builder_grows b1 b'"
    proof (cases "machine_mnemonic ?nm ''neg'' \<or> machine_mnemonic ?nm ''not''")
      case True
      then obtain u where "u \<in> {WVM_OP_MOVE, WVM_OP_NEG, WVM_OP_NOT}"
          "wvm_builder_append_instr ok b1 (WVM_ENCODE_OP_RR (wvm_opcode_num u) (ucast d) l) = Some b'"
        using e by (auto split: if_splits)
      then show ?thesis using append_instr_ok [of ok b1 _ b'] g dr by (simp add: builder_grows_def emitted_unary)
    next
      case False
      with e obtain u where u: "wvm_emit_bin_opcode ?nm = Some u" "2 < length ?ops"
        and e2: "(case wvm_operand_to_reg ok b1 (?ops ! 2) of None \<Rightarrow> None
             | Some (rhs, b2) \<Rightarrow> wvm_builder_append_instr ok b2
                     (WVM_ENCODE_OP_RRR (wvm_opcode_num u) (ucast d) l rhs)) = Some b'"
        by (auto split: if_splits option.splits)
      show ?thesis
        by (rule operand_then_instr [OF e2])
          (use g dr op u wvm_emit_bin_opcode_in [OF u(1)] in \<open>simp_all add: builder_grows_def emitted_binary\<close>)
    qed
    with g show ?thesis by (simp add: builder_grows_def)
  qed
qed

lemma emit_all_ok:
  "\<lbrakk>wvm_emit_all ok b insts = Some b'; builder_ok b; list_all (regs_below (eb_regCount b)) insts\<rbrakk>
     \<Longrightarrow> builder_grows b b'"
proof (induction insts arbitrary: b)
  case (Cons inst insts)
  then obtain b1 where b1: "wvm_emit_from_mnemonic ok b inst = Some b1" "wvm_emit_all ok b1 insts = Some b'"
    by (auto split: option.splits)
  have g: "builder_grows b b1" using emit_ok [OF b1(1)] Cons.prems by simp
  then have "builder_grows b1 b'" using Cons.IH [OF b1(2)] Cons.prems by (simp add: builder_grows_def)
  with g show ?case by (simp add: builder_grows_def)
qed (simp add: builder_grows_def)

section \<open>The register count covers every register\<close>

lemma max_reg_operands:
  fixes f defines "f \<equiv> \<lambda>maxReg opd. case operand_reg opd of
                 Some r \<Rightarrow> if (maxReg :: u32) < r then r else maxReg | None \<Rightarrow> maxReg"
  shows "m \<le> foldl f m ops \<and> (\<forall>opd\<in>set ops. \<forall>r. operand_reg opd = Some r \<longrightarrow> r \<le> foldl f m ops)"
proof (induction ops arbitrary: m)
  case (Cons opd ops)
  have "m \<le> f m opd" "\<And>r. operand_reg opd = Some r \<Longrightarrow> r \<le> f m opd"
    by (auto simp: f_def split: option.splits)
  with Cons.IH [of "f m opd"] show ?case by (auto intro: order_trans)
qed simp

lemma tos_max_reg_upper:
  assumes "inst \<in> set (tp_instructions t)" and "opd \<in> set (ti_operands inst)" and "operand_reg opd = Some r"
  shows "r \<le> tos_max_reg t"
proof -
  let ?g = "\<lambda>m inst. foldl (\<lambda>maxReg opd. case operand_reg opd of
               Some r \<Rightarrow> if (maxReg :: u32) < r then r else maxReg | None \<Rightarrow> maxReg) m (ti_operands inst)"
  have "m \<le> foldl ?g m insts \<and> (inst \<in> set insts \<longrightarrow> r \<le> foldl ?g m insts)" for m insts
  proof (induction insts arbitrary: m)
    case (Cons i insts)
    have "m \<le> ?g m i" "inst = i \<Longrightarrow> r \<le> ?g m i"
      using max_reg_operands [of m "ti_operands i"] assms(2,3) by auto
    with Cons.IH [of "?g m i"] show ?case by (auto intro: order_trans)
  qed simp
  then show ?thesis using assms(1) by (simp add: tos_max_reg_def)
qed

definition tos_regs_encodable :: "TOSProgram \<Rightarrow> bool" where
  "tos_regs_encodable t \<longleftrightarrow> list_all (\<lambda>inst. list_all (\<lambda>opd. case operand_reg opd of
       Some r \<Rightarrow> unat r < 65535 | None \<Rightarrow> True) (ti_operands inst)) (tp_instructions t)"

lemma reg_count_unat:
  "unat (wvm_compute_reg_count t) = (if 65534 \<le> unat (tos_max_reg t) then 65535 else unat (tos_max_reg t) + 2)"
proof (cases "65534 \<le> tos_max_reg t")
  case True
  then show ?thesis by (simp add: wvm_compute_reg_count_def word_le_nat_alt)
next
  case False
  then have m: "unat (tos_max_reg t) < 65534" by (simp add: word_le_nat_alt)
  then have s: "unat (tos_max_reg t + 2) = unat (tos_max_reg t) + 2" by (subst unat_add_no_wrap) simp_all
  have "unat (ucast (tos_max_reg t + 2) :: u16) = unat (tos_max_reg t + 2)"
    using m unfolding s by (simp add: unsigned_ucast_eq s take_bit_nat_eq_self)
  with False m s show ?thesis by (simp add: wvm_compute_reg_count_def)
qed

lemma regs_below_count:
  assumes "tos_regs_encodable t"
  shows "list_all (regs_below (wvm_compute_reg_count t)) (tp_instructions t)"
proof -
  have "unat r < unat (wvm_compute_reg_count t)"
    if "inst \<in> set (tp_instructions t)" "opd \<in> set (ti_operands inst)" "operand_reg opd = Some r" for inst opd r
  proof -
    have "unat r < 65535" using assms that by (fastforce simp: tos_regs_encodable_def list_all_iff split: option.splits)
    moreover have "unat r \<le> unat (tos_max_reg t)" using tos_max_reg_upper [OF that] by (simp add: word_le_nat_alt)
    ultimately show ?thesis by (auto simp: reg_count_unat)
  qed
  then show ?thesis by (auto simp: list_all_iff regs_below_def reg_below_def split: option.splits)
qed

lemma initial_builder_ok:
  "builder_ok \<lparr>eb_instrs = [], eb_instrCap = 0, eb_consts = [], eb_constCap = 0,
     eb_scratchReg = wvm_compute_reg_count t - 1, eb_regCount = wvm_compute_reg_count t\<rparr>"
proof -
  let ?rc = "wvm_compute_reg_count t"
  have "?rc \<noteq> 0" using reg_count_unat [of t] by (metis add_2_eq_Suc' nat.distinct(1) unat_0 zero_neq_numeral)
  then have "?rc - 1 < ?rc" using unat_gt_0 [of ?rc] by (simp add: word_less_nat_alt unat_minus_one)
  then show ?thesis by (simp add: builder_ok_def)
qed

lemma prototype_emitted:
  assumes "wvmPrototypeFromTOS ok proto_ok (Some t) nm source = Some p" and "tos_regs_encodable t"
  shows "pr_instrs p \<noteq> None \<and> list_all (emitted (pr_regCount p) (length (pr_consts p))) (proto_code p)"
proof -
  let ?rc = "wvm_compute_reg_count t"
  let ?b = "\<lparr>eb_instrs = [], eb_instrCap = 0, eb_consts = [], eb_constCap = 0,
             eb_scratchReg = ?rc - 1, eb_regCount = ?rc\<rparr>"
  obtain b1 b2 where b1: "wvm_emit_all ok ?b (tp_instructions t) = Some b1"
    and b2: "(if eb_instrs b1 = [] then wvm_builder_append_instr ok b1 (WVM_ENCODE_OP (wvm_opcode_num WVM_OP_HALT))
              else Some b1) = Some b2"
    and p: "pr_instrs p = Some (eb_instrs b2)" "pr_consts p = eb_consts b2" "pr_regCount p = eb_regCount b2"
    using assms(1) unfolding wvmPrototypeFromTOS_def option.case Let_def
    by (fastforce split: option.splits(2) if_split_asm)
  have "builder_ok ?b" by (rule initial_builder_ok)
  then have g: "builder_grows ?b b1" using emit_all_ok [OF b1] regs_below_count [OF assms(2)] by simp
  have "builder_ok b2"
  proof (cases "eb_instrs b1 = []")
    case True
    with b2 g show ?thesis using append_instr_ok [of ok b1 _ b2] by (simp add: builder_grows_def emitted_halt)
  next
    case False
    with b2 g show ?thesis by (simp add: builder_grows_def)
  qed
  with p show ?thesis by (simp add: builder_ok_def proto_code_def)
qed

text \<open>
  C8. Compiled code is safe to run. Let the encoder, with any allocator, make a prototype of fewer
  than 2^31 instructions from a target-ordered program whose registers are below 65535. Then the
  bytecode verifier accepts it, and executing it on a well-formed machine with fewer than 2^30 stack
  slots in use, with any allocator, returns. No access leaves the register array or the constant
  array, unless the frame needs more registers than the machine has and \<^verbatim>\<open>realloc\<close> refuses them: then
  the registers are cleared past the end of the array.
\<close>

theorem wvmPrototypeFromTOS_runs_safely:
  assumes "wvmPrototypeFromTOS ok proto_ok (Some t) nm source = Some p" and "tos_regs_encodable t"
    and "length (proto_code p) < 2 ^ 31" and "wf_vm vm" and "unat (stackSize vm) < 2 ^ 30"
  shows "wvm_verify_error (Some p) = None
     \<and> (\<exists>r. wvmExecute vm_ok vm (Some p) = Some r \<and> r \<noteq> Inl Diverges
          \<and> (r = Inl OutOfBounds \<longleftrightarrow> frame_refused vm_ok vm p))"
proof -
  have "pr_instrs p \<noteq> None"
    and e: "\<forall>i\<in>set (proto_code p). wvm_verify_instr p i = None \<and> jump_reg_ok p i \<and> forward_instr i"
    using prototype_emitted [OF assms(1,2)] emitted_verifies by (auto simp: list_all_iff)
  then have v: "wvm_verify_error (Some p) = None" by (simp add: wvm_verify_error_None)
  moreover have "wvmExecute vm_ok vm (Some p) = Some (Inl OutOfBounds) \<longleftrightarrow> frame_refused vm_ok vm p"
    using execute_oob_iff [OF assms(4,5)] e v by (simp add: list_all_iff)
  moreover have "\<exists>r. wvmExecute vm_ok vm (Some p) = Some r \<and> r \<noteq> Inl Diverges"
    using execute_forward_returns [OF assms(4,5) _ assms(3)] e by (simp add: list_all_iff)
  ultimately show ?thesis by auto
qed

text \<open>A program that returns the sum of two constants, on the generic machine.\<close>

definition tos_inst :: "nat \<Rightarrow> MALOperand list \<Rightarrow> TOSInst" where
  "tos_inst i ops =
     \<lparr>ti_id = 0, ti_blockId = 0, ti_order = 0,
      ti_desc = Some (mds_build_builtin_instructions MDS_TARGET_GENERIC ! i), ti_operands = ops\<rparr>"

definition tos_sum :: TOSProgram where
  "tos_sum =
     \<lparr>tp_machine = mdsLoadMachine None, tp_blocks = [],
      tp_instructions =
        [tos_inst 1 [MAL_OPND_REG MAL_TYPE_I32 0, MAL_OPND_IMM_INT MAL_TYPE_I32 40],
         tos_inst 3 [MAL_OPND_REG MAL_TYPE_I32 1, MAL_OPND_REG MAL_TYPE_I32 0, MAL_OPND_IMM_INT MAL_TYPE_I32 2],
         tos_inst 20 [MAL_OPND_REG MAL_TYPE_I32 1]],
      tp_orderKind = TOS_ORDER_INPUT, tp_isFinalized = True\<rparr>"

lemma builtin_mnemonic:
  "i < 21 \<Longrightarrow> in_mnemonic (mds_build_builtin_instructions kind ! i) = mds_prefix kind @ ''.'' @ fst (mds_instr_table ! i)"
  by (simp add: mds_build_builtin_instructions_def mds_init_instruction_def split: prod.splits)

lemma tos_sum_encodable: "tos_regs_encodable tos_sum"
  by (simp add: tos_regs_encodable_def tos_sum_def tos_inst_def)

lemma tos_sum_prototype:
  "\<exists>p. wvmPrototypeFromTOS (\<lambda>_. True) True (Some tos_sum) None None = Some p \<and> length (proto_code p) = 5"
  by (simp add: wvmPrototypeFromTOS_def Let_def tos_sum_def tos_inst_def wvm_emit_from_mnemonic_def
      builtin_mnemonic mds_prefix_def mds_instr_table_def machine_mnemonic_def wvm_operand_to_reg_def
      wvm_builder_append_instr_def wvm_emit_bin_opcode_def wvm_emit_bin_table_def strstr_def
      wvm_compute_reg_count_def tos_max_reg_def proto_code_def upt_rec)

theorem wvmPrototypeFromTOS_runs_safely_witness:
  "\<exists>p r. wvmPrototypeFromTOS (\<lambda>_. True) True (Some tos_sum) None None = Some p
     \<and> wvm_verify_error (Some p) = None \<and> wvmExecute (\<lambda>_. True) fresh_vm (Some p) = Some r
     \<and> r \<noteq> Inl OutOfBounds \<and> r \<noteq> Inl Diverges"
proof -
  obtain p where p: "wvmPrototypeFromTOS (\<lambda>_. True) True (Some tos_sum) None None = Some p"
      "length (proto_code p) = 5" using tos_sum_prototype by blast
  then show ?thesis
    using wvmPrototypeFromTOS_runs_safely [OF p(1) tos_sum_encodable, of fresh_vm "\<lambda>_. True"] frame_not_refused
    by (auto simp: fresh_vm_simps)
qed

section \<open>The exclusive or\<close>

text \<open>
  C36. An exclusive or is compiled to an inclusive or. The mnemonics are searched for
  \<^verbatim>\<open>"or."\<close> before \<^verbatim>\<open>"xor."\<close>, and the first is a part of the second: on each of the four
  machines, whatever the operands and the state of the builder, \<open>xor.rr\<close> and \<open>or.rr\<close> give the same
  bytecode, and on three registers it is the instruction \<open>WVM_OP_OR\<close>.
\<close>

theorem wvm_xor_compiled_as_or:
  "let xor_inst = mds_build_builtin_instructions kind ! 10; or_inst = mds_build_builtin_instructions kind ! 9 in
      in_mnemonic xor_inst = mds_prefix kind @ ''.xor.rr'' \<and> in_mnemonic or_inst = mds_prefix kind @ ''.or.rr''
    \<and> wvm_emit_from_mnemonic ok builder (inst\<lparr>ti_desc := Some xor_inst\<rparr>)
        = wvm_emit_from_mnemonic ok builder (inst\<lparr>ti_desc := Some or_inst\<rparr>)
    \<and> wvm_emit_from_mnemonic ok builder (inst\<lparr>ti_desc := Some xor_inst,
          ti_operands := [MAL_OPND_REG ty d, MAL_OPND_REG ty a, MAL_OPND_REG ty b]\<rparr>)
        = wvm_builder_append_instr ok builder
            (WVM_ENCODE_OP_RRR (wvm_opcode_num WVM_OP_OR) (ucast d) (ucast a) (ucast b))"
proof -
  have nm: "in_mnemonic (mds_build_builtin_instructions kind ! 10) = mds_prefix kind @ ''.xor.rr''"
      "in_mnemonic (mds_build_builtin_instructions kind ! 9) = mds_prefix kind @ ''.or.rr''"
    by (simp_all add: builtin_mnemonic mds_instr_table_def)
  have bin: "wvm_emit_bin_opcode (mds_prefix kind @ ''.xor.rr'') = Some WVM_OP_OR"
      "wvm_emit_bin_opcode (mds_prefix kind @ ''.or.rr'') = Some WVM_OP_OR"
    by (cases kind; simp add: mds_prefix_def wvm_emit_bin_opcode_def wvm_emit_bin_table_def strstr_def upt_rec)+
  have mm: "\<not> machine_mnemonic (mds_prefix kind @ ''.xor.rr'') s" "\<not> machine_mnemonic (mds_prefix kind @ ''.or.rr'') s"
    if "s \<in> {''mov.rr'', ''mov.ri'', ''ret'', ''neg'', ''not''}" for s
    using that by (cases kind; auto simp: machine_mnemonic_def mds_prefix_def)+
  show ?thesis
    using nm bin mm by (simp add: wvm_emit_from_mnemonic_def Let_def wvm_operand_to_reg_def split: option.split)
qed

end
