(* ===== verification/Wvm_Backend.thy ===== *)
theory Wvm_Backend
  imports Wvm_Encode "HOL-Library.Sublist"
begin

text \<open>
  Correctness of the back end: running the bytecode of a target-ordered program on the interpreter
  computes what the program means. The meaning is given on registers that hold machine values, one
  instruction of the machine tables at a time, with no reference to bytecode.
\<close>

section \<open>The meaning of a target-ordered program\<close>

definition tos_suffix :: "MDSTargetKind \<Rightarrow> TOSInst \<Rightarrow> string" where
  "tos_suffix kind inst =
     (case ti_desc inst of None \<Rightarrow> '''' | Some desc \<Rightarrow> drop (Suc (length (mds_prefix kind))) (in_mnemonic desc))"

definition tos_operand_value :: "(MALReg \<Rightarrow> WVMValue) \<Rightarrow> MALOperand \<Rightarrow> WVMValue" where
  "tos_operand_value regs opd =
     (case opd of MAL_OPND_REG _ r \<Rightarrow> regs r
      | MAL_OPND_IMM_INT _ v \<Rightarrow> WVM_VALUE_FROM_INT (ucast v)
      | MAL_OPND_IMM_FLOAT _ f \<Rightarrow> f
      | _ \<Rightarrow> 0)"

definition tos_binary_opcodes :: "(string \<times> WVMOpcodeEnum) list" where
  "tos_binary_opcodes =
     [(''add.rr'', WVM_OP_ADD), (''add.ri'', WVM_OP_ADD), (''sub.rr'', WVM_OP_SUB), (''sub.ri'', WVM_OP_SUB),
      (''mul.rr'', WVM_OP_MUL), (''and.rr'', WVM_OP_AND), (''or.rr'', WVM_OP_OR), (''xor.rr'', WVM_OP_XOR),
      (''shl.ri'', WVM_OP_SHL), (''ashr.ri'', WVM_OP_SHR), (''icmp.eq'', WVM_OP_EQ), (''icmp.ne'', WVM_OP_NE),
      (''icmp.slt'', WVM_OP_LT), (''icmp.sle'', WVM_OP_LE), (''icmp.sgt'', WVM_OP_GT), (''icmp.sge'', WVM_OP_GE)]"

text \<open>
  An instruction goes on with new registers, returns a value, is rejected for the types of its
  operands, or runs into undefined arithmetic.
\<close>

datatype tos_outcome =
  TosRunning "MALReg \<Rightarrow> WVMValue" | TosReturned WVMValue | TosRejected | TosFault fault

definition tos_exec_unary :: "string \<Rightarrow> WVMValue \<Rightarrow> WVMValue cres" where
  "tos_exec_unary sfx v =
     (if sfx = ''neg'' then cbind (int32_result (- sint (WVM_AS_INT v))) (\<lambda>w. Inr (WVM_VALUE_FROM_INT w))
      else if sfx = ''not'' then Inr (WVM_VALUE_FROM_INT (NOT (WVM_AS_INT v)))
      else Inr v)"

definition tos_exec :: "string \<Rightarrow> MALOperand list \<Rightarrow> (MALReg \<Rightarrow> WVMValue) \<Rightarrow> tos_outcome" where
  "tos_exec sfx ops regs =
     (case ops of
        [x] \<Rightarrow> TosReturned (tos_operand_value regs x)
      | [MAL_OPND_REG _ d, x] \<Rightarrow>
          (case tos_exec_unary sfx (tos_operand_value regs x) of
             Inl e \<Rightarrow> TosFault e | Inr v \<Rightarrow> TosRunning (regs(d := v)))
      | [MAL_OPND_REG _ d, x, y] \<Rightarrow>
          (case map_of tos_binary_opcodes sfx of
             None \<Rightarrow> TosRejected
           | Some op \<Rightarrow>
               (case wvm_exec_binary_int op (tos_operand_value regs x) (tos_operand_value regs y) of
                  Inl e \<Rightarrow> TosFault e
                | Inr None \<Rightarrow> TosRejected
                | Inr (Some v) \<Rightarrow> TosRunning (regs(d := v))))
      | _ \<Rightarrow> TosRejected)"

fun tos_eval :: "MDSTargetKind \<Rightarrow> TOSInst list \<Rightarrow> (MALReg \<Rightarrow> WVMValue) \<Rightarrow> tos_outcome" where
  "tos_eval kind [] regs = TosRunning regs"
| "tos_eval kind (inst # insts) regs =
     (case tos_exec (tos_suffix kind inst) (ti_operands inst) regs of
        TosRunning regs' \<Rightarrow> tos_eval kind insts regs'
      | outcome \<Rightarrow> outcome)"

text \<open>
  Programs the theorem is about: instructions of one machine's table with operands of the shapes
  instruction selection gives them, registers below 65534, and no exclusive or. An integer
  immediate stands for its low 32 bits.
\<close>

definition tos_value_operand :: "MALOperand \<Rightarrow> bool" where
  "tos_value_operand opd =
     (case opd of MAL_OPND_REG _ r \<Rightarrow> unat r < 65534
      | MAL_OPND_IMM_INT _ _ \<Rightarrow> True
      | MAL_OPND_IMM_FLOAT _ _ \<Rightarrow> True
      | _ \<Rightarrow> False)"

definition is_reg_operand :: "MALOperand \<Rightarrow> bool" where
  "is_reg_operand opd \<longleftrightarrow> operand_reg opd \<noteq> None"

definition tos_shape_ok :: "string \<Rightarrow> MALOperand list \<Rightarrow> bool" where
  "tos_shape_ok sfx ops \<longleftrightarrow>
     list_all tos_value_operand ops
     \<and> (sfx = ''ret'' \<and> length ops = 1
        \<or> sfx \<in> {''mov.rr'', ''mov.ri'', ''neg'', ''not''} \<and> length ops = 2 \<and> is_reg_operand (ops ! 0)
        \<or> sfx \<in> fst ` set tos_binary_opcodes - {''xor.rr''} \<and> length ops = 3
            \<and> is_reg_operand (ops ! 0) \<and> is_reg_operand (ops ! 1))"

definition tos_compilable :: "MDSTargetKind \<Rightarrow> TOSInst \<Rightarrow> bool" where
  "tos_compilable kind inst \<longleftrightarrow>
     (case ti_desc inst of None \<Rightarrow> False
      | Some desc \<Rightarrow> in_mnemonic desc = mds_prefix kind @ ''.'' @ tos_suffix kind inst)
     \<and> tos_shape_ok (tos_suffix kind inst) (ti_operands inst)"

text \<open>What a run of the interpreter has to show for an outcome.\<close>

definition run_shows :: "tos_outcome \<Rightarrow> (bool \<times> WVMState) cres option \<Rightarrow> bool" where
  "run_shows outcome run =
     (case outcome of
        TosRunning _ \<Rightarrow> (\<exists>vm. run = Some (Inr (True, vm)))
      | TosReturned v \<Rightarrow> (\<exists>vm. run = Some (Inr (True, vm)) \<and> wvmGetReg vm 0 = Inr v)
      | TosRejected \<Rightarrow> (\<exists>vm. run = Some (Inr (False, vm)))
      | TosFault e \<Rightarrow> run = Some (Inl e))"

section \<open>The mnemonics\<close>

lemma machine_mnemonic_prefix: "machine_mnemonic (mds_prefix kind @ ''.'' @ sfx) s \<longleftrightarrow> sfx = s"
  by (cases kind) (auto simp: machine_mnemonic_def mds_prefix_def)

lemma emit_bin_opcode_table:
  "list_all (\<lambda>kind. list_all (\<lambda>(sfx, op). sfx = ''xor.rr'' \<or>
      wvm_emit_bin_opcode (mds_prefix kind @ ''.'' @ sfx) = Some op) tos_binary_opcodes)
    [MDS_TARGET_GENERIC, MDS_TARGET_X86_64, MDS_TARGET_AARCH64, MDS_TARGET_WASM]"
  by code_simp

lemma emit_bin_opcode_suffix:
  assumes "map_of tos_binary_opcodes sfx = Some op" and "sfx \<noteq> ''xor.rr''"
  shows "wvm_emit_bin_opcode (mds_prefix kind @ ''.'' @ sfx) = Some op"
  using emit_bin_opcode_table map_of_SomeD [OF assms(1)] assms(2) by (cases kind) (auto simp: list_all_iff)

section \<open>Running one emitted instruction\<close>

text \<open>
  The frame holds the registers of the program; the scratch register, the last of the frame, may hold
  anything.
\<close>

definition frame_holds :: "WVMPrototype \<Rightarrow> (MALReg \<Rightarrow> WVMValue) \<Rightarrow> WVMState \<Rightarrow> bool" where
  "frame_holds p regs vm \<longleftrightarrow> unat (pr_regCount p) \<le> length (stack vm)
     \<and> (\<forall>r. Suc (unat r) < unat (pr_regCount p) \<longrightarrow> stack vm ! unat r = regs r)"

lemma frame_holds_frame [simp]: "frame_holds p regs (vm\<lparr>topFrame := f\<rparr>) = frame_holds p regs vm"
  by (simp add: frame_holds_def)

lemma wvm_loop_at:
  assumes "n < length (proto_code p)" and "length (proto_code p) < 2 ^ 31"
    and "wvm_opcode_of (WVM_DECODE_OP (proto_code p ! n)) = Some op"
  obtains f where "wvm_loop p (of_nat n) vm =
    (case wvm_exec_op p op (proto_code p ! n) (of_nat n) (vm\<lparr>topFrame := f\<rparr>) of
       Inl e \<Rightarrow> Some (Inl e)
     | Inr (ctl, vm') \<Rightarrow> (case ctl of Return r \<Rightarrow> Some (Inr (r, vm')) | Continue pc' \<Rightarrow> wvm_loop p pc' vm'))"
proof -
  have n: "unat (of_nat n :: u32) = n" using assms(1,2) by (intro unat_of_nat_small) simp
  show ?thesis
    by (rule that, subst wvm_loop.simps) (use assms n in \<open>simp add: wvm_step_def Let_def\<close>)
qed

text \<open>A builder on the way to the prototype, and the position of its next instruction.\<close>

definition built :: "WVMPrototype \<Rightarrow> WVMEncodeBuilder \<Rightarrow> bool" where
  "built p b \<longleftrightarrow> prefix (eb_instrs b) (proto_code p) \<and> prefix (eb_consts b) (pr_consts p)
     \<and> eb_scratchReg b = pr_regCount p - 1 \<and> 1 < unat (pr_regCount p)
     \<and> length (proto_code p) < 2 ^ 31 \<and> length (pr_consts p) < 2 ^ 31"

definition pc_of :: "WVMEncodeBuilder \<Rightarrow> u32" where
  "pc_of b = of_nat (length (eb_instrs b))"

lemma append_built:
  assumes "wvm_builder_append_instr ok b i = Some b'" and "built p b'"
  shows "built p b" and "length (eb_instrs b) < length (proto_code p)"
    and "proto_code p ! length (eb_instrs b) = i" and "pc_of b' = pc_of b + 1"
proof -
  have b': "eb_instrs b' = eb_instrs b @ [i]" "eb_consts b' = eb_consts b" "eb_scratchReg b' = eb_scratchReg b"
    using assms(1) by (auto simp: wvm_builder_append_instr_def Let_def split: if_splits)
  with assms(2) obtain ys where ys: "proto_code p = eb_instrs b @ i # ys" by (auto simp: built_def prefix_def)
  show "built p b" using assms(2) b' ys by (simp add: built_def)
  show "length (eb_instrs b) < length (proto_code p)" "proto_code p ! length (eb_instrs b) = i"
    using ys by simp_all
  show "pc_of b' = pc_of b + 1" using b' by (simp add: pc_of_def)
qed

lemma append_runs:
  assumes "wvm_builder_append_instr ok b i = Some b'" and "built p b'"
    and "wvm_opcode_of (WVM_DECODE_OP i) = Some op"
  obtains f where "wvm_loop p (pc_of b) vm =
    (case wvm_exec_op p op i (pc_of b) (vm\<lparr>topFrame := f\<rparr>) of
       Inl e \<Rightarrow> Some (Inl e)
     | Inr (ctl, vm') \<Rightarrow> (case ctl of Return r \<Rightarrow> Some (Inr (r, vm')) | Continue pc' \<Rightarrow> wvm_loop p pc' vm'))"
  using wvm_loop_at [of "length (eb_instrs b)" p op vm thesis] append_built [OF assms(1,2)] assms(2,3)
  by (auto simp: built_def pc_of_def)

lemma frame_holds_put:
  assumes "frame_holds p regs vm" and "unat a < unat (pr_regCount p)"
  shows "wvm_put a v pc vm = Inr (Continue (pc + 1), vm\<lparr>stack := (stack vm)[unat a := v]\<rparr>)"
  using assms by (simp add: wvm_put_def frame_holds_def)

lemma frame_holds_scratch:
  assumes "frame_holds p regs vm" and "1 < unat (pr_regCount p)"
  shows "unat (pr_regCount p - 1) < unat (pr_regCount p)"
    and "frame_holds p regs (vm\<lparr>stack := (stack vm)[unat (pr_regCount p - 1) := v]\<rparr>)"
proof -
  have "pr_regCount p \<noteq> 0" using assms(2) by auto
  then have "unat (pr_regCount p - 1) = unat (pr_regCount p) - 1" by (simp add: unat_minus_one)
  then show "unat (pr_regCount p - 1) < unat (pr_regCount p)"
    and "frame_holds p regs (vm\<lparr>stack := (stack vm)[unat (pr_regCount p - 1) := v]\<rparr>)"
    using assms by (auto simp: frame_holds_def)
qed

definition operand_in :: "WVMPrototype \<Rightarrow> MALOperand \<Rightarrow> bool" where
  "operand_in p opd \<longleftrightarrow> tos_value_operand opd
     \<and> (case operand_reg opd of Some r \<Rightarrow> Suc (unat r) < unat (pr_regCount p) | None \<Rightarrow> True)"

lemma operand_in_reg:
  assumes "operand_in p opd" and "operand_reg opd = Some r"
  shows "Suc (unat r) < unat (pr_regCount p)" and "unat (ucast r :: u16) = unat r"
proof -
  show r: "Suc (unat r) < unat (pr_regCount p)" using assms by (simp add: operand_in_def)
  then show "unat (ucast r :: u16) = unat r"
    using unsigned_less [of "pr_regCount p", where ?'a = nat] by (simp add: unsigned_ucast_eq take_bit_nat_eq_self)
qed

lemma frame_holds_update:
  assumes "frame_holds p regs vm" and "operand_in p opd" and "operand_reg opd = Some d"
  shows "unat (ucast d :: u16) < unat (pr_regCount p)"
    and "frame_holds p (regs(d := v)) (vm\<lparr>stack := (stack vm)[unat (ucast d :: u16) := v]\<rparr>)"
  using assms operand_in_reg [OF assms(2,3)] by (auto simp: frame_holds_def nth_list_update word_unat_eq_iff)

text \<open>Loading an operand leaves its value in the register given and keeps the frame.\<close>

lemma load_const_run:
  assumes "wvm_load_const ok b v = Some (r, b')" and "built p b'" and "frame_holds p regs vm"
  obtains vm' where "built p b" and "wvm_loop p (pc_of b) vm = wvm_loop p (pc_of b') vm'"
    and "frame_holds p regs vm'" and "stack vm' ! unat r = v" and "unat r < unat (pr_regCount p)"
proof -
  let ?s = "pr_regCount p - 1"
  obtain k b1 where k: "wvm_builder_append_const ok b v = Some (k, b1)" "r = eb_scratchReg b1"
      "wvm_builder_append_instr ok b1
         (WVM_ENCODE_OP_R_CONST (wvm_opcode_num WVM_OP_LOAD_CONST) (eb_scratchReg b1) k) = Some b'"
    using assms(1) by (auto simp: wvm_load_const_def split: option.splits)
  note ab = append_built [OF k(3) assms(2)]
  have b1: "eb_instrs b1 = eb_instrs b" "eb_consts b1 = eb_consts b @ [v]"
      "eb_scratchReg b1 = eb_scratchReg b" "k = of_nat (length (eb_consts b))"
    using k(1) by (auto simp: wvm_builder_append_const_def Let_def split: if_splits)
  then obtain ys where ys: "pr_consts p = eb_consts b @ v # ys" using ab(1) by (auto simp: built_def prefix_def)
  have "length (eb_consts b) < 2 ^ 31" using ys ab(1) by (simp add: built_def)
  then have k': "unat k = length (eb_consts b)" unfolding b1(4) by (intro unat_of_nat_small) simp
  have s: "eb_scratchReg b1 = ?s" "1 < unat (pr_regCount p)" using ab(1) by (simp_all add: built_def)
  obtain f where f: "wvm_loop p (pc_of b1) vm =
      (case wvm_exec_op p WVM_OP_LOAD_CONST
         (WVM_ENCODE_OP_R_CONST (wvm_opcode_num WVM_OP_LOAD_CONST) ?s k) (pc_of b1) (vm\<lparr>topFrame := f\<rparr>) of
         Inl e \<Rightarrow> Some (Inl e)
       | Inr (ctl, vm') \<Rightarrow> (case ctl of Return r \<Rightarrow> Some (Inr (r, vm')) | Continue pc' \<Rightarrow> wvm_loop p pc' vm'))"
    by (rule append_runs [OF k(3) assms(2), of WVM_OP_LOAD_CONST vm]) (simp_all add: s(1))
  let ?vm = "vm\<lparr>topFrame := f, stack := (stack vm)[unat ?s := v]\<rparr>"
  have h: "frame_holds p regs (vm\<lparr>topFrame := f\<rparr>)" using assms(3) by simp
  note fs = frame_holds_scratch [OF h s(2)]
  have "wvm_loop p (pc_of b1) vm = wvm_loop p (pc_of b') ?vm"
    using f frame_holds_put [OF h fs(1)] k' ys ab(4) by (simp add: wvm_exec_op_def Let_def)
  moreover have "frame_holds p regs ?vm" using fs(2) [of v] by simp
  moreover have "stack ?vm ! unat r = v" using fs(1) h k(2) s(1) by (simp add: frame_holds_def)
  moreover have "built p b" using ab(1) b1 ys by (simp add: built_def)
  moreover have "pc_of b1 = pc_of b" using b1 by (simp add: pc_of_def)
  ultimately show ?thesis using that fs(1) k(2) s(1) by simp
qed

lemma operand_run:
  assumes "wvm_operand_to_reg ok b opd = Some (r, b')" and "built p b'" and "frame_holds p regs vm"
    and "operand_in p opd"
  obtains vm' where "built p b" and "wvm_loop p (pc_of b) vm = wvm_loop p (pc_of b') vm'"
    and "frame_holds p regs vm'" and "stack vm' ! unat r = tos_operand_value regs opd"
    and "unat r < unat (pr_regCount p)"
proof (cases opd)
  case (MAL_OPND_REG ty q)
  then have q: "r = ucast q" "b' = b" using assms(1) by (simp_all add: wvm_operand_to_reg_def)
  then show ?thesis using that [of vm] assms(2,3) operand_in_reg [OF assms(4), of q] MAL_OPND_REG
    by (simp add: tos_operand_value_def frame_holds_def)
next
  case (MAL_OPND_IMM_INT ty v)
  show ?thesis
  proof (cases "- (2 ^ 31) \<le> sint v \<and> sint v \<le> 2 ^ 31 - 1")
    case False
    then have "wvm_load_const ok b (WVM_VALUE_FROM_INT (ucast v)) = Some (r, b')"
      using assms(1) unfolding MAL_OPND_IMM_INT wvm_operand_to_reg_def
      by (simp only: MALOperand.case if_False simp_thms)
    then show ?thesis
      by (rule load_const_run [OF _ assms(2,3)]) (use that MAL_OPND_IMM_INT in \<open>simp add: tos_operand_value_def\<close>)
  next
    case True
    then have "map_option (Pair (eb_scratchReg b)) (wvm_builder_append_instr ok b
        (WVM_ENCODE_OP_R_IMM32 (wvm_opcode_num WVM_OP_LOAD_IMM) (eb_scratchReg b) (ucast v))) = Some (r, b')"
      using assms(1) unfolding MAL_OPND_IMM_INT wvm_operand_to_reg_def
      by (simp only: MALOperand.case if_True simp_thms)
    then have i: "wvm_builder_append_instr ok b
        (WVM_ENCODE_OP_R_IMM32 (wvm_opcode_num WVM_OP_LOAD_IMM) (eb_scratchReg b) (ucast v)) = Some b'"
      and r: "r = eb_scratchReg b" by auto
    note ab = append_built [OF i assms(2)]
    let ?s = "pr_regCount p - 1" and ?v = "WVM_VALUE_FROM_INT (ucast v)"
    have s: "eb_scratchReg b = ?s" "1 < unat (pr_regCount p)" using ab(1) by (simp_all add: built_def)
    obtain f where f: "wvm_loop p (pc_of b) vm =
        (case wvm_exec_op p WVM_OP_LOAD_IMM
           (WVM_ENCODE_OP_R_IMM32 (wvm_opcode_num WVM_OP_LOAD_IMM) ?s (ucast v)) (pc_of b) (vm\<lparr>topFrame := f\<rparr>) of
           Inl e \<Rightarrow> Some (Inl e)
         | Inr (ctl, vm') \<Rightarrow> (case ctl of Return r \<Rightarrow> Some (Inr (r, vm')) | Continue pc' \<Rightarrow> wvm_loop p pc' vm'))"
      by (rule append_runs [OF i assms(2), of WVM_OP_LOAD_IMM vm]) (simp_all add: s(1))
    let ?vm = "vm\<lparr>topFrame := f, stack := (stack vm)[unat ?s := ?v]\<rparr>"
    have h: "frame_holds p regs (vm\<lparr>topFrame := f\<rparr>)" using assms(3) by simp
    note fs = frame_holds_scratch [OF h s(2)]
    have "wvm_loop p (pc_of b) vm = wvm_loop p (pc_of b') ?vm"
      using f frame_holds_put [OF h fs(1)] ab(4) by (simp add: wvm_exec_op_def Let_def)
    moreover have "frame_holds p regs ?vm" using fs(2) [of ?v] by simp
    moreover have "stack ?vm ! unat r = tos_operand_value regs opd"
      using fs(1) h r s(1) MAL_OPND_IMM_INT by (simp add: frame_holds_def tos_operand_value_def)
    ultimately show ?thesis using that ab(1) fs(1) r s(1) by simp
  qed
next
  case (MAL_OPND_IMM_FLOAT ty v)
  then have "wvm_load_const ok b v = Some (r, b')" using assms(1) by (simp add: wvm_operand_to_reg_def)
  then show ?thesis
    by (rule load_const_run [OF _ assms(2,3)]) (use that MAL_OPND_IMM_FLOAT in \<open>simp add: tos_operand_value_def\<close>)
qed (use assms in \<open>simp_all add: wvm_operand_to_reg_def\<close>)

section \<open>Simulation of an instruction\<close>

definition simulates :: "WVMPrototype \<Rightarrow> WVMEncodeBuilder \<Rightarrow> tos_outcome \<Rightarrow> (bool \<times> WVMState) cres option \<Rightarrow> bool" where
  "simulates p b' outcome run =
     (case outcome of
        TosRunning regs \<Rightarrow> (\<exists>vm. run = wvm_loop p (pc_of b') vm \<and> frame_holds p regs vm)
      | _ \<Rightarrow> run_shows outcome run)"

text \<open>The value an instruction leaves in its destination, or the way it stops.\<close>

definition value_outcome :: "(MALReg \<Rightarrow> WVMValue) \<Rightarrow> MALReg \<Rightarrow> WVMValue option cres \<Rightarrow> tos_outcome" where
  "value_outcome regs d res =
     (case res of Inl e \<Rightarrow> TosFault e | Inr None \<Rightarrow> TosRejected | Inr (Some v) \<Rightarrow> TosRunning (regs(d := v)))"

lemma value_instr_simulates:
  assumes "wvm_builder_append_instr ok b i = Some b'" and "built p b'" and "frame_holds p regs vm"
    and "wvm_opcode_of (WVM_DECODE_OP i) = Some op"
    and "operand_in p dst" and "operand_reg dst = Some d"
    and "\<And>f. wvm_exec_op p op i (pc_of b) (vm\<lparr>topFrame := f\<rparr>) =
           cbind res (\<lambda>v. case v of
             Some v \<Rightarrow> wvm_put (ucast d) v (pc_of b) (vm\<lparr>topFrame := f\<rparr>)
           | None \<Rightarrow> wvm_fail msg (vm\<lparr>topFrame := f\<rparr>))"
  shows "simulates p b' (value_outcome regs d res) (wvm_loop p (pc_of b) vm)"
proof -
  obtain f where f: "wvm_loop p (pc_of b) vm =
      (case wvm_exec_op p op i (pc_of b) (vm\<lparr>topFrame := f\<rparr>) of
         Inl e \<Rightarrow> Some (Inl e)
       | Inr (ctl, vm') \<Rightarrow> (case ctl of Return r \<Rightarrow> Some (Inr (r, vm')) | Continue pc' \<Rightarrow> wvm_loop p pc' vm'))"
    using append_runs [OF assms(1,2,4)] by blast
  have h: "frame_holds p regs (vm\<lparr>topFrame := f\<rparr>)" using assms(3) by simp
  note u = frame_holds_update [OF h assms(5,6)]
  show ?thesis
  proof (cases res)
    case (Inl e)
    with f assms(7) show ?thesis by (simp add: simulates_def value_outcome_def run_shows_def)
  next
    case (Inr v)
    show ?thesis
    proof (cases v)
      case None
      with Inr f assms(7) show ?thesis by (simp add: simulates_def value_outcome_def run_shows_def wvm_fail_def)
    next
      case (Some w)
      with Inr f assms(7) frame_holds_put [OF h u(1)] append_built(4) [OF assms(1,2)]
      have "wvm_loop p (pc_of b) vm = wvm_loop p (pc_of b') (vm\<lparr>topFrame := f, stack := (stack vm)[unat (ucast d :: u16) := w]\<rparr>)"
        by simp
      with Inr Some u(2) [of w] show ?thesis by (auto simp: simulates_def value_outcome_def)
    qed
  qed
qed

lemma return_simulates:
  assumes "wvm_builder_append_instr ok b (WVM_ENCODE_OP_R (wvm_opcode_num WVM_OP_RETURN) r) = Some b'"
    and "built p b'" and "frame_holds p regs vm" and "unat r < unat (pr_regCount p)"
  shows "simulates p b' (TosReturned (stack vm ! unat r)) (wvm_loop p (pc_of b) vm)"
proof -
  obtain f where f: "wvm_loop p (pc_of b) vm =
      (case wvm_exec_op p WVM_OP_RETURN (WVM_ENCODE_OP_R (wvm_opcode_num WVM_OP_RETURN) r)
              (pc_of b) (vm\<lparr>topFrame := f\<rparr>) of
         Inl e \<Rightarrow> Some (Inl e)
       | Inr (ctl, vm') \<Rightarrow> (case ctl of Return r \<Rightarrow> Some (Inr (r, vm')) | Continue pc' \<Rightarrow> wvm_loop p pc' vm'))"
    by (rule append_runs [OF assms(1,2), of WVM_OP_RETURN vm]) simp_all
  have n: "unat r < length (stack vm)" "0 < length (stack vm)"
    using assms(3,4) by (auto simp: frame_holds_def)
  have "\<not> (ucast (pr_regCount p) :: u32) \<le> 0"
    using assms(4) unat_reg [of "pr_regCount p"] by (simp add: word_le_nat_alt)
  with f n show ?thesis
    by (auto simp: simulates_def run_shows_def wvm_exec_op_def Let_def wvmGetReg_def wvm_leave_def)
qed

text \<open>The three shapes of an instruction, each emitted after its operands are loaded.\<close>

lemma ret_simulates:
  assumes "(case wvm_operand_to_reg ok b x of None \<Rightarrow> None
      | Some (r, b1) \<Rightarrow> wvm_builder_append_instr ok b1 (WVM_ENCODE_OP_R (wvm_opcode_num WVM_OP_RETURN) r)) = Some b'"
    and "built p b'" and "frame_holds p regs vm" and "operand_in p x"
  shows "built p b \<and> simulates p b' (TosReturned (tos_operand_value regs x)) (wvm_loop p (pc_of b) vm)"
proof -
  obtain r b1 where e: "wvm_operand_to_reg ok b x = Some (r, b1)"
      "wvm_builder_append_instr ok b1 (WVM_ENCODE_OP_R (wvm_opcode_num WVM_OP_RETURN) r) = Some b'"
    using assms(1) by (auto split: option.splits)
  obtain vm1 where r: "built p b" "wvm_loop p (pc_of b) vm = wvm_loop p (pc_of b1) vm1"
      "frame_holds p regs vm1" "stack vm1 ! unat r = tos_operand_value regs x" "unat r < unat (pr_regCount p)"
    using operand_run [OF e(1) append_built(1) [OF e(2) assms(2)] assms(3,4)] by blast
  show ?thesis using return_simulates [OF e(2) assms(2) r(3,5)] r by simp
qed

definition unary_exec :: "string \<Rightarrow> WVMOpcodeEnum" where
  "unary_exec sfx = (if sfx = ''neg'' then WVM_OP_NEG else if sfx = ''not'' then WVM_OP_NOT else WVM_OP_MOVE)"

lemma unary_simulates:
  assumes "wvm_operand_to_reg ok b x = Some (r, b1)"
    and "wvm_builder_append_instr ok b1 (WVM_ENCODE_OP_RR (wvm_opcode_num (unary_exec sfx)) (ucast d) r) = Some b'"
    and "built p b'" and "frame_holds p regs vm" and "operand_in p x"
    and "operand_in p dst" and "operand_reg dst = Some d"
  shows "built p b \<and> simulates p b'
    (value_outcome regs d (cbind (tos_exec_unary sfx (tos_operand_value regs x)) (\<lambda>v. Inr (Some v))))
    (wvm_loop p (pc_of b) vm)"
proof -
  obtain vm1 where r: "built p b" "wvm_loop p (pc_of b) vm = wvm_loop p (pc_of b1) vm1"
      "frame_holds p regs vm1" "stack vm1 ! unat r = tos_operand_value regs x" "unat r < unat (pr_regCount p)"
    using operand_run [OF assms(1) append_built(1) [OF assms(2,3)] assms(4,5)] by blast
  have n: "unat r < length (stack vm1)" using r(3,5) by (simp add: frame_holds_def)
  have "simulates p b'
    (value_outcome regs d (cbind (tos_exec_unary sfx (tos_operand_value regs x)) (\<lambda>v. Inr (Some v))))
    (wvm_loop p (pc_of b1) vm1)"
    by (rule value_instr_simulates [OF assms(2,3) r(3) _ assms(6,7), where op = "unary_exec sfx" and msg = "''''"])
      (use r(4) n in \<open>auto simp: wvm_exec_op_def Let_def unary_exec_def tos_exec_unary_def cbind_def
         split: sum.splits\<close>)
  with r show ?thesis by simp
qed

lemma binary_simulates:
  assumes "wvm_operand_to_reg ok b y = Some (r, b1)"
    and "wvm_builder_append_instr ok b1 (WVM_ENCODE_OP_RRR (wvm_opcode_num op) (ucast d) (ucast a) r) = Some b'"
    and "built p b'" and "frame_holds p regs vm" and "operand_in p y"
    and "operand_in p dst" and "operand_reg dst = Some d" and "operand_in p x" and "operand_reg x = Some a"
    and "op \<in> emit_opcodes"
  shows "built p b \<and> simulates p b'
    (value_outcome regs d (wvm_exec_binary_int op (tos_operand_value regs x) (tos_operand_value regs y)))
    (wvm_loop p (pc_of b) vm)"
proof -
  obtain vm1 where r: "built p b" "wvm_loop p (pc_of b) vm = wvm_loop p (pc_of b1) vm1"
      "frame_holds p regs vm1" "stack vm1 ! unat r = tos_operand_value regs y" "unat r < unat (pr_regCount p)"
    using operand_run [OF assms(1) append_built(1) [OF assms(2,3)] assms(4,5)] by blast
  note a = operand_in_reg [OF assms(8,9)]
  have n: "unat r < length (stack vm1)" "unat (ucast a :: u16) < length (stack vm1)"
    using r(3,5) a by (simp_all add: frame_holds_def)
  have x: "stack vm1 ! unat (ucast a :: u16) = tos_operand_value regs x"
    using r(3) a assms(9) by (cases x) (simp_all add: frame_holds_def tos_operand_value_def)
  have "simulates p b'
    (value_outcome regs d (wvm_exec_binary_int op (tos_operand_value regs x) (tos_operand_value regs y)))
    (wvm_loop p (pc_of b1) vm1)"
    by (rule value_instr_simulates [OF assms(2,3) r(3) _ assms(6,7), where op = op
          and msg = "''unsupported operand type in WVM interpreter''"])
      (use r(4) n x assms(10) in \<open>auto simp: wvm_exec_op_def Let_def emit_opcodes_def wvm_emit_bin_table_def\<close>)
  with r show ?thesis by simp
qed

lemma tos_exec_ret: "tos_exec sfx [x] regs = TosReturned (tos_operand_value regs x)"
  by (cases x) (simp_all add: tos_exec_def)

lemma tos_exec_unary_shape:
  assumes "operand_reg dst = Some d"
  shows "tos_exec sfx [dst, x] regs =
     value_outcome regs d (cbind (tos_exec_unary sfx (tos_operand_value regs x)) (\<lambda>v. Inr (Some v)))"
  using assms by (cases dst; cases "tos_exec_unary sfx (tos_operand_value regs x)")
    (simp_all add: tos_exec_def value_outcome_def)

lemma tos_exec_binary_shape:
  assumes "operand_reg dst = Some d" and "map_of tos_binary_opcodes sfx = Some op"
  shows "tos_exec sfx [dst, x, y] regs =
     value_outcome regs d (wvm_exec_binary_int op (tos_operand_value regs x) (tos_operand_value regs y))"
  using assms by (cases dst) (simp_all add: tos_exec_def value_outcome_def)

lemmas tos_exec_shapes = tos_exec_ret tos_exec_unary_shape tos_exec_binary_shape

lemma length_2: "length xs = 2 \<Longrightarrow> \<exists>a b. xs = [a, b]"
  by (auto simp: length_Suc_conv numeral_2_eq_2)

lemma length_3: "length xs = 3 \<Longrightarrow> \<exists>a b c. xs = [a, b, c]"
  by (auto simp: length_Suc_conv numeral_3_eq_3)

lemma inst_simulates:
  assumes "wvm_emit_from_mnemonic ok b inst = Some b'" and "built p b'" and "frame_holds p regs vm"
    and "tos_compilable kind inst" and "list_all (operand_in p) (ti_operands inst)"
  shows "built p b \<and> simulates p b' (tos_exec (tos_suffix kind inst) (ti_operands inst) regs) (wvm_loop p (pc_of b) vm)"
proof -
  let ?sfx = "tos_suffix kind inst" and ?ops = "ti_operands inst"
  obtain desc where desc: "ti_desc inst = Some desc" "in_mnemonic desc = mds_prefix kind @ ''.'' @ ?sfx"
    and shape: "tos_shape_ok ?sfx ?ops"
    using assms(4) by (auto simp: tos_compilable_def split: option.splits)
  note E = assms(1) [unfolded wvm_emit_from_mnemonic_def desc option.case Let_def machine_mnemonic_prefix]
  consider (ret) x where "?sfx = ''ret''" "?ops = [x]"
    | (unary) dst x where "?sfx \<in> {''mov.rr'', ''mov.ri'', ''neg'', ''not''}" "?ops = [dst, x]" "is_reg_operand dst"
    | (binary) dst x y where "?sfx \<in> fst ` set tos_binary_opcodes - {''xor.rr''}" "?ops = [dst, x, y]"
        "is_reg_operand dst" "is_reg_operand x"
    using shape length_2 [of ?ops] length_3 [of ?ops] unfolding tos_shape_ok_def
    by (elim conjE disjE) (auto simp: length_Suc_conv)
  then show ?thesis
  proof cases
    case ret
    with E have e: "(case wvm_operand_to_reg ok b x of None \<Rightarrow> None
      | Some (r, b1) \<Rightarrow> wvm_builder_append_instr ok b1 (WVM_ENCODE_OP_R (wvm_opcode_num WVM_OP_RETURN) r)) = Some b'"
      by simp
    with ret_simulates [OF e assms(2,3)] assms(5) ret show ?thesis by (simp add: tos_exec_shapes)
  next
    case unary
    then obtain d where d: "operand_reg dst = Some d" by (auto simp: is_reg_operand_def)
    obtain r b1 where r: "wvm_operand_to_reg ok b x = Some (r, b1)"
      and e: "(if ?sfx = ''mov.ri'' \<and> r = ucast d then Some b1
               else wvm_builder_append_instr ok b1 (WVM_ENCODE_OP_RR (wvm_opcode_num (unary_exec ?sfx)) (ucast d) r)) = Some b'"
      using E unary d by (auto simp: unary_exec_def split: option.splits if_splits)
    have ops: "operand_in p x" "operand_in p dst" using assms(5) unary(2) by simp_all
    show ?thesis
    proof (cases "?sfx = ''mov.ri'' \<and> r = ucast d")
      case True
      with e have b': "b' = b1" by simp
      obtain vm1 where r: "built p b" "wvm_loop p (pc_of b) vm = wvm_loop p (pc_of b') vm1"
          "frame_holds p regs vm1" "stack vm1 ! unat r = tos_operand_value regs x"
        using operand_run [OF r [folded b'] assms(2,3) ops(1)] by blast
      have "regs d = tos_operand_value regs x"
        using r(3,4) True operand_in_reg [OF ops(2) d] by (simp add: frame_holds_def)
      then have "tos_exec ?sfx ?ops regs = TosRunning regs"
        using True d unary(2) by (simp add: tos_exec_shapes tos_exec_unary_def value_outcome_def fun_upd_idem)
      with r show ?thesis by (auto simp: simulates_def)
    next
      case False
      with e have "wvm_builder_append_instr ok b1 (WVM_ENCODE_OP_RR (wvm_opcode_num (unary_exec ?sfx)) (ucast d) r) = Some b'"
        by (simp split: if_splits)
      from unary_simulates [OF r this assms(2,3) ops d] show ?thesis
        using unary(2) d by (simp add: tos_exec_shapes)
    qed
  next
    case binary
    then obtain d a where d: "operand_reg dst = Some d" and a: "operand_reg x = Some a"
      by (auto simp: is_reg_operand_def)
    obtain op where op: "map_of tos_binary_opcodes ?sfx = Some op"
      using binary(1) by (metis DiffD1 map_of_eq_None_iff not_None_eq)
    have bin: "wvm_emit_bin_opcode (mds_prefix kind @ ''.'' @ ?sfx) = Some op"
      using binary(1) op by (intro emit_bin_opcode_suffix) auto
    have "?sfx \<notin> {''mov.rr'', ''mov.ri'', ''ret'', ''neg'', ''not''}"
      using binary(1) by (auto simp: tos_binary_opcodes_def)
    moreover have "wvm_operand_to_reg ok b x = Some (ucast a, b)"
      using a by (cases x) (simp_all add: wvm_operand_to_reg_def)
    ultimately obtain r b1 where r: "wvm_operand_to_reg ok b y = Some (r, b1)"
      and e: "wvm_builder_append_instr ok b1 (WVM_ENCODE_OP_RRR (wvm_opcode_num op) (ucast d) (ucast a) r) = Some b'"
      using E binary(2) d bin by (auto split: option.splits)
    have ops: "operand_in p y" "operand_in p dst" "operand_in p x" using assms(5) binary(2) by simp_all
    show ?thesis
      using binary_simulates [OF r e assms(2,3) ops(1,2) d ops(3) a wvm_emit_bin_opcode_in [OF bin]] binary(2) d op
      by (simp add: tos_exec_shapes)
  qed
qed

section \<open>Whole programs\<close>

lemma insts_simulate:
  "\<lbrakk>wvm_emit_all ok b insts = Some b'; built p b'; frame_holds p regs vm; list_all (tos_compilable kind) insts;
    list_all (\<lambda>inst. list_all (operand_in p) (ti_operands inst)) insts\<rbrakk>
   \<Longrightarrow> built p b \<and> simulates p b' (tos_eval kind insts regs) (wvm_loop p (pc_of b) vm)"
proof (induction insts arbitrary: b regs vm)
  case Nil
  then show ?case by (auto simp: simulates_def)
next
  case (Cons inst insts)
  then obtain b1 where b1: "wvm_emit_from_mnemonic ok b inst = Some b1" "wvm_emit_all ok b1 insts = Some b'"
    by (auto split: option.splits)
  note IH = Cons.IH [OF b1(2) Cons.prems(2)]
  have tl: "list_all (tos_compilable kind) insts" "list_all (\<lambda>inst. list_all (operand_in p) (ti_operands inst)) insts"
    using Cons.prems by simp_all
  have "built p b1" using IH [OF Cons.prems(3) tl] by blast
  then have hd: "built p b" "simulates p b1 (tos_exec (tos_suffix kind inst) (ti_operands inst) regs) (wvm_loop p (pc_of b) vm)"
    using inst_simulates [OF b1(1) _ Cons.prems(3)] Cons.prems by auto
  show ?case
  proof (cases "tos_exec (tos_suffix kind inst) (ti_operands inst) regs")
    case (TosRunning regs1)
    with hd(2) obtain vm1 where vm1: "wvm_loop p (pc_of b) vm = wvm_loop p (pc_of b1) vm1" "frame_holds p regs1 vm1"
      by (auto simp: simulates_def)
    then show ?thesis using IH [OF vm1(2) tl] hd(1) TosRunning by simp
  qed (use hd in \<open>simp_all add: simulates_def\<close>)
qed

text \<open>With an allocator that serves every request the encoder does not fail, and the code stays short.\<close>

definition emits :: "WVMEncodeBuilder \<Rightarrow> nat \<Rightarrow> nat \<Rightarrow> WVMEncodeBuilder \<Rightarrow> bool" where
  "emits b i c b' \<longleftrightarrow> length (eb_instrs b') \<le> length (eb_instrs b) + i
     \<and> length (eb_consts b') \<le> length (eb_consts b) + c"

lemma append_total:
  "\<exists>b'. wvm_builder_append_instr (\<lambda>_. True) b i = Some b' \<and> emits b 1 0 b'"
  by (simp add: wvm_builder_append_instr_def Let_def emits_def)

lemma operand_total:
  assumes "tos_value_operand opd"
  shows "\<exists>r b'. wvm_operand_to_reg (\<lambda>_. True) b opd = Some (r, b') \<and> emits b 1 1 b'
     \<and> (is_reg_operand opd \<longrightarrow> b' = b)"
  using assms
  by (cases opd) (auto simp: wvm_operand_to_reg_def wvm_load_const_def wvm_builder_append_const_def
      wvm_builder_append_instr_def Let_def emits_def is_reg_operand_def tos_value_operand_def)

lemma emit_total:
  assumes "tos_compilable kind inst"
  shows "\<exists>b'. wvm_emit_from_mnemonic (\<lambda>_. True) b inst = Some b' \<and> emits b 2 1 b'"
proof -
  let ?sfx = "tos_suffix kind inst" and ?ops = "ti_operands inst"
  obtain desc where desc: "ti_desc inst = Some desc" "in_mnemonic desc = mds_prefix kind @ ''.'' @ ?sfx"
    and shape: "tos_shape_ok ?sfx ?ops"
    using assms by (auto simp: tos_compilable_def split: option.splits)
  note E = wvm_emit_from_mnemonic_def desc option.case Let_def machine_mnemonic_prefix
  have val: "list_all tos_value_operand ?ops" using shape by (simp add: tos_shape_ok_def)
  consider (ret) x where "?sfx = ''ret''" "?ops = [x]"
    | (unary) dst x where "?sfx \<in> {''mov.rr'', ''mov.ri'', ''neg'', ''not''}" "?ops = [dst, x]" "is_reg_operand dst"
    | (binary) dst x y where "?sfx \<in> fst ` set tos_binary_opcodes - {''xor.rr''}" "?ops = [dst, x, y]"
        "is_reg_operand dst" "is_reg_operand x"
    using shape length_2 [of ?ops] length_3 [of ?ops] unfolding tos_shape_ok_def
    by (elim conjE disjE) (auto simp: length_Suc_conv)
  then show ?thesis
  proof cases
    case ret
    then obtain r b1 b2 where "wvm_operand_to_reg (\<lambda>_. True) b x = Some (r, b1)" "emits b 1 1 b1"
        "wvm_builder_append_instr (\<lambda>_. True) b1 (WVM_ENCODE_OP_R (wvm_opcode_num WVM_OP_RETURN) r) = Some b2"
        "emits b1 1 0 b2"
      using operand_total [of x b] append_total val by fastforce
    then show ?thesis unfolding E using ret by (simp add: emits_def)
  next
    case unary
    then obtain d where d: "operand_reg dst = Some d" by (auto simp: is_reg_operand_def)
    obtain r b1 where r: "wvm_operand_to_reg (\<lambda>_. True) b x = Some (r, b1)" "emits b 1 1 b1"
      using operand_total [of x b] val unary by auto
    obtain b2 where b2: "wvm_builder_append_instr (\<lambda>_. True) b1
        (WVM_ENCODE_OP_RR (wvm_opcode_num (unary_exec ?sfx)) (ucast d) r) = Some b2" "emits b1 1 0 b2"
      using append_total by blast
    have "emits b 2 1 b1" "emits b 2 1 b2" using r(2) b2(2) by (simp_all add: emits_def)
    then show ?thesis unfolding E using unary d r(1) b2(1) by (auto simp: unary_exec_def)
  next
    case binary
    then obtain d a where d: "operand_reg dst = Some d" and a: "operand_reg x = Some a"
      by (auto simp: is_reg_operand_def)
    obtain op where op: "map_of tos_binary_opcodes ?sfx = Some op"
      using binary(1) by (metis DiffD1 map_of_eq_None_iff not_None_eq)
    have bin: "wvm_emit_bin_opcode (mds_prefix kind @ ''.'' @ ?sfx) = Some op"
      using binary(1) op by (intro emit_bin_opcode_suffix) auto
    have sfx: "?sfx \<notin> {''mov.rr'', ''mov.ri'', ''ret'', ''neg'', ''not''}"
      using binary(1) by (auto simp: tos_binary_opcodes_def)
    have x: "wvm_operand_to_reg (\<lambda>_. True) b x = Some (ucast a, b)"
      using a by (cases x) (simp_all add: wvm_operand_to_reg_def)
    obtain r b1 where r: "wvm_operand_to_reg (\<lambda>_. True) b y = Some (r, b1)" "emits b 1 1 b1"
      using operand_total [of y b] val binary by auto
    obtain b2 where b2: "wvm_builder_append_instr (\<lambda>_. True) b1
        (WVM_ENCODE_OP_RRR (wvm_opcode_num op) (ucast d) (ucast a) r) = Some b2" "emits b1 1 0 b2"
      using append_total by blast
    have "emits b 2 1 b2" using r(2) b2(2) by (simp add: emits_def)
    then show ?thesis unfolding E using binary(2) sfx d x r(1) b2(1) bin by simp
  qed
qed

lemma emit_all_total:
  "list_all (tos_compilable kind) insts \<Longrightarrow>
     \<exists>b'. wvm_emit_all (\<lambda>_. True) b insts = Some b' \<and> emits b (2 * length insts) (length insts) b'"
proof (induction insts arbitrary: b)
  case (Cons inst insts)
  obtain b1 where b1: "wvm_emit_from_mnemonic (\<lambda>_. True) b inst = Some b1" "emits b 2 1 b1"
    using emit_total [of kind inst b] Cons.prems by auto
  obtain b' where "wvm_emit_all (\<lambda>_. True) b1 insts = Some b'" "emits b1 (2 * length insts) (length insts) b'"
    using Cons by auto
  with b1 show ?case by (auto simp: emits_def)
qed (simp add: emits_def)

lemma compilable_operands_in:
  assumes "list_all (tos_compilable kind) (tp_instructions t)" and "pr_regCount p = wvm_compute_reg_count t"
  shows "list_all (\<lambda>inst. list_all (operand_in p) (ti_operands inst)) (tp_instructions t)"
proof -
  have "operand_in p opd" if i: "inst \<in> set (tp_instructions t)" and o: "opd \<in> set (ti_operands inst)" for inst opd
  proof -
    have v: "tos_value_operand opd"
      using assms(1) i o by (auto simp: list_all_iff tos_compilable_def tos_shape_ok_def)
    have "Suc (unat r) < unat (wvm_compute_reg_count t)" if r: "operand_reg opd = Some r" for r
    proof -
      have "unat r < 65534" using v r by (cases opd) (simp_all add: tos_value_operand_def)
      moreover have "unat r \<le> unat (tos_max_reg t)" using tos_max_reg_upper [OF i o r] by (simp add: word_le_nat_alt)
      ultimately show ?thesis by (simp add: reg_count_unat)
    qed
    with v assms(2) show ?thesis by (simp add: operand_in_def split: option.split)
  qed
  then show ?thesis by (simp add: list_all_iff)
qed

lemma compilable_encodable:
  assumes "list_all (tos_compilable kind) (tp_instructions t)"
  shows "tos_regs_encodable t"
proof -
  have "unat r < 65535" if "tos_value_operand opd" "operand_reg opd = Some r" for opd r
    using that by (cases opd) (simp_all add: tos_value_operand_def)
  then show ?thesis
    using assms by (fastforce simp: tos_regs_encodable_def list_all_iff tos_compilable_def tos_shape_ok_def
        split: option.split)
qed

text \<open>The end of the bytecode, and the \<open>HALT\<close> of a program without code, end a run.\<close>

lemma wvm_loop_end:
  assumes "built p b" and "proto_code p = eb_instrs b \<or> eb_instrs b = [] \<and> proto_code p = [WVM_ENCODE_OP (wvm_opcode_num WVM_OP_HALT)]"
  shows "\<exists>vm'. wvm_loop p (pc_of b) vm = Some (Inr (True, vm'))"
proof -
  have last: "\<exists>vm'. wvm_loop p (of_nat (length (proto_code p))) vm = Some (Inr (True, vm'))" for vm
    using assms(1) by (subst wvm_loop.simps) (simp add: built_def unat_of_nat_small)
  show ?thesis
  proof (cases "proto_code p = eb_instrs b")
    case True
    with last show ?thesis by (simp add: pc_of_def)
  next
    case False
    with assms(2) have h: "eb_instrs b = []" "proto_code p = [WVM_ENCODE_OP (wvm_opcode_num WVM_OP_HALT)]" by simp_all
    obtain f where "wvm_loop p 0 vm = (case wvm_exec_op p WVM_OP_HALT (WVM_ENCODE_OP (wvm_opcode_num WVM_OP_HALT)) 0
           (vm\<lparr>topFrame := f\<rparr>) of
         Inl e \<Rightarrow> Some (Inl e)
       | Inr (ctl, vm') \<Rightarrow> (case ctl of Return r \<Rightarrow> Some (Inr (r, vm')) | Continue pc' \<Rightarrow> wvm_loop p pc' vm'))"
      by (rule wvm_loop_at [of 0 p WVM_OP_HALT vm]) (simp_all add: h(2))
    then show ?thesis using last h by (simp add: wvm_exec_op_def Let_def pc_of_def)
  qed
qed

lemma prototype_runs:
  assumes "list_all (tos_compilable kind) (tp_instructions t)" and "length (tp_instructions t) < 2 ^ 29"
    and "wf_vm vm" and "stackSize vm = 0"
  shows "\<exists>p. wvmPrototypeFromTOS (\<lambda>_. True) True (Some t) nm source = Some p
     \<and> wvm_verify_error (Some p) = None
     \<and> run_shows (tos_eval kind (tp_instructions t) (\<lambda>_. 0)) (wvmExecute (\<lambda>_. True) vm (Some p))"
proof -
  let ?rc = "wvm_compute_reg_count t" and ?insts = "tp_instructions t"
  let ?b = "\<lparr>eb_instrs = [], eb_instrCap = 0, eb_consts = [], eb_constCap = 0,
             eb_scratchReg = ?rc - 1, eb_regCount = ?rc\<rparr>"
  obtain b1 where b1: "wvm_emit_all (\<lambda>_. True) ?b ?insts = Some b1" "emits ?b (2 * length ?insts) (length ?insts) b1"
    using emit_all_total [OF assms(1)] by blast
  let ?halt = "WVM_ENCODE_OP (wvm_opcode_num WVM_OP_HALT)"
  let ?code = "if eb_instrs b1 = [] then [?halt] else eb_instrs b1"
  have grows: "builder_grows ?b b1"
  proof (rule emit_all_ok [OF b1(1)])
    show "builder_ok ?b" by (rule initial_builder_ok)
    show "list_all (regs_below (eb_regCount ?b)) ?insts"
      using regs_below_count [of t] compilable_encodable [OF assms(1)] by simp
  qed
  obtain p where p: "wvmPrototypeFromTOS (\<lambda>_. True) True (Some t) nm source = Some p"
    "pr_instrs p = Some ?code" "pr_consts p = eb_consts b1" "pr_regCount p = eb_regCount b1"
    using that b1(1) by (cases "eb_instrs b1 = []")
      (simp_all add: wvmPrototypeFromTOS_def Let_def wvm_builder_append_instr_def)
  have code: "proto_code p = ?code" using p(2) by (simp add: proto_code_def)
  have rc: "pr_regCount p = ?rc" using grows p(4) by (simp add: builder_grows_def)
  have rc1: "1 < unat ?rc" by (simp add: reg_count_unat)
  have built: "built p b1"
    using grows b1(2) code p(3,4) rc rc1 assms(2) by (simp add: built_def builder_grows_def emits_def)
  obtain vm1 where vm1: "wvm_enter (\<lambda>_. True) (wvmClearError (wvmClearError vm)) p = Inr vm1"
      "unat (pr_regCount p) \<le> length (stack vm1)" "\<forall>r < unat (pr_regCount p). stack vm1 ! r = 0"
    using wvm_enter_ok [of "wvmClearError (wvmClearError vm)" "\<lambda>_. True" p] assms(3,4) by auto
  then have "frame_holds p (\<lambda>_. 0) vm1" by (simp add: frame_holds_def)
  then have sim: "simulates p b1 (tos_eval kind ?insts (\<lambda>_. 0)) (wvm_loop p 0 vm1)"
    using insts_simulate [OF b1(1) built _ assms(1) compilable_operands_in [OF assms(1) rc]] by (simp add: pc_of_def)
  have ok: "wvm_verify_error (Some p) = None"
    using prototype_emitted [OF p(1) compilable_encodable [OF assms(1)]] emitted_verifies
    by (auto simp: wvm_verify_error_None list_all_iff)
  from ok have run: "wvmExecute (\<lambda>_. True) vm (Some p) = wvm_loop p 0 vm1" by (simp add: wvmExecute_verified vm1(1))
  have "run_shows (tos_eval kind ?insts (\<lambda>_. 0)) (wvm_loop p 0 vm1)"
  proof (cases "tos_eval kind ?insts (\<lambda>_. 0)")
    case (TosRunning regs)
    with sim wvm_loop_end [OF built] code show ?thesis by (auto simp: simulates_def run_shows_def split: if_splits)
  qed (use sim in \<open>simp_all add: simulates_def\<close>)
  with p(1) run ok show ?thesis by auto
qed

text \<open>
  C3. The encoder is correct on the programs it compiles (\<open>tos_compilable\<close>). Take a target-ordered program
  of fewer than \<open>2 ^ 29\<close> instructions of one machine, whose instructions have the operand shapes of the
  machine's table (results and the first operands of binary instructions are registers) and registers below 65534, and none of which
  is an exclusive or; an integer immediate stands for its low 32 bits. When every allocation succeeds, the
  encoder makes a prototype of it, and executing the prototype on a well-formed machine with an empty stack
  returns and shows what the program means: the value returned is in register 0, a program that does not
  return runs to the end, ill-typed operands are reported, and the only undefined behaviour is that of the
  program's own arithmetic.
\<close>

theorem wvmPrototypeFromTOS_correct:
  assumes "list_all (tos_compilable kind) (tp_instructions t)" and "length (tp_instructions t) < 2 ^ 29"
    and "wf_vm vm" and "stackSize vm = 0"
  shows "\<exists>p. wvmPrototypeFromTOS (\<lambda>_. True) True (Some t) nm source = Some p
     \<and> run_shows (tos_eval kind (tp_instructions t) (\<lambda>_. 0)) (wvmExecute (\<lambda>_. True) vm (Some p))"
  using prototype_runs [OF assms] by blast

text \<open>The sum of 40 and 2, compiled for the generic machine and run.\<close>

theorem wvmPrototypeFromTOS_correct_witness:
  "\<exists>p vm. wvmPrototypeFromTOS (\<lambda>_. True) True (Some tos_sum) None None = Some p
     \<and> wvmExecute (\<lambda>_. True) fresh_vm (Some p) = Some (Inr (True, vm)) \<and> wvmGetReg vm 0 = Inr (wvm_box 42)"
proof -
  have sfx: "tos_suffix MDS_TARGET_GENERIC (tos_inst i ops) = fst (mds_instr_table ! i)" if "i < 21" for i ops
    using that by (simp add: tos_suffix_def tos_inst_def builtin_mnemonic)
  have ok: "list_all (tos_compilable MDS_TARGET_GENERIC) (tp_instructions tos_sum)"
    by (simp add: tos_sum_def tos_compilable_def sfx)
      (simp add: tos_inst_def tos_suffix_def builtin_mnemonic mds_instr_table_def tos_shape_ok_def tos_value_operand_def
        is_reg_operand_def tos_binary_opcodes_def)
  have "tos_eval MDS_TARGET_GENERIC (tp_instructions tos_sum) (\<lambda>_. 0) = TosReturned (wvm_box 42)"
    by (simp add: tos_sum_def sfx mds_instr_table_def)
      (simp add: tos_inst_def tos_suffix_def builtin_mnemonic mds_instr_table_def tos_exec_def tos_exec_unary_def tos_operand_value_def tos_binary_opcodes_def
        wvm_exec_binary_int_def wvm_int_op_def int32_result_def wvm_box_def)
  with wvmPrototypeFromTOS_correct [OF ok, of fresh_vm None None] show ?thesis
    by (auto simp: fresh_vm_simps run_shows_def tos_sum_def)
qed

end
