(* ===== verification/Arena.thy ===== *)
theory Arena
  imports Wirble_Prelude
begin

unbundle bit_operations_syntax

text \<open>
  The bump allocator of \<^verbatim>\<open>common/arena.c\<close>. A block is identified by the number it was
  created with; a pointer is a block and an offset into its \<open>data\<close>. The allocator behind
  the arena is a parameter saying which sizes \<^verbatim>\<open>malloc\<close> can serve.
\<close>

section \<open>Blocks and arenas\<close>

record WirbleArenaBlock =
  ab_id :: nat
  ab_capacity :: u64
  ab_used :: u64

text \<open>The list of blocks is the chain from \<open>head\<close>; \<open>ar_created\<close> numbers new blocks.\<close>

record WirbleArena =
  ar_blocks :: "WirbleArenaBlock list"
  ar_block_size :: u64
  ar_total_reserved :: u64
  ar_created :: nat

type_synonym arena_ptr = "nat \<times> u64"

definition wirble_max_size :: "u64 \<Rightarrow> u64 \<Rightarrow> u64" where
  "wirble_max_size lhs rhs = (if lhs > rhs then lhs else rhs)"

definition wirble_align_up :: "u64 \<Rightarrow> u64 \<Rightarrow> u64" where
  "wirble_align_up v alignment =
     (if alignment = 0 then v
      else let m = alignment - 1 in (v + m) AND NOT m)"

text \<open>The block structure is three words and the data.\<close>

definition wirble_arena_block_create ::
  "(u64 \<Rightarrow> bool) \<Rightarrow> nat \<Rightarrow> u64 \<Rightarrow> WirbleArenaBlock option" where
  "wirble_arena_block_create ok n capacity =
     (if ok (24 + capacity) then Some \<lparr>ab_id = n, ab_capacity = capacity, ab_used = 0\<rparr> else None)"

definition wirble_arena_init :: "u64 \<Rightarrow> WirbleArena" where
  "wirble_arena_init block_size =
     \<lparr>ar_blocks = [], ar_block_size = (if block_size = 0 then 4096 else block_size),
      ar_total_reserved = 0, ar_created = 0\<rparr>"

definition wirble_arena_reset :: "WirbleArena \<Rightarrow> WirbleArena" where
  "wirble_arena_reset ar = ar\<lparr>ar_blocks := [], ar_total_reserved := 0\<rparr>"

definition wirble_arena_destroy :: "WirbleArena \<Rightarrow> WirbleArena" where
  "wirble_arena_destroy ar = wirble_arena_reset ar"

text \<open>The two ways an allocation is served: from the head block, or from a new one.\<close>

definition arena_from_head ::
  "WirbleArena \<Rightarrow> u64 \<Rightarrow> u64 \<Rightarrow> (arena_ptr \<times> WirbleArena) option" where
  "arena_from_head ar sz alignment =
     (case ar_blocks ar of
        [] \<Rightarrow> None
      | b # bs \<Rightarrow>
          let start = wirble_align_up (ab_used b) alignment in
          if start + sz \<le> ab_capacity b
          then Some ((ab_id b, start), ar\<lparr>ar_blocks := b\<lparr>ab_used := start + sz\<rparr> # bs\<rparr>)
          else None)"

definition arena_from_new ::
  "(u64 \<Rightarrow> bool) \<Rightarrow> WirbleArena \<Rightarrow> u64 \<Rightarrow> u64 \<Rightarrow> arena_ptr option \<times> WirbleArena" where
  "arena_from_new ok ar sz alignment =
     (let capacity = wirble_max_size (ar_block_size ar) (sz + alignment) in
      case wirble_arena_block_create ok (ar_created ar) capacity of
        None \<Rightarrow> (None, ar)
      | Some b \<Rightarrow>
          let start = wirble_align_up 0 alignment in
          (Some (ab_id b, start),
           ar\<lparr>ar_blocks := b\<lparr>ab_used := start + sz\<rparr> # ar_blocks ar,
              ar_total_reserved := ar_total_reserved ar + capacity,
              ar_created := Suc (ar_created ar)\<rparr>))"

definition wirble_arena_alloc_from ::
  "(u64 \<Rightarrow> bool) \<Rightarrow> WirbleArena \<Rightarrow> u64 \<Rightarrow> u64 \<Rightarrow> arena_ptr option \<times> WirbleArena" where
  "wirble_arena_alloc_from ok ar sz alignment =
     (if sz = 0 then (None, ar)
      else let alignment = (if alignment = 0 then 8 else alignment) in
           case arena_from_head ar sz alignment of
             Some (p, ar') \<Rightarrow> (Some p, ar')
           | None \<Rightarrow> arena_from_new ok ar sz alignment)"

text \<open>
  \<open>wirble_arena_calloc_from\<close>: the \<^verbatim>\<open>memset\<close> of \<open>total_size\<close> bytes at the returned pointer
  is out of bounds when the block is smaller.
\<close>

definition arena_block :: "WirbleArena \<Rightarrow> nat \<Rightarrow> WirbleArenaBlock option" where
  "arena_block ar i = find (\<lambda>b. ab_id b = i) (ar_blocks ar)"

definition region_inside :: "WirbleArena \<Rightarrow> arena_ptr \<Rightarrow> u64 \<Rightarrow> bool" where
  "region_inside ar p sz =
     (case arena_block ar (fst p) of
        None \<Rightarrow> False
      | Some b \<Rightarrow> unat (snd p) + unat sz \<le> unat (ab_capacity b))"

definition wirble_arena_calloc_from ::
  "(u64 \<Rightarrow> bool) \<Rightarrow> WirbleArena \<Rightarrow> u64 \<Rightarrow> u64 \<Rightarrow> u64 \<Rightarrow> (arena_ptr option \<times> WirbleArena) cres"
  where
  "wirble_arena_calloc_from ok ar cnt sz alignment =
     (if cnt = 0 \<or> sz = 0 then Inr (None, ar)
      else let total_size = cnt * sz in
           if total_size div sz \<noteq> cnt then Inr (None, ar)
           else case wirble_arena_alloc_from ok ar total_size alignment of
                  (None, ar') \<Rightarrow> Inr (None, ar')
                | (Some p, ar') \<Rightarrow>
                    if region_inside ar' p total_size then Inr (Some p, ar')
                    else Inl OutOfBounds)"

definition wirble_arena_strdup ::
  "(u64 \<Rightarrow> bool) \<Rightarrow> WirbleArena \<Rightarrow> bytes option \<Rightarrow> (arena_ptr option \<times> WirbleArena) cres" where
  "wirble_arena_strdup ok ar v =
     (case v of
        None \<Rightarrow> Inr (None, ar)
      | Some s \<Rightarrow>
          let n = of_nat (length s) + 1 in
          case wirble_arena_alloc_from ok ar n 1 of
            (None, ar') \<Rightarrow> Inr (None, ar')
          | (Some p, ar') \<Rightarrow>
              if region_inside ar' p n then Inr (Some p, ar') else Inl OutOfBounds)"

definition wirble_arena_total_reserved :: "WirbleArena \<Rightarrow> u64" where
  "wirble_arena_total_reserved ar = ar_total_reserved ar"

definition wirble_arena_total_used :: "WirbleArena \<Rightarrow> u64" where
  "wirble_arena_total_used ar = foldl (\<lambda>t b. t + ab_used b) 0 (ar_blocks ar)"

section \<open>Alignment\<close>

lemma align_up_eq:
  assumes "k < 64" and "unat v + (2 ^ k - 1) < 2 ^ 64"
  shows "unat (wirble_align_up v (2 ^ k)) = (unat v + (2 ^ k - 1)) div 2 ^ k * 2 ^ k"
proof -
  let ?m = "mask k :: u64"
  have m: "(2 :: u64) ^ k - 1 = ?m" by (simp add: mask_eq_exp_minus_1)
  have two: "unat ((2 :: u64) ^ k) = 2 ^ k"
    using assms(1) unat_two_power_word [of k, where 'a = 64] by simp
  then have "unat ((2 :: u64) ^ k - 1) = 2 ^ k - 1"
    by (subst unat_sub) (simp_all add: word_le_nat_alt)
  then have "unat ?m = 2 ^ k - 1" by (simp only: m)
  then have s: "unat (v + ?m) = unat v + (2 ^ k - 1)"
    using assms(2) by (subst unat_add_no_wrap) simp_all
  have "(2 :: u64) ^ k \<noteq> 0"
    using two by (metis power_not_zero unat_0 zero_neq_numeral)
  then have "wirble_align_up v (2 ^ k) = (v + ?m) AND NOT ?m"
    by (simp add: wirble_align_up_def m Let_def)
  also have "\<dots> = push_bit k (drop_bit k (v + ?m))"
    by (rule bit_word_eqI) (auto simp: bit_simps)
  also have "unat \<dots> = take_bit 64 (push_bit k (drop_bit k (unat (v + ?m))))"
    by (simp add: unsigned_push_bit_eq unat_drop_bit_eq)
  also have "\<dots> = (unat v + (2 ^ k - 1)) div 2 ^ k * 2 ^ k"
  proof -
    have "(unat v + (2 ^ k - 1)) div 2 ^ k * 2 ^ k < 2 ^ 64"
      using assms(2) div_times_less_eq_dividend le_less_trans by blast
    then show ?thesis
      by (simp only: s push_bit_eq_mult drop_bit_eq_div take_bit_nat_eq_self)
  qed
  finally show ?thesis .
qed

lemma align_up_bounds:
  assumes "k < 64" and "unat v + 2 ^ k \<le> 2 ^ 64"
  shows "2 ^ k dvd unat (wirble_align_up v (2 ^ k))"
    and "unat v \<le> unat (wirble_align_up v (2 ^ k))"
    and "unat (wirble_align_up v (2 ^ k)) < unat v + 2 ^ k"
proof -
  have pos: "(0::nat) < 2 ^ k" by simp
  then have eq: "unat (wirble_align_up v (2 ^ k)) = (unat v + (2 ^ k - 1)) div 2 ^ k * 2 ^ k"
    using assms by (intro align_up_eq) linarith+
  then show "2 ^ k dvd unat (wirble_align_up v (2 ^ k))" by simp
  have "(unat v + (2 ^ k - 1)) mod 2 ^ k < 2 ^ k" by simp
  then show "unat v \<le> unat (wirble_align_up v (2 ^ k))"
    "unat (wirble_align_up v (2 ^ k)) < unat v + 2 ^ k"
    using div_mult_mod_eq [of "unat v + (2 ^ k - 1)" "2 ^ k"] eq pos by linarith+
qed

section \<open>Disjointness of allocations\<close>

text \<open>
  Well-formed arenas: block numbers are distinct and below the next one, no block is used
  beyond its capacity, and capacities are at most half of the address space.
\<close>

definition wf_arena :: "WirbleArena \<Rightarrow> bool" where
  "wf_arena ar \<longleftrightarrow> distinct (map ab_id (ar_blocks ar)) \<and> unat (ar_block_size ar) \<le> 2 ^ 63
     \<and> (\<forall>b\<in>set (ar_blocks ar). ab_id b < ar_created ar \<and> ab_used b \<le> ab_capacity b
           \<and> unat (ab_capacity b) \<le> 2 ^ 63)"

text \<open>A region is a pointer and its size.\<close>

type_synonym region = "arena_ptr \<times> u64"

definition covered :: "WirbleArena \<Rightarrow> region \<Rightarrow> bool" where
  "covered ar r \<longleftrightarrow> (\<exists>b\<in>set (ar_blocks ar). ab_id b = fst (fst r)
     \<and> unat (snd (fst r)) + unat (snd r) \<le> unat (ab_used b))"

definition apart :: "region \<Rightarrow> region \<Rightarrow> bool" where
  "apart r q \<longleftrightarrow> fst (fst r) \<noteq> fst (fst q)
     \<or> unat (snd (fst r)) + unat (snd r) \<le> unat (snd (fst q))
     \<or> unat (snd (fst q)) + unat (snd q) \<le> unat (snd (fst r))"

text \<open>Requests whose size and alignment stay below a quarter of the address space.\<close>

definition fair_request :: "u64 \<times> u64 \<Rightarrow> bool" where
  "fair_request rq \<longleftrightarrow> unat (fst rq) \<le> 2 ^ 62 \<and> (\<exists>k\<le>62. snd rq = 2 ^ k)"

lemma fair_requestI: "unat sz \<le> 2 ^ 62 \<Longrightarrow> k \<le> 62 \<Longrightarrow> fair_request (sz, 2 ^ k)"
  by (auto simp: fair_request_def)

lemma fair_requestE:
  assumes "fair_request (sz, al)"
  obtains k where "k \<le> 62" "al = 2 ^ k" "unat al = 2 ^ k" "al \<noteq> 0" "unat sz \<le> 2 ^ 62"
proof -
  from assms obtain k where k: "k \<le> 62" "al = 2 ^ k" "unat sz \<le> 2 ^ 62"
    by (auto simp: fair_request_def)
  then have "unat al = 2 ^ k" using unat_two_power_word [of k, where 'a = 64] by simp
  moreover from this have "al \<noteq> 0" by (metis power_not_zero unat_0 zero_neq_numeral)
  ultimately show thesis using that k by blast
qed

text \<open>The effect of a served request, in the shape both ways of serving it share.\<close>

definition serves :: "WirbleArena \<Rightarrow> region \<Rightarrow> nat \<Rightarrow> WirbleArena \<Rightarrow> bool" where
  "serves ar r al ar' \<longleftrightarrow> wf_arena ar' \<and> covered ar' r \<and> al dvd unat (snd (fst r))
     \<and> (\<forall>q. covered ar q \<longrightarrow> covered ar' q \<and> apart q r)"

lemma arena_from_head_serves:
  assumes wf: "wf_arena ar" and fair: "fair_request (sz, al)"
    and res: "arena_from_head ar sz al = Some (p, ar')"
  shows "serves ar (p, sz) (unat al) ar'"
proof -
  obtain k where k: "k \<le> 62" "al = 2 ^ k" "unat al = 2 ^ k" "unat sz \<le> 2 ^ 62"
    using fair by (rule fair_requestE)
  obtain b bs where bl: "ar_blocks ar = b # bs"
    using res by (cases "ar_blocks ar") (auto simp: arena_from_head_def)
  define start where "start = wirble_align_up (ab_used b) al"
  from res bl have fits: "start + sz \<le> ab_capacity b" and p: "p = (ab_id b, start)"
    and ar': "ar' = ar\<lparr>ar_blocks := b\<lparr>ab_used := start + sz\<rparr> # bs\<rparr>"
    by (auto simp: arena_from_head_def start_def Let_def split: if_splits)
  have cap: "unat (ab_used b) \<le> unat (ab_capacity b)" "unat (ab_capacity b) \<le> 2 ^ 63"
    using wf bl by (auto simp: wf_arena_def word_le_nat_alt)
  have two: "(2::nat) ^ k \<le> 2 ^ 62" using k(1) by (intro power_increasing) auto
  then have al: "2 ^ k dvd unat start" "unat (ab_used b) \<le> unat start"
      "unat start < unat (ab_used b) + 2 ^ k"
    using align_up_bounds [of k "ab_used b"] k cap by (auto simp: start_def)
  then have sum: "unat (start + sz) = unat start + unat sz"
    using two cap k(4) by (intro unat_add_no_wrap) simp
  then show ?thesis
    using wf bl fits al k(3) unfolding serves_def ar' p
    by (auto simp: wf_arena_def covered_def apart_def rev_image_eqI)
qed

lemma arena_from_new_serves:
  assumes wf: "wf_arena ar" and fair: "fair_request (sz, al)"
    and res: "arena_from_new ok ar sz al = (Some p, ar')"
  shows "serves ar (p, sz) (unat al) ar'"
proof -
  obtain k where k: "k \<le> 62" "al = 2 ^ k" "unat al = 2 ^ k" "unat sz \<le> 2 ^ 62"
    using fair by (rule fair_requestE)
  define capacity where "capacity = wirble_max_size (ar_block_size ar) (sz + al)"
  have two: "(2::nat) ^ k \<le> 2 ^ 62" using k(1) by (intro power_increasing) auto
  have "unat (0::u64) + 2 ^ k \<le> 2 ^ 64" using two by simp
  then have start: "wirble_align_up 0 al = 0"
    using align_up_bounds [of k 0] k by (auto simp: unat_eq_0 [symmetric] dest: nat_dvd_not_less)
  have "unat (sz + al) = unat sz + unat al"
    using two k by (intro unat_add_no_wrap) simp
  then have cap: "sz \<le> capacity" "unat capacity \<le> 2 ^ 63"
    using wf two k by (auto simp: capacity_def wirble_max_size_def wf_arena_def
        word_le_nat_alt word_less_nat_alt)
  from res have p: "p = (ar_created ar, 0)" and ar': "ar' =
      ar\<lparr>ar_blocks := \<lparr>ab_id = ar_created ar, ab_capacity = capacity, ab_used = sz\<rparr> # ar_blocks ar,
         ar_total_reserved := ar_total_reserved ar + capacity, ar_created := Suc (ar_created ar)\<rparr>"
    by (auto simp: arena_from_new_def wirble_arena_block_create_def Let_def start capacity_def
        split: if_splits)
  show ?thesis using wf cap unfolding serves_def ar' p
    by (auto simp: wf_arena_def covered_def apart_def less_SucI)
qed

lemma wirble_arena_alloc_serves:
  assumes "wf_arena ar" and "fair_request (sz, al)"
    and "wirble_arena_alloc_from ok ar sz al = (res, ar')"
  shows "case res of None \<Rightarrow> ar' = ar | Some p \<Rightarrow> serves ar (p, sz) (unat al) ar'"
proof -
  have "al \<noteq> 0" using assms(2) by (rule fair_requestE)
  then have eq: "wirble_arena_alloc_from ok ar sz al =
      (if sz = 0 then (None, ar)
       else case arena_from_head ar sz al of Some (p, ar') \<Rightarrow> (Some p, ar')
            | None \<Rightarrow> arena_from_new ok ar sz al)"
    by (simp add: wirble_arena_alloc_from_def)
  have none: "arena_from_new ok ar sz al = (None, ar') \<Longrightarrow> ar' = ar"
    by (auto simp: arena_from_new_def Let_def split: option.splits)
  show ?thesis
    using assms eq none arena_from_head_serves [OF assms(1,2)] arena_from_new_serves [OF assms(1,2)]
    by (auto split: if_splits option.splits)
qed

text \<open>A program's sequence of allocations, and the regions it was given.\<close>

fun arena_run ::
  "(u64 \<Rightarrow> bool) \<Rightarrow> WirbleArena \<Rightarrow> (u64 \<times> u64) list \<Rightarrow> region list \<times> WirbleArena" where
  "arena_run ok ar [] = ([], ar)"
| "arena_run ok ar ((sz, al) # rqs) =
     (case wirble_arena_alloc_from ok ar sz al of
        (None, ar') \<Rightarrow> arena_run ok ar' rqs
      | (Some p, ar') \<Rightarrow>
          let (rs, ar'') = arena_run ok ar' rqs in ((p, sz) # rs, ar''))"

lemma arena_run_invariant:
  assumes "wf_arena ar" and "list_all fair_request rqs" and "arena_run ok ar rqs = (rs, ar')"
  shows "wf_arena ar' \<and> (\<forall>q. covered ar q \<longrightarrow> covered ar' q \<and> (\<forall>r\<in>set rs. apart q r))
     \<and> (\<forall>r\<in>set rs. covered ar' r) \<and> sorted_wrt apart rs"
  using assms
proof (induction rqs arbitrary: ar rs)
  case Nil
  then show ?case by simp
next
  case (Cons rq rqs)
  obtain sz al where rq: "rq = (sz, al)" by (cases rq)
  obtain res ar1 where a: "wirble_arena_alloc_from ok ar sz al = (res, ar1)" by fastforce
  obtain rs1 ar2 where r: "arena_run ok ar1 rqs = (rs1, ar2)" by fastforce
  have "fair_request (sz, al)" using Cons.prems(2) rq by simp
  note s = wirble_arena_alloc_serves [OF Cons.prems(1) this a]
  show ?case
  proof (cases res)
    case None
    then show ?thesis using s Cons.IH [of ar1 rs1] Cons.prems rq a r by simp
  next
    case (Some p)
    with s have "serves ar (p, sz) (unat al) ar1" by simp
    then show ?thesis using Some Cons.IH [of ar1 rs1] Cons.prems rq a r
      by (cases p) (auto simp: serves_def)
  qed
qed

text \<open>
  C25. Arena allocations do not overlap. In an arena with a block size of at most \<open>2 ^ 62\<close>, for every
  sequence of requests of at most \<open>2 ^ 62\<close> bytes whose alignments are powers of two of at most \<open>2 ^ 62\<close>
  (\<open>fair_request\<close>), whichever of the underlying \<^verbatim>\<open>malloc\<close> calls fail, the regions handed out are
  pairwise disjoint and inside their blocks. Beyond these sizes \<open>arena_huge_request_overflows\<close> applies.
\<close>

theorem arena_regions_disjoint:
  assumes "unat bs \<le> 2 ^ 62" and "list_all fair_request rqs"
    and "arena_run ok (wirble_arena_init bs) rqs = (rs, ar)"
  shows "sorted_wrt apart rs \<and> (\<forall>r\<in>set rs. region_inside ar (fst r) (snd r))"
proof -
  have "wf_arena (wirble_arena_init bs)"
    using assms(1) by (simp add: wf_arena_def wirble_arena_init_def)
  from arena_run_invariant [OF this assms(2,3)]
  have wf: "wf_arena ar" and "sorted_wrt apart rs" and cov: "\<forall>r\<in>set rs. covered ar r" by auto
  moreover have "region_inside ar (fst r) (snd r)" if "covered ar r" for r
  proof -
    from that obtain b where b: "b \<in> set (ar_blocks ar)" "ab_id b = fst (fst r)"
      "unat (snd (fst r)) + unat (snd r) \<le> unat (ab_used b)" by (auto simp: covered_def)
    then have "find (\<lambda>b. ab_id b = fst (fst r)) (ar_blocks ar) = Some b"
      using wf find_distinct_key [of ab_id "ar_blocks ar" b] by (simp add: wf_arena_def)
    then show ?thesis using b wf
      by (fastforce simp: region_inside_def arena_block_def wf_arena_def word_le_nat_alt)
  qed
  ultimately show ?thesis by blast
qed

theorem arena_regions_disjoint_witness:
  "sorted_wrt apart [((0, 0), 10), ((0, 16), 4), ((1, 0), 60)]
   \<and> region_inside (snd (arena_run (\<lambda>_. True) (wirble_arena_init 32) [(10, 1), (4, 8), (60, 4)])) (0, 16) 4
   \<and> region_inside (snd (arena_run (\<lambda>_. True) (wirble_arena_init 32) [(10, 1), (4, 8), (60, 4)])) (1, 0) 60"
proof -
  have r: "arena_run (\<lambda>_. True) (wirble_arena_init 32) [(10, 1), (4, 8), (60, 4)] =
      ([((0, 0), 10), ((0, 16), 4), ((1, 0), 60)],
       snd (arena_run (\<lambda>_. True) (wirble_arena_init 32) [(10, 1), (4, 8), (60, 4)]))"
    by (simp add: wirble_arena_alloc_from_def arena_from_head_def arena_from_new_def
        wirble_arena_init_def wirble_arena_block_create_def wirble_align_up_def
        wirble_max_size_def Let_def)
  have "list_all fair_request [(10, 1), (4, 8), (60, 4)]"
    using fair_requestI [of 10 0] fair_requestI [of 4 3] fair_requestI [of 60 2] by simp
  then show ?thesis using arena_regions_disjoint [OF _ _ r] by simp
qed

text \<open>
  The size computation of a new block wraps. A request within the alignment of the end
  of the size type makes \<open>size + alignment\<close> wrap around, so a fresh arena hands out a
  pointer into a block of the default size, and zeroing such an allocation writes outside
  the block.
\<close>

theorem arena_huge_request_overflows:
  assumes "2 ^ 64 \<le> unat sz + 8" and "\<forall>n. ok n"
  shows "\<exists>p ar. wirble_arena_alloc_from ok (wirble_arena_init 0) sz 8 = (Some p, ar)
           \<and> \<not> region_inside ar p sz
           \<and> wirble_arena_calloc_from ok (wirble_arena_init 0) 1 sz 8 = Inl OutOfBounds"
proof -
  let ?ar = "\<lparr>ar_blocks = [\<lparr>ab_id = 0, ab_capacity = 4096, ab_used = sz\<rparr>],
     ar_block_size = 4096, ar_total_reserved = 4096, ar_created = 1\<rparr>"
  have "unat (sz + 8) = (unat sz + 8) mod 2 ^ 64" by (simp add: unat_word_ariths)
  moreover have "unat sz < 2 ^ 64" by (rule order_less_le_trans [OF unsigned_less]) simp
  ultimately have "unat (sz + 8) < 8"
    using assms(1) by (auto simp: mod_if)
  then have "wirble_max_size 4096 (sz + 8) = 4096" and sz: "sz \<noteq> 0"
    using assms(1) by (auto simp: wirble_max_size_def word_less_nat_alt)
  then have al: "wirble_arena_alloc_from ok (wirble_arena_init 0) sz 8 = (Some (0, 0), ?ar)"
    using assms(2) by (simp add: wirble_arena_alloc_from_def arena_from_head_def
        arena_from_new_def wirble_arena_init_def wirble_arena_block_create_def
        wirble_align_up_def Let_def)
  moreover have out: "\<not> region_inside ?ar (0, 0) sz"
    using assms(1) by (simp add: region_inside_def arena_block_def)
  moreover have "sz div sz = 1" using sz by (simp add: word_arith_nat_div unat_gt_0)
  ultimately show ?thesis using sz
    by (simp add: wirble_arena_calloc_from_def)
qed

theorem arena_huge_request_overflows_witness:
  "\<exists>p ar. wirble_arena_alloc_from (\<lambda>_. True) (wirble_arena_init 0) (- 1) 8 = (Some p, ar)
     \<and> \<not> region_inside ar p (- 1)
     \<and> wirble_arena_calloc_from (\<lambda>_. True) (wirble_arena_init 0) 1 (- 1) 8 = Inl OutOfBounds"
  by (rule arena_huge_request_overflows) (simp_all add: unsigned_minus_1_eq_mask mask_eq_exp_minus_1)

end
