(* ===== verification/Strpool.thy ===== *)
theory Strpool
  imports Wirble_Prelude "HOL-Library.Multiset"
begin

unbundle bit_operations_syntax

text \<open>
  The string interner of \<^verbatim>\<open>common/strpool.c\<close>: a chained hash table that doubles when
  it is full. An entry carries the number standing for its address; the allocator is a
  parameter.
\<close>

section \<open>The table\<close>

record WirbleStrpoolEntry =
  se_ptr :: nat
  se_text :: bytes

record WirbleStrpool =
  sp_buckets :: "WirbleStrpoolEntry list list"
  sp_bucket_count :: u64
  sp_size :: u64
  sp_fresh :: nat

definition wirble_strpool_hash_bytes :: "bytes \<Rightarrow> u64" where
  "wirble_strpool_hash_bytes v =
     foldl (\<lambda>h b. (h XOR ucast b) * 1099511628211) 1469598103934665603 v"

definition strpool_slot :: "u64 \<Rightarrow> bytes \<Rightarrow> nat" where
  "strpool_slot n v = unat (wirble_strpool_hash_bytes v mod n)"

definition strpool_push ::
  "u64 \<Rightarrow> WirbleStrpoolEntry list list \<Rightarrow> WirbleStrpoolEntry \<Rightarrow> WirbleStrpoolEntry list list" where
  "strpool_push n bs e =
     (let slot = strpool_slot n (se_text e) in bs[slot := e # bs ! slot])"

definition wirble_strpool_grow ::
  "(u64 \<Rightarrow> bool) \<Rightarrow> WirbleStrpool \<Rightarrow> u64 \<Rightarrow> bool \<times> WirbleStrpool" where
  "wirble_strpool_grow ok pool n =
     (if \<not> ok (n * 8) then (False, pool)
      else (True, pool\<lparr>sp_buckets :=
                    foldl (foldl (strpool_push n)) (replicate (unat n) []) (sp_buckets pool),
                  sp_bucket_count := n\<rparr>))"

definition wirble_strpool_init :: WirbleStrpool where
  "wirble_strpool_init = \<lparr>sp_buckets = [], sp_bucket_count = 0, sp_size = 0, sp_fresh = 0\<rparr>"

definition wirble_strpool_destroy :: "WirbleStrpool \<Rightarrow> WirbleStrpool" where
  "wirble_strpool_destroy pool = pool\<lparr>sp_buckets := [], sp_bucket_count := 0, sp_size := 0\<rparr>"

text \<open>The two growth checks before the lookup.\<close>

definition strpool_make_room ::
  "(u64 \<Rightarrow> bool) \<Rightarrow> WirbleStrpool \<Rightarrow> bool \<times> WirbleStrpool" where
  "strpool_make_room ok pool =
     (let (r, pool) = (if sp_bucket_count pool = 0 then wirble_strpool_grow ok pool 128
                       else (True, pool))
      in if \<not> r then (False, pool)
         else if sp_size pool \<ge> sp_bucket_count pool
              then wirble_strpool_grow ok pool (sp_bucket_count pool * 2)
              else (True, pool))"

text \<open>An entry structure has two words before its text.\<close>

definition wirble_strpool_intern_with_length ::
  "(u64 \<Rightarrow> bool) \<Rightarrow> WirbleStrpool \<Rightarrow> bytes option \<Rightarrow> nat option \<times> WirbleStrpool" where
  "wirble_strpool_intern_with_length ok pool v =
     (case v of
        None \<Rightarrow> (None, pool)
      | Some s \<Rightarrow>
          (case strpool_make_room ok pool of
             (False, pool) \<Rightarrow> (None, pool)
           | (True, pool) \<Rightarrow>
               let slot = strpool_slot (sp_bucket_count pool) s in
               (case find (\<lambda>e. se_text e = s) (sp_buckets pool ! slot) of
                  Some e \<Rightarrow> (Some (se_ptr e), pool)
                | None \<Rightarrow>
                    if \<not> ok (16 + of_nat (length s) + 1) then (None, pool)
                    else let e = \<lparr>se_ptr = sp_fresh pool, se_text = s\<rparr> in
                         (Some (se_ptr e),
                          pool\<lparr>sp_buckets := (sp_buckets pool)[slot := e # sp_buckets pool ! slot],
                               sp_size := sp_size pool + 1, sp_fresh := Suc (sp_fresh pool)\<rparr>))))"

text \<open>A C string is given by its bytes before the terminator.\<close>

definition wirble_strpool_intern_from_pool ::
  "(u64 \<Rightarrow> bool) \<Rightarrow> WirbleStrpool \<Rightarrow> bytes option \<Rightarrow> nat option \<times> WirbleStrpool" where
  "wirble_strpool_intern_from_pool ok pool v =
     (case v of None \<Rightarrow> (None, pool) | Some s \<Rightarrow> wirble_strpool_intern_with_length ok pool (Some s))"

definition wirble_strpool_size :: "WirbleStrpool \<Rightarrow> u64" where
  "wirble_strpool_size pool = sp_size pool"

section \<open>The interface of an interner\<close>

text \<open>
  An interner holds an injective map from strings to addresses; interning looks a string
  up and adds it at a new address when it is absent. The law is promised while the number
  of strings is below a bound.
\<close>

locale interner =
  fixes pool_inv :: "'p \<Rightarrow> bool"
    and names :: "'p \<Rightarrow> bytes \<rightharpoonup> nat"
    and put_name :: "'p \<Rightarrow> bytes \<Rightarrow> nat \<times> 'p"
    and bound :: nat
  assumes intern_law:
    "pool_inv p \<Longrightarrow> card (dom (names p)) < bound \<Longrightarrow>
       pool_inv (snd (put_name p s))
       \<and> names (snd (put_name p s)) = (names p)(s \<mapsto> fst (put_name p s))
       \<and> (case names p s of Some x \<Rightarrow> fst (put_name p s) = x
          | None \<Rightarrow> fst (put_name p s) \<notin> ran (names p))"
    and names_fin: "pool_inv p \<Longrightarrow> finite (dom (names p)) \<and> inj_on (names p) (dom (names p))"
begin

primrec put_all :: "'p \<Rightarrow> bytes list \<Rightarrow> nat list \<times> 'p" where
  "put_all p [] = ([], p)"
| "put_all p (s # ss) =
     (let (x, p1) = put_name p s; (xs, p2) = put_all p1 ss in (x # xs, p2))"

lemma put_all_names:
  "pool_inv p \<Longrightarrow> card (dom (names p)) + length ss \<le> bound \<Longrightarrow> put_all p ss = (xs, p') \<Longrightarrow>
     pool_inv p' \<and> names p \<subseteq>\<^sub>m names p' \<and> map (names p') ss = map Some xs"
proof (induction ss arbitrary: p xs)
  case Nil
  then show ?case by simp
next
  case (Cons s ss)
  obtain x p1 where p1: "put_name p s = (x, p1)" by fastforce
  obtain ys p2 where p2: "put_all p1 ss = (ys, p2)" by fastforce
  with Cons.prems(3) p1 have res: "xs = x # ys" "p' = p2" by simp_all
  have law: "pool_inv p1" "names p1 = (names p)(s \<mapsto> x)"
    "case names p s of Some y \<Rightarrow> x = y | None \<Rightarrow> x \<notin> ran (names p)"
    using intern_law [of p s] Cons.prems p1 by (simp_all split: option.splits)
  have "card (dom (names p1)) \<le> Suc (card (dom (names p)))"
    using names_fin [OF Cons.prems(1)] law(2) by (simp add: card_insert_if)
  then have "pool_inv p' \<and> names p1 \<subseteq>\<^sub>m names p' \<and> map (names p') ss = map Some ys"
    using Cons.IH [of p1 ys] Cons.prems law(1) p2 res by simp
  moreover have "names p \<subseteq>\<^sub>m names p1"
    using law(2,3) by (auto simp: map_le_def split: option.splits)
  moreover have "names p' s = Some x" if "names p1 \<subseteq>\<^sub>m names p'"
    using that law(2) by (auto simp: map_le_def dest: bspec [of _ _ s])
  ultimately show ?case using res map_le_trans by auto
qed

text \<open>Addresses identify strings.\<close>

lemma put_all_identifies:
  assumes "pool_inv p" and "card (dom (names p)) + length ss \<le> bound"
    and "put_all p ss = (xs, p')" and "i < length ss" "j < length ss"
  shows "xs ! i = xs ! j \<longleftrightarrow> ss ! i = ss ! j"
proof -
  have inv: "pool_inv p'" and m: "map (names p') ss = map Some xs"
    using put_all_names [OF assms(1-3)] by auto
  then have "length xs = length ss" by (metis length_map)
  then have ij: "names p' (ss ! i) = Some (xs ! i)" "names p' (ss ! j) = Some (xs ! j)"
    using m assms(4,5) by (metis nth_map)+
  then show ?thesis using names_fin [OF inv] by (metis domI inj_onD option.inject)
qed

end

section \<open>The table is an interner\<close>

definition entries :: "WirbleStrpool \<Rightarrow> WirbleStrpoolEntry list" where
  "entries pool = concat (sp_buckets pool)"

definition pool_names :: "WirbleStrpool \<Rightarrow> bytes \<rightharpoonup> nat" where
  "pool_names pool = map_of (map (\<lambda>e. (se_text e, se_ptr e)) (entries pool))"

definition slotted :: "u64 \<Rightarrow> WirbleStrpoolEntry list list \<Rightarrow> bool" where
  "slotted n bs \<longleftrightarrow> length bs = unat n
     \<and> (\<forall>i<length bs. \<forall>e\<in>set (bs ! i). strpool_slot n (se_text e) = i)"

definition wf_pool :: "WirbleStrpool \<Rightarrow> bool" where
  "wf_pool pool \<longleftrightarrow> slotted (sp_bucket_count pool) (sp_buckets pool)
     \<and> distinct (map se_text (entries pool)) \<and> distinct (map se_ptr (entries pool))
     \<and> (\<forall>e\<in>set (entries pool). se_ptr e < sp_fresh pool)
     \<and> unat (sp_size pool) = length (entries pool)"

lemma pool_names_None: "pool_names pool s = None \<longleftrightarrow> s \<notin> se_text ` set (entries pool)"
  unfolding pool_names_def by (simp only: map_of_eq_None_iff set_map image_image fst_conv)

lemma mset_push:
  "i < length bs \<Longrightarrow> mset (concat (bs[i := e # bs ! i])) = add_mset e (mset (concat bs))"
  by (induction bs arbitrary: i) (auto split: nat.splits)

lemma slot_less: "0 < unat n \<Longrightarrow> strpool_slot n v < unat n"
  by (simp add: strpool_slot_def unat_mod_distrib)

lemma slotted_push:
  assumes "slotted n bs" and "0 < unat n"
  shows "slotted n (strpool_push n bs e)"
    and "mset (concat (strpool_push n bs e)) = add_mset e (mset (concat bs))"
proof -
  have slot: "strpool_slot n (se_text e) < length bs"
    using assms slot_less by (simp add: slotted_def)
  then show "slotted n (strpool_push n bs e)"
    using assms(1) by (auto simp: slotted_def strpool_push_def Let_def nth_list_update)
  show "mset (concat (strpool_push n bs e)) = add_mset e (mset (concat bs))"
    unfolding strpool_push_def Let_def using slot by (rule mset_push)
qed

lemma slotted_push_all:
  assumes "slotted n bs" and "0 < unat n"
  shows "slotted n (foldl (strpool_push n) bs es)
    \<and> mset (concat (foldl (strpool_push n) bs es)) = mset es + mset (concat bs)"
  using assms(1) by (induction es arbitrary: bs) (simp_all add: slotted_push assms(2))

lemma slotted_rehash:
  assumes "slotted n bs" and "0 < unat n"
  shows "slotted n (foldl (foldl (strpool_push n)) bs old)
    \<and> mset (concat (foldl (foldl (strpool_push n)) bs old)) = mset (concat old) + mset (concat bs)"
  using assms(1) by (induction old arbitrary: bs) (simp_all add: slotted_push_all assms(2) ac_simps)

lemma pool_names_mset:
  assumes "mset (entries p) = mset (entries q)" and "distinct (map se_text (entries q))"
  shows "pool_names p = pool_names q"
proof -
  have "mset (map se_text (entries p)) = mset (map se_text (entries q))"
    using assms(1) by simp
  then have "distinct (map se_text (entries p))"
    using assms(2) mset_eq_imp_distinct_iff by blast
  moreover have "set (entries p) = set (entries q)"
    using assms(1) by (rule mset_eq_setD)
  ultimately show ?thesis using assms(2) unfolding pool_names_def
    by (subst map_of_inject_set) (auto simp: comp_def)
qed

lemma wirble_strpool_grow_ok:
  assumes wf: "wf_pool p" and "0 < unat n"
  shows "wirble_strpool_grow (\<lambda>_. True) p n = (True, snd (wirble_strpool_grow (\<lambda>_. True) p n))"
    and "wf_pool (snd (wirble_strpool_grow (\<lambda>_. True) p n))"
    and "pool_names (snd (wirble_strpool_grow (\<lambda>_. True) p n)) = pool_names p"
    and "sp_bucket_count (snd (wirble_strpool_grow (\<lambda>_. True) p n)) = n"
    and "sp_size (snd (wirble_strpool_grow (\<lambda>_. True) p n)) = sp_size p"
proof -
  let ?q = "snd (wirble_strpool_grow (\<lambda>_. True) p n)"
  show "wirble_strpool_grow (\<lambda>_. True) p n = (True, ?q)"
    and "sp_bucket_count ?q = n" and "sp_size ?q = sp_size p"
    by (simp_all add: wirble_strpool_grow_def)
  have "slotted n (replicate (unat n) [])" by (simp add: slotted_def)
  from slotted_rehash [OF this assms(2), of "sp_buckets p"]
  have q: "slotted n (sp_buckets ?q)" "mset (entries ?q) = mset (entries p)"
    by (simp_all add: wirble_strpool_grow_def entries_def)
  then have "mset (map se_text (entries ?q)) = mset (map se_text (entries p))"
    "mset (map se_ptr (entries ?q)) = mset (map se_ptr (entries p))" by simp_all
  then have "distinct (map se_text (entries ?q)) \<and> distinct (map se_ptr (entries ?q))"
    using wf unfolding wf_pool_def by (metis mset_eq_imp_distinct_iff)
  moreover have "set (entries ?q) = set (entries p)" "length (entries ?q) = length (entries p)"
    using mset_eq_setD [OF q(2)] mset_eq_length [OF q(2)] .
  moreover have "sp_bucket_count ?q = n" "sp_fresh ?q = sp_fresh p" "sp_size ?q = sp_size p"
    by (simp_all add: wirble_strpool_grow_def)
  ultimately show "wf_pool ?q" using wf q(1) unfolding wf_pool_def by simp
  show "pool_names ?q = pool_names p"
    using q(2) wf by (intro pool_names_mset) (simp_all add: wf_pool_def)
qed

lemma strpool_make_room_ok:
  assumes wf: "wf_pool p" and small: "unat (sp_size p) < 2 ^ 62"
  shows "\<exists>q. strpool_make_room (\<lambda>_. True) p = (True, q) \<and> wf_pool q \<and> pool_names q = pool_names p
           \<and> sp_size q = sp_size p \<and> 0 < unat (sp_bucket_count q)"
proof -
  define p1 where "p1 = (if sp_bucket_count p = 0
    then snd (wirble_strpool_grow (\<lambda>_. True) p 128) else p)"
  have p1: "wf_pool p1" "pool_names p1 = pool_names p" "sp_size p1 = sp_size p"
      "0 < unat (sp_bucket_count p1)"
    using wf wirble_strpool_grow_ok [OF wf, of 128] by (auto simp: p1_def unat_gt_0)
  have eq: "strpool_make_room (\<lambda>_. True) p =
      (if sp_bucket_count p1 \<le> sp_size p1
       then wirble_strpool_grow (\<lambda>_. True) p1 (sp_bucket_count p1 * 2) else (True, p1))"
    by (simp add: strpool_make_room_def p1_def wirble_strpool_grow_def)
  show ?thesis
  proof (cases "sp_bucket_count p1 \<le> sp_size p1")
    case False
    then show ?thesis using eq p1 by auto
  next
    case True
    then have "unat (sp_bucket_count p1 * 2) = 2 * unat (sp_bucket_count p1)"
      using small p1(3) by (intro unat_double_no_wrap) (simp add: word_le_nat_alt)
    then show ?thesis
      using eq True p1 wirble_strpool_grow_ok [OF p1(1), of "sp_bucket_count p1 * 2"] by auto
  qed
qed

text \<open>Looking a string up in its bucket is looking it up in the table.\<close>

lemma find_in_bucket:
  assumes wf: "wf_pool p" and pos: "0 < unat (sp_bucket_count p)"
  shows "map_option se_ptr (find (\<lambda>e. se_text e = s) (sp_buckets p ! strpool_slot (sp_bucket_count p) s))
           = pool_names p s"
    (is "map_option _ (find _ ?b) = _")
proof -
  let ?slot = "strpool_slot (sp_bucket_count p) s"
  have slot: "?slot < length (sp_buckets p)" and sl: "slotted (sp_bucket_count p) (sp_buckets p)"
    using wf slot_less [OF pos, of s] by (auto simp: wf_pool_def slotted_def)
  have dist: "distinct (map se_text (entries p))" using wf by (simp add: wf_pool_def)
  show ?thesis
  proof (cases "find (\<lambda>e. se_text e = s) ?b")
    case (Some e)
    then have "e \<in> set (entries p)" "se_text e = s"
      using slot find_SomeD [OF Some] nth_mem [OF slot] by (auto simp: entries_def)
    then have "pool_names p s = Some (se_ptr e)"
      using dist unfolding pool_names_def
      by (intro map_of_is_SomeI) (force simp: comp_def)+
    with Some show ?thesis by simp
  next
    case None
    then have "\<forall>e\<in>set ?b. se_text e \<noteq> s" by (simp add: find_None_iff)
    moreover have "e \<in> set ?b" if "e \<in> set (entries p)" "se_text e = s" for e
      using that sl by (auto simp: slotted_def entries_def in_set_conv_nth [of _ "sp_buckets p"])
    ultimately have "s \<notin> se_text ` set (entries p)" by blast
    then have "pool_names p s = None" by (simp only: pool_names_None not_False_eq_True)
    with None show ?thesis by simp
  qed
qed

definition strpool_put :: "WirbleStrpool \<Rightarrow> bytes \<Rightarrow> nat \<times> WirbleStrpool" where
  "strpool_put p s =
     (let (x, q) = wirble_strpool_intern_from_pool (\<lambda>_. True) p (Some s) in (the x, q))"

lemma card_pool_names: "wf_pool p \<Longrightarrow> card (dom (pool_names p)) = unat (sp_size p)"
  by (simp add: pool_names_def dom_map_of_conv_image_fst image_image comp_def wf_pool_def
      distinct_card [of "map se_text (entries p)", simplified])

lemma wf_pool_add:
  assumes wf: "wf_pool q" and pos: "0 < unat (sp_bucket_count q)" and new: "pool_names q s = None"
    and small: "unat (sp_size q) < 2 ^ 62"
  defines "slot \<equiv> strpool_slot (sp_bucket_count q) s"
  defines "q' \<equiv> q\<lparr>sp_buckets := (sp_buckets q)[slot := \<lparr>se_ptr = sp_fresh q, se_text = s\<rparr>
                                  # sp_buckets q ! slot],
                  sp_size := sp_size q + 1, sp_fresh := Suc (sp_fresh q)\<rparr>"
  shows "wf_pool q' \<and> pool_names q' = (pool_names q)(s \<mapsto> sp_fresh q) \<and> sp_fresh q \<notin> ran (pool_names q)"
proof -
  let ?e = "\<lparr>se_ptr = sp_fresh q, se_text = s\<rparr>"
  have push: "sp_buckets q' = strpool_push (sp_bucket_count q) (sp_buckets q) ?e"
    by (simp add: q'_def slot_def strpool_push_def Let_def)
  have sl: "slotted (sp_bucket_count q) (sp_buckets q)" using wf by (simp add: wf_pool_def)
  have ms: "mset (entries q') = mset (?e # entries q)"
    and sl': "slotted (sp_bucket_count q) (sp_buckets q')"
    using slotted_push [OF sl pos, of ?e] push by (simp_all add: entries_def)
  have fresh: "s \<notin> se_text ` set (entries q)"
    using new by (simp only: pool_names_None not_False_eq_True)
  have dist: "distinct (map se_text (?e # entries q)) \<and> distinct (map se_ptr (?e # entries q))"
    using wf fresh by (auto simp: wf_pool_def)
  moreover have "mset (map se_text (entries q')) = mset (map se_text (?e # entries q))"
    "mset (map se_ptr (entries q')) = mset (map se_ptr (?e # entries q))" using ms by simp_all
  ultimately have dist': "distinct (map se_text (entries q')) \<and> distinct (map se_ptr (entries q'))"
    by (metis mset_eq_imp_distinct_iff)
  have "set (entries q') = set (?e # entries q)" "length (entries q') = length (?e # entries q)"
    using mset_eq_setD [OF ms] mset_eq_length [OF ms] .
  moreover have "unat (sp_size q + 1) = unat (sp_size q) + 1"
    using small by (subst unat_add_no_wrap) simp_all
  ultimately have "wf_pool q'"
    using wf sl' dist' unfolding wf_pool_def by (auto simp: q'_def less_SucI)
  moreover have "pool_names q' = map_of (map (\<lambda>e. (se_text e, se_ptr e)) (?e # entries q))"
    using pool_names_mset [of q' "\<lparr>sp_buckets = [?e # entries q], sp_bucket_count = 0,
        sp_size = 0, sp_fresh = 0\<rparr>"] ms dist by (simp add: pool_names_def entries_def)
  moreover have "sp_fresh q \<notin> ran (pool_names q)"
    using wf by (auto simp: wf_pool_def pool_names_def ran_def dest!: map_of_SomeD) blast
  ultimately show ?thesis by (simp add: pool_names_def)
qed

interpretation strpool: interner wf_pool pool_names strpool_put "2 ^ 62"
proof unfold_locales
  fix p s assume wf: "wf_pool p" and small: "card (dom (pool_names p)) < 2 ^ 62"
  obtain q where q: "strpool_make_room (\<lambda>_. True) p = (True, q)" "wf_pool q"
      "pool_names q = pool_names p" "sp_size q = sp_size p" "0 < unat (sp_bucket_count q)"
    using strpool_make_room_ok [OF wf] small card_pool_names [OF wf] by auto
  have small': "unat (sp_size q) < 2 ^ 62" using small card_pool_names [OF wf] q(4) by simp
  note look = find_in_bucket [OF q(2,5), of s]
  show "wf_pool (snd (strpool_put p s))
       \<and> pool_names (snd (strpool_put p s)) = (pool_names p)(s \<mapsto> fst (strpool_put p s))
       \<and> (case pool_names p s of Some x \<Rightarrow> fst (strpool_put p s) = x
          | None \<Rightarrow> fst (strpool_put p s) \<notin> ran (pool_names p))"
  proof (cases "pool_names q s")
    case None
    with look have "find (\<lambda>e. se_text e = s)
        (sp_buckets q ! strpool_slot (sp_bucket_count q) s) = None" by simp
    then show ?thesis using wf_pool_add [OF q(2,5) None small'] q(1,3) None
      by (simp add: strpool_put_def wirble_strpool_intern_from_pool_def
          wirble_strpool_intern_with_length_def Let_def)
  next
    case (Some x)
    with look obtain e where "find (\<lambda>e. se_text e = s)
        (sp_buckets q ! strpool_slot (sp_bucket_count q) s) = Some e" "se_ptr e = x" by auto
    then show ?thesis using q Some
      by (simp add: strpool_put_def wirble_strpool_intern_from_pool_def
          wirble_strpool_intern_with_length_def Let_def fun_upd_idem)
  qed
next
  fix p assume "wf_pool p"
  then have "distinct (map se_text (entries p))" "distinct (map se_ptr (entries p))"
    by (simp_all add: wf_pool_def)
  then have "inj_on (pool_names p) (dom (pool_names p))"
    by (auto simp: inj_on_def pool_names_def distinct_map dest!: map_of_SomeD) metis
  then show "finite (dom (pool_names p)) \<and> inj_on (pool_names p) (dom (pool_names p))"
    by (simp add: pool_names_def finite_dom_map_of)
qed

text \<open>
  C24. Interned pointers identify strings. Interning any sequence of fewer than \<open>2 ^ 62\<close>
  strings in a new pool, through every growth and rehash of the table, returns equal
  pointers exactly for equal strings.
\<close>

theorem strpool_pointers_identify_strings:
  assumes "length ss \<le> 2 ^ 62" and "strpool.put_all wirble_strpool_init ss = (xs, p)"
    and "i < length ss" "j < length ss"
  shows "xs ! i = xs ! j \<longleftrightarrow> ss ! i = ss ! j"
proof (rule strpool.put_all_identifies [OF _ _ assms(2-4)])
  show "wf_pool wirble_strpool_init"
    by (simp add: wf_pool_def slotted_def wirble_strpool_init_def entries_def)
  then show "card (dom (pool_names wirble_strpool_init)) + length ss \<le> 2 ^ 62"
    using assms(1) by (simp add: card_pool_names) (simp add: wirble_strpool_init_def)
qed

theorem strpool_pointers_identify_strings_witness:
  "\<exists>xs p. strpool.put_all wirble_strpool_init [[1], [2], [1]] = (xs, p)
     \<and> xs ! 0 = xs ! 2 \<and> xs ! 0 \<noteq> xs ! 1"
proof -
  obtain xs p where r: "strpool.put_all wirble_strpool_init [[1], [2], [1]] = (xs, p)" by fastforce
  then show ?thesis
    using strpool_pointers_identify_strings [OF _ r, of 0 2]
      strpool_pointers_identify_strings [OF _ r, of 0 1] by simp
qed

end
