(* ===== verification/Diagnostics.thy ===== *)
theory Diagnostics
  imports Wirble_Prelude
begin

text \<open>
  The diagnostics engine of \<^verbatim>\<open>common/diagnostics.c\<close>. What is printed on a stream is the
  text appended to it; \<open>None\<close> as the stream of an engine is a null pointer, which means
  \<^verbatim>\<open>stderr\<close>. The result of \<^verbatim>\<open>vsnprintf\<close> on the full format is a parameter: \<open>None\<close> when
  formatting fails.
\<close>

datatype WirbleDiagSeverity = WIRBLE_DIAG_NOTE | WIRBLE_DIAG_WARNING | WIRBLE_DIAG_ERROR

record WirbleDiagnostics =
  dg_stream :: "nat option"
  dg_source_name :: "string option"
  dg_note_count :: u64
  dg_warning_count :: u64
  dg_error_count :: u64

text \<open>Open streams, by number; number 2 is \<^verbatim>\<open>stderr\<close>.\<close>

type_synonym streams = "nat \<Rightarrow> string"

definition wirble_diag_severity_name :: "WirbleDiagSeverity \<Rightarrow> string" where
  "wirble_diag_severity_name sev =
     (case sev of WIRBLE_DIAG_NOTE \<Rightarrow> ''note'' | WIRBLE_DIAG_WARNING \<Rightarrow> ''warning''
      | WIRBLE_DIAG_ERROR \<Rightarrow> ''error'')"

definition wirble_diag_stream :: "WirbleDiagnostics option \<Rightarrow> nat" where
  "wirble_diag_stream diag =
     (case diag of None \<Rightarrow> 2 | Some d \<Rightarrow> (case dg_stream d of None \<Rightarrow> 2 | Some f \<Rightarrow> f))"

definition wirble_diag_increment :: "WirbleDiagnostics \<Rightarrow> WirbleDiagSeverity \<Rightarrow> WirbleDiagnostics" where
  "wirble_diag_increment d sev =
     (case sev of
        WIRBLE_DIAG_NOTE \<Rightarrow> d\<lparr>dg_note_count := dg_note_count d + 1\<rparr>
      | WIRBLE_DIAG_WARNING \<Rightarrow> d\<lparr>dg_warning_count := dg_warning_count d + 1\<rparr>
      | WIRBLE_DIAG_ERROR \<Rightarrow> d\<lparr>dg_error_count := dg_error_count d + 1\<rparr>)"

definition wirble_diag_init :: "nat option \<Rightarrow> string option \<Rightarrow> WirbleDiagnostics" where
  "wirble_diag_init stream source_name =
     \<lparr>dg_stream = stream, dg_source_name = source_name, dg_note_count = 0,
      dg_warning_count = 0, dg_error_count = 0\<rparr>"

definition wirble_diag_set_stream :: "WirbleDiagnostics \<Rightarrow> nat option \<Rightarrow> WirbleDiagnostics" where
  "wirble_diag_set_stream d stream = d\<lparr>dg_stream := stream\<rparr>"

definition wirble_diag_set_source :: "WirbleDiagnostics \<Rightarrow> string option \<Rightarrow> WirbleDiagnostics" where
  "wirble_diag_set_source d source_name = d\<lparr>dg_source_name := source_name\<rparr>"

definition wirble_diag_report ::
  "WirbleDiagnostics option \<Rightarrow> WirbleDiagSeverity \<Rightarrow> string option \<Rightarrow> string option \<Rightarrow> streams
     \<Rightarrow> WirbleDiagnostics option \<times> streams" where
  "wirble_diag_report diag sev location message out =
     (let stream = wirble_diag_stream diag;
          source_name = (case diag of None \<Rightarrow> ''wirble''
             | Some d \<Rightarrow> (case dg_source_name d of None \<Rightarrow> ''wirble'' | Some n \<Rightarrow> n));
          loc = (case location of None \<Rightarrow> [] | Some l \<Rightarrow> if l = [] then [] else '':'' @ l);
          line = source_name @ loc @ '': '' @ wirble_diag_severity_name sev @ '': ''
                   @ (case message of None \<Rightarrow> [] | Some m \<Rightarrow> m) @ [CHR 0x0A]
      in (map_option (\<lambda>d. wirble_diag_increment d sev) diag,
          out(stream := out stream @ line)))"

text \<open>
  The buffer has 1024 bytes: a text that does not fit keeps its first 1020 characters and
  ends in an ellipsis.
\<close>

definition diag_buffer :: "string \<Rightarrow> string" where
  "diag_buffer text = (if 1024 \<le> length text then take 1020 text @ ''...'' else text)"

definition wirble_diag_vreportf ::
  "WirbleDiagnostics option \<Rightarrow> WirbleDiagSeverity \<Rightarrow> string option \<Rightarrow> string option option \<Rightarrow> streams
     \<Rightarrow> WirbleDiagnostics option \<times> streams" where
  "wirble_diag_vreportf diag sev location formatted out =
     (case formatted of
        None \<Rightarrow> wirble_diag_report diag sev location (Some []) out
      | Some None \<Rightarrow> wirble_diag_report diag sev location (Some ''formatting error'') out
      | Some (Some text) \<Rightarrow> wirble_diag_report diag sev location (Some (diag_buffer text)) out)"

definition wirble_diag_count :: "WirbleDiagnostics option \<Rightarrow> WirbleDiagSeverity \<Rightarrow> u64" where
  "wirble_diag_count diag sev =
     (case diag of None \<Rightarrow> 0
      | Some d \<Rightarrow> (case sev of WIRBLE_DIAG_NOTE \<Rightarrow> dg_note_count d
                   | WIRBLE_DIAG_WARNING \<Rightarrow> dg_warning_count d
                   | WIRBLE_DIAG_ERROR \<Rightarrow> dg_error_count d))"

definition wirble_diag_has_errors :: "WirbleDiagnostics option \<Rightarrow> bool" where
  "wirble_diag_has_errors diag =
     (case diag of None \<Rightarrow> False | Some d \<Rightarrow> dg_error_count d \<noteq> 0)"

definition wirble_diag_emit :: "string option \<Rightarrow> streams \<Rightarrow> streams" where
  "wirble_diag_emit message out =
     snd (wirble_diag_report (Some (wirble_diag_init (Some 2) (Some ''wirble'')))
            WIRBLE_DIAG_NOTE None message out)"

text \<open>A sequence of formatted reports on one engine.\<close>

type_synonym report = "WirbleDiagSeverity \<times> string option \<times> string option option"

fun diag_run :: "WirbleDiagnostics option \<Rightarrow> report list \<Rightarrow> streams \<Rightarrow> WirbleDiagnostics option \<times> streams"
  where
  "diag_run d [] out = (d, out)"
| "diag_run d ((sev, loc, fmt) # rs) out =
     (let (d', out') = wirble_diag_vreportf d sev loc fmt out in diag_run d' rs out')"

lemma vreportf_increments:
  "fst (wirble_diag_vreportf d sev loc fmt out) = map_option (\<lambda>d. wirble_diag_increment d sev) d"
  by (simp add: wirble_diag_vreportf_def wirble_diag_report_def Let_def split: option.splits)

lemma diag_run_count:
  "wirble_diag_count (fst (diag_run (Some d) rs out)) sev =
     wirble_diag_count (Some d) sev + of_nat (length (filter (\<lambda>r. fst r = sev) rs))"
proof (induction rs arbitrary: d out)
  case Nil
  then show ?case by simp
next
  case (Cons r rs)
  obtain s loc fmt where r: "r = (s, loc, fmt)" by (cases r)
  obtain d' out' where v: "wirble_diag_vreportf (Some d) s loc fmt out = (d', out')" by fastforce
  then have "d' = Some (wirble_diag_increment d s)"
    using vreportf_increments [of "Some d" s loc fmt out] by simp
  then show ?case using Cons.IH [of "wirble_diag_increment d s" out'] r v
    by (cases s; cases sev) (simp_all add: wirble_diag_count_def wirble_diag_increment_def)
qed

text \<open>
  Diagnostics are counted. After any sequence of fewer than \<open>2 ^ 64\<close> reports on a new
  engine, whatever they format to, the count of a severity is the number of reports of that
  severity, and the engine has errors exactly when one of them was an error.
\<close>

theorem diag_counts_reports:
  assumes "length rs < 2 ^ 64"
    and "fst (diag_run (Some (wirble_diag_init stream src)) rs out) = d"
  shows "unat (wirble_diag_count d sev) = length (filter (\<lambda>r. fst r = sev) rs)
     \<and> (wirble_diag_has_errors d \<longleftrightarrow> (\<exists>r\<in>set rs. fst r = WIRBLE_DIAG_ERROR))"
proof -
  have len: "length (filter (\<lambda>r. fst r = s) rs) < 2 ^ 64" for s
    using assms(1) length_filter_le le_less_trans by blast
  have cnt: "wirble_diag_count d s = of_nat (length (filter (\<lambda>r. fst r = s) rs))" for s
    using diag_run_count [of "wirble_diag_init stream src" rs out s] assms(2)
    by (cases s) (simp_all add: wirble_diag_count_def wirble_diag_init_def)
  have un: "unat (wirble_diag_count d s) = length (filter (\<lambda>r. fst r = s) rs)" for s
    using len [of s] by (simp add: cnt unsigned_of_nat take_bit_nat_eq_self)
  have "wirble_diag_has_errors d \<longleftrightarrow> unat (wirble_diag_count d WIRBLE_DIAG_ERROR) \<noteq> 0"
    by (simp add: wirble_diag_has_errors_def wirble_diag_count_def unat_eq_0 split: option.splits)
  then show ?thesis using un by (auto simp: filter_empty_conv)
qed

theorem diag_counts_reports_witness:
  "\<exists>d. fst (diag_run (Some (wirble_diag_init None None))
            [(WIRBLE_DIAG_NOTE, None, None), (WIRBLE_DIAG_ERROR, Some ''1:2'', Some (Some ''bad''))] (\<lambda>_. [])) = d
     \<and> unat (wirble_diag_count d WIRBLE_DIAG_ERROR) = 1 \<and> wirble_diag_has_errors d"
  using diag_counts_reports [OF _ refl, of "[(WIRBLE_DIAG_NOTE, None, None),
      (WIRBLE_DIAG_ERROR, Some ''1:2'', Some (Some ''bad''))]" None None "\<lambda>_. []" WIRBLE_DIAG_ERROR]
  by simp

end
