(* ===== verification/Wil_Graph.thy ===== *)
theory Wil_Graph
  imports Wil
begin

text \<open>
  Correctness of the WIL graph: inputs and use lists stay each other's converse under every
  operation, so that built graphs verify; replacing all uses of a node does what it says;
  and the four traversals visit exactly the nodes a node depends on.
\<close>

section \<open>The def-use invariant\<close>

text \<open>
  How often \<open>n\<close> has \<open>m\<close> as an input and how often \<open>m\<close> lists \<open>n\<close> as a user agree, and all
  pointers are into the graph.
\<close>

definition in_count :: "WILGraph \<Rightarrow> nat \<Rightarrow> nat \<Rightarrow> nat" where
  "in_count g n m = count_list (map fst (wn_inputs (g ! n))) (Some m)"

definition wil_linked :: "WILGraph \<Rightarrow> bool" where
  "wil_linked g \<longleftrightarrow>
     (\<forall>n<length g. \<forall>m<length g. in_count g n m = count_list (wn_uses (g ! m)) n)
     \<and> (\<forall>n<length g. \<forall>m. Some m \<in> fst ` set (wn_inputs (g ! n)) \<longrightarrow> m < length g)
     \<and> (\<forall>m<length g. set (wn_uses (g ! m)) \<subseteq> {..<length g})"

text \<open>A pointer that is null or into the graph.\<close>

definition valid_ptr :: "WILGraph \<Rightarrow> node_ptr \<Rightarrow> bool" where
  "valid_ptr g p \<longleftrightarrow> (\<forall>m. p = Some m \<longrightarrow> m < length g)"

lemma nth_update_field: "f y = f (xs ! n) \<Longrightarrow> f (xs[n := y] ! k) = f (xs ! k)"
  by (metis list_update_beyond not_le nth_list_update_eq nth_list_update_neq)

lemma count_list_remove1:
  "count_list (remove1 x xs) y = (if x = y \<and> x \<in> set xs then count_list xs y - 1 else count_list xs y)"
  by (induction xs) (auto simp: count_list_0_iff)

lemma count_list_pos: "0 < count_list xs x \<longleftrightarrow> x \<in> set xs"
  by (metis count_list_0_iff gr0I less_irrefl)

text \<open>What the two use-list operations do, and that they touch nothing else.\<close>

lemma register_use_simps:
  assumes "valid_ptr g p"
  shows "length (wil_node_register_use g p u) = length g"
    and "n < length g \<Longrightarrow> wn_inputs (wil_node_register_use g p u ! n) = wn_inputs (g ! n)"
    and "m < length g \<Longrightarrow> wn_uses (wil_node_register_use g p u ! m)
           = wn_uses (g ! m) @ (if p = Some m then [u] else [])"
  using assms by (auto simp: wil_node_register_use_def valid_ptr_def nth_list_update split: option.splits)

lemma unregister_use_simps:
  assumes "valid_ptr g p"
  shows "length (wil_node_unregister_use g p u) = length g"
    and "n < length g \<Longrightarrow> wn_inputs (wil_node_unregister_use g p u ! n) = wn_inputs (g ! n)"
    and "m < length g \<Longrightarrow> wn_uses (wil_node_unregister_use g p u ! m)
           = (if p = Some m then remove1 u (wn_uses (g ! m)) else wn_uses (g ! m))"
  using assms by (auto simp: wil_node_unregister_use_def valid_ptr_def nth_list_update split: option.splits)

lemmas use_simps = register_use_simps unregister_use_simps

text \<open>
  An edit of the inputs of one node: \<open>gone\<close> is the pointer that leaves the list, \<open>come\<close> the
  one that enters it. Every editing operation has this shape.
\<close>

definition edits :: "WILGraph \<Rightarrow> nat \<Rightarrow> node_ptr \<Rightarrow> node_ptr \<Rightarrow> WILGraph \<Rightarrow> bool" where
  "edits g n gone come g' \<longleftrightarrow> length g' = length g
     \<and> (\<forall>k<length g. k \<noteq> n \<longrightarrow> wn_inputs (g' ! k) = wn_inputs (g ! k))
     \<and> (\<forall>m. in_count g' n m + (if gone = Some m then 1 else 0)
            = in_count g n m + (if come = Some m then 1 else 0))
     \<and> (\<forall>m<length g. wn_uses (g' ! m) =
          (if gone = Some m then remove1 n (wn_uses (g ! m)) else wn_uses (g ! m))
          @ (if come = Some m then [n] else []))"

lemma edits_linked:
  assumes lk: "wil_linked g" and ed: "edits g n gone come g'" and n: "n < length g"
    and gone: "\<And>m. gone = Some m \<Longrightarrow> 0 < in_count g n m" and come: "valid_ptr g come"
  shows "wil_linked g'"
proof -
  have len: "length g' = length g"
    and others: "\<And>k. k < length g \<Longrightarrow> k \<noteq> n \<Longrightarrow> wn_inputs (g' ! k) = wn_inputs (g ! k)"
    and cnt: "\<And>m. in_count g' n m + (if gone = Some m then 1 else 0)
                = in_count g n m + (if come = Some m then 1 else 0)"
    and uses: "\<And>m. m < length g \<Longrightarrow> wn_uses (g' ! m) =
          (if gone = Some m then remove1 n (wn_uses (g ! m)) else wn_uses (g ! m))
          @ (if come = Some m then [n] else [])"
    using ed by (auto simp: edits_def)
  have agree: "k < length g \<Longrightarrow> m < length g \<Longrightarrow> in_count g k m = count_list (wn_uses (g ! m)) k" for k m
    using lk by (simp add: wil_linked_def)
  have "in_count g' k m = count_list (wn_uses (g' ! m)) k" if "k < length g" "m < length g" for k m
  proof (cases "k = n")
    case True
    have "n \<in> set (wn_uses (g ! m))" if "gone = Some m"
      using gone [OF that] agree [OF n \<open>m < length g\<close>] count_list_pos by metis
    then show ?thesis
      using cnt [of m] uses [OF that(2)] agree [OF n that(2)] gone [of m] True
      by (auto simp: count_list_remove1 split: if_splits)
  next
    case False
    then show ?thesis
      using others [OF that(1)] uses [OF that(2)] agree [OF that]
      by (auto simp: in_count_def count_list_remove1)
  qed
  moreover have "m < length g" if "k < length g" "Some m \<in> fst ` set (wn_inputs (g' ! k))" for k m
  proof (cases "k = n")
    case True
    with that have "0 < in_count g' n m" by (simp add: in_count_def count_list_pos)
    then have "0 < in_count g n m \<or> come = Some m" using cnt [of m] by (simp split: if_splits)
    moreover have "m < length g" if "0 < in_count g n m"
      using that lk n by (simp add: in_count_def count_list_pos wil_linked_def)
    ultimately show ?thesis using come by (auto simp: valid_ptr_def)
  next
    case False
    then have "Some m \<in> fst ` set (wn_inputs (g ! k))" using others that by simp
    then show ?thesis using that(1) lk unfolding wil_linked_def by blast
  qed
  moreover have "set (wn_uses (g' ! m)) \<subseteq> {..<length g}" if "m < length g" for m
  proof -
    have "set (wn_uses (g ! m)) \<subseteq> {..<length g}" using lk that unfolding wil_linked_def by blast
    then show ?thesis using uses [OF that] n set_remove1_subset [of n "wn_uses (g ! m)"] by auto
  qed
  ultimately show ?thesis using len by (simp add: wil_linked_def)
qed

lemma count_list_update:
  "i < length xs \<Longrightarrow> count_list (xs[i := y]) z + (if xs ! i = z then 1 else 0)
     = count_list xs z + (if y = z then 1 else 0)"
  by (subst (3) id_take_nth_drop [of i xs]) (simp_all add: upd_conv_take_nth_drop)

lemma count_list_delete:
  "i < length xs \<Longrightarrow> count_list (take i xs @ drop (Suc i) xs) z + (if xs ! i = z then 1 else 0)
     = count_list xs z"
  by (subst (4) id_take_nth_drop [of i xs]) simp_all

lemma add_input_edits:
  assumes "n < length g" and "valid_ptr g p"
  shows "edits g n None p (wil_node_add_input g n p ek)"
proof -
  let ?g = "g[n := (g ! n)\<lparr>wn_inputs := wn_inputs (g ! n) @ [(p, ek)]\<rparr>]"
  have "valid_ptr ?g p" using assms(2) by (simp add: valid_ptr_def)
  then show ?thesis using assms(1) register_use_simps [of ?g p]
    by (auto simp: edits_def wil_node_add_input_def in_count_def nth_list_update)
qed

lemma input_valid: "wil_linked g \<Longrightarrow> n < length g \<Longrightarrow> i < length (wn_inputs (g ! n)) \<Longrightarrow>
    valid_ptr g (fst (wn_inputs (g ! n) ! i))"
  by (auto simp: valid_ptr_def wil_linked_def) (metis image_eqI nth_mem)

lemma input_counted: "n < length g \<Longrightarrow> i < length (wn_inputs (g ! n)) \<Longrightarrow>
    fst (wn_inputs (g ! n) ! i) = Some m \<Longrightarrow> 0 < in_count g n m"
  by (auto simp: in_count_def count_list_pos) (metis image_eqI nth_mem)

lemma replace_input_edits:
  assumes lk: "wil_linked g" and n: "n < length g" and i: "i < length (wn_inputs (g ! n))"
    and p: "valid_ptr g p"
  shows "edits g n (fst (wn_inputs (g ! n) ! i)) p (wil_node_replace_input g n i p)"
proof -
  let ?old = "fst (wn_inputs (g ! n) ! i)"
  define g1 where "g1 = wil_node_unregister_use g ?old n"
  define g2 where "g2 = g1[n := (g1 ! n)\<lparr>wn_inputs := (wn_inputs (g1 ! n))
                               [i := (p, snd (wn_inputs (g1 ! n) ! i))]\<rparr>]"
  note u = unregister_use_simps [OF input_valid [OF lk n i], where u = n, folded g1_def]
  have eq: "wil_node_replace_input g n i p = wil_node_register_use g2 p n"
    using i by (simp add: wil_node_replace_input_def g1_def g2_def Let_def)
  have len: "length g2 = length g" using u(1) by (simp add: g2_def)
  then have "valid_ptr g2 p" using p by (simp add: valid_ptr_def)
  note r = register_use_simps [OF this, where u = n]
  have in2: "wn_inputs (g2 ! n) = (wn_inputs (g ! n))[i := (p, snd (wn_inputs (g ! n) ! i))]"
    using n u(1,2) by (simp add: g2_def)
  have "map fst (wn_inputs (g2 ! n)) = (map fst (wn_inputs (g ! n)))[i := p]"
    by (simp add: in2 map_update)
  then have "in_count g2 n m + (if ?old = Some m then 1 else 0)
      = in_count g n m + (if p = Some m then 1 else 0)" for m
    using count_list_update [of i "map fst (wn_inputs (g ! n))" p "Some m"] i
    by (simp add: in_count_def)
  moreover have "wn_uses (g2 ! m) = wn_uses (g1 ! m)" if "m < length g" for m
    using that u(1) n by (simp add: g2_def nth_list_update)
  moreover have "wn_inputs (g2 ! k) = wn_inputs (g ! k)" if "k < length g" "k \<noteq> n" for k
    using that u by (simp add: g2_def)
  ultimately show ?thesis using r u len n unfolding edits_def eq
    by (auto simp: in_count_def)
qed

lemma remove_input_edits:
  assumes lk: "wil_linked g" and n: "n < length g" and i: "i < length (wn_inputs (g ! n))"
  shows "edits g n (fst (wn_inputs (g ! n) ! i)) None (wil_node_remove_input g n i)"
proof -
  let ?old = "fst (wn_inputs (g ! n) ! i)"
  define g1 where "g1 = wil_node_unregister_use g ?old n"
  note u = unregister_use_simps [OF input_valid [OF lk n i], where u = n, folded g1_def]
  have eq: "wil_node_remove_input g n i = g1[n := (g1 ! n)\<lparr>wn_inputs := take i (wn_inputs (g1 ! n))
                                 @ drop (Suc i) (wn_inputs (g1 ! n))\<rparr>]"
    using i by (simp add: wil_node_remove_input_def g1_def Let_def)
  have "count_list (map fst (take i (wn_inputs (g ! n)) @ drop (Suc i) (wn_inputs (g ! n)))) (Some m)
      + (if ?old = Some m then 1 else 0) = in_count g n m" for m
    using count_list_delete [of i "map fst (wn_inputs (g ! n))" "Some m"] i
    by (simp add: in_count_def take_map drop_map)
  then show ?thesis using u n unfolding edits_def eq
    by (auto simp: in_count_def nth_list_update)
qed

lemma create_linked:
  assumes "wil_linked g"
  shows "wil_linked (snd (wil_node_create g kind ty nm))"
proof -
  have len: "length (snd (wil_node_create g kind ty nm)) = Suc (length g)"
    and old: "\<And>k. k < length g \<Longrightarrow> snd (wil_node_create g kind ty nm) ! k = g ! k"
    and new: "wn_inputs (snd (wil_node_create g kind ty nm) ! length g) = []"
      "wn_uses (snd (wil_node_create g kind ty nm) ! length g) = []"
    by (simp_all add: wil_node_create_def nth_append)
  have "in_count g n (length g) = 0" if "n < length g" for n
    using assms that unfolding wil_linked_def in_count_def count_list_0_iff
    by (metis image_set less_irrefl)
  moreover have "count_list (wn_uses (g ! m)) (length g) = 0" if "m < length g" for m
    using assms that unfolding wil_linked_def count_list_0_iff by blast
  ultimately show ?thesis using assms len old new
    unfolding wil_linked_def by (auto simp: less_Suc_eq in_count_def) blast
qed

section \<open>Programs that build graphs\<close>

text \<open>
  The states a program reaches from an empty graph by creating nodes and editing inputs, with
  pointers that are null or to nodes of the graph. The builder functions are sequences of these steps.
\<close>

inductive wil_built :: "WILGraph \<Rightarrow> bool" where
  empty: "wil_built []"
| create: "wil_built g \<Longrightarrow> length g + 1 < 2 ^ 64 \<Longrightarrow> wil_built (snd (wil_node_create g kind ty nm))"
| payload: "wil_built g \<Longrightarrow> wil_built (snd (wil_set_payload (n, g) v))"
| add_input: "wil_built g \<Longrightarrow> n < length g \<Longrightarrow> valid_ptr g p \<Longrightarrow>
    wil_built (wil_node_add_input g n p ek)"
| replace_input: "wil_built g \<Longrightarrow> n < length g \<Longrightarrow> valid_ptr g p \<Longrightarrow>
    wil_built (wil_node_replace_input g n i p)"
| remove_input: "wil_built g \<Longrightarrow> n < length g \<Longrightarrow> wil_built (wil_node_remove_input g n i)"
| flag: "wil_built g \<Longrightarrow> wil_built (g[n := (g ! n)\<lparr>wn_removed := True\<rparr>])"

definition no_null_inputs :: "WILGraph \<Rightarrow> bool" where
  "no_null_inputs g \<longleftrightarrow> (\<forall>n<length g. None \<notin> fst ` set (wn_inputs (g ! n)))"

definition ids_set :: "WILGraph \<Rightarrow> bool" where
  "ids_set g \<longleftrightarrow> (\<forall>n<length g. wn_id (g ! n) \<noteq> 0)"

lemma linked_update_other:
  assumes "wil_linked g" and "wn_inputs x = wn_inputs (g ! n)" "wn_uses x = wn_uses (g ! n)"
  shows "wil_linked (g[n := x])"
proof -
  have "wn_inputs (g[n := x] ! k) = wn_inputs (g ! k)" "wn_uses (g[n := x] ! k) = wn_uses (g ! k)"
    for k using nth_update_field [of wn_inputs x g n] nth_update_field [of wn_uses x g n] assms(2,3)
    by simp_all
  then show ?thesis using assms(1) by (simp add: wil_linked_def in_count_def)
qed

lemma replace_input_linked:
  assumes "wil_linked g" "n < length g" "valid_ptr g p"
  shows "wil_linked (wil_node_replace_input g n i p)"
proof (cases "i < length (wn_inputs (g ! n))")
  case True
  show ?thesis
    by (rule edits_linked [OF assms(1) replace_input_edits [OF assms(1,2) True assms(3)] assms(2)])
       (use input_counted [OF assms(2) True] assms(3) in auto)
next
  case False
  then show ?thesis using assms(1) by (simp add: wil_node_replace_input_def)
qed

lemma remove_input_linked:
  assumes "wil_linked g" "n < length g"
  shows "wil_linked (wil_node_remove_input g n i)"
proof (cases "i < length (wn_inputs (g ! n))")
  case True
  show ?thesis
    by (rule edits_linked [OF assms(1) remove_input_edits [OF assms True] assms(2)])
       (use input_counted [OF assms(2) True] in \<open>auto simp: valid_ptr_def\<close>)
next
  case False
  then show ?thesis using assms(1) by (simp add: wil_node_remove_input_def)
qed

lemma add_input_linked:
  assumes "wil_linked g" "n < length g" "valid_ptr g p"
  shows "wil_linked (wil_node_add_input g n p ek)"
  by (rule edits_linked [OF assms(1) add_input_edits [OF assms(2,3)] assms(2)])
     (use assms(3) in auto)

lemma built_linked: "wil_built g \<Longrightarrow> wil_linked g"
proof (induction rule: wil_built.induct)
  case empty
  then show ?case by (simp add: wil_linked_def)
qed (auto simp: wil_set_payload_def create_linked linked_update_other
       replace_input_linked remove_input_linked add_input_linked)

text \<open>The inputs and ids after each editing operation.\<close>

lemmas node_update [simp] =
  nth_update_field [of wn_id "(g ! n)\<lparr>wn_uses := x\<rparr>" g n for g n x, simplified]
  nth_update_field [of wn_inputs "(g ! n)\<lparr>wn_uses := x\<rparr>" g n for g n x, simplified]
  nth_update_field [of wn_id "(g ! n)\<lparr>wn_inputs := x\<rparr>" g n for g n x, simplified]
  nth_update_field [of wn_id "(g ! n)\<lparr>wn_payload := x\<rparr>" g n for g n x, simplified]
  nth_update_field [of wn_inputs "(g ! n)\<lparr>wn_payload := x\<rparr>" g n for g n x, simplified]
  nth_update_field [of wn_id "(g ! n)\<lparr>wn_removed := x\<rparr>" g n for g n x, simplified]
  nth_update_field [of wn_inputs "(g ! n)\<lparr>wn_removed := x\<rparr>" g n for g n x, simplified]

lemma use_keeps:
  "k < length g \<Longrightarrow> wn_id (wil_node_register_use g p u ! k) = wn_id (g ! k)"
  "k < length g \<Longrightarrow> wn_id (wil_node_unregister_use g p u ! k) = wn_id (g ! k)"
  "k < length g \<Longrightarrow> wn_inputs (wil_node_register_use g p u ! k) = wn_inputs (g ! k)"
  "k < length g \<Longrightarrow> wn_inputs (wil_node_unregister_use g p u ! k) = wn_inputs (g ! k)"
  "length (wil_node_register_use g p u) = length g"
  "length (wil_node_unregister_use g p u) = length g"
  by (auto simp: wil_node_register_use_def wil_node_unregister_use_def nth_list_update
      split: option.splits)

lemma add_input_inputs:
  "n < length g \<Longrightarrow> k < length g \<Longrightarrow> wn_inputs (wil_node_add_input g n p ek ! k)
     = wn_inputs (g ! k) @ (if k = n then [(p, ek)] else [])"
  "k < length g \<Longrightarrow> wn_id (wil_node_add_input g n p ek ! k) = wn_id (g ! k)"
  "length (wil_node_add_input g n p ek) = length g"
  by (simp_all add: wil_node_add_input_def use_keeps nth_list_update)

lemma replace_input_inputs:
  "n < length g \<Longrightarrow> k < length g \<Longrightarrow> wn_inputs (wil_node_replace_input g n i p ! k)
     = (if k = n \<and> i < length (wn_inputs (g ! n))
        then (wn_inputs (g ! n))[i := (p, snd (wn_inputs (g ! n) ! i))] else wn_inputs (g ! k))"
  "k < length g \<Longrightarrow> wn_id (wil_node_replace_input g n i p ! k) = wn_id (g ! k)"
  "length (wil_node_replace_input g n i p) = length g"
  by (simp_all add: wil_node_replace_input_def use_keeps nth_list_update Let_def)

lemma remove_input_inputs:
  "n < length g \<Longrightarrow> k < length g \<Longrightarrow> wn_inputs (wil_node_remove_input g n i ! k)
     = (if k = n then take i (wn_inputs (g ! n)) @ drop (Suc i) (wn_inputs (g ! n)) else wn_inputs (g ! k))"
  "k < length g \<Longrightarrow> wn_id (wil_node_remove_input g n i ! k) = wn_id (g ! k)"
  "length (wil_node_remove_input g n i) = length g"
  by (simp_all add: wil_node_remove_input_def use_keeps nth_list_update Let_def)

lemmas edit_inputs = add_input_inputs replace_input_inputs remove_input_inputs

lemma linked_inputD: "wil_linked g \<Longrightarrow> n < length g \<Longrightarrow> Some m \<in> fst ` set (wn_inputs (g ! n)) \<Longrightarrow> m < length g"
  by (simp add: wil_linked_def)

lemma linked_useD: "wil_linked g \<Longrightarrow> n < length g \<Longrightarrow> u \<in> set (wn_uses (g ! n)) \<Longrightarrow> u < length g"
  by (auto simp: wil_linked_def)

lemma built_ids: "wil_built g \<Longrightarrow> ids_set g"
proof (induction rule: wil_built.induct)
  case (create g kind ty nm)
  have "unat (of_nat (length g) + 1 :: u64) = length g + 1"
    using create by (subst unat_add_no_wrap) (simp_all add: unsigned_of_nat take_bit_nat_eq_self)
  then have "of_nat (length g) + 1 \<noteq> (0 :: u64)" by (metis add_is_0 one_neq_zero unat_0)
  with create show ?case by (auto simp: ids_set_def wil_node_create_def nth_append)
qed (auto simp: ids_set_def wil_set_payload_def edit_inputs nth_list_update)

section \<open>Verification\<close>

lemma verify_inputs_None:
  "wil_verify_inputs g n k slots = None \<longleftrightarrow>
     (\<forall>p\<in>fst ` set slots. \<exists>m. p = Some m \<and> n \<in> set (wn_uses (g ! m)))"
  by (induction g n k slots rule: wil_verify_inputs.induct) (auto split: option.splits)

lemma verify_uses_None:
  "wil_verify_uses g n us = None \<longleftrightarrow> (\<forall>u\<in>set us. Some n \<in> fst ` set (wn_inputs (g ! u)))"
  by (induction us) auto

lemma verify_loop_None:
  "wil_verify_loop g ns = None \<longleftrightarrow> (\<forall>n\<in>set ns. wil_verify_node g n = None)"
  by (induction ns) (auto split: option.splits)

lemma linked_mutual:
  assumes "wil_linked g" "n < length g" "m < length g"
  shows "Some m \<in> fst ` set (wn_inputs (g ! n)) \<longleftrightarrow> n \<in> set (wn_uses (g ! m))"
proof -
  have "0 < in_count g n m \<longleftrightarrow> 0 < count_list (wn_uses (g ! m)) n"
    using assms by (simp add: wil_linked_def)
  then show ?thesis by (simp add: in_count_def count_list_pos)
qed

lemma built_verifies_iff:
  assumes "wil_built g"
  shows "wil_verify_graph g = None \<longleftrightarrow> no_null_inputs g"
proof -
  have lk: "wil_linked g" and ids: "ids_set g" using assms built_linked built_ids by auto
  have "wil_verify_node g n = None \<longleftrightarrow> None \<notin> fst ` set (wn_inputs (g ! n))" if n: "n < length g" for n
  proof -
    have "(\<exists>m. p = Some m \<and> n \<in> set (wn_uses (g ! m))) \<longleftrightarrow> p \<noteq> None"
      if p: "p \<in> fst ` set (wn_inputs (g ! n))" for p
    proof (cases p)
      case (Some m)
      moreover from this have "m < length g" using linked_inputD [OF lk n] p by metis
      ultimately show ?thesis using linked_mutual [OF lk n] p by auto
    qed simp
    then have "wil_verify_inputs g n 0 (wn_inputs (g ! n)) = None \<longleftrightarrow> None \<notin> fst ` set (wn_inputs (g ! n))"
      unfolding verify_inputs_None by metis
    moreover have "Some n \<in> fst ` set (wn_inputs (g ! u))" if "u \<in> set (wn_uses (g ! n))" for u
    proof -
      have "u < length g" using lk n that by (rule linked_useD)
      then show ?thesis using linked_mutual [OF lk _ n] that by metis
    qed
    then have "wil_verify_uses g n (wn_uses (g ! n)) = None" unfolding verify_uses_None by blast
    ultimately show ?thesis using ids n
      by (cases "wil_verify_inputs g n 0 (wn_inputs (g ! n))") (simp_all add: wil_verify_node_def ids_set_def)
  qed
  then show ?thesis by (auto simp: wil_verify_graph_def verify_loop_None no_null_inputs_def)
qed

text \<open>
  C13. What the graph verifier decides. For every graph that a program builds by creating nodes and adding,
  replacing and removing inputs through the API, with pointers that are null or valid and in any order,
  \<open>wil_verify_graph\<close> accepts the graph exactly when no input is null: the use lists never get out of step
  with the inputs, and nothing else is checked, neither types nor the order or the cycles of definitions.
\<close>

theorem wil_built_verifies:
  assumes "wil_built g"
  shows "wil_verify_graph g = None \<longleftrightarrow> no_null_inputs g"
  using assms by (rule built_verifies_iff)

text \<open>An addition that reads itself, of the type of control nodes, is built and accepted.\<close>

definition cyclic_graph :: WILGraph where
  "cyclic_graph =
     (let (a, g0) = wil_node_create [] WIL_NODE_ADD WIL_TYPE_CONTROL None;
          g1 = wil_node_add_input g0 a (Some a) WIL_EDGE_DATA
      in wil_node_add_input g1 a (Some a) WIL_EDGE_DATA)"

lemma cyclic_graph_verifies:
  "wil_built cyclic_graph \<and> wn_inputs (cyclic_graph ! 0) = [(Some 0, WIL_EDGE_DATA), (Some 0, WIL_EDGE_DATA)]
     \<and> wil_verify_graph cyclic_graph = None"
proof -
  let ?g0 = "snd (wil_node_create [] WIL_NODE_ADD WIL_TYPE_CONTROL None)"
  have g0: "fst (wil_node_create [] WIL_NODE_ADD WIL_TYPE_CONTROL None) = 0" "length ?g0 = 1"
    by (simp_all add: wil_node_create_def)
  have "wil_built ?g0" by (rule wil_built.create [OF wil_built.empty]) simp
  then have built: "wil_built cyclic_graph"
    unfolding cyclic_graph_def Let_def case_prod_unfold g0(1)
    by (intro wil_built.add_input) (simp_all add: g0 edit_inputs valid_ptr_def)
  have inputs: "wn_inputs (cyclic_graph ! 0) = [(Some 0, WIL_EDGE_DATA), (Some 0, WIL_EDGE_DATA)]"
      "length cyclic_graph = 1"
    by (simp_all add: cyclic_graph_def wil_node_create_def wil_node_add_input_def wil_node_register_use_def)
  then have "no_null_inputs cyclic_graph" by (simp add: no_null_inputs_def)
  with built inputs built_verifies_iff [OF built] show ?thesis by simp
qed

text \<open>A graph computing the sum of a constant and a parameter.\<close>

definition sum_graph :: WILGraph where
  "sum_graph =
     (let (s, g0) = wil_make_start []; (p, g1) = wil_make_param g0 0 WIL_TYPE_I32 (Some ''x'');
          (c, g2) = wil_make_const_int g1 7 WIL_TYPE_I32;
          (a, g3) = wil_make_add g2 (Some p) (Some c)
      in snd (wil_make_return g3 (Some s) (Some a)))"

text \<open>Each builder function is such a sequence of steps.\<close>

lemma length_create [simp]: "length (snd (wil_node_create g kind ty nm)) = Suc (length g)"
  "fst (wil_node_create g kind ty nm) = length g"
  by (simp_all add: wil_node_create_def)

lemma built_add_inputs:
  "wil_built g \<Longrightarrow> n < length g \<Longrightarrow> \<forall>s\<in>set slots. \<exists>m<length g. fst s = Some m \<Longrightarrow>
     wil_built (wil_add_inputs g n slots) \<and> length (wil_add_inputs g n slots) = length g"
proof (induction slots arbitrary: g)
  case Nil
  then show ?case by (simp add: wil_add_inputs_def)
next
  case (Cons s slots)
  obtain p ek where s: "s = (p, ek)" by (cases s)
  then obtain m where "p = Some m" "m < length g" using Cons.prems by auto
  then have "wil_built (wil_node_add_input g n p ek)" using Cons.prems by (auto simp: valid_ptr_def intro: wil_built.add_input)
  then show ?case using Cons.IH [of "wil_node_add_input g n p ek"] Cons.prems s
    by (simp add: wil_add_inputs_def edit_inputs)
qed

lemma built_nary:
  assumes "wil_built g" and "length g + 1 < 2 ^ 64" and "\<forall>s\<in>set slots. \<exists>m<length g. fst s = Some m"
  shows "wil_built (snd (wil_build_nary g kind slots hint nm))
     \<and> fst (wil_build_nary g kind slots hint nm) = length g
     \<and> length (snd (wil_build_nary g kind slots hint nm)) = Suc (length g)"
  using built_add_inputs [OF wil_built.create [OF assms(1,2)]] assms(3)
  by (fastforce simp: wil_build_nary_def Let_def case_prod_unfold)

lemma build_binary_nary:
  "wil_build_binary g kind a b hint = wil_build_nary g kind [(a, WIL_EDGE_DATA), (b, WIL_EDGE_DATA)] hint None"
  by (simp add: wil_build_binary_def wil_build_nary_def wil_add_inputs_def Let_def)

lemma built_payload:
  assumes "wil_built g" and "length g + 1 < 2 ^ 64"
  shows "wil_built (snd (wil_set_payload (wil_node_create g kind ty nm) v))
     \<and> fst (wil_set_payload (wil_node_create g kind ty nm) v) = length g
     \<and> length (snd (wil_set_payload (wil_node_create g kind ty nm) v)) = Suc (length g)"
  using wil_built.payload [OF wil_built.create [OF assms], of "length g" kind ty nm v]
  by (simp add: wil_set_payload_def wil_node_create_def)

lemma sum_graph_built: "wil_built sum_graph \<and> length sum_graph = 5"
proof -
  have big: "n < 10 \<Longrightarrow> n + 1 < (2::nat) ^ 64" for n by simp
  define g0 where "g0 = snd (wil_make_start [])"
  have 0: "wil_make_start [] = (0, g0)" "wil_built g0" "length g0 = 1"
    using wil_built.create [OF wil_built.empty] by (simp_all add: g0_def wil_make_start_def wil_node_create_def)
  define g1 where "g1 = snd (wil_make_param g0 0 WIL_TYPE_I32 (Some ''x''))"
  have 1: "wil_make_param g0 0 WIL_TYPE_I32 (Some ''x'') = (1, g1)" "wil_built g1" "length g1 = 2"
    using built_payload [OF 0(2) big] 0(3) by (simp_all add: g1_def wil_make_param_def prod_eq_iff)
  define g2 where "g2 = snd (wil_make_const_int g1 7 WIL_TYPE_I32)"
  have 2: "wil_make_const_int g1 7 WIL_TYPE_I32 = (2, g2)" "wil_built g2" "length g2 = 3"
    using built_payload [OF 1(2) big] 1(3) by (simp_all add: g2_def wil_make_const_int_def prod_eq_iff)
  define g3 where "g3 = snd (wil_make_add g2 (Some 1) (Some 2))"
  have 3: "wil_make_add g2 (Some 1) (Some 2) = (3, g3)" "wil_built g3" "length g3 = 4"
    using built_nary [OF 2(2) big, of "[(Some 1, WIL_EDGE_DATA), (Some 2, WIL_EDGE_DATA)]"] 2(3)
    by (simp_all add: g3_def wil_make_add_def build_binary_nary prod_eq_iff)
  show ?thesis
    using built_nary [OF 3(2) big, of "[(Some 0, WIL_EDGE_CONTROL), (Some 3, WIL_EDGE_DATA)]"] 3(3)
    by (simp add: sum_graph_def 0 1 2 3 wil_make_return_def del: One_nat_def)
qed

theorem wil_built_verifies_witness:
  "wil_verify_graph cyclic_graph = None
   \<and> wil_verify_graph (wil_node_add_input sum_graph 3 None WIL_EDGE_DATA) \<noteq> None"
proof -
  let ?g = "wil_node_add_input sum_graph 3 None WIL_EDGE_DATA"
  have "wil_built ?g" using sum_graph_built by (intro wil_built.add_input) (simp_all add: valid_ptr_def)
  moreover have "\<not> no_null_inputs ?g"
    using sum_graph_built by (auto simp: no_null_inputs_def edit_inputs intro!: exI [of _ 3])
  moreover have "no_null_inputs cyclic_graph"
    using cyclic_graph_verifies built_verifies_iff by blast
  ultimately show ?thesis
    using wil_built_verifies [of ?g] wil_built_verifies [of cyclic_graph] cyclic_graph_verifies by blast
qed

section \<open>Replacing all uses\<close>

definition redirect :: "nat \<Rightarrow> nat \<Rightarrow> input_slot \<Rightarrow> input_slot" where
  "redirect old new s = (if fst s = Some old then (Some new, snd s) else s)"

lemma redirect_idem: "old \<noteq> new \<Longrightarrow> redirect old new (redirect old new s) = redirect old new s"
  by (simp add: redirect_def)

lemma redirect_none: "Some old \<notin> fst ` set xs \<Longrightarrow> map (redirect old new) xs = xs"
  by (induction xs) (auto simp: redirect_def)

lemma length_fold_replace:
  "length (foldl (\<lambda>g i. if fst (wn_inputs (g ! u) ! i) = Some old
                       then wil_node_replace_input g u i (Some new) else g) g js) = length g"
  by (induction js arbitrary: g) (simp_all add: edit_inputs)

text \<open>The inner loop redirects the inputs of one user, from left to right.\<close>

lemma replace_in_user_prefix:
  fixes g :: WILGraph and old new u j :: nat
  assumes "wil_linked g" "u < length g" "new < length g" "j \<le> length (wn_inputs (g ! u))"
  defines "h \<equiv> foldl (\<lambda>g i. if fst (wn_inputs (g ! u) ! i) = Some old
                       then wil_node_replace_input g u i (Some new) else g) g [0..<j]"
  shows "wil_linked h \<and> length h = length g
     \<and> wn_inputs (h ! u) = map (redirect old new) (take j (wn_inputs (g ! u))) @ drop j (wn_inputs (g ! u))
     \<and> (\<forall>k<length g. k \<noteq> u \<longrightarrow> wn_inputs (h ! k) = wn_inputs (g ! k))"
  using assms(4) unfolding h_def
proof (induction j)
  case 0
  then show ?case using assms(1) by simp
next
  case (Suc j)
  define h where "h = foldl (\<lambda>g i. if fst (wn_inputs (g ! u) ! i) = Some old
                       then wil_node_replace_input g u i (Some new) else g) g [0..<j]"
  let ?xs = "wn_inputs (g ! u)"
  have IH: "wil_linked h" "length h = length g"
      "wn_inputs (h ! u) = map (redirect old new) (take j ?xs) @ drop j ?xs"
      "\<And>k. k < length g \<Longrightarrow> k \<noteq> u \<Longrightarrow> wn_inputs (h ! k) = wn_inputs (g ! k)"
    using Suc by (auto simp: h_def)
  have at: "wn_inputs (h ! u) ! j = ?xs ! j" "j < length (wn_inputs (h ! u))"
    using IH(3) Suc.prems by (auto simp: nth_append)
  let ?h' = "if fst (wn_inputs (h ! u) ! j) = Some old then wil_node_replace_input h u j (Some new) else h"
  have "wil_linked ?h'"
    using IH assms by (simp add: replace_input_linked valid_ptr_def)
  moreover have "wn_inputs (?h' ! u) = (wn_inputs (h ! u))[j := redirect old new (?xs ! j)]"
    using at IH(2) assms(2) by (simp add: edit_inputs redirect_def) (metis list_update_id)
  moreover have "\<dots> = map (redirect old new) (take (Suc j) ?xs) @ drop (Suc j) ?xs"
    using Suc.prems IH(3)
    by (simp add: take_Suc_conv_app_nth list_update_append Cons_nth_drop_Suc [symmetric])
  moreover have "length ?h' = length g" "\<And>k. k < length g \<Longrightarrow> k \<noteq> u \<Longrightarrow> wn_inputs (?h' ! k) = wn_inputs (g ! k)"
    using IH assms(2) by (simp_all add: edit_inputs)
  moreover have eq: "foldl (\<lambda>g i. if fst (wn_inputs (g ! u) ! i) = Some old
      then wil_node_replace_input g u i (Some new) else g) g [0..<Suc j] = ?h'"
    by (simp add: h_def)
  ultimately show ?case unfolding eq by metis
qed

lemma replace_in_user:
  assumes "wil_linked g" "u < length g" "new < length g"
  shows "wil_linked (wil_replace_in_user old new g u)"
    and "length (wil_replace_in_user old new g u) = length g"
    and "k < length g \<Longrightarrow> wn_inputs (wil_replace_in_user old new g u ! k)
           = (if k = u then map (redirect old new) (wn_inputs (g ! k)) else wn_inputs (g ! k))"
  using replace_in_user_prefix [OF assms order_refl, of old] by (simp_all add: wil_replace_in_user_def)

lemma replace_in_users:
  assumes "old \<noteq> new" "new < length g"
  shows "wil_linked g \<Longrightarrow> set us \<subseteq> {..<length g} \<Longrightarrow>
     wil_linked (foldl (wil_replace_in_user old new) g us)
     \<and> length (foldl (wil_replace_in_user old new) g us) = length g
     \<and> (\<forall>k<length g. wn_inputs (foldl (wil_replace_in_user old new) g us ! k)
           = (if k \<in> set us then map (redirect old new) (wn_inputs (g ! k)) else wn_inputs (g ! k)))"
  using assms(2)
proof (induction us arbitrary: g)
  case Nil
  then show ?case by simp
next
  case (Cons u us)
  define h where "h = wil_replace_in_user old new g u"
  have h: "wil_linked h" "length h = length g"
    "\<And>k. k < length g \<Longrightarrow> wn_inputs (h ! k)
        = (if k = u then map (redirect old new) (wn_inputs (g ! k)) else wn_inputs (g ! k))"
    using replace_in_user [OF Cons.prems(1), where u = u and new = new and old = old]
      Cons.prems(2,3) by (simp_all add: h_def)
  then show ?case using Cons.IH [of h] Cons.prems
    by (auto simp: h_def [symmetric] redirect_idem [OF assms(1)])
qed

lemma replace_all_uses_inputs:
  assumes "wil_linked g" and "old < length g" "new < length g" and "old \<noteq> new"
    and "g' = wil_node_replace_all_uses g old new"
  shows "wil_linked g' \<and> length g' = length g \<and> wn_uses (g' ! old) = []
     \<and> (\<forall>n<length g. wn_inputs (g' ! n) = map (redirect old new) (wn_inputs (g ! n)))"
proof -
  have g': "g' = foldl (wil_replace_in_user old new) g (wn_uses (g ! old))"
    using assms(4,5) by (simp add: wil_node_replace_all_uses_def)
  have us: "set (wn_uses (g ! old)) \<subseteq> {..<length g}"
    using linked_useD [OF assms(1,2)] by auto
  note r = replace_in_users [OF assms(4,3,1) us, folded g']
  have inputs: "wn_inputs (g' ! n) = map (redirect old new) (wn_inputs (g ! n))" if n: "n < length g" for n
  proof (cases "n \<in> set (wn_uses (g ! old))")
    case True
    then show ?thesis using r n by simp
  next
    case False
    then have "Some old \<notin> fst ` set (wn_inputs (g ! n))" using linked_mutual [OF assms(1) n assms(2)] by simp
    then show ?thesis using r n False redirect_none by simp
  qed
  have "n \<notin> set (wn_uses (g' ! old))" if "n < length g'" for n
  proof -
    have "Some old \<notin> fst ` set (wn_inputs (g' ! n))"
      using inputs [of n] that r assms(4) by (auto simp: redirect_def)
    then show ?thesis using linked_mutual [of g' n old] that r assms(2) by simp
  qed
  moreover have "u < length g'" if "u \<in> set (wn_uses (g' ! old))" for u
    using linked_useD [of g' old u] that r assms(2) by simp
  ultimately have "wn_uses (g' ! old) = []" by (metis list.set_sel(1))
  then show ?thesis using r inputs by simp
qed

text \<open>
  C33. Replacing all uses of a node. In a graph whose use lists match its inputs,
  \<open>wil_node_replace_all_uses\<close> redirects every input that was the old node to the new one
  and changes no other input and no edge kind, leaves the old node without users, and keeps
  the use lists and inputs consistent, also for users with repeated inputs.
\<close>

theorem wil_replace_all_uses_correct:
  assumes "wil_linked g" and "old < length g" "new < length g" and "old \<noteq> new"
    and "g' = wil_node_replace_all_uses g old new"
  shows "wil_linked g' \<and> wn_uses (g' ! old) = []
     \<and> (\<forall>n<length g. wn_inputs (g' ! n) = map (redirect old new) (wn_inputs (g ! n)))"
  using replace_all_uses_inputs [OF assms] by simp

theorem wil_replace_all_uses_correct_witness:
  "\<exists>g'. g' = wil_node_replace_all_uses sum_graph 1 2 \<and> wil_linked g' \<and> wn_uses (g' ! 1) = []
     \<and> wn_inputs (g' ! 3) = map (redirect 1 2) (wn_inputs (sum_graph ! 3))"
  using wil_replace_all_uses_correct [OF built_linked, of sum_graph 1 2, OF _ _ _ _ refl]
  by (simp add: sum_graph_built)

section \<open>Traversals\<close>

lemma wil_inputs_of_in:
  "wil_linked g \<Longrightarrow> n < length g \<Longrightarrow> m \<in> set (wil_inputs_of g n) \<Longrightarrow> m < length g"
  by (rule linked_inputD) (force simp: wil_inputs_of_def List.map_filter_def)+

interpretation wil_dfs: graph_traversal wil_linked length wil_inputs_of wil_graph_traverse_dfs
proof unfold_locales
  fix g :: WILGraph and s assume g: "wil_linked g" and s: "s < length g"
  obtain v pre post where r: "dfs (wil_inputs_of g) [s] (replicate (length g) False) = (v, pre, post)"
    by (cases "dfs (wil_inputs_of g) [s] (replicate (length g) False)")
  have "wil_graph_traverse_dfs g s = pre"
    using r by (simp add: wil_graph_traverse_dfs_def wil_visit_depth_first_def)
  then show "distinct (wil_graph_traverse_dfs g s)"
    "set (wil_graph_traverse_dfs g s) = (edge (wil_inputs_of g))\<^sup>* `` {s}"
    using dfs_from [OF wil_inputs_of_in [OF g] s r] by simp_all
qed (rule wil_inputs_of_in)

interpretation wil_post: graph_traversal wil_linked length wil_inputs_of wil_graph_traverse_postorder
proof unfold_locales
  fix g :: WILGraph and s assume g: "wil_linked g" and s: "s < length g"
  obtain v pre post where r: "dfs (wil_inputs_of g) [s] (replicate (length g) False) = (v, pre, post)"
    by (cases "dfs (wil_inputs_of g) [s] (replicate (length g) False)")
  have "wil_graph_traverse_postorder g s = post"
    using r by (simp add: wil_graph_traverse_postorder_def wil_visit_depth_first_def)
  then show "distinct (wil_graph_traverse_postorder g s)"
    "set (wil_graph_traverse_postorder g s) = (edge (wil_inputs_of g))\<^sup>* `` {s}"
    using dfs_from [OF wil_inputs_of_in [OF g] s r] by simp_all
qed (rule wil_inputs_of_in)

interpretation wil_bfs: graph_traversal wil_linked length wil_inputs_of wil_graph_traverse_bfs
proof unfold_locales
  fix g :: WILGraph and s assume g: "wil_linked g" and s: "s < length g"
  show "distinct (wil_graph_traverse_bfs g s)"
    "set (wil_graph_traverse_bfs g s) = (edge (wil_inputs_of g))\<^sup>* `` {s}"
    using bfs_from [OF wil_inputs_of_in [OF g] s] by (simp_all add: wil_graph_traverse_bfs_def)
qed (rule wil_inputs_of_in)

interpretation wil_rpo: graph_traversal wil_linked length wil_inputs_of wil_graph_traverse_rpo
  using wil_post.trav_distinct wil_post.trav_reach wil_inputs_of_in
  by unfold_locales (simp_all add: wil_graph_traverse_rpo_def)

text \<open>
  C34. The four traversals. From any node of a consistent graph, however cyclic, the depth
  first, postorder, breadth first and reverse postorder traversals end, call the visitor
  exactly once for every node reachable through inputs and for no other, and never emit more
  nodes than the graph has, which is the size of the buffer the last one fills.
\<close>

theorem wil_traversals_visit_reachable:
  assumes "wil_linked g" and "s < length g"
    and "t \<in> {wil_graph_traverse_dfs g s, wil_graph_traverse_postorder g s,
              wil_graph_traverse_bfs g s, wil_graph_traverse_rpo g s}"
  shows "distinct t \<and> set t = (edge (wil_inputs_of g))\<^sup>* `` {s} \<and> length t \<le> length g"
  using assms(3) wil_dfs.trav_distinct [OF assms(1,2)] wil_dfs.trav_reach [OF assms(1,2)]
    wil_dfs.trav_length [OF assms(1,2)] wil_post.trav_distinct [OF assms(1,2)]
    wil_post.trav_reach [OF assms(1,2)] wil_post.trav_length [OF assms(1,2)]
    wil_bfs.trav_distinct [OF assms(1,2)] wil_bfs.trav_reach [OF assms(1,2)]
    wil_bfs.trav_length [OF assms(1,2)] wil_rpo.trav_distinct [OF assms(1,2)]
    wil_rpo.trav_reach [OF assms(1,2)] wil_rpo.trav_length [OF assms(1,2)]
  by blast

theorem wil_traversals_visit_reachable_witness:
  "distinct (wil_graph_traverse_rpo sum_graph 4)
   \<and> set (wil_graph_traverse_rpo sum_graph 4) = (edge (wil_inputs_of sum_graph))\<^sup>* `` {4}
   \<and> length (wil_graph_traverse_rpo sum_graph 4) \<le> length sum_graph"
  by (rule wil_traversals_visit_reachable) (simp_all add: sum_graph_built built_linked)

text \<open>
  C35. Postorder respects dependencies. When the inputs of nodes are acyclic, the postorder
  traversal emits every node after all of its inputs.
\<close>

theorem wil_postorder_inputs_first:
  assumes "wil_linked g" and "s < length g"
    and "\<And>a b. a < length g \<Longrightarrow> b \<in> set (wil_inputs_of g a) \<Longrightarrow> rank b < (rank a :: nat)"
    and "k < length (wil_graph_traverse_postorder g s)"
    and "m \<in> set (wil_inputs_of g (wil_graph_traverse_postorder g s ! k))"
  shows "m \<in> set (take k (wil_graph_traverse_postorder g s))"
proof -
  obtain v pre post where r: "dfs (wil_inputs_of g) [s] (replicate (length g) False) = (v, pre, post)"
    by (cases "dfs (wil_inputs_of g) [s] (replicate (length g) False)")
  then have post: "wil_graph_traverse_postorder g s = post"
    by (simp add: wil_graph_traverse_postorder_def wil_visit_depth_first_def)
  have "post ! k < length g"
    using wil_post.trav_in [OF assms(1,2)] assms(4) post nth_mem by metis
  then have "m < length g" using wil_inputs_of_in [OF assms(1)] assms(5) post by simp
  moreover have "after_succs (wil_inputs_of g) (replicate (length g) False) post"
    using r by (rule dfs_postorder_from [where rank = rank, rotated]) (rule assms(3))
  ultimately show ?thesis using assms(4,5) post by (simp add: after_succs_def)
qed

lemma sum_graph_inputs:
  "map wn_inputs sum_graph =
     [[], [], [], [(Some 1, WIL_EDGE_DATA), (Some 2, WIL_EDGE_DATA)],
      [(Some 0, WIL_EDGE_CONTROL), (Some 3, WIL_EDGE_DATA)]]"
  by (simp add: sum_graph_def wil_make_start_def wil_make_param_def wil_make_const_int_def
      wil_make_add_def wil_make_return_def wil_build_nary_def wil_build_binary_def
      wil_add_inputs_def wil_node_add_input_def wil_node_register_use_def wil_node_create_def
      wil_set_payload_def numeral_2_eq_2 numeral_3_eq_3)

lemma sum_graph_eval:
  "wil_inputs_of sum_graph 0 = []" "wil_inputs_of sum_graph (Suc 0) = []"
  "wil_inputs_of sum_graph 2 = []" "wil_inputs_of sum_graph 3 = [Suc 0, 2]"
  "wil_inputs_of sum_graph 4 = [0, 3]"
proof -
  have "wil_inputs_of sum_graph n = List.map_filter fst (map wn_inputs sum_graph ! n)" if "n < 5" for n
    using that sum_graph_built by (simp add: wil_inputs_of_def)
  then show "wil_inputs_of sum_graph 0 = []" "wil_inputs_of sum_graph (Suc 0) = []"
    "wil_inputs_of sum_graph 2 = []" "wil_inputs_of sum_graph 3 = [Suc 0, 2]"
    "wil_inputs_of sum_graph 4 = [0, 3]"
    by (simp_all add: sum_graph_inputs List.map_filter_simps)
qed

lemma sum_graph_postorder: "wil_graph_traverse_postorder sum_graph 4 = [0, 1, 2, 3, 4]"
proof -
  have "replicate (length sum_graph) False = [False, False, False, False, False]"
    using sum_graph_built by (simp add: numeral_eq_Suc)
  then show ?thesis
    by (simp add: wil_graph_traverse_postorder_def wil_visit_depth_first_def sum_graph_eval)
qed

theorem wil_postorder_inputs_first_witness:
  "2 \<in> set (take 3 (wil_graph_traverse_postorder sum_graph 4))"
proof (rule wil_postorder_inputs_first [where rank = id])
  fix a b assume "a < length sum_graph" "b \<in> set (wil_inputs_of sum_graph a)"
  moreover from this have "a \<in> {0, 1, 2, 3, 4}" using sum_graph_built by auto
  ultimately show "id b < id a" using sum_graph_eval by auto
qed (simp_all add: sum_graph_built built_linked sum_graph_postorder sum_graph_eval)

end
