(* ===== verification/Mal_List.thy ===== *)
theory Mal_List
  imports Mal_Ir
begin

text \<open>
  The doubly linked instruction list of a block at the level of its pointers, as
  \<^verbatim>\<open>mal_block_insert_end\<close>, \<^verbatim>\<open>mal_inst_remove\<close> (\<^verbatim>\<open>mal_builder.c\<close>) and \<^verbatim>\<open>mal_replace_inst\<close>
  (\<^verbatim>\<open>mrs_apply.c\<close>) edit it: a store of \<^verbatim>\<open>prev\<close>/\<^verbatim>\<open>next\<close> links and the block's \<^verbatim>\<open>first\<close> and
  \<^verbatim>\<open>last\<close>. Each operation refines the operation on lists that \<open>Mal_Ir\<close> and \<open>Mal_Mrs\<close> use.
\<close>

section \<open>The operations on pointers\<close>

record links =
  lk_prev :: "nat option"
  lk_next :: "nat option"

record inst_list =
  il_links :: "nat \<Rightarrow> links"
  il_first :: "nat option"
  il_last :: "nat option"

definition set_prev :: "nat option \<Rightarrow> nat option \<Rightarrow> inst_list \<Rightarrow> inst_list" where
  "set_prev p v b = (case p of None \<Rightarrow> b
     | Some a \<Rightarrow> b\<lparr>il_links := (il_links b)(a := (il_links b a)\<lparr>lk_prev := v\<rparr>)\<rparr>)"

definition set_next :: "nat option \<Rightarrow> nat option \<Rightarrow> inst_list \<Rightarrow> inst_list" where
  "set_next p v b = (case p of None \<Rightarrow> b
     | Some a \<Rightarrow> b\<lparr>il_links := (il_links b)(a := (il_links b a)\<lparr>lk_next := v\<rparr>)\<rparr>)"

definition ptr_insert_end :: "inst_list \<Rightarrow> nat \<Rightarrow> inst_list" where
  "ptr_insert_end b inst =
     (if il_first b = None then b\<lparr>il_first := Some inst, il_last := Some inst\<rparr>
      else (set_next (il_last b) (Some inst) (set_prev (Some inst) (il_last b) b))
             \<lparr>il_last := Some inst\<rparr>)"

definition ptr_inst_remove :: "inst_list \<Rightarrow> nat \<Rightarrow> inst_list" where
  "ptr_inst_remove b inst =
     (let p = lk_prev (il_links b inst); n = lk_next (il_links b inst);
          b1 = (if p \<noteq> None then set_next p n b else b\<lparr>il_first := n\<rparr>)
      in if n \<noteq> None then set_prev n p b1 else b1\<lparr>il_last := p\<rparr>)"

definition ptr_replace_inst :: "inst_list \<Rightarrow> nat \<Rightarrow> nat \<Rightarrow> inst_list" where
  "ptr_replace_inst b oldInst newInst =
     (let p = lk_prev (il_links b oldInst); n = lk_next (il_links b oldInst);
          b1 = set_next (Some newInst) n (set_prev (Some newInst) p b);
          b2 = (if p \<noteq> None then set_next p (Some newInst) b1 else b1\<lparr>il_first := Some newInst\<rparr>)
      in if n \<noteq> None then set_prev n (Some newInst) b2 else b2\<lparr>il_last := Some newInst\<rparr>)"

text \<open>Following \<^verbatim>\<open>next\<close> from \<^verbatim>\<open>first\<close>, as every loop over a block does; the bound is the fuel.\<close>

fun follow :: "nat \<Rightarrow> (nat \<Rightarrow> links) \<Rightarrow> nat option \<Rightarrow> nat list option" where
  "follow k h None = Some []"
| "follow 0 h (Some p) = None"
| "follow (Suc k) h (Some p) = map_option ((#) p) (follow k h (lk_next (h p)))"

section \<open>What the pointers represent\<close>

definition hd_or :: "'a list \<Rightarrow> 'a option \<Rightarrow> 'a option" where
  "hd_or xs d = (case xs of [] \<Rightarrow> d | x # _ \<Rightarrow> Some x)"

definition last_or :: "'a list \<Rightarrow> 'a option \<Rightarrow> 'a option" where
  "last_or xs d = (if xs = [] then d else Some (last xs))"

lemma hd_or_simps [simp]: "hd_or [] d = d" "hd_or (x # xs) d = Some x"
  "hd_or (xs @ ys) d = hd_or xs (hd_or ys d)"
  by (simp_all add: hd_or_def split: list.splits)

lemma hd_or_Some [simp]: "hd_or xs (Some y) \<noteq> None" "\<exists>z. hd_or xs (Some y) = Some z"
  by (simp_all add: hd_or_def split: list.splits)

lemma last_or_simps [simp]: "last_or [] d = d" "last_or (x # xs) d = last_or xs (Some x)"
  "last_or (xs @ ys) d = last_or ys (last_or xs d)"
  by (simp_all add: last_or_def)

primrec seg :: "(nat \<Rightarrow> links) \<Rightarrow> nat option \<Rightarrow> nat list \<Rightarrow> nat option \<Rightarrow> bool" where
  "seg h prv [] nxt = True"
| "seg h prv (p # ps) nxt =
     (lk_prev (h p) = prv \<and> lk_next (h p) = hd_or ps nxt \<and> seg h (Some p) ps nxt)"

definition represents :: "inst_list \<Rightarrow> nat list \<Rightarrow> bool" where
  "represents b ps \<longleftrightarrow> distinct ps \<and> il_first b = hd_or ps None \<and> il_last b = last_or ps None
     \<and> seg (il_links b) None ps None"

lemma seg_append:
  "seg h prv (xs @ ys) nxt \<longleftrightarrow> seg h prv xs (hd_or ys nxt) \<and> seg h (last_or xs prv) ys nxt"
  by (induction xs arbitrary: prv) auto

lemma seg_cong: "(\<And>p. p \<in> set ps \<Longrightarrow> h p = h' p) \<Longrightarrow> seg h prv ps nxt = seg h' prv ps nxt"
  by (induction ps arbitrary: prv) auto

lemma seg_upd_outside [simp]: "p \<notin> set ps \<Longrightarrow> seg (h(p := v)) prv ps nxt = seg h prv ps nxt"
  by (rule seg_cong) auto

text \<open>Only the ends of a segment mention its neighbours.\<close>

lemma seg_new_next:
  assumes "seg h prv (xs @ [x]) nxt" and "x \<notin> set xs"
  shows "seg (h(x := (h x)\<lparr>lk_next := nxt'\<rparr>)) prv (xs @ [x]) nxt'"
  using assms by (simp add: seg_append)

lemma seg_new_prev:
  assumes "seg h prv (x # xs) nxt" and "x \<notin> set xs"
  shows "seg (h(x := (h x)\<lparr>lk_prev := prv'\<rparr>)) prv' (x # xs) nxt"
  using assms by simp

lemma follow_seg: "seg h prv ps None \<Longrightarrow> length ps \<le> k \<Longrightarrow> follow k h (hd_or ps None) = Some ps"
proof (induction ps arbitrary: prv k)
  case (Cons p ps)
  then show ?case by (cases k) auto
qed (cases k; simp)

section \<open>Refinement of the list operations\<close>

lemma represents_insert_end:
  assumes "represents b ps" and "p \<notin> set ps" and "il_links b p = \<lparr>lk_prev = None, lk_next = None\<rparr>"
  shows "represents (ptr_insert_end b p) (ps @ [p])"
proof (cases ps rule: rev_cases)
  case Nil
  with assms show ?thesis by (auto simp: represents_def ptr_insert_end_def)
next
  case (snoc ys y)
  let ?h = "il_links b"
  from assms snoc have s: "seg ?h None (ys @ [y]) None" "y \<notin> set ys" "p \<noteq> y" "p \<notin> set ys"
    by (auto simp: represents_def)
  have "seg (?h(y := (?h y)\<lparr>lk_next := Some p\<rparr>)) None (ys @ [y]) (Some p)"
    by (rule seg_new_next [OF s(1,2)])
  with assms snoc s show ?thesis
    by (auto simp: represents_def ptr_insert_end_def set_prev_def set_next_def seg_append
        fun_upd_twist split: list.splits)
qed

lemma represents_remove:
  assumes "represents b (xs @ p # ys)"
  shows "represents (ptr_inst_remove b p) (xs @ ys)"
proof -
  let ?h = "il_links b"
  from assms have r: "il_first b = hd_or xs (Some p)" "il_last b = last_or ys (Some p)"
      "seg ?h None xs (Some p)" "lk_prev (?h p) = last_or xs None" "lk_next (?h p) = hd_or ys None"
      "seg ?h (Some p) ys None" "p \<notin> set xs" "p \<notin> set ys" "distinct xs" "distinct ys"
      "set xs \<inter> set ys = {}"
    by (auto simp: represents_def seg_append)
  show ?thesis
  proof (cases xs rule: rev_cases)
    case Nil
    with r show ?thesis
      by (cases ys) (auto simp: represents_def ptr_inst_remove_def set_prev_def)
  next
    case (snoc xs' x)
    with r show ?thesis
      by (cases ys)
        (auto simp: represents_def ptr_inst_remove_def set_prev_def set_next_def seg_append)
  qed
qed

lemma represents_replace:
  assumes "represents b (xs @ p # ys)" and "q \<notin> set (xs @ p # ys)"
  shows "represents (ptr_replace_inst b p q) (xs @ q # ys)"
proof -
  let ?h = "il_links b"
  from assms have r: "il_first b = hd_or xs (Some p)" "il_last b = last_or ys (Some p)"
      "seg ?h None xs (Some p)" "lk_prev (?h p) = last_or xs None" "lk_next (?h p) = hd_or ys None"
      "seg ?h (Some p) ys None" "p \<notin> set xs" "p \<notin> set ys" "distinct xs" "distinct ys"
      "set xs \<inter> set ys = {}" "q \<noteq> p" "q \<notin> set xs" "q \<notin> set ys"
    by (auto simp: represents_def seg_append)
  show ?thesis
  proof (cases xs rule: rev_cases)
    case Nil
    with r show ?thesis
      by (cases ys) (auto simp: represents_def ptr_replace_inst_def set_prev_def set_next_def)
  next
    case (snoc xs' x)
    with r show ?thesis
      by (cases ys)
        (auto simp: represents_def ptr_replace_inst_def set_prev_def set_next_def seg_append)
  qed
qed

text \<open>
  C22. On a block that is not empty, whose pointers represent the instruction list \<open>xs @ p # ys\<close>, removing the
  instruction \<open>p\<close> leaves pointers that represent \<open>xs @ ys\<close>, replacing it by a fresh \<open>q\<close> leaves
  \<open>xs @ q # ys\<close>, appending a fresh zeroed \<open>q\<close> leaves \<open>xs @ p # ys @ [q]\<close>; and a loop that follows
  \<^verbatim>\<open>next\<close> from \<^verbatim>\<open>first\<close> in the resulting block ends and visits exactly that list.
\<close>

theorem inst_list_refinement:
  assumes "represents b (xs @ p # ys)" and "q \<notin> set (xs @ p # ys)"
    and "il_links b q = \<lparr>lk_prev = None, lk_next = None\<rparr>"
  shows "represents (ptr_inst_remove b p) (xs @ ys)
       \<and> represents (ptr_replace_inst b p q) (xs @ q # ys)
       \<and> represents (ptr_insert_end b q) (xs @ p # ys @ [q])
       \<and> follow (length (xs @ ys)) (il_links (ptr_inst_remove b p)) (il_first (ptr_inst_remove b p))
           = Some (xs @ ys)
       \<and> follow (Suc (length (xs @ ys))) (il_links (ptr_replace_inst b p q))
           (il_first (ptr_replace_inst b p q)) = Some (xs @ q # ys)"
proof -
  have w: "follow (length ps) (il_links c) (il_first c) = Some ps" if "represents c ps" for c ps
    using that follow_seg [of "il_links c" None ps "length ps"] by (simp add: represents_def)
  from represents_insert_end [OF assms] represents_remove [OF assms(1)]
    represents_replace [OF assms(1,2)] w
  show ?thesis by fastforce
qed

definition two_inst_list :: inst_list where
  "two_inst_list = ptr_insert_end (ptr_insert_end
     \<lparr>il_links = \<lambda>_. \<lparr>lk_prev = None, lk_next = None\<rparr>, il_first = None, il_last = None\<rparr> 4) 7"

theorem inst_list_refinement_witness:
  "represents (ptr_inst_remove two_inst_list 4) [7]
   \<and> represents (ptr_replace_inst two_inst_list 4 9) [9, 7]
   \<and> represents (ptr_insert_end two_inst_list 9) [4, 7, 9]"
proof -
  have "represents two_inst_list ([] @ 4 # [7])"
    by (simp add: two_inst_list_def ptr_insert_end_def set_prev_def set_next_def represents_def)
  moreover have "il_links two_inst_list 9 = \<lparr>lk_prev = None, lk_next = None\<rparr>"
    by (simp add: two_inst_list_def ptr_insert_end_def set_prev_def set_next_def)
  ultimately show ?thesis using inst_list_refinement [of two_inst_list "[]" 4 "[7]" 9] by simp
qed

end
