(* ===== verification/Wil_Meaning.thy ===== *)
theory Wil_Meaning
  imports Ir_Meaning Wil
begin

text \<open>
  What a graph computes, from the kinds of its nodes and the language they stand for (chapter 1 of
  \<^verbatim>\<open>docs/vade-mecum\<close>). Nothing here refers to the code that lowers graphs: it is the specification
  that \<open>Mal_Lower\<close> is proved against.
\<close>

section \<open>Types and operators of nodes\<close>

definition wil_value_type :: "WILType \<Rightarrow> value_type" where
  "wil_value_type ty =
     (case ty of WIL_TYPE_I1 \<Rightarrow> IntT 1 | WIL_TYPE_I8 \<Rightarrow> IntT 8 | WIL_TYPE_I16 \<Rightarrow> IntT 16 | WIL_TYPE_I32 \<Rightarrow> IntT 32
      | WIL_TYPE_I64 \<Rightarrow> IntT 64 | WIL_TYPE_F32 \<Rightarrow> FloatT 32 | WIL_TYPE_F64 \<Rightarrow> FloatT 64
      | WIL_TYPE_PTR \<Rightarrow> PointerT | WIL_TYPE_VOID \<Rightarrow> NoT | WIL_TYPE_CONTROL \<Rightarrow> NoT)"

definition wil_class :: "WILType \<Rightarrow> num_class" where
  "wil_class ty = (case wil_value_type ty of FloatT _ \<Rightarrow> Floating | _ \<Rightarrow> Signed)"

text \<open>A cast between numbers keeps the number where the target can hold it; a truth value extends to 0 or 1.\<close>

definition cast_operator :: "value_type \<Rightarrow> value_type \<Rightarrow> operator option" where
  "cast_operator source target =
     (case (source, target) of
        (IntT a, IntT b) \<Rightarrow>
          Some (if b < a then OpTruncate Signed else OpExtend (if a = 1 then Unsigned else Signed))
      | (IntT _, FloatT _) \<Rightarrow> Some (OpToFloat Signed)
      | (FloatT _, IntT _) \<Rightarrow> Some (OpToInt Signed)
      | (FloatT a, FloatT b) \<Rightarrow> Some (if b < a then OpTruncate Floating else OpExtend Floating)
      | _ \<Rightarrow> None)"

text \<open>The inputs a node computes with, and the type of the first one.\<close>

definition data_inputs :: "WILNode \<Rightarrow> node_ptr list" where
  "data_inputs node = map fst (filter (\<lambda>e. snd e = WIL_EDGE_DATA) (wn_inputs node))"

definition first_input_type :: "WILGraph \<Rightarrow> WILNode \<Rightarrow> WILType" where
  "first_input_type g node =
     (case data_inputs node of Some j # _ \<Rightarrow> if j < length g then wn_type (g ! j) else WIL_TYPE_VOID
      | _ \<Rightarrow> WIL_TYPE_VOID)"

text \<open>Arithmetic has the class of its result, a comparison that of its operands.\<close>

definition wil_operator :: "WILGraph \<Rightarrow> WILNode \<Rightarrow> operator option" where
  "wil_operator g node =
     (let c = wil_class (wn_type node); d = wil_class (first_input_type g node) in
      case wn_kind node of
        WIL_NODE_ADD \<Rightarrow> Some (OpAdd c) | WIL_NODE_SUB \<Rightarrow> Some (OpSub c) | WIL_NODE_MUL \<Rightarrow> Some (OpMul c)
      | WIL_NODE_DIV \<Rightarrow> Some (OpDiv c) | WIL_NODE_MOD \<Rightarrow> Some (OpRem c) | WIL_NODE_NEG \<Rightarrow> Some (OpNeg c)
      | WIL_NODE_ABS \<Rightarrow> Some (OpAbs c) | WIL_NODE_AND \<Rightarrow> Some OpAnd | WIL_NODE_OR \<Rightarrow> Some OpOr
      | WIL_NODE_XOR \<Rightarrow> Some OpXor | WIL_NODE_NOT \<Rightarrow> Some OpNot | WIL_NODE_SHL \<Rightarrow> Some OpShl
      | WIL_NODE_SHR \<Rightarrow> Some (OpShr Signed) | WIL_NODE_EQ \<Rightarrow> Some (OpEq d) | WIL_NODE_NE \<Rightarrow> Some (OpNe d)
      | WIL_NODE_LT \<Rightarrow> Some (OpLt d) | WIL_NODE_LE \<Rightarrow> Some (OpLe d) | WIL_NODE_GT \<Rightarrow> Some (OpGt d)
      | WIL_NODE_GE \<Rightarrow> Some (OpGe d) | WIL_NODE_SELECT \<Rightarrow> Some OpSelect
      | WIL_NODE_CAST \<Rightarrow>
          cast_operator (wil_value_type (first_input_type g node)) (wil_value_type (wn_type node))
      | WIL_NODE_BITCAST \<Rightarrow> Some OpBitcast
      | _ \<Rightarrow> None)"

definition wil_constant :: "'v interp \<Rightarrow> WILNode \<Rightarrow> 'v option" where
  "wil_constant I node =
     (case wn_kind node of
        WIL_NODE_CONST_INT \<Rightarrow> Some (ip_int I (wn_payload node))
      | WIL_NODE_CONST_FLOAT \<Rightarrow> Some (ip_float I (wn_payload node))
      | WIL_NODE_CONST_BOOL \<Rightarrow> Some (ip_int I (if wn_payload node = 0 then 0 else 1))
      | _ \<Rightarrow> None)"

section \<open>Values\<close>

text \<open>
  An input is a constant or has the value computed for its node. Nodes are computed in creation order,
  a parameter is the argument with its index, and the graph returns the values that its return nodes
  read, in creation order.
\<close>

definition wil_input :: "'v interp \<Rightarrow> WILGraph \<Rightarrow> 'v list \<Rightarrow> node_ptr \<Rightarrow> 'v" where
  "wil_input I g vs p =
     (case p of None \<Rightarrow> ip_none I
      | Some j \<Rightarrow> (case wil_constant I (g ! j) of Some c \<Rightarrow> c | None \<Rightarrow> vs ! j))"

definition wil_node_value :: "'v interp \<Rightarrow> (nat \<Rightarrow> 'v) \<Rightarrow> WILGraph \<Rightarrow> 'v list \<Rightarrow> WILNode \<Rightarrow> 'v" where
  "wil_node_value I args g vs node =
     (if wn_kind node = WIL_NODE_PARAM then args (unat (wn_payload node))
      else case wil_constant I node of Some c \<Rightarrow> c
      | None \<Rightarrow> (case wil_operator g node of None \<Rightarrow> ip_none I
          | Some op \<Rightarrow> ip_apply I op (wil_value_type (wn_type node)) (map (wil_input I g vs) (data_inputs node))))"

primrec wil_values_upto :: "'v interp \<Rightarrow> (nat \<Rightarrow> 'v) \<Rightarrow> WILGraph \<Rightarrow> nat \<Rightarrow> 'v list" where
  "wil_values_upto I args g 0 = []"
| "wil_values_upto I args g (Suc k) =
     (let vs = wil_values_upto I args g k in vs @ [wil_node_value I args g vs (g ! k)])"

definition wil_denote :: "'v interp \<Rightarrow> (nat \<Rightarrow> 'v) \<Rightarrow> WILGraph \<Rightarrow> 'v list list" where
  "wil_denote I args g =
     map (\<lambda>node. if 1 < length (wn_inputs node)
                 then [wil_input I g (wil_values_upto I args g (length g)) (fst (wn_inputs node ! 1))] else [])
       (filter (\<lambda>node. wn_kind node = WIL_NODE_RETURN) g)"

text \<open>The values of the nodes that have one: parameters, constants and operators.\<close>

definition has_value :: "WILGraph \<Rightarrow> WILNode \<Rightarrow> bool" where
  "has_value g node \<longleftrightarrow> wn_kind node = WIL_NODE_PARAM \<or> wil_operator g node \<noteq> None
     \<or> wn_kind node \<in> {WIL_NODE_CONST_INT, WIL_NODE_CONST_FLOAT, WIL_NODE_CONST_BOOL}"

definition wil_node_values :: "'v interp \<Rightarrow> (nat \<Rightarrow> 'v) \<Rightarrow> WILGraph \<Rightarrow> 'v list" where
  "wil_node_values I args g =
     map snd (filter (\<lambda>(node, v). has_value g node) (zip g (wil_values_upto I args g (length g))))"

lemma wil_values_upto_length [simp]: "length (wil_values_upto I args g k) = k"
  by (induction k) (simp_all add: Let_def)

lemma wil_values_upto_foldl:
  "wil_values_upto I args g k = foldl (\<lambda>vs n. vs @ [wil_node_value I args g vs (g ! n)]) [] [0..<k]"
  by (induction k) (simp_all add: Let_def)

lemma wil_values_upto_nth: "j < k \<Longrightarrow>
    wil_values_upto I args g k ! j = wil_node_value I args g (wil_values_upto I args g j) (g ! j)"
  by (induction k) (auto simp: Let_def nth_append less_Suc_eq)

lemma wil_node_values_mem:
  "j < length g \<Longrightarrow> has_value g (g ! j) \<Longrightarrow>
     wil_values_upto I args g (length g) ! j \<in> set (wil_node_values I args g)"
  by (force simp: wil_node_values_def in_set_zip)

section \<open>Arithmetic graphs\<close>

text \<open>
  The graphs whose operators the lowering has instructions for. Left out are floating-point remainders
  and comparisons, absolute values of integers, every cast but a widening one from at least eight bits,
  undefined values, memory, calls and merges. Parameters are created in the order of their indices,
  truth values are 0 or 1 and edges carry data or control.
\<close>

definition lowered_operator :: "operator \<Rightarrow> bool" where
  "lowered_operator op \<longleftrightarrow>
     op \<in> {OpAdd Signed, OpAdd Floating, OpSub Signed, OpSub Floating, OpMul Signed, OpMul Floating,
       OpDiv Signed, OpDiv Floating, OpRem Signed, OpNeg Signed, OpNeg Floating, OpAbs Floating,
       OpAnd, OpOr, OpXor, OpNot, OpShl, OpShr Signed, OpEq Signed, OpNe Signed, OpLt Signed, OpLe Signed,
       OpGt Signed, OpGe Signed, OpSelect, OpExtend Signed, OpBitcast}"

definition readable :: "WILGraph \<Rightarrow> node_ptr \<Rightarrow> bool" where
  "readable g p \<longleftrightarrow>
     (case p of None \<Rightarrow> False
      | Some j \<Rightarrow> j < length g \<and> wn_kind (g ! j) \<noteq> WIL_NODE_UNDEF
          \<and> wn_category (g ! j) = wil_node_kind_category (wn_kind (g ! j))
          \<and> (wn_kind (g ! j) = WIL_NODE_CONST_BOOL \<longrightarrow> wn_payload (g ! j) = 0 \<or> wn_payload (g ! j) = 1))"

definition parameters_before :: "WILGraph \<Rightarrow> nat \<Rightarrow> nat" where
  "parameters_before g n = length (filter (\<lambda>node. wn_kind node = WIL_NODE_PARAM) (take n g))"

definition control_kind :: "WILNodeKind \<Rightarrow> bool" where
  "control_kind kind \<longleftrightarrow>
     kind \<in> {WIL_NODE_START, WIL_NODE_REGION, WIL_NODE_IF, WIL_NODE_LOOP, WIL_NODE_JUMP, WIL_NODE_PROJ}"

definition arithmetic_node :: "WILGraph \<Rightarrow> nat \<Rightarrow> bool" where
  "arithmetic_node g n \<longleftrightarrow>
     (let node = g ! n; kind = wn_kind node in
      if kind = WIL_NODE_PARAM then unat (wn_payload node) = parameters_before g n
      else if kind = WIL_NODE_RETURN then 1 < length (wn_inputs node) \<longrightarrow> readable g (fst (wn_inputs node ! 1))
      else control_kind kind \<or> wn_category node = WIL_CAT_CONSTANT \<and> wil_node_kind_category kind = WIL_CAT_CONSTANT
        \<or> pred_option lowered_operator (wil_operator g node) \<and> wil_operator g node \<noteq> None
          \<and> list_all (\<lambda>e. snd e = WIL_EDGE_CONTROL \<or> snd e = WIL_EDGE_DATA \<and> readable g (fst e)) (wn_inputs node)
          \<and> (kind = WIL_NODE_CAST \<or> kind = WIL_NODE_BITCAST \<longrightarrow>
               length (wn_inputs node) = 1 \<and> snd (wn_inputs node ! 0) = WIL_EDGE_DATA))"

definition arithmetic :: "WILGraph \<Rightarrow> bool" where
  "arithmetic g \<longleftrightarrow> list_all (arithmetic_node g) [0..<length g]"

end
