(* ===== verification/Mal_Lower.thy ===== *)
theory Mal_Lower
  imports Mal_Denote Wil_Meaning Wil_Graph
begin

text \<open>
  The lowering of a WIL graph to one MAL function, \<^verbatim>\<open>malLowerFromWIL\<close> and its helpers
  (\<^verbatim>\<open>mal/mal_ir.c\<close>): nodes are visited in creation order, parameters take the first registers,
  every value node becomes one instruction with a new register. The theory shows that the result is in
  SSA form and computes the operations that the lowering's tables name; \<open>Mal_Lower_Correct\<close> shows that
  these are the operations of the graph.
\<close>

section \<open>The lowering\<close>

definition mal_type_from_wil :: "WILType \<Rightarrow> MALType" where
  "mal_type_from_wil ty =
     (case ty of
        WIL_TYPE_I1 \<Rightarrow> MAL_TYPE_I1 | WIL_TYPE_I8 \<Rightarrow> MAL_TYPE_I8 | WIL_TYPE_I16 \<Rightarrow> MAL_TYPE_I16
      | WIL_TYPE_I32 \<Rightarrow> MAL_TYPE_I32 | WIL_TYPE_I64 \<Rightarrow> MAL_TYPE_I64 | WIL_TYPE_F32 \<Rightarrow> MAL_TYPE_F32
      | WIL_TYPE_F64 \<Rightarrow> MAL_TYPE_F64 | WIL_TYPE_PTR \<Rightarrow> MAL_TYPE_PTR
      | WIL_TYPE_VOID \<Rightarrow> MAL_TYPE_VOID | WIL_TYPE_CONTROL \<Rightarrow> MAL_TYPE_VOID)"

definition mal_opcode_from_wil :: "WILNodeKind \<Rightarrow> WILType \<Rightarrow> MALOpcode" where
  "mal_opcode_from_wil kind ty =
     (let flt = (ty = WIL_TYPE_F32 \<or> ty = WIL_TYPE_F64) in
      case kind of
        WIL_NODE_ADD \<Rightarrow> if flt then MAL_OP_FADD else MAL_OP_ADD
      | WIL_NODE_SUB \<Rightarrow> if flt then MAL_OP_FSUB else MAL_OP_SUB
      | WIL_NODE_MUL \<Rightarrow> if flt then MAL_OP_FMUL else MAL_OP_MUL
      | WIL_NODE_DIV \<Rightarrow> if flt then MAL_OP_FDIV else MAL_OP_SDIV
      | WIL_NODE_MOD \<Rightarrow> MAL_OP_SREM
      | WIL_NODE_NEG \<Rightarrow> if flt then MAL_OP_FNEG else MAL_OP_NEG
      | WIL_NODE_ABS \<Rightarrow> if flt then MAL_OP_FABS else MAL_OP_TARGET
      | WIL_NODE_AND \<Rightarrow> MAL_OP_AND | WIL_NODE_OR \<Rightarrow> MAL_OP_OR | WIL_NODE_XOR \<Rightarrow> MAL_OP_XOR
      | WIL_NODE_NOT \<Rightarrow> MAL_OP_NOT | WIL_NODE_SHL \<Rightarrow> MAL_OP_SHL | WIL_NODE_SHR \<Rightarrow> MAL_OP_ASHR
      | WIL_NODE_EQ \<Rightarrow> MAL_OP_ICMP_EQ | WIL_NODE_NE \<Rightarrow> MAL_OP_ICMP_NE
      | WIL_NODE_LT \<Rightarrow> MAL_OP_ICMP_SLT | WIL_NODE_LE \<Rightarrow> MAL_OP_ICMP_SLE
      | WIL_NODE_GT \<Rightarrow> MAL_OP_ICMP_SGT | WIL_NODE_GE \<Rightarrow> MAL_OP_ICMP_SGE
      | WIL_NODE_SELECT \<Rightarrow> MAL_OP_SELECT | WIL_NODE_CAST \<Rightarrow> MAL_OP_SEXT
      | WIL_NODE_BITCAST \<Rightarrow> MAL_OP_BITCAST | WIL_NODE_RETURN \<Rightarrow> MAL_OP_RET
      | _ \<Rightarrow> MAL_OP_TARGET)"

text \<open>The types of the parameter nodes in creation order; their number is the parameter count.\<close>

definition mal_find_param_count :: "WILGraph \<Rightarrow> MALType list" where
  "mal_find_param_count g =
     map (\<lambda>i. mal_type_from_wil (wil_node_type g (Some i)))
       (filter (\<lambda>i. wil_node_kind g (Some i) = WIL_NODE_PARAM) [0..<wil_graph_node_count g])"

definition mal_operand_from_wil_input :: "WILGraph \<Rightarrow> node_ptr \<Rightarrow> MALReg list \<Rightarrow> MALOperand" where
  "mal_operand_from_wil_input g input nodeRegs =
     (if input = None then mal_operand_imm_int 0 MAL_TYPE_I32
      else if wil_node_is_const g input then
        (case wil_node_kind g input of
           WIL_NODE_CONST_FLOAT \<Rightarrow>
             mal_operand_imm_float (wil_node_const_float g input) (mal_type_from_wil (wil_node_type g input))
         | WIL_NODE_CONST_BOOL \<Rightarrow> mal_operand_imm_int (scast (wil_node_const_bool g input)) MAL_TYPE_I1
         | _ \<Rightarrow> mal_operand_imm_int (wil_node_const_int g input) (mal_type_from_wil (wil_node_type g input)))
      else let i = unat (wil_node_id g input) in
        if i = 0 \<or> wil_graph_node_count g < i then mal_operand_imm_int 0 MAL_TYPE_I32
        else mal_operand_reg (nodeRegs ! (i - 1)) (mal_type_from_wil (wil_node_type g input)))"

text \<open>The local variables of the loop of \<open>malLowerFromWIL\<close>.\<close>

record lower_state =
  lo_fn :: MALFunction
  lo_nodeRegs :: "MALReg list"
  lo_nextId :: MALInstrId
  lo_nextParamReg :: MALReg

text \<open>Giving an instruction its id and appending it to the entry block.\<close>

definition mal_lower_emit :: "lower_state \<Rightarrow> MALInst \<Rightarrow> lower_state" where
  "mal_lower_emit st inst =
     (let fn = lo_fn st; inst1 = inst\<lparr>mi_id := lo_nextId st\<rparr> in
      st\<lparr>lo_fn := fn\<lparr>mf_blocks := (mf_blocks fn)[0 := mal_block_insert_end (mf_blocks fn ! 0) inst1]\<rparr>,
         lo_nextId := lo_nextId st + 1\<rparr>)"

definition mal_lower_set_reg :: "WILGraph \<Rightarrow> nat \<Rightarrow> MALReg \<Rightarrow> lower_state \<Rightarrow> lower_state" where
  "mal_lower_set_reg g n r st =
     st\<lparr>lo_nodeRegs := (lo_nodeRegs st)[unat (wil_node_id g (Some n)) - 1 := r]\<rparr>"

definition node_id_in_range :: "WILGraph \<Rightarrow> nat \<Rightarrow> bool" where
  "node_id_in_range g n \<longleftrightarrow>
     wil_node_id g (Some n) \<noteq> 0 \<and> unat (wil_node_id g (Some n)) \<le> wil_graph_node_count g"

definition mal_lower_return :: "WILGraph \<Rightarrow> lower_state \<Rightarrow> nat \<Rightarrow> lower_state" where
  "mal_lower_return g st n =
     (if 1 < wil_node_input_count g (Some n) then
        let input = wil_node_input g (Some n) 1;
            ty = mal_type_from_wil (wil_node_type g input);
            opd = mal_operand_from_wil_input g input (lo_nodeRegs st);
            (st1, opd1) =
              (if operand_reg opd = None then
                 let (r, fn1) = mal_new_reg (lo_fn st);
                     copy = mal_inst_add_operand (mal_inst_create MAL_OP_COPY ty r) opd
                 in (mal_lower_emit (st\<lparr>lo_fn := fn1\<rparr>) copy, mal_operand_reg r ty)
               else (st, opd));
            inst = mal_inst_add_operand (mal_inst_create MAL_OP_RET MAL_TYPE_VOID MAL_INVALID_REG) opd1
        in mal_lower_emit (st1\<lparr>lo_fn := (lo_fn st1)\<lparr>mf_retType := ty\<rparr>\<rparr>) inst
      else mal_lower_emit st (mal_inst_create MAL_OP_RET MAL_TYPE_VOID MAL_INVALID_REG))"

text \<open>The operands of a value node: the inputs, control edges left out.\<close>

definition mal_lower_inputs :: "WILGraph \<Rightarrow> nat \<Rightarrow> node_ptr list" where
  "mal_lower_inputs g n =
     map (\<lambda>i. wil_node_input g (Some n) i)
       (filter (\<lambda>i. wil_node_input_edge_kind g (Some n) i \<noteq> WIL_EDGE_CONTROL)
          [0..<wil_node_input_count g (Some n)])"

definition mal_lower_value :: "WILGraph \<Rightarrow> lower_state \<Rightarrow> nat \<Rightarrow> lower_state" where
  "mal_lower_value g st n =
     (let kind = wil_node_kind g (Some n); wty = wil_node_type g (Some n);
          (r, fn1) = mal_new_reg (lo_fn st);
          inst = mal_inst_create (mal_opcode_from_wil kind wty) (mal_type_from_wil wty) r;
          inst1 =
            (if kind = WIL_NODE_CAST \<or> kind = WIL_NODE_BITCAST then
               mal_inst_add_operand
                 (mal_inst_add_operand inst
                    (mal_operand_from_wil_input g (wil_node_input g (Some n) 0) (lo_nodeRegs st)))
                 (MAL_OPND_TYPE MAL_TYPE_VOID (mal_type_from_wil wty))
             else foldl (\<lambda>inst input.
                    mal_inst_add_operand inst (mal_operand_from_wil_input g input (lo_nodeRegs st)))
                    inst (mal_lower_inputs g n));
          st1 = mal_lower_emit (st\<lparr>lo_fn := fn1\<rparr>) inst1
      in if node_id_in_range g n then mal_lower_set_reg g n r st1 else st1)"

definition mal_lower_node :: "WILGraph \<Rightarrow> lower_state \<Rightarrow> nat \<Rightarrow> lower_state" where
  "mal_lower_node g st n =
     (let kind = wil_node_kind g (Some n) in
      if kind \<in> {WIL_NODE_START, WIL_NODE_REGION, WIL_NODE_IF, WIL_NODE_LOOP, WIL_NODE_JUMP, WIL_NODE_PROJ,
                 WIL_NODE_CONST_INT, WIL_NODE_CONST_FLOAT, WIL_NODE_CONST_BOOL, WIL_NODE_UNDEF} then st
      else if kind = WIL_NODE_PARAM then
        (if node_id_in_range g n
         then mal_lower_set_reg g n (lo_nextParamReg st) (st\<lparr>lo_nextParamReg := lo_nextParamReg st + 1\<rparr>)
         else st)
      else if kind = WIL_NODE_RETURN then mal_lower_return g st n
      else mal_lower_value g st n)"

definition mal_lower_start :: "WILGraph \<Rightarrow> MALFunction \<Rightarrow> lower_state" where
  "mal_lower_start g fn =
     (let fn1 = snd (mal_block_create fn (Some ''entry''));
          paramTypes = mal_find_param_count g;
          fn2 = foldl (\<lambda>fn _. snd (mal_new_reg fn)) (fn1\<lparr>mf_paramTypes := paramTypes\<rparr>)
                  [0..<length paramTypes]
      in \<lparr>lo_fn = fn2, lo_nodeRegs = replicate (wil_graph_node_count g) 0, lo_nextId = 0,
          lo_nextParamReg = 0\<rparr>)"

text \<open>The function is created in the module first and filled in place.\<close>

definition malLowerFromWIL :: "'mach MALModule \<Rightarrow> WILGraph \<Rightarrow> 'mach MALModule" where
  "malLowerFromWIL dst src =
     (let (f, dst1) = mal_function_create dst (Some ''wil_main'') MAL_TYPE_VOID;
          st = foldl (mal_lower_node src) (mal_lower_start src (mm_functions dst1 ! f))
                 [0..<wil_graph_node_count src]
      in dst1\<lparr>mm_functions := (mm_functions dst1)[f := lo_fn st]\<rparr>)"

section \<open>The meaning the tables give\<close>

text \<open>
  An intermediate step of the proof: the values that the lowering's own tables give the nodes of a graph,
  under an interpretation of the opcodes. The second half of the theory shows that these are the values of
  the graph (\<open>Wil_Meaning\<close>), which know nothing of the tables.
\<close>

text \<open>The value of an input: constants by their operand, other nodes by the values so far.\<close>

definition input_val :: "WILGraph \<Rightarrow> (MALOperand \<Rightarrow> 'v) \<Rightarrow> 'v list \<Rightarrow> node_ptr \<Rightarrow> 'v" where
  "input_val g imm vs input =
     (if input = None \<or> wil_node_is_const g input then imm (mal_operand_from_wil_input g input [])
      else vs ! the input)"

definition node_args :: "WILGraph \<Rightarrow> (MALOperand \<Rightarrow> 'v) \<Rightarrow> 'v list \<Rightarrow> nat \<Rightarrow> 'v list" where
  "node_args g imm vs n =
     (let kind = wil_node_kind g (Some n) in
      if kind = WIL_NODE_CAST \<or> kind = WIL_NODE_BITCAST
      then [input_val g imm vs (wil_node_input g (Some n) 0),
            imm (MAL_OPND_TYPE MAL_TYPE_VOID (mal_type_from_wil (wil_node_type g (Some n))))]
      else map (input_val g imm vs) (mal_lower_inputs g n))"

text \<open>
  Nodes are evaluated in creation order. The state is the values so far, the parameters read
  so far and the values returned so far.
\<close>

definition value_kind :: "WILNodeKind \<Rightarrow> bool" where
  "value_kind kind \<longleftrightarrow> kind \<notin> {WIL_NODE_START, WIL_NODE_REGION, WIL_NODE_IF, WIL_NODE_LOOP, WIL_NODE_JUMP,
     WIL_NODE_PROJ, WIL_NODE_CONST_INT, WIL_NODE_CONST_FLOAT, WIL_NODE_CONST_BOOL, WIL_NODE_UNDEF,
     WIL_NODE_PARAM, WIL_NODE_RETURN}"

fun table_run :: "(MALOpcode \<Rightarrow> MALType \<Rightarrow> 'v list \<Rightarrow> 'v) \<Rightarrow> (MALOperand \<Rightarrow> 'v) \<Rightarrow> (nat \<Rightarrow> 'v) \<Rightarrow>
    WILGraph \<Rightarrow> 'v list \<Rightarrow> nat \<Rightarrow> nat list \<Rightarrow> 'v list list" where
  "table_run sem imm args g vs p [] = []"
| "table_run sem imm args g vs p (n # ns) =
     (let kind = wil_node_kind g (Some n); ty = wil_node_type g (Some n) in
      if kind = WIL_NODE_RETURN then
        (if 1 < wil_node_input_count g (Some n) then [input_val g imm vs (wil_node_input g (Some n) 1)] else [])
        # table_run sem imm args g (vs @ [args 0]) p ns
      else if kind = WIL_NODE_PARAM then table_run sem imm args g (vs @ [args p]) (Suc p) ns
      else if value_kind kind then
        table_run sem imm args g
          (vs @ [sem (mal_opcode_from_wil kind ty) (mal_type_from_wil ty) (node_args g imm vs n)]) p ns
      else table_run sem imm args g (vs @ [args 0]) p ns)"

text \<open>The values of all nodes, where a node that has none counts as the argument 0.\<close>

fun table_run_values :: "(MALOpcode \<Rightarrow> MALType \<Rightarrow> 'v list \<Rightarrow> 'v) \<Rightarrow> (MALOperand \<Rightarrow> 'v) \<Rightarrow> (nat \<Rightarrow> 'v) \<Rightarrow>
    WILGraph \<Rightarrow> 'v list \<Rightarrow> nat \<Rightarrow> nat list \<Rightarrow> 'v list" where
  "table_run_values sem imm args g vs p [] = vs"
| "table_run_values sem imm args g vs p (n # ns) =
     (let kind = wil_node_kind g (Some n); ty = wil_node_type g (Some n) in
      if kind = WIL_NODE_PARAM then table_run_values sem imm args g (vs @ [args p]) (Suc p) ns
      else if value_kind kind then
        table_run_values sem imm args g
          (vs @ [sem (mal_opcode_from_wil kind ty) (mal_type_from_wil ty) (node_args g imm vs n)]) p ns
      else table_run_values sem imm args g (vs @ [args 0]) p ns)"

definition table_node_values ::
  "(MALOpcode \<Rightarrow> MALType \<Rightarrow> 'v list \<Rightarrow> 'v) \<Rightarrow> (MALOperand \<Rightarrow> 'v) \<Rightarrow> (nat \<Rightarrow> 'v) \<Rightarrow> WILGraph \<Rightarrow> 'v list" where
  "table_node_values sem imm args g = table_run_values sem imm args g [] 0 [0..<length g]"

lemma table_run_values_prefix: "set vs \<subseteq> set (table_run_values sem imm args g vs p ns)"
  by (induction sem imm args g vs p ns rule: table_run_values.induct) (auto simp: Let_def)

definition table_denote ::
  "(MALOpcode \<Rightarrow> MALType \<Rightarrow> 'v list \<Rightarrow> 'v) \<Rightarrow> (MALOperand \<Rightarrow> 'v) \<Rightarrow> (nat \<Rightarrow> 'v) \<Rightarrow> WILGraph \<Rightarrow> 'v list list" where
  "table_denote sem imm args g = table_run sem imm args g [] 0 [0..<length g]"

section \<open>Graphs the lowering handles\<close>

text \<open>
  The operands the lowering reads of a node must be constants or earlier nodes that own a
  register; a control node, a return or a node created later has none at that point.
\<close>

definition lowered_operands :: "WILGraph \<Rightarrow> nat \<Rightarrow> node_ptr list" where
  "lowered_operands g n =
     (let kind = wil_node_kind g (Some n) in
      if kind = WIL_NODE_RETURN
      then (if 1 < wil_node_input_count g (Some n) then [wil_node_input g (Some n) 1] else [])
      else if kind = WIL_NODE_CAST \<or> kind = WIL_NODE_BITCAST then [wil_node_input g (Some n) 0]
      else if value_kind kind then mal_lower_inputs g n else [])"

definition owns_register :: "WILGraph \<Rightarrow> nat \<Rightarrow> bool" where
  "owns_register g j \<longleftrightarrow>
     wil_node_kind g (Some j) = WIL_NODE_PARAM \<or> value_kind (wil_node_kind g (Some j))"

definition lowerable_input :: "WILGraph \<Rightarrow> nat \<Rightarrow> node_ptr \<Rightarrow> bool" where
  "lowerable_input g n input \<longleftrightarrow>
     (case input of None \<Rightarrow> True
      | Some j \<Rightarrow> wil_node_is_const g input \<or> j < n \<and> owns_register g j)"

definition lowerable :: "WILGraph \<Rightarrow> bool" where
  "lowerable g \<longleftrightarrow>
     length g < 2 ^ 32 - 1
     \<and> list_all (\<lambda>n. wn_id (g ! n) = of_nat n + 1 \<and> list_all (lowerable_input g n) (lowered_operands g n))
         [0..<length g]"

text \<open>The constants that the lowered code reads.\<close>

definition const_reads :: "WILGraph \<Rightarrow> (MALOperand \<Rightarrow> 'v) \<Rightarrow> 'v set" where
  "const_reads g imm = {input_val g imm [] input | input n. n < length g \<and> input \<in> set (lowered_operands g n)
      \<and> (input = None \<or> wil_node_is_const g input)}"

lemma const_readsI:
  assumes "n < length g" and "input \<in> set (lowered_operands g n)" and "input = None \<or> wil_node_is_const g input"
  shows "input_val g imm vs input \<in> const_reads g imm"
proof -
  have "input_val g imm vs input = input_val g imm [] input" using assms(3) by (simp add: input_val_def)
  with assms show ?thesis unfolding const_reads_def by blast
qed

lemma lowerableD:
  assumes "lowerable g" and "n < length g"
  shows "unat (wil_node_id g (Some n)) = Suc n" and "node_id_in_range g n"
    and "\<And>input. input \<in> set (lowered_operands g n) \<Longrightarrow> lowerable_input g n input"
proof -
  have id: "wn_id (g ! n) = of_nat (Suc n)" and len: "length g < 2 ^ 32 - 1"
    using assms by (auto simp: lowerable_def list_all_iff add.commute)
  then have u: "unat (wn_id (g ! n)) = Suc n"
    using assms(2) by (simp add: unat_of_nat_small del: of_nat_Suc)
  then show "unat (wil_node_id g (Some n)) = Suc n"
    using assms(2) by (simp add: wil_node_id_def wil_node_get_def)
  then show "node_id_in_range g n"
    using assms(2) by (auto simp: node_id_in_range_def wil_graph_node_count_def)
  fix input assume "input \<in> set (lowered_operands g n)"
  then show "lowerable_input g n input"
    using assms by (auto simp: lowerable_def list_all_iff)
qed

section \<open>One step of the lowering\<close>

definition nparams :: "WILGraph \<Rightarrow> nat \<Rightarrow> nat" where
  "nparams g k = length (filter (\<lambda>i. wil_node_kind g (Some i) = WIL_NODE_PARAM) [0..<k])"

lemma nparams_Suc:
  "nparams g (Suc k) = nparams g k + (if wil_node_kind g (Some k) = WIL_NODE_PARAM then 1 else 0)"
  by (simp add: nparams_def)

lemma nparams_0 [simp]: "nparams g 0 = 0"
  by (simp add: nparams_def)

lemma nparams_le: "k \<le> n \<Longrightarrow> nparams g n \<le> nparams g k + (n - k)"
  by (induction n) (auto simp: nparams_Suc le_Suc_eq)

lemma nparams_mono: "k \<le> n \<Longrightarrow> nparams g k \<le> nparams g n"
  by (induction n) (auto simp: nparams_Suc le_Suc_eq)

definition insts_of :: "lower_state \<Rightarrow> MALInst list" where
  "insts_of st = mb_insts (mf_blocks (lo_fn st) ! 0)"

definition regs_below :: "nat \<Rightarrow> MALReg set" where
  "regs_below q = {r. unat r < q}"

text \<open>
  The invariant after \<open>k\<close> nodes: \<open>q\<close> registers are allocated and all of them are defined, each
  node that owns a register owns a defined one, and under the environment \<open>env\<close> reached so far
  it holds the node's value.
\<close>

definition lower_inv ::
  "WILGraph \<Rightarrow> (nat \<Rightarrow> 'v) \<Rightarrow> nat \<Rightarrow> lower_state \<Rightarrow> nat \<Rightarrow> 'v list \<Rightarrow> (MALReg \<Rightarrow> 'v) \<Rightarrow> bool" where
  "lower_inv g args k st q vs env \<longleftrightarrow>
     length (mf_blocks (lo_fn st)) = 1 \<and> length (lo_nodeRegs st) = length g \<and> length vs = k
     \<and> length (mf_paramTypes (lo_fn st)) = nparams g (length g)
     \<and> lo_nextParamReg st = of_nat (nparams g k) \<and> mf_nextSSAReg (lo_fn st) = of_nat q
     \<and> nparams g (length g) \<le> q \<and> q + nparams g k \<le> nparams g (length g) + k
     \<and> (\<forall>j<k. owns_register g j \<longrightarrow>
          unat (lo_nodeRegs st ! j) < q \<and> env (lo_nodeRegs st ! j) = vs ! j)
     \<and> (\<forall>r. r < nparams g (length g) \<longrightarrow> env (of_nat r) = args r)
     \<and> ssa_form (of_nat q) (regs_below (nparams g (length g))) (insts_of st)
     \<and> regs_below (nparams g (length g)) \<union> (\<Union>i\<in>set (insts_of st). inst_defs i) = regs_below q"

lemma emit_simps [simp]:
  "lo_nodeRegs (mal_lower_emit st i) = lo_nodeRegs st"
  "lo_nextParamReg (mal_lower_emit st i) = lo_nextParamReg st"
  "mf_nextSSAReg (lo_fn (mal_lower_emit st i)) = mf_nextSSAReg (lo_fn st)"
  "mf_paramTypes (lo_fn (mal_lower_emit st i)) = mf_paramTypes (lo_fn st)"
  "length (mf_blocks (lo_fn (mal_lower_emit st i))) = length (mf_blocks (lo_fn st))"
  by (simp_all add: mal_lower_emit_def Let_def)

lemma insts_emit [simp]:
  "mf_blocks (lo_fn st) \<noteq> [] \<Longrightarrow> insts_of (mal_lower_emit st i) = insts_of st @ [i\<lparr>mi_id := lo_nextId st\<rparr>]"
  by (simp add: mal_lower_emit_def Let_def insts_of_def mal_block_insert_end_def)

lemma set_reg_simps [simp]:
  "lo_fn (mal_lower_set_reg g n r st) = lo_fn st"
  "lo_nextParamReg (mal_lower_set_reg g n r st) = lo_nextParamReg st"
  "length (lo_nodeRegs (mal_lower_set_reg g n r st)) = length (lo_nodeRegs st)"
  "insts_of (mal_lower_set_reg g n r st) = insts_of st"
  by (simp_all add: mal_lower_set_reg_def insts_of_def)

lemma set_reg_nodeRegs:
  "lowerable g \<Longrightarrow> n < length g \<Longrightarrow>
     lo_nodeRegs (mal_lower_set_reg g n r st) = (lo_nodeRegs st)[n := r]"
  by (simp add: mal_lower_set_reg_def lowerableD)

text \<open>A new register is fresh: it is no parameter, not yet defined, and not the invalid register.\<close>

lemma inv_bound:
  assumes "lowerable g" and "lower_inv g args k st q vs env" and "k \<le> length g"
  shows "q \<le> length g" and "q < 2 ^ 32 - 1" and "unat (of_nat q :: u32) = q"
    and "(of_nat q :: u32) \<noteq> - 1" and "unat (of_nat (Suc q) :: u32) = Suc q"
proof -
  show q: "q \<le> length g"
    using assms nparams_le [OF assms(3), of g] by (auto simp: lower_inv_def)
  then show lt: "q < 2 ^ 32 - 1" using assms(1) by (auto simp: lowerable_def)
  then show u: "unat (of_nat q :: u32) = q" by (simp add: unat_of_nat_small)
  show "unat (of_nat (Suc q) :: u32) = Suc q" using lt by (simp add: unat_of_nat_small del: of_nat_Suc)
  show "(of_nat q :: u32) \<noteq> - 1"
  proof
    assume "(of_nat q :: u32) = - 1"
    then have "q = unat (- 1 :: u32)" using u by simp
    then show False using lt by (simp add: unsigned_minus_1_eq_mask mask_eq_exp_minus_1)
  qed
qed

lemma ssa_form_mono: "ssa_form n S xs \<Longrightarrow> n \<le> n' \<Longrightarrow> ssa_form n' S xs"
  by (induction xs arbitrary: S) (auto intro: order_less_le_trans)

lemma ssa_emit_def:
  assumes "ssa_form (of_nat q) B xs" and "B \<union> (\<Union>i\<in>set xs. inst_defs i) = regs_below q"
    and "q < 2 ^ 32 - 1" and "(of_nat q :: u32) \<noteq> - 1"
    and "inst_uses i \<subseteq> regs_below q" and "mi_dst i = of_nat q"
  shows "ssa_form (of_nat (Suc q)) B (xs @ [i])
       \<and> B \<union> (\<Union>i\<in>set (xs @ [i]). inst_defs i) = regs_below (Suc q)"
proof -
  have u: "unat (of_nat q :: u32) = q" "unat (of_nat (Suc q) :: u32) = Suc q"
    using assms(3) by (simp_all add: unat_of_nat_small del: of_nat_Suc)
  then have le: "(of_nat q :: u32) \<le> of_nat (Suc q)" "(of_nat q :: u32) < of_nat (Suc q)"
    by (simp_all only: word_le_nat_alt word_less_nat_alt)
  have below: "r \<in> regs_below q \<Longrightarrow> r < of_nat (Suc q)" for r
    using u by (simp add: regs_below_def word_less_nat_alt del: of_nat_Suc)
  have "regs_below (Suc q) = insert (of_nat q) (regs_below q)"
    using u(1) by (auto simp: regs_below_def less_Suc_eq simp flip: word_unat_eq_iff)
  then show ?thesis
    using assms u le below ssa_form_mono [OF assms(1) le(1)]
    by (auto simp: ssa_form_append inst_defs_def regs_below_def simp del: of_nat_Suc)
qed

lemma ssa_emit_nodef:
  assumes "ssa_form (of_nat q) B xs" and "B \<union> (\<Union>i\<in>set xs. inst_defs i) = regs_below q"
    and "q < 2 ^ 32" and "inst_uses i \<subseteq> regs_below q" and "mi_dst i = - 1"
  shows "ssa_form (of_nat q) B (xs @ [i]) \<and> B \<union> (\<Union>i\<in>set (xs @ [i]). inst_defs i) = regs_below q"
proof -
  have "unat (of_nat q :: u32) = q" using assms(3) by (simp add: unat_of_nat_small)
  then have "r \<in> regs_below q \<Longrightarrow> r < of_nat q" for r by (simp add: regs_below_def word_less_nat_alt)
  then show ?thesis using assms by (auto simp: ssa_form_append inst_defs_def)
qed

lemma lowered_operand:
  assumes "lowerable g" and "lower_inv g args k st q vs env" and "k < length g"
    and "lowerable_input g k input"
  shows "operand_val imm env (mal_operand_from_wil_input g input (lo_nodeRegs st)) = input_val g imm vs input"
    and "operand_reg (mal_operand_from_wil_input g input (lo_nodeRegs st)) = Some r \<Longrightarrow> unat r < q"
proof -
  let ?opd = "mal_operand_from_wil_input g input (lo_nodeRegs st)"
  have "operand_val imm env ?opd = input_val g imm vs input
      \<and> (\<forall>r. operand_reg ?opd = Some r \<longrightarrow> unat r < q)"
  proof (cases "input = None \<or> wil_node_is_const g input")
    case True
    then have "?opd = mal_operand_from_wil_input g input []" and "operand_reg ?opd = None"
      by (auto simp: mal_operand_from_wil_input_def mal_operand_imm_int_def mal_operand_imm_float_def
          split: WILNodeKind.splits)
    with True show ?thesis by (simp add: operand_val_def input_val_def)
  next
    case False
    with assms(4) obtain j where j: "input = Some j" "j < k" "owns_register g j"
      by (auto simp: lowerable_input_def split: option.splits)
    have "unat (wil_node_id g (Some j)) = Suc j" using lowerableD(1) [of g j] assms(1,3) j by simp
    then have "?opd = MAL_OPND_REG (mal_type_from_wil (wil_node_type g (Some j))) (lo_nodeRegs st ! j)"
      using False assms(3) j
      by (simp add: mal_operand_from_wil_input_def mal_operand_reg_def wil_graph_node_count_def)
    with False j assms(2) show ?thesis
      by (simp add: operand_val_def input_val_def lower_inv_def)
  qed
  then show "operand_val imm env ?opd = input_val g imm vs input"
    and "operand_reg ?opd = Some r \<Longrightarrow> unat r < q" by auto
qed

lemma lowered_immediate:
  assumes "lowerable g" and "k < length g" and "lowerable_input g k input"
    and "operand_reg (mal_operand_from_wil_input g input regs) = None"
  shows "input = None \<or> wil_node_is_const g input"
proof (rule ccontr)
  assume no: "\<not> ?thesis"
  with assms(3) obtain j where j: "input = Some j" "j < k" by (auto simp: lowerable_input_def split: option.splits)
  with lowerableD(1) [of g j] assms(1,2) have "unat (wil_node_id g (Some j)) = Suc j" by simp
  with no assms(2,4) j show False
    by (simp add: mal_operand_from_wil_input_def mal_operand_reg_def wil_graph_node_count_def)
qed

lemma opcode_not_ret: "kind \<noteq> WIL_NODE_RETURN \<Longrightarrow> mal_opcode_from_wil kind ty \<noteq> MAL_OP_RET"
  by (cases kind) (simp_all add: mal_opcode_from_wil_def)

lemma foldl_add_operands:
  "foldl (\<lambda>inst input. mal_inst_add_operand inst (f input)) inst xs
     = inst\<lparr>mi_operands := mi_operands inst @ map f xs\<rparr>"
  by (induction xs arbitrary: inst) (simp_all add: mal_inst_add_operand_def)

text \<open>The instruction a value node becomes.\<close>

definition value_inst :: "WILGraph \<Rightarrow> lower_state \<Rightarrow> nat \<Rightarrow> MALInst" where
  "value_inst g st n =
     (let kind = wil_node_kind g (Some n); ty = wil_node_type g (Some n);
          opd = (\<lambda>input. mal_operand_from_wil_input g input (lo_nodeRegs st)) in
      \<lparr>mi_id = lo_nextId st, mi_opcode = mal_opcode_from_wil kind ty, mi_type = mal_type_from_wil ty,
       mi_dst = mf_nextSSAReg (lo_fn st),
       mi_operands =
         if kind = WIL_NODE_CAST \<or> kind = WIL_NODE_BITCAST
         then [opd (wil_node_input g (Some n) 0), MAL_OPND_TYPE MAL_TYPE_VOID (mal_type_from_wil ty)]
         else map opd (mal_lower_inputs g n)\<rparr>)"

lemma mal_lower_value_eq:
  assumes "lowerable g" and "n < length g" and "mf_blocks (lo_fn st) \<noteq> []"
  defines "st' \<equiv> mal_lower_value g st n"
  shows "insts_of st' = insts_of st @ [value_inst g st n]"
    and "lo_nodeRegs st' = (lo_nodeRegs st)[n := mf_nextSSAReg (lo_fn st)]"
    and "mf_nextSSAReg (lo_fn st') = mf_nextSSAReg (lo_fn st) + 1"
    and "lo_nextParamReg st' = lo_nextParamReg st"
    and "mf_paramTypes (lo_fn st') = mf_paramTypes (lo_fn st)"
    and "length (mf_blocks (lo_fn st')) = length (mf_blocks (lo_fn st))"
proof -
  have blk: "mf_blocks (snd (mal_new_reg fn)) = mf_blocks fn" for fn by (simp add: mal_new_reg_def)
  note defs = st'_def mal_lower_value_def Let_def mal_new_reg_def lowerableD(2) [OF assms(1,2)]
  show "insts_of st' = insts_of st @ [value_inst g st n]"
    using assms(3) unfolding defs foldl_add_operands
    by (auto simp: value_inst_def Let_def mal_inst_create_def mal_inst_add_operand_def insts_of_def
        mal_lower_emit_def mal_block_insert_end_def)
  show "lo_nodeRegs st' = (lo_nodeRegs st)[n := mf_nextSSAReg (lo_fn st)]"
    by (simp add: defs set_reg_nodeRegs [OF assms(1,2)])
qed (use assms(3) in \<open>simp_all add: st'_def mal_lower_value_def Let_def mal_new_reg_def\<close>)

lemma inst_uses_value:
  assumes "lowerable g" and "lower_inv g args k st q vs env" and "k < length g"
    and "value_kind (wil_node_kind g (Some k))"
  shows "inst_uses (value_inst g st k) \<subseteq> regs_below q"
    and "map (operand_val imm env) (mi_operands (value_inst g st k)) = node_args g imm vs k"
proof -
  have kind: "wil_node_kind g (Some k) \<noteq> WIL_NODE_RETURN" using assms(4) by (auto simp: value_kind_def)
  have ok: "lowerable_input g k input" if "input \<in> set (lowered_operands g k)" for input
    using lowerableD(3) [OF assms(1,3) that] .
  have ops: "set (lowered_operands g k) =
      (if wil_node_kind g (Some k) = WIL_NODE_CAST \<or> wil_node_kind g (Some k) = WIL_NODE_BITCAST
       then {wil_node_input g (Some k) 0} else set (mal_lower_inputs g k))"
    using kind assms(4) by (simp add: lowered_operands_def)
  note lo = lowered_operand [OF assms(1-3)]
  show "inst_uses (value_inst g st k) \<subseteq> regs_below q"
    using ok ops lo(2)
    by (auto simp: inst_uses_def value_inst_def Let_def regs_below_def split: if_splits; metis)
  show "map (operand_val imm env) (mi_operands (value_inst g st k)) = node_args g imm vs k"
    using ok ops lo(1) by (auto simp: value_inst_def node_args_def Let_def operand_val_def)
qed

text \<open>Executing one more instruction that defines the next register keeps the invariant.\<close>

lemma env_update_below:
  fixes r :: MALReg
  assumes "unat (of_nat q :: u32) = q" and "unat r < q"
  shows "(env(of_nat q := v)) r = env r"
proof (rule fun_upd_other)
  show "r \<noteq> of_nat q" using assms by (metis less_irrefl)
qed

lemma env_params:
  assumes "lowerable g" and "lower_inv g args k st q vs env" and "k \<le> length g"
    and "r < nparams g (length g)"
  shows "(env(of_nat q := v)) (of_nat r) = args r"
proof -
  note bd = inv_bound [OF assms(1-3)]
  have "nparams g (length g) \<le> q" "env (of_nat r) = args r" using assms(2,4) by (auto simp: lower_inv_def)
  moreover from this have "unat (of_nat r :: u32) < q" using assms(4) bd(2) by (simp add: unat_of_nat_small)
  ultimately show ?thesis using env_update_below [OF bd(3), of "of_nat r" env v] by metis
qed

lemma value_step:
  assumes "lowerable g" and "lower_inv g args k st q vs env" and "k < length g"
    and vk: "value_kind (wil_node_kind g (Some k))"
  shows "lower_inv g args (Suc k) (mal_lower_value g st k) (Suc q) (vs @ [v]) (env(of_nat q := v))"
proof -
  note inv = assms(2) [unfolded lower_inv_def]
  have le: "k \<le> length g" using assms(3) by simp
  note bd = inv_bound [OF assms(1,2) le]
  have ne: "mf_blocks (lo_fn st) \<noteq> []" using inv by auto
  note ve = mal_lower_value_eq [OF assms(1,3) ne]
  have dst: "mi_dst (value_inst g st k) = of_nat q" using inv by (simp add: value_inst_def Let_def)
  have ssa: "ssa_form (of_nat (Suc q)) (regs_below (nparams g (length g))) (insts_of st @ [value_inst g st k])
      \<and> regs_below (nparams g (length g)) \<union> (\<Union>i\<in>set (insts_of st @ [value_inst g st k]). inst_defs i)
          = regs_below (Suc q)"
    using inv by (intro ssa_emit_def bd(2,4) dst inst_uses_value(1) [OF assms(1-3) vk]) simp_all
  have np: "nparams g (Suc k) = nparams g k" using vk by (auto simp: nparams_Suc value_kind_def)
  have regs: "unat ((lo_nodeRegs st)[k := of_nat q] ! j) < Suc q \<and>
      (env(of_nat q := v)) ((lo_nodeRegs st)[k := of_nat q] ! j) = (vs @ [v]) ! j"
    if "j < Suc k" and "owns_register g j" for j
  proof (cases "j = k")
    case True
    then show ?thesis using inv bd(3) assms(3) by (simp add: nth_append)
  next
    case False
    then have j: "j < k" using that by simp
    then have "unat (lo_nodeRegs st ! j) < q \<and> env (lo_nodeRegs st ! j) = vs ! j"
      using inv that(2) by blast
    with j inv env_update_below [OF bd(3), of "lo_nodeRegs st ! j" env v] show ?thesis
      by (simp add: nth_append less_SucI)
  qed
  show ?thesis
    unfolding lower_inv_def ve
    using inv ssa np regs env_params [OF assms(1,2) le] by (simp add: add.commute)
qed

text \<open>Emitted instructions return, or define a valid register by a copy or by the opcode of a value node.\<close>

definition lowered_inst :: "WILGraph \<Rightarrow> MALInst \<Rightarrow> bool" where
  "lowered_inst g inst \<longleftrightarrow> mi_opcode inst = MAL_OP_RET \<or> mi_dst inst \<noteq> MAL_INVALID_REG
     \<and> (mi_opcode inst = MAL_OP_COPY \<or> (\<exists>node\<in>set g. value_kind (wn_kind node)
           \<and> mi_opcode inst = mal_opcode_from_wil (wn_kind node) (wn_type node)))"

text \<open>At most two instructions define values in valid registers and lead to another environment.\<close>

definition defines_values ::
  "WILGraph \<Rightarrow> (MALOpcode \<Rightarrow> MALType \<Rightarrow> 'v list \<Rightarrow> 'v) \<Rightarrow> (MALOperand \<Rightarrow> 'v) \<Rightarrow> (MALReg \<Rightarrow> 'v) \<Rightarrow> MALInst list
     \<Rightarrow> 'v list \<Rightarrow> (MALReg \<Rightarrow> 'v) \<Rightarrow> bool" where
  "defines_values g sem imm env new vals env' \<longleftrightarrow>
     (\<forall>rest. mal_values sem imm env (new @ rest) = vals @ mal_values sem imm env' rest)
     \<and> list_all (lowered_inst g) new \<and> length new \<le> 2"

lemma return_step:
  assumes "lowerable g" and "lower_inv g args k st q vs env" and "k < length g"
    and kind: "wil_node_kind g (Some k) = WIL_NODE_RETURN"
    and copy: "copy_moves sem"
  shows "\<exists>new q' env'. insts_of (mal_lower_return g st k) = insts_of st @ new
     \<and> lower_inv g args (Suc k) (mal_lower_return g st k) q' (vs @ [v]) env'
     \<and> (\<forall>rest. mal_run sem imm env (new @ rest) =
          (if 1 < wil_node_input_count g (Some k) then [input_val g imm vs (wil_node_input g (Some k) 1)] else [])
          # mal_run sem imm env' rest)
     \<and> (\<exists>vals. defines_values g sem imm env new vals env' \<and> set vals \<subseteq> const_reads g imm)"
proof -
  note inv = assms(2) [unfolded lower_inv_def]
  have le: "k \<le> length g" using assms(3) by simp
  note bd = inv_bound [OF assms(1,2) le]
  have ne: "mf_blocks (lo_fn st) \<noteq> []" using inv by auto
  have np: "nparams g (Suc k) = nparams g k" using kind by (simp add: nparams_Suc)
  have own: "\<not> owns_register g k" using kind by (simp add: owns_register_def value_kind_def)
  have keep: "(j < Suc k \<and> owns_register g j) = (j < k \<and> owns_register g j)" for j
    using own by (auto simp: less_Suc_eq)
  let ?input = "wil_node_input g (Some k) 1"
  let ?ty = "mal_type_from_wil (wil_node_type g ?input)"
  let ?opd = "mal_operand_from_wil_input g ?input (lo_nodeRegs st)"
  consider (none) "\<not> 1 < wil_node_input_count g (Some k)"
    | (reg) r where "1 < wil_node_input_count g (Some k)" "operand_reg ?opd = Some r"
    | (imm) "1 < wil_node_input_count g (Some k)" "operand_reg ?opd = None"
    by (metis option.exhaust)
  then show ?thesis
  proof cases
    case none
    let ?i = "(mal_inst_create MAL_OP_RET MAL_TYPE_VOID (- 1))\<lparr>mi_id := lo_nextId st\<rparr>"
    have eq: "mal_lower_return g st k = mal_lower_emit st (mal_inst_create MAL_OP_RET MAL_TYPE_VOID (- 1))"
      using none by (simp add: mal_lower_return_def)
    have ssa: "ssa_form (of_nat q) (regs_below (nparams g (length g))) (insts_of st @ [?i])
        \<and> regs_below (nparams g (length g)) \<union> (\<Union>i\<in>set (insts_of st @ [?i]). inst_defs i) = regs_below q"
      using inv bd(2) by (intro ssa_emit_nodef) (simp_all add: inst_uses_def mal_inst_create_def)
    have "lower_inv g args (Suc k) (mal_lower_return g st k) q (vs @ [v]) env"
      unfolding lower_inv_def eq using inv ne ssa np keep by (auto simp: nth_append less_Suc_eq)
    with none ne eq show ?thesis
      by (intro exI [of _ "[?i]"] exI [of _ q] exI [of _ env])
        (simp add: mal_inst_create_def defines_values_def lowered_inst_def exI [of _ "[]"])
  next
    case reg
    let ?i = "(mal_inst_add_operand (mal_inst_create MAL_OP_RET MAL_TYPE_VOID (- 1)) ?opd)\<lparr>mi_id := lo_nextId st\<rparr>"
    have eq: "insts_of (mal_lower_return g st k) = insts_of st @ [?i]"
      "mf_nextSSAReg (lo_fn (mal_lower_return g st k)) = mf_nextSSAReg (lo_fn st)"
      "mf_paramTypes (lo_fn (mal_lower_return g st k)) = mf_paramTypes (lo_fn st)"
      "length (mf_blocks (lo_fn (mal_lower_return g st k))) = length (mf_blocks (lo_fn st))"
      "lo_nodeRegs (mal_lower_return g st k) = lo_nodeRegs st"
      "lo_nextParamReg (mal_lower_return g st k) = lo_nextParamReg st"
      using reg ne by (simp_all add: mal_lower_return_def Let_def insts_of_def mal_lower_emit_def
          mal_block_insert_end_def)
    have lin: "lowerable_input g k ?input"
      using lowerableD(3) [OF assms(1,3)] kind reg(1) by (simp add: lowered_operands_def)
    note lo = lowered_operand [OF assms(1-3) lin]
    have ssa: "ssa_form (of_nat q) (regs_below (nparams g (length g))) (insts_of st @ [?i])
        \<and> regs_below (nparams g (length g)) \<union> (\<Union>i\<in>set (insts_of st @ [?i]). inst_defs i) = regs_below q"
      using inv bd(2) reg(2) lo(2)
      by (intro ssa_emit_nodef) (simp_all add: inst_uses_def mal_inst_create_def
          mal_inst_add_operand_def regs_below_def)
    have "lower_inv g args (Suc k) (mal_lower_return g st k) q (vs @ [v]) env"
      unfolding lower_inv_def eq using inv ssa np keep by (auto simp: nth_append less_Suc_eq)
    with reg lo(1) [of imm] show ?thesis unfolding eq
      by (intro exI [of _ "[?i]"] exI [of _ q] exI [of _ env])
        (simp add: mal_inst_create_def mal_inst_add_operand_def defines_values_def lowered_inst_def exI [of _ "[]"])
  next
    case imm
    let ?c = "(mal_inst_add_operand (mal_inst_create MAL_OP_COPY ?ty (of_nat q)) ?opd)\<lparr>mi_id := lo_nextId st\<rparr>"
    let ?i = "(mal_inst_add_operand (mal_inst_create MAL_OP_RET MAL_TYPE_VOID (- 1))
                (mal_operand_reg (of_nat q) ?ty))\<lparr>mi_id := lo_nextId st + 1\<rparr>"
    have eq: "insts_of (mal_lower_return g st k) = (insts_of st @ [?c]) @ [?i]"
      "mf_nextSSAReg (lo_fn (mal_lower_return g st k)) = mf_nextSSAReg (lo_fn st) + 1"
      "mf_paramTypes (lo_fn (mal_lower_return g st k)) = mf_paramTypes (lo_fn st)"
      "length (mf_blocks (lo_fn (mal_lower_return g st k))) = length (mf_blocks (lo_fn st))"
      "lo_nodeRegs (mal_lower_return g st k) = lo_nodeRegs st"
      "lo_nextParamReg (mal_lower_return g st k) = lo_nextParamReg st"
      using imm ne inv by (simp_all add: mal_lower_return_def Let_def insts_of_def mal_lower_emit_def
          mal_block_insert_end_def mal_new_reg_def)
    have lin: "lowerable_input g k ?input"
      using lowerableD(3) [OF assms(1,3)] kind imm(1) by (simp add: lowered_operands_def)
    note lo = lowered_operand [OF assms(1-3) lin]
    have ssa1: "ssa_form (of_nat (Suc q)) (regs_below (nparams g (length g))) (insts_of st @ [?c])
        \<and> regs_below (nparams g (length g)) \<union> (\<Union>i\<in>set (insts_of st @ [?c]). inst_defs i) = regs_below (Suc q)"
      using inv bd(2,4) imm(2)
      by (intro ssa_emit_def) (simp_all add: inst_uses_def mal_inst_create_def mal_inst_add_operand_def)
    let ?env = "env(of_nat q := imm ?opd)"
    have ssa: "ssa_form (of_nat (Suc q)) (regs_below (nparams g (length g))) ((insts_of st @ [?c]) @ [?i])
        \<and> regs_below (nparams g (length g)) \<union> (\<Union>i\<in>set ((insts_of st @ [?c]) @ [?i]). inst_defs i)
            = regs_below (Suc q)"
      using ssa1 bd(2,3)
      by (intro ssa_emit_nodef) (simp_all add: inst_uses_def mal_inst_create_def
          mal_inst_add_operand_def mal_operand_reg_def regs_below_def)
    have regs: "unat (lo_nodeRegs st ! j) < Suc q \<and> ?env (lo_nodeRegs st ! j) = (vs @ [v]) ! j"
      if "j < Suc k" "owns_register g j" for j
    proof -
      have j: "j < k" "unat (lo_nodeRegs st ! j) < q" "env (lo_nodeRegs st ! j) = vs ! j"
        using that inv own by (auto simp: less_Suc_eq)
      with inv env_update_below [OF bd(3) j(2), of env "imm ?opd"] show ?thesis
        by (simp add: nth_append less_SucI)
    qed
    have "lower_inv g args (Suc k) (mal_lower_return g st k) (Suc q) (vs @ [v]) ?env"
      unfolding lower_inv_def eq using inv ssa np regs env_params [OF assms(1,2) le] by (simp add: add.commute)
    moreover have opd: "imm ?opd = input_val g imm vs ?input"
      using lo(1) [of imm] imm(2) by (simp add: operand_val_def)
    have const: "imm ?opd \<in> const_reads g imm"
      unfolding opd using kind imm(1) lowered_immediate [OF assms(1,3) lin imm(2)]
      by (intro const_readsI [OF assms(3)]) (simp_all add: lowered_operands_def)
    from opd have "\<forall>rest. mal_run sem imm env ([?c, ?i] @ rest) =
          (if 1 < wil_node_input_count g (Some k) then [input_val g imm vs (wil_node_input g (Some k) 1)] else [])
          # mal_run sem imm ?env rest"
      using imm copy [unfolded copy_moves_def]
      by (simp add: mal_inst_create_def mal_inst_add_operand_def mal_operand_reg_def operand_val_def)
    moreover have "defines_values g sem imm env [?c, ?i] [imm ?opd] ?env"
      using imm copy [unfolded copy_moves_def] bd(4)
      by (simp add: defines_values_def lowered_inst_def mal_inst_create_def mal_inst_add_operand_def mal_operand_reg_def
          operand_val_def Let_def)
    moreover have "set [imm ?opd] \<subseteq> const_reads g imm" using const by simp
    moreover have "insts_of (mal_lower_return g st k) = insts_of st @ [?c, ?i]" using eq(1) by simp
    ultimately show ?thesis by blast
  qed
qed

lemma lower_step:
  assumes "lowerable g" and "lower_inv g args k st q vs env" and "k < length g"
    and copy: "copy_moves sem"
  shows "\<exists>new q' v env' out. insts_of (mal_lower_node g st k) = insts_of st @ new
     \<and> lower_inv g args (Suc k) (mal_lower_node g st k) q' (vs @ [v]) env'
     \<and> (\<forall>rest. mal_run sem imm env (new @ rest) = out @ mal_run sem imm env' rest)
     \<and> (\<forall>ns. table_run sem imm args g vs (nparams g k) (k # ns)
              = out @ table_run sem imm args g (vs @ [v]) (nparams g (Suc k)) ns)
     \<and> (\<forall>ns. table_run_values sem imm args g vs (nparams g k) (k # ns)
              = table_run_values sem imm args g (vs @ [v]) (nparams g (Suc k)) ns)
     \<and> (\<exists>vals. defines_values g sem imm env new vals env' \<and> set vals \<subseteq> insert v (const_reads g imm))"
proof -
  let ?kind = "wil_node_kind g (Some k)" and ?ty = "wil_node_type g (Some k)"
  note inv = assms(2) [unfolded lower_inv_def]
  have le: "k \<le> length g" using assms(3) by simp
  note bd = inv_bound [OF assms(1,2) le]
  consider (ret) "?kind = WIL_NODE_RETURN" | (param) "?kind = WIL_NODE_PARAM" | (vl) "value_kind ?kind"
    | (other) "?kind \<noteq> WIL_NODE_RETURN" "?kind \<noteq> WIL_NODE_PARAM" "\<not> value_kind ?kind" by blast
  then show ?thesis
  proof cases
    case ret
    have eq: "mal_lower_node g st k = mal_lower_return g st k"
      using ret by (simp add: mal_lower_node_def Let_def)
    show ?thesis unfolding eq
      using return_step [OF assms(1-3) ret copy, of "args 0" imm] ret
      by (fastforce simp: nparams_Suc Let_def value_kind_def)
  next
    case vl
    let ?v = "sem (mal_opcode_from_wil ?kind ?ty) (mal_type_from_wil ?ty) (node_args g imm vs k)"
    have k: "?kind \<noteq> WIL_NODE_RETURN" "?kind \<noteq> WIL_NODE_PARAM" using vl by (auto simp: value_kind_def)
    have eq: "mal_lower_node g st k = mal_lower_value g st k"
      using vl by (simp add: mal_lower_node_def Let_def value_kind_def)
    have ne: "mf_blocks (lo_fn st) \<noteq> []" using inv by auto
    have dst: "mi_dst (value_inst g st k) = of_nat q" "mi_type (value_inst g st k) = mal_type_from_wil ?ty"
      "mi_opcode (value_inst g st k) = mal_opcode_from_wil ?kind ?ty"
      using inv by (simp_all add: value_inst_def Let_def)
    have "g ! k \<in> set g" "?kind = wn_kind (g ! k)" "?ty = wn_type (g ! k)"
      using assms(3) by (simp_all add: wil_node_kind_def wil_node_type_def wil_node_get_def)
    with vl dst bd(4) have low: "lowered_inst g (value_inst g st k)" by (auto simp: lowered_inst_def)
    show ?thesis unfolding eq
      using value_step [OF assms(1-3) vl, of ?v] mal_lower_value_eq(1) [OF assms(1,3) ne]
        inst_uses_value(2) [OF assms(1-3) vl, of imm] dst low opcode_not_ret [OF k(1), of ?ty] k vl
      by (intro exI [of _ "[value_inst g st k]"] exI [of _ "Suc q"] exI [of _ ?v]
          exI [of _ "env(of_nat q := ?v)"] exI [of _ "[]"])
        (simp add: nparams_Suc Let_def defines_values_def lowered_inst_def exI [of _ "[?v]"] bd(4))
  next
    case param
    let ?r = "of_nat (nparams g k) :: u32"
    have eq: "mal_lower_node g st k
        = mal_lower_set_reg g k ?r (st\<lparr>lo_nextParamReg := lo_nextParamReg st + 1\<rparr>)"
      using param inv lowerableD(2) [OF assms(1,3)] by (simp add: mal_lower_node_def Let_def)
    have lt: "nparams g k < nparams g (length g)"
      using nparams_mono [of "Suc k" "length g" g] param assms(3) by (simp add: nparams_Suc)
    have u: "unat ?r = nparams g k" using lt inv bd(2) by (intro unat_of_nat_small) simp
    have "lower_inv g args (Suc k) (mal_lower_node g st k) q (vs @ [args (nparams g k)]) env"
      unfolding lower_inv_def eq set_reg_nodeRegs [OF assms(1,3)]
      using inv lt u param assms(3)
      by (auto simp: nparams_Suc nth_append nth_list_update less_Suc_eq insts_of_def)
    then show ?thesis using param
      by (intro exI [of _ "[]"] exI [of _ q] exI [of _ "args (nparams g k)"] exI [of _ env])
        (simp add: eq nparams_Suc Let_def insts_of_def defines_values_def lowered_inst_def exI [of _ "[]"])
  next
    case other
    have eq: "mal_lower_node g st k = st"
      using other by (simp add: mal_lower_node_def Let_def value_kind_def)
    have "lower_inv g args (Suc k) st q (vs @ [args 0]) env"
      unfolding lower_inv_def using inv other
      by (auto simp: nparams_Suc nth_append less_Suc_eq owns_register_def)
    then show ?thesis using other
      by (intro exI [of _ "[]"] exI [of _ q] exI [of _ "args 0"] exI [of _ env])
        (simp add: eq nparams_Suc Let_def defines_values_def lowered_inst_def exI [of _ "[]"])
  qed
qed

section \<open>The whole lowering\<close>

lemma lower_loop:
  assumes "lowerable g" and copy: "copy_moves sem"
    and "lower_inv g args k st q vs env" and "k \<le> length g"
  shows "\<exists>new q' vs' env'.
     insts_of (foldl (mal_lower_node g) st [k..<length g]) = insts_of st @ new
     \<and> lower_inv g args (length g) (foldl (mal_lower_node g) st [k..<length g]) q' vs' env'
     \<and> mal_run sem imm env new = table_run sem imm args g vs (nparams g k) [k..<length g]
     \<and> set (mal_values sem imm env new)
         \<subseteq> set (table_run_values sem imm args g vs (nparams g k) [k..<length g]) \<union> const_reads g imm
     \<and> list_all (lowered_inst g) new
     \<and> length new \<le> 2 * (length g - k)"
  using assms(3,4)
proof (induction "length g - k" arbitrary: k st q vs env)
  case 0
  then have "k = length g" by simp
  with 0 show ?case by auto
next
  case (Suc d)
  then have k: "k < length g" "d = length g - Suc k" by auto
  obtain new q' v env' out vals where st: "insts_of (mal_lower_node g st k) = insts_of st @ new"
      "lower_inv g args (Suc k) (mal_lower_node g st k) q' (vs @ [v]) env'"
      "\<And>rest. mal_run sem imm env (new @ rest) = out @ mal_run sem imm env' rest"
      "\<And>ns. table_run sem imm args g vs (nparams g k) (k # ns)
              = out @ table_run sem imm args g (vs @ [v]) (nparams g (Suc k)) ns"
      "\<And>ns. table_run_values sem imm args g vs (nparams g k) (k # ns)
              = table_run_values sem imm args g (vs @ [v]) (nparams g (Suc k)) ns"
      "defines_values g sem imm env new vals env'" "set vals \<subseteq> insert v (const_reads g imm)"
    using lower_step [OF assms(1) Suc.prems(1) k(1) copy] by metis
  let ?st = "foldl (mal_lower_node g) (mal_lower_node g st k) [Suc k..<length g]"
  let ?vals = "table_run_values sem imm args g (vs @ [v]) (nparams g (Suc k)) [Suc k..<length g]"
  obtain new1 q1 vs1 env2 where new1: "insts_of ?st = insts_of (mal_lower_node g st k) @ new1"
      "lower_inv g args (length g) ?st q1 vs1 env2"
      "mal_run sem imm env' new1 = table_run sem imm args g (vs @ [v]) (nparams g (Suc k)) [Suc k..<length g]"
      "set (mal_values sem imm env' new1) \<subseteq> set ?vals \<union> const_reads g imm"
      "list_all (lowered_inst g) new1"
      "length new1 \<le> 2 * (length g - Suc k)"
    using Suc.hyps(1) [OF k(2) st(2)] k(1) by auto
  have "v \<in> set ?vals" using table_run_values_prefix [of "vs @ [v]"] by auto
  then have "set (mal_values sem imm env (new @ new1)) \<subseteq> set ?vals \<union> const_reads g imm"
    using st(6,7) new1(4) by (auto simp: defines_values_def)
  moreover have "list_all (lowered_inst g) (new @ new1)"
    using st(6) new1(5) by (simp add: defines_values_def)
  moreover have "length (new @ new1) \<le> 2 * (length g - k)"
    using st(6) new1(6) k(1) unfolding defines_values_def length_append by arith
  ultimately show ?case
    unfolding upt_conv_Cons [OF k(1)] foldl_Cons st(4,5)
    using st(1,3) new1(1-3) by (intro exI [of _ "new @ new1"] exI [of _ q1] exI [of _ vs1] exI [of _ env2]) simp
qed

lemma new_reg_loop:
  "foldl (\<lambda>fn _. snd (mal_new_reg fn)) fn xs = fn\<lparr>mf_nextSSAReg := mf_nextSSAReg fn + of_nat (length xs)\<rparr>"
  by (induction xs arbitrary: fn) (simp_all add: mal_new_reg_def add.assoc)

lemma lower_start_inv:
  assumes "lowerable g" and "mf_blocks fn = []" and "mf_nextSSAReg fn = 0"
  shows "lower_inv g args 0 (mal_lower_start g fn) (nparams g (length g)) [] (\<lambda>r. args (unat r))"
    and "insts_of (mal_lower_start g fn) = []"
proof -
  have P: "length (mal_find_param_count g) = nparams g (length g)"
    by (simp add: mal_find_param_count_def nparams_def wil_graph_node_count_def)
  have "nparams g (length g) < 2 ^ 32"
    using nparams_le [of 0 "length g" g] assms(1) by (simp add: lowerable_def)
  then have "r < nparams g (length g) \<Longrightarrow> unat (of_nat r :: u32) = r" for r
    by (intro unat_of_nat_small) simp
  with assms P show "lower_inv g args 0 (mal_lower_start g fn) (nparams g (length g)) [] (\<lambda>r. args (unat r))"
    by (simp add: lower_inv_def mal_lower_start_def Let_def new_reg_loop mal_block_create_def
        insts_of_def wil_graph_node_count_def del: unat_of_nat)
  show "insts_of (mal_lower_start g fn) = []"
    using assms by (simp add: mal_lower_start_def Let_def new_reg_loop mal_block_create_def insts_of_def)
qed

definition lowered_fn :: "'mach MALModule \<Rightarrow> WILGraph \<Rightarrow> MALFunction" where
  "lowered_fn m g = mm_functions (malLowerFromWIL m g) ! length (mm_functions m)"

lemma lowered_fn_loop:
  assumes "lowerable g" and "copy_moves sem"
  shows "\<exists>st q vs env. lowered_fn m g = lo_fn st \<and> lower_inv g args (length g) st q vs env
     \<and> mal_run sem imm (\<lambda>r. args (unat r)) (insts_of st) = table_denote sem imm args g
     \<and> set (mal_values sem imm (\<lambda>r. args (unat r)) (insts_of st)) \<subseteq> set (table_node_values sem imm args g) \<union> const_reads g imm
     \<and> list_all (lowered_inst g) (insts_of st)
     \<and> length (insts_of st) \<le> 2 * length g"
proof -
  let ?fn0 = "\<lparr>mf_name = ''wil_main'', mf_retType = MAL_TYPE_VOID, mf_paramTypes = [], mf_blocks = [],
              mf_nextSSAReg = 0\<rparr>"
  let ?st = "foldl (mal_lower_node g) (mal_lower_start g ?fn0) [0..<length g]"
  have "lowered_fn m g = lo_fn ?st"
    by (simp add: lowered_fn_def malLowerFromWIL_def mal_function_create_def Let_def wil_graph_node_count_def)
  moreover note lower_loop [OF assms lower_start_inv(1), of ?fn0 args imm]
  ultimately show ?thesis using assms lower_start_inv(2) [of g ?fn0]
    by (fastforce simp: table_denote_def table_node_values_def nparams_def)
qed

lemma mal_insts_single:
  "length (mf_blocks (lo_fn st)) = 1 \<Longrightarrow> mal_insts (lo_fn st) = insts_of st"
  by (cases "mf_blocks (lo_fn st)") (auto simp: mal_insts_def insts_of_def)

lemma lower_ssa:
  assumes "lowerable g"
  shows "length (mm_functions (malLowerFromWIL m g)) = Suc (length (mm_functions m))
       \<and> take (length (mm_functions m)) (mm_functions (malLowerFromWIL m g)) = mm_functions m
       \<and> mal_verify_ssa (lowered_fn m g)"
proof -
  have "copy_moves (\<lambda>_ _ vs. hd vs :: nat)" by (simp add: copy_moves_def)
  then obtain st q vs and env :: "u32 \<Rightarrow> nat" where st: "lowered_fn m g = lo_fn st"
      "lower_inv g (\<lambda>_. 0) (length g) st q vs env"
    using lowered_fn_loop [OF assms] by metis
  note bd = inv_bound [OF assms st(2) order.refl]
  have "param_regs (lo_fn st) = regs_below (nparams g (length g))"
    using st(2) bd(3) by (auto simp: param_regs_def lower_inv_def regs_below_def word_less_nat_alt)
  then have "mal_verify_ssa (lowered_fn m g)"
    using st mal_insts_single [of st] by (intro verify_ssaI) (simp add: lower_inv_def)
  then show ?thesis
    by (simp add: malLowerFromWIL_def mal_function_create_def Let_def)
qed

text \<open>The registers of lowered code are below the number of nodes, and the values those of nodes and constants.\<close>

lemma lower_values:
  assumes "lowerable g" and "copy_moves sem"
  shows "set (mal_values sem imm (\<lambda>r. args (unat r)) (mal_insts (lowered_fn m g)))
       \<subseteq> set (table_node_values sem imm args g) \<union> const_reads g imm"
proof -
  obtain st q vs env where "lowered_fn m g = lo_fn st" "lower_inv g args (length g) st q vs env"
      "set (mal_values sem imm (\<lambda>r. args (unat r)) (insts_of st)) \<subseteq> set (table_node_values sem imm args g) \<union> const_reads g imm"
    using lowered_fn_loop [OF assms, of m args imm] by blast
  then show ?thesis by (simp add: mal_insts_single lower_inv_def)
qed

lemma lower_registers:
  assumes "lowerable g" and "inst \<in> set (mal_insts (lowered_fn m g))"
  shows "r \<in> inst_uses inst \<Longrightarrow> unat r < length g"
    and "mi_opcode inst = MAL_OP_RET \<or> unat (mi_dst inst) < length g"
    and "lowered_inst g inst"
proof -
  have copy: "copy_moves (\<lambda>_ _ vs. hd vs :: nat)" by (simp add: copy_moves_def)
  obtain st q vs and env :: "u32 \<Rightarrow> nat" where st: "lowered_fn m g = lo_fn st"
      "lower_inv g (\<lambda>_. 0) (length g) st q vs env"
      "list_all (lowered_inst g) (insts_of st)"
    using lowered_fn_loop [OF assms(1) copy, of m "\<lambda>_. 0" "\<lambda>_. 0"] by blast
  note bd = inv_bound [OF assms(1) st(2) order.refl]
  have insts: "mal_insts (lowered_fn m g) = insts_of st"
    using st(1,2) by (simp add: mal_insts_single lower_inv_def)
  then obtain k where k: "k < length (insts_of st)" "inst = insts_of st ! k"
    using assms(2) by (auto simp: in_set_conv_nth)
  have ssa: "ssa_form (of_nat q) (regs_below (nparams g (length g))) (insts_of st)"
    using st(2) by (simp add: lower_inv_def)
  have em: "lowered_inst g inst" using k st(3) by (simp add: list_all_length)
  show "r \<in> inst_uses inst \<Longrightarrow> unat r < length g"
    using ssa k bd(1,3) by (fastforce simp: ssa_form_def word_less_nat_alt)
  show "mi_opcode inst = MAL_OP_RET \<or> unat (mi_dst inst) < length g"
    using ssa k bd(1,3) em by (fastforce simp: ssa_form_def word_less_nat_alt lowered_inst_def)
  show "lowered_inst g inst" by (rule em)
qed

lemma lower_single_block:
  assumes "lowerable g"
  shows "length (mf_blocks (lowered_fn m g)) = 1" and "length (mal_insts (lowered_fn m g)) \<le> 2 * length g"
proof -
  have copy: "copy_moves (\<lambda>_ _ vs. hd vs :: nat)" by (simp add: copy_moves_def)
  obtain st q vs and env :: "u32 \<Rightarrow> nat" where st: "lowered_fn m g = lo_fn st"
      "lower_inv g (\<lambda>_. 0) (length g) st q vs env" "length (insts_of st) \<le> 2 * length g"
    using lowered_fn_loop [OF assms copy, of m "\<lambda>_. 0" "\<lambda>_. 0"] by blast
  then show "length (mf_blocks (lowered_fn m g)) = 1" by (simp add: lower_inv_def)
  with st show "length (mal_insts (lowered_fn m g)) \<le> 2 * length g" by (simp add: mal_insts_single)
qed

text \<open>
  Lowering a graph in which every operand read by a value or return node is a constant or an
  earlier node that owns a register adds exactly one function to the module, and that function
  passes \<^verbatim>\<open>mal_verify_ssa\<close>: every register is defined once, before its uses.
\<close>

theorem malLowerFromWIL_ssa:
  assumes "lowerable g"
  shows "length (mm_functions (malLowerFromWIL m g)) = Suc (length (mm_functions m))
       \<and> take (length (mm_functions m)) (mm_functions (malLowerFromWIL m g)) = mm_functions m
       \<and> mal_verify_ssa (lowered_fn m g)"
  using assms by (rule lower_ssa)

text \<open>The lowered code computes what the tables say.\<close>

lemma lower_denotes:
  assumes "lowerable g" and "copy_moves sem"
  shows "mal_denote sem imm args (lowered_fn m g) = table_denote sem imm args g"
proof -
  obtain st q vs env where st: "lowered_fn m g = lo_fn st" "lower_inv g args (length g) st q vs env"
      "mal_run sem imm (\<lambda>r. args (unat r)) (insts_of st) = table_denote sem imm args g"
    using lowered_fn_loop [OF assms, of m args imm] by blast
  then show ?thesis by (simp add: mal_denote_def mal_insts_single lower_inv_def)
qed

lemmas wil_builder_defs = wil_make_start_def wil_make_param_def wil_make_loop_def wil_make_phi_def
  wil_make_const_int_def wil_make_add_def wil_make_return_def wil_build_nary_def wil_build_binary_def
  wil_add_inputs_def wil_node_add_input_def wil_node_register_use_def wil_set_payload_def
  wil_node_create_def wil_node_kind_default_type_def wil_node_kind_category_def

lemmas wil_node_defs = wil_node_type_def wil_node_get_def wil_node_kind_def wil_node_is_const_def
  wil_node_input_def wil_node_input_count_def wil_node_input_edge_kind_def wil_node_id_def
  wil_node_const_int_def wil_graph_node_count_def

lemma sum_graph_nodes:
  "sum_graph =
     [\<lparr>wn_id = 1, wn_kind = WIL_NODE_START, wn_category = WIL_CAT_CONTROL, wn_type = WIL_TYPE_CONTROL,
       wn_name = Some ''start'', wn_inputs = [], wn_uses = [4], wn_payload = 0, wn_removed = False\<rparr>,
      \<lparr>wn_id = 2, wn_kind = WIL_NODE_PARAM, wn_category = WIL_CAT_PARAMETER, wn_type = WIL_TYPE_I32,
       wn_name = Some ''x'', wn_inputs = [], wn_uses = [3], wn_payload = 0, wn_removed = False\<rparr>,
      \<lparr>wn_id = 3, wn_kind = WIL_NODE_CONST_INT, wn_category = WIL_CAT_CONSTANT, wn_type = WIL_TYPE_I32,
       wn_name = None, wn_inputs = [], wn_uses = [3], wn_payload = 7, wn_removed = False\<rparr>,
      \<lparr>wn_id = 4, wn_kind = WIL_NODE_ADD, wn_category = WIL_CAT_VALUE, wn_type = WIL_TYPE_I32,
       wn_name = None, wn_inputs = [(Some 1, WIL_EDGE_DATA), (Some 2, WIL_EDGE_DATA)], wn_uses = [4],
       wn_payload = 0, wn_removed = False\<rparr>,
      \<lparr>wn_id = 5, wn_kind = WIL_NODE_RETURN, wn_category = WIL_CAT_CONTROL, wn_type = WIL_TYPE_CONTROL,
       wn_name = None, wn_inputs = [(Some 0, WIL_EDGE_CONTROL), (Some 3, WIL_EDGE_DATA)], wn_uses = [],
       wn_payload = 0, wn_removed = False\<rparr>]"
  by (simp add: sum_graph_def wil_builder_defs wil_node_defs Let_def)

lemma upt_5: "[0..<5] = [0, 1, 2, 3, 4 :: nat]"
  by (simp add: upt_rec)

lemma sum_graph_lowerable: "lowerable sum_graph"
  unfolding lowerable_def sum_graph_nodes
  by (simp add: upt_5 lowered_operands_def lowerable_input_def owns_register_def value_kind_def
      mal_lower_inputs_def wil_node_defs Let_def upt_rec)

theorem malLowerFromWIL_ssa_witness:
  "mal_verify_ssa (lowered_fn (mal_module_create None :: unit MALModule) sum_graph)"
  using malLowerFromWIL_ssa [OF sum_graph_lowerable, of "mal_module_create None :: unit MALModule"] by simp

section \<open>A back edge\<close>

text \<open>A counting loop: \<open>i = phi (x, i + 1)\<close>, whose second input is added once the sum exists.\<close>

definition loop_graph :: WILGraph where
  "loop_graph =
     (let (s, g0) = wil_make_start []; (p, g1) = wil_make_param g0 0 WIL_TYPE_I32 None;
          (l, g2) = wil_make_loop g1 (Some s);
          (i, g3) = wil_make_phi g2 (Some l) [Some p];
          (c, g4) = wil_make_const_int g3 1 WIL_TYPE_I32;
          (a, g5) = wil_make_add g4 (Some i) (Some c)
      in wil_node_add_input g5 i (Some a) WIL_EDGE_DATA)"

lemma loop_graph_nodes:
  "loop_graph =
     [\<lparr>wn_id = 1, wn_kind = WIL_NODE_START, wn_category = WIL_CAT_CONTROL, wn_type = WIL_TYPE_CONTROL,
       wn_name = Some ''start'', wn_inputs = [], wn_uses = [2], wn_payload = 0, wn_removed = False\<rparr>,
      \<lparr>wn_id = 2, wn_kind = WIL_NODE_PARAM, wn_category = WIL_CAT_PARAMETER, wn_type = WIL_TYPE_I32,
       wn_name = None, wn_inputs = [], wn_uses = [3], wn_payload = 0, wn_removed = False\<rparr>,
      \<lparr>wn_id = 3, wn_kind = WIL_NODE_LOOP, wn_category = WIL_CAT_CONTROL, wn_type = WIL_TYPE_CONTROL,
       wn_name = None, wn_inputs = [(Some 0, WIL_EDGE_CONTROL)], wn_uses = [3], wn_payload = 0,
       wn_removed = False\<rparr>,
      \<lparr>wn_id = 4, wn_kind = WIL_NODE_PHI, wn_category = WIL_CAT_VALUE, wn_type = WIL_TYPE_I32,
       wn_name = None,
       wn_inputs = [(Some 2, WIL_EDGE_CONTROL), (Some 1, WIL_EDGE_DATA), (Some 5, WIL_EDGE_DATA)],
       wn_uses = [5], wn_payload = 0, wn_removed = False\<rparr>,
      \<lparr>wn_id = 5, wn_kind = WIL_NODE_CONST_INT, wn_category = WIL_CAT_CONSTANT, wn_type = WIL_TYPE_I32,
       wn_name = None, wn_inputs = [], wn_uses = [5], wn_payload = 1, wn_removed = False\<rparr>,
      \<lparr>wn_id = 6, wn_kind = WIL_NODE_ADD, wn_category = WIL_CAT_VALUE, wn_type = WIL_TYPE_I32,
       wn_name = None, wn_inputs = [(Some 3, WIL_EDGE_DATA), (Some 4, WIL_EDGE_DATA)], wn_uses = [3],
       wn_payload = 0, wn_removed = False\<rparr>]"
  by (simp add: loop_graph_def wil_builder_defs wil_node_defs Let_def)

lemma upt_6: "[0..<6] = [0, 1, 2, 3, 4, 5 :: nat]"
  by (simp add: upt_rec)

lemmas mal_lower_defs = mal_lower_node_def mal_lower_value_def mal_lower_return_def mal_lower_start_def
  mal_lower_emit_def mal_lower_set_reg_def node_id_in_range_def mal_new_reg_def mal_block_create_def
  mal_inst_create_def mal_inst_add_operand_def mal_block_insert_end_def mal_lower_inputs_def
  mal_operand_from_wil_input_def mal_operand_imm_int_def mal_operand_reg_def mal_find_param_count_def
  mal_opcode_from_wil_def mal_type_from_wil_def

text \<open>
  C38. A back edge is lost: the graph of a counting loop passes the WIL verifier, and its \<open>phi\<close>
  is lowered with register 0, the loop's parameter, in place of the register of the sum it should
  read from the previous iteration, because registers of later nodes are still 0 when the \<open>phi\<close> is
  lowered. The SSA verifier accepts the result.
\<close>

theorem loop_phi_reads_register_0:
  "wil_verify_graph loop_graph = None
   \<and> map (\<lambda>i. (mi_opcode i, mi_dst i, mi_operands i))
       (mal_insts (lowered_fn (mal_module_create None :: unit MALModule) loop_graph))
     = [(MAL_OP_TARGET, 1, [MAL_OPND_REG MAL_TYPE_I32 0, MAL_OPND_REG MAL_TYPE_I32 0]),
        (MAL_OP_ADD, 2, [MAL_OPND_REG MAL_TYPE_I32 1, MAL_OPND_IMM_INT MAL_TYPE_I32 1])]
   \<and> mal_verify_ssa (lowered_fn (mal_module_create None :: unit MALModule) loop_graph)"
proof -
  have "wil_verify_graph loop_graph = None"
    unfolding wil_verify_graph_def loop_graph_nodes
    by (simp add: upt_6 wil_verify_node_def)
  moreover
  let ?fn = "lowered_fn (mal_module_create None :: unit MALModule) loop_graph"
  have blocks: "map mb_insts (mf_blocks ?fn) =
     [[\<lparr>mi_id = 0, mi_opcode = MAL_OP_TARGET, mi_type = MAL_TYPE_I32, mi_dst = 1,
        mi_operands = [MAL_OPND_REG MAL_TYPE_I32 0, MAL_OPND_REG MAL_TYPE_I32 0]\<rparr>,
       \<lparr>mi_id = 1, mi_opcode = MAL_OP_ADD, mi_type = MAL_TYPE_I32, mi_dst = 2,
        mi_operands = [MAL_OPND_REG MAL_TYPE_I32 1, MAL_OPND_IMM_INT MAL_TYPE_I32 1]\<rparr>]]"
    and regs: "mf_nextSSAReg ?fn = 3" and params: "length (mf_paramTypes ?fn) = 1"
    unfolding lowered_fn_def malLowerFromWIL_def loop_graph_nodes
    by (simp_all add: mal_function_create_def mal_module_create_def mal_lower_defs wil_node_defs
        Let_def upt_6 upt_rec)
  have insts: "mal_insts ?fn =
     [\<lparr>mi_id = 0, mi_opcode = MAL_OP_TARGET, mi_type = MAL_TYPE_I32, mi_dst = 1,
        mi_operands = [MAL_OPND_REG MAL_TYPE_I32 0, MAL_OPND_REG MAL_TYPE_I32 0]\<rparr>,
      \<lparr>mi_id = 1, mi_opcode = MAL_OP_ADD, mi_type = MAL_TYPE_I32, mi_dst = 2,
        mi_operands = [MAL_OPND_REG MAL_TYPE_I32 1, MAL_OPND_IMM_INT MAL_TYPE_I32 1]\<rparr>]"
    unfolding mal_insts_def blocks by simp
  then have "mal_verify_ssa ?fn"
    using regs params by (intro verify_ssaI) (simp add: param_regs_def inst_uses_def inst_defs_def)
  ultimately show ?thesis using insts by simp
qed

end
