(* ===== verification/Mal_Lower_Correct.thy ===== *)
theory Mal_Lower_Correct
  imports Mal_Lower
begin

text \<open>
  The lowering computes what the graph means: the tables of \<^verbatim>\<open>mal/mal_ir.c\<close> choose for every node the
  opcode of its operator, and constants keep their values.
\<close>

section \<open>The tables name the operators of the nodes\<close>

lemma lowered_type: "mal_value_type (mal_type_from_wil ty) = wil_value_type ty"
  by (cases ty) (simp_all add: mal_value_type_def mal_type_from_wil_def wil_value_type_def)

lemma wil_class_floating: "wil_class ty = (if ty = WIL_TYPE_F32 \<or> ty = WIL_TYPE_F64 then Floating else Signed)"
  by (cases ty) (simp_all add: wil_class_def wil_value_type_def)

lemma cast_lowered:
  "cast_operator source target = Some op \<Longrightarrow> lowered_operator op \<Longrightarrow> op = OpExtend Signed"
  by (auto simp: cast_operator_def lowered_operator_def split: value_type.splits if_splits)

lemma lowered_opcode:
  assumes "wil_operator g node = Some op" and "lowered_operator op"
  defines "opcode \<equiv> mal_opcode_from_wil (wn_kind node) (wn_type node)"
  shows "map_of mal_operators opcode = Some op" and "opcode \<noteq> MAL_OP_COPY"
    and "is_conversion op \<longleftrightarrow> wn_kind node = WIL_NODE_CAST \<or> wn_kind node = WIL_NODE_BITCAST"
proof -
  have "map_of mal_operators opcode = Some op \<and> opcode \<noteq> MAL_OP_COPY
      \<and> (is_conversion op \<longleftrightarrow> wn_kind node = WIL_NODE_CAST \<or> wn_kind node = WIL_NODE_BITCAST)"
  proof (cases "wn_kind node = WIL_NODE_CAST")
    case True
    with assms(1) cast_lowered [OF _ assms(2)] have "op = OpExtend Signed"
      by (simp add: wil_operator_def Let_def)
    with True show ?thesis by (simp add: opcode_def mal_opcode_from_wil_def mal_operators_def)
  next
    case False
    with assms(1,2) show ?thesis
      unfolding opcode_def wil_operator_def Let_def wil_class_floating [of "wn_type node"]
      by (cases "wn_kind node")
        (auto simp: mal_opcode_from_wil_def mal_operators_def lowered_operator_def split: if_splits)
  qed
  then show "map_of mal_operators opcode = Some op" "opcode \<noteq> MAL_OP_COPY"
    "is_conversion op \<longleftrightarrow> wn_kind node = WIL_NODE_CAST \<or> wn_kind node = WIL_NODE_BITCAST" by auto
qed

section \<open>Inputs have the values of the graph\<close>

lemma node_fields:
  assumes "n < length g"
  shows "wil_node_kind g (Some n) = wn_kind (g ! n)" and "wil_node_type g (Some n) = wn_type (g ! n)"
    and "wil_node_is_const g (Some n) \<longleftrightarrow> wn_category (g ! n) = WIL_CAT_CONSTANT"
    and "wil_node_input_count g (Some n) = length (wn_inputs (g ! n))"
    and "i < length (wn_inputs (g ! n)) \<Longrightarrow> wil_node_input g (Some n) i = fst (wn_inputs (g ! n) ! i)"
    and "i < length (wn_inputs (g ! n)) \<Longrightarrow> wil_node_input_edge_kind g (Some n) i = snd (wn_inputs (g ! n) ! i)"
  using assms
  by (simp_all add: wil_node_kind_def wil_node_type_def wil_node_is_const_def wil_node_input_count_def
      wil_node_input_def wil_node_input_edge_kind_def wil_node_get_def)

lemma readable_constant:
  assumes "readable g (Some j)"
  shows "wil_node_is_const g (Some j) \<longleftrightarrow> wil_constant I (g ! j) \<noteq> None"
  using assms
  by (cases "wn_kind (g ! j)")
    (auto simp: readable_def node_fields wil_constant_def wil_node_kind_category_def)

lemma constant_operand:
  assumes "readable g (Some j)" and "wil_constant I (g ! j) = Some c"
  shows "mal_imm I (mal_operand_from_wil_input g (Some j) regs) = c"
proof -
  have j: "j < length g" using assms(1) by (simp add: readable_def)
  have "wil_node_is_const g (Some j)" using readable_constant [OF assms(1), of I] assms(2) by auto
  then show ?thesis using assms j
    by (cases "wn_kind (g ! j)")
      (auto simp: wil_constant_def mal_operand_from_wil_input_def node_fields mal_imm_def readable_def
        mal_operand_imm_int_def mal_operand_imm_float_def wil_node_const_int_def wil_node_const_float_def
        wil_node_const_bool_def wil_node_get_def)
qed

text \<open>Two lists of values agree on the nodes that own a register.\<close>

definition agree :: "WILGraph \<Rightarrow> nat \<Rightarrow> 'v list \<Rightarrow> 'v list \<Rightarrow> bool" where
  "agree g k ts vs \<longleftrightarrow> (\<forall>j<k. owns_register g j \<longrightarrow> ts ! j = vs ! j)"

lemma input_agrees:
  assumes "readable g p" and "lowerable_input g k p" and "agree g k ts vs"
  shows "input_val g (mal_imm I) ts p = wil_input I g vs p"
proof -
  obtain j where p: "p = Some j" using assms(1) by (auto simp: readable_def split: option.splits)
  note c = readable_constant [OF assms(1) [unfolded p], of I]
  show ?thesis
  proof (cases "wil_constant I (g ! j)")
    case None
    with c assms(2,3) show ?thesis
      by (auto simp: p input_val_def wil_input_def lowerable_input_def agree_def)
  next
    case (Some v)
    with c constant_operand [OF assms(1) [unfolded p] Some] show ?thesis
      by (simp add: p input_val_def wil_input_def)
  qed
qed

section \<open>Nodes have the values of the graph\<close>

lemma filter_nth_map:
  "map (\<lambda>i. f (xs ! i)) (filter (\<lambda>i. P (xs ! i)) [0..<length xs]) = map f (filter P xs)"
proof -
  have "filter P xs = filter P (map ((!) xs) [0..<length xs])" by (simp add: map_nth)
  also have "\<dots> = map ((!) xs) (filter (\<lambda>i. P (xs ! i)) [0..<length xs])" by (simp add: filter_map o_def)
  finally show ?thesis by (simp add: o_def)
qed

lemma lowered_inputs:
  assumes "n < length g" and "list_all (\<lambda>e. snd e = WIL_EDGE_CONTROL \<or> snd e = WIL_EDGE_DATA) (wn_inputs (g ! n))"
  shows "mal_lower_inputs g n = data_inputs (g ! n)"
proof -
  have "mal_lower_inputs g n = map (\<lambda>i. fst (wn_inputs (g ! n) ! i))
      (filter (\<lambda>i. snd (wn_inputs (g ! n) ! i) \<noteq> WIL_EDGE_CONTROL) [0..<length (wn_inputs (g ! n))])"
    unfolding mal_lower_inputs_def node_fields(4) [OF assms(1)]
    by (intro map_cong filter_cong) (auto simp: node_fields(5,6) [OF assms(1)])
  also have "\<dots> = map fst (filter (\<lambda>e. snd e \<noteq> WIL_EDGE_CONTROL) (wn_inputs (g ! n)))"
    by (rule filter_nth_map)
  also have "filter (\<lambda>e. snd e \<noteq> WIL_EDGE_CONTROL) (wn_inputs (g ! n))
      = filter (\<lambda>e. snd e = WIL_EDGE_DATA) (wn_inputs (g ! n))"
    using assms(2) by (intro filter_cong) (auto simp: list_all_iff)
  finally show ?thesis by (simp add: data_inputs_def)
qed

lemma arithmetic_value:
  assumes "arithmetic g" and "n < length g" and "value_kind (wn_kind (g ! n))"
  obtains op where "wil_operator g (g ! n) = Some op" and "lowered_operator op"
    and "list_all (\<lambda>e. snd e = WIL_EDGE_CONTROL \<or> snd e = WIL_EDGE_DATA) (wn_inputs (g ! n))"
    and "\<And>p. p \<in> set (data_inputs (g ! n)) \<Longrightarrow> readable g p"
    and "wn_kind (g ! n) = WIL_NODE_CAST \<or> wn_kind (g ! n) = WIL_NODE_BITCAST \<Longrightarrow>
           data_inputs (g ! n) = [wil_node_input g (Some n) 0]"
proof -
  have a: "arithmetic_node g n" using assms(1,2) by (simp add: arithmetic_def list_all_iff)
  have k: "\<not> control_kind (wn_kind (g ! n))" "wn_kind (g ! n) \<noteq> WIL_NODE_PARAM"
      "wn_kind (g ! n) \<noteq> WIL_NODE_RETURN" "wil_node_kind_category (wn_kind (g ! n)) \<noteq> WIL_CAT_CONSTANT"
    using assms(3) by (cases "wn_kind (g ! n)"; simp add: value_kind_def control_kind_def wil_node_kind_category_def)+
  obtain op where op: "wil_operator g (g ! n) = Some op" "lowered_operator op"
      "list_all (\<lambda>e. snd e = WIL_EDGE_CONTROL \<or> snd e = WIL_EDGE_DATA \<and> readable g (fst e)) (wn_inputs (g ! n))"
      "wn_kind (g ! n) = WIL_NODE_CAST \<or> wn_kind (g ! n) = WIL_NODE_BITCAST \<longrightarrow>
         length (wn_inputs (g ! n)) = 1 \<and> snd (wn_inputs (g ! n) ! 0) = WIL_EDGE_DATA"
    using a k by (auto simp: arithmetic_node_def Let_def)
  show thesis
  proof (rule that [OF op(1,2)])
    show "list_all (\<lambda>e. snd e = WIL_EDGE_CONTROL \<or> snd e = WIL_EDGE_DATA) (wn_inputs (g ! n))"
      using op(3) by (auto simp: list_all_iff)
    show "readable g p" if "p \<in> set (data_inputs (g ! n))" for p
      using op(3) that by (auto simp: list_all_iff data_inputs_def)
    show "data_inputs (g ! n) = [wil_node_input g (Some n) 0]"
      if "wn_kind (g ! n) = WIL_NODE_CAST \<or> wn_kind (g ! n) = WIL_NODE_BITCAST"
      using op(4) that node_fields(5) [OF assms(2), of 0]
      by (auto simp: data_inputs_def length_Suc_conv)
  qed
qed

lemma lowered_readable:
  assumes "arithmetic g" and "n < length g" and "p \<in> set (lowered_operands g n)"
  shows "readable g p"
proof (cases "wn_kind (g ! n) = WIL_NODE_RETURN")
  case True
  have "arithmetic_node g n" using assms(1,2) by (simp add: arithmetic_def list_all_iff)
  with True assms(2,3) show ?thesis
    by (simp add: lowered_operands_def node_fields arithmetic_node_def split: if_splits)
next
  case False
  then have vk: "value_kind (wn_kind (g ! n))"
    using assms(2,3) by (auto simp: lowered_operands_def node_fields Let_def value_kind_def split: if_splits)
  then show ?thesis
  proof (rule arithmetic_value [OF assms(1,2)])
    assume edges: "list_all (\<lambda>e. snd e = WIL_EDGE_CONTROL \<or> snd e = WIL_EDGE_DATA) (wn_inputs (g ! n))"
      and ok: "\<And>p. p \<in> set (data_inputs (g ! n)) \<Longrightarrow> readable g p"
      and cast: "wn_kind (g ! n) = WIL_NODE_CAST \<or> wn_kind (g ! n) = WIL_NODE_BITCAST \<Longrightarrow>
        data_inputs (g ! n) = [wil_node_input g (Some n) 0]"
    have "p \<in> set (data_inputs (g ! n))"
      using assms(3) False vk cast
      unfolding lowered_operands_def node_fields(1) [OF assms(2)] lowered_inputs [OF assms(2) edges] Let_def
      by (auto split: if_splits)
    then show ?thesis by (rule ok)
  qed
qed

lemma value_agrees:
  assumes "arithmetic g" and "lowerable g" and "n < length g" and "value_kind (wn_kind (g ! n))"
    and "agree g n ts vs"
  shows "mal_sem I (mal_opcode_from_wil (wn_kind (g ! n)) (wn_type (g ! n))) (mal_type_from_wil (wn_type (g ! n)))
      (node_args g (mal_imm I) ts n) = wil_node_value I args g vs (g ! n)"
proof -
  let ?node = "g ! n"
  obtain op where op: "wil_operator g ?node = Some op" "lowered_operator op"
      "list_all (\<lambda>e. snd e = WIL_EDGE_CONTROL \<or> snd e = WIL_EDGE_DATA) (wn_inputs ?node)"
      "\<And>p. p \<in> set (data_inputs ?node) \<Longrightarrow> readable g p"
      "wn_kind ?node = WIL_NODE_CAST \<or> wn_kind ?node = WIL_NODE_BITCAST \<Longrightarrow>
         data_inputs ?node = [wil_node_input g (Some n) 0]"
    using arithmetic_value [OF assms(1,3,4)] by metis
  note oc = lowered_opcode [OF op(1,2)]
  note kind = node_fields(1) [OF assms(3)]
  have not: "wn_kind ?node \<noteq> WIL_NODE_PARAM" "wn_kind ?node \<noteq> WIL_NODE_RETURN" "wil_constant I ?node = None"
    using assms(4) by (cases "wn_kind ?node"; simp add: value_kind_def wil_constant_def)+
  have ops: "set (lowered_operands g n) = set (data_inputs ?node)"
    using assms(4) not(2) op(5) lowered_inputs [OF assms(3) op(3)]
    by (auto simp: lowered_operands_def kind Let_def)
  have args: "map (input_val g (mal_imm I) ts) (data_inputs ?node) = map (wil_input I g vs) (data_inputs ?node)"
    using op(4) lowerableD(3) [OF assms(2,3)] ops by (simp add: input_agrees [OF _ _ assms(5)])
  have "(if is_conversion op then take 1 (node_args g (mal_imm I) ts n) else node_args g (mal_imm I) ts n)
      = map (wil_input I g vs) (data_inputs ?node)"
    using oc(3) op(5) args lowered_inputs [OF assms(3) op(3)] by (auto simp: node_args_def kind Let_def)
  then show ?thesis
    using oc(1,2) op(1) not by (simp add: mal_sem_def wil_node_value_def lowered_type)
qed

lemma parameters_before: "n \<le> length g \<Longrightarrow> parameters_before g n = nparams g n"
proof (induction n)
  case (Suc n)
  then show ?case
    by (simp add: parameters_before_def nparams_Suc take_Suc_conv_app_nth node_fields)
qed (simp add: parameters_before_def)

lemma owns_register_kinds:
  "n < length g \<Longrightarrow>
     owns_register g n \<longleftrightarrow> wn_kind (g ! n) = WIL_NODE_PARAM \<or> value_kind (wn_kind (g ! n))"
  by (simp add: owns_register_def node_fields)

lemma values_prefix: "j < k \<Longrightarrow> j < l \<Longrightarrow> wil_values_upto I args g k ! j = wil_values_upto I args g l ! j"
  by (simp add: wil_values_upto_nth)

text \<open>The value the tables give to the next node that owns a register.\<close>

definition table_value :: "'v interp \<Rightarrow> (nat \<Rightarrow> 'v) \<Rightarrow> WILGraph \<Rightarrow> 'v list \<Rightarrow> nat \<Rightarrow> 'v" where
  "table_value I args g ts n =
     (if wn_kind (g ! n) = WIL_NODE_PARAM then args (nparams g n)
      else if value_kind (wn_kind (g ! n)) then
        mal_sem I (mal_opcode_from_wil (wn_kind (g ! n)) (wn_type (g ! n))) (mal_type_from_wil (wn_type (g ! n)))
          (node_args g (mal_imm I) ts n)
      else args 0)"

lemma table_value_agrees:
  assumes "arithmetic g" and "lowerable g" and "n < length g" and "length ts = n"
    and "agree g n ts (wil_values_upto I args g (length g))"
  shows "agree g (Suc n) (ts @ [table_value I args g ts n]) (wil_values_upto I args g (length g))"
proof -
  have "table_value I args g ts n = wil_values_upto I args g (length g) ! n" if own: "owns_register g n"
  proof (cases "wn_kind (g ! n) = WIL_NODE_PARAM")
    case True
    moreover have "arithmetic_node g n" using assms(1,3) by (simp add: arithmetic_def list_all_iff)
    ultimately show ?thesis using assms(3)
      by (simp add: table_value_def wil_values_upto_nth wil_node_value_def arithmetic_node_def Let_def parameters_before)
  next
    case False
    then have vk: "value_kind (wn_kind (g ! n))" using own owns_register_kinds [OF assms(3)] by simp
    have "agree g n ts (wil_values_upto I args g n)"
      using assms(3,5) values_prefix [of _ n "length g" I args g] by (simp add: agree_def)
    from value_agrees [OF assms(1-3) vk this, of I args] False vk assms(3) show ?thesis
      by (simp add: table_value_def wil_values_upto_nth)
  qed
  with assms(4,5) show ?thesis by (auto simp: agree_def nth_append less_Suc_eq)
qed

section \<open>The whole graph\<close>

definition returned :: "'v interp \<Rightarrow> WILGraph \<Rightarrow> 'v list \<Rightarrow> WILNode \<Rightarrow> 'v list" where
  "returned I g vs node =
     (if 1 < length (wn_inputs node) then [wil_input I g vs (fst (wn_inputs node ! 1))] else [])"

lemma returned_agrees:
  assumes "arithmetic g" and "lowerable g" and "n < length g" and "wn_kind (g ! n) = WIL_NODE_RETURN"
    and "agree g n ts vs"
  shows "(if 1 < wil_node_input_count g (Some n) then [input_val g (mal_imm I) ts (wil_node_input g (Some n) 1)] else [])
     = returned I g vs (g ! n)"
proof (cases "1 < length (wn_inputs (g ! n))")
  case True
  have "arithmetic_node g n" using assms(1,3) by (simp add: arithmetic_def list_all_iff)
  with True assms(4) have "readable g (fst (wn_inputs (g ! n) ! 1))" by (simp add: arithmetic_node_def Let_def)
  moreover have "lowerable_input g n (fst (wn_inputs (g ! n) ! 1))"
    using lowerableD(3) [OF assms(2,3)] True assms(3,4) by (simp add: lowered_operands_def node_fields)
  ultimately show ?thesis using True assms(3) input_agrees [OF _ _ assms(5)]
    by (simp add: returned_def node_fields)
qed (simp add: returned_def node_fields assms(3))

lemma table_run_step:
  assumes "k < length g"
  shows "table_run (mal_sem I) (mal_imm I) args g ts (nparams g k) (k # ns)
      = (if wn_kind (g ! k) = WIL_NODE_RETURN
         then (#) (if 1 < wil_node_input_count g (Some k)
                   then [input_val g (mal_imm I) ts (wil_node_input g (Some k) 1)] else []) else id)
         (table_run (mal_sem I) (mal_imm I) args g (ts @ [table_value I args g ts k]) (nparams g (Suc k)) ns)"
    and "table_run_values (mal_sem I) (mal_imm I) args g ts (nparams g k) (k # ns)
      = table_run_values (mal_sem I) (mal_imm I) args g (ts @ [table_value I args g ts k]) (nparams g (Suc k)) ns"
  using assms by (auto simp: table_value_def Let_def nparams_Suc value_kind_def node_fields)

lemma table_loop:
  assumes "arithmetic g" and "lowerable g" and "length ts = k" and "k \<le> length g"
    and "agree g k ts (wil_values_upto I args g (length g))"
  shows "table_run (mal_sem I) (mal_imm I) args g ts (nparams g k) [k..<length g]
       = map (returned I g (wil_values_upto I args g (length g)))
           (filter (\<lambda>node. wn_kind node = WIL_NODE_RETURN) (drop k g))
    \<and> (\<forall>v\<in>set (table_run_values (mal_sem I) (mal_imm I) args g ts (nparams g k) [k..<length g]).
         v \<in> set ts \<or> v = args 0
         \<or> (\<exists>j<length g. owns_register g j \<and> v = wil_values_upto I args g (length g) ! j))"
  using assms(3-5)
proof (induction "length g - k" arbitrary: k ts)
  case (Suc d)
  then have k: "k < length g" "d = length g - Suc k" by auto
  let ?v = "table_value I args g ts k" and ?vs = "wil_values_upto I args g (length g)"
  note next_agrees = table_value_agrees [OF assms(1,2) k(1) Suc.prems(1,3)]
  have v: "?v = args 0 \<or> owns_register g k \<and> ?v = ?vs ! k"
    using next_agrees Suc.prems(1) owns_register_kinds [OF k(1)]
    by (cases "owns_register g k") (auto simp: agree_def nth_append table_value_def)
  have IH: "table_run (mal_sem I) (mal_imm I) args g (ts @ [?v]) (nparams g (Suc k)) [Suc k..<length g]
       = map (returned I g ?vs) (filter (\<lambda>node. wn_kind node = WIL_NODE_RETURN) (drop (Suc k) g))"
    "\<forall>v\<in>set (table_run_values (mal_sem I) (mal_imm I) args g (ts @ [?v]) (nparams g (Suc k)) [Suc k..<length g]).
         v \<in> set (ts @ [?v]) \<or> v = args 0 \<or> (\<exists>j<length g. owns_register g j \<and> v = ?vs ! j)"
    using Suc.hyps(1) [OF k(2) _ _ next_agrees] Suc.prems(1) k(1) by auto
  have drop: "drop k g = g ! k # drop (Suc k) g" using k(1) by (simp add: Cons_nth_drop_Suc)
  show ?case
    unfolding upt_conv_Cons [OF k(1)] table_run_step [OF k(1)] drop
    using IH v k(1) returned_agrees [OF assms(1,2) k(1) _ Suc.prems(3), of I] by auto
qed simp

lemma table_denote_wil:
  assumes "arithmetic g" and "lowerable g"
  shows "table_denote (mal_sem I) (mal_imm I) args g = wil_denote I args g"
proof -
  have "agree g 0 [] (wil_values_upto I args g (length g))" by (simp add: agree_def)
  from table_loop [OF assms _ _ this] show ?thesis
    by (simp add: table_denote_def wil_denote_def returned_def)
qed

lemma operator_has_value:
  assumes "arithmetic g" and "n < length g" and "owns_register g n"
  shows "has_value g (g ! n)"
proof (cases "wn_kind (g ! n) = WIL_NODE_PARAM")
  case False
  then have "value_kind (wn_kind (g ! n))" using owns_register_kinds [OF assms(2)] assms(3) by simp
  then show ?thesis using arithmetic_value [OF assms(1,2)] by (metis has_value_def option.distinct(1))
qed (simp add: has_value_def)

lemma table_values_wil:
  assumes "arithmetic g" and "lowerable g"
  shows "set (table_node_values (mal_sem I) (mal_imm I) args g) \<subseteq> insert (args 0) (set (wil_node_values I args g))"
proof
  fix v assume v: "v \<in> set (table_node_values (mal_sem I) (mal_imm I) args g)"
  have "agree g 0 [] (wil_values_upto I args g (length g))" by (simp add: agree_def)
  from table_loop [OF assms _ _ this] v
  consider "v = args 0" | j where "j < length g" "owns_register g j" "v = wil_values_upto I args g (length g) ! j"
    by (auto simp: table_node_values_def)
  then show "v \<in> insert (args 0) (set (wil_node_values I args g))"
    using operator_has_value [OF assms(1)] wil_node_values_mem by cases blast+
qed

lemma read_constants_wil:
  assumes "arithmetic g" and "lowerable g"
  shows "const_reads g (mal_imm I) \<subseteq> set (wil_node_values I args g)"
proof
  fix v assume "v \<in> const_reads g (mal_imm I)"
  then obtain p n where p: "v = input_val g (mal_imm I) [] p" "n < length g" "p \<in> set (lowered_operands g n)"
      "p = None \<or> wil_node_is_const g p"
    by (auto simp: const_reads_def)
  have "readable g p" by (rule lowered_readable [OF assms(1) p(2,3)])
  then obtain j where j: "p = Some j" "j < length g" by (auto simp: readable_def split: option.splits)
  obtain c where c: "wil_constant I (g ! j) = Some c"
    using readable_constant [of g j I] \<open>readable g p\<close> p(4) j(1) by auto
  then have kind: "has_value g (g ! j)" "wn_kind (g ! j) \<noteq> WIL_NODE_PARAM"
    by (cases "wn_kind (g ! j)"; simp add: wil_constant_def has_value_def)+
  have "v = wil_values_upto I args g (length g) ! j"
    using p(1,4) j c kind(2) constant_operand [of g j I c] \<open>readable g p\<close>
    by (simp add: input_val_def wil_values_upto_nth wil_node_value_def)
  then show "v \<in> set (wil_node_values I args g)" using wil_node_values_mem [OF j(2) kind(1)] by simp
qed

text \<open>
  C6. Lowering preserves the meaning of arithmetic graphs. Take a graph whose values are parameters,
  constants and operators that the lowering translates (\<open>arithmetic\<close>: integer and floating-point
  arithmetic, integer comparisons, selections, widening casts), where every operand is a constant or an
  earlier node with a register (\<open>lowerable\<close>). Under every interpretation of the operators and literals
  and for all arguments, the lowered function returns the values that the graph's return nodes read, in
  creation order.
\<close>

theorem malLowerFromWIL_denotes:
  assumes "lowerable g" and "arithmetic g"
  shows "mal_denote (mal_sem I) (mal_imm I) args (lowered_fn m g) = wil_denote I args g"
  using lower_denotes [OF assms(1) mal_copy_moves] table_denote_wil [OF assms(2,1)] by metis

lemmas graph_eval_defs = arithmetic_def arithmetic_node_def readable_def parameters_before_def control_kind_def
  wil_operator_def lowered_operator_def wil_class_floating first_input_type_def data_inputs_def
  wil_node_kind_category_def wil_denote_def wil_node_value_def wil_input_def wil_constant_def wil_value_type_def

text \<open>The parameter minus a truth value, evaluated on 32-bit words.\<close>

definition diff_graph :: WILGraph where
  "diff_graph =
     (let (s, g0) = wil_make_start []; (x, g1) = wil_make_param g0 0 WIL_TYPE_I32 None;
          (c, g2) = wil_make_const_bool g1 1; (d, g3) = wil_make_sub g2 (Some x) (Some c)
      in snd (wil_make_return g3 (Some s) (Some d)))"

lemma diff_graph_nodes:
  "diff_graph =
     [\<lparr>wn_id = 1, wn_kind = WIL_NODE_START, wn_category = WIL_CAT_CONTROL, wn_type = WIL_TYPE_CONTROL,
       wn_name = Some ''start'', wn_inputs = [], wn_uses = [4], wn_payload = 0, wn_removed = False\<rparr>,
      \<lparr>wn_id = 2, wn_kind = WIL_NODE_PARAM, wn_category = WIL_CAT_PARAMETER, wn_type = WIL_TYPE_I32,
       wn_name = None, wn_inputs = [], wn_uses = [3], wn_payload = 0, wn_removed = False\<rparr>,
      \<lparr>wn_id = 3, wn_kind = WIL_NODE_CONST_BOOL, wn_category = WIL_CAT_CONSTANT, wn_type = WIL_TYPE_I1,
       wn_name = None, wn_inputs = [], wn_uses = [3], wn_payload = 1, wn_removed = False\<rparr>,
      \<lparr>wn_id = 4, wn_kind = WIL_NODE_SUB, wn_category = WIL_CAT_VALUE, wn_type = WIL_TYPE_I32,
       wn_name = None, wn_inputs = [(Some 1, WIL_EDGE_DATA), (Some 2, WIL_EDGE_DATA)], wn_uses = [4],
       wn_payload = 0, wn_removed = False\<rparr>,
      \<lparr>wn_id = 5, wn_kind = WIL_NODE_RETURN, wn_category = WIL_CAT_CONTROL, wn_type = WIL_TYPE_CONTROL,
       wn_name = None, wn_inputs = [(Some 0, WIL_EDGE_CONTROL), (Some 3, WIL_EDGE_DATA)], wn_uses = [],
       wn_payload = 0, wn_removed = False\<rparr>]"
  by (simp add: diff_graph_def wil_builder_defs wil_make_sub_def wil_make_const_bool_def wil_node_defs Let_def)

lemma diff_graph_lowerable: "lowerable diff_graph"
  unfolding lowerable_def diff_graph_nodes
  by (simp add: upt_5 lowered_operands_def lowerable_input_def owns_register_def value_kind_def
      mal_lower_inputs_def wil_node_defs Let_def upt_rec)

lemma diff_graph_arithmetic: "arithmetic diff_graph"
  unfolding diff_graph_nodes by (simp add: upt_5 graph_eval_defs Let_def)

lemma diff_graph_value: "wil_denote w32 (\<lambda>_. 12) diff_graph = [[11]]"
  unfolding diff_graph_nodes
  by (simp add: wil_values_upto_foldl upt_5 graph_eval_defs w32_def w32_apply_def Let_def)

theorem malLowerFromWIL_denotes_witness:
  "mal_denote (mal_sem w32) (mal_imm w32) (\<lambda>_. 12)
     (lowered_fn (mal_module_create None :: unit MALModule) diff_graph) = [[11]]"
  using malLowerFromWIL_denotes [OF diff_graph_lowerable diff_graph_arithmetic, of w32 "\<lambda>_. 12" "mal_module_create None :: unit MALModule"]
  by (simp add: diff_graph_value)

end
