(* ===== verification/Mal_Mrs.thy ===== *)
theory Mal_Mrs
  imports Mal_Denote
begin

text \<open>
  The MAL rewrite system: matching a rule against an instruction and building its replacement
  (\<^verbatim>\<open>mal/mrs_match.c\<close>), one peephole step and its iteration to a fixpoint (\<^verbatim>\<open>mal/mrs_apply.c\<close>).
  The arrays \<^verbatim>\<open>bindings\<close> and \<^verbatim>\<open>bindingNames\<close> with their count are one list of pairs.
\<close>

section \<open>Rules\<close>

datatype MALRuleOperandPattern =
    MAL_RULE_OPERAND_ANY
  | MAL_RULE_OPERAND_VAR string
  | MAL_RULE_OPERAND_IMM_INT MALOperand
  | MAL_RULE_OPERAND_IMM_FLOAT MALOperand
  | MAL_RULE_OPERAND_BLOCK MALOperand

record MALRewriteRule =
  mr_name :: string
  mr_matchOpcode :: MALOpcode
  mr_matchOperands :: "MALRuleOperandPattern list"
  mr_replaceOpcode :: MALOpcode
  mr_replaceOperands :: "MALRuleOperandPattern list"

type_synonym mrs_bindings = "(string \<times> MALOperand) list"

text \<open>The first binding of the name.\<close>

definition mal_find_binding :: "mrs_bindings \<Rightarrow> string \<Rightarrow> MALOperand option" where
  "mal_find_binding bindings nm = map_option snd (find (\<lambda>b. fst b = nm) bindings)"

text \<open>The switch on one pattern, then the loop over the patterns.\<close>

definition mrs_match_operand ::
  "nat \<Rightarrow> MALRuleOperandPattern \<Rightarrow> MALOperand \<Rightarrow> mrs_bindings \<Rightarrow> mrs_bindings option" where
  "mrs_match_operand cap pat opd bs =
     (case pat of
        MAL_RULE_OPERAND_ANY \<Rightarrow> Some bs
      | MAL_RULE_OPERAND_IMM_INT lit \<Rightarrow> if mal_operand_equal lit opd then Some bs else None
      | MAL_RULE_OPERAND_IMM_FLOAT lit \<Rightarrow> if mal_operand_equal lit opd then Some bs else None
      | MAL_RULE_OPERAND_BLOCK lit \<Rightarrow> if mal_operand_equal lit opd then Some bs else None
      | MAL_RULE_OPERAND_VAR nm \<Rightarrow>
          (case mal_find_binding bs nm of
             Some b \<Rightarrow> if mal_operand_equal b opd then Some bs else None
           | None \<Rightarrow> if cap \<le> length bs then None else Some (bs @ [(nm, opd)])))"

fun mrs_match_operands ::
  "nat \<Rightarrow> MALRuleOperandPattern list \<Rightarrow> MALOperand list \<Rightarrow> mrs_bindings \<Rightarrow> mrs_bindings option" where
  "mrs_match_operands cap (pat # pats) (opd # ops) bs =
     (case mrs_match_operand cap pat opd bs of
        None \<Rightarrow> None | Some bs1 \<Rightarrow> mrs_match_operands cap pats ops bs1)"
| "mrs_match_operands cap _ _ bs = Some bs"

definition mal_mrs_match_rule :: "nat \<Rightarrow> MALRewriteRule \<Rightarrow> MALInst \<Rightarrow> mrs_bindings option" where
  "mal_mrs_match_rule bindingCap rule inst =
     (if mr_matchOpcode rule \<noteq> mi_opcode inst
         \<or> length (mr_matchOperands rule) \<noteq> length (mi_operands inst) then None
      else mrs_match_operands bindingCap (mr_matchOperands rule) (mi_operands inst) [])"

text \<open>The replacement keeps what it has so far when a variable has no binding.\<close>

fun mrs_replace_operands :: "mrs_bindings \<Rightarrow> MALRuleOperandPattern list \<Rightarrow> MALInst \<Rightarrow> MALInst" where
  "mrs_replace_operands bs [] inst = inst"
| "mrs_replace_operands bs (pat # pats) inst =
     (case pat of
        MAL_RULE_OPERAND_ANY \<Rightarrow> mrs_replace_operands bs pats inst
      | MAL_RULE_OPERAND_VAR nm \<Rightarrow>
          (case mal_find_binding bs nm of
             None \<Rightarrow> inst
           | Some b \<Rightarrow> mrs_replace_operands bs pats (mal_inst_add_operand inst b))
      | MAL_RULE_OPERAND_IMM_INT lit \<Rightarrow> mrs_replace_operands bs pats (mal_inst_add_operand inst lit)
      | MAL_RULE_OPERAND_IMM_FLOAT lit \<Rightarrow> mrs_replace_operands bs pats (mal_inst_add_operand inst lit)
      | MAL_RULE_OPERAND_BLOCK lit \<Rightarrow> mrs_replace_operands bs pats (mal_inst_add_operand inst lit))"

definition mal_mrs_build_replacement :: "MALRewriteRule \<Rightarrow> MALInst \<Rightarrow> mrs_bindings \<Rightarrow> MALInst" where
  "mal_mrs_build_replacement rule inst bs =
     mrs_replace_operands bs (mr_replaceOperands rule)
       ((mal_inst_create (mr_replaceOpcode rule) (mi_type inst) (mi_dst inst))\<lparr>mi_id := mi_id inst\<rparr>)"

section \<open>Applying rules\<close>

text \<open>The loop over the rules for one instruction: the replacement by the first that matches.\<close>

fun mrs_try_rules :: "MALRewriteRule list \<Rightarrow> MALInst \<Rightarrow> MALInst option" where
  "mrs_try_rules [] inst = None"
| "mrs_try_rules (rule # rules) inst =
     (case mal_mrs_match_rule 8 rule inst of
        None \<Rightarrow> mrs_try_rules rules inst
      | Some bs \<Rightarrow> Some (mal_mrs_build_replacement rule inst bs))"

text \<open>\<^verbatim>\<open>mal_replace_inst\<close> on the list of the block's instructions.\<close>

fun mrs_peephole_insts :: "MALRewriteRule list \<Rightarrow> MALInst list \<Rightarrow> MALInst list option" where
  "mrs_peephole_insts rules [] = None"
| "mrs_peephole_insts rules (inst # insts) =
     (case mrs_try_rules rules inst of
        Some new \<Rightarrow> Some (new # insts)
      | None \<Rightarrow> map_option ((#) inst) (mrs_peephole_insts rules insts))"

fun mrs_peephole_blocks :: "MALRewriteRule list \<Rightarrow> MALBlock list \<Rightarrow> MALBlock list option" where
  "mrs_peephole_blocks rules [] = None"
| "mrs_peephole_blocks rules (b # bs) =
     (case mrs_peephole_insts rules (mb_insts b) of
        Some insts \<Rightarrow> Some (b\<lparr>mb_insts := insts\<rparr> # bs)
      | None \<Rightarrow> map_option ((#) b) (mrs_peephole_blocks rules bs))"

text \<open>\<open>None\<close> is the result 0, nothing changed.\<close>

definition malApplyOnePeephole :: "MALRewriteRule list \<Rightarrow> MALFunction \<Rightarrow> MALFunction option" where
  "malApplyOnePeephole rules fn =
     map_option (\<lambda>bs. fn\<lparr>mf_blocks := bs\<rparr>) (mrs_peephole_blocks rules (mf_blocks fn))"

text \<open>The loop need not end: \<open>None\<close> is a loop that runs forever.\<close>

partial_function (option) mrs_fixpoint ::
  "MALRewriteRule list \<Rightarrow> bool \<Rightarrow> MALFunction \<Rightarrow> (bool \<times> MALFunction) option" where
  "mrs_fixpoint rules changed fn =
     (case malApplyOnePeephole rules fn of
        None \<Rightarrow> Some (changed, fn)
      | Some fn' \<Rightarrow> mrs_fixpoint rules True fn')"

definition malApplyPeepholeToFixpoint ::
  "MALRewriteRule list \<Rightarrow> MALFunction \<Rightarrow> (bool \<times> MALFunction) option" where
  "malApplyPeepholeToFixpoint rules fn = mrs_fixpoint rules False fn"

section \<open>Matching decides substitution instances\<close>

text \<open>A substitution makes the patterns of a rule match a list of operands.\<close>

fun pattern_matches :: "(string \<Rightarrow> MALOperand) \<Rightarrow> MALRuleOperandPattern \<Rightarrow> MALOperand \<Rightarrow> bool" where
  "pattern_matches \<sigma> MAL_RULE_OPERAND_ANY opd = True"
| "pattern_matches \<sigma> (MAL_RULE_OPERAND_VAR nm) opd = (\<sigma> nm = opd)"
| "pattern_matches \<sigma> (MAL_RULE_OPERAND_IMM_INT lit) opd = mal_operand_equal lit opd"
| "pattern_matches \<sigma> (MAL_RULE_OPERAND_IMM_FLOAT lit) opd = mal_operand_equal lit opd"
| "pattern_matches \<sigma> (MAL_RULE_OPERAND_BLOCK lit) opd = mal_operand_equal lit opd"

definition pattern_vars :: "MALRuleOperandPattern list \<Rightarrow> string set" where
  "pattern_vars pats = {nm. MAL_RULE_OPERAND_VAR nm \<in> set pats}"

lemma mal_find_binding_map_of: "mal_find_binding bs = map_of bs"
proof
  fix nm show "mal_find_binding bs nm = map_of bs nm"
    by (induction bs) (auto simp: mal_find_binding_def)
qed

lemma pattern_vars_simps [simp]:
  "pattern_vars [] = {}"
  "pattern_vars (p # ps) = (case p of MAL_RULE_OPERAND_VAR nm \<Rightarrow> insert nm (pattern_vars ps)
                            | _ \<Rightarrow> pattern_vars ps)"
  by (auto simp: pattern_vars_def split: MALRuleOperandPattern.splits)

lemma finite_pattern_vars [simp]: "finite (pattern_vars pats)"
  by (induction pats) (auto split: MALRuleOperandPattern.splits)

text \<open>What one pattern does to the bindings.\<close>

lemma mrs_match_operand_grows:
  assumes "mrs_match_operand cap pat opd bs = Some bs1"
  obtains new where "bs1 = bs @ new" and "set new \<subseteq> (case pat of MAL_RULE_OPERAND_VAR nm \<Rightarrow> {(nm, opd)} | _ \<Rightarrow> {})"
    and "distinct (map fst bs) \<longrightarrow> distinct (map fst bs1)"
    and "\<forall>nm. pat = MAL_RULE_OPERAND_VAR nm \<longrightarrow> nm \<in> fst ` set bs1"
proof (cases pat)
  case (MAL_RULE_OPERAND_VAR nm)
  show thesis
  proof (cases "map_of bs nm")
    case None
    with assms MAL_RULE_OPERAND_VAR have "bs1 = bs @ [(nm, opd)]"
      by (auto simp: mrs_match_operand_def mal_find_binding_map_of split: if_splits)
    with None MAL_RULE_OPERAND_VAR show thesis
      by (intro that [of "[(nm, opd)]"]) (auto simp: map_of_eq_None_iff)
  next
    case (Some b)
    with assms MAL_RULE_OPERAND_VAR have "bs1 = bs"
      by (auto simp: mrs_match_operand_def mal_find_binding_map_of split: if_splits)
    with Some MAL_RULE_OPERAND_VAR show thesis
      by (intro that [of "[]"]) (auto dest: map_of_SomeD intro: rev_image_eqI)
  qed
qed (use assms that [of "[]"] in \<open>auto simp: mrs_match_operand_def split: if_splits\<close>)

lemma mrs_match_grows:
  "mrs_match_operands cap pats ops bs = Some bs' \<Longrightarrow>
     \<exists>new. bs' = bs @ new \<and> snd ` set new \<subseteq> set ops"
proof (induction cap pats ops bs rule: mrs_match_operands.induct)
  case (1 cap pat pats opd ops bs)
  then obtain bs1 where s: "mrs_match_operand cap pat opd bs = Some bs1"
      "mrs_match_operands cap pats ops bs1 = Some bs'" by (auto split: option.splits)
  obtain new1 where n: "bs1 = bs @ new1"
      "set new1 \<subseteq> (case pat of MAL_RULE_OPERAND_VAR nm \<Rightarrow> {(nm, opd)} | _ \<Rightarrow> {})"
    using mrs_match_operand_grows [OF s(1)] by metis
  obtain new where "bs' = bs1 @ new" "snd ` set new \<subseteq> set ops" using 1 s by auto
  with n show ?case
    by (intro exI [of _ "new1 @ new"]) (auto split: MALRuleOperandPattern.splits)
qed auto

lemma map_of_append_keep: "map_of bs nm = Some b \<Longrightarrow> map_of (bs @ new) nm = Some b"
  by (simp add: map_add_def)

text \<open>On plain operands the test of a pattern is exactly that the bindings made so far match.\<close>

lemma mrs_match_operand_sound:
  assumes "mrs_match_operand cap pat opd bs = Some bs1" and "list_all plain_operand (map snd bs)"
  shows "pattern_matches (\<lambda>nm. the (map_of (bs1 @ new) nm)) pat opd"
proof (cases pat)
  case (MAL_RULE_OPERAND_VAR nm)
  have "map_of bs1 nm = Some opd"
  proof (cases "map_of bs nm")
    case None
    with assms MAL_RULE_OPERAND_VAR show ?thesis
      by (auto simp: mrs_match_operand_def mal_find_binding_map_of map_add_def split: if_splits)
  next
    case (Some b)
    have "plain_operand b" using Some assms(2) by (auto simp: list_all_iff dest!: map_of_SomeD)
    with Some assms MAL_RULE_OPERAND_VAR show ?thesis
      by (auto simp: mrs_match_operand_def mal_find_binding_map_of mal_operand_equal_plain split: if_splits)
  qed
  with MAL_RULE_OPERAND_VAR show ?thesis using map_of_append_keep by fastforce
qed (use assms in \<open>auto simp: mrs_match_operand_def split: if_splits\<close>)

lemma mrs_match_sound:
  assumes "mrs_match_operands cap pats ops bs = Some bs'" and "length pats = length ops"
    and "list_all plain_operand (map snd bs)" and "list_all plain_operand ops" and "distinct (map fst bs)"
    and "length bs \<le> cap"
  shows "list_all2 (pattern_matches (\<lambda>nm. the (map_of bs' nm))) pats ops
    \<and> pattern_vars pats \<subseteq> fst ` set bs' \<and> distinct (map fst bs') \<and> length bs' \<le> cap"
  using assms
proof (induction cap pats ops bs rule: mrs_match_operands.induct)
  case (1 cap pat pats opd ops bs)
  then obtain bs1 where s: "mrs_match_operand cap pat opd bs = Some bs1"
      "mrs_match_operands cap pats ops bs1 = Some bs'" by (auto split: option.splits)
  obtain new1 where n: "bs1 = bs @ new1"
      "set new1 \<subseteq> (case pat of MAL_RULE_OPERAND_VAR nm \<Rightarrow> {(nm, opd)} | _ \<Rightarrow> {})"
      "distinct (map fst bs) \<longrightarrow> distinct (map fst bs1)"
      "\<forall>nm. pat = MAL_RULE_OPERAND_VAR nm \<longrightarrow> nm \<in> fst ` set bs1"
    using mrs_match_operand_grows [OF s(1)] by metis
  have plain: "list_all plain_operand (map snd bs1)"
    using n(1,2) 1(4,5) by (auto simp: list_all_iff split: MALRuleOperandPattern.splits)
  have "length bs1 \<le> cap" using s(1) 1(7)
    by (auto simp: mrs_match_operand_def split: if_splits option.splits MALRuleOperandPattern.splits)
  then have IH: "list_all2 (pattern_matches (\<lambda>nm. the (map_of bs' nm))) pats ops
      \<and> pattern_vars pats \<subseteq> fst ` set bs' \<and> distinct (map fst bs') \<and> length bs' \<le> cap"
    using 1(1) [OF s(1,2)] 1(3,5,6) plain n(3) by simp
  obtain new where bs': "bs' = bs1 @ new" using mrs_match_grows [OF s(2)] by auto
  have "pattern_matches (\<lambda>nm. the (map_of bs' nm)) pat opd"
    unfolding bs' by (rule mrs_match_operand_sound [OF s(1) 1(4)])
  with IH n(4) bs' show ?case by (auto split: MALRuleOperandPattern.splits)
qed auto

lemma mrs_match_complete:
  assumes "list_all2 (pattern_matches \<sigma>) pats ops" and "list_all plain_operand ops"
    and "\<forall>b\<in>set bs. snd b = \<sigma> (fst b)"
    and "card (fst ` set bs \<union> pattern_vars pats) \<le> cap" and "distinct (map fst bs)"
  shows "mrs_match_operands cap pats ops bs \<noteq> None"
  using assms
proof (induction cap pats ops bs rule: mrs_match_operands.induct)
  case (1 cap pat pats opd ops bs)
  have "\<exists>bs1. mrs_match_operand cap pat opd bs = Some bs1 \<and> (\<forall>b\<in>set bs1. snd b = \<sigma> (fst b))
      \<and> fst ` set bs1 \<union> pattern_vars pats = fst ` set bs \<union> pattern_vars (pat # pats)"
  proof (cases pat)
    case (MAL_RULE_OPERAND_VAR nm)
    have opd: "opd = \<sigma> nm" "plain_operand opd" using 1(2,3) MAL_RULE_OPERAND_VAR by auto
    show ?thesis
    proof (cases "map_of bs nm")
      case None
      then have new: "nm \<notin> fst ` set bs" by (simp add: map_of_eq_None_iff)
      have "length bs = card (fst ` set bs)"
        using 1(6) by (metis distinct_card length_map set_map)
      also have "\<dots> < card (insert nm (fst ` set bs))" using new by simp
      also have "\<dots> \<le> card (fst ` set bs \<union> pattern_vars (pat # pats))"
        using MAL_RULE_OPERAND_VAR by (intro card_mono) auto
      finally have "length bs < cap" using 1(5) by simp
      with None opd 1(4) MAL_RULE_OPERAND_VAR show ?thesis
        by (auto simp: mrs_match_operand_def mal_find_binding_map_of)
    next
      case (Some b)
      then have "(nm, b) \<in> set bs" by (rule map_of_SomeD)
      with 1(4) opd have "b = opd" by auto
      moreover have "nm \<in> fst ` set bs" using \<open>(nm, b) \<in> set bs\<close> by force
      ultimately show ?thesis using Some opd 1(4) MAL_RULE_OPERAND_VAR
        by (auto simp: mrs_match_operand_def mal_find_binding_map_of mal_operand_equal_plain)
    qed
  qed (use 1 in \<open>auto simp: mrs_match_operand_def\<close>)
  then obtain bs1 where bs1: "mrs_match_operand cap pat opd bs = Some bs1"
      "\<forall>b\<in>set bs1. snd b = \<sigma> (fst b)"
      "fst ` set bs1 \<union> pattern_vars pats = fst ` set bs \<union> pattern_vars (pat # pats)" by blast
  have "distinct (map fst bs1)" using mrs_match_operand_grows [OF bs1(1)] 1(6) by metis
  then have "mrs_match_operands cap pats ops bs1 \<noteq> None"
    using 1(1) [OF bs1(1)] 1(2,3,5) bs1(2,3) by simp
  with bs1(1) show ?case by simp
qed auto

text \<open>
  For operands on which equality is identity, this is matching under a substitution. On an instruction whose operands are not zero or NaN floats and have no null names,
  \<^verbatim>\<open>mal_mrs_match_rule\<close> with room for \<open>cap\<close> bindings succeeds exactly when the opcodes are equal and
  some substitution of the rule's variables turns its patterns into the operands, the rule having at
  most \<open>cap\<close> different variables; the bindings it returns are then such a substitution.
\<close>

lemma mal_mrs_match_rule_plain:
  assumes "list_all plain_operand (mi_operands inst)"
  shows "(mal_mrs_match_rule cap rule inst \<noteq> None \<longleftrightarrow>
            mr_matchOpcode rule = mi_opcode inst \<and> card (pattern_vars (mr_matchOperands rule)) \<le> cap
            \<and> (\<exists>\<sigma>. list_all2 (pattern_matches \<sigma>) (mr_matchOperands rule) (mi_operands inst)))
       \<and> (case mal_mrs_match_rule cap rule inst of
            None \<Rightarrow> True
          | Some bs \<Rightarrow> list_all2 (pattern_matches (\<lambda>nm. the (mal_find_binding bs nm)))
                         (mr_matchOperands rule) (mi_operands inst))"
proof (cases "mr_matchOpcode rule = mi_opcode inst \<and> length (mr_matchOperands rule) = length (mi_operands inst)")
  case False
  then show ?thesis by (auto simp: mal_mrs_match_rule_def dest: list_all2_lengthD)
next
  case True
  let ?m = "mrs_match_operands cap (mr_matchOperands rule) (mi_operands inst) []"
  have m: "mal_mrs_match_rule cap rule inst = ?m" using True by (simp add: mal_mrs_match_rule_def)
  have sound: "list_all2 (pattern_matches (\<lambda>nm. the (map_of bs nm))) (mr_matchOperands rule) (mi_operands inst)
      \<and> card (pattern_vars (mr_matchOperands rule)) \<le> cap" if "?m = Some bs" for bs
  proof -
    have b: "list_all2 (pattern_matches (\<lambda>nm. the (map_of bs nm))) (mr_matchOperands rule) (mi_operands inst)"
        "pattern_vars (mr_matchOperands rule) \<subseteq> fst ` set bs" "length bs \<le> cap"
      using mrs_match_sound [OF that] True assms by auto
    have "card (pattern_vars (mr_matchOperands rule)) \<le> card (fst ` set bs)"
      using b(2) by (intro card_mono) auto
    also have "\<dots> \<le> length bs" by (metis card_length length_map set_map)
    finally show ?thesis using b by simp
  qed
  have "?m \<noteq> None" if "list_all2 (pattern_matches \<sigma>) (mr_matchOperands rule) (mi_operands inst)"
      "card (pattern_vars (mr_matchOperands rule)) \<le> cap" for \<sigma>
    by (rule mrs_match_complete [OF that(1) assms]) (use that(2) in auto)
  with sound True show ?thesis unfolding m mal_find_binding_map_of by (auto split: option.splits)
qed

section \<open>Matching on arbitrary operands\<close>

text \<open>
  On all operands, where a NaN differs from itself and the two zeros are equal, matching is described by
  the first operand at which a variable stands: that one is bound and the later ones are compared to it.
\<close>

fun var_operands :: "MALRuleOperandPattern list \<Rightarrow> MALOperand list \<Rightarrow> (string \<times> MALOperand) list" where
  "var_operands (MAL_RULE_OPERAND_VAR nm # pats) (opd # ops) = (nm, opd) # var_operands pats ops"
| "var_operands (_ # pats) (_ # ops) = var_operands pats ops"
| "var_operands _ _ = []"

definition operand_accepted ::
  "mrs_bindings \<Rightarrow> MALRuleOperandPattern list \<Rightarrow> MALOperand list \<Rightarrow> nat \<Rightarrow> bool" where
  "operand_accepted bs pats ops i \<longleftrightarrow>
     (case pats ! i of
        MAL_RULE_OPERAND_ANY \<Rightarrow> True
      | MAL_RULE_OPERAND_VAR nm \<Rightarrow>
          nm \<in> fst ` set bs \<or> MAL_RULE_OPERAND_VAR nm \<in> set (take i pats) \<longrightarrow>
            mal_operand_equal (the (map_of (bs @ var_operands pats ops) nm)) (ops ! i)
      | MAL_RULE_OPERAND_IMM_INT lit \<Rightarrow> mal_operand_equal lit (ops ! i)
      | MAL_RULE_OPERAND_IMM_FLOAT lit \<Rightarrow> mal_operand_equal lit (ops ! i)
      | MAL_RULE_OPERAND_BLOCK lit \<Rightarrow> mal_operand_equal lit (ops ! i))"

lemma var_operands_bound:
  "nm \<in> fst ` set bs \<Longrightarrow> map_of (bs @ (nm, opd) # xs) = map_of (bs @ xs)"
proof
  fix x assume nm: "nm \<in> fst ` set bs"
  show "map_of (bs @ (nm, opd) # xs) x = map_of (bs @ xs) x"
  proof (cases "x = nm")
    case True
    then obtain b where "map_of bs x = Some b" using nm by (metis map_of_eq_None_iff not_None_eq)
    then show ?thesis by (simp add: map_of_append_keep del: map_of_append)
  qed (simp add: map_add_def split: option.splits)
qed

lemma operand_accepted_Suc:
  assumes "bs1 @ var_operands pats ops = bs @ var_operands (pat # pats) (opd # ops)
      \<or> map_of (bs1 @ var_operands pats ops) = map_of (bs @ var_operands (pat # pats) (opd # ops))"
    and "fst ` set bs1 = fst ` set bs \<union> {nm. pat = MAL_RULE_OPERAND_VAR nm}"
  shows "operand_accepted bs (pat # pats) (opd # ops) (Suc i) = operand_accepted bs1 pats ops i"
proof -
  have "map_of (bs1 @ var_operands pats ops) = map_of (bs @ var_operands (pat # pats) (opd # ops))"
    using assms(1) by metis
  then show ?thesis unfolding operand_accepted_def assms(2)
    by (cases "pats ! i") auto
qed

text \<open>What happens at one operand: it is refused, or the bindings grow by its variable.\<close>

lemma mrs_match_operand_accepted:
  assumes "length bs \<le> cap" and "distinct (map fst bs)"
  shows "mrs_match_operand cap pat opd bs \<noteq> None \<longleftrightarrow>
      operand_accepted bs (pat # pats) (opd # ops) 0
      \<and> card (fst ` set bs \<union> {nm. pat = MAL_RULE_OPERAND_VAR nm}) \<le> cap"
    and "mrs_match_operand cap pat opd bs = Some bs1 \<Longrightarrow>
      map_of (bs1 @ var_operands pats ops) = map_of (bs @ var_operands (pat # pats) (opd # ops))
      \<and> fst ` set bs1 = fst ` set bs \<union> {nm. pat = MAL_RULE_OPERAND_VAR nm}
      \<and> length bs1 \<le> cap \<and> distinct (map fst bs1)"
proof -
  have card: "card (fst ` set bs) = length bs" using assms(2) by (metis distinct_card length_map set_map)
  have bound: "nm \<in> fst ` set bs \<longleftrightarrow> map_of bs nm \<noteq> None" for nm by (simp add: map_of_eq_None_iff)
  show "mrs_match_operand cap pat opd bs \<noteq> None \<longleftrightarrow>
      operand_accepted bs (pat # pats) (opd # ops) 0
      \<and> card (fst ` set bs \<union> {nm. pat = MAL_RULE_OPERAND_VAR nm}) \<le> cap"
    using assms(1) card bound
    by (cases pat) (auto simp: mrs_match_operand_def mal_find_binding_map_of operand_accepted_def
        card_insert_if insert_absorb map_add_def split: option.splits)
  show "map_of (bs1 @ var_operands pats ops) = map_of (bs @ var_operands (pat # pats) (opd # ops))
      \<and> fst ` set bs1 = fst ` set bs \<union> {nm. pat = MAL_RULE_OPERAND_VAR nm}
      \<and> length bs1 \<le> cap \<and> distinct (map fst bs1)"
    if "mrs_match_operand cap pat opd bs = Some bs1"
  proof (cases pat)
    case (MAL_RULE_OPERAND_VAR nm)
    with that assms var_operands_bound [of nm bs opd "var_operands pats ops"] bound [of nm] show ?thesis
      by (cases "map_of bs nm")
        (auto simp: mrs_match_operand_def mal_find_binding_map_of image_iff split: if_splits)
  qed (use that assms in \<open>auto simp: mrs_match_operand_def split: if_splits\<close>)
qed

lemma card_names: "length bs \<le> cap \<Longrightarrow> card (fst ` set bs) \<le> cap"
  by (metis card_length length_map list.set_map order_trans)

lemma mrs_match_operands_accepted:
  assumes "length pats = length ops" and "length bs \<le> cap" and "distinct (map fst bs)"
  shows "(mrs_match_operands cap pats ops bs \<noteq> None \<longleftrightarrow>
      card (fst ` set bs \<union> pattern_vars pats) \<le> cap \<and> (\<forall>i<length ops. operand_accepted bs pats ops i))
    \<and> (\<forall>bs'. mrs_match_operands cap pats ops bs = Some bs' \<longrightarrow> map_of bs' = map_of (bs @ var_operands pats ops))"
  using assms
proof (induction cap pats ops bs rule: mrs_match_operands.induct)
  case (1 cap pat pats opd ops bs)
  note one = mrs_match_operand_accepted [OF 1(3,4), where pat = pat and opd = opd and pats = pats and ops = ops]
  let ?V = "fst ` set bs \<union> {nm. pat = MAL_RULE_OPERAND_VAR nm}"
  have vars: "fst ` set bs \<union> pattern_vars (pat # pats) = ?V \<union> pattern_vars pats"
    by (cases pat) auto
  have fin: "finite (?V \<union> pattern_vars pats)" by (cases pat) auto
  have split: "(\<forall>i<length (opd # ops). operand_accepted bs (pat # pats) (opd # ops) i) \<longleftrightarrow>
      operand_accepted bs (pat # pats) (opd # ops) 0
      \<and> (\<forall>i<length ops. operand_accepted bs (pat # pats) (opd # ops) (Suc i))"
    by (auto simp: less_Suc_eq_0_disj)
  show ?case
  proof (cases "mrs_match_operand cap pat opd bs")
    case None
    then show ?thesis using one(1) card_mono [OF fin, of ?V] unfolding vars split by auto
  next
    case (Some bs1)
    note b = one(2) [OF Some]
    have "operand_accepted bs (pat # pats) (opd # ops) (Suc i) = operand_accepted bs1 pats ops i" for i
      using b by (intro operand_accepted_Suc) auto
    with 1(1) [OF Some] 1(2) b one(1) Some show ?thesis
      unfolding vars split by (simp add: b)
  qed
qed (auto simp: card_names)

text \<open>
  C15. Matching of a peephole rule, on all instructions: \<^verbatim>\<open>mal_mrs_match_rule\<close> with room for \<open>cap\<close> bindings
  succeeds exactly when opcode and number of operands agree, the rule has at most \<open>cap\<close> different
  variables, every literal is equal to its operand, and every operand at a repeated variable is equal to
  the operand at which the variable stands first (by \<^verbatim>\<open>mal_operand_equal\<close>, where a NaN is equal to
  nothing and the two zeros are equal). The bindings map every variable to its first operand.
\<close>

theorem mal_mrs_match_rule_iff:
  "(mal_mrs_match_rule cap rule inst \<noteq> None \<longleftrightarrow>
      mr_matchOpcode rule = mi_opcode inst \<and> length (mr_matchOperands rule) = length (mi_operands inst)
      \<and> card (pattern_vars (mr_matchOperands rule)) \<le> cap
      \<and> (\<forall>i<length (mi_operands inst). operand_accepted [] (mr_matchOperands rule) (mi_operands inst) i))
   \<and> (case mal_mrs_match_rule cap rule inst of
        None \<Rightarrow> True
      | Some bs \<Rightarrow> mal_find_binding bs = map_of (var_operands (mr_matchOperands rule) (mi_operands inst)))"
  using mrs_match_operands_accepted [of "mr_matchOperands rule" "mi_operands inst" "[]" cap]
  by (auto simp: mal_mrs_match_rule_def mal_find_binding_map_of split: option.splits)

section \<open>What one step changes\<close>

text \<open>The operands a rule may write that are not bound by it: its literals.\<close>

fun pattern_literal :: "MALRuleOperandPattern \<Rightarrow> MALOperand option" where
  "pattern_literal (MAL_RULE_OPERAND_IMM_INT lit) = Some lit"
| "pattern_literal (MAL_RULE_OPERAND_IMM_FLOAT lit) = Some lit"
| "pattern_literal (MAL_RULE_OPERAND_BLOCK lit) = Some lit"
| "pattern_literal _ = None"

definition literals_no_reg :: "MALRuleOperandPattern list \<Rightarrow> bool" where
  "literals_no_reg pats \<longleftrightarrow>
     list_all (\<lambda>pat. case pattern_literal pat of None \<Rightarrow> True | Some lit \<Rightarrow> operand_reg lit = None) pats"

lemma literals_no_reg_simps [simp]:
  "literals_no_reg []"
  "literals_no_reg (pat # pats) \<longleftrightarrow>
     (case pattern_literal pat of None \<Rightarrow> True | Some lit \<Rightarrow> operand_reg lit = None) \<and> literals_no_reg pats"
  by (simp_all add: literals_no_reg_def)

lemma mrs_replace_keeps:
  "mi_id (mrs_replace_operands bs pats inst) = mi_id inst"
  "mi_dst (mrs_replace_operands bs pats inst) = mi_dst inst"
  "mi_type (mrs_replace_operands bs pats inst) = mi_type inst"
  "mi_opcode (mrs_replace_operands bs pats inst) = mi_opcode inst"
  by (induction bs pats inst rule: mrs_replace_operands.induct)
    (simp_all add: mal_inst_add_operand_def split: MALRuleOperandPattern.splits option.splits)

lemma mrs_replace_uses:
  "literals_no_reg pats \<Longrightarrow>
     inst_uses (mrs_replace_operands bs pats inst)
       \<subseteq> inst_uses inst \<union> {r. Some r \<in> operand_reg ` snd ` set bs}"
proof (induction pats arbitrary: inst)
  case (Cons pat pats)
  have add: "inst_uses (mal_inst_add_operand inst opd) = inst_uses inst \<union> {r. operand_reg opd = Some r}" for opd
    by (auto simp: inst_uses_def mal_inst_add_operand_def)
  have bnd: "mal_find_binding bs nm = Some b \<Longrightarrow> b \<in> snd ` set bs" for nm b
    by (force simp: mal_find_binding_map_of dest: map_of_SomeD)
  show ?case
  proof (cases pat)
    case (MAL_RULE_OPERAND_VAR nm)
    show ?thesis
    proof (cases "mal_find_binding bs nm")
      case (Some b)
      have "operand_reg b = Some r \<Longrightarrow> Some r \<in> operand_reg ` snd ` set bs" for r
        using bnd [OF Some] by (metis imageI)
      with Some MAL_RULE_OPERAND_VAR Cons.IH [of "mal_inst_add_operand inst b"] Cons.prems show ?thesis
        by (auto simp: add)
    qed (use MAL_RULE_OPERAND_VAR in auto)
  next
    case (MAL_RULE_OPERAND_IMM_INT lit)
    with Cons.IH [of "mal_inst_add_operand inst lit"] Cons.prems show ?thesis by (simp add: add)
  next
    case (MAL_RULE_OPERAND_IMM_FLOAT lit)
    with Cons.IH [of "mal_inst_add_operand inst lit"] Cons.prems show ?thesis by (simp add: add)
  next
    case (MAL_RULE_OPERAND_BLOCK lit)
    with Cons.IH [of "mal_inst_add_operand inst lit"] Cons.prems show ?thesis by (simp add: add)
  qed (use Cons in simp)
qed simp

text \<open>One instruction of the function is replaced by what one of the rules makes of it.\<close>

definition mrs_rewrites :: "MALRewriteRule list \<Rightarrow> MALInst \<Rightarrow> MALInst \<Rightarrow> bool" where
  "mrs_rewrites rules inst new \<longleftrightarrow>
     (\<exists>rule\<in>set rules. \<exists>bs. mal_mrs_match_rule 8 rule inst = Some bs
        \<and> new = mal_mrs_build_replacement rule inst bs)"

lemma mrs_try_rules_rewrites: "mrs_try_rules rules inst = Some new \<Longrightarrow> mrs_rewrites rules inst new"
  by (induction rules) (auto simp: mrs_rewrites_def split: option.splits)

lemma peephole_insts_split:
  "mrs_peephole_insts rules insts = Some insts' \<Longrightarrow>
     \<exists>xs inst ys new. insts = xs @ inst # ys \<and> insts' = xs @ new # ys \<and> mrs_rewrites rules inst new"
proof (induction insts arbitrary: insts')
  case (Cons i insts)
  show ?case
  proof (cases "mrs_try_rules rules i")
    case None
    with Cons obtain rest where "mrs_peephole_insts rules insts = Some rest" "insts' = i # rest" by auto
    with Cons.IH show ?thesis by (metis append_Cons)
  next
    case (Some new)
    with Cons.prems have "insts' = new # insts" by simp
    with mrs_try_rules_rewrites [OF Some] show ?thesis by (metis append_Nil)
  qed
qed simp

lemma peephole_blocks_split:
  "mrs_peephole_blocks rules bs = Some bs' \<Longrightarrow>
     \<exists>xs inst ys new. concat (map mb_insts bs) = xs @ inst # ys
       \<and> concat (map mb_insts bs') = xs @ new # ys \<and> mrs_rewrites rules inst new"
proof (induction bs arbitrary: bs')
  case (Cons b bs)
  show ?case
  proof (cases "mrs_peephole_insts rules (mb_insts b)")
    case None
    with Cons obtain rest where "mrs_peephole_blocks rules bs = Some rest" "bs' = b # rest" by auto
    moreover from this(1) obtain xs inst ys new where
      "concat (map mb_insts bs) = xs @ inst # ys" "concat (map mb_insts rest) = xs @ new # ys"
      "mrs_rewrites rules inst new" using Cons.IH [of rest] by blast
    ultimately show ?thesis
      by (intro exI [of _ "mb_insts b @ xs"] exI [of _ inst] exI [of _ ys] exI [of _ new]) simp
  next
    case (Some insts')
    with Cons.prems have "bs' = b\<lparr>mb_insts := insts'\<rparr> # bs" by simp
    with peephole_insts_split [OF Some] show ?thesis by fastforce
  qed
qed simp

lemma one_peephole_split:
  assumes "malApplyOnePeephole rules fn = Some fn'"
  obtains xs inst ys new where "mal_insts fn = xs @ inst # ys" and "mal_insts fn' = xs @ new # ys"
    and "mrs_rewrites rules inst new" and "mf_nextSSAReg fn' = mf_nextSSAReg fn"
    and "mf_paramTypes fn' = mf_paramTypes fn"
proof -
  obtain bs where bs: "mrs_peephole_blocks rules (mf_blocks fn) = Some bs" "fn' = fn\<lparr>mf_blocks := bs\<rparr>"
    using assms by (auto simp: malApplyOnePeephole_def)
  from peephole_blocks_split [OF bs(1)] obtain xs inst ys new where
    "concat (map mb_insts (mf_blocks fn)) = xs @ inst # ys" "concat (map mb_insts bs) = xs @ new # ys"
    "mrs_rewrites rules inst new" by blast
  then show thesis by (intro that) (simp_all add: bs(2) mal_insts_def)
qed

section \<open>A step keeps single assignment\<close>

lemma match_bindings_from_operands:
  "mal_mrs_match_rule cap rule inst = Some bs \<Longrightarrow> snd ` set bs \<subseteq> set (mi_operands inst)"
  using mrs_match_grows [of cap "mr_matchOperands rule" "mi_operands inst" "[]" bs]
  by (auto simp: mal_mrs_match_rule_def split: if_splits)

lemma rewrites_uses:
  assumes "mrs_rewrites rules inst new"
    and "list_all (\<lambda>rule. literals_no_reg (mr_replaceOperands rule)) rules"
  shows "inst_uses new \<subseteq> inst_uses inst" and "mi_dst new = mi_dst inst"
proof -
  obtain rule bs where r: "rule \<in> set rules" "mal_mrs_match_rule 8 rule inst = Some bs"
      "new = mal_mrs_build_replacement rule inst bs"
    using assms(1) by (auto simp: mrs_rewrites_def)
  let ?start = "(mal_inst_create (mr_replaceOpcode rule) (mi_type inst) (mi_dst inst))\<lparr>mi_id := mi_id inst\<rparr>"
  have "inst_uses ?start = {}" by (simp add: inst_uses_def mal_inst_create_def)
  moreover have "inst_uses (mrs_replace_operands bs (mr_replaceOperands rule) ?start)
      \<subseteq> inst_uses ?start \<union> {r. Some r \<in> operand_reg ` snd ` set bs}"
    by (rule mrs_replace_uses) (use assms(2) r(1) in \<open>auto simp: list_all_iff\<close>)
  moreover have "{r. Some r \<in> operand_reg ` snd ` set bs} \<subseteq> inst_uses inst"
    using image_mono [OF match_bindings_from_operands [OF r(2)], of operand_reg]
    by (auto simp: inst_uses_def)
  ultimately show "inst_uses new \<subseteq> inst_uses inst"
    unfolding r(3) mal_mrs_build_replacement_def by blast
  show "mi_dst new = mi_dst inst"
    by (simp add: r(3) mal_mrs_build_replacement_def mrs_replace_keeps mal_inst_create_def)
qed

lemma one_peephole_ssa:
  assumes "malApplyOnePeephole rules fn = Some fn'" and "mal_verify_ssa fn"
    and "list_all (\<lambda>rule. literals_no_reg (mr_replaceOperands rule)) rules"
  shows "mal_verify_ssa fn'"
proof -
  obtain xs inst ys new where s: "mal_insts fn = xs @ inst # ys" "mal_insts fn' = xs @ new # ys"
      "mrs_rewrites rules inst new" "mf_nextSSAReg fn' = mf_nextSSAReg fn"
      "mf_paramTypes fn' = mf_paramTypes fn"
    using one_peephole_split [OF assms(1)] by metis
  note ru = rewrites_uses [OF s(3) assms(3)]
  have "inst_defs new = inst_defs inst" using ru(2) by (simp add: inst_defs_def)
  with ru(1) verify_ssaD [OF assms(2)]
  have "ssa_form (mf_nextSSAReg fn') (param_regs fn') (mal_insts fn')"
    unfolding s param_regs_def by (auto simp: ssa_form_append)
  then show ?thesis by (rule verify_ssaI)
qed

section \<open>A step keeps the meaning\<close>

text \<open>
  The value of a pattern when its variables have values. A rule is sound for an interpretation
  when its two sides have the same value whatever the values of its variables.
\<close>

fun pattern_val :: "(MALOperand \<Rightarrow> 'v) \<Rightarrow> (string \<Rightarrow> 'v) \<Rightarrow> MALRuleOperandPattern \<Rightarrow> 'v" where
  "pattern_val imm \<sigma> (MAL_RULE_OPERAND_VAR nm) = \<sigma> nm"
| "pattern_val imm \<sigma> (MAL_RULE_OPERAND_IMM_INT lit) = imm lit"
| "pattern_val imm \<sigma> (MAL_RULE_OPERAND_IMM_FLOAT lit) = imm lit"
| "pattern_val imm \<sigma> (MAL_RULE_OPERAND_BLOCK lit) = imm lit"
| "pattern_val imm \<sigma> MAL_RULE_OPERAND_ANY = \<sigma> ''_''"

definition rule_sound ::
  "(MALOpcode \<Rightarrow> MALType \<Rightarrow> 'v list \<Rightarrow> 'v) \<Rightarrow> (MALOperand \<Rightarrow> 'v) \<Rightarrow> MALRewriteRule \<Rightarrow> bool" where
  "rule_sound sem imm rule \<longleftrightarrow>
     MAL_RULE_OPERAND_ANY \<notin> set (mr_matchOperands rule @ mr_replaceOperands rule)
     \<and> literals_no_reg (mr_matchOperands rule) \<and> literals_no_reg (mr_replaceOperands rule)
     \<and> pattern_vars (mr_replaceOperands rule) \<subseteq> pattern_vars (mr_matchOperands rule)
     \<and> mr_matchOpcode rule \<noteq> MAL_OP_RET \<and> mr_replaceOpcode rule \<noteq> MAL_OP_RET
     \<and> (\<forall>ty \<sigma>. sem (mr_matchOpcode rule) ty (map (pattern_val imm \<sigma>) (mr_matchOperands rule))
             = sem (mr_replaceOpcode rule) ty (map (pattern_val imm \<sigma>) (mr_replaceOperands rule)))"

definition imm_respects_equal :: "(MALOperand \<Rightarrow> 'v) \<Rightarrow> bool" where
  "imm_respects_equal imm \<longleftrightarrow> (\<forall>a b. mal_operand_equal a b \<longrightarrow> imm a = imm b)"

lemma operand_val_equal:
  assumes "imm_respects_equal imm" and "mal_operand_equal a b"
  shows "operand_val imm env a = operand_val imm env b"
  using assms mal_operand_equal_reg [OF assms(2)]
  by (auto simp: operand_val_def imm_respects_equal_def split: option.splits)

lemma mrs_match_values:
  fixes env :: "MALReg \<Rightarrow> 'v"
  assumes "imm_respects_equal imm" and "mrs_match_operands cap pats ops bs = Some bs'"
    and "length pats = length ops" and "MAL_RULE_OPERAND_ANY \<notin> set pats" and "literals_no_reg pats"
  defines "\<sigma> \<equiv> \<lambda>nm. operand_val imm env (the (map_of bs' nm))"
  shows "map (operand_val imm env) ops = map (pattern_val imm \<sigma>) pats \<and> pattern_vars pats \<subseteq> fst ` set bs'"
  using assms(2-5)
proof (induction cap pats ops bs rule: mrs_match_operands.induct)
  case (1 cap pat pats opd ops bs)
  then obtain bs1 where m: "mrs_match_operand cap pat opd bs = Some bs1"
      "mrs_match_operands cap pats ops bs1 = Some bs'" by (auto split: option.splits)
  obtain new where bs': "bs' = bs1 @ new" using mrs_match_grows [OF m(2)] by auto
  have IH: "map (operand_val imm env) ops = map (pattern_val imm \<sigma>) pats \<and> pattern_vars pats \<subseteq> fst ` set bs'"
    using 1(1) [OF m] 1(3-5) by simp
  have lit: "operand_val imm env opd = imm lit" if "pattern_literal pat = Some lit" "mal_operand_equal lit opd" for lit
    using operand_val_equal [OF assms(1) that(2), of env] 1(5) that(1) by (simp add: operand_val_def)
  have "operand_val imm env opd = pattern_val imm \<sigma> pat
      \<and> (\<forall>nm. pat = MAL_RULE_OPERAND_VAR nm \<longrightarrow> nm \<in> fst ` set bs')"
  proof (cases pat)
    case (MAL_RULE_OPERAND_VAR nm)
    obtain b where b: "map_of bs1 nm = Some b" "b = opd \<or> mal_operand_equal b opd"
      using m(1) MAL_RULE_OPERAND_VAR
      by (auto simp: mrs_match_operand_def mal_find_binding_map_of map_add_def split: option.splits if_splits)
    have keep: "map_of bs' nm = Some b" unfolding bs' by (rule map_of_append_keep [OF b(1)])
    then have "nm \<in> fst ` set bs'" by (force dest: map_of_SomeD)
    with b(2) keep operand_val_equal [OF assms(1), of b opd env] MAL_RULE_OPERAND_VAR show ?thesis
      by (auto simp: \<sigma>_def)
  qed (use m(1) lit 1(4) in \<open>auto simp: mrs_match_operand_def split: if_splits\<close>)
  with IH show ?case by (auto split: MALRuleOperandPattern.splits)
qed auto

lemma mrs_replace_values:
  assumes "MAL_RULE_OPERAND_ANY \<notin> set pats" and "literals_no_reg pats" and "pattern_vars pats \<subseteq> fst ` set bs"
  shows "map (operand_val imm env) (mi_operands (mrs_replace_operands bs pats inst))
    = map (operand_val imm env) (mi_operands inst)
      @ map (pattern_val imm (\<lambda>nm. operand_val imm env (the (map_of bs nm)))) pats"
  using assms
proof (induction pats arbitrary: inst)
  case (Cons pat pats)
  show ?case
  proof (cases pat)
    case (MAL_RULE_OPERAND_VAR nm)
    with Cons.prems obtain b where "map_of bs nm = Some b" by (auto simp: map_of_eq_None_iff dest: weak_map_of_SomeI)
    with MAL_RULE_OPERAND_VAR Cons show ?thesis
      by (simp add: mal_find_binding_map_of mal_inst_add_operand_def)
  qed (use Cons in \<open>simp_all add: mal_inst_add_operand_def operand_val_def\<close>)
qed simp

lemma rewrites_same_meaning:
  assumes "mrs_rewrites rules inst new" and "list_all (rule_sound sem imm) rules" and "imm_respects_equal imm"
  shows "same_meaning sem imm inst new"
proof -
  obtain rule bs where r: "rule \<in> set rules" "mal_mrs_match_rule 8 rule inst = Some bs"
      "new = mal_mrs_build_replacement rule inst bs"
    using assms(1) by (auto simp: mrs_rewrites_def)
  have snd: "rule_sound sem imm rule" using assms(2) r(1) by (simp add: list_all_iff)
  have m: "mr_matchOpcode rule = mi_opcode inst" "length (mr_matchOperands rule) = length (mi_operands inst)"
      "mrs_match_operands 8 (mr_matchOperands rule) (mi_operands inst) [] = Some bs"
    using r(2) by (auto simp: mal_mrs_match_rule_def split: if_splits)
  let ?start = "(mal_inst_create (mr_replaceOpcode rule) (mi_type inst) (mi_dst inst))\<lparr>mi_id := mi_id inst\<rparr>"
  have "sem (mi_opcode inst) (mi_type inst) (map (operand_val imm env) (mi_operands inst))
      = sem (mi_opcode new) (mi_type new) (map (operand_val imm env) (mi_operands new))" for env
  proof -
    let ?\<sigma> = "\<lambda>nm. operand_val imm env (the (map_of bs nm))"
    have v: "map (operand_val imm env) (mi_operands inst) = map (pattern_val imm ?\<sigma>) (mr_matchOperands rule)"
        "pattern_vars (mr_matchOperands rule) \<subseteq> fst ` set bs"
      using mrs_match_values [OF assms(3) m(3,2)] snd by (auto simp: rule_sound_def)
    have "map (operand_val imm env) (mi_operands (mrs_replace_operands bs (mr_replaceOperands rule) ?start))
        = map (operand_val imm env) (mi_operands ?start) @ map (pattern_val imm ?\<sigma>) (mr_replaceOperands rule)"
      by (rule mrs_replace_values) (use snd v(2) in \<open>auto simp: rule_sound_def\<close>)
    then show ?thesis
      unfolding v(1) using snd m(1)
      by (simp add: r(3) mal_mrs_build_replacement_def mrs_replace_keeps mal_inst_create_def rule_sound_def)
  qed
  then show ?thesis using snd m(1)
    by (simp add: same_meaning_def r(3) mal_mrs_build_replacement_def mrs_replace_keeps
        mal_inst_create_def rule_sound_def)
qed

lemma one_peephole_denote:
  assumes "malApplyOnePeephole rules fn = Some fn'" and "list_all (rule_sound sem imm) rules"
    and "imm_respects_equal imm"
  shows "mal_denote sem imm args fn' = mal_denote sem imm args fn"
proof -
  obtain xs inst ys new where s: "mal_insts fn = xs @ inst # ys" "mal_insts fn' = xs @ new # ys"
      "mrs_rewrites rules inst new"
    using one_peephole_split [OF assms(1)] by metis
  have "list_all2 (\<lambda>a b. a = b \<or> same_meaning sem imm a b) (xs @ inst # ys) (xs @ new # ys)"
    using rewrites_same_meaning [OF s(3) assms(2,3)]
    by (intro list_all2_appendI list.rel_intros(2)) (auto simp: list_all2_refl)
  then show ?thesis unfolding mal_denote_def s(1,2) by (rule mal_run_same_meaning)
qed

section \<open>Iterating to a fixpoint\<close>

definition peephole_step :: "MALRewriteRule list \<Rightarrow> MALFunction \<Rightarrow> MALFunction \<Rightarrow> bool" where
  "peephole_step rules fn fn' \<longleftrightarrow> malApplyOnePeephole rules fn = Some fn'"

lemma steps_ssa:
  assumes "(peephole_step rules)\<^sup>*\<^sup>* fn fn'" and "mal_verify_ssa fn"
    and "list_all (\<lambda>rule. literals_no_reg (mr_replaceOperands rule)) rules"
  shows "mal_verify_ssa fn'"
  using assms(1,2)
  by (induction rule: rtranclp_induct) (auto simp: peephole_step_def intro: one_peephole_ssa [OF _ _ assms(3)])

lemma steps_denote:
  assumes "(peephole_step rules)\<^sup>*\<^sup>* fn fn'" and "list_all (rule_sound sem imm) rules"
    and "imm_respects_equal imm"
  shows "mal_denote sem imm args fn' = mal_denote sem imm args fn"
  using assms(1)
  by (induction rule: rtranclp_induct) (simp_all add: peephole_step_def one_peephole_denote [OF _ assms(2,3)])

text \<open>The rank of a function: the ranks of its opcodes, summed.\<close>

definition opcode_rank_sum :: "(MALOpcode \<Rightarrow> nat) \<Rightarrow> MALFunction \<Rightarrow> nat" where
  "opcode_rank_sum rank fn = sum_list (map (rank \<circ> mi_opcode) (mal_insts fn))"

definition rules_decrease :: "(MALOpcode \<Rightarrow> nat) \<Rightarrow> MALRewriteRule list \<Rightarrow> bool" where
  "rules_decrease rank rules \<longleftrightarrow>
     list_all (\<lambda>rule. rank (mr_replaceOpcode rule) < rank (mr_matchOpcode rule)) rules"

lemma one_peephole_decreases:
  assumes "malApplyOnePeephole rules fn = Some fn'" and "rules_decrease rank rules"
  shows "opcode_rank_sum rank fn' < opcode_rank_sum rank fn"
proof -
  obtain xs inst ys new where s: "mal_insts fn = xs @ inst # ys" "mal_insts fn' = xs @ new # ys"
      "mrs_rewrites rules inst new"
    using one_peephole_split [OF assms(1)] by metis
  then have "rank (mi_opcode new) < rank (mi_opcode inst)"
    using assms(2)
    by (auto simp: mrs_rewrites_def rules_decrease_def list_all_iff mal_mrs_match_rule_def
        mal_mrs_build_replacement_def mrs_replace_keeps mal_inst_create_def split: if_splits)
  then show ?thesis by (simp add: opcode_rank_sum_def s)
qed

lemma mrs_fixpoint_returns:
  assumes "rules_decrease rank rules"
  shows "\<exists>fn'. mrs_fixpoint rules changed fn = Some (changed \<or> malApplyOnePeephole rules fn \<noteq> None, fn')
     \<and> malApplyOnePeephole rules fn' = None \<and> (peephole_step rules)\<^sup>*\<^sup>* fn fn'"
proof (induction "opcode_rank_sum rank fn" arbitrary: fn changed rule: less_induct)
  case less
  show ?case
  proof (cases "malApplyOnePeephole rules fn")
    case None
    then show ?thesis by (subst mrs_fixpoint.simps) auto
  next
    case (Some fn1)
    from less.hyps [OF one_peephole_decreases [OF Some assms], of True]
    obtain fn' where "mrs_fixpoint rules True fn1 = Some (True, fn')"
      "malApplyOnePeephole rules fn' = None" "(peephole_step rules)\<^sup>*\<^sup>* fn1 fn'" by auto
    with Some show ?thesis
      by (subst mrs_fixpoint.simps) (auto simp: peephole_step_def intro: converse_rtranclp_into_rtranclp)
  qed
qed

lemma peephole_to_fixpoint:
  fixes sem :: "MALOpcode \<Rightarrow> MALType \<Rightarrow> 'v list \<Rightarrow> 'v"
  assumes "rules_decrease rank rules"
    and "list_all (\<lambda>rule. literals_no_reg (mr_replaceOperands rule)) rules"
    and "list_all (rule_sound sem imm) rules" and "imm_respects_equal imm" and "mal_verify_ssa fn"
  shows "\<exists>fn'. malApplyPeepholeToFixpoint rules fn = Some (malApplyOnePeephole rules fn \<noteq> None, fn')
     \<and> malApplyOnePeephole rules fn' = None
     \<and> mal_verify_ssa fn' \<and> mal_denote sem imm args fn' = mal_denote sem imm args fn"
proof -
  obtain fn' where "mrs_fixpoint rules False fn = Some (malApplyOnePeephole rules fn \<noteq> None, fn')"
      "malApplyOnePeephole rules fn' = None" "(peephole_step rules)\<^sup>*\<^sup>* fn fn'"
    using mrs_fixpoint_returns [OF assms(1), of False fn] by auto
  with steps_ssa [OF _ assms(5,2)] steps_denote [OF _ assms(3,4)] show ?thesis
    by (auto simp: malApplyPeepholeToFixpoint_def)
qed


section \<open>The standard rules\<close>

text \<open>
  The rules of \<^verbatim>\<open>stdrewrite/mal_peephole.wrs\<close>, in its order. Integer literals of a rule have the
  type \<^verbatim>\<open>i32\<close>.
\<close>

definition peephole_rule ::
  "string \<Rightarrow> MALOpcode \<Rightarrow> MALRuleOperandPattern list \<Rightarrow> MALRuleOperandPattern list \<Rightarrow> MALRewriteRule" where
  "peephole_rule nm opcode match_pats replace_pats =
     \<lparr>mr_name = nm, mr_matchOpcode = opcode, mr_matchOperands = match_pats,
      mr_replaceOpcode = MAL_OP_COPY, mr_replaceOperands = replace_pats\<rparr>"

definition standard_rules :: "MALRewriteRule list" where
  "standard_rules =
     (let x = MAL_RULE_OPERAND_VAR ''x'';
          z = MAL_RULE_OPERAND_IMM_INT (mal_operand_imm_int 0 MAL_TYPE_I32);
          u = MAL_RULE_OPERAND_IMM_INT (mal_operand_imm_int 1 MAL_TYPE_I32) in
     [peephole_rule ''add-zero-right'' MAL_OP_ADD [x, z] [x],
      peephole_rule ''add-zero-left'' MAL_OP_ADD [z, x] [x],
      peephole_rule ''sub-zero'' MAL_OP_SUB [x, z] [x],
      peephole_rule ''mul-zero-right'' MAL_OP_MUL [x, z] [z],
      peephole_rule ''mul-zero-left'' MAL_OP_MUL [z, x] [z],
      peephole_rule ''mul-one-right'' MAL_OP_MUL [x, u] [x],
      peephole_rule ''mul-one-left'' MAL_OP_MUL [u, x] [x],
      peephole_rule ''and-zero-right'' MAL_OP_AND [x, z] [z],
      peephole_rule ''or-zero-right'' MAL_OP_OR [x, z] [x],
      peephole_rule ''xor-zero-right'' MAL_OP_XOR [x, z] [x],
      peephole_rule ''shl-zero-right'' MAL_OP_SHL [x, z] [x],
      peephole_rule ''ashr-zero-right'' MAL_OP_ASHR [x, z] [x]])"

text \<open>The rules are sound wherever zero and one are neutral as in integer arithmetic.\<close>

lemma mal_imm_respects: "float_literals_equal I \<Longrightarrow> imm_respects_equal (mal_imm I)"
  by (auto simp: imm_respects_equal_def mal_imm_def mal_operand_equal_def float_literals_equal_def
      split: MALOperand.splits)

lemma standard_rules_sound:
  "neutral_elements I \<Longrightarrow> list_all (rule_sound (mal_sem I) (mal_imm I)) standard_rules"
  by (simp add: standard_rules_def Let_def peephole_rule_def rule_sound_def mal_sem_def mal_operators_def
      mal_imm_def mal_operand_imm_int_def neutral_elements_def)

lemma standard_rules_decrease: "rules_decrease (\<lambda>opcode. if opcode = MAL_OP_COPY then 0 else 1) standard_rules"
  by (simp add: rules_decrease_def standard_rules_def Let_def peephole_rule_def)

lemma standard_rules_literals: "list_all (\<lambda>rule. literals_no_reg (mr_replaceOperands rule)) standard_rules"
  by (simp add: standard_rules_def Let_def peephole_rule_def mal_operand_imm_int_def)

definition straight_fn :: "MALInst list \<Rightarrow> MALFunction" where
  "straight_fn insts =
     \<lparr>mf_name = ''f'', mf_retType = MAL_TYPE_I32, mf_paramTypes = [MAL_TYPE_I32],
      mf_blocks = [\<lparr>mb_id = 0, mb_name = ''entry'', mb_insts = insts, mb_preds = [], mb_succs = [],
                    mb_domParent = 0, mb_domChildren = [], mb_liveIn = [], mb_liveOut = []\<rparr>],
      mf_nextSSAReg = 2\<rparr>"

definition add_zero_fn :: MALFunction where
  "add_zero_fn = straight_fn
     [\<lparr>mi_id = 0, mi_opcode = MAL_OP_ADD, mi_type = MAL_TYPE_I32, mi_dst = 1,
       mi_operands = [MAL_OPND_REG MAL_TYPE_I32 0, MAL_OPND_IMM_INT MAL_TYPE_I32 0]\<rparr>,
      \<lparr>mi_id = 1, mi_opcode = MAL_OP_RET, mi_type = MAL_TYPE_VOID, mi_dst = MAL_INVALID_REG,
       mi_operands = [MAL_OPND_REG MAL_TYPE_I32 1]\<rparr>]"


text \<open>A repeated variable: two operands that are both NaN do not match it, zero and minus zero do.\<close>

definition sub_same :: MALRewriteRule where
  "sub_same =
     \<lparr>mr_name = ''sub-same'', mr_matchOpcode = MAL_OP_FSUB,
      mr_matchOperands = [MAL_RULE_OPERAND_VAR ''x'', MAL_RULE_OPERAND_VAR ''x''],
      mr_replaceOpcode = MAL_OP_COPY, mr_replaceOperands = [MAL_RULE_OPERAND_VAR ''x'']\<rparr>"

definition sub_floats :: "u64 \<Rightarrow> u64 \<Rightarrow> MALInst" where
  "sub_floats a b =
     \<lparr>mi_id = 0, mi_opcode = MAL_OP_FSUB, mi_type = MAL_TYPE_F64, mi_dst = 1,
      mi_operands = [MAL_OPND_IMM_FLOAT MAL_TYPE_F64 a, MAL_OPND_IMM_FLOAT MAL_TYPE_F64 b]\<rparr>"

theorem mal_mrs_match_rule_iff_witness:
  "mal_mrs_match_rule 8 sub_same (sub_floats 0x7FF8000000000000 0x7FF8000000000000) = None
   \<and> mal_mrs_match_rule 8 sub_same (sub_floats 0 0x8000000000000000) \<noteq> None"
proof -
  have float: "\<not> double_eq 0x7FF8000000000000 0x7FF8000000000000" "double_eq 0 0x8000000000000000"
    by (simp_all add: double_eq_def double_is_nan_def double_is_zero_def)
  have one: "operand_accepted [] (mr_matchOperands sub_same) (mi_operands (sub_floats a b)) 0"
    and two: "operand_accepted [] (mr_matchOperands sub_same) (mi_operands (sub_floats a b)) 1 \<longleftrightarrow> double_eq a b" for a b
    by (simp_all add: operand_accepted_def sub_same_def sub_floats_def mal_operand_equal_def)
  have "length (mi_operands (sub_floats a b)) = 2" for a b by (simp add: sub_floats_def)
  then have "(\<forall>i<length (mi_operands (sub_floats a b)).
      operand_accepted [] (mr_matchOperands sub_same) (mi_operands (sub_floats a b)) i) \<longleftrightarrow> double_eq a b" for a b
    using one two by (auto simp: less_2_cases_iff)
  moreover have "mr_matchOpcode sub_same = mi_opcode (sub_floats a b)
      \<and> length (mr_matchOperands sub_same) = length (mi_operands (sub_floats a b))
      \<and> card (pattern_vars (mr_matchOperands sub_same)) \<le> 8" for a b
    by (simp add: sub_same_def sub_floats_def)
  ultimately have "mal_mrs_match_rule 8 sub_same (sub_floats a b) \<noteq> None \<longleftrightarrow> double_eq a b" for a b
    using mal_mrs_match_rule_iff [of 8 sub_same "sub_floats a b"] by blast
  with float show ?thesis by blast
qed

section \<open>A rule set that never stops\<close>

definition commute_add :: MALRewriteRule where
  "commute_add =
     \<lparr>mr_name = ''commute'', mr_matchOpcode = MAL_OP_ADD,
      mr_matchOperands = [MAL_RULE_OPERAND_VAR ''a'', MAL_RULE_OPERAND_VAR ''b''],
      mr_replaceOpcode = MAL_OP_ADD,
      mr_replaceOperands = [MAL_RULE_OPERAND_VAR ''b'', MAL_RULE_OPERAND_VAR ''a'']\<rparr>"

definition add_fn :: "MALOperand \<Rightarrow> MALOperand \<Rightarrow> MALFunction" where
  "add_fn a b = straight_fn
     [\<lparr>mi_id = 0, mi_opcode = MAL_OP_ADD, mi_type = MAL_TYPE_I32, mi_dst = 1, mi_operands = [a, b]\<rparr>]"

lemma commute_step: "malApplyOnePeephole [commute_add] (add_fn a b) = Some (add_fn b a)"
  by (simp add: malApplyOnePeephole_def add_fn_def straight_fn_def commute_add_def
      mal_mrs_match_rule_def mrs_match_operand_def mal_find_binding_def mal_mrs_build_replacement_def
      mal_inst_create_def mal_inst_add_operand_def)

lemma mrs_fixpoint_no_escape:
  assumes "mrs_fixpoint rules changed fn = Some r" and "P fn"
    and "\<And>fn. P fn \<Longrightarrow> \<exists>fn'. malApplyOnePeephole rules fn = Some fn' \<and> P fn'"
  shows False
proof -
  have "\<not> P fn"
    using assms(1)
  proof (rule mrs_fixpoint.raw_induct
      [where P = "\<lambda>rs c fn r. rs = rules \<longrightarrow> \<not> P fn", THEN mp, OF _ _ refl, rotated])
    fix f :: "MALRewriteRule list \<Rightarrow> bool \<Rightarrow> MALFunction \<Rightarrow> (bool \<times> MALFunction) option"
      and rs c g r
    assume IH: "\<And>rs c fn r. f rs c fn = Some r \<Longrightarrow> rs = rules \<longrightarrow> \<not> P fn"
      and eq: "(case malApplyOnePeephole rs g of None \<Rightarrow> Some (c, g) | Some fn' \<Rightarrow> f rs True fn') = Some r"
    show "rs = rules \<longrightarrow> \<not> P g"
    proof (intro impI notI)
      assume "rs = rules" "P g"
      with assms(3) obtain fn' where "malApplyOnePeephole rules g = Some fn'" "P fn'" by blast
      with IH eq \<open>rs = rules\<close> show False by auto
    qed
  qed
  with assms(2) show False by simp
qed

text \<open>
  The loop has no other stopping condition: with a commutativity rule \<open>add ?a ?b\<close> to
  \<open>add ?b ?a\<close>, \<^verbatim>\<open>malApplyPeepholeToFixpoint\<close> never returns on a function with an addition.
\<close>

theorem peephole_commute_diverges: "malApplyPeepholeToFixpoint [commute_add] (add_fn a b) = None"
proof (rule ccontr)
  assume "malApplyPeepholeToFixpoint [commute_add] (add_fn a b) \<noteq> None"
  then obtain r where "mrs_fixpoint [commute_add] False (add_fn a b) = Some r"
    by (auto simp: malApplyPeepholeToFixpoint_def)
  then show False
    by (rule mrs_fixpoint_no_escape [where P = "\<lambda>fn. \<exists>a b. fn = add_fn a b"]) (use commute_step in blast)+
qed

end
