(* ===== verification/C_Text.thy ===== *)
theory C_Text
  imports Wirble_Prelude "HOL-Library.Char_ord"
begin

text \<open>
  The parts of the C library that read and write numbers in text: \<^verbatim>\<open>isdigit\<close> and
  \<^verbatim>\<open>isspace\<close> in the C locale, \<^verbatim>\<open>strtoll\<close> in base ten, and the conversions of
  \<^verbatim>\<open>printf\<close> for decimal numbers.
\<close>

section \<open>Writing\<close>

definition digit_char :: "nat \<Rightarrow> char" where
  "digit_char n = char_of (48 + n)"

fun show_nat :: "nat \<Rightarrow> string" where
  "show_nat n = (if n < 10 then [digit_char n] else show_nat (n div 10) @ [digit_char (n mod 10)])"

declare show_nat.simps [simp del]

text \<open>\<^verbatim>\<open>%lu\<close> and \<^verbatim>\<open>%lld\<close>.\<close>

definition show_unsigned :: "'a::len word \<Rightarrow> string" where
  "show_unsigned w = show_nat (unat w)"

definition show_int :: "int \<Rightarrow> string" where
  "show_int i = (if i < 0 then ''-'' @ show_nat (nat (- i)) else show_nat (nat i))"

definition show_signed :: "'a::len word \<Rightarrow> string" where
  "show_signed w = show_int (sint w)"

section \<open>Reading\<close>

definition is_digit :: "char \<Rightarrow> bool" where
  "is_digit c \<longleftrightarrow> 48 \<le> (of_char c :: nat) \<and> (of_char c :: nat) \<le> 57"

definition is_space :: "char \<Rightarrow> bool" where
  "is_space c \<longleftrightarrow> (of_char c :: nat) = 32 \<or> (9 \<le> (of_char c :: nat) \<and> (of_char c :: nat) \<le> 13)"

definition digits_val :: "string \<Rightarrow> nat" where
  "digits_val ds = foldl (\<lambda>n c. 10 * n + (of_char c - 48)) 0 ds"

text \<open>
  The number and the rest of the text; with no digit the number is zero and the rest is all
  of the text. A number that does not fit in 64 bits gives the nearest one that does.
\<close>

definition clamp_int64 :: "int \<Rightarrow> int" where
  "clamp_int64 i = max (- (2 ^ 63)) (min (2 ^ 63 - 1) i)"

definition strtoll :: "string \<Rightarrow> int \<times> string" where
  "strtoll text =
     (let s = dropWhile is_space text;
          negative = (case s of [] \<Rightarrow> False | c # _ \<Rightarrow> c = CHR ''-'');
          signed = (case s of [] \<Rightarrow> False | c # _ \<Rightarrow> c = CHR ''-'' \<or> c = CHR ''+'');
          body = (if signed then tl s else s);
          ds = takeWhile is_digit body
      in if ds = [] then (0, text)
         else (clamp_int64 (if negative then - int (digits_val ds) else int (digits_val ds)),
               dropWhile is_digit body))"

section \<open>Reading what was written\<close>

lemma digit_char_val: "n < 10 \<Longrightarrow> (of_char (digit_char n) :: nat) = 48 + n"
  by (simp add: digit_char_def)

lemma digit_char_digit: "n < 10 \<Longrightarrow> is_digit (digit_char n)"
  by (simp add: is_digit_def digit_char_val)

lemma show_nat_digits: "show_nat n \<noteq> [] \<and> list_all is_digit (show_nat n)"
proof (induction n rule: show_nat.induct)
  case (1 n)
  then show ?case using show_nat.simps [of n] by (cases "n < 10") (simp_all add: digit_char_digit)
qed

lemma digits_val_show_nat: "digits_val (show_nat n) = n"
proof (induction n rule: show_nat.induct)
  case (1 n)
  show ?case
  proof (cases "n < 10")
    case True
    then show ?thesis by (subst show_nat.simps) (simp add: digits_val_def digit_char_val)
  next
    case False
    then have "digits_val (show_nat (n div 10)) = n div 10" using 1 by simp
    then show ?thesis using False by (subst show_nat.simps) (simp add: digits_val_def digit_char_val)
  qed
qed

lemma takeWhile_all: "list_all P xs \<Longrightarrow> takeWhile P xs = xs \<and> dropWhile P xs = []"
  by (induction xs) auto

lemma digit_not_space: "is_digit c \<Longrightarrow> \<not> is_space c \<and> c \<noteq> CHR ''-'' \<and> c \<noteq> CHR ''+''"
  by (auto simp: is_digit_def is_space_def)

lemma strtoll_show_int:
  assumes "- (2 ^ 63) \<le> i" "i < 2 ^ 63"
  shows "strtoll (show_int i) = (i, [])" "show_int i \<noteq> []"
proof -
  have clamp: "clamp_int64 i = i" using assms by (simp add: clamp_int64_def)
  note t = takeWhile_all [OF conjunct2 [OF show_nat_digits]]
  show "show_int i \<noteq> []" using show_nat_digits by (simp add: show_int_def)
  show "strtoll (show_int i) = (i, [])"
  proof (cases "i < 0")
    case True
    have "\<not> is_space (CHR ''-'')" by (simp add: is_space_def)
    then show ?thesis using True clamp show_nat_digits [of "nat (- i)"]
      by (simp add: strtoll_def show_int_def Let_def t digits_val_show_nat)
  next
    case False
    obtain c cs where c: "show_nat (nat i) = c # cs" "is_digit c" "list_all is_digit cs"
      using show_nat_digits [of "nat i"] by (cases "show_nat (nat i)") auto
    have "digits_val (c # cs) = nat i" using digits_val_show_nat [of "nat i"] c(1) by simp
    then show ?thesis using False clamp c(2) digit_not_space [OF c(2)] c(3)
      by (simp add: strtoll_def show_int_def Let_def c(1) list_all_iff takeWhile_eq_all_conv [THEN iffD2])
  qed
qed

lemma strtoll_show_signed:
  "strtoll (show_signed (w :: u64)) = (sint w, [])" "show_signed (w :: u64) \<noteq> []"
  using strtoll_show_int [of "sint w"] sint_ge [of w] sint_lt [of w] by (simp_all add: show_signed_def)

end
