(* ===== verification/Sexp_Reader.thy ===== *)
theory Sexp_Reader
  imports C_Text Diagnostics
begin

text \<open>
  The reader of rule files, \<^verbatim>\<open>support/sexp_reader.c\<close>. The parser of the sfsexp library is a
  parameter, from a text to an error number or its list of expressions; the reader wraps the
  text in parentheses, copies the expressions into nodes and offers the queries that the
  loaders use. A pointer to a node is the list of the node and its later siblings, \<open>[]\<close> is
  the null pointer. The text of an atom is what a C string shows of it: it ends at the first
  zero byte, the recorded length does not. Allocation succeeds.
\<close>

section \<open>Nodes\<close>

datatype atom_t = SEXP_BASIC | SEXP_SQUOTE | SEXP_DQUOTE | SEXP_BINARY

text \<open>An expression of the library: a list, or an atom with its bytes, which may be a null pointer.\<close>

datatype sexp_t = SexpList "sexp_t list" | SexpValue atom_t "string option"

datatype WirbleSexpAtomKind =
    WIRBLE_SEXP_ATOM_BARE | WIRBLE_SEXP_ATOM_SINGLE_QUOTED | WIRBLE_SEXP_ATOM_DOUBLE_QUOTED
  | WIRBLE_SEXP_ATOM_BINARY

datatype WirbleSexpNode =
    WIRBLE_SEXP_NODE_ATOM WirbleSexpAtomKind string nat
  | WIRBLE_SEXP_NODE_LIST "WirbleSexpNode list"

type_synonym sexp_ptr = "WirbleSexpNode list"

definition wirble_sexp_atom_kind_from_sfsexp :: "atom_t \<Rightarrow> WirbleSexpAtomKind" where
  "wirble_sexp_atom_kind_from_sfsexp kind =
     (case kind of
        SEXP_SQUOTE \<Rightarrow> WIRBLE_SEXP_ATOM_SINGLE_QUOTED
      | SEXP_DQUOTE \<Rightarrow> WIRBLE_SEXP_ATOM_DOUBLE_QUOTED
      | SEXP_BINARY \<Rightarrow> WIRBLE_SEXP_ATOM_BINARY
      | SEXP_BASIC \<Rightarrow> WIRBLE_SEXP_ATOM_BARE)"

definition c_string :: "string \<Rightarrow> string" where
  "c_string bytes = takeWhile (\<lambda>c. c \<noteq> CHR 0x00) bytes"

text \<open>A value that is not binary is measured by \<^verbatim>\<open>strlen\<close>; a null one has no characters.\<close>

fun wirble_sexp_build_node :: "sexp_t \<Rightarrow> WirbleSexpNode"
  and wirble_sexp_build_from_sfsexp :: "sexp_t list \<Rightarrow> sexp_ptr" where
  "wirble_sexp_build_node (SexpList es) = WIRBLE_SEXP_NODE_LIST (wirble_sexp_build_from_sfsexp es)"
| "wirble_sexp_build_node (SexpValue kind bytes) =
     (let t = (case bytes of None \<Rightarrow> [] | Some b \<Rightarrow> b);
          shown = c_string t
      in WIRBLE_SEXP_NODE_ATOM (wirble_sexp_atom_kind_from_sfsexp kind) shown
           (if kind = SEXP_BINARY then length t else length shown))"
| "wirble_sexp_build_from_sfsexp [] = []"
| "wirble_sexp_build_from_sfsexp (e # es) = wirble_sexp_build_node e # wirble_sexp_build_from_sfsexp es"

section \<open>Trees\<close>

record WirbleSexpTree =
  st_storage :: string
  st_diag :: "WirbleDiagnostics option"
  st_source_name :: "string option"
  st_root :: sexp_ptr
  st_form_count :: nat

definition wirble_sexp_tree_init :: "WirbleDiagnostics option \<Rightarrow> WirbleSexpTree" where
  "wirble_sexp_tree_init diag =
     \<lparr>st_storage = [], st_diag = diag, st_source_name = None, st_root = [], st_form_count = 0\<rparr>"

definition wirble_sexp_tree_reset :: "WirbleSexpTree \<Rightarrow> WirbleSexpTree" where
  "wirble_sexp_tree_reset tree =
     tree\<lparr>st_storage := [], st_source_name := None, st_root := [], st_form_count := 0\<rparr>"

definition wirble_sexp_tree_destroy :: "WirbleSexpTree \<Rightarrow> WirbleSexpTree" where
  "wirble_sexp_tree_destroy tree =
     tree\<lparr>st_storage := [], st_source_name := None, st_root := [], st_form_count := 0\<rparr>"

definition wirble_sexp_safe_source :: "string option \<Rightarrow> string" where
  "wirble_sexp_safe_source name =
     (case name of None \<Rightarrow> ''<sexp>'' | Some s \<Rightarrow> if s = [] then ''<sexp>'' else s)"

text \<open>Without a diagnostics engine nothing is reported.\<close>

definition wirble_sexp_report ::
  "WirbleSexpTree \<Rightarrow> WirbleDiagSeverity \<Rightarrow> string \<Rightarrow> streams \<Rightarrow> WirbleSexpTree \<times> streams" where
  "wirble_sexp_report tree sev message out =
     (case st_diag tree of
        None \<Rightarrow> (tree, out)
      | Some d \<Rightarrow>
          (let r = wirble_diag_vreportf (Some d) sev None (Some (Some message)) out
           in (tree\<lparr>st_diag := fst r\<rparr>, snd r)))"

definition wirble_sexp_wrap_input :: "WirbleSexpTree \<Rightarrow> string \<Rightarrow> WirbleSexpTree" where
  "wirble_sexp_wrap_input tree text =
     tree\<lparr>st_storage := [CHR ''('', CHR 0x0A] @ text @ [CHR 0x0A, CHR '')'', CHR 0x0A] @ [CHR 0x00]\<rparr>"

type_synonym sexp_parser = "string \<Rightarrow> nat + sexp_t list"

definition wirble_sexp_parse_buffer ::
  "sexp_parser \<Rightarrow> WirbleSexpTree \<Rightarrow> streams \<Rightarrow> bool \<times> WirbleSexpTree \<times> streams" where
  "wirble_sexp_parse_buffer parse_sexp tree out =
     (case parse_sexp (butlast (st_storage tree)) of
        Inl err \<Rightarrow>
          (False, wirble_sexp_report tree WIRBLE_DIAG_ERROR
             (''failed to parse s-expression input from '' @ wirble_sexp_safe_source (st_source_name tree)
                @ '' (sfsexp err='' @ show_nat err @ '')'') out)
      | Inr es \<Rightarrow>
          (let children = wirble_sexp_build_from_sfsexp es
           in (True, tree\<lparr>st_root := [WIRBLE_SEXP_NODE_LIST children], st_form_count := length children\<rparr>, out)))"

definition wirble_sexp_tree_parse_cstr ::
  "sexp_parser \<Rightarrow> WirbleSexpTree \<Rightarrow> string option \<Rightarrow> string option \<Rightarrow> streams
     \<Rightarrow> bool \<times> WirbleSexpTree \<times> streams" where
  "wirble_sexp_tree_parse_cstr parse_sexp tree source_name text out =
     (case text of
        None \<Rightarrow> (False, tree, out)
      | Some t \<Rightarrow> wirble_sexp_parse_buffer parse_sexp
          (wirble_sexp_wrap_input
            ((wirble_sexp_tree_reset tree)\<lparr>st_source_name := Some (wirble_sexp_safe_source source_name)\<rparr>) t) out)"

text \<open>The contents of files are a parameter; \<open>None\<close> is a file that cannot be read.\<close>

definition wirble_sexp_tree_parse_file ::
  "sexp_parser \<Rightarrow> (string \<Rightarrow> string option) \<Rightarrow> WirbleSexpTree \<Rightarrow> string option \<Rightarrow> streams
     \<Rightarrow> bool \<times> WirbleSexpTree \<times> streams" where
  "wirble_sexp_tree_parse_file parse_sexp files tree path out =
     (case path of
        None \<Rightarrow> (False, tree, out)
      | Some p \<Rightarrow>
          (let tree = (wirble_sexp_tree_reset tree)\<lparr>st_source_name := Some p\<rparr>
           in case files p of
                None \<Rightarrow> (False, wirble_sexp_report tree WIRBLE_DIAG_ERROR
                          (''failed to read rewrite rules from '' @ wirble_sexp_safe_source (Some p)) out)
              | Some t \<Rightarrow> wirble_sexp_parse_buffer parse_sexp (wirble_sexp_wrap_input tree t) out))"

definition wirble_sexp_tree_root :: "WirbleSexpTree \<Rightarrow> sexp_ptr" where
  "wirble_sexp_tree_root tree = st_root tree"

definition wirble_sexp_tree_form_count :: "WirbleSexpTree \<Rightarrow> nat" where
  "wirble_sexp_tree_form_count tree = st_form_count tree"

section \<open>Queries\<close>

definition wirble_sexp_node_is_atom :: "sexp_ptr \<Rightarrow> bool" where
  "wirble_sexp_node_is_atom p = (case p of WIRBLE_SEXP_NODE_ATOM k t l # _ \<Rightarrow> True | _ \<Rightarrow> False)"

definition wirble_sexp_node_is_list :: "sexp_ptr \<Rightarrow> bool" where
  "wirble_sexp_node_is_list p = (case p of WIRBLE_SEXP_NODE_LIST ns # _ \<Rightarrow> True | _ \<Rightarrow> False)"

text \<open>The field \<open>text\<close>: a null pointer in a list.\<close>

definition sexp_text :: "sexp_ptr \<Rightarrow> string option" where
  "sexp_text p = (case p of WIRBLE_SEXP_NODE_ATOM k t l # _ \<Rightarrow> Some t | _ \<Rightarrow> None)"

definition wirble_sexp_atom_equals :: "sexp_ptr \<Rightarrow> string \<Rightarrow> bool" where
  "wirble_sexp_atom_equals p text \<longleftrightarrow> wirble_sexp_node_is_atom p \<and> sexp_text p = Some text"

text \<open>The field \<open>first_child\<close>.\<close>

definition sexp_children :: "sexp_ptr \<Rightarrow> sexp_ptr" where
  "sexp_children p = (case p of WIRBLE_SEXP_NODE_LIST ns # _ \<Rightarrow> ns | _ \<Rightarrow> [])"

definition wirble_sexp_node_next :: "sexp_ptr \<Rightarrow> sexp_ptr" where
  "wirble_sexp_node_next p = tl p"

definition wirble_sexp_node_child :: "sexp_ptr \<Rightarrow> nat \<Rightarrow> sexp_ptr" where
  "wirble_sexp_node_child p i = (if wirble_sexp_node_is_list p then drop i (sexp_children p) else [])"

definition wirble_sexp_node_child_count :: "sexp_ptr \<Rightarrow> nat" where
  "wirble_sexp_node_child_count p = (if wirble_sexp_node_is_list p then length (sexp_children p) else 0)"

text \<open>The search steps over single elements: a value that reads like the keyword is taken for it.\<close>

fun sexp_find_from :: "sexp_ptr \<Rightarrow> string \<Rightarrow> sexp_ptr" where
  "sexp_find_from [] keyword = []"
| "sexp_find_from (n # ns) keyword =
     (if wirble_sexp_atom_equals (n # ns) keyword then ns else sexp_find_from ns keyword)"

definition wirble_sexp_list_find_keyword :: "sexp_ptr \<Rightarrow> string \<Rightarrow> sexp_ptr" where
  "wirble_sexp_list_find_keyword p keyword =
     (if wirble_sexp_node_is_list p then sexp_find_from (wirble_sexp_node_next (sexp_children p)) keyword else [])"

record WirbleSexpRuleView =
  rv_form :: sexp_ptr
  rv_name :: sexp_ptr
  rv_match :: sexp_ptr
  rv_replace :: sexp_ptr
  rv_condition :: sexp_ptr

definition wirble_sexp_extract_rule :: "sexp_ptr \<Rightarrow> WirbleSexpRuleView option" where
  "wirble_sexp_extract_rule form =
     (if \<not> wirble_sexp_node_is_list form then None
      else if \<not> wirble_sexp_atom_equals (sexp_children form) ''rule'' then None
      else
        (let view = \<lparr>rv_form = form, rv_name = wirble_sexp_list_find_keyword form '':name'',
                     rv_match = wirble_sexp_list_find_keyword form '':match'',
                     rv_replace = wirble_sexp_list_find_keyword form '':replace'',
                     rv_condition = wirble_sexp_list_find_keyword form '':when''\<rparr>
         in if rv_match view \<noteq> [] \<and> rv_replace view \<noteq> [] then Some view else None))"

end
