(* ===== verification/Sexp_Forms.thy ===== *)
theory Sexp_Forms
  imports Sexp_Reader
begin

text \<open>
  Rule files as expressions: the forms that the shipped files are made of, and what the queries
  of the reader answer on them.
\<close>

section \<open>Forms\<close>

definition bare :: "string \<Rightarrow> sexp_t" where
  "bare t = SexpValue SEXP_BASIC (Some t)"

definition binary_form :: "string \<Rightarrow> string \<Rightarrow> string \<Rightarrow> sexp_t" where
  "binary_form op a b = SexpList [bare op, bare a, bare b]"

definition unary_form :: "string \<Rightarrow> string \<Rightarrow> sexp_t" where
  "unary_form op a = SexpList [bare op, bare a]"

definition rule_form :: "string \<Rightarrow> sexp_t \<Rightarrow> sexp_t \<Rightarrow> sexp_t" where
  "rule_form name lhs rhs =
     SexpList [bare ''rule'', bare '':name'', bare name, bare '':match'', lhs, bare '':replace'', rhs]"

section \<open>Their nodes\<close>

lemma c_string_id: "list_all (\<lambda>c. c \<noteq> CHR 0x00) t \<Longrightarrow> c_string t = t"
  by (simp add: c_string_def list_all_iff)

lemma c_string_Cons: "c_string (c # t) = (if c = CHR 0x00 then [] else c # c_string t)"
  by (simp add: c_string_def)

lemma bare_node: "c_string t = t \<Longrightarrow> wirble_sexp_build_node (bare t) = WIRBLE_SEXP_NODE_ATOM WIRBLE_SEXP_ATOM_BARE t (length t)"
  by (simp add: bare_def wirble_sexp_atom_kind_from_sfsexp_def Let_def)

lemma build_map: "wirble_sexp_build_from_sfsexp es = map wirble_sexp_build_node es"
  by (induction es) simp_all

definition no_keyword :: "sexp_t \<Rightarrow> bool" where
  "no_keyword e \<longleftrightarrow> (\<forall>k\<in>{'':name'', '':match'', '':replace'', '':when''}.
     \<not> wirble_sexp_atom_equals [wirble_sexp_build_node e] k)"

lemma atom_equals_hd: "wirble_sexp_atom_equals (n # ns) k = wirble_sexp_atom_equals [n] k"
  by (cases n) (simp_all add: wirble_sexp_atom_equals_def wirble_sexp_node_is_atom_def sexp_text_def)

lemma bare_equals: "c_string t = t \<Longrightarrow> wirble_sexp_atom_equals [wirble_sexp_build_node (bare t)] k \<longleftrightarrow> t = k"
  by (simp add: bare_node wirble_sexp_atom_equals_def wirble_sexp_node_is_atom_def sexp_text_def)

lemma keywords_c_string:
  "c_string ''rule'' = ''rule''" "c_string '':name'' = '':name''" "c_string '':match'' = '':match''"
  "c_string '':replace'' = '':replace''" "c_string '':when'' = '':when''"
  by code_simp+

lemma forms_no_keyword: "no_keyword (binary_form op a b)" "no_keyword (unary_form op a)"
  by (simp_all add: no_keyword_def binary_form_def unary_form_def wirble_sexp_atom_equals_def wirble_sexp_node_is_atom_def)

lemma bare_no_keyword: "c_string t = t \<Longrightarrow> t \<notin> {'':name'', '':match'', '':replace'', '':when''} \<Longrightarrow> no_keyword (bare t)"
  by (simp add: no_keyword_def bare_equals)

text \<open>A rule form is taken apart into its name and its sides.\<close>

lemma extract_rule_form:
  assumes "no_keyword (bare name)" "no_keyword lhs" "no_keyword rhs"
  defines "ns \<equiv> map wirble_sexp_build_node [bare ''rule'', bare '':name'', bare name, bare '':match'', lhs, bare '':replace'', rhs]"
  shows "wirble_sexp_build_node (rule_form name lhs rhs) = WIRBLE_SEXP_NODE_LIST ns"
    and "wirble_sexp_atom_equals ns ''rule''"
    and "wirble_sexp_extract_rule [WIRBLE_SEXP_NODE_LIST ns] = Some \<lparr>rv_form = [WIRBLE_SEXP_NODE_LIST ns],
      rv_name = drop 2 ns, rv_match = drop 4 ns, rv_replace = drop 6 ns, rv_condition = []\<rparr>"
proof -
  note kw = bare_equals [OF keywords_c_string(1)] bare_equals [OF keywords_c_string(2)]
    bare_equals [OF keywords_c_string(3)] bare_equals [OF keywords_c_string(4)]
  show "wirble_sexp_build_node (rule_form name lhs rhs) = WIRBLE_SEXP_NODE_LIST ns" by (simp add: rule_form_def ns_def)
  have find: "sexp_find_from (tl ns) '':name'' = drop 2 ns" "sexp_find_from (tl ns) '':match'' = drop 4 ns"
      "sexp_find_from (tl ns) '':replace'' = drop 6 ns" "sexp_find_from (tl ns) '':when'' = []"
    using assms(1-3) by (simp_all add: ns_def kw atom_equals_hd [of _ "_ # _"] no_keyword_def)
  show head: "wirble_sexp_atom_equals ns ''rule''"
    by (simp add: ns_def atom_equals_hd [of _ "_ # _"] kw)
  show "wirble_sexp_extract_rule [WIRBLE_SEXP_NODE_LIST ns] = Some \<lparr>rv_form = [WIRBLE_SEXP_NODE_LIST ns],
      rv_name = drop 2 ns, rv_match = drop 4 ns, rv_replace = drop 6 ns, rv_condition = []\<rparr>"
    using head by (simp add: wirble_sexp_extract_rule_def wirble_sexp_list_find_keyword_def wirble_sexp_node_is_list_def
        sexp_children_def wirble_sexp_node_next_def find ns_def [symmetric]) (simp add: ns_def)
qed

lemma list_is_list: "wirble_sexp_node_is_list (WIRBLE_SEXP_NODE_LIST ns # rest)"
    "wirble_sexp_node_child (WIRBLE_SEXP_NODE_LIST ns # rest) k = drop k ns"
  by (simp_all add: wirble_sexp_node_is_list_def wirble_sexp_node_child_def sexp_children_def)

end
