(* ===== verification/Mrs_Loader.thy ===== *)
theory Mrs_Loader
  imports Mal_Mrs Sexp_Forms
begin

text \<open>
  The loader of MAL rewrite rules, \<^verbatim>\<open>mal/mrs_loader.c\<close>, and the text of a rule,
  \<^verbatim>\<open>mal/mrs_debug.c\<close>. One form that cannot be read makes the whole file fail. The contents
  of files, the parser of the library and the directory of the shipped rules are parameters.
\<close>

section \<open>Reading a rule\<close>

text \<open>\<open>MAL_OP_TARGET\<close> stands for a name that is no opcode of the rules.\<close>

definition mal_parse_opcode :: "string option \<Rightarrow> MALOpcode" where
  "mal_parse_opcode text =
     (case text of
        None \<Rightarrow> MAL_OP_TARGET
      | Some t \<Rightarrow>
          if t = ''copy'' then MAL_OP_COPY else if t = ''add'' then MAL_OP_ADD
          else if t = ''sub'' then MAL_OP_SUB else if t = ''mul'' then MAL_OP_MUL
          else if t = ''sdiv'' \<or> t = ''div'' then MAL_OP_SDIV
          else if t = ''and'' then MAL_OP_AND else if t = ''or'' then MAL_OP_OR
          else if t = ''xor'' then MAL_OP_XOR else if t = ''shl'' then MAL_OP_SHL
          else if t = ''ashr'' \<or> t = ''shr'' then MAL_OP_ASHR
          else if t = ''ret'' then MAL_OP_RET else MAL_OP_TARGET)"

definition mal_parse_int64 :: "string option \<Rightarrow> u64 option" where
  "mal_parse_int64 text =
     (case text of
        None \<Rightarrow> None
      | Some t \<Rightarrow> (case strtoll t of (v, rest) \<Rightarrow> if rest = t \<or> rest \<noteq> [] then None else Some (word_of_int v)))"

definition mal_load_operand_pattern :: "sexp_ptr \<Rightarrow> MALRuleOperandPattern option" where
  "mal_load_operand_pattern p =
     (case sexp_text p of
        None \<Rightarrow> None
      | Some t \<Rightarrow>
          if t = ''_'' then Some MAL_RULE_OPERAND_ANY
          else if t \<noteq> [] \<and> hd t = CHR ''?'' then Some (MAL_RULE_OPERAND_VAR (tl t))
          else (case mal_parse_int64 (Some t) of
                  None \<Rightarrow> None
                | Some imm \<Rightarrow> Some (MAL_RULE_OPERAND_IMM_INT (mal_operand_imm_int imm MAL_TYPE_I32))))"

text \<open>The first operand that is not readable ends the loop.\<close>

fun mal_load_operands :: "sexp_ptr \<Rightarrow> MALRuleOperandPattern list option" where
  "mal_load_operands [] = Some []"
| "mal_load_operands (n # ns) =
     (case mal_load_operand_pattern (n # ns) of
        None \<Rightarrow> None
      | Some pat \<Rightarrow> map_option ((#) pat) (mal_load_operands ns))"

definition mal_load_pattern_list :: "sexp_ptr \<Rightarrow> (MALOpcode \<times> MALRuleOperandPattern list) option" where
  "mal_load_pattern_list list =
     (if \<not> wirble_sexp_node_is_list list then None
      else let head = wirble_sexp_node_child list 0 in
        if \<not> wirble_sexp_node_is_atom head then None
        else let opcode = mal_parse_opcode (sexp_text head) in
          if opcode = MAL_OP_TARGET then None
          else map_option (Pair opcode) (mal_load_operands (wirble_sexp_node_child list 1)))"

definition mal_load_rule :: "MALRewriteRule list \<Rightarrow> sexp_ptr \<Rightarrow> MALRewriteRule list option" where
  "mal_load_rule mrs form =
     (case wirble_sexp_extract_rule form of
        None \<Rightarrow> None
      | Some view \<Rightarrow>
          (case if rv_name view = [] then Some ''rule'' else sexp_text (rv_name view) of
             None \<Rightarrow> None
           | Some name \<Rightarrow>
               (case (mal_load_pattern_list (rv_match view), mal_load_pattern_list (rv_replace view)) of
                  (Some (mop, mpats), Some (rop, rpats)) \<Rightarrow>
                    Some (mrs @ [\<lparr>mr_name = name, mr_matchOpcode = mop, mr_matchOperands = mpats,
                                 mr_replaceOpcode = rop, mr_replaceOperands = rpats\<rparr>])
                | _ \<Rightarrow> None)))"

section \<open>Reading a file\<close>

text \<open>Forms that are no rules are passed over.\<close>

fun mal_load_forms :: "MALRewriteRule list \<Rightarrow> sexp_ptr \<Rightarrow> MALRewriteRule list option" where
  "mal_load_forms mrs [] = Some mrs"
| "mal_load_forms mrs (form # forms) =
     (if wirble_sexp_node_is_list [form] \<and> wirble_sexp_node_child [form] 0 \<noteq> []
         \<and> wirble_sexp_atom_equals (wirble_sexp_node_child [form] 0) ''rule''
      then (case mal_load_rule mrs [form] of None \<Rightarrow> None | Some mrs \<Rightarrow> mal_load_forms mrs forms)
      else mal_load_forms mrs forms)"

definition mal_load_tree :: "WirbleSexpTree \<Rightarrow> MALRewriteRule list option" where
  "mal_load_tree tree = mal_load_forms [] (wirble_sexp_node_child (wirble_sexp_tree_root tree) 0)"

text \<open>
  A name without a slash is looked for in the directory of the shipped rules first, then as it
  is, then there again; a path of 1024 characters or more is not tried.
\<close>

definition mal_mrs_load ::
  "sexp_parser \<Rightarrow> (string \<Rightarrow> string option) \<Rightarrow> string \<Rightarrow> string option \<Rightarrow> streams
     \<Rightarrow> MALRewriteRule list option \<times> streams" where
  "mal_mrs_load parse_sexp files dir path out =
     (let requested = (case path of None \<Rightarrow> ''mal_peephole.wrs'' | Some p \<Rightarrow> p);
          shipped = dir @ ''/'' @ requested;
          try = (\<lambda>name r. case r of (ok, tree, out) \<Rightarrow>
                   if ok then r else wirble_sexp_tree_parse_file parse_sexp files tree (Some name) out);
          skip = (\<lambda>r. r);
          attempt = (\<lambda>name. if length name < 1024 then try name else skip);
          tree = wirble_sexp_tree_init (Some (wirble_diag_init (Some 2) (Some ''mrs'')));
          r = (False, tree, out);
          r = (if CHR ''/'' \<notin> set requested then attempt shipped r else r);
          r = try requested r;
          r = attempt shipped r
      in case r of (ok, tree, out) \<Rightarrow> (if ok then mal_load_tree tree else None, out))"

text \<open>The operands are given by their numbers.\<close>

definition mal_mrs_rule_to_string :: "MALRewriteRule \<Rightarrow> string" where
  "mal_mrs_rule_to_string rule =
     mr_name rule @ '': '' @ mal_opcode_name (mr_matchOpcode rule) @ '' -> '' @ mal_opcode_name (mr_replaceOpcode rule)
     @ concat (map (\<lambda>i. (if i = 0 then '' ('' else '', '') @ show_nat i) [0..<length (mr_matchOperands rule)])
     @ (if mr_matchOperands rule = [] then [] else '')'')"

section \<open>The shipped rules\<close>

definition mal_peephole_wrs :: "sexp_t list" where
  "mal_peephole_wrs =
    [rule_form ''add-zero-right'' (binary_form ''add'' ''?x'' ''0'') (unary_form ''copy'' ''?x''),
     rule_form ''add-zero-left'' (binary_form ''add'' ''0'' ''?x'') (unary_form ''copy'' ''?x''),
     rule_form ''sub-zero'' (binary_form ''sub'' ''?x'' ''0'') (unary_form ''copy'' ''?x''),
     rule_form ''mul-zero-right'' (binary_form ''mul'' ''?x'' ''0'') (unary_form ''copy'' ''0''),
     rule_form ''mul-zero-left'' (binary_form ''mul'' ''0'' ''?x'') (unary_form ''copy'' ''0''),
     rule_form ''mul-one-right'' (binary_form ''mul'' ''?x'' ''1'') (unary_form ''copy'' ''?x''),
     rule_form ''mul-one-left'' (binary_form ''mul'' ''1'' ''?x'') (unary_form ''copy'' ''?x''),
     rule_form ''and-zero-right'' (binary_form ''and'' ''?x'' ''0'') (unary_form ''copy'' ''0''),
     rule_form ''or-zero-right'' (binary_form ''or'' ''?x'' ''0'') (unary_form ''copy'' ''?x''),
     rule_form ''xor-zero-right'' (binary_form ''xor'' ''?x'' ''0'') (unary_form ''copy'' ''?x''),
     rule_form ''shl-zero-right'' (binary_form ''shl'' ''?x'' ''0'') (unary_form ''copy'' ''?x''),
     rule_form ''ashr-zero-right'' (binary_form ''shr'' ''?x'' ''0'') (unary_form ''copy'' ''?x'')]"

definition rule_of_forms :: "string \<times> sexp_t \<times> sexp_t \<Rightarrow> MALRewriteRule option" where
  "rule_of_forms f =
     (case (mal_load_pattern_list [wirble_sexp_build_node (fst (snd f))],
            mal_load_pattern_list [wirble_sexp_build_node (snd (snd f))]) of
        (Some (mop, mpats), Some (rop, rpats)) \<Rightarrow>
          Some \<lparr>mr_name = fst f, mr_matchOpcode = mop, mr_matchOperands = mpats,
                mr_replaceOpcode = rop, mr_replaceOperands = rpats\<rparr>
      | _ \<Rightarrow> None)"

lemma pattern_list_hd: "mal_load_pattern_list (n # ns) = mal_load_pattern_list [n]"
  by (cases n) (simp_all add: mal_load_pattern_list_def list_is_list wirble_sexp_node_is_list_def Let_def)

text \<open>A form is loaded as the rule it spells; one that is none fails the file.\<close>

lemma load_form:
  assumes "c_string name = name" "no_keyword (bare name)" "no_keyword lhs" "no_keyword rhs"
  shows "mal_load_forms mrs (wirble_sexp_build_node (rule_form name lhs rhs) # forms) =
    (case rule_of_forms (name, lhs, rhs) of None \<Rightarrow> None | Some r \<Rightarrow> mal_load_forms (mrs @ [r]) forms)"
proof -
  let ?ns = "map wirble_sexp_build_node [bare ''rule'', bare '':name'', bare name, bare '':match'', lhs, bare '':replace'', rhs]"
  note e = extract_rule_form [OF assms(2-4)]
  have "mal_load_rule mrs [WIRBLE_SEXP_NODE_LIST ?ns] = map_option (\<lambda>r. mrs @ [r]) (rule_of_forms (name, lhs, rhs))"
    by (simp only: mal_load_rule_def e option.case WirbleSexpRuleView.simps)
      (simp add: bare_node [OF assms(1)] sexp_text_def rule_of_forms_def
        pattern_list_hd [of _ "_ # _"] split: option.splits prod.splits)
  moreover have "?ns \<noteq> []" by simp
  ultimately show ?thesis
    by (simp only: mal_load_forms.simps e list_is_list drop_0 simp_thms if_True not_False_eq_True)
      (simp split: option.splits)
qed

fun load_forms_spec :: "(string \<times> sexp_t \<times> sexp_t) list \<Rightarrow> MALRewriteRule list option" where
  "load_forms_spec [] = Some []"
| "load_forms_spec (f # fs) =
     (case rule_of_forms f of None \<Rightarrow> None | Some r \<Rightarrow> map_option ((#) r) (load_forms_spec fs))"

lemma load_forms:
  assumes "\<forall>(name, lhs, rhs)\<in>set fs. c_string name = name \<and> no_keyword (bare name) \<and> no_keyword lhs \<and> no_keyword rhs"
  shows "mal_load_forms mrs (map (\<lambda>(name, lhs, rhs). wirble_sexp_build_node (rule_form name lhs rhs)) fs)
    = map_option ((@) mrs) (load_forms_spec fs)"
  using assms
proof (induction fs arbitrary: mrs)
  case (Cons f fs)
  obtain name lhs rhs where f: "f = (name, lhs, rhs)" by (cases f)
  have ok: "c_string name = name" "no_keyword (bare name)" "no_keyword lhs" "no_keyword rhs" using Cons.prems by (simp_all add: f)
  show ?case
  proof (cases "rule_of_forms f")
    case None
    then show ?thesis using load_form [OF ok] by (simp add: f del: mal_load_forms.simps)
  next
    case (Some r)
    then show ?thesis using load_form [OF ok] Cons.IH [of "mrs @ [r]"] Cons.prems
      by (simp add: f option.map_comp o_def del: mal_load_forms.simps)
  qed
qed simp

lemma read_operand:
  "mal_load_operand_pattern (wirble_sexp_build_node (bare ''?x'') # ns) = Some (MAL_RULE_OPERAND_VAR ''x'')"
  "mal_load_operand_pattern (wirble_sexp_build_node (bare ''0'') # ns)
     = Some (MAL_RULE_OPERAND_IMM_INT (mal_operand_imm_int 0 MAL_TYPE_I32))"
  "mal_load_operand_pattern (wirble_sexp_build_node (bare ''1'') # ns)
     = Some (MAL_RULE_OPERAND_IMM_INT (mal_operand_imm_int 1 MAL_TYPE_I32))"
proof -
  have n: "strtoll ''0'' = (0, [])" "strtoll ''1'' = (1, [])" by code_simp+
  show "mal_load_operand_pattern (wirble_sexp_build_node (bare ''?x'') # ns) = Some (MAL_RULE_OPERAND_VAR ''x'')"
    "mal_load_operand_pattern (wirble_sexp_build_node (bare ''0'') # ns)
       = Some (MAL_RULE_OPERAND_IMM_INT (mal_operand_imm_int 0 MAL_TYPE_I32))"
    "mal_load_operand_pattern (wirble_sexp_build_node (bare ''1'') # ns)
       = Some (MAL_RULE_OPERAND_IMM_INT (mal_operand_imm_int 1 MAL_TYPE_I32))"
    by (simp_all add: bare_node c_string_id mal_load_operand_pattern_def sexp_text_def mal_parse_int64_def n)
qed

lemma read_list:
  assumes "c_string op = op" "mal_parse_opcode (Some op) = opcode" "opcode \<noteq> MAL_OP_TARGET"
  shows "mal_load_pattern_list [wirble_sexp_build_node (binary_form op a b)]
      = map_option (Pair opcode) (mal_load_operands [wirble_sexp_build_node (bare a), wirble_sexp_build_node (bare b)])"
    and "mal_load_pattern_list [wirble_sexp_build_node (unary_form op a)]
      = map_option (Pair opcode) (mal_load_operands [wirble_sexp_build_node (bare a)])"
  using assms(2,3)
  by (simp_all add: mal_load_pattern_list_def binary_form_def unary_form_def list_is_list wirble_sexp_node_is_atom_def
      bare_node [OF assms(1)] sexp_text_def Let_def del: mal_load_operands.simps)

text \<open>
  The shipped peephole rules are what the loader makes of their file: from the expressions of
  \<^verbatim>\<open>stdrewrite/mal_peephole.wrs\<close> it reads the twelve rules, in the order of the file.
\<close>

theorem mal_peephole_wrs_loaded:
  "mal_load_tree ((wirble_sexp_tree_init diag)
      \<lparr>st_root := [WIRBLE_SEXP_NODE_LIST (wirble_sexp_build_from_sfsexp mal_peephole_wrs)]\<rparr>) = Some standard_rules"
proof -
  define fs where "fs =
    [(''add-zero-right'', binary_form ''add'' ''?x'' ''0'', unary_form ''copy'' ''?x''),
     (''add-zero-left'', binary_form ''add'' ''0'' ''?x'', unary_form ''copy'' ''?x''),
     (''sub-zero'', binary_form ''sub'' ''?x'' ''0'', unary_form ''copy'' ''?x''),
     (''mul-zero-right'', binary_form ''mul'' ''?x'' ''0'', unary_form ''copy'' ''0''),
     (''mul-zero-left'', binary_form ''mul'' ''0'' ''?x'', unary_form ''copy'' ''0''),
     (''mul-one-right'', binary_form ''mul'' ''?x'' ''1'', unary_form ''copy'' ''?x''),
     (''mul-one-left'', binary_form ''mul'' ''1'' ''?x'', unary_form ''copy'' ''?x''),
     (''and-zero-right'', binary_form ''and'' ''?x'' ''0'', unary_form ''copy'' ''0''),
     (''or-zero-right'', binary_form ''or'' ''?x'' ''0'', unary_form ''copy'' ''?x''),
     (''xor-zero-right'', binary_form ''xor'' ''?x'' ''0'', unary_form ''copy'' ''?x''),
     (''shl-zero-right'', binary_form ''shl'' ''?x'' ''0'', unary_form ''copy'' ''?x''),
     (''ashr-zero-right'', binary_form ''shr'' ''?x'' ''0'', unary_form ''copy'' ''?x'')]"
  have forms: "wirble_sexp_build_from_sfsexp mal_peephole_wrs =
      map (\<lambda>(name, lhs, rhs). wirble_sexp_build_node (rule_form name lhs rhs)) fs"
    by (simp add: build_map mal_peephole_wrs_def fs_def)
  have "\<forall>(name, lhs, rhs)\<in>set fs. c_string name = name \<and> no_keyword (bare name) \<and> no_keyword lhs \<and> no_keyword rhs"
    by (simp add: fs_def forms_no_keyword bare_no_keyword c_string_id)
  note load = load_forms [OF this]
  have ops: "mal_parse_opcode (Some ''copy'') = MAL_OP_COPY" "mal_parse_opcode (Some ''add'') = MAL_OP_ADD"
      "mal_parse_opcode (Some ''sub'') = MAL_OP_SUB" "mal_parse_opcode (Some ''mul'') = MAL_OP_MUL"
      "mal_parse_opcode (Some ''and'') = MAL_OP_AND" "mal_parse_opcode (Some ''or'') = MAL_OP_OR"
      "mal_parse_opcode (Some ''xor'') = MAL_OP_XOR" "mal_parse_opcode (Some ''shl'') = MAL_OP_SHL"
      "mal_parse_opcode (Some ''shr'') = MAL_OP_ASHR"
    by (simp_all add: mal_parse_opcode_def)
  have "load_forms_spec fs = Some standard_rules"
    by (simp add: fs_def standard_rules_def peephole_rule_def Let_def rule_of_forms_def read_operand c_string_id
        read_list [OF _ ops(1)] read_list [OF _ ops(2)] read_list [OF _ ops(3)] read_list [OF _ ops(4)]
        read_list [OF _ ops(5)] read_list [OF _ ops(6)] read_list [OF _ ops(7)] read_list [OF _ ops(8)]
        read_list [OF _ ops(9)])
  then show ?thesis
    by (simp add: mal_load_tree_def wirble_sexp_tree_root_def wirble_sexp_node_child_def
        wirble_sexp_node_is_list_def sexp_children_def forms load)
qed

end
