(* ===== verification/Wil_Printer.thy ===== *)
theory Wil_Printer
  imports C_Text Wil
begin

text \<open>
  The names and the listing of graphs, \<^verbatim>\<open>wil/wil_printer.c\<close>. A function that prints on a
  stream is given as the text it prints; the conversion \<^verbatim>\<open>%g\<close> of a \<^verbatim>\<open>double\<close>, given by
  its bits, is a parameter.
\<close>

definition wil_node_kind_str :: "WILNodeKind \<Rightarrow> string" where
  "wil_node_kind_str kind =
     (case kind of
        WIL_NODE_CONST_INT \<Rightarrow> ''const_int'' | WIL_NODE_CONST_FLOAT \<Rightarrow> ''const_float''
      | WIL_NODE_CONST_BOOL \<Rightarrow> ''const_bool'' | WIL_NODE_UNDEF \<Rightarrow> ''undef'' | WIL_NODE_PARAM \<Rightarrow> ''param''
      | WIL_NODE_ADD \<Rightarrow> ''add'' | WIL_NODE_SUB \<Rightarrow> ''sub'' | WIL_NODE_MUL \<Rightarrow> ''mul'' | WIL_NODE_DIV \<Rightarrow> ''div''
      | WIL_NODE_MOD \<Rightarrow> ''mod'' | WIL_NODE_AND \<Rightarrow> ''and'' | WIL_NODE_OR \<Rightarrow> ''or'' | WIL_NODE_XOR \<Rightarrow> ''xor''
      | WIL_NODE_SHL \<Rightarrow> ''shl'' | WIL_NODE_SHR \<Rightarrow> ''shr'' | WIL_NODE_NEG \<Rightarrow> ''neg'' | WIL_NODE_NOT \<Rightarrow> ''not''
      | WIL_NODE_ABS \<Rightarrow> ''abs'' | WIL_NODE_EQ \<Rightarrow> ''eq'' | WIL_NODE_NE \<Rightarrow> ''ne'' | WIL_NODE_LT \<Rightarrow> ''lt''
      | WIL_NODE_LE \<Rightarrow> ''le'' | WIL_NODE_GT \<Rightarrow> ''gt'' | WIL_NODE_GE \<Rightarrow> ''ge'' | WIL_NODE_LOAD \<Rightarrow> ''load''
      | WIL_NODE_STORE \<Rightarrow> ''store'' | WIL_NODE_ALLOCA \<Rightarrow> ''alloca'' | WIL_NODE_START \<Rightarrow> ''start''
      | WIL_NODE_REGION \<Rightarrow> ''region'' | WIL_NODE_IF \<Rightarrow> ''if'' | WIL_NODE_LOOP \<Rightarrow> ''loop''
      | WIL_NODE_RETURN \<Rightarrow> ''return'' | WIL_NODE_JUMP \<Rightarrow> ''jump'' | WIL_NODE_PROJ \<Rightarrow> ''proj''
      | WIL_NODE_PHI \<Rightarrow> ''phi'' | WIL_NODE_CALL \<Rightarrow> ''call'' | WIL_NODE_CALL_INDIRECT \<Rightarrow> ''call_indirect''
      | WIL_NODE_CAST \<Rightarrow> ''cast'' | WIL_NODE_BITCAST \<Rightarrow> ''bitcast'' | WIL_NODE_EXTRACT \<Rightarrow> ''extract''
      | WIL_NODE_INSERT \<Rightarrow> ''insert'' | WIL_NODE_SELECT \<Rightarrow> ''select'')"

definition wil_type_str :: "WILType \<Rightarrow> string" where
  "wil_type_str ty =
     (case ty of
        WIL_TYPE_VOID \<Rightarrow> ''void'' | WIL_TYPE_I1 \<Rightarrow> ''i1'' | WIL_TYPE_I8 \<Rightarrow> ''i8'' | WIL_TYPE_I16 \<Rightarrow> ''i16''
      | WIL_TYPE_I32 \<Rightarrow> ''i32'' | WIL_TYPE_I64 \<Rightarrow> ''i64'' | WIL_TYPE_F32 \<Rightarrow> ''f32'' | WIL_TYPE_F64 \<Rightarrow> ''f64''
      | WIL_TYPE_PTR \<Rightarrow> ''ptr'' | WIL_TYPE_CONTROL \<Rightarrow> ''control'')"

definition wil_edge_kind_str :: "WILEdgeKind \<Rightarrow> string" where
  "wil_edge_kind_str kind =
     (case kind of WIL_EDGE_DATA \<Rightarrow> ''data'' | WIL_EDGE_CONTROL \<Rightarrow> ''control'' | WIL_EDGE_EFFECT \<Rightarrow> ''effect'')"

definition wil_print_payload :: "(u64 \<Rightarrow> string) \<Rightarrow> WILNode \<Rightarrow> string" where
  "wil_print_payload show_g n =
     (case wn_kind n of
        WIL_NODE_CONST_INT \<Rightarrow> '' '' @ show_signed (wn_payload n)
      | WIL_NODE_CONST_FLOAT \<Rightarrow> '' '' @ show_g (wn_payload n)
      | WIL_NODE_CONST_BOOL \<Rightarrow> '' '' @ (if (ucast (wn_payload n) :: u32) \<noteq> 0 then ''true'' else ''false'')
      | WIL_NODE_PARAM \<Rightarrow> '' #'' @ show_unsigned (wn_payload n)
      | WIL_NODE_PROJ \<Rightarrow> '' #'' @ show_unsigned (wn_payload n)
      | WIL_NODE_EXTRACT \<Rightarrow> '' #'' @ show_unsigned (wn_payload n)
      | WIL_NODE_INSERT \<Rightarrow> '' #'' @ show_unsigned (wn_payload n)
      | WIL_NODE_CALL \<Rightarrow> (case wn_name n of None \<Rightarrow> [] | Some name \<Rightarrow> '' '' @ name)
      | _ \<Rightarrow> [])"

definition wil_print_node :: "(u64 \<Rightarrow> string) \<Rightarrow> WILGraph \<Rightarrow> node_ptr \<Rightarrow> string" where
  "wil_print_node show_g g node =
     (case wil_node_get g node of
        None \<Rightarrow> []
      | Some n \<Rightarrow>
          ''n'' @ show_unsigned (wn_id n) @ '' = '' @ wil_node_kind_str (wn_kind n) @ '' : '' @ wil_type_str (wn_type n)
          @ (case wn_name n of None \<Rightarrow> [] | Some name \<Rightarrow> if wn_kind n \<noteq> WIL_NODE_CALL then '' ['' @ name @ '']'' else [])
          @ wil_print_payload show_g n
          @ (if wn_inputs n = [] then []
             else '' <-'' @ concat (map (\<lambda>(p, ek). '' '' @ wil_edge_kind_str ek @ '':n'' @ show_unsigned (wil_node_id g p))
                                 (wn_inputs n)))
          @ [CHR 0x0A])"

definition wil_print_graph :: "(u64 \<Rightarrow> string) \<Rightarrow> WILGraph \<Rightarrow> string" where
  "wil_print_graph show_g g =
     ''WIL graph: '' @ show_nat (length g) @ '' nodes'' @ [CHR 0x0A]
     @ concat (map (\<lambda>i. wil_print_node show_g g (Some i)) [0..<length g])"

text \<open>The kinds in the order of the C enumeration.\<close>

definition wil_node_kinds :: "WILNodeKind list" where
  "wil_node_kinds =
    [WIL_NODE_CONST_INT, WIL_NODE_CONST_FLOAT, WIL_NODE_CONST_BOOL, WIL_NODE_UNDEF, WIL_NODE_PARAM,
     WIL_NODE_ADD, WIL_NODE_SUB, WIL_NODE_MUL, WIL_NODE_DIV, WIL_NODE_MOD, WIL_NODE_AND, WIL_NODE_OR,
     WIL_NODE_XOR, WIL_NODE_SHL, WIL_NODE_SHR, WIL_NODE_NEG, WIL_NODE_NOT, WIL_NODE_ABS,
     WIL_NODE_EQ, WIL_NODE_NE, WIL_NODE_LT, WIL_NODE_LE, WIL_NODE_GT, WIL_NODE_GE,
     WIL_NODE_LOAD, WIL_NODE_STORE, WIL_NODE_ALLOCA, WIL_NODE_START, WIL_NODE_REGION, WIL_NODE_IF,
     WIL_NODE_LOOP, WIL_NODE_RETURN, WIL_NODE_JUMP, WIL_NODE_PROJ, WIL_NODE_PHI, WIL_NODE_CALL,
     WIL_NODE_CALL_INDIRECT, WIL_NODE_CAST, WIL_NODE_BITCAST, WIL_NODE_EXTRACT, WIL_NODE_INSERT,
     WIL_NODE_SELECT]"

lemma wil_node_kinds_all: "k \<in> set wil_node_kinds"
  by (cases k) (simp_all add: wil_node_kinds_def)

text \<open>Different kinds have different names.\<close>

lemma wil_node_kind_strs:
  "map wil_node_kind_str wil_node_kinds =
    [''const_int'', ''const_float'', ''const_bool'', ''undef'', ''param'', ''add'', ''sub'', ''mul'', ''div'',
     ''mod'', ''and'', ''or'', ''xor'', ''shl'', ''shr'', ''neg'', ''not'', ''abs'', ''eq'', ''ne'', ''lt'', ''le'',
     ''gt'', ''ge'', ''load'', ''store'', ''alloca'', ''start'', ''region'', ''if'', ''loop'', ''return'', ''jump'',
     ''proj'', ''phi'', ''call'', ''call_indirect'', ''cast'', ''bitcast'', ''extract'', ''insert'', ''select'']"
  by (simp add: wil_node_kinds_def wil_node_kind_str_def)

lemma wil_node_kind_str_inj: "wil_node_kind_str k = wil_node_kind_str l \<Longrightarrow> k = l"
proof -
  have "distinct (map wil_node_kind_str wil_node_kinds)" unfolding wil_node_kind_strs by simp
  then have "inj_on wil_node_kind_str (set wil_node_kinds)" by (simp add: distinct_map)
  then show "wil_node_kind_str k = wil_node_kind_str l \<Longrightarrow> k = l" by (simp add: inj_on_def wil_node_kinds_all)
qed

end
