(* ===== verification/Loops.thy ===== *)
theory Loops
  imports Wirble_Prelude "HOL-Library.Monad_Syntax"
begin

text \<open>
  Loops whose body may run forever. A computation of type \<open>'a option\<close> is \<open>None\<close> when the C
  code does not return; \<open>loop\<close> runs a body over the elements of a list, as a \<^verbatim>\<open>for\<close> loop
  does, and may stand inside a \<open>partial_function\<close> definition. A computation of type
  \<open>'a cres option\<close> may in addition stop with undefined behaviour.
\<close>

section \<open>Loops over a list\<close>

primrec loop :: "('s \<Rightarrow> 'a \<Rightarrow> 's option) \<Rightarrow> 's \<Rightarrow> 'a list \<Rightarrow> 's option" where
  "loop body s [] = Some s"
| "loop body s (x # xs) = Option.bind (body s x) (\<lambda>s'. loop body s' xs)"

abbreviation mono_opt :: "(('a \<Rightarrow> 'b option) \<Rightarrow> 'c option) \<Rightarrow> bool" where
  "mono_opt \<equiv> monotone (fun_ord option_ord) option_ord"

lemma loop_mono [partial_function_mono]:
  assumes "\<And>s x. mono_opt (\<lambda>f. body f s x)"
  shows "mono_opt (\<lambda>f. loop (body f) s xs)"
proof (induction xs arbitrary: s)
  case Nil
  then show ?case by (simp add: monotone_def flat_ord_def)
next
  case (Cons x xs)
  show ?case unfolding loop.simps by (rule bind_mono [OF assms Cons.IH])
qed

lemma loop_cong [fundef_cong]:
  assumes "s = s'" and "xs = xs'" and "\<And>s x. x \<in> set xs' \<Longrightarrow> body s x = body' s x"
  shows "loop body s xs = loop body' s' xs'"
  unfolding assms(1,2) using assms(3)
proof (induction xs' arbitrary: s')
  case (Cons x xs)
  then show ?case by (cases "body' s' x") simp_all
qed simp

lemma loop_append: "loop body s (xs @ ys) = Option.bind (loop body s xs) (\<lambda>s'. loop body s' ys)"
proof (induction xs arbitrary: s)
  case (Cons x xs)
  then show ?case by (cases "body s x") simp_all
qed simp

text \<open>
  The invariant rule: a body that always returns and keeps the invariant gives a loop that
  returns in a state with the invariant.
\<close>

lemma loop_returns:
  assumes "I s" and "\<And>s x. x \<in> set xs \<Longrightarrow> I s \<Longrightarrow> \<exists>s'. body s x = Some s' \<and> I s'"
  shows "\<exists>s'. loop body s xs = Some s' \<and> I s'"
  using assms
proof (induction xs arbitrary: s)
  case (Cons x xs)
  then obtain s' where "body s x = Some s'" "I s'" by (meson list.set_intros(1))
  with Cons show ?case by auto
qed simp

lemma loop_invariant:
  assumes "loop body s xs = Some s'" and "I s"
    and "\<And>s x s'. x \<in> set xs \<Longrightarrow> I s \<Longrightarrow> body s x = Some s' \<Longrightarrow> I s'"
  shows "I s'"
  using assms
proof (induction xs arbitrary: s)
  case (Cons x xs)
  from Cons.prems(1) obtain t where t: "body s x = Some t" "loop body t xs = Some s'"
    by (cases "body s x") simp_all
  from Cons.IH [OF t(2)] Cons.prems(2,3) t(1) show ?case by (meson list.set_intros)
qed simp

section \<open>Undefined behaviour and divergence together\<close>

definition ubind :: "'a cres option \<Rightarrow> ('a \<Rightarrow> 'b cres option) \<Rightarrow> 'b cres option" where
  "ubind m f = Option.bind m (\<lambda>r. case r of Inl e \<Rightarrow> Some (Inl e) | Inr x \<Rightarrow> f x)"

lemma ubind_simps [simp]:
  "ubind None f = None" "ubind (Some (Inl e)) f = Some (Inl e)" "ubind (Some (Inr x)) f = f x"
  by (simp_all add: ubind_def)

lemma ubind_mono [partial_function_mono]:
  assumes "mono_opt B" and "\<And>y. mono_opt (\<lambda>f. C y f)"
  shows "mono_opt (\<lambda>f. ubind (B f) (\<lambda>y. C y f))"
  unfolding ubind_def
proof (rule bind_mono [OF assms(1)])
  show "mono_opt (\<lambda>f. case r of Inl e \<Rightarrow> Some (Inl e) | Inr x \<Rightarrow> C x f)" for r
  proof (cases r)
    case (Inl e)
    then show ?thesis by (simp add: monotone_def flat_ord_def)
  next
    case (Inr x)
    then show ?thesis using assms(2) [of x] by simp
  qed
qed

lemma ubind_eq_Inr: "ubind m f = Some (Inr y) \<longleftrightarrow> (\<exists>x. m = Some (Inr x) \<and> f x = Some (Inr y))"
  by (cases m) (auto simp: ubind_def split: sum.splits)

primrec uloop :: "('s \<Rightarrow> 'a \<Rightarrow> 's cres option) \<Rightarrow> 's \<Rightarrow> 'a list \<Rightarrow> 's cres option" where
  "uloop body s [] = Some (Inr s)"
| "uloop body s (x # xs) = ubind (body s x) (\<lambda>s'. uloop body s' xs)"

lemma uloop_mono [partial_function_mono]:
  assumes "\<And>s x. mono_opt (\<lambda>f. body f s x)"
  shows "mono_opt (\<lambda>f. uloop (body f) s xs)"
proof (induction xs arbitrary: s)
  case Nil
  then show ?case by (simp add: monotone_def flat_ord_def)
next
  case (Cons x xs)
  show ?case unfolding uloop.simps by (rule ubind_mono [OF assms Cons.IH])
qed

lemma uloop_returns:
  assumes "I s" and "\<And>s x. x \<in> set xs \<Longrightarrow> I s \<Longrightarrow> \<exists>s'. body s x = Some (Inr s') \<and> I s'"
  shows "\<exists>s'. uloop body s xs = Some (Inr s') \<and> I s'"
  using assms
proof (induction xs arbitrary: s)
  case (Cons x xs)
  then obtain s' where "body s x = Some (Inr s')" "I s'" by (meson list.set_intros(1))
  with Cons show ?case by auto
qed simp

lemma uloop_invariant:
  assumes "uloop body s xs = Some (Inr s')" and "I s"
    and "\<And>s x s'. x \<in> set xs \<Longrightarrow> I s \<Longrightarrow> body s x = Some (Inr s') \<Longrightarrow> I s'"
  shows "I s'"
  using assms
proof (induction xs arbitrary: s)
  case (Cons x xs)
  from Cons.prems(1) obtain t where t: "body s x = Some (Inr t)" "uloop body t xs = Some (Inr s')"
    by (auto simp: ubind_eq_Inr)
  from Cons.IH [OF t(2)] Cons.prems(2,3) t(1) show ?case by (meson list.set_intros)
qed simp

end
