(* ===== verification/Equinox.thy ===== *)
theory Equinox
  imports Loops
begin

text \<open>
  The e-graph of \<^verbatim>\<open>third_party/equinox\<close> that the WRS matcher asks whether two nodes are
  equivalent: the union-find structure with path compression and union by rank
  (\<^verbatim>\<open>unionfind.c\<close>), hash-consing (\<^verbatim>\<open>hashcons.c\<close>), e-classes with their linked node lists
  (\<^verbatim>\<open>eclass.c\<close>, \<^verbatim>\<open>enode.c\<close>), adding, merging and rebuilding (\<^verbatim>\<open>egraph.c\<close>), and e-matching with
  rewriting (\<^verbatim>\<open>rewrite.c\<close>). Ids are natural numbers, the invalid id is the largest 32-bit
  number; allocation succeeds, so capacities appear only where they steer the hash table.
\<close>

section \<open>Union-find\<close>

definition EQX_ECLASS_ID_INVALID :: nat where
  "EQX_ECLASS_ID_INVALID = 4294967295"

record unionfind =
  uf_parent :: "nat list"
  uf_rank :: "nat list"
  uf_set_count :: nat

definition eqx_unionfind_create :: unionfind where
  "eqx_unionfind_create = \<lparr>uf_parent = [], uf_rank = [], uf_set_count = 0\<rparr>"

definition eqx_unionfind_size :: "unionfind \<Rightarrow> nat" where
  "eqx_unionfind_size uf = length (uf_parent uf)"

definition eqx_unionfind_make_set :: "unionfind \<Rightarrow> nat \<times> unionfind" where
  "eqx_unionfind_make_set uf =
     (eqx_unionfind_size uf,
      uf\<lparr>uf_parent := uf_parent uf @ [eqx_unionfind_size uf], uf_rank := uf_rank uf @ [0],
         uf_set_count := uf_set_count uf + 1\<rparr>)"

text \<open>
  The recursion follows the parents up to a root and, on the way back, points every node of
  the path to it. On a cycle of parents it would not return.
\<close>

partial_function (option) eqx_unionfind_find :: "unionfind \<Rightarrow> nat \<Rightarrow> (nat \<times> unionfind) option" where
  "eqx_unionfind_find uf i =
     (if eqx_unionfind_size uf \<le> i then Some (EQX_ECLASS_ID_INVALID, uf)
      else if uf_parent uf ! i \<noteq> i then
        Option.bind (eqx_unionfind_find uf (uf_parent uf ! i))
          (\<lambda>p. Some (fst p, (snd p)\<lparr>uf_parent := (uf_parent (snd p))[i := fst p]\<rparr>))
      else Some (i, uf))"

definition eqx_unionfind_union :: "unionfind \<Rightarrow> nat \<Rightarrow> nat \<Rightarrow> (nat \<times> unionfind) option" where
  "eqx_unionfind_union uf i j =
     (if eqx_unionfind_size uf \<le> i \<or> eqx_unionfind_size uf \<le> j then Some (EQX_ECLASS_ID_INVALID, uf)
      else do {
        (root1, uf1) \<leftarrow> eqx_unionfind_find uf i;
        (root2, uf2) \<leftarrow> eqx_unionfind_find uf1 j;
        Some (if root1 = root2 then (root1, uf2)
              else if uf_rank uf2 ! root1 < uf_rank uf2 ! root2 then
                (root2, uf2\<lparr>uf_parent := (uf_parent uf2)[root1 := root2],
                            uf_set_count := uf_set_count uf2 - 1\<rparr>)
              else if uf_rank uf2 ! root2 < uf_rank uf2 ! root1 then
                (root1, uf2\<lparr>uf_parent := (uf_parent uf2)[root2 := root1],
                            uf_set_count := uf_set_count uf2 - 1\<rparr>)
              else
                (root1, uf2\<lparr>uf_parent := (uf_parent uf2)[root2 := root1],
                            uf_rank := (uf_rank uf2)[root1 := uf_rank uf2 ! root1 + 1],
                            uf_set_count := uf_set_count uf2 - 1\<rparr>))
      })"

definition eqx_unionfind_equiv :: "unionfind \<Rightarrow> nat \<Rightarrow> nat \<Rightarrow> (bool \<times> unionfind) option" where
  "eqx_unionfind_equiv uf i j =
     (if eqx_unionfind_size uf \<le> i \<or> eqx_unionfind_size uf \<le> j then Some (False, uf)
      else do {
        (r1, uf1) \<leftarrow> eqx_unionfind_find uf i;
        (r2, uf2) \<leftarrow> eqx_unionfind_find uf1 j;
        Some (r1 = r2, uf2)
      })"

section \<open>E-nodes and the hash table\<close>

text \<open>What \<open>eqx_enode_equal\<close> compares and \<open>eqx_enode_hash\<close> reads: operator and children.\<close>

type_synonym eqx_key = "u32 \<times> nat list"

definition eqx_enode_hash :: "eqx_key \<Rightarrow> u32" where
  "eqx_enode_hash k =
     foldl (\<lambda>hash c. (hash XOR of_nat c) * 16777619)
       ((((2166136261 XOR fst k) * 16777619) XOR of_nat (length (snd k))) * 16777619) (snd k)"

record hashcons =
  hc_size :: nat
  hc_buckets :: "(eqx_key \<times> nat) list list"

definition eqx_hashcons_create :: "nat \<Rightarrow> hashcons" where
  "eqx_hashcons_create initial_capacity =
     \<lparr>hc_size = 0, hc_buckets = replicate (if initial_capacity = 0 then 16 else initial_capacity) []\<rparr>"

definition eqx_bucket :: "nat \<Rightarrow> eqx_key \<Rightarrow> nat" where
  "eqx_bucket n k = unat (eqx_enode_hash k) mod n"

definition eqx_hashcons_lookup :: "hashcons \<Rightarrow> eqx_key \<Rightarrow> nat option" where
  "eqx_hashcons_lookup hc k =
     (if hc_buckets hc = [] then None
      else map_of (hc_buckets hc ! eqx_bucket (length (hc_buckets hc)) k) k)"

text \<open>
  The load factor is 0.75: the comparison of the \<^verbatim>\<open>double\<close> quotient is exact on sizes below
  $2^{53}$. Growing moves the entries bucket by bucket, each to the front of its new one.
\<close>

definition hc_push :: "(eqx_key \<times> nat) list list \<Rightarrow> eqx_key \<times> nat \<Rightarrow> (eqx_key \<times> nat) list list" where
  "hc_push bs e = (let i = eqx_bucket (length bs) (fst e) in bs[i := e # bs ! i])"

definition hc_ensure_capacity :: "hashcons \<Rightarrow> hashcons" where
  "hc_ensure_capacity hc =
     (let n = length (hc_buckets hc) in
      if 4 * hc_size hc < 3 * n \<or> n = 0 then hc
      else hc\<lparr>hc_buckets := foldl hc_push (replicate (2 * n) []) (concat (hc_buckets hc))\<rparr>)"

definition eqx_hashcons_insert :: "hashcons \<Rightarrow> eqx_key \<Rightarrow> nat \<Rightarrow> bool \<times> hashcons" where
  "eqx_hashcons_insert hc k i =
     (if eqx_hashcons_lookup hc k \<noteq> None then (False, hc)
      else let hc1 = hc_ensure_capacity hc
           in (True, hc1\<lparr>hc_size := hc_size hc1 + 1, hc_buckets := hc_push (hc_buckets hc1) (k, i)\<rparr>))"

section \<open>The e-graph\<close>

text \<open>
  E-nodes are kept in a heap, in the order they were allocated; a pointer to one is its
  position. The nodes of a class are linked by \<open>en_next\<close>.
\<close>

record enode =
  en_op :: u32
  en_children :: "nat list"
  en_eclass :: nat
  en_next :: "nat option"

record eclass =
  ec_id :: nat
  ec_nodes :: "nat option"
  ec_parents :: "nat list"

record egraph =
  eg_uf :: unionfind
  eg_hashcons :: hashcons
  eg_heap :: "enode list"
  eg_classes :: "eclass list"
  eg_capacity :: nat
  eg_max_iterations :: nat
  eg_dirty :: bool
  eg_pending :: nat
  eg_union_count :: nat

definition eqx_egraph_create :: "nat \<Rightarrow> egraph" where
  "eqx_egraph_create max_iterations =
     \<lparr>eg_uf = eqx_unionfind_create, eg_hashcons = eqx_hashcons_create 1024, eg_heap = [],
      eg_classes = [], eg_capacity = 1024, eg_max_iterations = max_iterations,
      eg_dirty = False, eg_pending = 0, eg_union_count = 0\<rparr>"

definition eqx_egraph_find :: "egraph \<Rightarrow> nat \<Rightarrow> (nat \<times> egraph) option" where
  "eqx_egraph_find eg i = do {
     (r, uf) \<leftarrow> eqx_unionfind_find (eg_uf eg) i;
     Some (r, eg\<lparr>eg_uf := uf\<rparr>)
   }"

definition eqx_egraph_equiv :: "egraph \<Rightarrow> nat \<Rightarrow> nat \<Rightarrow> (bool \<times> egraph) option" where
  "eqx_egraph_equiv eg i j = do {
     (b, uf) \<leftarrow> eqx_unionfind_equiv (eg_uf eg) i j;
     Some (b, eg\<lparr>eg_uf := uf\<rparr>)
   }"

text \<open>The loop that replaces each child by its representative.\<close>

definition eqx_canonical :: "unionfind \<Rightarrow> nat list \<Rightarrow> (nat list \<times> unionfind) option" where
  "eqx_canonical uf children =
     loop (\<lambda>(cs, uf) c. do { (r, uf) \<leftarrow> eqx_unionfind_find uf c; Some (cs @ [r], uf) }) ([], uf) children"

text \<open>The loop that registers a new e-node as a parent of its children's classes.\<close>

definition eqx_add_parents :: "egraph \<Rightarrow> nat \<Rightarrow> nat list \<Rightarrow> egraph option" where
  "eqx_add_parents eg node children =
     loop (\<lambda>eg c. do {
       (r, eg) \<leftarrow> eqx_egraph_find eg c;
       Some (if r < length (eg_classes eg)
             then eg\<lparr>eg_classes := (eg_classes eg)[r := (eg_classes eg ! r)
                       \<lparr>ec_parents := node # ec_parents (eg_classes eg ! r)\<rparr>]\<rparr>
             else eg) }) eg children"

definition eqx_egraph_add :: "egraph \<Rightarrow> u32 \<Rightarrow> nat list \<Rightarrow> (nat \<times> egraph) option" where
  "eqx_egraph_add eg op children = do {
     (cs, uf) \<leftarrow> eqx_canonical (eg_uf eg) children;
     case eqx_hashcons_lookup (eg_hashcons eg) (op, cs) of
       Some existing \<Rightarrow> Some (existing, eg\<lparr>eg_uf := uf\<rparr>)
     | None \<Rightarrow>
         let (new_id, uf1) = eqx_unionfind_make_set uf;
             node = length (eg_heap eg);
             eg1 = eg\<lparr>eg_uf := uf1,
                     eg_heap := eg_heap eg @ [\<lparr>en_op = op, en_children = cs, en_eclass = new_id, en_next = None\<rparr>],
                     eg_classes := eg_classes eg @ [\<lparr>ec_id = new_id, ec_nodes = Some node, ec_parents = []\<rparr>],
                     eg_hashcons := snd (eqx_hashcons_insert (eg_hashcons eg) (op, cs) new_id)\<rparr>
         in do { eg2 \<leftarrow> eqx_add_parents eg1 node cs; Some (new_id, eg2) }
   }"

text \<open>
  \<open>eqx_eclass_merge_into\<close>: every node of the list is moved to the class \<open>i\<close>; the last one
  is returned, to be linked to the nodes that are already there.
\<close>

partial_function (option) eqx_move_nodes :: "enode list \<Rightarrow> nat \<Rightarrow> nat \<Rightarrow> (nat \<times> enode list) option" where
  "eqx_move_nodes heap i p =
     (let heap1 = heap[p := (heap ! p)\<lparr>en_eclass := i\<rparr>] in
      case en_next (heap ! p) of
        None \<Rightarrow> Some (p, heap1)
      | Some q \<Rightarrow> eqx_move_nodes heap1 i q)"

definition eqx_eclass_merge_into :: "egraph \<Rightarrow> nat \<Rightarrow> nat \<Rightarrow> egraph option" where
  "eqx_eclass_merge_into eg old new =
     (let from = eg_classes eg ! old; to = eg_classes eg ! new in do {
        (heap, nodes) \<leftarrow>
          (case ec_nodes from of
             None \<Rightarrow> Some (eg_heap eg, ec_nodes to)
           | Some p \<Rightarrow> do {
               (last, heap) \<leftarrow> eqx_move_nodes (eg_heap eg) (ec_id to) p;
               Some (heap[last := (heap ! last)\<lparr>en_next := ec_nodes to\<rparr>], Some p) });
        Some (eg\<lparr>eg_heap := heap,
                 eg_classes := (eg_classes eg)
                   [new := to\<lparr>ec_nodes := nodes, ec_parents := ec_parents from @ ec_parents to\<rparr>,
                    old := from\<lparr>ec_nodes := None, ec_parents := []\<rparr>]\<rparr>)
      })"

definition eqx_egraph_union :: "egraph \<Rightarrow> nat \<Rightarrow> nat \<Rightarrow> (bool \<times> egraph) option" where
  "eqx_egraph_union eg i j = do {
     (r1, eg) \<leftarrow> eqx_egraph_find eg i;
     (r2, eg) \<leftarrow> eqx_egraph_find eg j;
     if r1 = r2 then Some (True, eg)
     else do {
       (new_id, uf) \<leftarrow> eqx_unionfind_union (eg_uf eg) r1 r2;
       let eg = eg\<lparr>eg_uf := uf\<rparr>;
       if new_id = EQX_ECLASS_ID_INVALID then Some (False, eg)
       else do {
         let eg = eg\<lparr>eg_union_count := eg_union_count eg + 1\<rparr>;
         let old_id = (if new_id = r1 then r2 else r1);
         eg \<leftarrow> (if new_id < length (eg_classes eg) \<and> old_id < length (eg_classes eg)
                then eqx_eclass_merge_into eg old_id new_id else Some eg);
         Some (True, eg\<lparr>eg_dirty := True, eg_pending := eg_pending eg + 1\<rparr>)
       }
     }
   }"

text \<open>
  \<open>eqx_egraph_rebuild\<close>: the loop over the nodes of one class, which follows the links as
  they are after the merges it makes itself.
\<close>

partial_function (option) eqx_rebuild_nodes ::
  "egraph \<Rightarrow> hashcons \<Rightarrow> nat option \<Rightarrow> (egraph \<times> hashcons) option" where
  "eqx_rebuild_nodes eg rebuilt node =
     (case node of
        None \<Rightarrow> Some (eg, rebuilt)
      | Some p \<Rightarrow> do {
          (cs, uf) \<leftarrow> eqx_canonical (eg_uf eg) (en_children (eg_heap eg ! p));
          (node_class, uf) \<leftarrow> eqx_unionfind_find uf (en_eclass (eg_heap eg ! p));
          let key = (en_op (eg_heap eg ! p), cs);
          let eg = eg\<lparr>eg_uf := uf,
                     eg_heap := (eg_heap eg)[p := (eg_heap eg ! p)
                       \<lparr>en_children := cs, en_eclass := node_class\<rparr>]\<rparr>;
          (case eqx_hashcons_lookup rebuilt key of
             Some existing \<Rightarrow> do {
               (b, eg) \<leftarrow> eqx_egraph_union eg node_class existing;
               eqx_rebuild_nodes eg rebuilt (en_next (eg_heap eg ! p))
             }
           | None \<Rightarrow>
               eqx_rebuild_nodes eg (snd (eqx_hashcons_insert rebuilt key node_class))
                 (en_next (eg_heap eg ! p)))
        })"

text \<open>One pass over the classes, and the passes that the merges of a pass make necessary.\<close>

definition eqx_rebuild_pass :: "egraph \<Rightarrow> egraph option" where
  "eqx_rebuild_pass eg = do {
     (eg, rebuilt) \<leftarrow> loop (\<lambda>(eg, rebuilt) i. do {
          (canon, eg) \<leftarrow> eqx_egraph_find eg i;
          if canon \<noteq> i then Some (eg, rebuilt)
          else eqx_rebuild_nodes eg rebuilt (ec_nodes (eg_classes eg ! i))
        }) (eg\<lparr>eg_pending := 0\<rparr>, eqx_hashcons_create (eg_capacity eg)) [0..<length (eg_classes eg)];
     Some (eg\<lparr>eg_hashcons := rebuilt\<rparr>)
   }"

text \<open>The argument counts the passes that are left before \<open>max_iterations\<close>.\<close>

fun eqx_rebuild_passes :: "nat \<Rightarrow> egraph \<Rightarrow> (bool \<times> egraph) option" where
  "eqx_rebuild_passes 0 eg = Some (False, eg\<lparr>eg_dirty := False\<rparr>)"
| "eqx_rebuild_passes (Suc k) eg =
     (if eg_pending eg = 0 then Some (True, eg\<lparr>eg_dirty := False\<rparr>)
      else Option.bind (eqx_rebuild_pass eg) (eqx_rebuild_passes k))"

definition eqx_egraph_rebuild :: "egraph \<Rightarrow> (bool \<times> egraph) option" where
  "eqx_egraph_rebuild eg =
     (if \<not> eg_dirty eg then Some (True, eg) else eqx_rebuild_passes (eg_max_iterations eg) eg)"

section \<open>Patterns and rewriting\<close>

datatype eqx_pattern = EqxVar string | EqxApp u32 "eqx_pattern list"

type_synonym eqx_subst = "(string \<times> nat) list"

definition eqx_subst_add :: "eqx_subst \<Rightarrow> string \<Rightarrow> nat \<Rightarrow> bool \<times> eqx_subst" where
  "eqx_subst_add subst name i =
     (case map_of subst name of
        Some j \<Rightarrow> (j = i, subst)
      | None \<Rightarrow> (True, (name, i) # subst))"

definition eqx_subst_lookup :: "eqx_subst \<Rightarrow> string \<Rightarrow> nat option" where
  "eqx_subst_lookup subst name = map_of subst name"

text \<open>The nodes of a class, in the order of their links.\<close>

partial_function (option) eqx_nodes_from :: "enode list \<Rightarrow> nat option \<Rightarrow> enode list option" where
  "eqx_nodes_from heap node =
     (case node of
        None \<Rightarrow> Some []
      | Some p \<Rightarrow> Option.bind (eqx_nodes_from heap (en_next (heap ! p))) (\<lambda>ns. Some (heap ! p # ns)))"

text \<open>
  \<open>match_pattern_internal\<close>, its loop over the nodes of the class and its loop over the
  children. Bindings made for a node that does not match in the end are kept.
\<close>

type_synonym eqx_match = "bool \<times> egraph \<times> eqx_subst"

function eqx_match_pattern :: "eqx_pattern \<Rightarrow> nat \<Rightarrow> egraph \<Rightarrow> eqx_subst \<Rightarrow> eqx_match option"
  and eqx_match_nodes :: "u32 \<Rightarrow> eqx_pattern list \<Rightarrow> enode list \<Rightarrow> egraph \<Rightarrow> eqx_subst \<Rightarrow> eqx_match option"
  and eqx_match_children :: "eqx_pattern list \<Rightarrow> nat list \<Rightarrow> egraph \<Rightarrow> eqx_subst \<Rightarrow> eqx_match option" where
  "eqx_match_pattern (EqxVar name) i eg subst =
     (case eqx_subst_add subst name i of (b, subst) \<Rightarrow> Some (b, eg, subst))"
| "eqx_match_pattern (EqxApp op ps) i eg subst = do {
     (r, eg) \<leftarrow> eqx_egraph_find eg i;
     if length (eg_classes eg) \<le> r then Some (False, eg, subst)
     else do {
       ns \<leftarrow> eqx_nodes_from (eg_heap eg) (ec_nodes (eg_classes eg ! r));
       eqx_match_nodes op ps ns eg subst
     }
   }"
| "eqx_match_nodes op ps [] eg subst = Some (False, eg, subst)"
| "eqx_match_nodes op ps (n # ns) eg subst =
     (if en_op n \<noteq> op \<or> length (en_children n) \<noteq> length ps then eqx_match_nodes op ps ns eg subst
      else do {
        (ok, eg, subst) \<leftarrow> eqx_match_children ps (en_children n) eg subst;
        if ok then Some (True, eg, subst) else eqx_match_nodes op ps ns eg subst
      })"
| "eqx_match_children (p # ps) (c # cs) eg subst = do {
     (ok, eg, subst) \<leftarrow> eqx_match_pattern p c eg subst;
     if ok then eqx_match_children ps cs eg subst else Some (False, eg, subst)
   }"
| "eqx_match_children [] cs eg subst = Some (True, eg, subst)"
| "eqx_match_children (p # ps) [] eg subst = Some (True, eg, subst)"
  by pat_completeness auto
termination
  by (relation "measures [\<lambda>x. case x of Inl (p, _) \<Rightarrow> 2 * size p
                            | Inr (Inl (_, ps, ns, _)) \<Rightarrow> 2 * size_list size ps + 1
                            | Inr (Inr (ps, cs, _)) \<Rightarrow> 2 * size_list size ps,
                         \<lambda>x. case x of Inr (Inl (_, ps, ns, _)) \<Rightarrow> length ns | _ \<Rightarrow> 0]") auto

fun eqx_pattern_instantiate :: "eqx_pattern \<Rightarrow> eqx_subst \<Rightarrow> egraph \<Rightarrow> (nat \<times> egraph) option"
  and eqx_instantiate_children ::
    "eqx_pattern list \<Rightarrow> eqx_subst \<Rightarrow> egraph \<Rightarrow> (nat list option \<times> egraph) option" where
  "eqx_pattern_instantiate (EqxVar name) subst eg =
     Some (case eqx_subst_lookup subst name of None \<Rightarrow> (EQX_ECLASS_ID_INVALID, eg) | Some i \<Rightarrow> (i, eg))"
| "eqx_pattern_instantiate (EqxApp op ps) subst eg = do {
     (ids, eg) \<leftarrow> eqx_instantiate_children ps subst eg;
     case ids of None \<Rightarrow> Some (EQX_ECLASS_ID_INVALID, eg) | Some cs \<Rightarrow> eqx_egraph_add eg op cs
   }"
| "eqx_instantiate_children [] subst eg = Some (Some [], eg)"
| "eqx_instantiate_children (p # ps) subst eg = do {
     (i, eg) \<leftarrow> eqx_pattern_instantiate p subst eg;
     if i = EQX_ECLASS_ID_INVALID then Some (None, eg)
     else do {
       (ids, eg) \<leftarrow> eqx_instantiate_children ps subst eg;
       Some (map_option (Cons i) ids, eg)
     }
   }"

record eqx_rewrite_rule =
  eqx_name :: string
  eqx_lhs :: eqx_pattern
  eqx_rhs :: eqx_pattern

text \<open>The rules of the program have no condition.\<close>

definition eqx_rewrite_apply :: "eqx_rewrite_rule \<Rightarrow> nat \<Rightarrow> egraph \<Rightarrow> (nat \<times> egraph) option" where
  "eqx_rewrite_apply rule i eg = do {
     (ok, eg, subst) \<leftarrow> eqx_match_pattern (eqx_lhs rule) i eg [];
     if \<not> ok then Some (0, eg)
     else do {
       (rhs, eg) \<leftarrow> eqx_pattern_instantiate (eqx_rhs rule) subst eg;
       if rhs = EQX_ECLASS_ID_INVALID then Some (0, eg)
       else do { (b, eg) \<leftarrow> eqx_egraph_union eg i rhs; Some (1, eg) }
     }
   }"

text \<open>
  The iterator: from position \<open>current\<close>, the next class that is its own representative.
  The loop also visits the classes its own rewrites add.
\<close>

partial_function (option) eqx_iter_next :: "egraph \<Rightarrow> nat \<Rightarrow> (nat option \<times> egraph) option" where
  "eqx_iter_next eg current =
     (if length (eg_classes eg) \<le> current then Some (None, eg)
      else do {
        (canon, eg) \<leftarrow> eqx_egraph_find eg current;
        if canon = current then Some (Some current, eg) else eqx_iter_next eg (current + 1)
      })"

partial_function (option) eqx_apply_all_from ::
  "eqx_rewrite_rule \<Rightarrow> egraph \<Rightarrow> nat \<Rightarrow> nat \<Rightarrow> (nat \<times> egraph) option" where
  "eqx_apply_all_from rule eg current acc = do {
     (nxt, eg) \<leftarrow> eqx_iter_next eg current;
     case nxt of
       None \<Rightarrow> Some (acc, eg)
     | Some i \<Rightarrow> do {
         (n, eg) \<leftarrow> eqx_rewrite_apply rule i eg;
         eqx_apply_all_from rule eg (i + 1) (acc + n)
       }
   }"

definition eqx_rewrite_apply_all :: "eqx_rewrite_rule \<Rightarrow> egraph \<Rightarrow> (nat \<times> egraph) option" where
  "eqx_rewrite_apply_all rule eg = eqx_apply_all_from rule eg 0 0"

fun eqx_rewrite_apply_rules ::
  "eqx_rewrite_rule list \<Rightarrow> nat \<Rightarrow> nat \<Rightarrow> egraph \<Rightarrow> (nat \<times> egraph) option" where
  "eqx_rewrite_apply_rules rules 0 acc eg = Some (acc, eg)"
| "eqx_rewrite_apply_rules rules (Suc k) acc eg = do {
     (count, eg) \<leftarrow> loop (\<lambda>(count, eg) rule. do {
         (n, eg) \<leftarrow> eqx_rewrite_apply_all rule eg;
         Some (count + n, eg) }) (0, eg) rules;
     if count = 0 then Some (acc + count, eg)
     else do {
       (ok, eg) \<leftarrow> eqx_egraph_rebuild eg;
       if \<not> ok then Some (acc + count, eg)
       else eqx_rewrite_apply_rules rules k (acc + count) eg
     }
   }"

end
