(* ===== verification/Wrs.thy ===== *)
theory Wrs
  imports Wil_Graph Wil_Printer Equinox
begin

text \<open>
  The rewrite systems of WRS: patterns, rules and systems (\<^verbatim>\<open>wrs_system.c\<close>), matching and
  instantiation (\<^verbatim>\<open>wrs_match.c\<close>), the question whether two nodes are equivalent and the
  e-graph normal form (\<^verbatim>\<open>wrs_equinox.c\<close>), and the application strategies
  (\<^verbatim>\<open>wrs_apply.c\<close>). A rule is held by the one system it is added to. Values of the C type
  \<^verbatim>\<open>double\<close> are given by their bits; \<open>None\<close> is a null pointer in patterns and names, and
  in results a call that does not return.
\<close>

section \<open>Patterns\<close>

datatype WILPatternValue =
  WIL_PATTERN_VALUE_INT u64 | WIL_PATTERN_VALUE_FLOAT u64 | WIL_PATTERN_VALUE_BOOL u32

datatype WILPattern =
    WIL_PAT_VAR "string option"
  | WIL_PAT_CONST WILPatternValue
  | WIL_PAT_NODE WILNodeKind "WILPattern option list"
  | WIL_PAT_WILDCARD
  | WIL_PAT_PREDICATE "(WILGraph \<Rightarrow> node_ptr \<Rightarrow> bool) option"
  | WIL_PAT_SEQUENCE "string option" "WILPattern option"
  | WIL_PAT_REFINEMENT "WILPattern option"

type_synonym pat_ptr = "WILPattern option"

definition wilPatVar :: "string option \<Rightarrow> pat_ptr" where
  "wilPatVar name = Some (WIL_PAT_VAR name)"

definition wilPatConst :: "u64 \<Rightarrow> pat_ptr" where
  "wilPatConst v = Some (WIL_PAT_CONST (WIL_PATTERN_VALUE_INT v))"

definition wilPatConstF64 :: "u64 \<Rightarrow> pat_ptr" where
  "wilPatConstF64 v = Some (WIL_PAT_CONST (WIL_PATTERN_VALUE_FLOAT v))"

definition wilPatNode :: "WILNodeKind \<Rightarrow> pat_ptr list \<Rightarrow> pat_ptr" where
  "wilPatNode kind inputs = Some (WIL_PAT_NODE kind inputs)"

definition wilPatWildcard :: pat_ptr where
  "wilPatWildcard = Some WIL_PAT_WILDCARD"

definition wilPatPredicate :: "(WILGraph \<Rightarrow> node_ptr \<Rightarrow> bool) option \<Rightarrow> pat_ptr" where
  "wilPatPredicate p = Some (WIL_PAT_PREDICATE p)"

definition wilPatSequence :: "string option \<Rightarrow> pat_ptr \<Rightarrow> pat_ptr" where
  "wilPatSequence name element = Some (WIL_PAT_SEQUENCE name element)"

definition wilPatRefinement :: "pat_ptr \<Rightarrow> pat_ptr" where
  "wilPatRefinement base = Some (WIL_PAT_REFINEMENT base)"

text \<open>The queries; the name of a pattern without one is null.\<close>

definition wilPatternGetVarName :: "pat_ptr \<Rightarrow> string option" where
  "wilPatternGetVarName p =
     (case p of Some (WIL_PAT_VAR name) \<Rightarrow> name | Some (WIL_PAT_SEQUENCE name _) \<Rightarrow> name | _ \<Rightarrow> None)"

definition wilPatternInputCount :: "pat_ptr \<Rightarrow> nat" where
  "wilPatternInputCount p = (case p of Some (WIL_PAT_NODE _ inputs) \<Rightarrow> length inputs | _ \<Rightarrow> 0)"

definition wilPatternGetInput :: "pat_ptr \<Rightarrow> nat \<Rightarrow> pat_ptr" where
  "wilPatternGetInput p i =
     (case p of Some (WIL_PAT_NODE _ inputs) \<Rightarrow> if length inputs \<le> i then None else inputs ! i | _ \<Rightarrow> None)"

section \<open>The e-graph of a node\<close>

definition wil_node_kind_num :: "WILNodeKind \<Rightarrow> nat" where
  "wil_node_kind_num kind = length (takeWhile (\<lambda>k. k \<noteq> kind) wil_node_kinds)"

definition wrs_op_of_kind :: "WILNodeKind \<Rightarrow> u32" where
  "wrs_op_of_kind kind = of_nat (wil_node_kind_num kind) + 1"

definition wrs_is_eqx_rewritable_kind :: "WILNodeKind \<Rightarrow> bool" where
  "wrs_is_eqx_rewritable_kind kind =
     (case kind of WIL_NODE_ADD \<Rightarrow> True | WIL_NODE_MUL \<Rightarrow> True | WIL_NODE_AND \<Rightarrow> True
      | WIL_NODE_OR \<Rightarrow> True | WIL_NODE_XOR \<Rightarrow> True | _ \<Rightarrow> False)"

text \<open>The nodes that are in the e-graph, with their ids, in the order they were recorded.\<close>

type_synonym WRSEGraphBuild = "(nat \<times> nat) list"

definition wrs_eqx_arity_supported :: "nat \<Rightarrow> bool" where
  "wrs_eqx_arity_supported arity \<longleftrightarrow> arity \<le> 4"

definition wrs_build_lookup :: "WRSEGraphBuild \<Rightarrow> nat \<Rightarrow> nat option" where
  "wrs_build_lookup build n = map_of build n"

text \<open>
  \<open>wrs_add_node\<close>; the flag is the C out-parameter \<open>ok\<close>. The loop over the inputs is left
  as soon as one of them fails. A node is recorded after its inputs, so a cycle of inputs
  does not end the recursion.
\<close>

partial_function (option) wrs_add_node ::
  "WILGraph \<Rightarrow> node_ptr \<Rightarrow> egraph \<Rightarrow> WRSEGraphBuild \<Rightarrow> bool \<Rightarrow> (nat \<times> egraph \<times> WRSEGraphBuild \<times> bool) option" where
  "wrs_add_node g node eg build ok =
     (case node of
        None \<Rightarrow> Some (EQX_ECLASS_ID_INVALID, eg, build, ok)
      | Some n \<Rightarrow>
          if \<not> ok then Some (EQX_ECLASS_ID_INVALID, eg, build, ok)
          else if wrs_build_lookup build n \<noteq> None then Some (the (wrs_build_lookup build n), eg, build, ok)
          else if \<not> wrs_eqx_arity_supported (wil_node_input_count g node)
          then Some (EQX_ECLASS_ID_INVALID, eg, build, False)
          else do {
            (ids, eg, build, ok) \<leftarrow> loop (\<lambda>(ids, eg, build, ok) i.
                if \<not> ok then Some (ids, eg, build, ok)
                else do {
                  (c, eg, build, ok) \<leftarrow> wrs_add_node g (wil_node_input g node i) eg build ok;
                  Some (ids @ [c], eg, build, ok \<and> c \<noteq> EQX_ECLASS_ID_INVALID)
                }) ([], eg, build, ok) [0..<wil_node_input_count g node];
            if \<not> ok then Some (EQX_ECLASS_ID_INVALID, eg, build, False)
            else do {
              (i, eg) \<leftarrow> eqx_egraph_add eg (wrs_op_of_kind (wil_node_kind g node)) ids;
              Some (if i = EQX_ECLASS_ID_INVALID then (i, eg, build, False)
                    else (i, eg, build @ [(n, i)], True))
            }
          })"

text \<open>The fifteen rules of saturation: commutativity and both directions of associativity.\<close>

definition wrs_pattern_binop :: "u32 \<Rightarrow> string \<Rightarrow> string \<Rightarrow> eqx_pattern" where
  "wrs_pattern_binop op lhs rhs = EqxApp op [EqxVar lhs, EqxVar rhs]"

definition wrs_make_comm_rule :: "u32 \<Rightarrow> string \<Rightarrow> eqx_rewrite_rule" where
  "wrs_make_comm_rule op name =
     \<lparr>eqx_name = name, eqx_lhs = wrs_pattern_binop op ''x'' ''y'', eqx_rhs = wrs_pattern_binop op ''y'' ''x''\<rparr>"

definition wrs_make_assoc_rule :: "u32 \<Rightarrow> string \<Rightarrow> bool \<Rightarrow> eqx_rewrite_rule" where
  "wrs_make_assoc_rule op name reverse =
     (let right = EqxApp op [EqxVar ''x'', wrs_pattern_binop op ''y'' ''z''];
          left = EqxApp op [wrs_pattern_binop op ''x'' ''y'', EqxVar ''z'']
      in if \<not> reverse then \<lparr>eqx_name = name, eqx_lhs = right, eqx_rhs = left\<rparr>
         else \<lparr>eqx_name = name, eqx_lhs = left, eqx_rhs = right\<rparr>)"

definition wrs_eqx_rules :: "eqx_rewrite_rule list" where
  "wrs_eqx_rules = concat (map (\<lambda>(kind, name).
       [wrs_make_comm_rule (wrs_op_of_kind kind) (name @ ''-comm''),
        wrs_make_assoc_rule (wrs_op_of_kind kind) (name @ ''-assoc-lr'') False,
        wrs_make_assoc_rule (wrs_op_of_kind kind) (name @ ''-assoc-rl'') True])
     [(WIL_NODE_ADD, ''add''), (WIL_NODE_MUL, ''mul''), (WIL_NODE_AND, ''and''),
      (WIL_NODE_OR, ''or''), (WIL_NODE_XOR, ''xor'')])"

definition wrs_saturate_eqx :: "egraph \<Rightarrow> nat \<Rightarrow> (nat \<times> egraph) option" where
  "wrs_saturate_eqx eg max_iterations =
     eqx_rewrite_apply_rules wrs_eqx_rules (if max_iterations = 0 then 1 else max_iterations) 0 eg"

definition wrs_nodes_equivalent :: "WILGraph \<Rightarrow> node_ptr \<Rightarrow> node_ptr \<Rightarrow> bool option" where
  "wrs_nodes_equivalent g a b =
     (if a = b then Some True
      else if a = None \<or> b = None then Some False
      else do {
        (ia, eg, build, ok) \<leftarrow> wrs_add_node g a (eqx_egraph_create 8) [] True;
        (ib, eg, build, ok) \<leftarrow> wrs_add_node g b eg build ok;
        if \<not> ok \<or> ia = EQX_ECLASS_ID_INVALID \<or> ib = EQX_ECLASS_ID_INVALID then Some False
        else do {
          (r, eg) \<leftarrow> eqx_egraph_rebuild eg;
          eg \<leftarrow> (if wrs_is_eqx_rewritable_kind (wil_node_kind g a)
                    \<or> wrs_is_eqx_rewritable_kind (wil_node_kind g b)
                 then do {
                   (n, eg) \<leftarrow> wrs_saturate_eqx eg 8;
                   (r, eg) \<leftarrow> eqx_egraph_rebuild eg;
                   Some eg
                 }
                 else Some eg);
          (equal, eg) \<leftarrow> eqx_egraph_equiv eg ia ib;
          Some equal
        }
      })"

text \<open>The costs are small whole numbers, kept exactly by a \<^verbatim>\<open>double\<close>.\<close>

definition wrs_node_cost :: "WILGraph \<Rightarrow> nat \<Rightarrow> nat" where
  "wrs_node_cost g n =
     (case wil_node_kind g (Some n) of
        WIL_NODE_CONST_INT \<Rightarrow> 1 | WIL_NODE_CONST_FLOAT \<Rightarrow> 1 | WIL_NODE_CONST_BOOL \<Rightarrow> 1 | WIL_NODE_PARAM \<Rightarrow> 1
      | _ \<Rightarrow> 2 + wil_node_input_count g (Some n))"

text \<open>The class of the root is looked for in the iteration order; then the cheapest node wins, the first of equal ones.\<close>

partial_function (option) wrs_pick_from ::
  "WILGraph \<Rightarrow> egraph \<Rightarrow> WRSEGraphBuild \<Rightarrow> nat \<Rightarrow> nat \<Rightarrow> node_ptr option" where
  "wrs_pick_from g eg build root current = do {
     (nxt, eg) \<leftarrow> eqx_iter_next eg current;
     case nxt of
       None \<Rightarrow> Some None
     | Some c \<Rightarrow> do {
         (r1, eg) \<leftarrow> eqx_egraph_find eg c;
         (r2, eg) \<leftarrow> eqx_egraph_find eg root;
         if r1 \<noteq> r2 then wrs_pick_from g eg build root (c + 1)
         else do {
           (best, cost, eg) \<leftarrow> loop (\<lambda>(best, cost, eg) (n, i). do {
               (r1, eg) \<leftarrow> eqx_egraph_find eg i;
               (r2, eg) \<leftarrow> eqx_egraph_find eg root;
               Some (if r1 = r2 \<and> wrs_node_cost g n < cost then (Some n, wrs_node_cost g n, eg)
                     else (best, cost, eg)) }) (None, 10 ^ 18, eg) build;
           Some best
         }
       }
   }"

definition wrs_pick_best :: "WILGraph \<Rightarrow> egraph \<Rightarrow> WRSEGraphBuild \<Rightarrow> nat \<Rightarrow> node_ptr option" where
  "wrs_pick_best g eg build root = wrs_pick_from g eg build root 0"

definition wrs_normalize_with_egraph :: "WILGraph \<Rightarrow> node_ptr \<Rightarrow> nat \<Rightarrow> node_ptr option" where
  "wrs_normalize_with_egraph g node maxIterations =
     (if node = None then Some None
      else do {
        (root, eg, build, ok) \<leftarrow>
          wrs_add_node g node (eqx_egraph_create (if maxIterations = 0 then 1 else maxIterations)) [] True;
        if \<not> ok \<or> root = EQX_ECLASS_ID_INVALID then Some None
        else do {
          (r, eg) \<leftarrow> eqx_egraph_rebuild eg;
          (n, eg) \<leftarrow> wrs_saturate_eqx eg maxIterations;
          (r, eg) \<leftarrow> eqx_egraph_rebuild eg;
          wrs_pick_best g eg build root
        }
      })"

section \<open>Matching\<close>

type_synonym WILSubstitution = "(string \<times> node_ptr) list"

definition wrs_substitution_bind ::
  "WILGraph \<Rightarrow> WILSubstitution \<Rightarrow> string option \<Rightarrow> node_ptr \<Rightarrow> (bool \<times> WILSubstitution) option" where
  "wrs_substitution_bind g subst name node =
     (case name of
        None \<Rightarrow> Some (False, subst)
      | Some x \<Rightarrow>
          (case map_of subst x of
             Some bound \<Rightarrow> do { same \<leftarrow> wrs_nodes_equivalent g bound node; Some (same, subst) }
           | None \<Rightarrow> Some (True, subst @ [(x, node)])))"

definition wrs_match_constant :: "WILGraph \<Rightarrow> WILPatternValue \<Rightarrow> node_ptr \<Rightarrow> bool" where
  "wrs_match_constant g v node =
     (if node = None \<or> \<not> wil_node_is_const g node then False
      else case v of
        WIL_PATTERN_VALUE_INT i \<Rightarrow> wil_node_kind g node = WIL_NODE_CONST_INT \<and> wil_node_const_int g node = i
      | WIL_PATTERN_VALUE_FLOAT f \<Rightarrow>
          wil_node_kind g node = WIL_NODE_CONST_FLOAT \<and> double_eq (wil_node_const_float g node) f
      | WIL_PATTERN_VALUE_BOOL b \<Rightarrow> wil_node_kind g node = WIL_NODE_CONST_BOOL \<and> wil_node_const_bool g node = b)"

text \<open>
  The third argument of the loop is the index of the next input. A failed match returns the
  bindings it has made.
\<close>

fun wrs_match_pattern ::
    "WILGraph \<Rightarrow> WILSubstitution \<Rightarrow> pat_ptr \<Rightarrow> node_ptr \<Rightarrow> (bool \<times> WILSubstitution) option"
  and wrs_match_inputs ::
    "WILGraph \<Rightarrow> WILSubstitution \<Rightarrow> pat_ptr list \<Rightarrow> nat \<Rightarrow> node_ptr \<Rightarrow> (bool \<times> WILSubstitution) option" where
  "wrs_match_pattern g subst None node = Some (False, subst)"
| "wrs_match_pattern g subst (Some WIL_PAT_WILDCARD) node = Some (True, subst)"
| "wrs_match_pattern g subst (Some (WIL_PAT_VAR name)) node = wrs_substitution_bind g subst name node"
| "wrs_match_pattern g subst (Some (WIL_PAT_SEQUENCE name elem)) node = wrs_substitution_bind g subst name node"
| "wrs_match_pattern g subst (Some (WIL_PAT_CONST v)) node = Some (wrs_match_constant g v node, subst)"
| "wrs_match_pattern g subst (Some (WIL_PAT_PREDICATE p)) node =
     Some (case p of None \<Rightarrow> False | Some f \<Rightarrow> f g node, subst)"
| "wrs_match_pattern g subst (Some (WIL_PAT_REFINEMENT base)) node = wrs_match_pattern g subst base node"
| "wrs_match_pattern g subst (Some (WIL_PAT_NODE kind inputs)) node =
     (if node = None \<or> wil_node_kind g node \<noteq> kind then Some (False, subst)
      else if wil_node_input_count g node \<noteq> length inputs then Some (False, subst)
      else wrs_match_inputs g subst inputs 0 node)"
| "wrs_match_inputs g subst [] i node = Some (True, subst)"
| "wrs_match_inputs g subst (p # ps) i node = do {
     (ok, subst) \<leftarrow> wrs_match_pattern g subst p (wil_node_input g node i);
     if ok then wrs_match_inputs g subst ps (Suc i) node else Some (False, subst)
   }"

record WILMatch =
  wm_succeeded :: bool
  wm_node :: node_ptr
  wm_substitution :: WILSubstitution

definition wilPatternMatch :: "WILGraph \<Rightarrow> pat_ptr \<Rightarrow> node_ptr \<Rightarrow> WILMatch option" where
  "wilPatternMatch g pat node = do {
     (ok, subst) \<leftarrow> wrs_match_pattern g [] pat node;
     Some \<lparr>wm_succeeded = ok, wm_node = node, wm_substitution = subst\<rparr>
   }"

definition wilSubstitutionLookup :: "WILSubstitution \<Rightarrow> string option \<Rightarrow> node_ptr" where
  "wilSubstitutionLookup subst name =
     (case name of None \<Rightarrow> None
      | Some x \<Rightarrow> (case map_of subst x of None \<Rightarrow> None | Some node \<Rightarrow> node))"

definition wilSubstitutionHas :: "WILSubstitution \<Rightarrow> string option \<Rightarrow> bool" where
  "wilSubstitutionHas subst name \<longleftrightarrow> wilSubstitutionLookup subst name \<noteq> None"

definition wilSubstitutionVarName :: "WILSubstitution \<Rightarrow> nat \<Rightarrow> string option" where
  "wilSubstitutionVarName subst i = (if length subst \<le> i then None else Some (fst (subst ! i)))"

section \<open>Instantiation\<close>

text \<open>
  Reading an element of the array of instantiated inputs: there is no array when the pattern
  has no inputs, and no check that it has as many as the kind needs.
\<close>

definition pat_input :: "node_ptr list \<Rightarrow> nat \<Rightarrow> node_ptr cres" where
  "pat_input inputs i = (if inputs = [] then Inl NullDeref else arr_get inputs i)"

definition wrs_build_node :: "WILGraph \<Rightarrow> WILNodeKind \<Rightarrow> node_ptr list \<Rightarrow> (node_ptr \<times> WILGraph) cres" where
  "wrs_build_node g kind inputs =
     (let built = (\<lambda>r. (Some (fst r), snd r));
          binary = (\<lambda>make. cbind (pat_input inputs 0) (\<lambda>a. cbind (pat_input inputs 1) (\<lambda>b. Inr (built (make g a b)))));
          unary = (\<lambda>make. cbind (pat_input inputs 0) (\<lambda>a. Inr (built (make g a))))
      in case kind of
        WIL_NODE_ADD \<Rightarrow> binary wil_make_add | WIL_NODE_SUB \<Rightarrow> binary wil_make_sub
      | WIL_NODE_MUL \<Rightarrow> binary wil_make_mul | WIL_NODE_DIV \<Rightarrow> binary wil_make_div
      | WIL_NODE_MOD \<Rightarrow> binary wil_make_mod | WIL_NODE_AND \<Rightarrow> binary wil_make_and
      | WIL_NODE_OR \<Rightarrow> binary wil_make_or | WIL_NODE_XOR \<Rightarrow> binary wil_make_xor
      | WIL_NODE_SHL \<Rightarrow> binary wil_make_shl | WIL_NODE_SHR \<Rightarrow> binary wil_make_shr
      | WIL_NODE_NEG \<Rightarrow> unary wil_make_neg | WIL_NODE_NOT \<Rightarrow> unary wil_make_not
      | WIL_NODE_ABS \<Rightarrow> unary wil_make_abs
      | WIL_NODE_EQ \<Rightarrow> binary wil_make_eq | WIL_NODE_NE \<Rightarrow> binary wil_make_ne
      | WIL_NODE_LT \<Rightarrow> binary wil_make_lt | WIL_NODE_LE \<Rightarrow> binary wil_make_le
      | WIL_NODE_GT \<Rightarrow> binary wil_make_gt | WIL_NODE_GE \<Rightarrow> binary wil_make_ge
      | WIL_NODE_SELECT \<Rightarrow> cbind (pat_input inputs 0) (\<lambda>a. cbind (pat_input inputs 1) (\<lambda>b.
                             cbind (pat_input inputs 2) (\<lambda>c. Inr (built (wil_make_select g a b c)))))
      | _ \<Rightarrow> Inr (None, g))"

fun wrs_apply_pattern :: "WILGraph \<Rightarrow> WILSubstitution \<Rightarrow> pat_ptr \<Rightarrow> (node_ptr \<times> WILGraph) cres"
  and wrs_apply_inputs :: "WILGraph \<Rightarrow> WILSubstitution \<Rightarrow> pat_ptr list \<Rightarrow> (node_ptr list \<times> WILGraph) cres" where
  "wrs_apply_pattern g subst None = Inr (None, g)"
| "wrs_apply_pattern g subst (Some (WIL_PAT_VAR name)) = Inr (wilSubstitutionLookup subst name, g)"
| "wrs_apply_pattern g subst (Some (WIL_PAT_SEQUENCE name elem)) = Inr (wilSubstitutionLookup subst name, g)"
| "wrs_apply_pattern g subst (Some WIL_PAT_WILDCARD) = Inr (None, g)"
| "wrs_apply_pattern g subst (Some (WIL_PAT_PREDICATE p)) = Inr (None, g)"
| "wrs_apply_pattern g subst (Some (WIL_PAT_CONST v)) =
     (let r = (case v of
          WIL_PATTERN_VALUE_INT i \<Rightarrow> wil_make_const_int g i WIL_TYPE_I32
        | WIL_PATTERN_VALUE_FLOAT f \<Rightarrow> wil_make_const_float g f WIL_TYPE_F64
        | WIL_PATTERN_VALUE_BOOL b \<Rightarrow> wil_make_const_bool g b)
      in Inr (Some (fst r), snd r))"
| "wrs_apply_pattern g subst (Some (WIL_PAT_REFINEMENT base)) = wrs_apply_pattern g subst base"
| "wrs_apply_pattern g subst (Some (WIL_PAT_NODE kind inputs)) =
     cbind (wrs_apply_inputs g subst inputs) (\<lambda>(nodes, g). wrs_build_node g kind nodes)"
| "wrs_apply_inputs g subst [] = Inr ([], g)"
| "wrs_apply_inputs g subst (p # ps) =
     cbind (wrs_apply_pattern g subst p) (\<lambda>(node, g).
     cbind (wrs_apply_inputs g subst ps) (\<lambda>(nodes, g). Inr (node # nodes, g)))"

definition wilSubstitutionApply :: "WILGraph \<Rightarrow> WILSubstitution \<Rightarrow> pat_ptr \<Rightarrow> (node_ptr \<times> WILGraph) cres" where
  "wilSubstitutionApply g subst pat = wrs_apply_pattern g subst pat"

section \<open>Rules\<close>

text \<open>The guard of a rule, as \<^verbatim>\<open>WRSSExpr\<close>: a number is an integer or the bits of a double.\<close>

datatype WRSSExpr =
  WRS_SEXPR_ATOM string | WRS_SEXPR_STRING string | WRS_SEXPR_NUMBER u64 | WRS_SEXPR_LIST "WRSSExpr list"

text \<open>An action gets the graph and the match and returns the replacement.\<close>

record WILRewriteRule =
  wr_name :: "string option"
  wr_lhs :: pat_ptr
  wr_rhs :: pat_ptr
  wr_action :: "(WILGraph \<Rightarrow> WILMatch \<Rightarrow> node_ptr \<times> WILGraph) option"
  wr_enabled :: bool
  wr_guard :: "WRSSExpr option"
  wr_stats_index :: nat

definition wilRuleCreate ::
  "string option \<Rightarrow> pat_ptr \<Rightarrow> (WILGraph \<Rightarrow> WILMatch \<Rightarrow> node_ptr \<times> WILGraph) option \<Rightarrow> WILRewriteRule" where
  "wilRuleCreate name lhs action =
     \<lparr>wr_name = name, wr_lhs = lhs, wr_rhs = None, wr_action = action, wr_enabled = True,
      wr_guard = None, wr_stats_index = 0\<rparr>"

definition wilRuleCreateSimple :: "string option \<Rightarrow> pat_ptr \<Rightarrow> pat_ptr \<Rightarrow> WILRewriteRule" where
  "wilRuleCreateSimple name lhs rhs = (wilRuleCreate name lhs None)\<lparr>wr_rhs := rhs\<rparr>"

text \<open>
  The variables of a pattern, each once, up to a capacity; \<^verbatim>\<open>strcmp\<close> of a null name is
  undefined. \<open>Inr None\<close> is the failure for lack of room.
\<close>

definition strcmp_eq :: "string option \<Rightarrow> string option \<Rightarrow> bool cres" where
  "strcmp_eq a b = (if a = None \<or> b = None then Inl NullDeref else Inr (a = b))"

fun name_known :: "string option list \<Rightarrow> string option \<Rightarrow> bool cres" where
  "name_known [] name = Inr False"
| "name_known (v # vs) name = cbind (strcmp_eq v name) (\<lambda>same. if same then Inr True else name_known vs name)"

definition wrs_collect_name ::
  "string option list \<Rightarrow> nat \<Rightarrow> string option \<Rightarrow> string option list option cres" where
  "wrs_collect_name vars capacity name =
     cbind (name_known vars name) (\<lambda>known. Inr (
       if known then Some vars
       else if capacity \<le> length vars then None
       else Some (vars @ [name])))"

fun wrs_rule_collect_vars ::
    "string option list \<Rightarrow> nat \<Rightarrow> pat_ptr \<Rightarrow> string option list option cres"
  and wrs_collect_inputs ::
    "string option list \<Rightarrow> nat \<Rightarrow> pat_ptr list \<Rightarrow> string option list option cres" where
  "wrs_rule_collect_vars vars capacity None = Inr (Some vars)"
| "wrs_rule_collect_vars vars capacity (Some (WIL_PAT_VAR name)) = wrs_collect_name vars capacity name"
| "wrs_rule_collect_vars vars capacity (Some (WIL_PAT_SEQUENCE name elem)) = wrs_collect_name vars capacity name"
| "wrs_rule_collect_vars vars capacity (Some (WIL_PAT_NODE kind inputs)) = wrs_collect_inputs vars capacity inputs"
| "wrs_rule_collect_vars vars capacity (Some (WIL_PAT_REFINEMENT base)) = wrs_rule_collect_vars vars capacity base"
| "wrs_rule_collect_vars vars capacity (Some (WIL_PAT_CONST v)) = Inr (Some vars)"
| "wrs_rule_collect_vars vars capacity (Some WIL_PAT_WILDCARD) = Inr (Some vars)"
| "wrs_rule_collect_vars vars capacity (Some (WIL_PAT_PREDICATE p)) = Inr (Some vars)"
| "wrs_collect_inputs vars capacity [] = Inr (Some vars)"
| "wrs_collect_inputs vars capacity (p # ps) =
     cbind (wrs_rule_collect_vars vars capacity p) (\<lambda>r.
       case r of None \<Rightarrow> Inr None | Some vars \<Rightarrow> wrs_collect_inputs vars capacity ps)"

fun names_known :: "string option list \<Rightarrow> string option list \<Rightarrow> bool cres" where
  "names_known lhs [] = Inr True"
| "names_known lhs (name # names) =
     cbind (name_known lhs name) (\<lambda>found. if found then names_known lhs names else Inr False)"

definition wilRuleValidate :: "WILRewriteRule \<Rightarrow> bool cres" where
  "wilRuleValidate rule =
     (case wr_lhs rule of
        None \<Rightarrow> Inr False
      | Some (WIL_PAT_VAR _) \<Rightarrow> Inr False
      | Some _ \<Rightarrow>
          if Option.is_none (wr_rhs rule) then Inr (\<not> Option.is_none (wr_action rule))
          else cbind (wrs_rule_collect_vars [] 128 (wr_lhs rule)) (\<lambda>l.
               case l of None \<Rightarrow> Inr False | Some lhs_vars \<Rightarrow>
                 cbind (wrs_rule_collect_vars [] 128 (wr_rhs rule)) (\<lambda>r.
                   case r of None \<Rightarrow> Inr False | Some rhs_vars \<Rightarrow> names_known lhs_vars rhs_vars)))"

section \<open>Systems\<close>

datatype WILRewriteStrategy =
    WIL_STRATEGY_INNERMOST | WIL_STRATEGY_OUTERMOST | WIL_STRATEGY_LEFTMOST
  | WIL_STRATEGY_PARALLEL | WIL_STRATEGY_CUSTOM

record WILRewriteStats =
  totalRewrites :: u32
  rulesApplied :: "u32 list"
  iterations :: u32
  normalFormsReached :: u32

record WILRewriteSystem =
  ws_rules :: "WILRewriteRule list"
  ws_strategy :: WILRewriteStrategy
  ws_tracing :: bool
  ws_stats :: WILRewriteStats

definition wrs_no_stats :: WILRewriteStats where
  "wrs_no_stats = \<lparr>totalRewrites = 0, rulesApplied = replicate 256 0, iterations = 0, normalFormsReached = 0\<rparr>"

definition wilRewriteSystemCreate :: WILRewriteSystem where
  "wilRewriteSystemCreate =
     \<lparr>ws_rules = [], ws_strategy = WIL_STRATEGY_INNERMOST, ws_tracing = False, ws_stats = wrs_no_stats\<rparr>"

definition wilRewriteSystemAddRule :: "WILRewriteSystem \<Rightarrow> WILRewriteRule \<Rightarrow> WILRewriteSystem" where
  "wilRewriteSystemAddRule sys rule =
     sys\<lparr>ws_rules := ws_rules sys @
       [rule\<lparr>wr_stats_index := if length (ws_rules sys) < 256 then length (ws_rules sys) else 255\<rparr>]\<rparr>"

text \<open>The position of the first rule of a name; a rule before it without a name is a fault.\<close>

fun wrs_rule_position :: "WILRewriteRule list \<Rightarrow> string \<Rightarrow> nat option cres" where
  "wrs_rule_position [] name = Inr None"
| "wrs_rule_position (r # rs) name =
     cbind (strcmp_eq (wr_name r) (Some name)) (\<lambda>same.
       if same then Inr (Some 0)
       else cbind (wrs_rule_position rs name) (\<lambda>i. Inr (map_option Suc i)))"

definition wilRewriteSystemRemoveRule :: "WILRewriteSystem \<Rightarrow> string option \<Rightarrow> WILRewriteSystem cres" where
  "wilRewriteSystemRemoveRule sys ruleName =
     (case ruleName of
        None \<Rightarrow> Inr sys
      | Some name \<Rightarrow> cbind (wrs_rule_position (ws_rules sys) name) (\<lambda>i.
          Inr (case i of None \<Rightarrow> sys
               | Some i \<Rightarrow> sys\<lparr>ws_rules := take i (ws_rules sys) @ drop (Suc i) (ws_rules sys)\<rparr>)))"

definition wilRewriteSystemClearRules :: "WILRewriteSystem \<Rightarrow> WILRewriteSystem" where
  "wilRewriteSystemClearRules sys = sys\<lparr>ws_rules := []\<rparr>"

definition wilRewriteSystemGetRule :: "WILRewriteSystem \<Rightarrow> nat \<Rightarrow> WILRewriteRule option" where
  "wilRewriteSystemGetRule sys i = (if length (ws_rules sys) \<le> i then None else Some (ws_rules sys ! i))"

definition wilRewriteSystemFindRule :: "WILRewriteSystem \<Rightarrow> string option \<Rightarrow> nat option cres" where
  "wilRewriteSystemFindRule sys name =
     (case name of None \<Rightarrow> Inr None | Some nm \<Rightarrow> wrs_rule_position (ws_rules sys) nm)"

definition wrs_set_enabled :: "WILRewriteSystem \<Rightarrow> string option \<Rightarrow> bool \<Rightarrow> WILRewriteSystem cres" where
  "wrs_set_enabled sys name on =
     cbind (wilRewriteSystemFindRule sys name) (\<lambda>i.
       Inr (case i of None \<Rightarrow> sys
            | Some i \<Rightarrow> sys\<lparr>ws_rules := (ws_rules sys)[i := (ws_rules sys ! i)\<lparr>wr_enabled := on\<rparr>]\<rparr>))"

definition wilRewriteSystemEnableRule :: "WILRewriteSystem \<Rightarrow> string option \<Rightarrow> WILRewriteSystem cres" where
  "wilRewriteSystemEnableRule sys name = wrs_set_enabled sys name True"

definition wilRewriteSystemDisableRule :: "WILRewriteSystem \<Rightarrow> string option \<Rightarrow> WILRewriteSystem cres" where
  "wilRewriteSystemDisableRule sys name = wrs_set_enabled sys name False"

definition wilRewriteSystemIsRuleEnabled :: "WILRewriteSystem \<Rightarrow> string option \<Rightarrow> bool cres" where
  "wilRewriteSystemIsRuleEnabled sys name =
     cbind (wilRewriteSystemFindRule sys name) (\<lambda>i.
       Inr (case i of None \<Rightarrow> False | Some i \<Rightarrow> wr_enabled (ws_rules sys ! i)))"

definition wilRewriteSystemSetStrategy :: "WILRewriteSystem \<Rightarrow> WILRewriteStrategy \<Rightarrow> WILRewriteSystem" where
  "wilRewriteSystemSetStrategy sys strategy = sys\<lparr>ws_strategy := strategy\<rparr>"

definition wilRewriteSystemSetTracing :: "WILRewriteSystem \<Rightarrow> bool \<Rightarrow> WILRewriteSystem" where
  "wilRewriteSystemSetTracing sys enabled = sys\<lparr>ws_tracing := enabled\<rparr>"

definition wilRewriteSystemResetStats :: "WILRewriteSystem \<Rightarrow> WILRewriteSystem" where
  "wilRewriteSystemResetStats sys = sys\<lparr>ws_stats := wrs_no_stats\<rparr>"

section \<open>Application\<close>

definition wrs_count_rewrite :: "WILRewriteStats \<Rightarrow> nat \<Rightarrow> WILRewriteStats" where
  "wrs_count_rewrite s i =
     s\<lparr>totalRewrites := totalRewrites s + 1,
       rulesApplied := (if i < 256 then (rulesApplied s)[i := rulesApplied s ! i + 1] else rulesApplied s)\<rparr>"

type_synonym wrs_state = "WILRewriteSystem \<times> WILGraph"

definition wrs_apply_rule ::
  "WILRewriteSystem \<Rightarrow> WILGraph \<Rightarrow> WILRewriteRule \<Rightarrow> node_ptr \<Rightarrow> (node_ptr \<times> wrs_state) cres option" where
  "wrs_apply_rule sys g rule node =
     (case node of
        None \<Rightarrow> Some (Inr (None, sys, g))
      | Some n \<Rightarrow>
          if \<not> wr_enabled rule then Some (Inr (None, sys, g))
          else do {
            m \<leftarrow> wilPatternMatch g (wr_lhs rule) node;
            if \<not> wm_succeeded m then Some (Inr (None, sys, g))
            else ubind (Some (case wr_action rule of
                     Some action \<Rightarrow> Inr (action g m)
                   | None \<Rightarrow> wilSubstitutionApply g (wm_substitution m) (wr_rhs rule)))
              (\<lambda>(replacement, g). Some (Inr (replacement,
                 (case replacement of
                    None \<Rightarrow> (sys, g)
                  | Some r \<Rightarrow> (sys\<lparr>ws_stats := wrs_count_rewrite (ws_stats sys) (wr_stats_index rule)\<rparr>,
                              wil_node_replace_all_uses g n r)))))
          })"

definition wilRewriteSystemApplyRule ::
  "WILRewriteSystem \<Rightarrow> WILGraph \<Rightarrow> string option \<Rightarrow> node_ptr \<Rightarrow> (node_ptr \<times> wrs_state) cres option" where
  "wilRewriteSystemApplyRule sys g ruleName node =
     ubind (Some (wilRewriteSystemFindRule sys ruleName)) (\<lambda>i.
       case i of None \<Rightarrow> Some (Inr (None, sys, g))
       | Some i \<Rightarrow> wrs_apply_rule sys g (ws_rules sys ! i) node)"

text \<open>The first rule that replaces the node ends the loop.\<close>

fun wrs_apply_first ::
  "WILRewriteSystem \<Rightarrow> WILGraph \<Rightarrow> WILRewriteRule list \<Rightarrow> node_ptr \<Rightarrow> (node_ptr \<times> wrs_state) cres option" where
  "wrs_apply_first sys g [] node = Some (Inr (None, sys, g))"
| "wrs_apply_first sys g (rule # rules) node =
     ubind (wrs_apply_rule sys g rule node) (\<lambda>(replacement, sys, g).
       if replacement \<noteq> None then Some (Inr (replacement, sys, g))
       else wrs_apply_first sys g rules node)"

definition wilRewriteSystemApplyAt ::
  "WILRewriteSystem \<Rightarrow> WILGraph \<Rightarrow> node_ptr \<Rightarrow> (node_ptr \<times> wrs_state) cres option" where
  "wilRewriteSystemApplyAt sys g node =
     (if node = None then Some (Inr (None, sys, g)) else wrs_apply_first sys g (ws_rules sys) node)"

text \<open>
  \<open>wrs_apply_recursive\<close> and its loop over the inputs of a node, from an index on: one
  recursion over the two kinds of call. No visited set is kept.
\<close>

datatype wrs_visit = VisitNode node_ptr | VisitInputs nat nat

partial_function (option) wrs_traverse ::
  "wrs_visit \<Rightarrow> wrs_state \<Rightarrow> (node_ptr \<times> wrs_state) cres option" where
  "wrs_traverse visit s =
     (case visit of
        VisitInputs n i \<Rightarrow>
          if i < wil_node_input_count (snd s) (Some n) then
            ubind (wrs_traverse (VisitNode (wil_node_input (snd s) (Some n) i)) s) (\<lambda>r.
              wrs_traverse (VisitInputs n (Suc i))
                (case r of (replacement, sys, g) \<Rightarrow>
                  (sys, if replacement = None then g else wil_node_replace_input g n i replacement)))
          else Some (Inr (None, s))
      | VisitNode node \<Rightarrow>
          (case node of
             None \<Rightarrow> Some (Inr (None, s))
           | Some n \<Rightarrow>
               ubind (if ws_strategy (fst s) = WIL_STRATEGY_INNERMOST
                      then wrs_traverse (VisitInputs n 0) s else Some (Inr (None, s))) (\<lambda>r.
               ubind (wilRewriteSystemApplyAt (fst (snd r)) (snd (snd r)) node) (\<lambda>r.
                 if fst r \<noteq> None then Some (Inr r)
                 else if ws_strategy (fst (snd r)) \<noteq> WIL_STRATEGY_INNERMOST
                 then wrs_traverse (VisitInputs n 0) (snd r)
                 else Some (Inr r)))))"

definition wrs_apply_recursive ::
  "WILRewriteSystem \<Rightarrow> WILGraph \<Rightarrow> node_ptr \<Rightarrow> (node_ptr \<times> wrs_state) cres option" where
  "wrs_apply_recursive sys g node = wrs_traverse (VisitNode node) (sys, g)"

definition wilRewriteSystemApply :: "WILRewriteSystem \<Rightarrow> WILGraph \<Rightarrow> node_ptr \<Rightarrow> wrs_state cres option" where
  "wilRewriteSystemApply sys g root = ubind (wrs_apply_recursive sys g root) (\<lambda>r. Some (Inr (snd r)))"

fun wilRewriteSystemApplyToFixpoint ::
  "WILRewriteSystem \<Rightarrow> WILGraph \<Rightarrow> node_ptr \<Rightarrow> nat \<Rightarrow> wrs_state cres option" where
  "wilRewriteSystemApplyToFixpoint sys g root 0 = Some (Inr (sys, g))"
| "wilRewriteSystemApplyToFixpoint sys g root (Suc k) =
     ubind (wrs_apply_recursive (sys\<lparr>ws_stats := (ws_stats sys)\<lparr>iterations := iterations (ws_stats sys) + 1\<rparr>\<rparr>) g root)
       (\<lambda>(replacement, sys, g).
          if replacement = None then
            Some (Inr (sys\<lparr>ws_stats := (ws_stats sys)\<lparr>normalFormsReached := normalFormsReached (ws_stats sys) + 1\<rparr>\<rparr>, g))
          else wilRewriteSystemApplyToFixpoint sys g replacement k)"

definition wilRewriteSystemIsNormalForm :: "WILRewriteSystem \<Rightarrow> WILGraph \<Rightarrow> node_ptr \<Rightarrow> bool option" where
  "wilRewriteSystemIsNormalForm sys g node =
     (if node = None then Some True
      else loop (\<lambda>nf rule. if \<not> nf \<or> \<not> wr_enabled rule then Some nf
                 else do { m \<leftarrow> wilPatternMatch g (wr_lhs rule) node; Some (\<not> wm_succeeded m) })
             True (ws_rules sys))"

partial_function (option) wilRewriteSystemIsGraphNormalForm ::
  "WILRewriteSystem \<Rightarrow> WILGraph \<Rightarrow> node_ptr \<Rightarrow> bool option" where
  "wilRewriteSystemIsGraphNormalForm sys g root =
     (if root = None then Some True
      else do {
        nf \<leftarrow> wilRewriteSystemIsNormalForm sys g root;
        if \<not> nf then Some False
        else loop (\<lambda>nf i. if \<not> nf then Some False
                   else wilRewriteSystemIsGraphNormalForm sys g (wil_node_input g root i))
               True [0..<wil_node_input_count g root]
      })"

fun wrs_normalize_loop ::
  "WILRewriteSystem \<Rightarrow> WILGraph \<Rightarrow> node_ptr \<Rightarrow> nat \<Rightarrow> (node_ptr \<times> wrs_state) cres option" where
  "wrs_normalize_loop sys g current 0 = Some (Inr (current, sys, g))"
| "wrs_normalize_loop sys g current (Suc k) =
     ubind (wrs_apply_recursive sys g current) (\<lambda>(replacement, sys, g).
       if replacement = None then Some (Inr (current, sys, g))
       else wrs_normalize_loop sys g replacement k)"

definition wilRewriteSystemNormalize ::
  "WILRewriteSystem \<Rightarrow> WILGraph \<Rightarrow> node_ptr \<Rightarrow> nat \<Rightarrow> (node_ptr \<times> wrs_state) cres option" where
  "wilRewriteSystemNormalize sys g node maxIterations = do {
     replacement \<leftarrow> wrs_normalize_with_egraph g node maxIterations;
     wrs_normalize_loop sys g (if replacement \<noteq> None then replacement else node) maxIterations
   }"

end
