(* ===== verification/Wrs_Loader.thy ===== *)
theory Wrs_Loader
  imports Wrs Sexp_Reader
begin

text \<open>
  Rule files: the loader \<^verbatim>\<open>wrs_loader.c\<close>, the expressions of guards \<^verbatim>\<open>wrs_parser.c\<close>, the
  text forms \<^verbatim>\<open>wrs_debug.c\<close>, and the rule sets that a system loads by name. The
  conversions of a \<^verbatim>\<open>double\<close> (\<^verbatim>\<open>strtod\<close> and \<^verbatim>\<open>%g\<close>) and the contents of files are
  parameters. The kind \<^verbatim>\<open>-1\<close> of a name that is none is \<open>None\<close>.
\<close>

section \<open>Patterns\<close>

definition wrs_node_kind_symbol :: "WILNodeKind \<Rightarrow> string" where
  "wrs_node_kind_symbol kind = wil_node_kind_str kind"

definition wrs_parse_node_kind_symbol :: "string option \<Rightarrow> WILNodeKind option" where
  "wrs_parse_node_kind_symbol symbol =
     (case symbol of None \<Rightarrow> None | Some s \<Rightarrow> find (\<lambda>kind. wil_node_kind_str kind = s) wil_node_kinds)"

definition wrs_atom_is :: "sexp_ptr \<Rightarrow> string \<Rightarrow> bool" where
  "wrs_atom_is p text \<longleftrightarrow> wirble_sexp_node_is_atom p \<and> sexp_text p = Some text"

definition wrs_parse_int64 :: "string option \<Rightarrow> u64 option" where
  "wrs_parse_int64 text =
     (case text of
        None \<Rightarrow> None
      | Some t \<Rightarrow> (case strtoll t of (v, rest) \<Rightarrow> if rest = t \<or> rest \<noteq> [] then None else Some (word_of_int v)))"

definition wrs_const_pattern_from_atom :: "sexp_ptr \<Rightarrow> pat_ptr" where
  "wrs_const_pattern_from_atom p =
     (case sexp_text p of
        None \<Rightarrow> None
      | Some t \<Rightarrow>
          if t = ''true'' \<or> t = ''false''
          then Some (WIL_PAT_CONST (WIL_PATTERN_VALUE_BOOL (if t = ''true'' then 1 else 0)))
          else (case wrs_parse_int64 (Some t) of None \<Rightarrow> None | Some v \<Rightarrow> wilPatConst v))"

definition skip_question :: "string \<Rightarrow> string" where
  "skip_question name = (case name of [] \<Rightarrow> name | c # cs \<Rightarrow> if c = CHR ''?'' then cs else name)"

text \<open>
  A list is a pattern by its head: \<open>seq\<close>, \<open>refine\<close>, \<open>pred\<close>, or the name of a kind with the
  patterns of its inputs; an input that is no pattern is null.
\<close>

function wrs_pattern_from_node :: "WirbleSexpNode \<Rightarrow> pat_ptr" where
  "wrs_pattern_from_node (WIRBLE_SEXP_NODE_ATOM ak t l) =
     (let p = [WIRBLE_SEXP_NODE_ATOM ak t l] in
      if t = ''_'' then wilPatWildcard
      else if t \<noteq> [] \<and> hd t = CHR ''?'' then wilPatVar (Some (tl t))
      else (case wrs_const_pattern_from_atom p of
          Some constant \<Rightarrow> Some constant
        | None \<Rightarrow> (case wrs_parse_node_kind_symbol (Some t) of None \<Rightarrow> None | Some kind \<Rightarrow> wilPatNode kind [])))"
| "wrs_pattern_from_node (WIRBLE_SEXP_NODE_LIST ns) =
     (if wrs_atom_is ns ''seq''
      then wilPatSequence (map_option skip_question (sexp_text (drop 1 ns)))
             (case drop 2 ns of [] \<Rightarrow> None | n # _ \<Rightarrow> wrs_pattern_from_node n)
      else if wrs_atom_is ns ''refine''
      then wilPatRefinement (case drop 1 ns of [] \<Rightarrow> None | n # _ \<Rightarrow> wrs_pattern_from_node n)
      else if wrs_atom_is ns ''pred'' then wilPatWildcard
      else (case wrs_parse_node_kind_symbol (sexp_text ns) of
          None \<Rightarrow> None
        | Some kind \<Rightarrow> wilPatNode kind (map wrs_pattern_from_node (drop 1 ns))))"
  by pat_completeness auto

lemma node_size_drop:
  "n \<in> set (drop k ns) \<Longrightarrow> size n < Suc (size_list size ns)"
  "drop k ns = n # rest \<Longrightarrow> size n < Suc (size_list size ns)"
proof -
  show *: "n \<in> set (drop k ns) \<Longrightarrow> size n < Suc (size_list size ns)"
    by (meson in_set_dropD le_imp_less_Suc size_list_estimation' order_refl)
  assume "drop k ns = n # rest"
  then have "n \<in> set (drop k ns)" by simp
  then show "size n < Suc (size_list size ns)" by (rule *)
qed

termination wrs_pattern_from_node
  by (relation "measure size") (simp_all only: in_measure WirbleSexpNode.size node_size_drop wf_measure add_Suc_right add_0_right)

definition wrs_pattern_from_sexp_node :: "sexp_ptr \<Rightarrow> pat_ptr" where
  "wrs_pattern_from_sexp_node p = (case p of [] \<Rightarrow> None | n # _ \<Rightarrow> wrs_pattern_from_node n)"

section \<open>Guards\<close>

definition wrs_is_integer :: "string \<Rightarrow> bool" where
  "wrs_is_integer t =
     (if t = [] then False
      else let body = (if hd t = CHR ''-'' \<or> hd t = CHR ''+'' then tl t else t)
           in body \<noteq> [] \<and> list_all is_digit body)"

fun is_float_from :: "string \<Rightarrow> bool \<Rightarrow> bool" where
  "is_float_from [] seen_dot = seen_dot"
| "is_float_from (c # cs) seen_dot =
     (if c = CHR ''.'' then (if seen_dot then False else is_float_from cs True)
      else if \<not> is_digit c then False else is_float_from cs seen_dot)"

definition wrs_is_float :: "string \<Rightarrow> bool" where
  "wrs_is_float t =
     (if t = [] then False
      else let body = (if hd t = CHR ''-'' \<or> hd t = CHR ''+'' then tl t else t)
           in body \<noteq> [] \<and> is_float_from body False)"

fun wrs_sexpr_from_node :: "(string \<Rightarrow> u64) \<Rightarrow> WirbleSexpNode \<Rightarrow> WRSSExpr" where
  "wrs_sexpr_from_node strtod (WIRBLE_SEXP_NODE_ATOM ak t l) =
     (if ak = WIRBLE_SEXP_ATOM_DOUBLE_QUOTED then WRS_SEXPR_STRING t
      else if wrs_is_integer t then WRS_SEXPR_NUMBER (word_of_int (fst (strtoll t)))
      else if wrs_is_float t then WRS_SEXPR_NUMBER (strtod t)
      else WRS_SEXPR_ATOM t)"
| "wrs_sexpr_from_node strtod (WIRBLE_SEXP_NODE_LIST ns) = WRS_SEXPR_LIST (map (wrs_sexpr_from_node strtod) ns)"

definition wrs_sexpr_from_tree :: "(string \<Rightarrow> u64) \<Rightarrow> sexp_ptr \<Rightarrow> WRSSExpr option" where
  "wrs_sexpr_from_tree strtod p = (case p of [] \<Rightarrow> None | n # _ \<Rightarrow> Some (wrs_sexpr_from_node strtod n))"

definition wrsSExprParse ::
  "sexp_parser \<Rightarrow> (string \<Rightarrow> u64) \<Rightarrow> string option \<Rightarrow> streams \<Rightarrow> WRSSExpr option \<times> streams" where
  "wrsSExprParse parse_sexp strtod source out =
     (let tree = wirble_sexp_tree_init (Some (wirble_diag_init (Some 2) (Some ''wrs'')))
      in case wirble_sexp_tree_parse_cstr parse_sexp tree (Some ''<string>'') source out of
           (ok, tree, out) \<Rightarrow>
             (if \<not> ok then None
              else wrs_sexpr_from_tree strtod (wirble_sexp_node_child (wirble_sexp_tree_root tree) 0), out))"

definition wrsSExprListLength :: "WRSSExpr option \<Rightarrow> nat" where
  "wrsSExprListLength e = (case e of Some (WRS_SEXPR_LIST es) \<Rightarrow> length es | _ \<Rightarrow> 0)"

definition wrsSExprListGet :: "WRSSExpr option \<Rightarrow> nat \<Rightarrow> WRSSExpr option" where
  "wrsSExprListGet e i =
     (case e of Some (WRS_SEXPR_LIST es) \<Rightarrow> if length es \<le> i then None else Some (es ! i) | _ \<Rightarrow> None)"

text \<open>The elements of a printed list are separated by blanks.\<close>

definition sep_by :: "string \<Rightarrow> string list \<Rightarrow> string" where
  "sep_by sep ts = (case ts of [] \<Rightarrow> [] | t # ts \<Rightarrow> t @ concat (map (\<lambda>u. sep @ u) ts))"

fun wrs_stringify_expr :: "WRSSExpr \<Rightarrow> string" where
  "wrs_stringify_expr (WRS_SEXPR_ATOM t) = t"
| "wrs_stringify_expr (WRS_SEXPR_STRING t) = [CHR 0x22] @ t @ [CHR 0x22]"
| "wrs_stringify_expr (WRS_SEXPR_NUMBER v) = show_signed v"
| "wrs_stringify_expr (WRS_SEXPR_LIST es) = ''('' @ sep_by '' '' (map wrs_stringify_expr es) @ '')''"

definition wrsSExprToString :: "WRSSExpr option \<Rightarrow> string" where
  "wrsSExprToString e = (case e of None \<Rightarrow> [] | Some e \<Rightarrow> wrs_stringify_expr e)"

section \<open>Files\<close>

definition wrs_parse_strategy_atom :: "string option \<Rightarrow> WILRewriteStrategy" where
  "wrs_parse_strategy_atom text =
     (if text = Some ''outermost'' then WIL_STRATEGY_OUTERMOST
      else if text = Some ''leftmost'' then WIL_STRATEGY_LEFTMOST
      else if text = Some ''parallel'' then WIL_STRATEGY_PARALLEL
      else WIL_STRATEGY_INNERMOST)"

definition wrsStrategyFromSExpr :: "WRSSExpr option \<Rightarrow> WILRewriteStrategy" where
  "wrsStrategyFromSExpr e =
     (case e of Some (WRS_SEXPR_ATOM t) \<Rightarrow> wrs_parse_strategy_atom (Some t) | _ \<Rightarrow> WIL_STRATEGY_INNERMOST)"

definition wrs_rule_from_tree :: "(string \<Rightarrow> u64) \<Rightarrow> sexp_ptr \<Rightarrow> WILRewriteRule option" where
  "wrs_rule_from_tree strtod form =
     (case wirble_sexp_extract_rule form of
        None \<Rightarrow> None
      | Some view \<Rightarrow>
          (let rule = wilRuleCreateSimple (sexp_text (rv_name view))
                 (wrs_pattern_from_sexp_node (rv_match view)) (wrs_pattern_from_sexp_node (rv_replace view))
           in Some (if rv_condition view = [] then rule
                    else rule\<lparr>wr_guard := wrs_sexpr_from_tree strtod (rv_condition view)\<rparr>)))"

record WRSFile =
  wf_rules :: "WILRewriteRule list"
  wf_strategy :: WILRewriteStrategy

definition wrs_file_alloc :: WRSFile where
  "wrs_file_alloc = \<lparr>wf_rules = [], wf_strategy = WIL_STRATEGY_INNERMOST\<rparr>"

definition wrs_load_form :: "(string \<Rightarrow> u64) \<Rightarrow> WRSFile \<Rightarrow> WirbleSexpNode \<Rightarrow> WRSFile" where
  "wrs_load_form strtod file form =
     (let p = [form] in
      if wirble_sexp_node_is_list p \<and> wrs_atom_is (wirble_sexp_node_child p 0) ''rule''
      then (case wrs_rule_from_tree strtod p of
              None \<Rightarrow> file | Some rule \<Rightarrow> file\<lparr>wf_rules := wf_rules file @ [rule]\<rparr>)
      else if wirble_sexp_node_is_list p \<and> wrs_atom_is (wirble_sexp_node_child p 0) ''strategy''
      then file\<lparr>wf_strategy := wrs_parse_strategy_atom (sexp_text (wirble_sexp_node_child p 1))\<rparr>
      else file)"

definition wrs_file_load_tree :: "(string \<Rightarrow> u64) \<Rightarrow> WirbleSexpTree \<Rightarrow> WRSFile" where
  "wrs_file_load_tree strtod tree =
     foldl (wrs_load_form strtod) wrs_file_alloc (wirble_sexp_node_child (wirble_sexp_tree_root tree) 0)"

definition wrsFileLoad ::
  "sexp_parser \<Rightarrow> (string \<Rightarrow> u64) \<Rightarrow> (string \<Rightarrow> string option) \<Rightarrow> string option \<Rightarrow> streams
     \<Rightarrow> WRSFile option \<times> streams" where
  "wrsFileLoad parse_sexp strtod files path out =
     (let tree = wirble_sexp_tree_init (Some (wirble_diag_init (Some 2) (Some ''wrs'')))
      in case wirble_sexp_tree_parse_file parse_sexp files tree path out of
           (ok, tree, out) \<Rightarrow> (if ok then Some (wrs_file_load_tree strtod tree) else None, out))"

definition wrsFileLoadFromString ::
  "sexp_parser \<Rightarrow> (string \<Rightarrow> u64) \<Rightarrow> string option \<Rightarrow> streams \<Rightarrow> WRSFile option \<times> streams" where
  "wrsFileLoadFromString parse_sexp strtod source out =
     (let tree = wirble_sexp_tree_init (Some (wirble_diag_init (Some 2) (Some ''wrs'')))
      in case wirble_sexp_tree_parse_cstr parse_sexp tree (Some ''<string>'') source out of
           (ok, tree, out) \<Rightarrow> (if ok then Some (wrs_file_load_tree strtod tree) else None, out))"

definition wrsFileRuleCount :: "WRSFile option \<Rightarrow> nat" where
  "wrsFileRuleCount file = (case file of None \<Rightarrow> 0 | Some f \<Rightarrow> length (wf_rules f))"

definition wrsFileGetRule :: "WRSFile option \<Rightarrow> nat \<Rightarrow> WILRewriteRule option" where
  "wrsFileGetRule file i =
     (case file of None \<Rightarrow> None | Some f \<Rightarrow> if length (wf_rules f) \<le> i then None else Some (wf_rules f ! i))"

definition wrsFileGetStrategy :: "WRSFile option \<Rightarrow> WILRewriteStrategy" where
  "wrsFileGetStrategy file = (case file of None \<Rightarrow> WIL_STRATEGY_INNERMOST | Some f \<Rightarrow> wf_strategy f)"

definition wrsFileApplyToSystem :: "WRSFile option \<Rightarrow> WILRewriteSystem \<Rightarrow> WILRewriteSystem" where
  "wrsFileApplyToSystem file sys =
     (case file of
        None \<Rightarrow> sys
      | Some f \<Rightarrow> foldl wilRewriteSystemAddRule (wilRewriteSystemSetStrategy sys (wf_strategy f)) (wf_rules f))"

text \<open>The first rule that is not valid ends the check.\<close>

fun wrs_rules_valid :: "WILRewriteRule list \<Rightarrow> bool cres" where
  "wrs_rules_valid [] = Inr True"
| "wrs_rules_valid (rule # rules) =
     cbind (wilRuleValidate rule) (\<lambda>ok. if ok then wrs_rules_valid rules else Inr False)"

definition wrsFileValidate ::
  "sexp_parser \<Rightarrow> (string \<Rightarrow> u64) \<Rightarrow> (string \<Rightarrow> string option) \<Rightarrow> string option \<Rightarrow> streams
     \<Rightarrow> (bool \<times> string option \<times> streams) cres" where
  "wrsFileValidate parse_sexp strtod files path out =
     (case wrsFileLoad parse_sexp strtod files path out of
        (None, out) \<Rightarrow> Inr (False, Some ''failed to load .wrs file'', out)
      | (Some file, out) \<Rightarrow> cbind (wrs_rules_valid (wf_rules file)) (\<lambda>ok.
          Inr (ok, if ok then None else Some ''invalid rewrite rule'', out)))"

section \<open>The shipped rule sets\<close>

text \<open>A name that is too long for the buffer of 1024 bytes adds no rules.\<close>

definition wrs_add_rules_from_builtin_file ::
  "sexp_parser \<Rightarrow> (string \<Rightarrow> u64) \<Rightarrow> (string \<Rightarrow> string option) \<Rightarrow> string \<Rightarrow> string \<Rightarrow> WILRewriteSystem \<times> streams
     \<Rightarrow> WILRewriteSystem \<times> streams" where
  "wrs_add_rules_from_builtin_file parse_sexp strtod files dir filename s =
     (let path = dir @ ''/'' @ filename in
      if 1024 \<le> length path then s
      else case wrsFileLoad parse_sexp strtod files (Some path) (snd s) of
             (Some file, out) \<Rightarrow> (wrsFileApplyToSystem (Some file) (fst s), out)
           | (None, out) \<Rightarrow>
               (case wrsFileLoad parse_sexp strtod files (Some filename) out of
                  (file, out) \<Rightarrow> (wrsFileApplyToSystem file (fst s), out)))"

definition wilRewriteSystemAddAlgebraicRules ::
  "sexp_parser \<Rightarrow> (string \<Rightarrow> u64) \<Rightarrow> (string \<Rightarrow> string option) \<Rightarrow> string \<Rightarrow> WILRewriteSystem \<times> streams
     \<Rightarrow> WILRewriteSystem \<times> streams" where
  "wilRewriteSystemAddAlgebraicRules parse_sexp strtod files dir s =
     wrs_add_rules_from_builtin_file parse_sexp strtod files dir ''arithmetic.wrs'' s"

definition wilRewriteSystemAddStrengthReductionRules ::
  "sexp_parser \<Rightarrow> (string \<Rightarrow> u64) \<Rightarrow> (string \<Rightarrow> string option) \<Rightarrow> string \<Rightarrow> WILRewriteSystem \<times> streams
     \<Rightarrow> WILRewriteSystem \<times> streams" where
  "wilRewriteSystemAddStrengthReductionRules parse_sexp strtod files dir s =
     wrs_add_rules_from_builtin_file parse_sexp strtod files dir ''canonical.wrs'' s"

definition wilRewriteSystemAddIdentityRules ::
  "sexp_parser \<Rightarrow> (string \<Rightarrow> u64) \<Rightarrow> (string \<Rightarrow> string option) \<Rightarrow> string \<Rightarrow> WILRewriteSystem \<times> streams
     \<Rightarrow> WILRewriteSystem \<times> streams" where
  "wilRewriteSystemAddIdentityRules parse_sexp strtod files dir s =
     wrs_add_rules_from_builtin_file parse_sexp strtod files dir ''logic.wrs'' s"

definition wilRewriteSystemAddAllBuiltinRules ::
  "sexp_parser \<Rightarrow> (string \<Rightarrow> u64) \<Rightarrow> (string \<Rightarrow> string option) \<Rightarrow> string \<Rightarrow> WILRewriteSystem \<times> streams
     \<Rightarrow> WILRewriteSystem \<times> streams" where
  "wilRewriteSystemAddAllBuiltinRules parse_sexp strtod files dir s =
     wilRewriteSystemAddStrengthReductionRules parse_sexp strtod files dir
       (wilRewriteSystemAddIdentityRules parse_sexp strtod files dir
         (wilRewriteSystemAddAlgebraicRules parse_sexp strtod files dir s))"

section \<open>Text forms\<close>

text \<open>A null name adds nothing to the text.\<close>

definition name_text :: "string option \<Rightarrow> string" where
  "name_text name = (case name of None \<Rightarrow> [] | Some n \<Rightarrow> n)"

fun wrs_pattern_to_buffer :: "(u64 \<Rightarrow> string) \<Rightarrow> pat_ptr \<Rightarrow> string"
  and wrs_inputs_to_buffer :: "(u64 \<Rightarrow> string) \<Rightarrow> pat_ptr list \<Rightarrow> string" where
  "wrs_pattern_to_buffer show_g None = ''<null>''"
| "wrs_pattern_to_buffer show_g (Some (WIL_PAT_VAR name)) = ''?'' @ name_text name"
| "wrs_pattern_to_buffer show_g (Some WIL_PAT_WILDCARD) = ''_''"
| "wrs_pattern_to_buffer show_g (Some (WIL_PAT_CONST v)) =
     (case v of
        WIL_PATTERN_VALUE_INT i \<Rightarrow> show_signed i
      | WIL_PATTERN_VALUE_FLOAT f \<Rightarrow> show_g f
      | WIL_PATTERN_VALUE_BOOL b \<Rightarrow> if b \<noteq> 0 then ''true'' else ''false'')"
| "wrs_pattern_to_buffer show_g (Some (WIL_PAT_NODE kind inputs)) =
     ''('' @ wrs_node_kind_symbol kind @ wrs_inputs_to_buffer show_g inputs @ '')''"
| "wrs_pattern_to_buffer show_g (Some (WIL_PAT_SEQUENCE name elem)) =
     ''(seq ?'' @ name_text name @ '' '' @ wrs_pattern_to_buffer show_g elem @ '')''"
| "wrs_pattern_to_buffer show_g (Some (WIL_PAT_REFINEMENT base)) =
     ''(refine '' @ wrs_pattern_to_buffer show_g base @ '')''"
| "wrs_pattern_to_buffer show_g (Some (WIL_PAT_PREDICATE p)) = ''(pred)''"
| "wrs_inputs_to_buffer show_g [] = []"
| "wrs_inputs_to_buffer show_g (p # ps) = '' '' @ wrs_pattern_to_buffer show_g p @ wrs_inputs_to_buffer show_g ps"

definition wilPatternToString :: "(u64 \<Rightarrow> string) \<Rightarrow> pat_ptr \<Rightarrow> string" where
  "wilPatternToString show_g p = wrs_pattern_to_buffer show_g p"

definition wilRuleToString :: "(u64 \<Rightarrow> string) \<Rightarrow> WILRewriteRule option \<Rightarrow> string option" where
  "wilRuleToString show_g rule =
     (case rule of
        None \<Rightarrow> None
      | Some r \<Rightarrow> Some (''(rule :name '' @ name_text (wr_name r) @ '' :match '' @ wilPatternToString show_g (wr_lhs r)
          @ '' :replace '' @ wilPatternToString show_g (wr_rhs r) @ '')''))"

definition wilRewriteSystemToString :: "(u64 \<Rightarrow> string) \<Rightarrow> WILRewriteSystem option \<Rightarrow> string" where
  "wilRewriteSystemToString show_g sys =
     (case sys of
        None \<Rightarrow> []
      | Some s \<Rightarrow> concat (map (\<lambda>r. name_text (wilRuleToString show_g (Some r)) @ [CHR 0x0A]) (ws_rules s)))"

definition wilSubstitutionToString :: "WILGraph \<Rightarrow> WILSubstitution option \<Rightarrow> string" where
  "wilSubstitutionToString g subst =
     ''{'' @ (case subst of None \<Rightarrow> []
              | Some s \<Rightarrow> sep_by '', '' (map (\<lambda>(x, node). x @ ''=n'' @ show_unsigned (wil_node_id g node)) s)) @ ''}''"

definition wilMatchToString :: "WILGraph \<Rightarrow> WILMatch option \<Rightarrow> string" where
  "wilMatchToString g m =
     (case m of
        None \<Rightarrow> ''no-match '' @ wilSubstitutionToString g None
      | Some m \<Rightarrow> (if wm_succeeded m then ''match '' else ''no-match '')
                   @ wilSubstitutionToString g (Some (wm_substitution m)))"

end
