(* ===== verification/Frontend.thy ===== *)
theory Frontend
  imports Mrs_Loader Wrs_Loader Mal_Lower Wvm_Encode
begin

text \<open>
  The driver of \<^verbatim>\<open>examples/common/frontend.c\<close>: expressions, constant folding, the lowering of an
  expression to a WIL graph, and the pipeline that takes a source text through WIL, WRS, MAL, MRS,
  MDS and TOS to a bytecode prototype and executes it. The parser that dparser generates from
  \<^verbatim>\<open>wirble_expr.g\<close> is a parameter, like the parser of rule files and the contents of files. The
  dumps that the options can ask for only print.
\<close>

section \<open>Expressions\<close>

datatype WirbleUnaryOp = WIRBLE_UNARY_NEG

datatype WirbleBinaryOp = WIRBLE_BINARY_ADD | WIRBLE_BINARY_SUB | WIRBLE_BINARY_MUL | WIRBLE_BINARY_DIV

datatype WirbleExpr =
    WIRBLE_EXPR_INT u64
  | WIRBLE_EXPR_UNARY WirbleUnaryOp WirbleExpr
  | WIRBLE_EXPR_BINARY WirbleBinaryOp WirbleExpr WirbleExpr

text \<open>The result of an operation on \<^verbatim>\<open>long long\<close>: overflow is undefined.\<close>

definition int64_result :: "int \<Rightarrow> u64 option cres" where
  "int64_result x =
     (if - (2 ^ 63) \<le> x \<and> x < 2 ^ 63 then Inr (Some (word_of_int x)) else Inl SignedOverflow)"

fun wirble_expr_is_const :: "WirbleExpr \<Rightarrow> u64 option cres" where
  "wirble_expr_is_const (WIRBLE_EXPR_INT v) = Inr (Some v)"
| "wirble_expr_is_const (WIRBLE_EXPR_UNARY op operand) =
     cbind (wirble_expr_is_const operand) (\<lambda>r.
       case r of None \<Rightarrow> Inr None
       | Some v \<Rightarrow> (case op of WIRBLE_UNARY_NEG \<Rightarrow> int64_result (- sint v)))"
| "wirble_expr_is_const (WIRBLE_EXPR_BINARY op lhs rhs) =
     cbind (wirble_expr_is_const lhs) (\<lambda>l. case l of None \<Rightarrow> Inr None | Some a \<Rightarrow>
     cbind (wirble_expr_is_const rhs) (\<lambda>r. case r of None \<Rightarrow> Inr None | Some b \<Rightarrow>
       (case op of
          WIRBLE_BINARY_ADD \<Rightarrow> int64_result (sint a + sint b)
        | WIRBLE_BINARY_SUB \<Rightarrow> int64_result (sint a - sint b)
        | WIRBLE_BINARY_MUL \<Rightarrow> int64_result (sint a * sint b)
        | WIRBLE_BINARY_DIV \<Rightarrow> if b = 0 then Inr None else int64_result (sint a sdiv sint b))))"

text \<open>The second half of \<open>wirble_expr_fold_constants\<close>: an operation that is constant becomes a literal.\<close>

definition wirble_fold_node :: "WirbleExpr \<Rightarrow> WirbleExpr cres" where
  "wirble_fold_node expr =
     cbind (wirble_expr_is_const expr) (\<lambda>v. Inr (
       case (v, expr) of
         (None, _) \<Rightarrow> expr
       | (_, WIRBLE_EXPR_INT _) \<Rightarrow> expr
       | (Some w, _) \<Rightarrow> WIRBLE_EXPR_INT w))"

fun wirble_expr_fold_constants :: "WirbleExpr \<Rightarrow> WirbleExpr cres" where
  "wirble_expr_fold_constants (WIRBLE_EXPR_INT v) = wirble_fold_node (WIRBLE_EXPR_INT v)"
| "wirble_expr_fold_constants (WIRBLE_EXPR_UNARY op operand) =
     cbind (wirble_expr_fold_constants operand) (\<lambda>operand.
       wirble_fold_node (WIRBLE_EXPR_UNARY op operand))"
| "wirble_expr_fold_constants (WIRBLE_EXPR_BINARY op lhs rhs) =
     cbind (wirble_expr_fold_constants lhs) (\<lambda>lhs.
     cbind (wirble_expr_fold_constants rhs) (\<lambda>rhs.
       wirble_fold_node (WIRBLE_EXPR_BINARY op lhs rhs)))"

fun wirble_lower_expr :: "WILGraph \<Rightarrow> WirbleExpr \<Rightarrow> nat \<times> WILGraph" where
  "wirble_lower_expr g (WIRBLE_EXPR_INT v) = wil_make_const_int g v WIL_TYPE_I32"
| "wirble_lower_expr g (WIRBLE_EXPR_UNARY op operand) =
     (case wirble_lower_expr g operand of (lhs, g) \<Rightarrow>
        (case op of WIRBLE_UNARY_NEG \<Rightarrow> wil_make_neg g (Some lhs)))"
| "wirble_lower_expr g (WIRBLE_EXPR_BINARY op lhs rhs) =
     (case wirble_lower_expr g lhs of (l, g) \<Rightarrow>
      case wirble_lower_expr g rhs of (r, g) \<Rightarrow>
        (case op of
           WIRBLE_BINARY_ADD \<Rightarrow> wil_make_add g (Some l) (Some r)
         | WIRBLE_BINARY_SUB \<Rightarrow> wil_make_sub g (Some l) (Some r)
         | WIRBLE_BINARY_MUL \<Rightarrow> wil_make_mul g (Some l) (Some r)
         | WIRBLE_BINARY_DIV \<Rightarrow> wil_make_div g (Some l) (Some r)))"

section \<open>Options, errors and the environment\<close>

record WirbleCompileOptions =
  co_target :: "string option"
  co_wrsRulesPath :: "string option"
  co_mrsRulesPath :: "string option"
  co_optimizationLevel :: u32
  co_verifyIR :: bool

text \<open>
  What the code gets from outside: the generated expression parser (the line and column of an
  error, or a tree), the parser of S-expressions, \<^verbatim>\<open>strtod\<close>, the contents of files, and the
  directory of the shipped rules.
\<close>

record frontend_env =
  fe_parse :: "string \<Rightarrow> int \<times> int + WirbleExpr"
  fe_sexp :: sexp_parser
  fe_strtod :: "string \<Rightarrow> u64"
  fe_files :: "string \<Rightarrow> string option"
  fe_dir :: string

definition wirbleInitCompileOptions :: "frontend_env \<Rightarrow> WirbleCompileOptions" where
  "wirbleInitCompileOptions env =
     \<lparr>co_target = Some ''x86_64'', co_wrsRulesPath = Some (fe_dir env @ ''/arithmetic.wrs''),
      co_mrsRulesPath = Some (fe_dir env @ ''/mal_peephole.wrs''), co_optimizationLevel = 2,
      co_verifyIR = True\<rparr>"

text \<open>The message that \<open>wirble_set_errorf\<close> leaves.\<close>

definition wirble_set_errorf :: "string option \<Rightarrow> string option \<Rightarrow> string" where
  "wirble_set_errorf prefix detail =
     (let p = (case prefix of None \<Rightarrow> '''' | Some p \<Rightarrow> p) in
      case detail of None \<Rightarrow> p | Some d \<Rightarrow> (if p \<noteq> '''' then p @ '': '' @ d else d))"

definition wirble_machine_path :: "string \<Rightarrow> string option" where
  "wirble_machine_path target =
     (if target = ''x86_64'' then Some ''machines/x86_64.json''
      else if target = ''aarch64'' then Some ''machines/aarch64.yaml''
      else if target = ''wasm'' then Some ''machines/wasm.xml''
      else None)"

definition wirble_target_or_default :: "WirbleCompileOptions option \<Rightarrow> string" where
  "wirble_target_or_default options =
     (case options of None \<Rightarrow> ''x86_64''
      | Some opts \<Rightarrow> (case co_target opts of None \<Rightarrow> ''x86_64'' | Some t \<Rightarrow> if t = '''' then ''x86_64'' else t))"

definition wirble_parse_source :: "frontend_env \<Rightarrow> string option \<Rightarrow> (string + WirbleExpr) cres" where
  "wirble_parse_source env source =
     (case source of
        None \<Rightarrow> Inr (Inl ''missing source input'')
      | Some text \<Rightarrow>
          (case fe_parse env text of
             Inl (line, col) \<Rightarrow>
               Inr (Inl (''parse error near line '' @ show_int line @ '' column '' @ show_int col))
           | Inr expr \<Rightarrow> cbind (wirble_expr_fold_constants expr) (\<lambda>expr. Inr (Inr expr))))"

text \<open>The texts of the verifier of WIL graphs, from \<^verbatim>\<open>wil_validate.c\<close>.\<close>

definition wil_verify_error :: "wil_verify_err \<Rightarrow> string" where
  "wil_verify_error e =
     (case e of
        InvalidId \<Rightarrow> ''node has an invalid id''
      | NullInput n i \<Rightarrow> ''node '' @ show_unsigned n @ '' has a null input at slot '' @ show_nat i
      | MissingReverseUse n i \<Rightarrow>
          ''node '' @ show_unsigned n @ '' input '' @ show_nat i @ '' is missing a reverse use''
      | UseWithoutInput n u \<Rightarrow>
          ''node '' @ show_unsigned n @ '' use list references node '' @ show_unsigned u
            @ '' without matching input'')"

section \<open>The stages of the pipeline\<close>

record WirblePipelineArtifacts =
  pa_expr :: WirbleExpr
  pa_wilContext :: WILGraph
  pa_wilStart :: nat
  pa_wilValue :: nat
  pa_wilNormalizedValue :: node_ptr
  pa_malModule :: "MDSMachine MALModule"
  pa_mdsMachine :: MDSMachine
  pa_mdsSelector :: MDSInstrSelector
  pa_mdsProgram :: MDSProgram
  pa_tosProgram :: TOSProgram
  pa_tosContext :: "TOSContext option"
  pa_wvmPrototype :: WVMPrototype

text \<open>The rules of the graph rewriter, when the program is optimised at all.\<close>

definition wirble_load_wrs ::
  "frontend_env \<Rightarrow> WirbleCompileOptions option \<Rightarrow> streams \<Rightarrow> (string + WILRewriteSystem) \<times> streams" where
  "wirble_load_wrs env options out =
     (case Option.bind options co_wrsRulesPath of
        Some path \<Rightarrow>
          (case wrsFileLoad (fe_sexp env) (fe_strtod env) (fe_files env) (Some path) out of
             (None, out) \<Rightarrow> (Inl ''unable to load WRS rules'', out)
           | (Some f, out) \<Rightarrow> (Inr (wrsFileApplyToSystem (Some f) wilRewriteSystemCreate), out))
      | None \<Rightarrow>
          (case wilRewriteSystemAddAllBuiltinRules (fe_sexp env) (fe_strtod env) (fe_files env) (fe_dir env)
                  (wilRewriteSystemCreate, out) of
             (sys, out) \<Rightarrow> (Inr sys, out)))"

definition wirble_normalize ::
  "WILRewriteSystem option \<Rightarrow> WILGraph \<Rightarrow> node_ptr \<Rightarrow> (node_ptr \<times> WILGraph) cres option" where
  "wirble_normalize wrs g v =
     (case wrs of
        None \<Rightarrow> Some (Inr (v, g))
      | Some sys \<Rightarrow> ubind (wilRewriteSystemNormalize sys g v 16) (\<lambda>(p, sys, g).
          Some (Inr (if p = None then v else p, g))))"

text \<open>The loop over the functions of the module that runs the peephole rules on each.\<close>

fun wirble_peephole_functions ::
  "MALRewriteRule list \<Rightarrow> bool \<Rightarrow> MALFunction list \<Rightarrow> (string + MALFunction list) option" where
  "wirble_peephole_functions rules verifyIR [] = Some (Inr [])"
| "wirble_peephole_functions rules verifyIR (fn # fns) = do {
     (changed, fn) \<leftarrow> malApplyPeepholeToFixpoint rules fn;
     if verifyIR \<and> \<not> mal_verify_ssa fn then Some (Inl ''MAL verification failed after peephole'')
     else do {
       rest \<leftarrow> wirble_peephole_functions rules verifyIR fns;
       Some (map_sum id (Cons fn) rest)
     }
   }"

text \<open>The peephole rules of the options; when they cannot be loaded, the default ones.\<close>

definition wirble_load_mrs ::
  "frontend_env \<Rightarrow> WirbleCompileOptions option \<Rightarrow> streams \<Rightarrow> MALRewriteRule list option \<times> streams" where
  "wirble_load_mrs env options out =
     (case mal_mrs_load (fe_sexp env) (fe_files env) (fe_dir env) (Option.bind options co_mrsRulesPath) out of
        (Some rules, out) \<Rightarrow> (Some rules, out)
      | (None, out) \<Rightarrow> mal_mrs_load (fe_sexp env) (fe_files env) (fe_dir env) None out)"

definition wirble_optimize_mal ::
  "MALRewriteRule list option \<Rightarrow> bool \<Rightarrow> MDSMachine MALModule \<Rightarrow> (string + MDSMachine MALModule) option" where
  "wirble_optimize_mal mrs verifyIR m =
     (case mrs of
        None \<Rightarrow> Some (Inr m)
      | Some rules \<Rightarrow>
          map_option (map_sum id (\<lambda>fns. m\<lparr>mm_functions := fns\<rparr>))
            (wirble_peephole_functions rules verifyIR (mm_functions m)))"

text \<open>From a MAL module to the prototype.\<close>

record wirble_back =
  bk_mdsMachine :: MDSMachine
  bk_mdsSelector :: MDSInstrSelector
  bk_mdsProgram :: MDSProgram
  bk_tosProgram :: TOSProgram
  bk_tosContext :: "TOSContext option"
  bk_wvmPrototype :: WVMPrototype

definition wirble_order_tos ::
  "u32 \<Rightarrow> MDSMachine \<Rightarrow> TOSProgram \<Rightarrow> (string + TOSContext option \<times> TOSProgram) cres" where
  "wirble_order_tos level machine tos =
     (if 0 < level
      then (case tos_optimize_program (tos_create (Some machine)) tos of (ok, ctx, tos) \<Rightarrow>
              cbind ok (\<lambda>ok. Inr (if ok then Inr (Some ctx, tos) else Inl ''unable to optimize TOS program'')))
      else (case tosFinalizeProgram tos of (ok, tos) \<Rightarrow>
              cbind ok (\<lambda>ok. Inr (if ok then Inr (None, tos) else Inl ''unable to finalize TOS program''))))"

definition wirble_emit_wvm :: "bool \<Rightarrow> string option \<Rightarrow> TOSProgram \<Rightarrow> string + WVMPrototype" where
  "wirble_emit_wvm verifyIR sourceName tos =
     (case wvmPrototypeFromTOS (\<lambda>_. True) True (Some tos) (Some (wvm_text ''main''))
             (Some (wvm_text (case sourceName of None \<Rightarrow> ''<input>'' | Some s \<Rightarrow> s))) of
        None \<Rightarrow> Inl ''unable to emit WVM bytecode''
      | Some proto \<Rightarrow>
          if verifyIR \<and> wvm_verify_error (Some proto) \<noteq> None then Inl ''WVM verification failed''
          else Inr proto)"

definition wirble_back_end ::
  "u32 \<Rightarrow> bool \<Rightarrow> string \<Rightarrow> string option \<Rightarrow> MDSMachine MALModule \<Rightarrow> (string + wirble_back) cres" where
  "wirble_back_end level verifyIR machinePath sourceName m =
     (let machine = mdsLoadMachine (Some machinePath); selector = mdsCreateSelector machine in
      if \<not> mdsValidateMachine machine then Inr (Inl ''unable to load target machine'')
      else case malLowerToMDS m (Some selector) of
        None \<Rightarrow> Inr (Inl ''unable to lower MAL to MDS'')
      | Some mds \<Rightarrow>
          cbind (wirble_order_tos level machine (tosBuildFromMDS mds)) (\<lambda>r. case r of
            Inl e \<Rightarrow> Inr (Inl e)
          | Inr (ctx, tos) \<Rightarrow>
              cbind (if verifyIR then tosValidateProgram tos else Inr True) (\<lambda>valid.
                Inr (if \<not> valid then Inl ''TOS verification failed''
                     else map_sum id (\<lambda>proto.
                            \<lparr>bk_mdsMachine = machine, bk_mdsSelector = selector, bk_mdsProgram = mds,
                             bk_tosProgram = tos, bk_tosContext = ctx, bk_wvmPrototype = proto\<rparr>)
                            (wirble_emit_wvm verifyIR sourceName tos)))))"

section \<open>The pipeline\<close>

text \<open>From the normalised graph to the module: the verifier, the return node, lowering, SSA.\<close>

definition wirble_lower_graph ::
  "bool \<Rightarrow> string \<Rightarrow> WILGraph \<Rightarrow> nat \<Rightarrow> node_ptr \<Rightarrow> string + WILGraph \<times> MDSMachine MALModule" where
  "wirble_lower_graph verifyIR target g start v =
     (case (if verifyIR then wil_verify_graph g else None) of
        Some e \<Rightarrow> Inl (wirble_set_errorf (Some ''WIL verification failed'') (Some (wil_verify_error e)))
      | None \<Rightarrow>
          let g = snd (wil_make_return g (Some start) v);
              m = malLowerFromWIL (mal_module_create (Some target)) g
          in if verifyIR \<and> \<not> list_all mal_verify_ssa (mm_functions m) then Inl ''MAL verification failed''
             else Inr (g, m))"

text \<open>
  \<open>wirbleBuildPipelineArtifacts\<close>. The outer option is whether the rewriters return, the fault is
  undefined behaviour, the text is the error message.
\<close>

type_synonym 'a staged = "((string + 'a) \<times> streams) cres option"

definition fail_stage :: "string \<Rightarrow> streams \<Rightarrow> 'a staged" where
  "fail_stage msg out = Some (Inr (Inl msg, out))"

definition wirble_build_from_expr ::
  "frontend_env \<Rightarrow> string option \<Rightarrow> WirbleCompileOptions option \<Rightarrow> string \<Rightarrow> WirbleExpr \<Rightarrow> streams
     \<Rightarrow> WirblePipelineArtifacts staged" where
  "wirble_build_from_expr env sourceName options machinePath expr out =
     (let target = wirble_target_or_default options;
          level = (case options of None \<Rightarrow> 2 | Some opts \<Rightarrow> co_optimizationLevel opts);
          verifyIR = (case options of None \<Rightarrow> True | Some opts \<Rightarrow> co_verifyIR opts);
          (start, g) = wil_make_start [];
          (v, g) = wirble_lower_expr g expr;
          (wrs, out) = (if 0 < level then (case wirble_load_wrs env options out of
                                             (sys, out) \<Rightarrow> (map_sum id Some sys, out))
                        else (Inr None, out))
      in case wrs of
        Inl e \<Rightarrow> fail_stage e out
      | Inr wrs \<Rightarrow>
      ubind (wirble_normalize wrs g (Some v)) (\<lambda>(normalized, g).
      case wirble_lower_graph verifyIR target g start normalized of
        Inl e \<Rightarrow> fail_stage e out
      | Inr (g, m) \<Rightarrow>
      let (mrs, out) = (if 0 < level then wirble_load_mrs env options out else (None, out)) in
      Option.bind (wirble_optimize_mal mrs verifyIR m) (\<lambda>r. case r of
        Inl e \<Rightarrow> fail_stage e out
      | Inr m \<Rightarrow>
      (case wirble_back_end level verifyIR machinePath sourceName m of
         Inl e \<Rightarrow> Some (Inl e)
       | Inr (Inl e) \<Rightarrow> fail_stage e out
       | Inr (Inr b) \<Rightarrow>
           Some (Inr (Inr \<lparr>pa_expr = expr, pa_wilContext = g, pa_wilStart = start, pa_wilValue = v,
              pa_wilNormalizedValue = normalized, pa_malModule = m, pa_mdsMachine = bk_mdsMachine b,
              pa_mdsSelector = bk_mdsSelector b, pa_mdsProgram = bk_mdsProgram b,
              pa_tosProgram = bk_tosProgram b, pa_tosContext = bk_tosContext b,
              pa_wvmPrototype = bk_wvmPrototype b\<rparr>, out))))))"

definition wirbleBuildPipelineArtifacts ::
  "frontend_env \<Rightarrow> string option \<Rightarrow> string option \<Rightarrow> WirbleCompileOptions option \<Rightarrow> streams
     \<Rightarrow> WirblePipelineArtifacts staged" where
  "wirbleBuildPipelineArtifacts env source sourceName options out =
     (case wirble_machine_path (wirble_target_or_default options) of
        None \<Rightarrow> fail_stage ''unsupported target'' out
      | Some machinePath \<Rightarrow>
          (case wirble_parse_source env source of
             Inl e \<Rightarrow> Some (Inl e)
           | Inr (Inl e) \<Rightarrow> fail_stage e out
           | Inr (Inr expr) \<Rightarrow> wirble_build_from_expr env sourceName options machinePath expr out))"

definition wirbleCompileSourceToPrototype ::
  "frontend_env \<Rightarrow> string option \<Rightarrow> string option \<Rightarrow> WirbleCompileOptions option \<Rightarrow> streams
     \<Rightarrow> WVMPrototype staged" where
  "wirbleCompileSourceToPrototype env source sourceName options out =
     ubind (wirbleBuildPipelineArtifacts env source sourceName options out) (\<lambda>(r, out).
       Some (Inr (map_sum id pa_wvmPrototype r, out)))"

text \<open>The VM is created with enough memory; register 0 is read back for the caller.\<close>

definition wirble_run_prototype :: "WVMPrototype \<Rightarrow> (string + WVMValue) cres option" where
  "wirble_run_prototype proto =
     (case wvmCreate True (\<lambda>_. True) of
        None \<Rightarrow> Some (Inr (Inl ''unable to create WVM runtime''))
      | Some vm \<Rightarrow>
          ubind (wvmExecute (\<lambda>_. True) vm (Some proto)) (\<lambda>(ok, vm).
            if \<not> ok then
              Some (Inr (Inl (wirble_set_errorf (Some ''runtime error'')
                (Some (case wvmGetLastError vm of None \<Rightarrow> ''execution failed'' | Some e \<Rightarrow> e)))))
            else Some (cbind (wvmGetReg vm 0) (\<lambda>v. Inr (Inr v)))))"

definition wirbleExecuteSource ::
  "frontend_env \<Rightarrow> string option \<Rightarrow> string option \<Rightarrow> WirbleCompileOptions option \<Rightarrow> streams
     \<Rightarrow> WVMValue staged" where
  "wirbleExecuteSource env source sourceName options out =
     ubind (wirbleCompileSourceToPrototype env source sourceName options out) (\<lambda>(r, out).
       case r of
         Inl e \<Rightarrow> fail_stage e out
       | Inr proto \<Rightarrow> ubind (wirble_run_prototype proto) (\<lambda>v. Some (Inr (v, out))))"

end
