(* ===== verification/Mal_Backend.thy ===== *)
theory Mal_Backend
  imports Wvm_Backend Mal_Lower_Correct
begin

text \<open>
  The back end from MAL on: what straight-line MAL code means on machine values, and the proof that
  instruction selection, layout and encoding keep that meaning. No table of a target machine occurs
  in the meaning.
\<close>

section \<open>The meaning of MAL on machine values\<close>

definition mal_vm_binary :: "(MALOpcode \<times> WVMOpcodeEnum) list" where
  "mal_vm_binary =
     [(MAL_OP_ADD, WVM_OP_ADD), (MAL_OP_SUB, WVM_OP_SUB), (MAL_OP_MUL, WVM_OP_MUL), (MAL_OP_AND, WVM_OP_AND),
      (MAL_OP_OR, WVM_OP_OR), (MAL_OP_SHL, WVM_OP_SHL), (MAL_OP_ASHR, WVM_OP_SHR),
      (MAL_OP_ICMP_EQ, WVM_OP_EQ), (MAL_OP_ICMP_NE, WVM_OP_NE), (MAL_OP_ICMP_SLT, WVM_OP_LT),
      (MAL_OP_ICMP_SLE, WVM_OP_LE), (MAL_OP_ICMP_SGT, WVM_OP_GT), (MAL_OP_ICMP_SGE, WVM_OP_GE)]"

definition mal_vm_exec :: "MALOpcode \<Rightarrow> WVMValue list \<Rightarrow> WVMValue option cres" where
  "mal_vm_exec opcode vs =
     (case vs of
        [x] \<Rightarrow>
          if opcode = MAL_OP_COPY then Inr (Some x)
          else if opcode = MAL_OP_NEG
          then cbind (int32_result (- sint (WVM_AS_INT x))) (\<lambda>w. Inr (Some (WVM_VALUE_FROM_INT w)))
          else if opcode = MAL_OP_NOT then Inr (Some (WVM_VALUE_FROM_INT (NOT (WVM_AS_INT x))))
          else Inr None
      | [x, y] \<Rightarrow>
          (case map_of mal_vm_binary opcode of None \<Rightarrow> Inr None | Some op \<Rightarrow> wvm_exec_binary_int op x y)
      | _ \<Rightarrow> Inr None)"

definition mal_step :: "MALInst \<Rightarrow> (MALReg \<Rightarrow> WVMValue) \<Rightarrow> tos_outcome" where
  "mal_step inst regs =
     (let vs = map (tos_operand_value regs) (mi_operands inst) in
      if mi_opcode inst = MAL_OP_RET then (case vs of [v] \<Rightarrow> TosReturned v | _ \<Rightarrow> TosRejected)
      else value_outcome regs (mi_dst inst) (mal_vm_exec (mi_opcode inst) vs))"

fun mal_eval :: "MALInst list \<Rightarrow> (MALReg \<Rightarrow> WVMValue) \<Rightarrow> tos_outcome" where
  "mal_eval [] regs = TosRunning regs"
| "mal_eval (inst # insts) regs =
     (case mal_step inst regs of TosRunning regs' \<Rightarrow> mal_eval insts regs' | outcome \<Rightarrow> outcome)"

text \<open>
  Instructions the theorems are about: selectable on the built-in machines, with registers that fit
  the encoding, and no exclusive or.
\<close>

definition vm_register :: "MALReg \<Rightarrow> bool" where
  "vm_register r \<longleftrightarrow> unat r < 65534"

definition mal_vm_inst :: "MALInst \<Rightarrow> bool" where
  "mal_vm_inst inst \<longleftrightarrow>
     mds_selectable inst \<and> mi_opcode inst \<noteq> MAL_OP_XOR
     \<and> (mi_opcode inst = MAL_OP_RET \<or> vm_register (mi_dst inst))
     \<and> list_all (\<lambda>opd. pred_option vm_register (operand_reg opd)) (mi_operands inst)"

section \<open>Selection keeps the meaning\<close>

definition row_suffix :: "nat \<Rightarrow> string" where
  "row_suffix i = fst (mds_instr_table ! i)"

lemma vm_rows:
  "map (\<lambda>i. (row_opcode i, row_suffix i, row_descs i)) [0..<21] =
     [(MAL_OP_COPY, ''mov.rr'', binaryReg), (MAL_OP_COPY, ''mov.ri'', binaryImm),
      (MAL_OP_ADD, ''add.rr'', ternaryReg), (MAL_OP_ADD, ''add.ri'', ternaryImm),
      (MAL_OP_SUB, ''sub.rr'', ternaryReg), (MAL_OP_SUB, ''sub.ri'', ternaryImm),
      (MAL_OP_MUL, ''mul.rr'', ternaryReg), (MAL_OP_NEG, ''neg'', binaryReg),
      (MAL_OP_AND, ''and.rr'', ternaryReg), (MAL_OP_OR, ''or.rr'', ternaryReg),
      (MAL_OP_XOR, ''xor.rr'', ternaryReg), (MAL_OP_NOT, ''not'', binaryReg),
      (MAL_OP_SHL, ''shl.ri'', ternaryImm), (MAL_OP_ASHR, ''ashr.ri'', ternaryImm),
      (MAL_OP_ICMP_EQ, ''icmp.eq'', ternaryReg), (MAL_OP_ICMP_NE, ''icmp.ne'', ternaryReg),
      (MAL_OP_ICMP_SLT, ''icmp.slt'', ternaryReg), (MAL_OP_ICMP_SLE, ''icmp.sle'', ternaryReg),
      (MAL_OP_ICMP_SGT, ''icmp.sgt'', ternaryReg), (MAL_OP_ICMP_SGE, ''icmp.sge'', ternaryReg),
      (MAL_OP_RET, ''ret'', retOps)]"
  unfolding upt_21 row_opcode_def row_suffix_def row_descs_def mds_pattern_table_def mds_instr_table_def by simp

text \<open>The rows in three groups, by the number of operands.\<close>

definition vm_unary :: "(MALOpcode \<times> string) list" where
  "vm_unary = [(MAL_OP_COPY, ''mov.rr''), (MAL_OP_COPY, ''mov.ri''), (MAL_OP_NEG, ''neg''), (MAL_OP_NOT, ''not'')]"

definition vm_binary :: "(MALOpcode \<times> string) list" where
  "vm_binary =
     [(MAL_OP_ADD, ''add.rr''), (MAL_OP_ADD, ''add.ri''), (MAL_OP_SUB, ''sub.rr''), (MAL_OP_SUB, ''sub.ri''),
      (MAL_OP_MUL, ''mul.rr''), (MAL_OP_AND, ''and.rr''), (MAL_OP_OR, ''or.rr''), (MAL_OP_SHL, ''shl.ri''),
      (MAL_OP_ASHR, ''ashr.ri''), (MAL_OP_ICMP_EQ, ''icmp.eq''), (MAL_OP_ICMP_NE, ''icmp.ne''),
      (MAL_OP_ICMP_SLT, ''icmp.slt''), (MAL_OP_ICMP_SLE, ''icmp.sle''), (MAL_OP_ICMP_SGT, ''icmp.sgt''),
      (MAL_OP_ICMP_SGE, ''icmp.sge'')]"

lemma vm_rows_grouped:
  "list_all (\<lambda>(opcode, sfx, descs). opcode = MAL_OP_XOR
      \<or> (opcode, sfx) \<in> set vm_unary \<and> (descs = binaryReg \<or> descs = binaryImm)
      \<or> (opcode, sfx) \<in> set vm_binary \<and> (descs = ternaryReg \<or> descs = ternaryImm)
      \<or> opcode = MAL_OP_RET \<and> sfx = ''ret'' \<and> descs = retOps)
     (map (\<lambda>i. (row_opcode i, row_suffix i, row_descs i)) [0..<21])"
  unfolding vm_rows vm_unary_def vm_binary_def by simp

lemma vm_row_cases:
  assumes "i < 21" and "row_opcode i \<noteq> MAL_OP_XOR"
  shows "(row_opcode i, row_suffix i) \<in> set vm_unary \<and> row_descs i \<in> {binaryReg, binaryImm}
     \<or> (row_opcode i, row_suffix i) \<in> set vm_binary \<and> row_descs i \<in> {ternaryReg, ternaryImm}
     \<or> row_opcode i = MAL_OP_RET \<and> row_suffix i = ''ret'' \<and> row_descs i = retOps"
proof -
  have "i \<in> set [0..<21]" using assms(1) by simp
  with vm_rows_grouped assms(2) show ?thesis unfolding list_all_iff by fastforce
qed

lemma vm_unary_rows:
  "list_all (\<lambda>(opcode, sfx). opcode \<noteq> MAL_OP_RET \<and> sfx \<in> {''mov.rr'', ''mov.ri'', ''neg'', ''not''}
      \<and> mal_vm_exec opcode [v] = cbind (tos_exec_unary sfx v) (\<lambda>w. Inr (Some w))) vm_unary"
  unfolding vm_unary_def
  by (simp add: mal_vm_exec_def tos_exec_unary_def cbind_def split: sum.splits)

lemma vm_binary_rows:
  "list_all (\<lambda>(opcode, sfx). opcode \<noteq> MAL_OP_RET \<and> sfx \<noteq> ''xor.rr''
      \<and> map_of mal_vm_binary opcode \<noteq> None \<and> map_of tos_binary_opcodes sfx = map_of mal_vm_binary opcode) vm_binary"
  unfolding vm_binary_def mal_vm_binary_def tos_binary_opcodes_def by simp

lemma fitted_operand:
  assumes "operand_fits desc opd" and "pred_option vm_register (operand_reg opd)"
    and "od_type desc = MDS_OPERAND_REG \<or> od_type desc = MDS_OPERAND_IMM"
  shows "tos_value_operand opd" and "od_type desc = MDS_OPERAND_REG \<Longrightarrow> is_reg_operand opd"
  using assms
  by (cases opd; auto simp: operand_fits_def tos_value_operand_def mds_is_immediate_def is_reg_operand_def
      vm_register_def)+

lemma vm_register_valid: "vm_register r \<Longrightarrow> r \<noteq> MAL_INVALID_REG"
  by (auto simp: vm_register_def unsigned_minus_1_eq_mask mask_eq_exp_minus_1)

text \<open>The machine instruction selected means what the MAL instruction means.\<close>

lemma selected_means:
  assumes "mal_vm_inst inst" and "kind = mds_target_kind_from_name path"
  obtains s where "mds_build_selected_inst (mdsCreateSelector (mdsLoadMachine path)) inst = Some s"
    and "\<And>ti. ti_desc ti = Some (si_desc s) \<Longrightarrow> ti_operands ti = si_operands s \<Longrightarrow>
           tos_compilable kind ti \<and> (\<forall>regs. tos_exec (tos_suffix kind ti) (ti_operands ti) regs = mal_step inst regs)"
proof -
  obtain s where s: "mds_build_selected_inst (mdsCreateSelector (mdsLoadMachine path)) inst = Some s"
    using selectable_selected [of inst path] assms(1) by (auto simp: mal_vm_inst_def)
  obtain i where i: "i < 21" "mi_opcode inst = row_opcode i"
      "list_all2 (\<lambda>desc opd. operand_fits desc opd \<and> fits_width opd) (input_descs (row_descs i)) (mi_operands inst)"
      "si_desc s = machine_instr (mdsLoadMachine path) i"
      "si_operands s = (if mi_dst inst \<noteq> MAL_INVALID_REG \<and> has_output (row_descs i)
         then [MAL_OPND_REG (mi_type inst) (mi_dst inst)] else []) @ mi_operands inst"
    by (rule selected_row [OF s])
  have regs: "list_all (\<lambda>opd. pred_option vm_register (operand_reg opd)) (mi_operands inst)"
    and not_xor: "row_opcode i \<noteq> MAL_OP_XOR"
    using assms(1) i(2) by (auto simp: mal_vm_inst_def)
  have mn: "in_mnemonic (si_desc s) = mds_prefix kind @ ''.'' @ row_suffix i"
    using builtin_instr(2) [OF i(1), of path] assms(2)
    by (simp add: i(4) mds_build_mnemonic_def row_suffix_def mdsLoadMachine_def Let_def)
  have sfx: "tos_suffix kind ti = row_suffix i" if "ti_desc ti = Some (si_desc s)" for ti
    using that mn by (simp add: tos_suffix_def)
  have dst: "mi_dst inst \<noteq> MAL_INVALID_REG" "tos_value_operand (MAL_OPND_REG (mi_type inst) (mi_dst inst))"
    if "row_opcode i \<noteq> MAL_OP_RET"
    using assms(1) that i(2) vm_register_valid
    by (auto simp: mal_vm_inst_def vm_register_def tos_value_operand_def)
  have "tos_shape_ok (row_suffix i) (si_operands s)
      \<and> (\<forall>regs. tos_exec (row_suffix i) (si_operands s) regs = mal_step inst regs)"
    using vm_row_cases [OF i(1) not_xor]
  proof (elim disjE conjE)
    assume row: "(row_opcode i, row_suffix i) \<in> set vm_unary" "row_descs i \<in> {binaryReg, binaryImm}"
    note u = vm_unary_rows [unfolded list_all_iff, rule_format, OF row(1), simplified]
    obtain x where x: "mi_operands inst = [x]"
      using i(3) row(2) by (auto simp: input_descs_def desc_list_defs list_all2_Cons1)
    have "tos_value_operand x"
      using i(3) row(2) x regs by (auto simp: input_descs_def desc_list_defs intro: fitted_operand(1))
    moreover have "si_operands s = [MAL_OPND_REG (mi_type inst) (mi_dst inst), x]"
      using i(5) row(2) u x dst(1) by (auto simp: has_output_def desc_list_defs)
    ultimately show ?thesis
      using u dst(2) x i(2)
      by (auto simp: tos_shape_ok_def is_reg_operand_def tos_exec_unary_shape mal_step_def cbind_def split: sum.splits)
  next
    assume row: "(row_opcode i, row_suffix i) \<in> set vm_binary" "row_descs i \<in> {ternaryReg, ternaryImm}"
    note b = vm_binary_rows [unfolded list_all_iff, rule_format, OF row(1), simplified]
    obtain x y where xy: "mi_operands inst = [x, y]"
      using i(3) row(2) by (auto simp: input_descs_def desc_list_defs list_all2_Cons1)
    have "tos_value_operand x" "tos_value_operand y" "is_reg_operand x"
      using i(3) row(2) xy regs
      by (auto simp: input_descs_def desc_list_defs intro: fitted_operand)
    moreover have "si_operands s = [MAL_OPND_REG (mi_type inst) (mi_dst inst), x, y]"
      using i(5) row(2) b xy dst(1) by (auto simp: has_output_def desc_list_defs)
    moreover from b have "map_of tos_binary_opcodes (row_suffix i) \<noteq> None" by simp
    then have "row_suffix i \<in> fst ` set tos_binary_opcodes" by (simp only: map_of_eq_None_iff not_not)
    ultimately show ?thesis
      using b dst(2) xy i(2)
      by (auto simp: tos_shape_ok_def is_reg_operand_def tos_exec_binary_shape mal_step_def mal_vm_exec_def
          split: sum.splits option.splits)
  next
    assume row: "row_opcode i = MAL_OP_RET" "row_suffix i = ''ret''" "row_descs i = retOps"
    obtain x where x: "mi_operands inst = [x]"
      using i(3) row(3) by (auto simp: input_descs_def desc_list_defs list_all2_Cons1)
    have "tos_value_operand x"
      using i(3) row(3) x regs by (auto simp: input_descs_def desc_list_defs intro: fitted_operand(1))
    moreover have "si_operands s = [x]" using i(5) row(3) x by (simp add: has_output_def desc_list_defs)
    ultimately show ?thesis using row i(2) x by (simp add: tos_shape_ok_def tos_exec_ret mal_step_def)
  qed
  then show thesis using s sfx mn by (intro that [of s]) (simp_all add: tos_compilable_def)
qed

text \<open>A block of such instructions is selected as a whole, and any stream with its code means the same.\<close>

lemma selected_block:
  assumes "list_all mal_vm_inst insts" and "kind = mds_target_kind_from_name path"
  obtains ss where "mds_lower_insts (mdsCreateSelector (mdsLoadMachine path)) insts = Some ss"
    and "length ss = length insts"
    and "\<And>tis. map tos_code tis = map (\<lambda>s. (Some (si_desc s), si_operands s)) ss \<Longrightarrow>
           list_all (tos_compilable kind) tis \<and> (\<forall>regs. tos_eval kind tis regs = mal_eval insts regs)"
proof -
  have "\<exists>ss. mds_lower_insts (mdsCreateSelector (mdsLoadMachine path)) insts = Some ss \<and> length ss = length insts
     \<and> (\<forall>tis. map tos_code tis = map (\<lambda>s. (Some (si_desc s), si_operands s)) ss \<longrightarrow>
           list_all (tos_compilable kind) tis \<and> (\<forall>regs. tos_eval kind tis regs = mal_eval insts regs))"
    using assms(1)
  proof (induction insts)
    case (Cons inst insts)
    then obtain ss where ss: "mds_lower_insts (mdsCreateSelector (mdsLoadMachine path)) insts = Some ss"
        "length ss = length insts"
        "\<And>tis. map tos_code tis = map (\<lambda>s. (Some (si_desc s), si_operands s)) ss \<Longrightarrow>
           list_all (tos_compilable kind) tis \<and> (\<forall>regs. tos_eval kind tis regs = mal_eval insts regs)"
      by auto
    obtain s where s: "mds_build_selected_inst (mdsCreateSelector (mdsLoadMachine path)) inst = Some s"
        "\<And>ti. ti_desc ti = Some (si_desc s) \<Longrightarrow> ti_operands ti = si_operands s \<Longrightarrow>
           tos_compilable kind ti \<and> (\<forall>regs. tos_exec (tos_suffix kind ti) (ti_operands ti) regs = mal_step inst regs)"
      using selected_means [of inst kind path] Cons.prems assms(2) by auto
    have "list_all (tos_compilable kind) tis \<and> (\<forall>regs. tos_eval kind tis regs = mal_eval (inst # insts) regs)"
      if t: "map tos_code tis = map (\<lambda>s. (Some (si_desc s), si_operands s)) (s # ss)" for tis
    proof -
      obtain ti tis' where tis: "tis = ti # tis'" using t by (cases tis) auto
      show ?thesis using t s(2) [of ti] ss(3) [of tis'] unfolding tis
        by (simp add: tos_code_def split: tos_outcome.splits)
    qed
    with s(1) ss(1,2) show ?case by auto
  qed simp
  then show thesis using that by blast
qed

section \<open>The numbers of the machine\<close>

text \<open>
  What the operators mean on the values of the machine, stated on integers. A value carries the signed
  number in its low 32 bits. A binary operator needs two boxed integers, a result is boxed when it is a
  32-bit number, and a comparison gives a truth value; \<open>None\<close> is what the machine has no value for: an
  overflow, a shift out of range, a literal of more than 32 bits, floating-point and unsigned numbers,
  division, conversions and selections.
\<close>

definition vm_number :: "WVMValue \<Rightarrow> int" where
  "vm_number v = sint (WVM_AS_INT v)"

definition vm_boxed :: "int \<Rightarrow> WVMValue option" where
  "vm_boxed x = (if in_int32 x then Some (wvm_box x) else None)"

fun vm_unary_number :: "operator \<Rightarrow> int \<Rightarrow> int option" where
  "vm_unary_number (OpNeg Signed) a = Some (- a)"
| "vm_unary_number OpNot a = Some (- a - 1)"
| "vm_unary_number _ a = None"

fun vm_binary_number :: "operator \<Rightarrow> int \<Rightarrow> int \<Rightarrow> int option" where
  "vm_binary_number (OpAdd Signed) a b = Some (a + b)"
| "vm_binary_number (OpSub Signed) a b = Some (a - b)"
| "vm_binary_number (OpMul Signed) a b = Some (a * b)"
| "vm_binary_number OpAnd a b = Some (a AND b)"
| "vm_binary_number OpOr a b = Some (a OR b)"
| "vm_binary_number OpXor a b = Some (a XOR b)"
| "vm_binary_number OpShl a b = (if 0 \<le> a \<and> 0 \<le> b \<and> b < 32 then Some (a * 2 ^ nat b) else None)"
| "vm_binary_number (OpShr Signed) a b = (if 0 \<le> b \<and> b < 32 then Some (a div 2 ^ nat b) else None)"
| "vm_binary_number _ a b = None"

fun vm_truth :: "operator \<Rightarrow> int \<Rightarrow> int \<Rightarrow> bool option" where
  "vm_truth (OpEq Signed) a b = Some (a = b)"
| "vm_truth (OpNe Signed) a b = Some (a \<noteq> b)"
| "vm_truth (OpLt Signed) a b = Some (a < b)"
| "vm_truth (OpLe Signed) a b = Some (a \<le> b)"
| "vm_truth (OpGt Signed) a b = Some (b < a)"
| "vm_truth (OpGe Signed) a b = Some (b \<le> a)"
| "vm_truth _ a b = None"

definition vm_apply :: "operator \<Rightarrow> value_type \<Rightarrow> WVMValue option list \<Rightarrow> WVMValue option" where
  "vm_apply op ty vs =
     (case vs of
        [Some x] \<Rightarrow> Option.bind (vm_unary_number op (vm_number x)) vm_boxed
      | [Some x, Some y] \<Rightarrow>
          if \<not> WVM_IS_INT x \<or> \<not> WVM_IS_INT y then None
          else (case vm_truth op (vm_number x) (vm_number y) of
                  Some b \<Rightarrow> Some (wvm_bool b)
                | None \<Rightarrow> Option.bind (vm_binary_number op (vm_number x) (vm_number y)) vm_boxed)
      | _ \<Rightarrow> None)"

definition vm_ops :: "WVMValue option interp" where
  "vm_ops = \<lparr>ip_apply = vm_apply, ip_int = (\<lambda>w. vm_boxed (sint w)), ip_float = (\<lambda>_. None), ip_none = None\<rparr>"

section \<open>The machine computes these numbers\<close>

lemma vm_boxed_result: "vm_boxed x = Some w \<Longrightarrow>
    int32_result x = Inr (word_of_int x) \<and> w = WVM_VALUE_FROM_INT (word_of_int x)"
  by (auto simp: vm_boxed_def int32_result_in wvm_box_def split: if_splits)

lemma vm_unary_exec:
  assumes "(opcode, op) \<in> set mal_operators" and "Option.bind (vm_unary_number op (vm_number x)) vm_boxed = Some w"
  shows "mal_vm_exec opcode [x] = Inr (Some w)"
proof -
  have not: "word_of_int (- sint a - 1) = NOT a" for a :: u32
    by (simp add: not_eq_complement)
  obtain n where n: "vm_unary_number op (vm_number x) = Some n" "vm_boxed n = Some w"
    using assms(2) by (auto simp: bind_eq_Some_conv)
  from n(1) have "op = OpNeg Signed \<and> n = - sint (WVM_AS_INT x) \<or> op = OpNot \<and> n = - sint (WVM_AS_INT x) - 1"
    by (cases "(op, vm_number x)" rule: vm_unary_number.cases) (auto simp: vm_number_def)
  then show ?thesis
    using assms(1) vm_boxed_result [OF n(2)] not
    by (auto simp: mal_operators_def mal_vm_exec_def cbind_def)
qed

lemma vm_truth_exec:
  assumes "(opcode, op) \<in> set mal_operators" and "WVM_IS_INT x" and "WVM_IS_INT y"
    and "vm_truth op (vm_number x) (vm_number y) = Some b"
  shows "mal_vm_exec opcode [x, y] = Inr (Some (wvm_bool b))"
  using assms
  by (cases "(op, vm_number x, vm_number y)" rule: vm_truth.cases)
    (auto simp: mal_operators_def mal_vm_exec_def mal_vm_binary_def wvm_exec_binary_int_def wvm_int_op_def
      vm_number_def Let_def)

lemma vm_binary_exec:
  assumes "(opcode, op) \<in> set mal_operators" and "opcode \<noteq> MAL_OP_XOR" and "WVM_IS_INT x" and "WVM_IS_INT y"
    and "Option.bind (vm_binary_number op (vm_number x) (vm_number y)) vm_boxed = Some w"
  shows "mal_vm_exec opcode [x, y] = Inr (Some w)"
proof -
  obtain n where n: "vm_binary_number op (vm_number x) (vm_number y) = Some n" "vm_boxed n = Some w"
    using assms(5) by (auto simp: bind_eq_Some_conv)
  note res = vm_boxed_result [OF n(2)]
  have bits: "word_of_int (sint a AND sint b) = a AND b" "word_of_int (sint a OR sint b) = a OR b" for a b :: u32
    by (simp_all flip: signed_and_eq signed_or_eq)
  show ?thesis
    using assms(1-4) n(1) res bits
    by (cases "(op, vm_number x, vm_number y)" rule: vm_binary_number.cases)
      (auto simp: mal_operators_def mal_vm_exec_def mal_vm_binary_def wvm_exec_binary_int_def wvm_int_op_def
        vm_number_def Let_def cbind_def split: if_splits)
qed

text \<open>An instruction whose value is defined is executed to that value.\<close>

lemma vm_no_conversion: "is_conversion op \<Longrightarrow> vm_apply op ty vs = None"
  by (cases op) (auto simp: vm_apply_def split: list.splits option.splits)

lemma vm_exec_defined:
  assumes "mal_sem vm_ops opcode ty vs = Some w" and "opcode \<noteq> MAL_OP_XOR"
  obtains xs where "vs = map Some xs" and "mal_vm_exec opcode xs = Inr (Some w)"
proof (cases "opcode = MAL_OP_COPY")
  case True
  then have "vs = [Some w]" using assms(1) by (auto simp: mal_sem_def vm_ops_def split: list.splits)
  with True show thesis by (intro that [of "[w]"]) (simp_all add: mal_vm_exec_def)
next
  case False
  then obtain op where op: "map_of mal_operators opcode = Some op" "\<not> is_conversion op"
      "vm_apply op (mal_value_type ty) vs = Some w"
    using assms(1) vm_no_conversion by (fastforce simp: mal_sem_def vm_ops_def split: option.splits if_splits)
  note mem = map_of_SomeD [OF op(1)]
  consider (one) x where "vs = [Some x]" | (two) x y where "vs = [Some x, Some y]"
    using op(3) by (auto simp: vm_apply_def split: list.splits option.splits)
  then show thesis
  proof cases
    case one
    then show thesis using vm_unary_exec [OF mem, of x w] op(3) by (intro that [of "[x]"]) (simp_all add: vm_apply_def)
  next
    case two
    then show thesis
      using vm_truth_exec [OF mem, of x y] vm_binary_exec [OF mem assms(2), of x y w] op(3)
      by (intro that [of "[x, y]"]) (auto simp: vm_apply_def split: if_splits option.splits)
  qed
qed

text \<open>An operand whose value is defined is the value the machine reads.\<close>

lemma vm_operand:
  assumes "operand_val (mal_imm vm_ops) (\<lambda>r. Some (regs r)) opd = Some x"
  shows "tos_operand_value regs opd = x"
proof -
  have "(word_of_int (sint v) :: u32) = ucast v" for v :: u64
    by (rule bit_word_eqI) (simp add: bit_simps)
  with assms show ?thesis
    by (cases opd) (auto simp: operand_val_def mal_imm_def vm_ops_def vm_boxed_def wvm_box_def
        tos_operand_value_def split: if_splits)
qed

lemma vm_operands:
  "map (operand_val (mal_imm vm_ops) (\<lambda>r. Some (regs r))) opds = map Some xs \<Longrightarrow>
     map (tos_operand_value regs) opds = xs"
  by (induction opds arbitrary: xs) (auto simp: vm_operand)

text \<open>Code all of whose values are defined runs to its first return.\<close>

lemma defined_code_returns:
  assumes "None \<notin> set (mal_values (mal_sem vm_ops) (mal_imm vm_ops) (\<lambda>r. Some (regs r)) insts)"
    and "\<forall>i\<in>set insts. mi_opcode i \<noteq> MAL_OP_XOR"
    and "mal_run (mal_sem vm_ops) (mal_imm vm_ops) (\<lambda>r. Some (regs r)) insts = [Some x] # outs"
  shows "mal_eval insts regs = TosReturned x"
  using assms
proof (induction insts arbitrary: regs)
  case (Cons inst insts)
  let ?vs = "map (operand_val (mal_imm vm_ops) (\<lambda>r. Some (regs r))) (mi_operands inst)"
  show ?case
  proof (cases "mi_opcode inst = MAL_OP_RET")
    case True
    then have "?vs = map Some [x]" using Cons.prems(3) by (simp add: Let_def)
    from vm_operands [OF this] True show ?thesis by (simp add: mal_step_def)
  next
    case False
    obtain w where w: "mal_sem vm_ops (mi_opcode inst) (mi_type inst) ?vs = Some w"
      using Cons.prems(1) False by (cases "mal_sem vm_ops (mi_opcode inst) (mi_type inst) ?vs") (simp_all add: Let_def)
    obtain xs where xs: "?vs = map Some xs" "mal_vm_exec (mi_opcode inst) xs = Inr (Some w)"
      using vm_exec_defined [OF w] Cons.prems(2) by auto
    have step: "mal_step inst regs = TosRunning (regs(mi_dst inst := w))"
      using False xs(2) vm_operands [OF xs(1)] by (simp add: mal_step_def value_outcome_def)
    have env: "(\<lambda>r. Some (regs r))(mi_dst inst := Some w) = (\<lambda>r. Some ((regs(mi_dst inst := w)) r))" by auto
    have "None \<notin> set (mal_values (mal_sem vm_ops) (mal_imm vm_ops) (\<lambda>r. Some ((regs(mi_dst inst := w)) r)) insts)"
      and "mal_run (mal_sem vm_ops) (mal_imm vm_ops) (\<lambda>r. Some ((regs(mi_dst inst := w)) r)) insts = [Some x] # outs"
      using Cons.prems(1,3) False w unfolding env [symmetric] by (simp_all add: Let_def)
    from Cons.IH [of "regs(mi_dst inst := w)", OF this(1) _ this(2)] Cons.prems(2) show ?thesis
      by (simp add: step del: fun_upd_apply)
  qed
qed simp

text \<open>A selected program has only selectable instructions.\<close>

lemma selected_selectable:
  assumes "mds_lower_insts (mdsCreateSelector (mdsLoadMachine path)) insts \<noteq> None"
  shows "list_all mds_selectable insts"
  using assms
proof (induction insts)
  case (Cons inst insts)
  then obtain s where s: "mds_build_selected_inst (mdsCreateSelector (mdsLoadMachine path)) inst = Some s"
    by (auto split: option.splits)
  obtain i where "i < 21" "mi_opcode inst = row_opcode i"
      "list_all2 (\<lambda>desc opd. operand_fits desc opd \<and> fits_width opd) (input_descs (row_descs i)) (mi_operands inst)"
    by (rule selected_row [OF s])
  then have "mds_selectable inst" by (auto simp: mds_selectable_def list_ex_iff)
  with Cons s show ?case by (auto split: option.splits)
qed simp

end
