(* ===== verification/Frontend_Backend.thy ===== *)
theory Frontend_Backend
  imports Frontend Mal_Backend
begin

text \<open>
  The back end of the driver, from a MAL module to a prototype that runs: selection, layout, the
  stream's validation, encoding and the bytecode verifier succeed, and executing the prototype
  shows what the MAL code means.
\<close>

lemma order_succeeds:
  assumes "sp_blocks p = [b]"
  obtains ctx t where "wirble_order_tos level machine (tosBuildFromMDS p) = Inr (Inr (ctx, t))"
    and "tosValidateProgram t = Inr True"
    and "map tos_code (tp_instructions t) = map (\<lambda>i. (Some (si_desc i), si_operands i)) (sb_instructions b)"
proof -
  let ?t = "tosBuildFromMDS p"
  obtain f where f: "tosFinalizeProgram ?t = (Inr True, f)" and v: "tosValidateProgram f = Inr True"
    and twice: "tosFinalizeProgram f = (Inr True, f)"
    using stream_preserved [of p, unfolded Let_def] by (metis prod.collapse)
  have code: "map tos_code (tp_instructions f) = map (\<lambda>i. (Some (si_desc i), si_operands i)) (sb_instructions b)"
    using single_block_code(2) [OF assms] f by simp
  show thesis
  proof (cases "0 < level")
    case True
    then have "wirble_order_tos level machine ?t = Inr (Inr (Some ((tos_create (Some machine))
        \<lparr>tc_subInstrCreated := tc_subInstrCreated (tos_create (Some machine)) + 1\<rparr>), f))"
      by (simp add: wirble_order_tos_def tos_optimize_program_def tos_apply_subinstr_def f twice)
    then show thesis using v code by (rule that)
  next
    case False
    then have "wirble_order_tos level machine ?t = Inr (Inr (None, f))"
      by (simp add: wirble_order_tos_def f)
    then show thesis using v code by (rule that)
  qed
qed

lemma back_end_runs:
  assumes "concat (map mf_blocks (mm_functions m)) = [b]"
    and "list_all mal_vm_inst (mb_insts b)" and "length (mb_insts b) < 2 ^ 29"
  obtains bk where "wirble_back_end level verifyIR path source m = Inr (Inr bk)"
    and "\<And>vm. wf_vm vm \<Longrightarrow> stackSize vm = 0 \<Longrightarrow>
           run_shows (mal_eval (mb_insts b) (\<lambda>_. 0)) (wvmExecute (\<lambda>_. True) vm (Some (bk_wvmPrototype bk)))"
proof -
  let ?machine = "mdsLoadMachine (Some path)" and ?kind = "mds_target_kind_from_name (Some path)"
  let ?sel = "mdsCreateSelector ?machine"
  have valid: "mdsValidateMachine ?machine"
    using builtin_instr(6) [of 0 "Some path"] by (auto simp: mdsValidateMachine_def)
  obtain ss where ss: "mds_lower_insts ?sel (mb_insts b) = Some ss" "length ss = length (mb_insts b)"
      "\<And>tis. map tos_code tis = map (\<lambda>s. (Some (si_desc s), si_operands s)) ss \<Longrightarrow>
         list_all (tos_compilable ?kind) tis \<and> (\<forall>regs. tos_eval ?kind tis regs = mal_eval (mb_insts b) regs)"
    using selected_block [OF assms(2) refl] by blast
  define p where "p = \<lparr>sp_machine = ?machine,
      sp_blocks = [\<lparr>sb_id = mb_id b, sb_instructions = ss, sb_successors = mb_succs b\<rparr>]\<rparr>"
  have mds: "malLowerToMDS m (Some ?sel) = Some p"
    using assms(1) ss(1) by (simp add: malLowerToMDS_def mdsLowerFromMAL_def Let_def builtin_selector p_def)
  obtain ctx t where t: "wirble_order_tos level ?machine (tosBuildFromMDS p) = Inr (Inr (ctx, t))"
      "tosValidateProgram t = Inr True"
      "map tos_code (tp_instructions t) = map (\<lambda>s. (Some (si_desc s), si_operands s)) ss"
    using order_succeeds [of p "\<lparr>sb_id = mb_id b, sb_instructions = ss, sb_successors = mb_succs b\<rparr>" level ?machine]
    by (auto simp: p_def)
  note means = ss(3) [OF t(3)]
  have len: "length (tp_instructions t) < 2 ^ 29" using arg_cong [OF t(3), of length] ss(2) assms(3) by simp
  let ?name = "Some (wvm_text ''main'')"
  let ?source = "Some (wvm_text (case source of None \<Rightarrow> ''<input>'' | Some s \<Rightarrow> s))"
  have runs: "\<exists>q. wvmPrototypeFromTOS (\<lambda>_. True) True (Some t) ?name ?source = Some q \<and> wvm_verify_error (Some q) = None
      \<and> run_shows (mal_eval (mb_insts b) (\<lambda>_. 0)) (wvmExecute (\<lambda>_. True) vm (Some q))"
    if "wf_vm vm" "stackSize vm = 0" for vm
    using prototype_runs [OF conjunct1 [OF means] len that] means by metis
  obtain q where q: "wvmPrototypeFromTOS (\<lambda>_. True) True (Some t) ?name ?source = Some q"
      "wvm_verify_error (Some q) = None"
    using runs [of fresh_vm] fresh_vm_simps by blast
  then have emit: "wirble_emit_wvm verifyIR source t = Inr q" by (simp add: wirble_emit_wvm_def)
  have "wirble_back_end level verifyIR path source m = Inr (Inr \<lparr>bk_mdsMachine = ?machine, bk_mdsSelector = ?sel,
      bk_mdsProgram = p, bk_tosProgram = t, bk_tosContext = ctx, bk_wvmPrototype = q\<rparr>)"
    using valid mds t(1,2) emit by (cases verifyIR) (simp_all add: wirble_back_end_def Let_def)
  then show thesis
  proof (rule that)
    fix vm assume "wf_vm vm" "stackSize vm = 0"
    from runs [OF this] q(1) show "run_shows (mal_eval (mb_insts b) (\<lambda>_. 0)) (wvmExecute (\<lambda>_. True) vm
        (Some (bk_wvmPrototype \<lparr>bk_mdsMachine = ?machine, bk_mdsSelector = ?sel,
      bk_mdsProgram = p, bk_tosProgram = t, bk_tosContext = ctx, bk_wvmPrototype = q\<rparr>)))" by auto
  qed
qed

section \<open>A graph through the pipeline without rewriting\<close>

lemma lowered_module:
  assumes "lowerable g"
  shows "mm_functions (malLowerFromWIL (mal_module_create target :: 'mach MALModule) g)
       = [lowered_fn (mal_module_create target :: 'mach MALModule) g]"
proof -
  have empty: "mm_functions (mal_module_create target :: 'mach MALModule) = []" by (simp add: mal_module_create_def)
  then have len: "length (mm_functions (malLowerFromWIL (mal_module_create target :: 'mach MALModule) g)) = 1"
    using lower_ssa [OF assms, of "mal_module_create target :: 'mach MALModule"] by simp
  then obtain fn where fn: "mm_functions (malLowerFromWIL (mal_module_create target :: 'mach MALModule) g) = [fn]"
    by (auto simp: length_Suc_conv)
  then show ?thesis by (simp add: lowered_fn_def empty)
qed

lemma xor_opcode: "mal_opcode_from_wil kind ty = MAL_OP_XOR \<Longrightarrow> kind = WIL_NODE_XOR"
  by (cases kind) (simp_all add: mal_opcode_from_wil_def split: if_splits)

text \<open>Lowered code that selection accepts is code the machine runs.\<close>

lemma lowered_vm_insts:
  fixes g :: WILGraph and target :: string
  defines "fn \<equiv> lowered_fn (mal_module_create (Some target) :: MDSMachine MALModule) g"
  assumes "lowerable g" and "length g < 65534" and "\<forall>node\<in>set g. wn_kind node \<noteq> WIL_NODE_XOR"
  shows "\<forall>inst\<in>set (mal_insts fn). mi_opcode inst \<noteq> MAL_OP_XOR"
    and "list_all mds_selectable (mal_insts fn) \<Longrightarrow> list_all mal_vm_inst (mal_insts fn)"
proof -
  have xor: "mi_opcode inst \<noteq> MAL_OP_XOR" if inst: "inst \<in> set (mal_insts fn)" for inst
  proof
    assume "mi_opcode inst = MAL_OP_XOR"
    then obtain node where "node \<in> set g" "mal_opcode_from_wil (wn_kind node) (wn_type node) = MAL_OP_XOR"
      using lower_registers(3) [OF assms(2) inst [unfolded fn_def]] by (auto simp: lowered_inst_def)
    with assms(4) show False by (blast dest: xor_opcode)
  qed
  then show "\<forall>inst\<in>set (mal_insts fn). mi_opcode inst \<noteq> MAL_OP_XOR" by blast
  assume sel: "list_all mds_selectable (mal_insts fn)"
  show "list_all mal_vm_inst (mal_insts fn)"
    unfolding list_all_iff
  proof
    fix inst assume inst: "inst \<in> set (mal_insts fn)"
    note regs = lower_registers [OF assms(2) inst [unfolded fn_def]]
    have "pred_option vm_register (operand_reg opd)" if "opd \<in> set (mi_operands inst)" for opd
      using that regs(1) assms(3) by (cases "operand_reg opd") (force simp: inst_uses_def vm_register_def image_iff)+
    moreover have "mi_opcode inst = MAL_OP_RET \<or> vm_register (mi_dst inst)"
      using regs(2) assms(3) by (auto simp: vm_register_def)
    ultimately show "mal_vm_inst inst" using sel inst xor by (simp add: mal_vm_inst_def list_all_iff)
  qed
qed

text \<open>The lowered code computes the values of the graph on the machine's numbers.\<close>

lemma lowered_code_returns:
  fixes g :: WILGraph and target :: string
  defines "fn \<equiv> lowered_fn (mal_module_create (Some target) :: MDSMachine MALModule) g"
  assumes "lowerable g" and "arithmetic g" and "\<forall>inst\<in>set (mal_insts fn). mi_opcode inst \<noteq> MAL_OP_XOR"
    and "None \<notin> set (wil_node_values vm_ops (\<lambda>_. Some 0) g)"
    and "wil_denote vm_ops (\<lambda>_. Some 0) g = [Some x] # outs"
  shows "mal_eval (mal_insts fn) (\<lambda>_. 0) = TosReturned x"
proof (rule defined_code_returns)
  let ?m = "mal_module_create (Some target) :: MDSMachine MALModule"
  have "set (mal_values (mal_sem vm_ops) (mal_imm vm_ops) (\<lambda>_. Some 0) (mal_insts fn))
      \<subseteq> insert (Some 0) (set (wil_node_values vm_ops (\<lambda>_. Some 0) g))"
    using lower_values [OF assms(2) mal_copy_moves, of vm_ops "mal_imm vm_ops" "\<lambda>_. Some 0" ?m]
      table_values_wil [OF assms(3,2), of vm_ops "\<lambda>_. Some 0"] read_constants_wil [OF assms(3,2), of vm_ops "\<lambda>_. Some 0"]
    unfolding fn_def by blast
  with assms(5) show "None \<notin> set (mal_values (mal_sem vm_ops) (mal_imm vm_ops) (\<lambda>_. Some 0) (mal_insts fn))" by auto
  show "mal_run (mal_sem vm_ops) (mal_imm vm_ops) (\<lambda>_. Some 0) (mal_insts fn) = [Some x] # outs"
    using lower_denotes [OF assms(2) mal_copy_moves, of vm_ops "mal_imm vm_ops" "\<lambda>_. Some 0" ?m] assms(6)
      table_denote_wil [OF assms(3,2), of vm_ops "\<lambda>_. Some 0"]
    by (simp add: mal_denote_def fn_def)
qed (rule assms(4))

text \<open>
  C2. A graph compiled without rewriting computes its value. Take an arithmetic graph (\<open>arithmetic\<close>) of
  fewer than 65534 nodes, without exclusive or, whose operands are constants or earlier nodes with a
  register (\<open>lowerable\<close>), such that every node has a value on the machine's numbers (\<open>vm_ops\<close>: no result
  or literal leaves the range of 32 bits, no shift is out of range), where a parameter counts as the bits
  0, and whose first return delivers \<open>x\<close>. Memory suffices for encoding and execution. If the stages after lowering accept the graph for a machine, at
  any level, with or without the verifiers, then executing the prototype returns with \<open>x\<close> in register 0.
\<close>

theorem compiled_graph_runs:
  fixes g :: WILGraph and target :: string
  defines "m \<equiv> malLowerFromWIL (mal_module_create (Some target)) g"
  assumes "lowerable g" and "arithmetic g" and "length g < 65534"
    and "\<forall>node\<in>set g. wn_kind node \<noteq> WIL_NODE_XOR"
    and "None \<notin> set (wil_node_values vm_ops (\<lambda>_. Some 0) g)"
    and "wil_denote vm_ops (\<lambda>_. Some 0) g = [Some x] # outs"
    and "wirble_back_end level verifyIR path source m = Inr (Inr bk)"
  shows "wirble_run_prototype (bk_wvmPrototype bk) = Some (Inr (Inr x))"
proof -
  let ?empty = "mal_module_create (Some target) :: MDSMachine MALModule"
  let ?fn = "lowered_fn ?empty g" and ?sel = "mdsCreateSelector (mdsLoadMachine (Some path))"
  have fns: "mm_functions m = [?fn]" unfolding m_def by (rule lowered_module [OF assms(2)])
  obtain b where b: "mf_blocks ?fn = [b]"
    using lower_single_block(1) [OF assms(2), of ?empty] by (auto simp: length_Suc_conv)
  have insts: "mal_insts ?fn = mb_insts b" by (simp add: mal_insts_def b)
  have bs: "concat (map mf_blocks (mm_functions m)) = [b]" by (simp add: fns b)
  note vm = lowered_vm_insts [OF assms(2,4,5), of target, unfolded insts]
  have "malLowerToMDS m (Some ?sel) \<noteq> None"
    using assms(8) by (auto simp: wirble_back_end_def Let_def split: if_splits option.splits)
  then have "mds_lower_insts ?sel (mb_insts b) \<noteq> None"
    by (auto simp: malLowerToMDS_def mdsLowerFromMAL_def Let_def bs split: option.splits)
  then have "list_all mal_vm_inst (mb_insts b)" by (rule vm(2) [OF selected_selectable])
  moreover have "length (mb_insts b) < 2 ^ 29"
    using lower_single_block(2) [OF assms(2), of ?empty] assms(4) insts by simp
  ultimately obtain bk' where bk': "wirble_back_end level verifyIR path source m = Inr (Inr bk')"
      "\<And>vm. wf_vm vm \<Longrightarrow> stackSize vm = 0 \<Longrightarrow>
         run_shows (mal_eval (mb_insts b) (\<lambda>_. 0)) (wvmExecute (\<lambda>_. True) vm (Some (bk_wvmPrototype bk')))"
    using back_end_runs [OF bs] by blast
  have x: "mal_eval (mb_insts b) (\<lambda>_. 0) = TosReturned x"
    using lowered_code_returns [OF assms(2,3) _ assms(6,7), of target] vm(1) by (simp only: insts)
  obtain vm where vm: "wvmCreate True (\<lambda>_. True) = Some vm" "wf_vm vm" "stackSize vm = 0"
    using fresh_vm_simps(1,2) by (simp add: fresh_vm_def wvmCreate_def wvmCreateEx_def)
  show ?thesis
    using x bk'(2) [OF vm(2,3)] vm(1) bk'(1) assms(8) by (auto simp: wirble_run_prototype_def run_shows_def)
qed

text \<open>The graph of \<open>~ x + 7\<close>: the register of a parameter that is not passed holds the bits 0.\<close>

definition not_graph :: WILGraph where
  "not_graph =
     (let (s, g0) = wil_make_start []; (x, g1) = wil_make_param g0 0 WIL_TYPE_I32 None;
          (n, g2) = wil_make_not g1 (Some x);
          (c, g3) = wil_make_const_int g2 7 WIL_TYPE_I32;
          (a, g4) = wil_make_add g3 (Some n) (Some c)
      in snd (wil_make_return g4 (Some s) (Some a)))"

lemma not_graph_nodes:
  "not_graph =
     [\<lparr>wn_id = 1, wn_kind = WIL_NODE_START, wn_category = WIL_CAT_CONTROL, wn_type = WIL_TYPE_CONTROL,
       wn_name = Some ''start'', wn_inputs = [], wn_uses = [5], wn_payload = 0, wn_removed = False\<rparr>,
      \<lparr>wn_id = 2, wn_kind = WIL_NODE_PARAM, wn_category = WIL_CAT_PARAMETER, wn_type = WIL_TYPE_I32,
       wn_name = None, wn_inputs = [], wn_uses = [2], wn_payload = 0, wn_removed = False\<rparr>,
      \<lparr>wn_id = 3, wn_kind = WIL_NODE_NOT, wn_category = WIL_CAT_VALUE, wn_type = WIL_TYPE_I32,
       wn_name = None, wn_inputs = [(Some 1, WIL_EDGE_DATA)], wn_uses = [4], wn_payload = 0, wn_removed = False\<rparr>,
      \<lparr>wn_id = 4, wn_kind = WIL_NODE_CONST_INT, wn_category = WIL_CAT_CONSTANT, wn_type = WIL_TYPE_I32,
       wn_name = None, wn_inputs = [], wn_uses = [4], wn_payload = 7, wn_removed = False\<rparr>,
      \<lparr>wn_id = 5, wn_kind = WIL_NODE_ADD, wn_category = WIL_CAT_VALUE, wn_type = WIL_TYPE_I32,
       wn_name = None, wn_inputs = [(Some 2, WIL_EDGE_DATA), (Some 3, WIL_EDGE_DATA)], wn_uses = [5],
       wn_payload = 0, wn_removed = False\<rparr>,
      \<lparr>wn_id = 6, wn_kind = WIL_NODE_RETURN, wn_category = WIL_CAT_CONTROL, wn_type = WIL_TYPE_CONTROL,
       wn_name = None, wn_inputs = [(Some 0, WIL_EDGE_CONTROL), (Some 4, WIL_EDGE_DATA)], wn_uses = [],
       wn_payload = 0, wn_removed = False\<rparr>]"
  by (simp add: not_graph_def wil_builder_defs wil_make_not_def wil_build_unary_def wil_node_defs Let_def)

lemma not_graph_lowerable: "lowerable not_graph"
  unfolding lowerable_def not_graph_nodes
  by (simp add: upt_6 lowered_operands_def lowerable_input_def owns_register_def value_kind_def
      mal_lower_inputs_def wil_node_defs Let_def upt_rec)

lemma not_graph_arithmetic: "arithmetic not_graph"
  unfolding not_graph_nodes by (simp add: upt_6 graph_eval_defs Let_def)

lemma not_graph_values:
  "wil_node_values vm_ops (\<lambda>_. Some 0) not_graph
     = [Some 0, Some (wvm_box (-1)), Some (wvm_box 7), Some (wvm_box 6)]"
  "wil_denote vm_ops (\<lambda>_. Some 0) not_graph = [[Some (wvm_box 6)]]"
proof -
  have n: "ip_apply vm_ops OpNot (IntT 32) [Some 0] = Some (wvm_box (-1))"
    by (simp add: vm_ops_def vm_apply_def vm_number_def WVM_AS_INT_def vm_boxed_def in_int32_def)
  have a: "ip_apply vm_ops (OpAdd Signed) (IntT 32) [Some (wvm_box (-1)), Some (wvm_box 7)] = Some (wvm_box 6)"
    by (simp add: vm_ops_def vm_apply_def vm_number_def vm_boxed_def in_int32_def)
  have i: "ip_int vm_ops 7 = Some (wvm_box 7)" "ip_none vm_ops = None"
    by (simp_all add: vm_ops_def vm_boxed_def in_int32_def)
  show "wil_node_values vm_ops (\<lambda>_. Some 0) not_graph
     = [Some 0, Some (wvm_box (-1)), Some (wvm_box 7), Some (wvm_box 6)]"
    unfolding wil_node_values_def not_graph_nodes
    by (simp add: wil_values_upto_foldl upt_6 graph_eval_defs has_value_def Let_def n a i)
  show "wil_denote vm_ops (\<lambda>_. Some 0) not_graph = [[Some (wvm_box 6)]]"
    unfolding not_graph_nodes by (simp add: wil_values_upto_foldl upt_6 graph_eval_defs Let_def n a i)
qed

lemma not_graph_code:
  "map mb_insts (mf_blocks (lowered_fn (mal_module_create t :: MDSMachine MALModule) not_graph)) =
     [[\<lparr>mi_id = 0, mi_opcode = MAL_OP_NOT, mi_type = MAL_TYPE_I32, mi_dst = 1,
        mi_operands = [MAL_OPND_REG MAL_TYPE_I32 0]\<rparr>,
       \<lparr>mi_id = 1, mi_opcode = MAL_OP_ADD, mi_type = MAL_TYPE_I32, mi_dst = 2,
        mi_operands = [MAL_OPND_REG MAL_TYPE_I32 1, MAL_OPND_IMM_INT MAL_TYPE_I32 7]\<rparr>,
       \<lparr>mi_id = 2, mi_opcode = MAL_OP_RET, mi_type = MAL_TYPE_VOID, mi_dst = MAL_INVALID_REG,
        mi_operands = [MAL_OPND_REG MAL_TYPE_I32 2]\<rparr>]]"
  unfolding lowered_fn_def malLowerFromWIL_def not_graph_nodes
  by (simp add: mal_function_create_def mal_module_create_def mal_lower_defs wil_node_defs Let_def upt_6 upt_rec)

lemma row_selectable:
  assumes "i < 21" and "mi_opcode inst = row_opcode i"
    and "list_all2 (\<lambda>desc opd. operand_fits desc opd \<and> fits_width opd) (input_descs (row_descs i)) (mi_operands inst)"
  shows "mds_selectable inst"
  unfolding mds_selectable_def list_ex_iff by (rule bexI [of _ i]) (use assms in simp_all)

lemma rows_used:
  "row_opcode 1 = MAL_OP_COPY" "row_descs 1 = binaryImm" "row_opcode 3 = MAL_OP_ADD" "row_descs 3 = ternaryImm"
  "row_opcode 11 = MAL_OP_NOT" "row_descs 11 = binaryReg" "row_opcode 20 = MAL_OP_RET" "row_descs 20 = retOps"
  by (simp_all add: row_opcode_def row_descs_def mds_pattern_table_def mds_instr_table_def)

lemmas fits_defs = input_descs_def desc_list_defs operand_fits_def fits_width_def mds_operand_bit_width_def
  mds_is_immediate_def

theorem compiled_graph_runs_witness:
  "\<exists>bk. wirble_back_end 2 True ''machines/x86_64.json'' None
       (malLowerFromWIL (mal_module_create (Some ''x86_64'')) not_graph) = Inr (Inr bk)
     \<and> wirble_run_prototype (bk_wvmPrototype bk) = Some (Inr (Inr (wvm_box 6)))"
proof -
  let ?empty = "mal_module_create (Some ''x86_64'') :: MDSMachine MALModule"
  let ?m = "malLowerFromWIL ?empty not_graph" and ?fn = "lowered_fn ?empty not_graph"
  have fns: "mm_functions ?m = [?fn]" by (rule lowered_module [OF not_graph_lowerable])
  obtain b where b: "mf_blocks ?fn = [b]"
    using lower_single_block(1) [OF not_graph_lowerable, of ?empty] by (auto simp: length_Suc_conv)
  have code: "mb_insts b =
     [\<lparr>mi_id = 0, mi_opcode = MAL_OP_NOT, mi_type = MAL_TYPE_I32, mi_dst = 1,
        mi_operands = [MAL_OPND_REG MAL_TYPE_I32 0]\<rparr>,
       \<lparr>mi_id = 1, mi_opcode = MAL_OP_ADD, mi_type = MAL_TYPE_I32, mi_dst = 2,
        mi_operands = [MAL_OPND_REG MAL_TYPE_I32 1, MAL_OPND_IMM_INT MAL_TYPE_I32 7]\<rparr>,
       \<lparr>mi_id = 2, mi_opcode = MAL_OP_RET, mi_type = MAL_TYPE_VOID, mi_dst = MAL_INVALID_REG,
        mi_operands = [MAL_OPND_REG MAL_TYPE_I32 2]\<rparr>]"
    using not_graph_code [of "Some ''x86_64''"] b by simp
  have "mds_selectable (mb_insts b ! 0)"
    by (rule row_selectable [of 11]) (simp_all only: rows_used, simp_all add: code fits_defs)
  moreover have "mds_selectable (mb_insts b ! 1)"
    by (rule row_selectable [of 3]) (simp_all only: rows_used, simp_all add: code fits_defs)
  moreover have "mds_selectable (mb_insts b ! 2)"
    by (rule row_selectable [of 20]) (simp_all only: rows_used, simp_all add: code fits_defs)
  ultimately have vm: "list_all mal_vm_inst (mb_insts b)" by (simp add: code mal_vm_inst_def vm_register_def)
  have bs: "concat (map mf_blocks (mm_functions ?m)) = [b]" by (simp add: fns b)
  have len: "length (mb_insts b) < 2 ^ 29" by (simp add: code)
  obtain bk where bk: "wirble_back_end 2 True ''machines/x86_64.json'' None ?m = Inr (Inr bk)"
    using back_end_runs [OF bs vm len] by blast
  have "wirble_run_prototype (bk_wvmPrototype bk) = Some (Inr (Inr (wvm_box 6)))"
  proof (rule compiled_graph_runs [OF not_graph_lowerable not_graph_arithmetic _ _ _ _ bk])
    show "length not_graph < 65534" by (simp add: not_graph_nodes)
    show "\<forall>node\<in>set not_graph. wn_kind node \<noteq> WIL_NODE_XOR" by (simp add: not_graph_nodes)
    show "None \<notin> set (wil_node_values vm_ops (\<lambda>_. Some 0) not_graph)" by (simp add: not_graph_values)
    show "wil_denote vm_ops (\<lambda>_. Some 0) not_graph = [Some (wvm_box 6)] # []" by (simp add: not_graph_values)
  qed
  with bk show ?thesis by auto
qed

end
