(* ===== verification/Wrs_Rewrite.thy ===== *)
theory Wrs_Rewrite
  imports Wrs
begin

text \<open>
  Correctness of rewriting. A rule whose sides have the same value, whose left side has no
  repeated variable, and which is lighter on the right, is applied without undefined
  behaviour, keeps the graph well-formed and the value of every node, and a traversal with
  such rules returns, under every strategy.
\<close>

section \<open>What a node says\<close>

text \<open>The part of a node that rewriting reads and a value depends on.\<close>

definition node_view :: "WILGraph \<Rightarrow> nat \<Rightarrow> WILNodeKind \<times> u64 \<times> node_ptr list" where
  "node_view g n = (wn_kind (g ! n), wn_payload (g ! n), map fst (wn_inputs (g ! n)))"

abbreviation "view_inputs v \<equiv> snd (snd v)"

text \<open>A graph that has grown, and a node list in which some nodes may have been edited.\<close>

definition grows :: "WILGraph \<Rightarrow> WILGraph \<Rightarrow> bool" where
  "grows g g' \<longleftrightarrow> length g \<le> length g' \<and> (\<forall>k<length g. node_view g' k = node_view g k)"

lemma grows_refl [simp]: "grows g g"
  by (simp add: grows_def)

lemma grows_trans: "grows g g' \<Longrightarrow> grows g' g'' \<Longrightarrow> grows g g''"
  by (auto simp: grows_def)

text \<open>What the edits of a node leave alone.\<close>

lemma edit_kinds:
  "k < length g \<Longrightarrow> wn_kind (wil_node_register_use g p u ! k) = wn_kind (g ! k)"
  "k < length g \<Longrightarrow> wn_payload (wil_node_register_use g p u ! k) = wn_payload (g ! k)"
  "k < length g \<Longrightarrow> wn_kind (wil_node_unregister_use g p u ! k) = wn_kind (g ! k)"
  "k < length g \<Longrightarrow> wn_payload (wil_node_unregister_use g p u ! k) = wn_payload (g ! k)"
  by (auto simp: wil_node_register_use_def wil_node_unregister_use_def nth_update_field [where f = wn_kind]
      nth_update_field [where f = wn_payload] split: option.splits)

lemma add_input_view:
  assumes "n < length g" "k < length g"
  shows "node_view (wil_node_add_input g n p ek) k =
     (case node_view g k of (kind, payload, ins) \<Rightarrow> (kind, payload, ins @ (if k = n then [p] else [])))"
  using assms by (simp add: node_view_def add_input_inputs)
    (simp add: wil_node_add_input_def edit_kinds nth_list_update)

lemma replace_input_view:
  assumes "n < length g" "k < length g"
  shows "node_view (wil_node_replace_input g n i p) k =
     (case node_view g k of (kind, payload, ins) \<Rightarrow> (kind, payload, if k = n then ins[i := p] else ins))"
proof -
  have "wn_kind (wil_node_replace_input g n i p ! k) = wn_kind (g ! k)"
      "wn_payload (wil_node_replace_input g n i p ! k) = wn_payload (g ! k)"
    using assms by (simp_all add: wil_node_replace_input_def Let_def edit_kinds use_keeps nth_list_update)
  then show ?thesis using assms 
    by (cases "i < length (wn_inputs (g ! n))") (auto simp: node_view_def replace_input_inputs map_update
      not_less list_update_beyond)
qed

section \<open>New nodes\<close>

text \<open>A node made by a builder function: one more node, with the given kind, payload and inputs.\<close>

definition made :: "WILGraph \<Rightarrow> WILNodeKind \<Rightarrow> u64 \<Rightarrow> node_ptr list \<Rightarrow> nat \<times> WILGraph \<Rightarrow> bool" where
  "made g kind payload ins r \<longleftrightarrow> fst r = length g \<and> length (snd r) = Suc (length g)
     \<and> grows g (snd r) \<and> node_view (snd r) (length g) = (kind, payload, ins)
     \<and> (wil_linked g \<and> (\<forall>p\<in>set ins. valid_ptr g p) \<longrightarrow> wil_linked (snd r))"

lemma made_create: "made g kind 0 [] (wil_node_create g kind ty nm)"
  using create_linked [of g kind ty nm]
  by (auto simp: made_def grows_def node_view_def wil_node_create_def nth_append)

lemma made_payload:
  assumes "made g kind v [] r"
  shows "made g kind w [] (wil_set_payload r w)"
proof -
  obtain g1 where r: "r = (length g, g1)" using assms by (cases r) (simp add: made_def)
  have "wil_linked (g1[length g := (g1 ! length g)\<lparr>wn_payload := w\<rparr>])" if "wil_linked g1"
    by (rule linked_update_other [OF that]) simp_all
  then show ?thesis using assms
    by (auto simp: r made_def wil_set_payload_def grows_def node_view_def nth_list_update)
qed

lemma add_input_made:
  assumes "made g kind v ins (length g, g1)"
  shows "made g kind v (ins @ [p]) (length g, wil_node_add_input g1 (length g) p ek)"
proof -
  have len: "length g1 = Suc (length g)" using assms by (simp add: made_def)
  have "valid_ptr g1 p" if "valid_ptr g p" using that len by (auto simp: valid_ptr_def)
  then show ?thesis using assms add_input_linked [of g1 "length g" p ek]
    by (auto simp: made_def grows_def add_input_view add_input_inputs len)
qed

lemma add_inputs_made:
  assumes "made g kind v ins (length g, g1)"
  shows "made g kind v (ins @ map fst slots) (length g, wil_add_inputs g1 (length g) slots)"
  using assms
proof (induction slots arbitrary: ins g1)
  case (Cons s slots)
  obtain p ek where s: "s = (p, ek)" by (cases s)
  from Cons.IH [OF add_input_made [OF Cons.prems, of p ek]] show ?case
    by (simp add: s wil_add_inputs_def)
qed (simp add: wil_add_inputs_def)

lemma made_nary: "made g kind 0 (map fst slots) (wil_build_nary g kind slots hint nm)"
proof -
  define r where "r = wil_node_create g kind
      (wil_node_kind_default_type g kind hint (case slots of [] \<Rightarrow> None | s # _ \<Rightarrow> fst s)) nm"
  have "made g kind 0 [] r" unfolding r_def by (rule made_create)
  moreover obtain g1 where r: "r = (length g, g1)" using calculation by (cases r) (simp add: made_def)
  ultimately have "made g kind 0 ([] @ map fst slots) (length g, wil_add_inputs g1 (length g) slots)"
    by (intro add_inputs_made) simp
  then show ?thesis using r by (simp add: wil_build_nary_def Let_def r_def [symmetric])
qed

lemma made_binary: "made g kind 0 [a, b] (wil_build_binary g kind a b hint)"
  using made_nary [of g kind "[(a, WIL_EDGE_DATA), (b, WIL_EDGE_DATA)]"] by (simp add: build_binary_nary)

lemma made_unary: "made g kind 0 [a] (wil_build_unary g kind a hint)"
proof -
  define r where "r = wil_node_create g kind (wil_node_kind_default_type g kind hint a) None"
  have "made g kind 0 [] r" unfolding r_def by (rule made_create)
  moreover obtain g1 where r: "r = (length g, g1)" using calculation by (cases r) (simp add: made_def)
  ultimately have "made g kind 0 ([] @ [a]) (length g, wil_node_add_input g1 (length g) a
      (if kind = WIL_NODE_RETURN then WIL_EDGE_CONTROL else WIL_EDGE_DATA))"
    by (intro add_input_made) simp
  then show ?thesis using r by (simp add: wil_build_unary_def Let_def r_def [symmetric])
qed

text \<open>Replacing all uses, in terms of views.\<close>

lemma replace_in_user_kinds:
  "u < length g \<Longrightarrow> k < length g \<Longrightarrow> wn_kind (wil_replace_in_user old new g u ! k) = wn_kind (g ! k)
     \<and> wn_payload (wil_replace_in_user old new g u ! k) = wn_payload (g ! k)
     \<and> length (wil_replace_in_user old new g u) = length g"
proof -
  assume u: "u < length g" and k: "k < length g"
  have "length (foldl (\<lambda>g i. if fst (wn_inputs (g ! u) ! i) = Some old
                  then wil_node_replace_input g u i (Some new) else g) g js) = length g
     \<and> fst (node_view (foldl (\<lambda>g i. if fst (wn_inputs (g ! u) ! i) = Some old
                  then wil_node_replace_input g u i (Some new) else g) g js) k) = fst (node_view g k)
     \<and> fst (snd (node_view (foldl (\<lambda>g i. if fst (wn_inputs (g ! u) ! i) = Some old
                  then wil_node_replace_input g u i (Some new) else g) g js) k)) = fst (snd (node_view g k))" for js
    using u k
  proof (induction js arbitrary: g)
    case (Cons i js)
    show ?case
      using Cons.IH [of "if fst (wn_inputs (g ! u) ! i) = Some old
                  then wil_node_replace_input g u i (Some new) else g"] Cons.prems
      by (auto simp: replace_input_inputs(3) replace_input_view split_def)
  qed simp
  then show ?thesis by (simp add: wil_replace_in_user_def node_view_def)
qed

lemma replace_all_uses_view:
  assumes "wil_linked g" "old < length g" "new < length g" "old \<noteq> new" "k < length g"
  shows "node_view (wil_node_replace_all_uses g old new) k =
     (case node_view g k of (kind, payload, ins) \<Rightarrow>
        (kind, payload, map (\<lambda>p. if p = Some old then Some new else p) ins))"
proof -
  have kinds: "wn_kind (foldl (wil_replace_in_user old new) g us ! k) = wn_kind (g ! k)
      \<and> wn_payload (foldl (wil_replace_in_user old new) g us ! k) = wn_payload (g ! k)"
    if "set us \<subseteq> {..<length g}" for us
    using that assms(5)
  proof (induction us arbitrary: g)
    case (Cons u us)
    then have u: "u < length g" by simp
    show ?case using Cons.IH [of "wil_replace_in_user old new g u"] Cons.prems replace_in_user_kinds [OF u]
      by (simp add: replace_in_user_kinds [OF u])
  qed simp
  have "set (wn_uses (g ! old)) \<subseteq> {..<length g}" using linked_useD [OF assms(1,2)] by auto
  from kinds [OF this] show ?thesis
    using replace_all_uses_inputs [OF assms(1-4) refl] assms(4,5)
    by (simp add: node_view_def wil_node_replace_all_uses_def o_def redirect_def if_distrib [of fst])
qed

section \<open>Values and weights\<close>

text \<open>
  The value of a null input and of a pointer; an assignment is consistent with a graph when
  the value of each node is what its kind and payload make of the values of its inputs.
\<close>

definition ptr_val :: "'v \<Rightarrow> (nat \<Rightarrow> 'v) \<Rightarrow> node_ptr \<Rightarrow> 'v" where
  "ptr_val nv v p = (case p of None \<Rightarrow> nv | Some n \<Rightarrow> v n)"

definition wil_values :: "(WILNodeKind \<Rightarrow> u64 \<Rightarrow> 'v list \<Rightarrow> 'v) \<Rightarrow> 'v \<Rightarrow> WILGraph \<Rightarrow> (nat \<Rightarrow> 'v) \<Rightarrow> bool" where
  "wil_values sem nv g v \<longleftrightarrow> (\<forall>n<length g. case node_view g n of (kind, payload, ins) \<Rightarrow>
     v n = sem kind payload (map (ptr_val nv v) ins))"

text \<open>
  A weight is an upper bound of the size of the unfolding: at least the weight of the kind
  plus the weights of the inputs. It exists for acyclic graphs only.
\<close>

definition ptr_weight :: "(nat \<Rightarrow> nat) \<Rightarrow> node_ptr \<Rightarrow> nat" where
  "ptr_weight W p = (case p of None \<Rightarrow> 0 | Some n \<Rightarrow> W n)"

definition wil_weights :: "(WILNodeKind \<Rightarrow> nat) \<Rightarrow> WILGraph \<Rightarrow> (nat \<Rightarrow> nat) \<Rightarrow> bool" where
  "wil_weights kw g W \<longleftrightarrow> (\<forall>n<length g. case node_view g n of (kind, payload, ins) \<Rightarrow>
     kw kind + sum_list (map (ptr_weight W) ins) \<le> W n)"

lemma ptr_simps [simp]: "ptr_val nv v None = nv" "ptr_val nv v (Some n) = v n"
    "ptr_weight W None = 0" "ptr_weight W (Some n) = W n"
  by (simp_all add: ptr_val_def ptr_weight_def)

text \<open>The two assignments of a well-formed graph, carried through rewriting together.\<close>

definition wrs_inv :: "(WILNodeKind \<Rightarrow> nat) \<Rightarrow> (WILNodeKind \<Rightarrow> u64 \<Rightarrow> 'v list \<Rightarrow> 'v) \<Rightarrow> 'v \<Rightarrow> WILGraph
    \<Rightarrow> (nat \<Rightarrow> nat) \<Rightarrow> (nat \<Rightarrow> 'v) \<Rightarrow> bool" where
  "wrs_inv kw sem nv g W v \<longleftrightarrow> wil_linked g \<and> wil_weights kw g W \<and> wil_values sem nv g v"

lemma view_linked:
  assumes "wil_linked g" "n < length g" "p \<in> set (view_inputs (node_view g n))"
  shows "valid_ptr g p"
  using assms linked_inputD [OF assms(1,2)] by (force simp: node_view_def valid_ptr_def)

text \<open>Adding one node extends both assignments.\<close>

lemma ptr_agree:
  assumes "valid_ptr g p" "\<forall>k<length g. f' k = f k"
  shows "ptr_val nv f' p = ptr_val nv f p"
  using assms by (cases p) (simp_all add: valid_ptr_def)

lemma ptr_weight_agree:
  assumes "valid_ptr g p" "\<forall>k<length g. f' k = f k"
  shows "ptr_weight f' p = ptr_weight f p"
  using assms by (cases p) (simp_all add: valid_ptr_def)

lemma made_inv:
  assumes inv: "wrs_inv kw sem nv g W v" and made: "made g kind payload ins r"
    and ins: "\<forall>p\<in>set ins. valid_ptr g p"
  defines "W' \<equiv> W(length g := kw kind + sum_list (map (ptr_weight W) ins))"
    and "v' \<equiv> v(length g := sem kind payload (map (ptr_val nv v) ins))"
  shows "wrs_inv kw sem nv (snd r) W' v'"
proof -
  have len: "length (snd r) = Suc (length g)" and lk: "wil_linked (snd r)" "wil_linked g"
    and old: "\<And>k. k < length g \<Longrightarrow> node_view (snd r) k = node_view g k"
    and new: "node_view (snd r) (length g) = (kind, payload, ins)"
    using made inv ins by (auto simp: made_def grows_def wrs_inv_def)
  have W': "\<forall>k<length g. W' k = W k" and v': "\<forall>k<length g. v' k = v k" by (simp_all add: W'_def v'_def)
  have maps: "map (ptr_weight W') ps = map (ptr_weight W) ps" "map (ptr_val nv v') ps = map (ptr_val nv v) ps"
    if "\<forall>p\<in>set ps. valid_ptr g p" for ps
    using that ptr_agree [OF _ v'] ptr_weight_agree [OF _ W'] by simp_all
  have oldp: "\<forall>p\<in>set (view_inputs (node_view g k)). valid_ptr g p" if "k < length g" for k
    using view_linked [OF lk(2) that] by blast
  have "wil_weights kw (snd r) W'"
    unfolding wil_weights_def
  proof (intro allI impI)
    fix n assume n: "n < length (snd r)"
    show "case node_view (snd r) n of (kind, payload, ins) \<Rightarrow> kw kind + sum_list (map (ptr_weight W') ins) \<le> W' n"
    proof (cases "n = length g")
      case True
      show ?thesis unfolding True new prod.case maps(1) [OF ins] by (simp add: W'_def)
    next
      case False
      then have k: "n < length g" using n len by simp
      obtain kd pl ps where w: "node_view g n = (kd, pl, ps)" by (cases "node_view g n")
      then have ps: "\<forall>p\<in>set ps. valid_ptr g p" using oldp [OF k] by simp
      show ?thesis unfolding old [OF k] w prod.case maps(1) [OF ps]
        using inv k w W' by (auto simp: wrs_inv_def wil_weights_def)
    qed
  qed
  moreover have "wil_values sem nv (snd r) v'"
    unfolding wil_values_def
  proof (intro allI impI)
    fix n assume n: "n < length (snd r)"
    show "case node_view (snd r) n of (kind, payload, ins) \<Rightarrow> v' n = sem kind payload (map (ptr_val nv v') ins)"
    proof (cases "n = length g")
      case True
      show ?thesis unfolding True new prod.case maps(2) [OF ins] by (simp add: v'_def)
    next
      case False
      then have k: "n < length g" using n len by simp
      obtain kd pl ps where w: "node_view g n = (kd, pl, ps)" by (cases "node_view g n")
      then have ps: "\<forall>p\<in>set ps. valid_ptr g p" using oldp [OF k] by simp
      show ?thesis unfolding old [OF k] w prod.case maps(2) [OF ps]
        using inv k w v' by (auto simp: wrs_inv_def wil_values_def)
    qed
  qed
  ultimately show ?thesis using lk by (simp add: wrs_inv_def)
qed

section \<open>Plain rules\<close>

text \<open>How many inputs instantiation reads for a kind; nothing is built for the other kinds.\<close>

definition wrs_arity :: "WILNodeKind \<Rightarrow> nat option" where
  "wrs_arity kind =
     (if kind \<in> {WIL_NODE_ADD, WIL_NODE_SUB, WIL_NODE_MUL, WIL_NODE_DIV, WIL_NODE_MOD, WIL_NODE_AND, WIL_NODE_OR,
                 WIL_NODE_XOR, WIL_NODE_SHL, WIL_NODE_SHR, WIL_NODE_EQ, WIL_NODE_NE, WIL_NODE_LT, WIL_NODE_LE,
                 WIL_NODE_GT, WIL_NODE_GE} then Some 2
      else if kind \<in> {WIL_NODE_NEG, WIL_NODE_NOT, WIL_NODE_ABS} then Some 1
      else if kind = WIL_NODE_SELECT then Some 3 else None)"

text \<open>
  The patterns of the shipped rules: named variables, integer and boolean constants, and
  nodes with as many inputs as their kind needs.
\<close>

fun pat_plain :: "pat_ptr \<Rightarrow> bool" and pats_plain :: "pat_ptr list \<Rightarrow> bool" where
  "pat_plain (Some (WIL_PAT_VAR name)) \<longleftrightarrow> name \<noteq> None"
| "pat_plain (Some (WIL_PAT_CONST v)) \<longleftrightarrow> (case v of WIL_PATTERN_VALUE_FLOAT _ \<Rightarrow> False | _ \<Rightarrow> True)"
| "pat_plain (Some (WIL_PAT_NODE kind ps)) \<longleftrightarrow> wrs_arity kind = Some (length ps) \<and> pats_plain ps"
| "pat_plain _ \<longleftrightarrow> False"
| "pats_plain [] \<longleftrightarrow> True"
| "pats_plain (p # ps) \<longleftrightarrow> pat_plain p \<and> pats_plain ps"

fun pat_vars :: "pat_ptr \<Rightarrow> string list" and pats_vars :: "pat_ptr list \<Rightarrow> string list" where
  "pat_vars (Some (WIL_PAT_VAR name)) = (case name of None \<Rightarrow> [] | Some x \<Rightarrow> [x])"
| "pat_vars (Some (WIL_PAT_NODE kind ps)) = pats_vars ps"
| "pat_vars _ = []"
| "pats_vars [] = []"
| "pats_vars (p # ps) = pat_vars p @ pats_vars ps"

fun pat_val :: "(WILNodeKind \<Rightarrow> u64 \<Rightarrow> 'v list \<Rightarrow> 'v) \<Rightarrow> 'v \<Rightarrow> (string \<Rightarrow> 'v) \<Rightarrow> pat_ptr \<Rightarrow> 'v"
  and pats_val :: "(WILNodeKind \<Rightarrow> u64 \<Rightarrow> 'v list \<Rightarrow> 'v) \<Rightarrow> 'v \<Rightarrow> (string \<Rightarrow> 'v) \<Rightarrow> pat_ptr list \<Rightarrow> 'v list" where
  "pat_val sem nv \<rho> (Some (WIL_PAT_VAR name)) = (case name of None \<Rightarrow> nv | Some x \<Rightarrow> \<rho> x)"
| "pat_val sem nv \<rho> (Some (WIL_PAT_CONST v)) =
     (case v of WIL_PATTERN_VALUE_INT i \<Rightarrow> sem WIL_NODE_CONST_INT i []
      | WIL_PATTERN_VALUE_BOOL b \<Rightarrow> sem WIL_NODE_CONST_BOOL (if b \<noteq> 0 then 1 else 0) []
      | WIL_PATTERN_VALUE_FLOAT _ \<Rightarrow> nv)"
| "pat_val sem nv \<rho> (Some (WIL_PAT_NODE kind ps)) = sem kind 0 (pats_val sem nv \<rho> ps)"
| "pat_val sem nv \<rho> _ = nv"
| "pats_val sem nv \<rho> [] = []"
| "pats_val sem nv \<rho> (p # ps) = pat_val sem nv \<rho> p # pats_val sem nv \<rho> ps"

fun pat_weight :: "(WILNodeKind \<Rightarrow> nat) \<Rightarrow> (string \<Rightarrow> nat) \<Rightarrow> pat_ptr \<Rightarrow> nat"
  and pats_weight :: "(WILNodeKind \<Rightarrow> nat) \<Rightarrow> (string \<Rightarrow> nat) \<Rightarrow> pat_ptr list \<Rightarrow> nat" where
  "pat_weight kw \<omega> (Some (WIL_PAT_VAR name)) = (case name of None \<Rightarrow> 0 | Some x \<Rightarrow> \<omega> x)"
| "pat_weight kw \<omega> (Some (WIL_PAT_CONST v)) =
     (case v of WIL_PATTERN_VALUE_INT _ \<Rightarrow> kw WIL_NODE_CONST_INT
      | WIL_PATTERN_VALUE_BOOL _ \<Rightarrow> kw WIL_NODE_CONST_BOOL | WIL_PATTERN_VALUE_FLOAT _ \<Rightarrow> 0)"
| "pat_weight kw \<omega> (Some (WIL_PAT_NODE kind ps)) = kw kind + pats_weight kw \<omega> ps"
| "pat_weight kw \<omega> _ = 0"
| "pats_weight kw \<omega> [] = 0"
| "pats_weight kw \<omega> (p # ps) = pat_weight kw \<omega> p + pats_weight kw \<omega> ps"

section \<open>Instantiating a plain pattern\<close>

lemma length_cases:
  "length xs = 1 \<Longrightarrow> \<exists>a. xs = [a]" "length xs = 2 \<Longrightarrow> \<exists>a b. xs = [a, b]" "length xs = 3 \<Longrightarrow> \<exists>a b c. xs = [a, b, c]"
  by (auto simp: length_Suc_conv eval_nat_numeral)

lemma wrs_build_node_made:
  assumes "wrs_arity kind = Some (length inputs)"
  shows "\<exists>r. wrs_build_node g kind inputs = Inr (Some (fst r), snd r) \<and> made g kind 0 inputs r"
proof -
  note defs = wrs_build_node_def pat_input_def arr_get_def wil_make_add_def wil_make_sub_def wil_make_mul_def
    wil_make_div_def wil_make_mod_def wil_make_and_def wil_make_or_def wil_make_xor_def wil_make_shl_def
    wil_make_shr_def wil_make_eq_def wil_make_ne_def wil_make_lt_def wil_make_le_def wil_make_gt_def
    wil_make_ge_def wil_make_neg_def wil_make_not_def wil_make_abs_def wil_make_select_def
  consider "wrs_arity kind = Some 2" | "wrs_arity kind = Some 1" | "wrs_arity kind = Some 3"
    using assms by (auto simp: wrs_arity_def split: if_splits)
  then show ?thesis
  proof cases
    case 1
    then obtain a b where i: "inputs = [a, b]" using assms length_cases(2) [of inputs] by auto
    have "wrs_build_node g kind inputs = Inr (Some (fst (wil_build_binary g kind a b WIL_TYPE_VOID)),
        snd (wil_build_binary g kind a b WIL_TYPE_VOID))"
      using 1 i by (cases kind) (simp_all add: wrs_arity_def defs)
    then show ?thesis using made_binary i by blast
  next
    case 2
    then obtain a where i: "inputs = [a]" using assms length_cases(1) [of inputs] by auto
    have "wrs_build_node g kind inputs = Inr (Some (fst (wil_build_unary g kind a WIL_TYPE_VOID)),
        snd (wil_build_unary g kind a WIL_TYPE_VOID))"
      using 2 i by (cases kind) (simp_all add: wrs_arity_def defs)
    then show ?thesis using made_unary i by blast
  next
    case 3
    then obtain a b c where i: "inputs = [a, b, c]" using assms length_cases(3) [of inputs] by auto
    have k: "kind = WIL_NODE_SELECT" using 3 by (auto simp: wrs_arity_def split: if_splits)
    let ?r = "wil_build_nary g kind [(a, WIL_EDGE_DATA), (b, WIL_EDGE_DATA), (c, WIL_EDGE_DATA)] (wil_node_type g b) None"
    have "wrs_build_node g kind inputs = Inr (Some (fst ?r), snd ?r)" by (simp add: k i defs)
    moreover have "made g kind 0 inputs ?r" using made_nary [of g kind "[(a, WIL_EDGE_DATA), (b, WIL_EDGE_DATA), (c, WIL_EDGE_DATA)]"] i by simp
    ultimately show ?thesis by blast
  qed
qed

text \<open>What instantiation does to the assignments: it extends them by the values and weights of the pattern.\<close>

definition extends :: "(WILNodeKind \<Rightarrow> nat) \<Rightarrow> (WILNodeKind \<Rightarrow> u64 \<Rightarrow> 'v list \<Rightarrow> 'v) \<Rightarrow> 'v \<Rightarrow> WILGraph \<Rightarrow> (nat \<Rightarrow> nat) \<Rightarrow> (nat \<Rightarrow> 'v)
    \<Rightarrow> WILGraph \<Rightarrow> (nat \<Rightarrow> nat) \<Rightarrow> (nat \<Rightarrow> 'v) \<Rightarrow> bool" where
  "extends kw sem nv g W v g' W' v' \<longleftrightarrow> wrs_inv kw sem nv g' W' v' \<and> grows g g'
     \<and> (\<forall>k<length g. W' k = W k \<and> v' k = v k)"

lemma extends_refl: "wrs_inv kw sem nv g W v \<Longrightarrow> extends kw sem nv g W v g W v"
  by (simp add: extends_def)

lemma extends_trans:
  "extends kw sem nv g W v g1 W1 v1 \<Longrightarrow> extends kw sem nv g1 W1 v1 g2 W2 v2 \<Longrightarrow> extends kw sem nv g W v g2 W2 v2"
  by (auto simp: extends_def grows_def)

lemma extends_ptr:
  assumes "extends kw sem nv g W v g' W' v'" "valid_ptr g p"
  shows "valid_ptr g' p" "ptr_val nv v' p = ptr_val nv v p" "ptr_weight W' p = ptr_weight W p"
  using assms ptr_agree [OF assms(2), of v' v] ptr_weight_agree [OF assms(2), of W' W]
  by (auto simp: extends_def grows_def valid_ptr_def)

lemma made_extends:
  assumes "wrs_inv kw sem nv g W v" "made g kind payload ins r" "\<forall>p\<in>set ins. valid_ptr g p"
  shows "\<exists>W' v'. extends kw sem nv g W v (snd r) W' v' \<and> fst r < length (snd r)
     \<and> W' (fst r) = kw kind + sum_list (map (ptr_weight W) ins) \<and> v' (fst r) = sem kind payload (map (ptr_val nv v) ins)"
  using made_inv [OF assms] assms(2)
  by (intro exI) (auto simp: extends_def made_def)

lemma wrs_apply_plain:
  fixes sem :: "WILNodeKind \<Rightarrow> u64 \<Rightarrow> 'v list \<Rightarrow> 'v"
  assumes inv: "wrs_inv kw sem nv g W v" and subst: "\<forall>x. valid_ptr g (wilSubstitutionLookup subst x)"
  defines "\<rho> \<equiv> \<lambda>x. ptr_val nv v (wilSubstitutionLookup subst (Some x))"
    and "\<omega> \<equiv> \<lambda>x. ptr_weight W (wilSubstitutionLookup subst (Some x))"
  shows "extends kw sem nv g W v h V u \<Longrightarrow> pat_plain pat \<Longrightarrow>
      \<exists>p g' W' v'. wrs_apply_pattern h subst pat = Inr (p, g') \<and> extends kw sem nv h V u g' W' v' \<and> valid_ptr g' p
        \<and> ptr_val nv v' p = pat_val sem nv \<rho> pat \<and> ptr_weight W' p = pat_weight kw \<omega> pat"
    and "extends kw sem nv g W v h V u \<Longrightarrow> pats_plain pats \<Longrightarrow>
      \<exists>ps g' W' v'. wrs_apply_inputs h subst pats = Inr (ps, g') \<and> extends kw sem nv h V u g' W' v'
        \<and> (\<forall>p\<in>set ps. valid_ptr g' p) \<and> length ps = length pats
        \<and> map (ptr_val nv v') ps = pats_val sem nv \<rho> pats \<and> sum_list (map (ptr_weight W') ps) = pats_weight kw \<omega> pats"
proof (induction pat and pats arbitrary: h V u and h V u rule: pat_plain_pats_plain.induct)
  case (1 name)
  note e = extends_ptr [OF 1(1) subst [THEN spec, of name]]
  have "extends kw sem nv h V u h V u" using 1(1) by (simp add: extends_def)
  moreover obtain x where "name = Some x" using 1(2) by auto
  ultimately show ?case using e by (intro exI [of _ "wilSubstitutionLookup subst name"] exI [of _ h] exI [of _ V] exI [of _ u])
    (simp add: \<rho>_def \<omega>_def)
next
  case (2 c)
  have inv_h: "wrs_inv kw sem nv h V u" using 2(1) by (simp add: extends_def)
  obtain kind payload r where m: "made h kind payload [] r" "wrs_apply_pattern h subst (Some (WIL_PAT_CONST c)) = Inr (Some (fst r), snd r)"
      "pat_val sem nv \<rho> (Some (WIL_PAT_CONST c)) = sem kind payload []" "pat_weight kw \<omega> (Some (WIL_PAT_CONST c)) = kw kind"
  proof (cases c)
    case (WIL_PATTERN_VALUE_INT i)
    then show thesis
      by (intro that [of WIL_NODE_CONST_INT i "wil_make_const_int h i WIL_TYPE_I32"])
        (simp_all add: wil_make_const_int_def made_payload [OF made_create] Let_def)
  next
    case (WIL_PATTERN_VALUE_BOOL b)
    then show thesis
      by (intro that [of WIL_NODE_CONST_BOOL "if b \<noteq> 0 then 1 else 0" "wil_make_const_bool h b"])
        (simp_all add: wil_make_const_bool_def made_payload [OF made_create] Let_def)
  next
    case (WIL_PATTERN_VALUE_FLOAT f)
    with 2(2) show thesis by simp
  qed
  obtain W' v' where "extends kw sem nv h V u (snd r) W' v'" "fst r < length (snd r)" "W' (fst r) = kw kind"
      "v' (fst r) = sem kind payload []" using made_extends [OF inv_h m(1)] by auto
  then show ?case using m by (auto simp: valid_ptr_def)
next
  case (3 kind pats)
  obtain ps g1 W1 v1 where a: "wrs_apply_inputs h subst pats = Inr (ps, g1)" "extends kw sem nv h V u g1 W1 v1"
      "\<forall>p\<in>set ps. valid_ptr g1 p" "length ps = length pats" "map (ptr_val nv v1) ps = pats_val sem nv \<rho> pats"
      "sum_list (map (ptr_weight W1) ps) = pats_weight kw \<omega> pats"
    using 3 by fastforce
  have "wrs_arity kind = Some (length ps)" using 3(3) a(4) by simp
  then obtain r where r: "wrs_build_node g1 kind ps = Inr (Some (fst r), snd r)" "made g1 kind 0 ps r"
    using wrs_build_node_made by blast
  have "wrs_inv kw sem nv g1 W1 v1" using a(2) by (simp add: extends_def)
  from made_extends [OF this r(2) a(3)] obtain W' v' where b: "extends kw sem nv g1 W1 v1 (snd r) W' v'" "fst r < length (snd r)"
      "W' (fst r) = kw kind + pats_weight kw \<omega> pats" "v' (fst r) = sem kind 0 (pats_val sem nv \<rho> pats)"
    using a(5,6) by auto
  show ?case using a(1) r(1) b extends_trans [OF a(2) b(1)]
    by (intro exI [of _ "Some (fst r)"] exI [of _ "snd r"] exI [of _ W'] exI [of _ v']) (simp add: valid_ptr_def)
next
  case "5"
  then show ?case by (auto simp: extends_def)
next
  case (6 pat pats)
  obtain p g1 W1 v1 where a: "wrs_apply_pattern h subst pat = Inr (p, g1)" "extends kw sem nv h V u g1 W1 v1" "valid_ptr g1 p"
      "ptr_val nv v1 p = pat_val sem nv \<rho> pat" "ptr_weight W1 p = pat_weight kw \<omega> pat"
    using 6(1) [OF 6(3)] 6(4) by auto
  obtain ps g2 W2 v2 where b: "wrs_apply_inputs g1 subst pats = Inr (ps, g2)" "extends kw sem nv g1 W1 v1 g2 W2 v2"
      "\<forall>p\<in>set ps. valid_ptr g2 p" "length ps = length pats" "map (ptr_val nv v2) ps = pats_val sem nv \<rho> pats"
      "sum_list (map (ptr_weight W2) ps) = pats_weight kw \<omega> pats"
    using 6(2) [OF extends_trans [OF 6(3) a(2)]] 6(4) by fastforce
  show ?case using a b extends_ptr [OF b(2) a(3)] extends_trans [OF a(2) b(2)]
    by (intro exI [of _ "p # ps"] exI [of _ g2] exI [of _ W2] exI [of _ v2]) simp
qed simp_all

section \<open>Matching a plain, linear pattern\<close>

text \<open>
  A meaning that does not look at the payload of operators, at the inputs of constants, and
  at the bits of a boolean besides its truth.
\<close>

definition sem_respects :: "(WILNodeKind \<Rightarrow> u64 \<Rightarrow> 'v list \<Rightarrow> 'v) \<Rightarrow> bool" where
  "sem_respects sem \<longleftrightarrow> (\<forall>kind payload vs. wrs_arity kind \<noteq> None \<longrightarrow> sem kind payload vs = sem kind 0 vs)
     \<and> (\<forall>payload vs. sem WIL_NODE_CONST_INT payload vs = sem WIL_NODE_CONST_INT payload [])
     \<and> (\<forall>payload vs. sem WIL_NODE_CONST_BOOL payload vs
          = sem WIL_NODE_CONST_BOOL (if (ucast payload :: u32) \<noteq> 0 then 1 else 0) [])"

lemma sem_const:
  assumes "sem_respects sem"
  shows "sem WIL_NODE_CONST_INT payload vs = sem WIL_NODE_CONST_INT payload []"
    and "sem WIL_NODE_CONST_BOOL payload vs = sem WIL_NODE_CONST_BOOL (if (ucast payload :: u32) \<noteq> 0 then 1 else 0) []"
  using assms unfolding sem_respects_def by blast+

abbreviation subst_val :: "'v \<Rightarrow> (nat \<Rightarrow> 'v) \<Rightarrow> WILSubstitution \<Rightarrow> string \<Rightarrow> 'v" where
  "subst_val nv v s x \<equiv> ptr_val nv v (wilSubstitutionLookup s (Some x))"

abbreviation subst_weight :: "(nat \<Rightarrow> nat) \<Rightarrow> WILSubstitution \<Rightarrow> string \<Rightarrow> nat" where
  "subst_weight W s x \<equiv> ptr_weight W (wilSubstitutionLookup s (Some x))"

lemma lookup_append:
  "x \<notin> fst ` set s \<Longrightarrow> wilSubstitutionLookup (s @ t) (Some x) = wilSubstitutionLookup t (Some x)"
  by (simp add: wilSubstitutionLookup_def map_add_def map_of_eq_None_iff [THEN iffD2] split: option.splits)

lemma lookup_bound: "wilSubstitutionLookup ((x, p) # t) (Some x) = p"
  by (simp add: wilSubstitutionLookup_def)

lemma node_reads:
  assumes "n < length g"
  shows "wil_node_kind g (Some n) = fst (node_view g n)"
    and "wil_node_input_count g (Some n) = length (view_inputs (node_view g n))"
    and "i < length (view_inputs (node_view g n)) \<Longrightarrow> wil_node_input g (Some n) i = view_inputs (node_view g n) ! i"
    and "wil_node_kind g (Some n) = WIL_NODE_CONST_INT \<Longrightarrow> wil_node_const_int g (Some n) = fst (snd (node_view g n))"
    and "wil_node_kind g (Some n) = WIL_NODE_CONST_BOOL \<Longrightarrow> wil_node_const_bool g (Some n) = ucast (fst (snd (node_view g n)))"
  using assms by (simp_all add: node_view_def wil_node_kind_def wil_node_get_def wil_node_input_count_def
      wil_node_input_def wil_node_const_int_def wil_node_const_bool_def)

text \<open>
  A match always answers; its bindings are variables of the pattern, bound to pointers of the
  graph. When it succeeds, all variables are bound, the value of the node is the value of the
  pattern, and the node is at least as heavy.
\<close>

definition matched :: "(WILNodeKind \<Rightarrow> nat) \<Rightarrow> (WILNodeKind \<Rightarrow> u64 \<Rightarrow> 'v list \<Rightarrow> 'v) \<Rightarrow> 'v \<Rightarrow> WILGraph \<Rightarrow> (nat \<Rightarrow> nat) \<Rightarrow> (nat \<Rightarrow> 'v)
    \<Rightarrow> WILSubstitution \<Rightarrow> pat_ptr list \<Rightarrow> node_ptr list \<Rightarrow> bool \<Rightarrow> WILSubstitution \<Rightarrow> bool" where
  "matched kw sem nv g W v subst pats nodes ok bs \<longleftrightarrow>
     fst ` set bs \<subseteq> set (pats_vars pats) \<and> (\<forall>b\<in>set bs. valid_ptr g (snd b))
     \<and> (ok \<longrightarrow> set (pats_vars pats) \<subseteq> fst ` set bs
        \<and> (\<forall>t. pats_val sem nv (subst_val nv v (subst @ bs @ t)) pats = map (ptr_val nv v) nodes
             \<and> pats_weight kw (subst_weight W (subst @ bs @ t)) pats \<le> sum_list (map (ptr_weight W) nodes)))"

lemma wrs_match_plain:
  fixes sem :: "WILNodeKind \<Rightarrow> u64 \<Rightarrow> 'v list \<Rightarrow> 'v"
  assumes inv: "wrs_inv kw sem nv g W v" and sem: "sem_respects sem"
  shows "pat_plain pat \<Longrightarrow> distinct (pat_vars pat) \<Longrightarrow> set (pat_vars pat) \<inter> fst ` set subst = {} \<Longrightarrow> valid_ptr g node \<Longrightarrow>
      \<exists>ok bs. wrs_match_pattern g subst pat node = Some (ok, subst @ bs) \<and> matched kw sem nv g W v subst [pat] [node] ok bs"
    and "pats_plain pats \<Longrightarrow> distinct (pats_vars pats) \<Longrightarrow> set (pats_vars pats) \<inter> fst ` set subst = {} \<Longrightarrow> n < length g \<Longrightarrow>
      i + length pats = wil_node_input_count g (Some n) \<Longrightarrow>
      \<exists>ok bs. wrs_match_inputs g subst pats i (Some n) = Some (ok, subst @ bs)
        \<and> matched kw sem nv g W v subst pats (drop i (view_inputs (node_view g n))) ok bs"
proof (induction pat and pats arbitrary: subst node and subst i n rule: pat_plain_pats_plain.induct)
  case (1 name)
  then obtain x where x: "name = Some x" by auto
  have "map_of subst x = None" using 1(3) x by (auto simp: map_of_eq_None_iff)
  then have "wrs_match_pattern g subst (Some (WIL_PAT_VAR name)) node = Some (True, subst @ [(x, node)])"
    by (simp add: x wrs_substitution_bind_def)
  moreover have "matched kw sem nv g W v subst [Some (WIL_PAT_VAR name)] [node] True [(x, node)]"
    using 1(3,4) by (simp add: matched_def x lookup_append lookup_bound)
  ultimately show ?case by blast
next
  case (2 c)
  have "matched kw sem nv g W v subst [Some (WIL_PAT_CONST c)] [node] (wrs_match_constant g c node) []"
  proof (cases "wrs_match_constant g c node")
    case True
    then obtain n where n: "node = Some n" "n < length g"
      using 2(4) by (auto simp: wrs_match_constant_def valid_ptr_def split: if_splits)
    obtain kind payload ins where w: "node_view g n = (kind, payload, ins)" by (cases "node_view g n")
    have i: "v n = sem kind payload (map (ptr_val nv v) ins)" "kw kind \<le> W n"
      using inv n(2) w by (auto simp: wrs_inv_def wil_values_def wil_weights_def)
    have "pat_val sem nv \<rho> (Some (WIL_PAT_CONST c)) = v n \<and> pat_weight kw \<omega> (Some (WIL_PAT_CONST c)) = kw kind" for \<rho> \<omega>
    proof (cases c)
      case (WIL_PATTERN_VALUE_INT k)
      then have "kind = WIL_NODE_CONST_INT" "payload = k"
        using True n(1) w node_reads(1,4) [OF n(2)] by (auto simp: wrs_match_constant_def split: if_splits)
      then show ?thesis using i(1) sem_const(1) [OF sem, of payload "map (ptr_val nv v) ins"] WIL_PATTERN_VALUE_INT by simp
    next
      case (WIL_PATTERN_VALUE_BOOL k)
      then have "kind = WIL_NODE_CONST_BOOL" "ucast payload = k"
        using True n(1) w node_reads(1,5) [OF n(2)] by (auto simp: wrs_match_constant_def split: if_splits)
      then show ?thesis using i(1) sem_const(2) [OF sem, of payload "map (ptr_val nv v) ins"] WIL_PATTERN_VALUE_BOOL by simp
    qed (use 2(1) in simp)
    then show ?thesis using i(2) n(1) by (simp add: matched_def)
  qed (simp add: matched_def)
  then show ?case by (intro exI [of _ "wrs_match_constant g c node"] exI [of _ "[]"]) simp
next
  case (3 kind pats)
  show ?case
  proof (cases "node = None \<or> wil_node_kind g node \<noteq> kind \<or> wil_node_input_count g node \<noteq> length pats")
    case True
    then show ?thesis by (intro exI [of _ False] exI [of _ "[]"]) (auto simp: matched_def)
  next
    case False
    then obtain n where n: "node = Some n" by auto
    then have g: "n < length g" using 3(5) by (simp add: valid_ptr_def)
    have k: "wil_node_kind g (Some n) = kind" "wil_node_input_count g (Some n) = length pats" using False n by auto
    have ar: "wrs_arity kind \<noteq> None" and vars: "distinct (pats_vars pats)" "set (pats_vars pats) \<inter> fst ` set subst = {}"
        "pats_plain pats" using 3(2,3,4) by auto
    obtain ok bs where m: "wrs_match_inputs g subst pats 0 (Some n) = Some (ok, subst @ bs)"
        "matched kw sem nv g W v subst pats (view_inputs (node_view g n)) ok bs"
      using 3(1) [OF vars(3,1,2) g, of 0] k(2) by auto
    obtain payload ins where w: "node_view g n = (kind, payload, ins)"
      using node_reads(1) [OF g] k(1) by (cases "node_view g n") auto
    have "v n = sem kind payload (map (ptr_val nv v) ins)" "kw kind + sum_list (map (ptr_weight W) ins) \<le> W n"
      using inv g w by (auto simp: wrs_inv_def wil_values_def wil_weights_def)
    then have v: "v n = sem kind 0 (map (ptr_val nv v) ins)" "kw kind + sum_list (map (ptr_weight W) ins) \<le> W n"
      using sem ar unfolding sem_respects_def by metis+
    have "matched kw sem nv g W v subst [Some (WIL_PAT_NODE kind pats)] [node] ok bs"
      unfolding matched_def
    proof (intro conjI impI allI)
      assume ok
      then have p: "pats_val sem nv (subst_val nv v (subst @ bs @ t)) pats = map (ptr_val nv v) ins"
          "pats_weight kw (subst_weight W (subst @ bs @ t)) pats \<le> sum_list (map (ptr_weight W) ins)" for t
        using m(2) w by (simp_all add: matched_def)
      fix t
      show "pats_val sem nv (subst_val nv v (subst @ bs @ t)) [Some (WIL_PAT_NODE kind pats)] = map (ptr_val nv v) [node]"
        using p(1) v(1) n by simp
      show "pats_weight kw (subst_weight W (subst @ bs @ t)) [Some (WIL_PAT_NODE kind pats)]
          \<le> sum_list (map (ptr_weight W) [node])"
        using p(2) [of t] v(2) n by simp
    qed (use m(2) in \<open>auto simp: matched_def\<close>)
    then show ?thesis using m(1) k n by auto
  qed
next
  case "5"
  then show ?case using node_reads(2) [OF "5"(4)] by (intro exI [of _ True] exI [of _ "[]"]) (simp add: matched_def)
next
  case (6 pat pats)
  let ?ins = "view_inputs (node_view g n)"
  have i: "i < length ?ins" "drop i ?ins = ?ins ! i # drop (Suc i) ?ins"
    using 6(6,7) node_reads(2) [OF 6(6)] by (simp_all add: Cons_nth_drop_Suc)
  have "valid_ptr g (?ins ! i)" using view_linked [of g n] inv 6(6) i(1) by (simp add: wrs_inv_def)
  then obtain ok bs where a: "wrs_match_pattern g subst pat (?ins ! i) = Some (ok, subst @ bs)"
      "matched kw sem nv g W v subst [pat] [?ins ! i] ok bs"
    using 6(1) [of subst "?ins ! i"] 6(3,4,5) by auto
  show ?case
  proof (cases ok)
    case False
    then show ?thesis using a node_reads(3) [OF 6(6) i(1)]
      by (intro exI [of _ False] exI [of _ bs]) (auto simp: matched_def)
  next
    case True
    have "set (pats_vars pats) \<inter> fst ` set (subst @ bs) = {}" using a(2) 6(4,5) by (auto simp: matched_def)
    then obtain ok' cs where b: "wrs_match_inputs g (subst @ bs) pats (Suc i) (Some n) = Some (ok', (subst @ bs) @ cs)"
        "matched kw sem nv g W v (subst @ bs) pats (drop (Suc i) ?ins) ok' cs"
      using 6(2) [of "subst @ bs" n "Suc i"] 6(3,4,6,7) by auto
    have "matched kw sem nv g W v subst (pat # pats) (?ins ! i # drop (Suc i) ?ins) ok' (bs @ cs)"
      using a(2) b(2) True unfolding matched_def by (auto intro: add_mono)
    then show ?thesis using a(1) b(1) True i(2) node_reads(3) [OF 6(6) i(1)]
      by (intro exI [of _ ok'] exI [of _ "bs @ cs"]) simp
  qed
qed simp_all

section \<open>Applying a rule\<close>

text \<open>
  How a graph may change while it is rewritten: nodes are added, and the inputs of a node are
  redirected to nodes of the same value and at most the same weight. Each assignment of the old
  graph is carried over.
\<close>

definition better_input :: "'v \<Rightarrow> (nat \<Rightarrow> nat) \<Rightarrow> (nat \<Rightarrow> 'v) \<Rightarrow> (nat \<Rightarrow> nat) \<Rightarrow> (nat \<Rightarrow> 'v) \<Rightarrow> node_ptr \<Rightarrow> node_ptr \<Rightarrow> bool" where
  "better_input nv W v W' v' p p' \<longleftrightarrow> ptr_val nv v' p' = ptr_val nv v p \<and> ptr_weight W' p' \<le> ptr_weight W p"

definition evolves :: "(WILNodeKind \<Rightarrow> nat) \<Rightarrow> (WILNodeKind \<Rightarrow> u64 \<Rightarrow> 'v list \<Rightarrow> 'v) \<Rightarrow> 'v \<Rightarrow> WILGraph \<Rightarrow> (nat \<Rightarrow> nat) \<Rightarrow> (nat \<Rightarrow> 'v)
    \<Rightarrow> WILGraph \<Rightarrow> (nat \<Rightarrow> nat) \<Rightarrow> (nat \<Rightarrow> 'v) \<Rightarrow> bool" where
  "evolves kw sem nv g W v g' W' v' \<longleftrightarrow> wrs_inv kw sem nv g' W' v' \<and> length g \<le> length g'
     \<and> (\<forall>k<length g. W' k = W k \<and> v' k = v k
          \<and> fst (node_view g' k) = fst (node_view g k) \<and> fst (snd (node_view g' k)) = fst (snd (node_view g k))
          \<and> list_all2 (better_input nv W v W' v') (view_inputs (node_view g k)) (view_inputs (node_view g' k)))"

lemma evolves_inv: "evolves kw sem nv g W v g' W' v' \<Longrightarrow> wrs_inv kw sem nv g' W' v'"
  by (simp add: evolves_def)

lemma evolves_refl: "wrs_inv kw sem nv g W v \<Longrightarrow> evolves kw sem nv g W v g W v"
  by (simp add: evolves_def list.rel_refl better_input_def)

lemma evolves_trans:
  assumes "evolves kw sem nv g W v g1 W1 v1" "evolves kw sem nv g1 W1 v1 g2 W2 v2"
  shows "evolves kw sem nv g W v g2 W2 v2"
proof -
  have b: "better_input nv W v W1 v1 p q \<Longrightarrow> better_input nv W1 v1 W2 v2 q r \<Longrightarrow> better_input nv W v W2 v2 p r"
    for p q r by (auto simp: better_input_def)
  have "list_all2 (better_input nv W v W2 v2) (view_inputs (node_view g k)) (view_inputs (node_view g2 k))"
    if "k < length g" for k
  proof (rule list_all2_trans [OF b])
    show "list_all2 (better_input nv W v W1 v1) (view_inputs (node_view g k)) (view_inputs (node_view g1 k))"
      using assms(1) that by (simp add: evolves_def)
    show "list_all2 (better_input nv W1 v1 W2 v2) (view_inputs (node_view g1 k)) (view_inputs (node_view g2 k))"
      using assms that by (simp add: evolves_def)
  qed
  then show ?thesis using assms by (simp add: evolves_def)
qed

lemma evolves_count:
  assumes "evolves kw sem nv g W v g' W' v'" "n < length g"
  shows "wil_node_input_count g' (Some n) = wil_node_input_count g (Some n)" "n < length g'"
proof -
  show n': "n < length g'" using assms by (simp add: evolves_def)
  have "length (view_inputs (node_view g n)) = length (view_inputs (node_view g' n))"
    using assms unfolding evolves_def by (blast dest: list_all2_lengthD)
  then show "wil_node_input_count g' (Some n) = wil_node_input_count g (Some n)"
    by (simp add: node_reads(2) [OF n'] node_reads(2) [OF assms(2)])
qed

lemma extends_evolves:
  assumes "wrs_inv kw sem nv g W v" "extends kw sem nv g W v g' W' v'"
  shows "evolves kw sem nv g W v g' W' v'"
proof -
  have "better_input nv W v W' v' p p" if "k < length g" "p \<in> set (view_inputs (node_view g k))" for p k
    using extends_ptr [OF assms(2) view_linked [OF _ that]] assms(1) by (simp add: better_input_def wrs_inv_def)
  then show ?thesis using assms(2)
    by (auto simp: evolves_def extends_def grows_def intro!: list.rel_refl_strong)
qed

text \<open>Redirecting inputs to nodes of the same value and at most the same weight is such a change.\<close>

lemma redirect_evolves:
  assumes inv: "wrs_inv kw sem nv g W v" and e: "evolves kw sem nv g W v g' W' v'"
    and linked: "wil_linked h" and len: "length h = length g'"
    and new: "\<And>k. k < length g' \<Longrightarrow> \<not> k < length g \<Longrightarrow> node_view h k = node_view g' k"
    and old: "\<And>k kind payload ins. k < length g \<Longrightarrow> node_view g k = (kind, payload, ins) \<Longrightarrow>
      \<exists>ins'. node_view h k = (kind, payload, ins') \<and> list_all2 (better_input nv W v W' v') ins ins'"
  shows "evolves kw sem nv g W v h W' v'"
proof -
  have same: "map (ptr_val nv v') ins' = map (ptr_val nv v) ins"
      "sum_list (map (ptr_weight W') ins') \<le> sum_list (map (ptr_weight W) ins)"
    if "list_all2 (better_input nv W v W' v') ins ins'" for ins ins'
    using that by (induction rule: list_all2_induct) (auto simp: better_input_def)
  have keep: "W' k = W k" "v' k = v k" if "k < length g" for k using e that by (simp_all add: evolves_def)
  have "(case node_view h k of (kind, payload, ins) \<Rightarrow> kw kind + sum_list (map (ptr_weight W') ins) \<le> W' k)
      \<and> (case node_view h k of (kind, payload, ins) \<Rightarrow> v' k = sem kind payload (map (ptr_val nv v') ins))"
    if k: "k < length g'" for k
  proof (cases "k < length g")
    case True
    obtain kind payload ins where w: "node_view g k = (kind, payload, ins)" by (cases "node_view g k")
    then obtain ins' where w': "node_view h k = (kind, payload, ins')" "list_all2 (better_input nv W v W' v') ins ins'"
      using old [OF True] by blast
    have "kw kind + sum_list (map (ptr_weight W) ins) \<le> W k" "v k = sem kind payload (map (ptr_val nv v) ins)"
      using inv True w by (auto simp: wrs_inv_def wil_weights_def wil_values_def)
    then show ?thesis using same [OF w'(2)] w'(1) keep [OF True] by simp
  next
    case False
    then show ?thesis using new [OF k] evolves_inv [OF e] k by (auto simp: wrs_inv_def wil_weights_def wil_values_def)
  qed
  then have "wrs_inv kw sem nv h W' v'"
    using linked by (simp add: wrs_inv_def wil_weights_def wil_values_def len)
  moreover have "fst (node_view h k) = fst (node_view g k) \<and> fst (snd (node_view h k)) = fst (snd (node_view g k))
      \<and> list_all2 (better_input nv W v W' v') (view_inputs (node_view g k)) (view_inputs (node_view h k))"
    if "k < length g" for k
    using old [OF that] by (metis prod.collapse fst_conv snd_conv)
  ultimately show ?thesis using e keep by (simp add: evolves_def len)
qed

lemma replace_uses_evolves:
  assumes inv: "wrs_inv kw sem nv g W v" and nodes: "old < length g" "new < length g"
    and better: "W new < W old" "v new = v old"
  shows "evolves kw sem nv g W v (wil_node_replace_all_uses g old new) W v"
proof (rule redirect_evolves [OF inv evolves_refl [OF inv]])
  have ne: "old \<noteq> new" and lk: "wil_linked g" using better(1) inv by (auto simp: wrs_inv_def)
  note r = replace_all_uses_inputs [OF lk nodes ne refl]
  show "wil_linked (wil_node_replace_all_uses g old new)" "length (wil_node_replace_all_uses g old new) = length g"
    using r by simp_all
  fix k kind payload ins assume "k < length g" "node_view g k = (kind, payload, ins)"
  moreover have "list_all2 (better_input nv W v W v) ins (map (\<lambda>p. if p = Some old then Some new else p) ins)"
    using better by (auto simp: list_all2_conv_all_nth better_input_def)
  ultimately show "\<exists>ins'. node_view (wil_node_replace_all_uses g old new) k = (kind, payload, ins')
      \<and> list_all2 (better_input nv W v W v) ins ins'"
    using replace_all_uses_view [OF lk nodes ne] by simp
qed simp

text \<open>Storing a replacement of the old input in the new graph.\<close>

lemma replace_input_evolves:
  assumes inv: "wrs_inv kw sem nv g W v" and e: "evolves kw sem nv g W v g' W' v'"
    and n: "n < length g" and r: "r < length g'" and i: "i < length (view_inputs (node_view g n))"
    and better: "better_input nv W v W' v' (view_inputs (node_view g n) ! i) (Some r)"
  shows "evolves kw sem nv g W v (wil_node_replace_input g' n i (Some r)) W' v'"
proof (rule redirect_evolves [OF inv e])
  have n': "n < length g'" using evolves_count [OF e n] by simp
  show "wil_linked (wil_node_replace_input g' n i (Some r))"
    using replace_input_linked [of g' n "Some r" i] evolves_inv [OF e] n' r by (simp add: wrs_inv_def valid_ptr_def)
  show "length (wil_node_replace_input g' n i (Some r)) = length g'" by (rule replace_input_inputs(3))
  show "node_view (wil_node_replace_input g' n i (Some r)) k = node_view g' k" if "k < length g'" "\<not> k < length g" for k
    using replace_input_view [OF n' that(1), of i "Some r"] that(2) n by (auto split: prod.splits)
  fix k kind payload ins assume k: "k < length g" "node_view g k = (kind, payload, ins)"
  obtain ins' where w: "node_view g' k = (kind, payload, ins')" "list_all2 (better_input nv W v W' v') ins ins'"
    using e k by (cases "node_view g' k") (auto simp: evolves_def)
  have "list_all2 (better_input nv W v W' v') ins (if k = n then ins'[i := Some r] else ins')"
    using w(2) better i k(2) by (auto simp: list_all2_conv_all_nth nth_list_update)
  then show "\<exists>ins'. node_view (wil_node_replace_input g' n i (Some r)) k = (kind, payload, ins')
      \<and> list_all2 (better_input nv W v W' v') ins ins'"
    using replace_input_view [OF n' evolves_count(2) [OF e k(1)], of i "Some r"] w(1) by simp
qed

text \<open>
  A rule that keeps values and makes nodes lighter: instantiated, not computed; both sides
  plain; no variable twice on the left; the same value on both sides for all values of the
  variables, and less weight on the right for all weights of the variables.
\<close>

definition rule_decreases :: "(WILNodeKind \<Rightarrow> nat) \<Rightarrow> (WILNodeKind \<Rightarrow> u64 \<Rightarrow> 'v list \<Rightarrow> 'v) \<Rightarrow> 'v \<Rightarrow> WILRewriteRule \<Rightarrow> bool" where
  "rule_decreases kw sem nv rule \<longleftrightarrow> wr_action rule = None \<and> pat_plain (wr_lhs rule) \<and> pat_plain (wr_rhs rule)
     \<and> distinct (pat_vars (wr_lhs rule))
     \<and> (\<forall>\<rho>. pat_val sem nv \<rho> (wr_rhs rule) = pat_val sem nv \<rho> (wr_lhs rule))
     \<and> (\<forall>\<omega>. pat_weight kw \<omega> (wr_rhs rule) < pat_weight kw \<omega> (wr_lhs rule))"

definition wrs_rules_decrease :: "(WILNodeKind \<Rightarrow> nat) \<Rightarrow> (WILNodeKind \<Rightarrow> u64 \<Rightarrow> 'v list \<Rightarrow> 'v) \<Rightarrow> 'v \<Rightarrow> WILRewriteRule list \<Rightarrow> bool" where
  "wrs_rules_decrease kw sem nv rules \<longleftrightarrow> (\<forall>rule\<in>set rules. wr_enabled rule \<longrightarrow> rule_decreases kw sem nv rule)"

text \<open>
  What a call on a node gives: an answer, with the rules and the strategy as they were, in a
  graph that has evolved; a replacement has the value of the node and is lighter.
\<close>

definition rewritten :: "(WILNodeKind \<Rightarrow> nat) \<Rightarrow> (WILNodeKind \<Rightarrow> u64 \<Rightarrow> 'v list \<Rightarrow> 'v) \<Rightarrow> 'v \<Rightarrow> WILRewriteSystem \<Rightarrow> WILGraph \<Rightarrow> (nat \<Rightarrow> nat)
    \<Rightarrow> (nat \<Rightarrow> 'v) \<Rightarrow> nat \<Rightarrow> (node_ptr \<times> wrs_state) cres option \<Rightarrow> bool" where
  "rewritten kw sem nv sys g W v n res \<longleftrightarrow> (\<exists>p sys' g' W' v'. res = Some (Inr (p, sys', g'))
     \<and> ws_rules sys' = ws_rules sys \<and> ws_strategy sys' = ws_strategy sys \<and> evolves kw sem nv g W v g' W' v'
     \<and> (\<forall>r. p = Some r \<longrightarrow> r < length g' \<and> v' r = v n \<and> W' r < W n))"

lemma rewrittenI:
  assumes "res = Some (Inr (p, sys', g'))" "ws_rules sys' = ws_rules sys" "ws_strategy sys' = ws_strategy sys"
    "evolves kw sem nv g W v g' W' v'" "\<And>r. p = Some r \<Longrightarrow> r < length g' \<and> v' r = v n \<and> W' r < W n"
  shows "rewritten kw sem nv sys g W v n res"
  unfolding rewritten_def using assms by blast

lemma rewritten_refl: "wrs_inv kw sem nv g W v \<Longrightarrow> rewritten kw sem nv sys g W v n (Some (Inr (None, sys, g)))"
  unfolding rewritten_def using evolves_refl by fastforce

lemma rule_match:
  fixes sem :: "WILNodeKind \<Rightarrow> u64 \<Rightarrow> 'v list \<Rightarrow> 'v"
  assumes inv: "wrs_inv kw sem nv g W v" and sem: "sem_respects sem" and n: "n < length g"
    and rule: "pat_plain pat" "distinct (pat_vars pat)"
  shows "\<exists>m. wilPatternMatch g pat (Some n) = Some m
     \<and> (\<forall>x. valid_ptr g (wilSubstitutionLookup (wm_substitution m) x))
     \<and> (wm_succeeded m \<longrightarrow> pat_val sem nv (subst_val nv v (wm_substitution m)) pat = v n
          \<and> pat_weight kw (subst_weight W (wm_substitution m)) pat \<le> W n)"
proof -
  have "valid_ptr g (Some n)" using n by (simp add: valid_ptr_def)
  then obtain ok bs where m: "wrs_match_pattern g [] pat (Some n) = Some (ok, bs)"
      "matched kw sem nv g W v [] [pat] [Some n] ok bs"
    using wrs_match_plain(1) [OF inv sem rule, of "[]" "Some n"] by auto
  have "valid_ptr g (wilSubstitutionLookup bs x)" for x
    using m(2) by (fastforce simp: matched_def wilSubstitutionLookup_def valid_ptr_def
        dest: map_of_SomeD split: option.splits)
  moreover have "pat_val sem nv (subst_val nv v bs) pat = v n \<and> pat_weight kw (subst_weight W bs) pat \<le> W n" if ok
  proof -
    have "\<forall>t. pats_val sem nv (subst_val nv v (bs @ t)) [pat] = [v n] \<and> pats_weight kw (subst_weight W (bs @ t)) [pat] \<le> W n"
      using m(2) that by (simp add: matched_def)
    from spec [OF this, of "[]"] show ?thesis by simp
  qed
  ultimately show ?thesis using m(1) by (simp add: wilPatternMatch_def)
qed

lemma apply_rule_rewritten:
  fixes sem :: "WILNodeKind \<Rightarrow> u64 \<Rightarrow> 'v list \<Rightarrow> 'v"
  assumes inv: "wrs_inv kw sem nv g W v" and sem: "sem_respects sem" and n: "n < length g"
    and rule: "wr_enabled rule \<longrightarrow> rule_decreases kw sem nv rule"
  shows "rewritten kw sem nv sys g W v n (wrs_apply_rule sys g rule (Some n))"
proof (cases "wr_enabled rule")
  case False
  then show ?thesis using rewritten_refl [OF inv] by (simp add: wrs_apply_rule_def)
next
  case True
  then have r: "rule_decreases kw sem nv rule" using rule by simp
  then have plain: "pat_plain (wr_lhs rule)" "distinct (pat_vars (wr_lhs rule))" "pat_plain (wr_rhs rule)"
    by (simp_all add: rule_decreases_def)
  obtain m where m: "wilPatternMatch g (wr_lhs rule) (Some n) = Some m"
      "\<forall>x. valid_ptr g (wilSubstitutionLookup (wm_substitution m) x)"
      "wm_succeeded m \<Longrightarrow> pat_val sem nv (subst_val nv v (wm_substitution m)) (wr_lhs rule) = v n"
      "wm_succeeded m \<Longrightarrow> pat_weight kw (subst_weight W (wm_substitution m)) (wr_lhs rule) \<le> W n"
    using rule_match [OF inv sem n plain(1,2)] by blast
  show ?thesis
  proof (cases "wm_succeeded m")
    case False
    then show ?thesis using rewritten_refl [OF inv] m(1) True by (simp add: wrs_apply_rule_def)
  next
    case succ: True
    obtain p g' W' v' where a: "wilSubstitutionApply g (wm_substitution m) (wr_rhs rule) = Inr (p, g')"
        "extends kw sem nv g W v g' W' v'" "valid_ptr g' p"
        "ptr_val nv v' p = pat_val sem nv (subst_val nv v (wm_substitution m)) (wr_rhs rule)"
        "ptr_weight W' p = pat_weight kw (subst_weight W (wm_substitution m)) (wr_rhs rule)"
      using wrs_apply_plain(1) [OF inv m(2) extends_refl [OF inv] plain(3)] by (auto simp: wilSubstitutionApply_def)
    have better: "ptr_val nv v' p = v n" "ptr_weight W' p < W n"
      using r m(3,4) [OF succ] a(4,5) unfolding rule_decreases_def by (metis, metis order_less_le_trans)
    note e = extends_evolves [OF inv a(2)]
    have same: "W' n = W n" "v' n = v n" "n < length g'" using e n by (auto simp: evolves_def)
    have res: "wrs_apply_rule sys g rule (Some n) = Some (Inr (p, (case p of None \<Rightarrow> (sys, g')
          | Some r \<Rightarrow> (sys\<lparr>ws_stats := wrs_count_rewrite (ws_stats sys) (wr_stats_index rule)\<rparr>, wil_node_replace_all_uses g' n r))))"
      using m(1) True succ a(1) r by (simp add: wrs_apply_rule_def rule_decreases_def)
    show ?thesis
    proof (cases p)
      case None
      show ?thesis by (rule rewrittenI [OF res [unfolded None option.case] _ _ e]) simp_all
    next
      case (Some r)
      have r': "r < length g'" "W' r < W' n" "v' r = v' n" using Some a(3) better same by (simp_all add: valid_ptr_def)
      have e': "evolves kw sem nv g' W' v' (wil_node_replace_all_uses g' n r) W' v'"
        using replace_uses_evolves [OF evolves_inv [OF e] same(3) r'] .
      then have "r < length (wil_node_replace_all_uses g' n r)" using r'(1) by (simp add: evolves_def)
      then show ?thesis using Some better
        by (intro rewrittenI [OF res [unfolded Some option.case] _ _ evolves_trans [OF e e']]) simp_all
    qed
  qed
qed

section \<open>Traversal\<close>

lemma rewritten_after:
  assumes e: "evolves kw sem nv g W v h W' v'" and n: "n < length g"
    and sys: "ws_rules sys' = ws_rules sys" "ws_strategy sys' = ws_strategy sys"
    and res: "rewritten kw sem nv sys' h W' v' n res"
  shows "rewritten kw sem nv sys g W v n res"
proof -
  obtain q sys2 g2 W2 v2 where 2: "res = Some (Inr (q, sys2, g2))" "ws_rules sys2 = ws_rules sys'"
      "ws_strategy sys2 = ws_strategy sys'" "evolves kw sem nv h W' v' g2 W2 v2"
      "\<And>r. q = Some r \<Longrightarrow> r < length g2 \<and> v2 r = v' n \<and> W2 r < W' n"
    using res unfolding rewritten_def by blast
  have "W' n = W n" "v' n = v n" using e n by (simp_all add: evolves_def)
  then show ?thesis using sys 2(2,3,5) by (intro rewrittenI [OF 2(1) _ _ evolves_trans [OF e 2(4)]]) auto
qed

lemma rewritten_bind:
  assumes "rewritten kw sem nv sys g W v x m"
    and "\<And>p sys' g' W' v'. ws_rules sys' = ws_rules sys \<Longrightarrow> ws_strategy sys' = ws_strategy sys \<Longrightarrow>
      evolves kw sem nv g W v g' W' v' \<Longrightarrow> (\<And>r. p = Some r \<Longrightarrow> r < length g' \<and> v' r = v x \<and> W' r < W x) \<Longrightarrow>
      rewritten kw sem nv sys g W v n (f (p, sys', g'))"
  shows "rewritten kw sem nv sys g W v n (ubind m f)"
proof -
  obtain p sys1 g1 W1 v1 where 1: "m = Some (Inr (p, sys1, g1))" "ws_rules sys1 = ws_rules sys"
      "ws_strategy sys1 = ws_strategy sys" "evolves kw sem nv g W v g1 W1 v1"
      "\<And>r. p = Some r \<Longrightarrow> r < length g1 \<and> v1 r = v x \<and> W1 r < W x"
    using assms(1) unfolding rewritten_def by blast
  show ?thesis using assms(2) [OF 1(2-5)] 1(1) by simp
qed

lemma rewritten_answer:
  "wrs_inv kw sem nv g W v \<Longrightarrow> (\<And>r. p = Some r \<Longrightarrow> r < length g \<and> v r = v n \<and> W r < W n) \<Longrightarrow>
    rewritten kw sem nv sys g W v n (Some (Inr (p, sys, g)))"
  using evolves_refl by (intro rewrittenI [OF refl]) auto

lemma apply_first_rewritten:
  assumes sem: "sem_respects sem"
  shows "wrs_inv kw sem nv g W v \<Longrightarrow> n < length g \<Longrightarrow> wrs_rules_decrease kw sem nv rules \<Longrightarrow>
    rewritten kw sem nv sys g W v n (wrs_apply_first sys g rules (Some n))"
proof (induction rules arbitrary: sys g W v)
  case Nil
  then show ?case by (simp add: rewritten_refl)
next
  case (Cons rule rules)
  have r: "wr_enabled rule \<longrightarrow> rule_decreases kw sem nv rule" "wrs_rules_decrease kw sem nv rules"
    using Cons.prems(3) by (simp_all add: wrs_rules_decrease_def)
  show ?case
    unfolding wrs_apply_first.simps
  proof (rule rewritten_bind [OF apply_rule_rewritten [OF Cons.prems(1) sem Cons.prems(2) r(1)]])
    fix p and sys' :: WILRewriteSystem and g' W' v'
    assume sys: "ws_rules sys' = ws_rules sys" "ws_strategy sys' = ws_strategy sys"
      and e: "evolves kw sem nv g W v g' W' v'" and p: "\<And>r. p = Some r \<Longrightarrow> r < length g' \<and> v' r = v n \<and> W' r < W n"
    show "rewritten kw sem nv sys g W v n (case (p, sys', g') of (replacement, sys, g) \<Rightarrow>
        if replacement \<noteq> None then Some (Inr (replacement, sys, g)) else wrs_apply_first sys g rules (Some n))"
    proof (cases "p = None")
      case True
      have "n < length g'" using e Cons.prems(2) by (auto simp: evolves_def)
      from rewritten_after [OF e Cons.prems(2) sys Cons.IH [OF evolves_inv [OF e] this r(2)]] show ?thesis
        using True by simp
    next
      case False
      then show ?thesis by (intro rewrittenI [OF _ sys e p]) simp_all
    qed
  qed
qed

lemma input_lighter:
  assumes inv: "wrs_inv kw sem nv g W v" and n: "n < length g" and kw: "\<And>k. 0 < kw k"
    and i: "i < wil_node_input_count g (Some n)" and m: "wil_node_input g (Some n) i = Some m"
  shows "W m < W n" "m < length g"
proof -
  obtain kind payload ins where w: "node_view g n = (kind, payload, ins)" by (cases "node_view g n")
  have i': "i < length ins" "ins ! i = Some m" using i m w node_reads(2,3) [OF n] by simp_all
  then have "W m \<le> sum_list (map (ptr_weight W) ins)" using elem_le_sum_list [of i "map (ptr_weight W) ins"] by simp
  moreover have "kw kind + sum_list (map (ptr_weight W) ins) \<le> W n"
    using inv n w by (auto simp: wrs_inv_def wil_weights_def)
  ultimately show "W m < W n" using kw [of kind] by linarith
  show "m < length g" using view_linked [OF _ n, of "Some m"] inv i' w nth_mem
    by (fastforce simp: wrs_inv_def valid_ptr_def)
qed

lemma traverse_inputs:
  assumes kw: "\<And>k. 0 < kw k" and n: "n < length g" and inv: "wrs_inv kw sem nv g W v"
    and rules: "wrs_rules_decrease kw sem nv (ws_rules sys)"
    and IH: "\<And>sys g W' v m. wrs_inv kw sem nv g W' v \<Longrightarrow> m < length g \<Longrightarrow> wrs_rules_decrease kw sem nv (ws_rules sys) \<Longrightarrow>
      W' m < W n \<Longrightarrow> rewritten kw sem nv sys g W' v m (wrs_traverse (VisitNode (Some m)) (sys, g))"
  shows "rewritten kw sem nv sys g W v n (wrs_traverse (VisitInputs n i) (sys, g))"
  using n inv rules IH
proof (induction "wil_node_input_count g (Some n) - i" arbitrary: sys g W v i rule: less_induct)
  case less
  note n = less.prems(1) and inv = less.prems(2)
  show ?case
  proof (cases "i < wil_node_input_count g (Some n)")
    case False
    then show ?thesis using rewritten_refl [OF inv] by (subst wrs_traverse.simps) simp
  next
    case True
    show ?thesis
    proof (cases "wil_node_input g (Some n) i")
      case None
      have "wrs_traverse (VisitNode None) (sys, g) = Some (Inr (None, sys, g))" by (subst wrs_traverse.simps) simp
      then show ?thesis using True None less.hyps [OF _ n inv less.prems(3,4), of "Suc i"]
        by (subst wrs_traverse.simps) simp
    next
      case (Some m)
      have len: "i < length (view_inputs (node_view g n))" "view_inputs (node_view g n) ! i = Some m"
        using True Some node_reads(2,3) [OF n] by simp_all
      note light = input_lighter [OF inv n kw True Some]
      have "rewritten kw sem nv sys g W v n (ubind (wrs_traverse (VisitNode (Some m)) (sys, g)) (\<lambda>r.
          wrs_traverse (VisitInputs n (Suc i)) (case r of (replacement, sys, g) \<Rightarrow>
            (sys, if replacement = None then g else wil_node_replace_input g n i replacement))))"
      proof (rule rewritten_bind [OF less.prems(4) [OF inv light(2) less.prems(3) light(1)]])
        fix p and sys' :: WILRewriteSystem and g' W' v'
        assume sys: "ws_rules sys' = ws_rules sys" "ws_strategy sys' = ws_strategy sys"
          and e: "evolves kw sem nv g W v g' W' v'" and p: "\<And>r. p = Some r \<Longrightarrow> r < length g' \<and> v' r = v m \<and> W' r < W m"
        define h where "h = (if p = None then g' else wil_node_replace_input g' n i p)"
        have "better_input nv W v W' v' (view_inputs (node_view g n) ! i) (Some r)" if "p = Some r" for r
          using p [OF that] len(2) by (simp add: better_input_def)
        then have h: "evolves kw sem nv g W v h W' v'"
          using replace_input_evolves [OF inv e n _ len(1)] p e by (cases p) (simp_all add: h_def)
        have n': "n < length h" "W' n = W n" "wil_node_input_count h (Some n) = wil_node_input_count g (Some n)"
          using h n evolves_count [OF h n] by (simp_all add: evolves_def)
        have "rewritten kw sem nv sys' h W' v' n (wrs_traverse (VisitInputs n (Suc i)) (sys', h))"
          by (rule less.hyps) (use True n' evolves_inv [OF h] less.prems(3,4) sys in simp_all)
        from rewritten_after [OF h n sys this]
        show "rewritten kw sem nv sys g W v n (wrs_traverse (VisitInputs n (Suc i))
            (case (p, sys', g') of (replacement, sys, g) \<Rightarrow>
              (sys, if replacement = None then g else wil_node_replace_input g n i replacement)))"
          by (simp add: h_def)
      qed
      then show ?thesis using True Some by (subst wrs_traverse.simps) simp
    qed
  qed
qed

text \<open>What follows the inputs at an innermost visit, and comes first at the others.\<close>

lemma apply_then_inputs:
  assumes sem: "sem_respects sem" and inv: "wrs_inv kw sem nv g W v" and n: "n < length g"
    and rules: "wrs_rules_decrease kw sem nv (ws_rules sys)"
    and inputs: "\<And>sys' g' W' v'. evolves kw sem nv g W v g' W' v' \<Longrightarrow> ws_rules sys' = ws_rules sys \<Longrightarrow>
      rewritten kw sem nv sys' g' W' v' n (wrs_traverse (VisitInputs n 0) (sys', g'))"
  shows "rewritten kw sem nv sys g W v n (ubind (wilRewriteSystemApplyAt sys g (Some n)) (\<lambda>r.
      if fst r \<noteq> None then Some (Inr r)
      else if ws_strategy (fst (snd r)) \<noteq> WIL_STRATEGY_INNERMOST
      then wrs_traverse (VisitInputs n 0) (snd r) else Some (Inr r)))"
proof (rule rewritten_bind)
  show "rewritten kw sem nv sys g W v n (wilRewriteSystemApplyAt sys g (Some n))"
    using apply_first_rewritten [OF sem inv n rules] by (simp add: wilRewriteSystemApplyAt_def)
  fix p and sys' :: WILRewriteSystem and g' W' v'
  assume sys': "ws_rules sys' = ws_rules sys" "ws_strategy sys' = ws_strategy sys"
    and e: "evolves kw sem nv g W v g' W' v'" and p: "\<And>r. p = Some r \<Longrightarrow> r < length g' \<and> v' r = v n \<and> W' r < W n"
  have "rewritten kw sem nv sys g W v n (Some (Inr (p, sys', g')))" by (rule rewrittenI [OF refl sys' e p])
  moreover have "rewritten kw sem nv sys g W v n (wrs_traverse (VisitInputs n 0) (sys', g'))"
    by (rule rewritten_after [OF e n sys' inputs [OF e sys'(1)]])
  ultimately show "rewritten kw sem nv sys g W v n (if fst (p, sys', g') \<noteq> None then Some (Inr (p, sys', g'))
      else if ws_strategy (fst (snd (p, sys', g'))) \<noteq> WIL_STRATEGY_INNERMOST
      then wrs_traverse (VisitInputs n 0) (snd (p, sys', g')) else Some (Inr (p, sys', g')))" by auto
qed

lemma traverse_rewritten:
  assumes kw: "\<And>k. 0 < kw k" and sem: "sem_respects sem"
  shows "wrs_inv kw sem nv g W v \<Longrightarrow> n < length g \<Longrightarrow> wrs_rules_decrease kw sem nv (ws_rules sys) \<Longrightarrow>
    rewritten kw sem nv sys g W v n (wrs_traverse (VisitNode (Some n)) (sys, g))"
proof (induction "W n" arbitrary: sys g W v n rule: less_induct)
  case less
  note inv = less.prems(1) and n = less.prems(2) and rules = less.prems(3)
  have inputs: "rewritten kw sem nv sys' g' W' v' n (wrs_traverse (VisitInputs n 0) (sys', g'))"
    if e: "evolves kw sem nv g W v g' W' v'" and sys: "ws_rules sys' = ws_rules sys" for sys' :: WILRewriteSystem and g' W' v'
  proof (rule traverse_inputs [OF kw])
    show "n < length g'" using evolves_count [OF e n] by simp
    show "wrs_inv kw sem nv g' W' v'" by (rule evolves_inv [OF e])
    show "wrs_rules_decrease kw sem nv (ws_rules sys')" using sys rules by simp
    fix sys2 :: WILRewriteSystem and g2 W2 v2 m
    assume "wrs_inv kw sem nv g2 W2 v2" "m < length g2" "wrs_rules_decrease kw sem nv (ws_rules sys2)" "W2 m < W' n"
    moreover have "W' n = W n" using e n by (simp add: evolves_def)
    ultimately show "rewritten kw sem nv sys2 g2 W2 v2 m (wrs_traverse (VisitNode (Some m)) (sys2, g2))"
      using less.hyps [of W2 m g2 v2 sys2] by simp
  qed
  have "rewritten kw sem nv sys g W v n (ubind (if ws_strategy sys = WIL_STRATEGY_INNERMOST
      then wrs_traverse (VisitInputs n 0) (sys, g) else Some (Inr (None, sys, g)))
    (\<lambda>r. ubind (wilRewriteSystemApplyAt (fst (snd r)) (snd (snd r)) (Some n)) (\<lambda>r.
           if fst r \<noteq> None then Some (Inr r)
           else if ws_strategy (fst (snd r)) \<noteq> WIL_STRATEGY_INNERMOST
           then wrs_traverse (VisitInputs n 0) (snd r) else Some (Inr r))))"
  proof (rule rewritten_bind)
    show "rewritten kw sem nv sys g W v n (if ws_strategy sys = WIL_STRATEGY_INNERMOST
        then wrs_traverse (VisitInputs n 0) (sys, g) else Some (Inr (None, sys, g)))"
      using inputs [OF evolves_refl [OF inv] refl] rewritten_refl [OF inv] by simp
    fix p and sys1 :: WILRewriteSystem and g1 W1 v1
    assume sys1: "ws_rules sys1 = ws_rules sys" "ws_strategy sys1 = ws_strategy sys" and e1: "evolves kw sem nv g W v g1 W1 v1"
    have "n < length g1" using evolves_count [OF e1 n] by simp
    then have "rewritten kw sem nv sys1 g1 W1 v1 n (ubind (wilRewriteSystemApplyAt sys1 g1 (Some n)) (\<lambda>r.
           if fst r \<noteq> None then Some (Inr r)
           else if ws_strategy (fst (snd r)) \<noteq> WIL_STRATEGY_INNERMOST
           then wrs_traverse (VisitInputs n 0) (snd r) else Some (Inr r)))"
      using apply_then_inputs [OF sem evolves_inv [OF e1]] inputs evolves_trans [OF e1] sys1(1) rules by simp
    from rewritten_after [OF e1 n sys1 this]
    show "rewritten kw sem nv sys g W v n (ubind (wilRewriteSystemApplyAt (fst (snd (p, sys1, g1))) (snd (snd (p, sys1, g1))) (Some n))
        (\<lambda>r. if fst r \<noteq> None then Some (Inr r)
           else if ws_strategy (fst (snd r)) \<noteq> WIL_STRATEGY_INNERMOST
           then wrs_traverse (VisitInputs n 0) (snd r) else Some (Inr r)))" by simp
  qed
  then show ?case by (subst wrs_traverse.simps) simp
qed

lemmas rewrittenD = rewritten_def [THEN iffD1]

text \<open>
  C9. Rewriting returns and keeps values. In a well-formed graph whose values are given by the
  kinds, payloads and inputs of the nodes, and whose nodes have a finite unfolding, a traversal
  with rules that keep values and make nodes lighter returns, under every strategy and without
  undefined behaviour. The graph is well-formed again, no node that existed has changed its
  value, and the replacement of the root has the value of the root.
\<close>

theorem wrs_apply_recursive_sound:
  fixes sem :: "WILNodeKind \<Rightarrow> u64 \<Rightarrow> 'v list \<Rightarrow> 'v"
  assumes "\<And>k. 0 < kw k" and "sem_respects sem" and "wrs_rules_decrease kw sem nv (ws_rules sys)"
    and "wil_linked g" "wil_weights kw g W" "wil_values sem nv g v" and "n < length g"
  shows "\<exists>p sys' g' v'. wrs_apply_recursive sys g (Some n) = Some (Inr (p, sys', g'))
     \<and> ws_rules sys' = ws_rules sys \<and> wil_linked g' \<and> length g \<le> length g'
     \<and> wil_values sem nv g' v' \<and> (\<forall>k<length g. v' k = v k)
     \<and> (p = None \<or> valid_ptr g' p \<and> ptr_val nv v' p = v n)"
proof -
  have "wrs_inv kw sem nv g W v" using assms(4-6) by (simp add: wrs_inv_def)
  from traverse_rewritten [OF assms(1,2) this assms(7,3)] obtain p sys' g' W' v' where
    r: "wrs_traverse (VisitNode (Some n)) (sys, g) = Some (Inr (p, sys', g'))" "ws_rules sys' = ws_rules sys"
      "evolves kw sem nv g W v g' W' v'" "\<forall>r. p = Some r \<longrightarrow> r < length g' \<and> v' r = v n \<and> W' r < W n"
    by (blast dest!: rewrittenD)
  then show ?thesis
    by (intro exI [of _ p] exI [of _ sys'] exI [of _ g'] exI [of _ v'], cases p)
      (simp_all add: wrs_apply_recursive_def evolves_def wrs_inv_def valid_ptr_def)
qed

text \<open>The loop of the fixpoint: each replacement is lighter than the node before.\<close>

lemma fixpoint_stable:
  assumes kw: "\<And>k. 0 < kw k" and sem: "sem_respects sem"
  shows "wrs_inv kw sem nv g W v \<Longrightarrow> n < length g \<Longrightarrow> wrs_rules_decrease kw sem nv (ws_rules sys) \<Longrightarrow>
    \<exists>sys' g' W' v'. evolves kw sem nv g W v g' W' v' \<and> (\<forall>k > W n.
      wilRewriteSystemApplyToFixpoint sys g (Some n) k = Some (Inr (sys', g')))"
proof (induction "W n" arbitrary: sys g W v n rule: less_induct)
  case less
  define start where "start = sys\<lparr>ws_stats := (ws_stats sys)\<lparr>iterations := iterations (ws_stats sys) + 1\<rparr>\<rparr>"
  have "wrs_rules_decrease kw sem nv (ws_rules start)" using less.prems(3) by (simp add: start_def)
  from traverse_rewritten [OF kw sem less.prems(1,2) this] obtain p sys1 g1 W1 v1 where
    r: "wrs_apply_recursive start g (Some n) = Some (Inr (p, sys1, g1))" "ws_rules sys1 = ws_rules sys"
      "evolves kw sem nv g W v g1 W1 v1" "\<forall>r. p = Some r \<longrightarrow> r < length g1 \<and> v1 r = v n \<and> W1 r < W n"
    unfolding wrs_apply_recursive_def start_def by (fastforce dest!: rewrittenD)
  have step: "wilRewriteSystemApplyToFixpoint sys g (Some n) (Suc k) =
      (if p = None then Some (Inr (sys1\<lparr>ws_stats := (ws_stats sys1)\<lparr>normalFormsReached := normalFormsReached (ws_stats sys1) + 1\<rparr>\<rparr>, g1))
       else wilRewriteSystemApplyToFixpoint sys1 g1 p k)" for k
    using r(1) by (simp add: start_def)
  show ?case
  proof (cases p)
    case None
    then have "wilRewriteSystemApplyToFixpoint sys g (Some n) k =
        Some (Inr (sys1\<lparr>ws_stats := (ws_stats sys1)\<lparr>normalFormsReached := normalFormsReached (ws_stats sys1) + 1\<rparr>\<rparr>, g1))"
      if "W n < k" for k using step that by (cases k) auto
    then show ?thesis using r(3) by blast
  next
    case (Some m)
    have "wrs_rules_decrease kw sem nv (ws_rules sys1)" using r(2) less.prems(3) by simp
    then obtain sys2 g2 W2 v2 where 2: "evolves kw sem nv g1 W1 v1 g2 W2 v2"
        "\<And>k. W1 m < k \<Longrightarrow> wilRewriteSystemApplyToFixpoint sys1 g1 (Some m) k = Some (Inr (sys2, g2))"
      using less.hyps [OF _ evolves_inv [OF r(3)]] r(4) Some by blast
    have "wilRewriteSystemApplyToFixpoint sys g (Some n) k = Some (Inr (sys2, g2))" if "W n < k" for k
      using step 2(2) [of "k - 1"] that r(4) Some by (cases k) auto
    then show ?thesis using evolves_trans [OF r(3) 2(1)] by blast
  qed
qed


end
