(* ===== verification/Equinox_Union_Find.thy ===== *)
theory Equinox_Union_Find
  imports Equinox
begin

text \<open>
  Correctness of the union-find structure of the e-graph: finding returns the representative
  and keeps the partition while it shortens paths, merging joins exactly two classes, and the
  counter counts the classes. The clients use it through the locale \<open>disjoint_sets\<close>.
\<close>

section \<open>The interface\<close>

text \<open>What a client relies on: \<open>find\<close> returns and answers with a stable representative.\<close>

locale disjoint_sets =
  fixes ok :: "'u \<Rightarrow> bool"
    and elems :: "'u \<Rightarrow> nat"
    and rep :: "'u \<Rightarrow> nat \<Rightarrow> nat"
    and find :: "'u \<Rightarrow> nat \<Rightarrow> (nat \<times> 'u) option"
  assumes find_returns: "ok u \<Longrightarrow> i < elems u \<Longrightarrow>
      \<exists>u'. find u i = Some (rep u i, u') \<and> ok u' \<and> elems u' = elems u
        \<and> (\<forall>j<elems u. rep u' j = rep u j)"
    and rep_less: "ok u \<Longrightarrow> i < elems u \<Longrightarrow> rep u i < elems u"
    and rep_rep: "ok u \<Longrightarrow> i < elems u \<Longrightarrow> rep u (rep u i) = rep u i"
begin

text \<open>Replacing the elements of a list by their representatives.\<close>

lemma canonical_returns:
  assumes "ok u" and "\<forall>c\<in>set children. c < elems u"
  shows "\<exists>u'. loop (\<lambda>(cs, u) c. do { (r, u) \<leftarrow> find u c; Some (cs @ [r], u) }) (cs, u) children
           = Some (cs @ map (rep u) children, u') \<and> ok u' \<and> elems u' = elems u
           \<and> (\<forall>j<elems u. rep u' j = rep u j)"
  using assms
proof (induction children arbitrary: cs u)
  case (Cons c children)
  obtain u1 where u1: "find u c = Some (rep u c, u1)" "ok u1" "elems u1 = elems u"
      "\<forall>j<elems u. rep u1 j = rep u j"
    using find_returns [of u c] Cons.prems by auto
  obtain u2 where u2: "loop (\<lambda>(cs, u) c. do { (r, u) \<leftarrow> find u c; Some (cs @ [r], u) })
        (cs @ [rep u c], u1) children = Some ((cs @ [rep u c]) @ map (rep u1) children, u2)"
      "ok u2" "elems u2 = elems u1" "\<forall>j<elems u1. rep u2 j = rep u1 j"
    using Cons.IH [of u1 "cs @ [rep u c]"] Cons.prems(2) u1 by auto
  have "map (rep u1) children = map (rep u) children" using u1(4) Cons.prems(2) by simp
  then show ?case using u1 u2 by simp
qed simp

text \<open>Two finds in a row compare the representatives of one partition.\<close>

lemma finds_compare:
  assumes "ok u" "i < elems u" "j < elems u"
  shows "\<exists>u'. do { (r1, u) \<leftarrow> find u i; (r2, u) \<leftarrow> find u j; Some (f r1 r2 u) } = Some (f (rep u i) (rep u j) u')
     \<and> ok u' \<and> elems u' = elems u \<and> (\<forall>k<elems u. rep u' k = rep u k)"
proof -
  obtain u1 where u1: "find u i = Some (rep u i, u1)" "ok u1" "elems u1 = elems u"
      "\<forall>k<elems u. rep u1 k = rep u k" using find_returns [OF assms(1,2)] by auto
  obtain u2 where "find u1 j = Some (rep u1 j, u2)" "ok u2" "elems u2 = elems u1"
      "\<forall>k<elems u1. rep u2 k = rep u1 k" using find_returns [of u1 j] u1 assms(3) by auto
  with u1 assms(3) show ?thesis by auto
qed

end

section \<open>The array of parents\<close>

definition uf_ok :: "unionfind \<Rightarrow> bool" where
  "uf_ok uf \<longleftrightarrow> length (uf_rank uf) = eqx_unionfind_size uf
     \<and> (\<forall>i<eqx_unionfind_size uf. uf_parent uf ! i < eqx_unionfind_size uf
          \<and> (uf_parent uf ! i \<noteq> i \<longrightarrow> uf_rank uf ! i < uf_rank uf ! (uf_parent uf ! i)))
     \<and> uf_set_count uf = card {i. i < eqx_unionfind_size uf \<and> uf_parent uf ! i = i}"

text \<open>Ranks grow along parents, so as many steps as the largest rank reach the root.\<close>

definition uf_height :: "unionfind \<Rightarrow> nat" where
  "uf_height uf = fold max (uf_rank uf) 0"

definition uf_rep :: "unionfind \<Rightarrow> nat \<Rightarrow> nat" where
  "uf_rep uf i = ((\<lambda>j. uf_parent uf ! j) ^^ uf_height uf) i"

lemma fold_max_ge: "m \<le> fold max xs m \<and> (\<forall>x\<in>set xs. x \<le> fold max xs (m::nat))"
proof (induction xs arbitrary: m)
  case (Cons x xs)
  show ?case using Cons.IH [of "max x m"] by (auto simp: max.commute)
qed simp

lemma uf_rank_le_height: "uf_ok uf \<Longrightarrow> i < eqx_unionfind_size uf \<Longrightarrow> uf_rank uf ! i \<le> uf_height uf"
  unfolding uf_height_def using fold_max_ge [where xs = "uf_rank uf" and m = 0]
  by (auto simp: uf_ok_def)

lemma uf_okD:
  assumes "uf_ok uf" "i < eqx_unionfind_size uf"
  shows "uf_parent uf ! i < eqx_unionfind_size uf"
    and "uf_parent uf ! i \<noteq> i \<Longrightarrow> uf_rank uf ! i < uf_rank uf ! (uf_parent uf ! i)"
  using assms by (auto simp: uf_ok_def)

text \<open>Induction towards the root.\<close>

lemma uf_induct [consumes 2, case_names root step]:
  assumes ok: "uf_ok uf" and i: "i < eqx_unionfind_size uf"
    and root: "\<And>i. i < eqx_unionfind_size uf \<Longrightarrow> uf_parent uf ! i = i \<Longrightarrow> P i"
    and step: "\<And>i. i < eqx_unionfind_size uf \<Longrightarrow> uf_parent uf ! i \<noteq> i \<Longrightarrow> P (uf_parent uf ! i) \<Longrightarrow> P i"
  shows "P i"
  using i
proof (induction "uf_height uf - uf_rank uf ! i" arbitrary: i rule: less_induct)
  case less
  show ?case
  proof (cases "uf_parent uf ! i = i")
    case False
    note p = uf_okD [OF ok less.prems]
    have "P (uf_parent uf ! i)"
      using less.hyps [OF _ p(1)] p(2) [OF False] uf_rank_le_height [OF ok p(1)] by simp
    then show ?thesis using step less.prems False by blast
  qed (simp add: root less.prems)
qed

lemma funpow_fixed: "f x = x \<Longrightarrow> (f ^^ n) x = x"
  by (induction n) simp_all

text \<open>After enough steps the walk stands on a root, and it got there along parents.\<close>

lemma uf_rep_walk:
  assumes ok: "uf_ok uf" and i: "i < eqx_unionfind_size uf"
  defines "p \<equiv> \<lambda>j. uf_parent uf ! j"
  shows "p (uf_rep uf i) = uf_rep uf i \<and> uf_rep uf i < eqx_unionfind_size uf"
proof -
  have walk: "(p ^^ k) i < eqx_unionfind_size uf
      \<and> (p ((p ^^ k) i) = (p ^^ k) i \<or> k \<le> uf_rank uf ! ((p ^^ k) i))" for k
  proof (induction k)
    case (Suc k)
    note d = uf_okD [OF ok, of "(p ^^ k) i", folded p_def]
    show ?case
    proof (cases "p ((p ^^ k) i) = (p ^^ k) i")
      case False
      then show ?thesis using Suc d by fastforce
    qed (use Suc in simp)
  qed (simp add: i)
  let ?r = "(p ^^ uf_height uf) i"
  have "p ?r = ?r"
  proof (rule ccontr)
    assume "p ?r \<noteq> ?r"
    then have "uf_height uf < uf_rank uf ! p ?r" "p ?r < eqx_unionfind_size uf"
      using walk [of "uf_height uf"] uf_okD [OF ok, of ?r, folded p_def] by auto
    then show False using uf_rank_le_height [OF ok, of "p ?r"] by simp
  qed
  then show ?thesis using walk [of "uf_height uf"] by (simp add: uf_rep_def p_def)
qed

lemma uf_rep_root: "uf_parent uf ! i = i \<Longrightarrow> uf_rep uf i = i"
  by (simp add: uf_rep_def funpow_fixed)

lemma uf_rep_parent:
  assumes "uf_ok uf" "i < eqx_unionfind_size uf"
  shows "uf_rep uf (uf_parent uf ! i) = uf_rep uf i"
proof -
  have "uf_rep uf (uf_parent uf ! i) = uf_parent uf ! uf_rep uf i"
    unfolding uf_rep_def by (simp add: funpow_swap1)
  then show ?thesis using uf_rep_walk [OF assms] by simp
qed

lemma uf_rep_fixed: "uf_ok uf \<Longrightarrow> i < eqx_unionfind_size uf \<Longrightarrow> uf_parent uf ! uf_rep uf i = uf_rep uf i"
  and uf_rep_less: "uf_ok uf \<Longrightarrow> i < eqx_unionfind_size uf \<Longrightarrow> uf_rep uf i < eqx_unionfind_size uf"
  using uf_rep_walk by auto

lemma uf_rep_rep: "uf_ok uf \<Longrightarrow> i < eqx_unionfind_size uf \<Longrightarrow> uf_rep uf (uf_rep uf i) = uf_rep uf i"
  by (simp add: uf_rep_root uf_rep_fixed)

lemma uf_rep_rank:
  assumes "uf_ok uf" "i < eqx_unionfind_size uf" "uf_parent uf ! i \<noteq> i"
  shows "uf_rank uf ! i < uf_rank uf ! uf_rep uf i"
  using assms
proof (induction rule: uf_induct)
  case (step i)
  have "uf_rank uf ! i < uf_rank uf ! (uf_parent uf ! i)" using uf_okD assms(1) step by blast
  also have "\<dots> \<le> uf_rank uf ! uf_rep uf i"
    using step uf_rep_root [of uf "uf_parent uf ! i"] uf_rep_parent [OF assms(1) step(1)]
    by (cases "uf_parent uf ! (uf_parent uf ! i) = uf_parent uf ! i") auto
  finally show ?case .
qed simp

section \<open>Finding\<close>

text \<open>
  An update of one parent that keeps ranks growing: by induction towards the root, every
  representative is preserved when the new parent has the old representative.
\<close>

lemma uf_ok_update:
  assumes ok: "uf_ok uf" and i: "i < eqx_unionfind_size uf" and r: "r < eqx_unionfind_size uf"
    and rank: "uf_parent uf ! i \<noteq> i" "r \<noteq> i" "uf_rank uf ! i < uf_rank uf ! r"
  shows "uf_ok (uf\<lparr>uf_parent := (uf_parent uf)[i := r]\<rparr>)"
proof -
  have "{k. k < eqx_unionfind_size uf \<and> (uf_parent uf)[i := r] ! k = k}
      = {k. k < eqx_unionfind_size uf \<and> uf_parent uf ! k = k}"
    using rank i by (auto simp: nth_list_update eqx_unionfind_size_def split: if_splits)
  then show ?thesis using assms
    by (auto simp: uf_ok_def nth_list_update eqx_unionfind_size_def)
qed

lemma uf_compress_rep:
  assumes ok: "uf_ok uf" and i: "i < eqx_unionfind_size uf" "uf_parent uf ! i \<noteq> i"
  defines "uf' \<equiv> uf\<lparr>uf_parent := (uf_parent uf)[i := uf_rep uf i]\<rparr>"
  shows "uf_ok uf'" and "j < eqx_unionfind_size uf \<Longrightarrow> uf_rep uf' j = uf_rep uf j"
proof -
  note rk = uf_rep_rank [OF ok i]
  have ne: "uf_rep uf i \<noteq> i" using rk by auto
  show ok': "uf_ok uf'"
    unfolding uf'_def by (rule uf_ok_update [OF ok i(1) uf_rep_less [OF ok i(1)] i(2) ne rk])
  have size: "eqx_unionfind_size uf' = eqx_unionfind_size uf" by (simp add: uf'_def eqx_unionfind_size_def)
  show "uf_rep uf' j = uf_rep uf j" if "j < eqx_unionfind_size uf"
    using ok that
  proof (induction rule: uf_induct)
    case (root j)
    then have "uf_parent uf' ! j = j" using i(2) by (cases "j = i") (simp_all add: uf'_def)
    then show ?case using root by (simp add: uf_rep_root)
  next
    case (step j)
    show ?case
    proof (cases "j = i")
      case True
      have "uf_parent uf' ! j = uf_rep uf i"
        using True i(1) by (simp add: uf'_def eqx_unionfind_size_def)
      moreover have "uf_parent uf' ! uf_rep uf i = uf_rep uf i"
        using ne uf_rep_fixed [OF ok i(1)] by (simp add: uf'_def)
      ultimately show ?thesis
        using uf_rep_parent [OF ok', of j] uf_rep_root [of uf' "uf_rep uf i"] step(1) size True by simp
    next
      case False
      then have "uf_parent uf' ! j = uf_parent uf ! j" by (simp add: uf'_def)
      then show ?thesis
        using uf_rep_parent [OF ok', of j] uf_rep_parent [OF ok, of j] step size by simp
    qed
  qed
qed

text \<open>The relation between a structure and one whose paths have been shortened.\<close>

definition uf_same_partition :: "unionfind \<Rightarrow> unionfind \<Rightarrow> bool" where
  "uf_same_partition uf uf' \<longleftrightarrow> uf_ok uf' \<and> eqx_unionfind_size uf' = eqx_unionfind_size uf
     \<and> uf_rank uf' = uf_rank uf \<and> uf_set_count uf' = uf_set_count uf
     \<and> (\<forall>j<eqx_unionfind_size uf. uf_rep uf' j = uf_rep uf j)"

lemma eqx_find_below: "\<not> eqx_unionfind_size uf \<le> i \<Longrightarrow> uf_parent uf ! i \<noteq> i \<Longrightarrow>
    eqx_unionfind_find uf i = Option.bind (eqx_unionfind_find uf (uf_parent uf ! i))
          (\<lambda>p. Some (fst p, (snd p)\<lparr>uf_parent := (uf_parent (snd p))[i := fst p]\<rparr>))"
  by (subst eqx_unionfind_find.simps) simp

lemma eqx_find_root: "i < eqx_unionfind_size uf \<Longrightarrow> uf_parent uf ! i = i \<Longrightarrow> eqx_unionfind_find uf i = Some (i, uf)"
  by (subst eqx_unionfind_find.simps) simp

lemma eqx_find_out: "eqx_unionfind_size uf \<le> i \<Longrightarrow> eqx_unionfind_find uf i = Some (EQX_ECLASS_ID_INVALID, uf)"
  by (subst eqx_unionfind_find.simps) simp

text \<open>
  Finding returns the representative. The path above the argument has been compressed when
  its own parent is set, which is why the induction also says that the node is unchanged.
\<close>

lemma eqx_find_correct:
  assumes "uf_ok uf" "i < eqx_unionfind_size uf"
  shows "\<exists>uf'. eqx_unionfind_find uf i = Some (uf_rep uf i, uf') \<and> uf_same_partition uf uf'
     \<and> (\<forall>j<eqx_unionfind_size uf. uf_rank uf ! j < uf_rank uf ! i \<longrightarrow> uf_parent uf' ! j = uf_parent uf ! j)"
  using assms
proof (induction rule: uf_induct)
  case (root i)
  then show ?case
    using assms(1) by (auto simp: eqx_find_root uf_rep_root uf_same_partition_def)
next
  case (step i)
  let ?p = "uf_parent uf ! i"
  note d = uf_okD [OF assms(1) step(1)]
  obtain uf1 where uf1: "eqx_unionfind_find uf ?p = Some (uf_rep uf ?p, uf1)" "uf_same_partition uf uf1"
      "\<forall>j<eqx_unionfind_size uf. uf_rank uf ! j < uf_rank uf ! ?p \<longrightarrow> uf_parent uf1 ! j = uf_parent uf ! j"
    using step.IH by auto
  have i1: "uf_ok uf1" "i < eqx_unionfind_size uf1" "uf_parent uf1 ! i = ?p" "uf_rep uf1 i = uf_rep uf i"
    using uf1(2,3) step(1) d(2) [OF step(2)] by (auto simp: uf_same_partition_def)
  have rep: "uf_rep uf ?p = uf_rep uf i" by (rule uf_rep_parent [OF assms(1) step(1)])
  define uf' where "uf' = uf1\<lparr>uf_parent := (uf_parent uf1)[i := uf_rep uf1 i]\<rparr>"
  note c = uf_compress_rep [OF i1(1,2), unfolded i1(3), OF step(2), folded uf'_def]
  have "eqx_unionfind_find uf i = Some (uf_rep uf i, uf')"
    using step(1,2) uf1(1) by (simp add: eqx_find_below rep uf'_def i1(4))
  moreover have "uf_same_partition uf uf'"
    using c uf1(2) by (auto simp: uf_same_partition_def uf'_def eqx_unionfind_size_def)
  moreover have "uf_parent uf' ! j = uf_parent uf ! j"
    if "j < eqx_unionfind_size uf" "uf_rank uf ! j < uf_rank uf ! i" for j
    using that uf1(3) d(2) [OF step(2)] by (cases "j = i") (auto simp: uf'_def)
  ultimately show ?case by blast
qed

text \<open>The contract of the structure, from which the clients' facts follow.\<close>

interpretation eqx_sets: disjoint_sets uf_ok eqx_unionfind_size uf_rep eqx_unionfind_find
proof
  show "\<exists>u'. eqx_unionfind_find u i = Some (uf_rep u i, u') \<and> uf_ok u'
      \<and> eqx_unionfind_size u' = eqx_unionfind_size u \<and> (\<forall>j<eqx_unionfind_size u. uf_rep u' j = uf_rep u j)"
    if "uf_ok u" "i < eqx_unionfind_size u" for u i
    using eqx_find_correct [OF that] by (auto simp: uf_same_partition_def)
qed (simp_all add: uf_rep_less uf_rep_rep)

section \<open>Merging\<close>

text \<open>The partition as an equivalence relation, and the least one that also relates two elements.\<close>

definition uf_relation :: "unionfind \<Rightarrow> (nat \<times> nat) set" where
  "uf_relation uf = {(x, y). x < eqx_unionfind_size uf \<and> y < eqx_unionfind_size uf \<and> uf_rep uf x = uf_rep uf y}"

definition join_classes :: "(nat \<times> nat) set \<Rightarrow> nat \<Rightarrow> nat \<Rightarrow> (nat \<times> nat) set" where
  "join_classes R i j = R \<union> {(x, y). (x, i) \<in> R \<and> (j, y) \<in> R} \<union> {(x, y). (x, j) \<in> R \<and> (i, y) \<in> R}"

text \<open>Hanging one root below another one.\<close>

definition uf_link :: "unionfind \<Rightarrow> nat \<Rightarrow> nat \<Rightarrow> nat list \<Rightarrow> unionfind" where
  "uf_link uf a b rank = uf\<lparr>uf_parent := (uf_parent uf)[a := b], uf_rank := rank, uf_set_count := uf_set_count uf - 1\<rparr>"

lemma uf_link_size [simp]: "eqx_unionfind_size (uf_link uf a b rank) = eqx_unionfind_size uf"
  by (simp add: uf_link_def eqx_unionfind_size_def)

lemma uf_link_parent:
  "a < eqx_unionfind_size uf \<Longrightarrow> uf_parent (uf_link uf a b rank) ! k = (if k = a then b else uf_parent uf ! k)"
  by (simp add: uf_link_def eqx_unionfind_size_def)

lemma uf_link_folds:
  "uf\<lparr>uf_parent := (uf_parent uf)[a := b], uf_set_count := uf_set_count uf - 1\<rparr> = uf_link uf a b (uf_rank uf)"
  "uf\<lparr>uf_parent := (uf_parent uf)[a := b], uf_set_count := uf_set_count uf - Suc 0\<rparr> = uf_link uf a b (uf_rank uf)"
  "uf\<lparr>uf_parent := (uf_parent uf)[a := b], uf_rank := rank, uf_set_count := uf_set_count uf - 1\<rparr> = uf_link uf a b rank"
  "uf\<lparr>uf_parent := (uf_parent uf)[a := b], uf_rank := rank, uf_set_count := uf_set_count uf - Suc 0\<rparr> = uf_link uf a b rank"
  by (simp_all add: uf_link_def)

lemma uf_link_ok:
  assumes ok: "uf_ok uf" and a: "a < eqx_unionfind_size uf" "uf_parent uf ! a = a"
    and b: "b < eqx_unionfind_size uf" "a \<noteq> b"
    and len: "length rank = eqx_unionfind_size uf" and ab: "rank ! a < rank ! b"
    and grow: "\<And>k. k < eqx_unionfind_size uf \<Longrightarrow> uf_parent uf ! k \<noteq> k \<Longrightarrow> rank ! k < rank ! (uf_parent uf ! k)"
  shows "uf_ok (uf_link uf a b rank)"
proof -
  let ?roots = "{k. k < eqx_unionfind_size uf \<and> uf_parent uf ! k = k}"
  have "{k. k < eqx_unionfind_size uf \<and> (if k = a then b else uf_parent uf ! k) = k} = ?roots - {a}"
    using a b by auto
  moreover have "card (?roots - {a}) = card ?roots - 1" using a by (subst card_Diff_singleton) auto
  moreover have "uf_set_count (uf_link uf a b rank) = card ?roots - 1"
    using ok by (simp add: uf_ok_def uf_link_def)
  moreover have "uf_rank (uf_link uf a b rank) = rank" by (simp add: uf_link_def)
  ultimately show ?thesis
    using len ab grow b(1) uf_okD(1) [OF ok] by (simp add: uf_ok_def uf_link_parent [OF a(1)])
qed

lemma uf_link_rep:
  assumes ok: "uf_ok uf" "uf_ok (uf_link uf a b rank)"
    and a: "a < eqx_unionfind_size uf" "uf_parent uf ! a = a"
    and b: "b < eqx_unionfind_size uf" "uf_parent uf ! b = b" "a \<noteq> b"
    and k: "k < eqx_unionfind_size uf"
  shows "uf_rep (uf_link uf a b rank) k = (if uf_rep uf k = a then b else uf_rep uf k)"
  using ok(1) k
proof (induction rule: uf_induct)
  case (root k)
  have "uf_rep (uf_link uf a b rank) b = b"
    using b by (simp add: uf_rep_root uf_link_parent [OF a(1)])
  then have "uf_rep (uf_link uf a b rank) a = b"
    using uf_rep_parent [OF ok(2), of a] a(1) by (simp add: uf_link_parent)
  then show ?case
    using root by (cases "k = a") (simp_all add: uf_rep_root uf_link_parent [OF a(1)])
next
  case (step k)
  then have "k \<noteq> a" using a(2) by auto
  then have "uf_parent (uf_link uf a b rank) ! k = uf_parent uf ! k" by (simp add: uf_link_parent a(1))
  then have "uf_rep (uf_link uf a b rank) k = uf_rep (uf_link uf a b rank) (uf_parent uf ! k)"
    using uf_rep_parent [OF ok(2), of k] step(1) by simp
  then show ?case using step.IH uf_rep_parent [OF ok(1) step(1)] by simp
qed

lemma relabel_join:
  assumes f': "\<And>x. x < n \<Longrightarrow> f' x = (if f x = a then b else f x)"
    and ij: "i < n" "j < n" and reps: "{a, b} = {f i, f j}"
  shows "{(x, y). x < n \<and> y < n \<and> f' x = f' y} = join_classes {(x, y). x < n \<and> y < n \<and> f x = f y} i (j::nat)"
proof -
  have "f' x = f' y \<longleftrightarrow> f x = f y \<or> f x = f i \<and> f j = f y \<or> f x = f j \<and> f i = f y"
    if "x < n" "y < n" for x y
  proof -
    from reps consider "a = f i" "b = f j" | "a = f j" "b = f i" by (auto simp: doubleton_eq_iff)
    then show ?thesis
    proof cases
      case 1
      show ?thesis unfolding f' [OF that(1)] f' [OF that(2)] 1 by auto
    next
      case 2
      show ?thesis unfolding f' [OF that(1)] f' [OF that(2)] 2 by auto
    qed
  qed
  then show ?thesis using ij by (auto simp: join_classes_def)
qed

lemma uf_link_relation:
  assumes "uf_ok uf" "uf_ok (uf_link uf a b rank)" "a \<noteq> b"
    and i: "i < eqx_unionfind_size uf" and j: "j < eqx_unionfind_size uf"
    and reps: "{a, b} = {uf_rep uf i, uf_rep uf j}"
  shows "uf_relation (uf_link uf a b rank) = join_classes (uf_relation uf) i j"
proof -
  have "a \<in> {uf_rep uf i, uf_rep uf j}" "b \<in> {uf_rep uf i, uf_rep uf j}" using reps by auto
  then have ab: "a < eqx_unionfind_size uf" "b < eqx_unionfind_size uf" "uf_parent uf ! a = a" "uf_parent uf ! b = b"
    using uf_rep_less [OF assms(1)] uf_rep_fixed [OF assms(1)] i j by auto
  show ?thesis
    unfolding uf_relation_def uf_link_size using i j reps uf_link_rep [OF assms(1,2) ab(1,3,2,4) assms(3)]
    by (intro relabel_join [where f' = "uf_rep (uf_link uf a b rank)" and a = a and b = b]) blast+
qed

lemma uf_link_reps:
  assumes "uf_ok uf" "uf_ok (uf_link uf x r rank)" "x \<noteq> r"
    and i: "i < eqx_unionfind_size uf" and j: "j < eqx_unionfind_size uf"
    and reps: "{x, r} = {uf_rep uf i, uf_rep uf j}" and k: "k \<in> {i, j}"
  shows "uf_rep (uf_link uf x r rank) k = r"
proof -
  have "x \<in> {uf_rep uf i, uf_rep uf j}" "r \<in> {uf_rep uf i, uf_rep uf j}" using reps by auto
  then have xr: "x < eqx_unionfind_size uf" "r < eqx_unionfind_size uf" "uf_parent uf ! x = x" "uf_parent uf ! r = r"
    using uf_rep_less [OF assms(1)] uf_rep_fixed [OF assms(1)] i j by auto
  show ?thesis
    using uf_link_rep [OF assms(1,2) xr(1,3,2,4) assms(3), of k] i j k reps
    by (auto simp: doubleton_eq_iff)
qed

lemma join_same: "(i, j) \<in> uf_relation uf \<Longrightarrow> join_classes (uf_relation uf) i j = uf_relation uf"
  by (auto simp: join_classes_def uf_relation_def)

lemma same_partition_relation: "uf_same_partition uf uf' \<Longrightarrow> uf_relation uf' = uf_relation uf"
  by (auto simp: uf_same_partition_def uf_relation_def)

text \<open>The three ways of linking, on a structure whose two paths have been compressed.\<close>

lemma union_links:
  assumes ok: "uf_ok uf" and i: "i < eqx_unionfind_size uf" and j: "j < eqx_unionfind_size uf"
    and ne: "uf_rep uf i \<noteq> uf_rep uf j"
  defines "a \<equiv> uf_rep uf i" and "b \<equiv> uf_rep uf j"
  shows "uf_rank uf ! a < uf_rank uf ! b \<Longrightarrow> uf_ok (uf_link uf a b (uf_rank uf))"
    and "uf_rank uf ! b < uf_rank uf ! a \<Longrightarrow> uf_ok (uf_link uf b a (uf_rank uf))"
    and "uf_rank uf ! b = uf_rank uf ! a \<Longrightarrow>
           uf_ok (uf_link uf b a ((uf_rank uf)[a := uf_rank uf ! a + 1]))"
proof -
  note less = uf_rep_less [OF ok i, folded a_def] uf_rep_less [OF ok j, folded b_def]
    and fixed = uf_rep_fixed [OF ok i, folded a_def] uf_rep_fixed [OF ok j, folded b_def]
  have len: "length (uf_rank uf) = eqx_unionfind_size uf" using ok by (simp add: uf_ok_def)
  have ab: "a \<noteq> b" "b \<noteq> a" using ne by (simp_all add: a_def b_def)
  show "uf_rank uf ! a < uf_rank uf ! b \<Longrightarrow> uf_ok (uf_link uf a b (uf_rank uf))"
    by (rule uf_link_ok [OF ok less(1) fixed(1) less(2) ab(1) len]) (simp_all add: uf_okD [OF ok])
  show "uf_rank uf ! b < uf_rank uf ! a \<Longrightarrow> uf_ok (uf_link uf b a (uf_rank uf))"
    by (rule uf_link_ok [OF ok less(2) fixed(2) less(1) ab(2) len]) (simp_all add: uf_okD [OF ok])
  show "uf_ok (uf_link uf b a ((uf_rank uf)[a := uf_rank uf ! a + 1]))"
    if eq: "uf_rank uf ! b = uf_rank uf ! a"
  proof (rule uf_link_ok [OF ok less(2) fixed(2) less(1) ab(2)])
    fix k assume k: "k < eqx_unionfind_size uf" "uf_parent uf ! k \<noteq> k"
    then show "(uf_rank uf)[a := uf_rank uf ! a + 1] ! k
        < (uf_rank uf)[a := uf_rank uf ! a + 1] ! (uf_parent uf ! k)"
      using uf_okD [OF ok k(1)] fixed(1) less(1) len by (auto simp: nth_list_update)
  qed (use less ab eq len in simp_all)
qed

text \<open>Merging two elements that are apart links one of their roots below the other, the result.\<close>

lemma eqx_union_apart:
  assumes ok: "uf_ok uf" and i: "i < eqx_unionfind_size uf" and j: "j < eqx_unionfind_size uf"
    and ne: "uf_rep uf i \<noteq> uf_rep uf j"
    and uf1: "eqx_unionfind_find uf i = Some (uf_rep uf i, uf1)"
    and uf2: "eqx_unionfind_find uf1 j = Some (uf_rep uf j, uf2)"
    and same: "uf_same_partition uf uf1" "uf_same_partition uf uf2"
  obtains r x rank where "eqx_unionfind_union uf i j = Some (r, uf_link uf2 x r rank)"
    and "{x, r} = {uf_rep uf i, uf_rep uf j}" and "uf_ok (uf_link uf2 x r rank)"
proof -
  have ok2: "uf_ok uf2" "eqx_unionfind_size uf2 = eqx_unionfind_size uf"
      "uf_rep uf2 i = uf_rep uf i" "uf_rep uf2 j = uf_rep uf j"
    using same(2) i j by (simp_all add: uf_same_partition_def)
  note links = union_links [OF ok2(1), of i j, unfolded ok2(2-4), OF i j ne]
  have size: "\<not> eqx_unionfind_size uf \<le> i" "\<not> eqx_unionfind_size uf \<le> j" using i j by simp_all
  note un = eqx_unionfind_union_def [of uf i j] uf1 uf2 size ne
  consider "uf_rank uf2 ! uf_rep uf i < uf_rank uf2 ! uf_rep uf j"
    | "uf_rank uf2 ! uf_rep uf j < uf_rank uf2 ! uf_rep uf i"
    | "uf_rank uf2 ! uf_rep uf j = uf_rank uf2 ! uf_rep uf i" by linarith
  then show thesis
  proof cases
    case 1
    then show thesis
      by (intro that [of "uf_rep uf j" "uf_rep uf i" "uf_rank uf2"])
        (simp_all add: un links uf_link_folds insert_commute)
  next
    case 2
    then show thesis
      by (intro that [of "uf_rep uf i" "uf_rep uf j" "uf_rank uf2"])
        (simp_all add: un links uf_link_folds insert_commute)
  next
    case 3
    then show thesis
      by (intro that [OF _ _ links(3) [OF 3]]) (simp_all add: un uf_link_folds insert_commute)
  qed
qed

text \<open>
  C20. Refinement of a partition. On a well-formed structure, merging two elements returns,
  keeps the structure well-formed, and makes the relation of having the same representative
  the join of the old relation with the two elements; the returned id is the representative
  of both, and the counter drops by one exactly when they were apart.
\<close>

theorem eqx_unionfind_union_refines:
  assumes ok: "uf_ok uf" and i: "i < eqx_unionfind_size uf" and j: "j < eqx_unionfind_size uf"
  shows "\<exists>r uf'. eqx_unionfind_union uf i j = Some (r, uf') \<and> uf_ok uf'
     \<and> eqx_unionfind_size uf' = eqx_unionfind_size uf
     \<and> uf_relation uf' = join_classes (uf_relation uf) i j
     \<and> r = uf_rep uf' i \<and> r = uf_rep uf' j
     \<and> uf_set_count uf' = uf_set_count uf - (if (i, j) \<in> uf_relation uf then 0 else 1)"
proof -
  obtain uf1 where uf1: "eqx_unionfind_find uf i = Some (uf_rep uf i, uf1)" "uf_same_partition uf uf1"
    using eqx_find_correct [OF ok i] by auto
  then have j1: "uf_ok uf1" "j < eqx_unionfind_size uf1" "uf_rep uf1 j = uf_rep uf j"
    using j by (simp_all add: uf_same_partition_def)
  then obtain uf2 where uf2: "eqx_unionfind_find uf1 j = Some (uf_rep uf j, uf2)" "uf_same_partition uf1 uf2"
    using eqx_find_correct [OF j1(1,2)] by auto
  have same: "uf_same_partition uf uf2" using uf1(2) uf2(2) by (simp add: uf_same_partition_def)
  then have ok2: "uf_ok uf2" "eqx_unionfind_size uf2 = eqx_unionfind_size uf"
      "uf_rep uf2 i = uf_rep uf i" "uf_rep uf2 j = uf_rep uf j" "uf_set_count uf2 = uf_set_count uf"
    using i j by (simp_all add: uf_same_partition_def)
  note rel = same_partition_relation [OF same]
  show ?thesis
  proof (cases "uf_rep uf i = uf_rep uf j")
    case True
    then have ij: "(i, j) \<in> uf_relation uf" using i j by (simp add: uf_relation_def)
    show ?thesis using i j uf1(1) uf2(1) True ok2 rel ij
      by (simp add: eqx_unionfind_union_def join_same)
  next
    case False
    then obtain r x rank where u: "eqx_unionfind_union uf i j = Some (r, uf_link uf2 x r rank)"
        "{x, r} = {uf_rep uf i, uf_rep uf j}" "uf_ok (uf_link uf2 x r rank)"
      using eqx_union_apart [OF ok i j _ uf1(1) uf2(1) uf1(2) same] by metis
    have xr: "x \<noteq> r" using u(2) False by auto
    have "uf_relation (uf_link uf2 x r rank) = join_classes (uf_relation uf) i j"
      using uf_link_relation [OF ok2(1) u(3) xr, of i j] u(2) i j ok2 rel by simp
    moreover have "uf_rep (uf_link uf2 x r rank) k = r" if "k \<in> {i, j}" for k
      using uf_link_reps [OF ok2(1) u(3) xr, of i j k] u(2) i j ok2 that by simp
    moreover have "(i, j) \<notin> uf_relation uf" using False by (simp add: uf_relation_def)
    moreover have "uf_set_count (uf_link uf2 x r rank) = uf_set_count uf - 1"
      using ok2(5) by (simp add: uf_link_def)
    ultimately show ?thesis using u(1,3) ok2(2) by simp
  qed
qed

section \<open>New elements, and an instance\<close>

lemma eqx_create_ok: "uf_ok eqx_unionfind_create"
  by (simp add: uf_ok_def eqx_unionfind_create_def eqx_unionfind_size_def)

text \<open>A new element is a class of its own.\<close>

lemma eqx_make_set_ok:
  assumes ok: "uf_ok uf"
  shows "uf_ok (snd (eqx_unionfind_make_set uf))"
    and "eqx_unionfind_size (snd (eqx_unionfind_make_set uf)) = Suc (eqx_unionfind_size uf)"
    and "i < eqx_unionfind_size uf \<Longrightarrow> uf_rep (snd (eqx_unionfind_make_set uf)) i = uf_rep uf i"
    and "uf_rep (snd (eqx_unionfind_make_set uf)) (eqx_unionfind_size uf) = eqx_unionfind_size uf"
proof -
  let ?uf = "snd (eqx_unionfind_make_set uf)"
  have par: "uf_parent ?uf ! i = (if i < eqx_unionfind_size uf then uf_parent uf ! i else i)"
    if "i \<le> eqx_unionfind_size uf" for i
    using that by (auto simp: eqx_unionfind_make_set_def eqx_unionfind_size_def nth_append)
  show size: "eqx_unionfind_size ?uf = Suc (eqx_unionfind_size uf)"
    by (simp add: eqx_unionfind_make_set_def eqx_unionfind_size_def)
  have roots: "{i. i < eqx_unionfind_size ?uf \<and> uf_parent ?uf ! i = i}
      = insert (eqx_unionfind_size uf) {i. i < eqx_unionfind_size uf \<and> uf_parent uf ! i = i}"
    unfolding size by (auto simp: par less_Suc_eq split: if_splits)
  have rank: "uf_rank ?uf = uf_rank uf @ [0]" "uf_set_count ?uf = uf_set_count uf + 1"
    by (simp_all add: eqx_unionfind_make_set_def)
  have "uf_set_count ?uf = card {i. i < eqx_unionfind_size ?uf \<and> uf_parent ?uf ! i = i}"
    using ok unfolding roots rank(2) by (simp add: uf_ok_def)
  then show ok': "uf_ok ?uf"
    using ok uf_okD [OF ok] unfolding uf_ok_def rank(1)
    by (auto simp: size par less_Suc_eq nth_append)
  show "uf_rep ?uf (eqx_unionfind_size uf) = eqx_unionfind_size uf"
    by (rule uf_rep_root) (simp add: par)
  show "uf_rep ?uf i = uf_rep uf i" if "i < eqx_unionfind_size uf"
    using ok that
  proof (induction rule: uf_induct)
    case (root i)
    then show ?case by (simp add: uf_rep_root par)
  next
    case (step i)
    then show ?case
      using uf_rep_parent [OF ok', of i] uf_rep_parent [OF ok step(1)] by (simp add: size par)
  qed
qed

definition three_sets :: unionfind where
  "three_sets = snd (eqx_unionfind_make_set (snd (eqx_unionfind_make_set
                  (snd (eqx_unionfind_make_set eqx_unionfind_create)))))"

theorem eqx_unionfind_union_refines_witness:
  "\<exists>r uf. eqx_unionfind_union three_sets 0 1 = Some (r, uf) \<and> uf_ok uf
     \<and> (0, 1) \<in> uf_relation uf \<and> (0, 2) \<notin> uf_relation uf \<and> uf_set_count uf = 2"
proof -
  have "uf_ok three_sets" unfolding three_sets_def by (intro eqx_make_set_ok(1) eqx_create_ok)
  moreover have "eqx_unionfind_size three_sets = 3" "uf_set_count three_sets = 3"
      "uf_relation three_sets = {(x, y). x < 3 \<and> x = y}"
    by (auto simp: three_sets_def eqx_unionfind_make_set_def eqx_unionfind_create_def
          eqx_unionfind_size_def uf_relation_def uf_rep_def uf_height_def)
  ultimately show ?thesis
    using eqx_unionfind_union_refines [of three_sets 0 1] by (auto simp: join_classes_def)
qed

end
