(* ===== verification/Equinox_Egraph.thy ===== *)
theory Equinox_Egraph
  imports Equinox_Union_Find "HOL-Library.Multiset"
begin

text \<open>
  Correctness of hash-consing, and of an e-graph that has only been added to: the hash table
  is a finite map whatever the buckets, and every id stands for exactly one term, so that two
  additions give the same id if and only if they build the same term.
\<close>

section \<open>The hash table is a map\<close>

definition hc_placed :: "(eqx_key \<times> nat) list list \<Rightarrow> bool" where
  "hc_placed bs \<longleftrightarrow> bs \<noteq> [] \<and> distinct (map fst (concat bs))
     \<and> (\<forall>i<length bs. \<forall>e\<in>set (bs ! i). eqx_bucket (length bs) (fst e) = i)"

definition hc_ok :: "hashcons \<Rightarrow> bool" where
  "hc_ok hc \<longleftrightarrow> hc_placed (hc_buckets hc)"

lemma bucket_less [simp]: "bs \<noteq> [] \<Longrightarrow> eqx_bucket (length bs) k < length bs"
  by (simp add: eqx_bucket_def)

lemma concat_at: "i < length bs \<Longrightarrow> concat bs = concat (take i bs) @ bs ! i @ concat (drop (Suc i) bs)"
  by (metis Cons_nth_drop_Suc append_take_drop_id concat.simps(2) concat_append)

lemma concat_push:
  assumes "bs \<noteq> []"
  shows "mset (concat (hc_push bs e)) = add_mset e (mset (concat bs))"
proof -
  let ?i = "eqx_bucket (length bs) (fst e)"
  have "concat (bs[?i := e # bs ! ?i]) = concat (take ?i bs) @ (e # bs ! ?i) @ concat (drop (Suc ?i) bs)"
    using assms by (simp add: upd_conv_take_nth_drop)
  then show ?thesis using concat_at [of ?i bs] assms by (simp add: hc_push_def Let_def)
qed

lemma hc_push_length [simp]: "length (hc_push bs e) = length bs"
  by (simp add: hc_push_def Let_def)

lemma hc_push_placed:
  assumes "hc_placed bs" and "fst e \<notin> fst ` set (concat bs)"
  shows "hc_placed (hc_push bs e)" and "set (concat (hc_push bs e)) = insert e (set (concat bs))"
proof -
  have ne: "bs \<noteq> []" and pl: "\<And>i e. i < length bs \<Longrightarrow> e \<in> set (bs ! i) \<Longrightarrow> eqx_bucket (length bs) (fst e) = i"
    using assms(1) by (simp_all add: hc_placed_def)
  note m = concat_push [OF ne, of e]
  show s: "set (concat (hc_push bs e)) = insert e (set (concat bs))"
    using arg_cong [OF m, of set_mset] by simp
  have "mset (map fst (concat (hc_push bs e))) = mset (fst e # map fst (concat bs))"
    using arg_cong [OF m, of "image_mset fst"] by simp
  moreover have "distinct (fst e # map fst (concat bs))" using assms by (simp add: hc_placed_def)
  ultimately have "distinct (map fst (concat (hc_push bs e)))"
    using mset_eq_imp_distinct_iff by metis
  moreover have "eqx_bucket (length bs) (fst x) = i"
    if "i < length bs" "x \<in> set (hc_push bs e ! i)" for i x
  proof (cases "eqx_bucket (length bs) (fst e) = i")
    case True
    then have "x = e \<or> x \<in> set (bs ! i)" using that by (simp add: hc_push_def Let_def)
    then show ?thesis using True pl that(1) by blast
  next
    case False
    then show ?thesis using that pl by (simp add: hc_push_def Let_def)
  qed
  ultimately show "hc_placed (hc_push bs e)"
    using ne by (simp add: hc_placed_def) (simp add: hc_push_def Let_def)
qed

lemma hc_lookup_iff:
  assumes "hc_ok hc"
  shows "eqx_hashcons_lookup hc k = Some v \<longleftrightarrow> (k, v) \<in> set (concat (hc_buckets hc))"
proof -
  let ?bs = "hc_buckets hc" and ?i = "eqx_bucket (length (hc_buckets hc)) k"
  have ne: "?bs \<noteq> []" and d: "distinct (map fst (concat ?bs))"
    and pl: "\<And>i e. i < length ?bs \<Longrightarrow> e \<in> set (?bs ! i) \<Longrightarrow> eqx_bucket (length ?bs) (fst e) = i"
    using assms by (auto simp: hc_ok_def hc_placed_def)
  have "distinct (map fst (?bs ! ?i))"
    using d concat_at [of ?i ?bs] ne by simp
  then have "eqx_hashcons_lookup hc k = Some v \<longleftrightarrow> (k, v) \<in> set (?bs ! ?i)"
    using ne by (simp add: eqx_hashcons_lookup_def)
  also have "\<dots> \<longleftrightarrow> (k, v) \<in> set (concat ?bs)"
  proof
    show "(k, v) \<in> set (concat ?bs)" if "(k, v) \<in> set (?bs ! ?i)"
      using that concat_at [of ?i ?bs] ne by simp
    show "(k, v) \<in> set (?bs ! ?i)" if "(k, v) \<in> set (concat ?bs)"
    proof -
      from that obtain b where "b \<in> set ?bs" "(k, v) \<in> set b" by auto
      then obtain i where "i < length ?bs" "(k, v) \<in> set (?bs ! i)" by (metis in_set_conv_nth)
      with pl [of i "(k, v)"] show ?thesis by simp
    qed
  qed
  finally show ?thesis .
qed

lemma foldl_push_placed:
  assumes "hc_placed bs" and "distinct (map fst es)" and "fst ` set es \<inter> fst ` set (concat bs) = {}"
  shows "hc_placed (foldl hc_push bs es)
     \<and> set (concat (foldl hc_push bs es)) = set es \<union> set (concat bs)"
  using assms
proof (induction es arbitrary: bs)
  case (Cons e es)
  have "fst e \<notin> fst ` set (concat bs)" using Cons.prems(3) by auto
  note p = hc_push_placed [OF Cons.prems(1) this]
  have "fst ` set es \<inter> fst ` set (concat (hc_push bs e)) = {}"
    unfolding p(2) using Cons.prems(2,3) by auto
  with Cons.IH [OF p(1)] Cons.prems(2) show ?case unfolding p(2) by simp
qed simp

text \<open>Growing the table keeps its entries.\<close>

lemma hc_ensure_capacity_keeps:
  assumes "hc_ok hc"
  shows "hc_ok (hc_ensure_capacity hc)"
    and "set (concat (hc_buckets (hc_ensure_capacity hc))) = set (concat (hc_buckets hc))"
proof -
  let ?n = "length (hc_buckets hc)"
  have "hc_placed (replicate (2 * ?n) [])" using assms by (simp add: hc_ok_def hc_placed_def)
  moreover have "distinct (map fst (concat (hc_buckets hc)))" using assms by (simp add: hc_ok_def hc_placed_def)
  moreover have "concat (replicate (2 * ?n) ([] :: (eqx_key \<times> nat) list)) = []" by (simp del: replicate_Suc)
  ultimately have "hc_placed (foldl hc_push (replicate (2 * ?n) []) (concat (hc_buckets hc)))
      \<and> set (concat (foldl hc_push (replicate (2 * ?n) []) (concat (hc_buckets hc)))) = set (concat (hc_buckets hc))"
    using foldl_push_placed [of "replicate (2 * ?n) []" "concat (hc_buckets hc)"] by (metis Int_empty_right Un_empty_right image_empty list.set(1))
  then show "hc_ok (hc_ensure_capacity hc)"
      "set (concat (hc_buckets (hc_ensure_capacity hc))) = set (concat (hc_buckets hc))"
    using assms by (auto simp: hc_ensure_capacity_def Let_def hc_ok_def)
qed

lemma option_eqI: "(\<And>v. a = Some v \<longleftrightarrow> b = Some v) \<Longrightarrow> a = b"
  by (cases a; cases b) auto

lemma eqx_hashcons_insert_map:
  assumes ok: "hc_ok hc" and new: "eqx_hashcons_lookup hc k = None"
    and ins: "eqx_hashcons_insert hc k i = (b, hc')"
  shows "b \<and> hc_ok hc' \<and> hc_size hc' = hc_size hc + 1
     \<and> eqx_hashcons_lookup hc' = (eqx_hashcons_lookup hc)(k \<mapsto> i)"
proof -
  let ?hc1 = "hc_ensure_capacity hc"
  note e = hc_ensure_capacity_keeps [OF ok]
  have look: "eqx_hashcons_lookup ?hc1 = eqx_hashcons_lookup hc"
    by (rule ext, rule option_eqI) (simp only: hc_lookup_iff [OF ok] hc_lookup_iff [OF e(1)] e(2))
  have "(k, v) \<notin> set (concat (hc_buckets ?hc1))" for v
    using new hc_lookup_iff [OF e(1), of k v] look by simp
  then have "k \<notin> fst ` set (concat (hc_buckets ?hc1))" by (auto simp del: set_concat)
  then have p: "hc_placed (hc_push (hc_buckets ?hc1) (k, i))"
      "set (concat (hc_push (hc_buckets ?hc1) (k, i))) = insert (k, i) (set (concat (hc_buckets ?hc1)))"
    using hc_push_placed [of "hc_buckets ?hc1" "(k, i)"] e(1) by (simp_all add: hc_ok_def)
  have hc': "b" "hc' = ?hc1\<lparr>hc_size := hc_size ?hc1 + 1, hc_buckets := hc_push (hc_buckets ?hc1) (k, i)\<rparr>"
    using ins new by (simp_all add: eqx_hashcons_insert_def Let_def)
  then have ok': "hc_ok hc'" using p(1) by (simp add: hc_ok_def)
  have "eqx_hashcons_lookup hc' x = ((eqx_hashcons_lookup hc)(k \<mapsto> i)) x" for x
  proof -
    have "eqx_hashcons_lookup hc' x = Some v \<longleftrightarrow> ((eqx_hashcons_lookup hc)(k \<mapsto> i)) x = Some v" for v
      using hc_lookup_iff [OF ok', of x v] hc_lookup_iff [OF e(1), of x v] look new p(2) hc'(2) by auto
    then show ?thesis by (rule option_eqI)
  qed
  then show ?thesis using hc' ok' by (auto simp: hc_ensure_capacity_def Let_def)
qed

lemma hc_create_ok: "hc_ok (eqx_hashcons_create n)" and hc_create_empty: "eqx_hashcons_lookup (eqx_hashcons_create n) k = None"
  by (simp_all add: hc_ok_def hc_placed_def eqx_hashcons_create_def eqx_hashcons_lookup_def eqx_bucket_def)

section \<open>Additions only\<close>

text \<open>
  The terms of an e-graph without merges: the class \<open>i\<close> stands for the term \<open>ts ! i\<close>,
  the hash table knows exactly the keys of these terms, and no two classes stand for one. Each class
  has a single e-node, which carries the operator of its term.
\<close>

datatype shape = Shape u32 "shape list"

fun shape_op :: "shape \<Rightarrow> u32" where
  "shape_op (Shape op ss) = op"

definition single_node :: "egraph \<Rightarrow> u32 \<Rightarrow> nat \<Rightarrow> bool" where
  "single_node eg op i \<longleftrightarrow>
     (\<exists>p<length (eg_heap eg). ec_nodes (eg_classes eg ! i) = Some p
        \<and> en_next (eg_heap eg ! p) = None \<and> en_op (eg_heap eg ! p) = op)"

definition eg_terms :: "shape list \<Rightarrow> egraph \<Rightarrow> bool" where
  "eg_terms ts eg \<longleftrightarrow> uf_parent (eg_uf eg) = [0..<length ts] \<and> length (eg_classes eg) = length ts
     \<and> \<not> eg_dirty eg \<and> hc_ok (eg_hashcons eg) \<and> distinct ts
     \<and> (\<forall>i<length ts. single_node eg (shape_op (ts ! i)) i)
     \<and> (\<forall>i<length ts. \<exists>op cs. (\<forall>c\<in>set cs. c < length ts) \<and> ts ! i = Shape op (map ((!) ts) cs))
     \<and> (\<forall>op cs i. eqx_hashcons_lookup (eg_hashcons eg) (op, cs) = Some i
          \<longleftrightarrow> i < length ts \<and> (\<forall>c\<in>set cs. c < length ts) \<and> ts ! i = Shape op (map ((!) ts) cs))"

lemma eg_terms_create: "eg_terms [] (eqx_egraph_create n)"
  by (simp add: eg_terms_def eqx_egraph_create_def eqx_unionfind_create_def hc_create_ok hc_create_empty)

lemma find_self:
  assumes "uf_parent uf = [0..<n]" "c < n"
  shows "eqx_unionfind_find uf c = Some (c, uf)"
  using assms by (intro eqx_find_root) (simp_all add: eqx_unionfind_size_def)

lemma canonical_self:
  assumes uf: "uf_parent uf = [0..<n]" and cs: "\<forall>c\<in>set cs. c < n"
  shows "eqx_canonical uf cs = Some (cs, uf)"
proof -
  have "loop (\<lambda>(cs, uf) c. do { (r, uf) \<leftarrow> eqx_unionfind_find uf c; Some (cs @ [r], uf) }) (ds, uf) cs
      = Some (ds @ cs, uf)" for ds
    using cs by (induction cs arbitrary: ds) (simp_all add: find_self [OF uf])
  then show ?thesis by (simp add: eqx_canonical_def)
qed

text \<open>Registering the parents changes nothing but the parent lists.\<close>

lemma add_parents_self:
  assumes "uf_parent (eg_uf eg) = [0..<n]" "\<forall>c\<in>set cs. c < n"
  shows "\<exists>classes. eqx_add_parents eg node cs = Some (eg\<lparr>eg_classes := classes\<rparr>)
     \<and> map ec_nodes classes = map ec_nodes (eg_classes eg)"
  using assms
proof (induction cs arbitrary: eg)
  case Nil
  show ?case by (intro exI [of _ "eg_classes eg"]) (simp add: eqx_add_parents_def)
next
  case (Cons c cs)
  define eg1 where "eg1 = (if c < length (eg_classes eg)
             then eg\<lparr>eg_classes := (eg_classes eg)[c := (eg_classes eg ! c)
                       \<lparr>ec_parents := node # ec_parents (eg_classes eg ! c)\<rparr>]\<rparr>
             else eg)"
  have "uf_parent (eg_uf eg1) = [0..<n]" using Cons.prems(1) by (simp add: eg1_def)
  then obtain classes where "eqx_add_parents eg1 node cs = Some (eg1\<lparr>eg_classes := classes\<rparr>)"
      "map ec_nodes classes = map ec_nodes (eg_classes eg1)"
    using Cons.IH [of eg1] Cons.prems(2) by auto
  moreover have "eqx_add_parents eg node (c # cs) = eqx_add_parents eg1 node cs"
    using Cons.prems
    by (simp add: eqx_add_parents_def eqx_egraph_find_def find_self [OF Cons.prems(1)] eg1_def)
  moreover have "eg1\<lparr>eg_classes := classes\<rparr> = eg\<lparr>eg_classes := classes\<rparr>"
      "map ec_nodes (eg_classes eg1) = map ec_nodes (eg_classes eg)"
    by (simp_all add: eg1_def map_update list_update_same_conv)
  ultimately show ?case by metis
qed

lemma map_nth_inj:
  assumes "distinct xs" "\<forall>c\<in>set cs. c < length xs" "\<forall>c\<in>set ds. c < length xs"
    "map ((!) xs) cs = map ((!) xs) ds"
  shows "cs = ds"
proof (rule map_inj_on [OF assms(4)])
  show "inj_on ((!) xs) (set cs \<union> set ds)"
    using assms(1-3) by (auto simp: inj_on_def nth_eq_iff_index_eq)
qed

text \<open>A term that is not there yet keeps the keys of the table and of the terms in step.\<close>

lemma terms_extend:
  fixes lookup :: "eqx_key \<Rightarrow> nat option"
  assumes d: "distinct ts" and new: "t \<notin> set ts" and t: "t = Shape op (map ((!) ts) cs)"
    and cs: "\<forall>c\<in>set cs. c < length ts"
    and closed: "\<forall>i<length ts. \<exists>op cs. (\<forall>c\<in>set cs. c < length ts) \<and> ts ! i = Shape op (map ((!) ts) cs)"
    and look: "\<And>op cs i. lookup (op, cs) = Some i
          \<longleftrightarrow> i < length ts \<and> (\<forall>c\<in>set cs. c < length ts) \<and> ts ! i = Shape op (map ((!) ts) cs)"
  defines "us \<equiv> ts @ [t]"
  shows "(lookup((op, cs) \<mapsto> length ts)) (op', ds) = Some i
     \<longleftrightarrow> i < length us \<and> (\<forall>c\<in>set ds. c < length us) \<and> us ! i = Shape op' (map ((!) us) ds)" (is "?L \<longleftrightarrow> ?R")
proof -
  have du: "distinct us" and old: "\<And>c. c < length ts \<Longrightarrow> us ! c = ts ! c" and len: "length us = Suc (length ts)"
    and at: "us ! length ts = t" using d new by (auto simp: us_def nth_append)
  have old_map: "map ((!) us) es = map ((!) ts) es" if "\<forall>c\<in>set es. c < length ts" for es
    using that old by simp
  have wide: "\<forall>c\<in>set es. c < length us" if "\<forall>c\<in>set es. c < length ts" for es
    using that len by (simp add: less_SucI)
  have none: "lookup (op, cs) = None"
    using look [of op cs] new t by (metis nth_mem option.exhaust)
  show ?thesis
  proof
    assume l: ?L
    consider "(op', ds) = (op, cs)" "i = length ts" | "lookup (op', ds) = Some i"
      using l by (cases "op' = op \<and> ds = cs") (simp_all split: if_splits)
    then show ?R
    proof cases
      case 1
      then have "us ! i = Shape op' (map ((!) us) ds)" "\<forall>c\<in>set ds. c < length ts"
        using t old_map [OF cs] at cs by simp_all
      then show ?thesis using 1(2) len by (simp add: less_Suc_eq)
    next
      case 2
      then have "i < length ts" "\<forall>c\<in>set ds. c < length ts" "ts ! i = Shape op' (map ((!) ts) ds)"
        using look by auto
      then show ?thesis using old_map old len by auto
    qed
  next
    assume r: ?R
    show ?L
    proof (cases "i = length ts")
      case True
      then have "Shape op (map ((!) us) cs) = Shape op' (map ((!) us) ds)" using r at t old_map [OF cs] by simp
      then have op: "op' = op" and "map ((!) us) ds = map ((!) us) cs" by simp_all
      then have "ds = cs" using map_nth_inj [OF du _ wide [OF cs]] r by blast
      then show ?thesis using True op by simp
    next
      case False
      then have i: "i < length ts" using r len by simp
      then obtain op1 es where e: "\<forall>c\<in>set es. c < length ts" "ts ! i = Shape op1 (map ((!) ts) es)"
        using closed by blast
      then have "Shape op1 (map ((!) us) es) = Shape op' (map ((!) us) ds)"
        using r old [OF i] old_map [OF e(1)] by simp
      then have op: "op' = op1" and "map ((!) us) ds = map ((!) us) es" by simp_all
      then have "ds = es" using map_nth_inj [OF du _ wide [OF e(1)]] r by blast
      then have "lookup (op', ds) = Some i" using look i e op by simp
      then show ?thesis using none by (auto split: if_splits)
    qed
  qed
qed

text \<open>Adding a node returns the class of its term.\<close>

lemma eqx_egraph_add_term:
  fixes op :: u32
  assumes inv: "eg_terms ts eg" and cs: "\<forall>c\<in>set cs. c < length ts"
  defines "t \<equiv> Shape op (map ((!) ts) cs)"
  shows "\<exists>i eg'. eqx_egraph_add eg op cs = Some (i, eg')
     \<and> (let us = (if t \<in> set ts then ts else ts @ [t]) in eg_terms us eg' \<and> i < length us \<and> us ! i = t)"
proof -
  have uf: "uf_parent (eg_uf eg) = [0..<length ts]" and d: "distinct ts" and hc: "hc_ok (eg_hashcons eg)"
    and closed: "\<forall>i<length ts. \<exists>op cs. (\<forall>c\<in>set cs. c < length ts) \<and> ts ! i = Shape op (map ((!) ts) cs)"
    and look: "\<And>op cs i. eqx_hashcons_lookup (eg_hashcons eg) (op, cs) = Some i
          \<longleftrightarrow> i < length ts \<and> (\<forall>c\<in>set cs. c < length ts) \<and> ts ! i = Shape op (map ((!) ts) cs)"
    using inv by (auto simp: eg_terms_def)
  note canon = canonical_self [OF uf cs]
  show ?thesis
  proof (cases "eqx_hashcons_lookup (eg_hashcons eg) (op, cs)")
    case (Some i)
    then have "i < length ts" "ts ! i = t" using look by (auto simp: t_def)
    then have "t \<in> set ts" by auto
    then show ?thesis
      using Some inv \<open>i < length ts\<close> \<open>ts ! i = t\<close> by (simp add: eqx_egraph_add_def canon)
  next
    case None
    have new: "t \<notin> set ts"
      using None look [of op cs] cs by (auto simp: t_def in_set_conv_nth)
    obtain b hc' where ins: "eqx_hashcons_insert (eg_hashcons eg) (op, cs) (length ts) = (b, hc')"
      by (cases "eqx_hashcons_insert (eg_hashcons eg) (op, cs) (length ts)")
    note m = eqx_hashcons_insert_map [OF hc None ins]
    obtain uf' where uf': "eqx_unionfind_make_set (eg_uf eg) = (length ts, uf')" "uf_parent uf' = [0..<Suc (length ts)]"
      using uf by (simp add: eqx_unionfind_make_set_def eqx_unionfind_size_def)
    define eg1 where "eg1 = eg\<lparr>eg_uf := uf',
        eg_heap := eg_heap eg @ [\<lparr>en_op = op, en_children = cs, en_eclass = length ts, en_next = None\<rparr>],
        eg_classes := eg_classes eg @ [\<lparr>ec_id = length ts, ec_nodes = Some (length (eg_heap eg)), ec_parents = []\<rparr>],
        eg_hashcons := hc'\<rparr>"
    have uf1: "uf_parent (eg_uf eg1) = [0..<Suc (length ts)]"
      using uf'(2) by (simp add: eg1_def)
    obtain classes where cl: "eqx_add_parents eg1 (length (eg_heap eg)) cs = Some (eg1\<lparr>eg_classes := classes\<rparr>)"
        "map ec_nodes classes = map ec_nodes (eg_classes eg1)"
      using add_parents_self [OF uf1, of cs "length (eg_heap eg)"] cs by fastforce
    have len: "length classes = length (eg_classes eg1)" by (rule map_eq_imp_length_eq [OF cl(2)])
    have n: "length (eg_classes eg) = length ts" and nodes: "\<And>i. i < length ts \<Longrightarrow> single_node eg (shape_op (ts ! i)) i"
      using inv by (auto simp: eg_terms_def)
    have eg1_len: "length (eg_classes eg1) = Suc (length ts)" by (simp add: eg1_def n)
    have nodes_of: "ec_nodes (classes ! i) = ec_nodes (eg_classes eg1 ! i)" if "i < Suc (length ts)" for i
      using cl(2) that len n by (metis eg1_len nth_map)
    have "eqx_egraph_add eg op cs = Some (length ts, eg1\<lparr>eg_classes := classes\<rparr>)"
      using cl(1) [unfolded eg1_def] by (simp add: eqx_egraph_add_def canon None uf'(1) ins eg1_def)
    moreover have "eg_terms (ts @ [t]) (eg1\<lparr>eg_classes := classes\<rparr>)"
      unfolding eg_terms_def
    proof (intro conjI allI impI)
      show "eqx_hashcons_lookup (eg_hashcons (eg1\<lparr>eg_classes := classes\<rparr>)) (op', ds) = Some i \<longleftrightarrow>
          i < length (ts @ [t]) \<and> (\<forall>c\<in>set ds. c < length (ts @ [t]))
          \<and> (ts @ [t]) ! i = Shape op' (map ((!) (ts @ [t])) ds)" for op' ds i
        using terms_extend [OF d new t_def [THEN meta_eq_to_obj_eq] cs closed look, of op' ds i] m by (simp add: eg1_def)
      show "\<exists>op cs. (\<forall>c\<in>set cs. c < length (ts @ [t])) \<and> (ts @ [t]) ! i = Shape op (map ((!) (ts @ [t])) cs)"
        if "i < length (ts @ [t])" for i
      proof -
        obtain op1 es where e: "\<forall>c\<in>set es. c < length ts" "(ts @ [t]) ! i = Shape op1 (map ((!) ts) es)"
        proof (cases "i = length ts")
          case True
          then show ?thesis using that cs by (simp add: t_def)
        next
          case False
          then have "i < length ts" using \<open>i < length (ts @ [t])\<close> by simp
          then show ?thesis using closed that by (metis nth_append_left)
        qed
        then have "map ((!) (ts @ [t])) es = map ((!) ts) es" by (simp add: nth_append)
        then show ?thesis using e by (metis length_append_singleton less_SucI)
      qed
      show "uf_parent (eg_uf (eg1\<lparr>eg_classes := classes\<rparr>)) = [0..<length (ts @ [t])]" using uf1 by simp
      show "length (eg_classes (eg1\<lparr>eg_classes := classes\<rparr>)) = length (ts @ [t])"
        "\<not> eg_dirty (eg1\<lparr>eg_classes := classes\<rparr>)" using len inv by (simp_all add: eg1_def eg_terms_def)
      show "single_node (eg1\<lparr>eg_classes := classes\<rparr>) (shape_op ((ts @ [t]) ! i)) i" if "i < length (ts @ [t])" for i
      proof (cases "i = length ts")
        case True
        then show ?thesis using nodes_of [of i] n by (simp add: single_node_def eg1_def t_def nth_append)
      next
        case False
        then have i: "i < length ts" using that by simp
        from nodes [OF i] obtain q where "q < length (eg_heap eg)" "ec_nodes (eg_classes eg ! i) = Some q"
            "en_next (eg_heap eg ! q) = None" "en_op (eg_heap eg ! q) = shape_op (ts ! i)"
          by (auto simp: single_node_def)
        then show ?thesis using nodes_of [of i] i n
          unfolding single_node_def by (intro exI [of _ q]) (simp add: eg1_def nth_append)
      qed
      show "hc_ok (eg_hashcons (eg1\<lparr>eg_classes := classes\<rparr>))" using m by (simp add: eg1_def)
      show "distinct (ts @ [t])" using d new by simp
    qed
    ultimately show ?thesis using new by simp
  qed
qed

end
