(* ===== verification/Wrs_Equivalence.thy ===== *)
theory Wrs_Equivalence
  imports Wrs Equinox_Egraph
begin

text \<open>
  What the equivalence of the WRS matcher decides. A node is put into the e-graph as its
  operator, arity and inputs, without its payload: for nodes below which nothing is
  rewritten, two are equivalent exactly when their trees of operators agree.
\<close>

section \<open>The tree of operators of a node\<close>

text \<open>It exists for a node that has a finite unfolding with at most four, non-null inputs everywhere.\<close>

inductive has_shape :: "WILGraph \<Rightarrow> nat \<Rightarrow> shape \<Rightarrow> bool" for g where
  node: "n < length g \<Longrightarrow> length ss = wil_node_input_count g (Some n) \<Longrightarrow> length ss \<le> 4 \<Longrightarrow>
    (\<And>i. i < length ss \<Longrightarrow> \<exists>m. wil_node_input g (Some n) i = Some m \<and> has_shape g m (ss ! i)) \<Longrightarrow>
    has_shape g n (Shape (wrs_op_of_kind (wil_node_kind g (Some n))) ss)"

inductive_cases has_shapeE: "has_shape g n s"

lemma has_shape_less: "has_shape g n s \<Longrightarrow> n < length g"
  by (erule has_shapeE) simp

lemma has_shape_unique: "has_shape g n s \<Longrightarrow> has_shape g n t \<Longrightarrow> s = t"
proof (induction arbitrary: t rule: has_shape.induct)
  case (node n ss)
  from node.prems obtain ts where t: "t = Shape (wrs_op_of_kind (wil_node_kind g (Some n))) ts"
      "length ts = wil_node_input_count g (Some n)"
      "\<And>i. i < length ts \<Longrightarrow> \<exists>m. wil_node_input g (Some n) i = Some m \<and> has_shape g m (ts ! i)"
    by (auto elim: has_shapeE)
  have "ss ! i = ts ! i" if i: "i < length ss" for i
  proof -
    obtain m where m: "wil_node_input g (Some n) i = Some m" "\<forall>t. has_shape g m t \<longrightarrow> ss ! i = t"
      using node.IH [OF i] by blast
    then show ?thesis using t(3) [of i] t(2) node.hyps(2) i by (metis option.inject)
  qed
  then show ?case using t(1,2) node.hyps(2) by (simp add: list_eq_iff_nth_eq)
qed

section \<open>Adding a node to the e-graph\<close>

text \<open>
  The state of the construction: every term of the e-graph is the tree of some node, and for
  each recorded node the term of its class is its tree.
\<close>

definition build_ok :: "WILGraph \<Rightarrow> shape list \<Rightarrow> egraph \<Rightarrow> WRSEGraphBuild \<Rightarrow> bool" where
  "build_ok g ts eg build \<longleftrightarrow> eg_terms ts eg \<and> (\<forall>t\<in>set ts. \<exists>n. has_shape g n t)
     \<and> (\<forall>(n, i)\<in>set build. i < length ts \<and> has_shape g n (ts ! i))"

text \<open>What a call returns: the class of the tree, in a graph whose terms have been extended.\<close>

definition added :: "WILGraph \<Rightarrow> shape list \<Rightarrow> shape \<Rightarrow> nat \<times> egraph \<times> WRSEGraphBuild \<times> bool \<Rightarrow> shape list \<Rightarrow> bool" where
  "added g ts s r us \<longleftrightarrow> (case r of (i, eg, build, ok) \<Rightarrow>
     ok \<and> build_ok g (ts @ us) eg build \<and> i < length (ts @ us) \<and> (ts @ us) ! i = s)"

text \<open>There are no more classes than nodes.\<close>

lemma build_count:
  assumes "build_ok g ts eg build"
  shows "length ts \<le> length g"
proof -
  have "set ts \<subseteq> (\<lambda>n. THE s. has_shape g n s) ` {..<length g}"
  proof
    fix t assume "t \<in> set ts"
    then obtain n where n: "has_shape g n t" using assms by (auto simp: build_ok_def)
    then have "(THE s. has_shape g n s) = t" using has_shape_unique by blast
    then show "t \<in> (\<lambda>n. THE s. has_shape g n s) ` {..<length g}" using has_shape_less [OF n] by force
  qed
  then have "card (set ts) \<le> length g" using surj_card_le [of "{..<length g}" "set ts"] by simp
  then show ?thesis using assms by (simp add: build_ok_def eg_terms_def distinct_card)
qed

lemma build_ok_extend: "build_ok g ts eg build \<Longrightarrow> i < length ts \<Longrightarrow> i < length (ts @ us) \<and> (ts @ us) ! i = ts ! i"
  by (simp add: nth_append)

lemma wrs_add_node_known:
  assumes "wrs_build_lookup build n = Some i"
  shows "wrs_add_node g (Some n) eg build True = Some (i, eg, build, True)"
  using assms by (subst wrs_add_node.simps) simp

text \<open>The loop over the inputs, given what the calls for the inputs do.\<close>

lemma add_inputs_loop:
  assumes inv: "build_ok g ts eg build" and small: "length g \<le> EQX_ECLASS_ID_INVALID" and k: "k \<le> length ss"
    and calls: "\<And>i ts eg build. i < length ss \<Longrightarrow> build_ok g ts eg build \<Longrightarrow>
        \<exists>r us. wrs_add_node g (wil_node_input g (Some n) i) eg build True = Some r \<and> added g ts (ss ! i) r us"
  shows "\<exists>ids eg' build' us. loop (\<lambda>(ids, eg, build, ok) i.
                if \<not> ok then Some (ids, eg, build, ok)
                else do {
                  (c, eg, build, ok) \<leftarrow> wrs_add_node g (wil_node_input g (Some n) i) eg build ok;
                  Some (ids @ [c], eg, build, ok \<and> c \<noteq> EQX_ECLASS_ID_INVALID)
                }) ([], eg, build, True) [0..<k] = Some (ids, eg', build', True)
     \<and> build_ok g (ts @ us) eg' build' \<and> length ids = k
     \<and> (\<forall>j<k. ids ! j < length (ts @ us) \<and> (ts @ us) ! (ids ! j) = ss ! j)"
    (is "\<exists>ids eg' build' us. loop ?body _ _ = _ \<and> _")
  using k
proof (induction k)
  case 0
  show ?case
    by (intro exI [of _ "[]"] exI [of _ eg] exI [of _ build]) (simp add: inv)
next
  case (Suc k)
  then have "k \<le> length ss" by simp
  from Suc.IH [OF this] obtain ids eg1 build1 us where l: "loop ?body ([], eg, build, True) [0..<k] = Some (ids, eg1, build1, True)"
      "build_ok g (ts @ us) eg1 build1" "length ids = k"
      "\<forall>j<k. ids ! j < length (ts @ us) \<and> (ts @ us) ! (ids ! j) = ss ! j"
    by blast
  obtain r vs where r: "wrs_add_node g (wil_node_input g (Some n) k) eg1 build1 True = Some r"
      "added g (ts @ us) (ss ! k) r vs" using calls [of k, OF _ l(2)] Suc.prems by (metis Suc_le_lessD)
  obtain c eg2 build2 ok2 where "r = (c, eg2, build2, ok2)" by (cases r)
  with r have c: "wrs_add_node g (wil_node_input g (Some n) k) eg1 build1 True = Some (c, eg2, build2, True)"
      "build_ok g (ts @ us @ vs) eg2 build2" "c < length (ts @ us @ vs)" "(ts @ us @ vs) ! c = ss ! k"
    by (simp_all add: added_def)
  have "c < EQX_ECLASS_ID_INVALID"
    using c(3) build_count [OF c(2)] small by linarith
  then have "loop ?body ([], eg, build, True) [0..<Suc k] = Some (ids @ [c], eg2, build2, True)"
    using l(1) c(1) by (simp add: loop_append)
  moreover have "(ids @ [c]) ! j < length (ts @ us @ vs) \<and> (ts @ us @ vs) ! ((ids @ [c]) ! j) = ss ! j"
    if "j < Suc k" for j
  proof (cases "j = k")
    case True
    moreover have "(ids @ [c]) ! k = c" using l(3) by (metis nth_append_length)
    ultimately show ?thesis using c(3,4) by simp
  next
    case False
    then have j: "j < k" using that by simp
    then have "ids ! j < length (ts @ us)" "(ts @ us) ! (ids ! j) = ss ! j" using l(4) by auto
    then have "((ts @ us) @ vs) ! (ids ! j) = ss ! j" "ids ! j < length ((ts @ us) @ vs)"
      by (simp_all only: nth_append length_append) simp_all
    then show ?thesis using j l(3) by (simp add: nth_append)
  qed
  ultimately show ?case using c(2) l(3)
    by (intro exI [of _ "ids @ [c]"] exI [of _ eg2] exI [of _ build2] exI [of _ "us @ vs"]) simp
qed

lemma wrs_add_node_term:
  assumes "has_shape g n s" and small: "length g \<le> EQX_ECLASS_ID_INVALID"
    and "build_ok g ts eg build"
  shows "\<exists>r us. wrs_add_node g (Some n) eg build True = Some r \<and> added g ts s r us"
  using assms(1,3)
proof (induction arbitrary: ts eg build rule: has_shape.induct)
  case (node n ss)
  let ?op = "wrs_op_of_kind (wil_node_kind g (Some n))"
  have inputs: "\<exists>m. wil_node_input g (Some n) i = Some m \<and> has_shape g m (ss ! i)" if "i < length ss" for i
    using node.IH [OF that] by blast
  have shape: "has_shape g n (Shape ?op ss)" by (rule has_shape.node [OF node.hyps inputs])
  show ?case
  proof (cases "wrs_build_lookup build n")
    case (Some i)
    then have "(n, i) \<in> set build" by (simp add: wrs_build_lookup_def map_of_SomeD)
    then have "i < length ts" "has_shape g n (ts ! i)" using node.prems by (auto simp: build_ok_def)
    then have "added g ts (Shape ?op ss) (i, eg, build, True) []"
      using node.prems has_shape_unique [OF shape] by (auto simp: added_def)
    then show ?thesis using wrs_add_node_known [OF Some] by blast
  next
    case None
    have "\<exists>r us. wrs_add_node g (wil_node_input g (Some n) i) eg build True = Some r \<and> added g ts (ss ! i) r us"
      if "i < length ss" "build_ok g ts eg build" for i ts eg build
      using node.IH [OF that(1)] that(2) by metis
    from add_inputs_loop [OF node.prems small order_refl this]
    obtain ids eg1 build1 us where l: "loop (\<lambda>(ids, eg, build, ok) i.
                if \<not> ok then Some (ids, eg, build, ok)
                else do {
                  (c, eg, build, ok) \<leftarrow> wrs_add_node g (wil_node_input g (Some n) i) eg build ok;
                  Some (ids @ [c], eg, build, ok \<and> c \<noteq> EQX_ECLASS_ID_INVALID)
                }) ([], eg, build, True) [0..<length ss] = Some (ids, eg1, build1, True)"
        "build_ok g (ts @ us) eg1 build1" "length ids = length ss"
        "\<forall>j<length ss. ids ! j < length (ts @ us) \<and> (ts @ us) ! (ids ! j) = ss ! j"
      by blast
    have ids: "\<forall>c\<in>set ids. c < length (ts @ us)" "map ((!) (ts @ us)) ids = ss"
      using l(3,4) by (auto simp: in_set_conv_nth list_eq_iff_nth_eq)
    have eg1: "eg_terms (ts @ us) eg1" using l(2) by (simp add: build_ok_def)
    let ?t = "Shape ?op ss"
    define vs where "vs = (if ?t \<in> set (ts @ us) then ts @ us else (ts @ us) @ [?t])"
    obtain i eg2 where a: "eqx_egraph_add eg1 ?op ids = Some (i, eg2)" "eg_terms vs eg2" "i < length vs" "vs ! i = ?t"
      using eqx_egraph_add_term [OF eg1 ids(1), of ?op, unfolded ids(2)]
      unfolding Let_def vs_def by blast
    obtain ws where vs: "vs = ts @ ws"
      using that [of us] that [of "us @ [?t]"] by (cases "?t \<in> set (ts @ us)") (simp_all only: vs_def append_assoc if_True if_False)
    have i: "i \<noteq> EQX_ECLASS_ID_INVALID"
    proof -
      have "build_ok g vs eg2 []" using l(2) a(2) shape by (auto simp: build_ok_def vs_def split: if_splits)
      then show ?thesis using build_count small a(3) by fastforce
    qed
    have "build_ok g vs eg2 (build1 @ [(n, i)])"
      using l(2) a(2-4) shape build_ok_extend [OF l(2)]
      by (auto simp: build_ok_def vs_def nth_append split: if_splits)
    then have "added g ts ?t (i, eg2, build1 @ [(n, i)], True) ws" using a vs by (simp add: added_def)
    moreover have "wrs_add_node g (Some n) eg build True = Some (i, eg2, build1 @ [(n, i)], True)"
      using None node.hyps l(1) a(1) i by (subst wrs_add_node.simps) (simp add: wrs_eqx_arity_supported_def)
    ultimately show ?thesis by blast
  qed
qed

section \<open>Equivalence is equality of trees\<close>

lemma rebuild_clean: "eg_terms ts eg \<Longrightarrow> eqx_egraph_rebuild eg = Some (True, eg)"
  by (simp add: eqx_egraph_rebuild_def eg_terms_def)

lemma equiv_terms:
  assumes "eg_terms ts eg" "i < length ts" "j < length ts"
  shows "eqx_egraph_equiv eg i j = Some (ts ! i = ts ! j, eg)"
proof -
  have uf: "uf_parent (eg_uf eg) = [0..<length ts]" and "distinct ts" using assms(1) by (simp_all add: eg_terms_def)
  then have "ts ! i = ts ! j \<longleftrightarrow> i = j" using assms(2,3) nth_eq_iff_index_eq by blast
  then show ?thesis using assms(2,3) uf
    by (simp add: eqx_egraph_equiv_def eqx_unionfind_equiv_def eqx_unionfind_size_def find_self [OF uf])
qed

lemma nodes_equivalent_shapes:
  assumes a: "has_shape g a s" and b: "has_shape g b t" and small: "length g \<le> EQX_ECLASS_ID_INVALID"
    and plain: "\<not> wrs_is_eqx_rewritable_kind (wil_node_kind g (Some a))"
               "\<not> wrs_is_eqx_rewritable_kind (wil_node_kind g (Some b))"
  shows "wrs_nodes_equivalent g (Some a) (Some b) = Some (s = t)"
proof (cases "a = b")
  case True
  then show ?thesis using has_shape_unique [OF a] b by (simp add: wrs_nodes_equivalent_def)
next
  case False
  have "build_ok g [] (eqx_egraph_create 8) []" by (simp add: build_ok_def eg_terms_create)
  then obtain r us where r: "wrs_add_node g (Some a) (eqx_egraph_create 8) [] True = Some r" "added g [] s r us"
    using wrs_add_node_term [OF a small] by blast
  then obtain i eg build where i: "r = (i, eg, build, True)" "build_ok g us eg build" "i < length us" "us ! i = s"
    by (cases r) (auto simp: added_def)
  then obtain r2 vs where r2: "wrs_add_node g (Some b) eg build True = Some r2" "added g us t r2 vs"
    using wrs_add_node_term [OF b small] by blast
  then obtain j eg2 build2 where j: "r2 = (j, eg2, build2, True)" "build_ok g (us @ vs) eg2 build2"
      "j < length (us @ vs)" "(us @ vs) ! j = t" by (cases r2) (auto simp: added_def)
  have terms: "eg_terms (us @ vs) eg2" using j(2) by (simp add: build_ok_def)
  have ui: "i < length (us @ vs)" "(us @ vs) ! i = s" using i(3,4) by (simp_all add: nth_append)
  have "i \<noteq> EQX_ECLASS_ID_INVALID" "j \<noteq> EQX_ECLASS_ID_INVALID"
    using ui(1) j(3) build_count [OF j(2)] small by linarith+
  then show ?thesis
    using False r(1) i(1) r2(1) j(1) plain rebuild_clean [OF terms] equiv_terms [OF terms ui(1) j(3)] ui(2) j(4)
    by (simp add: wrs_nodes_equivalent_def)
qed

text \<open>
  C16. What equivalence decides. Take two nodes that unfold to finite trees in which every node has at most
  four inputs (the arity the e-graph can hold; it refuses wider nodes), neither of them a commutative
  operator, in a graph with no more nodes than the e-graph has class ids. \<open>wrs_nodes_equivalent\<close> returns on
  them, and answers yes exactly when their trees of kinds agree. The payloads play no part in it:
  constants of different values and different parameters are equivalent.
\<close>

theorem wrs_nodes_equivalent_iff:
  assumes "has_shape g a s" "has_shape g b t" and "length g \<le> EQX_ECLASS_ID_INVALID"
    and "\<not> wrs_is_eqx_rewritable_kind (wil_node_kind g (Some a))"
        "\<not> wrs_is_eqx_rewritable_kind (wil_node_kind g (Some b))"
  shows "wrs_nodes_equivalent g (Some a) (Some b) = Some (s = t)"
  using assms by (rule nodes_equivalent_shapes)

text \<open>A node without inputs is its kind.\<close>

lemma leaf_shape:
  assumes "n < length g" "wil_node_input_count g (Some n) = 0"
  shows "has_shape g n (Shape (wrs_op_of_kind (wil_node_kind g (Some n))) [])"
  by (rule has_shape.node) (simp_all add: assms)

lemma leaves_equivalent:
  assumes "a < length g" "b < length g" and "length g \<le> EQX_ECLASS_ID_INVALID"
    and "wil_node_input_count g (Some a) = 0" "wil_node_input_count g (Some b) = 0"
    and "wil_node_kind g (Some a) = wil_node_kind g (Some b)"
    and "\<not> wrs_is_eqx_rewritable_kind (wil_node_kind g (Some a))"
  shows "wrs_nodes_equivalent g (Some a) (Some b) = Some True"
  using nodes_equivalent_shapes [OF leaf_shape leaf_shape] assms by simp

text \<open>Operators are told apart by their kinds.\<close>

lemma takeWhile_found:
  "x \<in> set xs \<Longrightarrow> length (takeWhile (\<lambda>y. y \<noteq> x) xs) < length xs \<and> xs ! length (takeWhile (\<lambda>y. y \<noteq> x) xs) = x"
  by (induction xs) auto

lemma wil_kind_num: "wil_node_kind_num k < 42" "wil_node_kinds ! wil_node_kind_num k = k"
proof -
  have "k \<in> set wil_node_kinds" by (cases k) (simp_all add: wil_node_kinds_def)
  note f = takeWhile_found [OF this, folded wil_node_kind_num_def]
  then show "wil_node_kinds ! wil_node_kind_num k = k" by simp
  have "length wil_node_kinds = 42" by (simp add: wil_node_kinds_def)
  then show "wil_node_kind_num k < 42" using f by simp
qed

lemma wrs_op_inj: "wrs_op_of_kind k = wrs_op_of_kind k' \<longleftrightarrow> k = k'"
proof
  assume "wrs_op_of_kind k = wrs_op_of_kind k'"
  then have "unat (of_nat (wil_node_kind_num k) :: u32) = unat (of_nat (wil_node_kind_num k') :: u32)"
    by (simp add: wrs_op_of_kind_def)
  then have "wil_node_kind_num k = wil_node_kind_num k'"
    using wil_kind_num(1) [of k] wil_kind_num(1) [of k'] by (simp add: unat_of_nat_small)
  then show "k = k'" using wil_kind_num(2) by metis
qed simp

end
