(* ===== verification/Wrs_Plain.thy ===== *)
theory Wrs_Plain
  imports Wrs_Equivalence
begin

text \<open>
  Graphs without commutative operators in the e-graph of the rewriter: saturation finds nothing to
  do, and normalising a node by its e-graph gives a node with the same tree of operators or nothing.
\<close>

section \<open>The e-graph is left alone\<close>

lemma terms_find: "eg_terms ts eg \<Longrightarrow> c < length ts \<Longrightarrow> eqx_egraph_find eg c = Some (c, eg)"
  by (simp add: eg_terms_def eqx_egraph_find_def find_self [of _ "length ts"])

lemma terms_iter:
  assumes "eg_terms ts eg"
  shows "eqx_iter_next eg c = Some (if c < length ts then Some c else None, eg)"
  using assms terms_find [OF assms, of c] by (subst eqx_iter_next.simps) (simp add: eg_terms_def)

lemma terms_no_match:
  assumes "eg_terms ts eg" "c < length ts" "shape_op (ts ! c) \<noteq> op"
  shows "eqx_match_pattern (EqxApp op ps) c eg subst = Some (False, eg, subst)"
proof -
  from assms(1,2) obtain p where p: "p < length (eg_heap eg)" "ec_nodes (eg_classes eg ! c) = Some p"
      "en_next (eg_heap eg ! p) = None" "en_op (eg_heap eg ! p) = shape_op (ts ! c)"
    by (auto simp: eg_terms_def single_node_def)
  then have "eqx_nodes_from (eg_heap eg) (Some p) = Some [eg_heap eg ! p]"
    by (subst eqx_nodes_from.simps, subst eqx_nodes_from.simps) simp
  then show ?thesis using assms p terms_find [OF assms(1,2)] by (simp add: eg_terms_def)
qed

lemma terms_apply_from:
  assumes "eg_terms ts eg" "eqx_lhs rule = EqxApp op ps" "\<forall>t\<in>set ts. shape_op t \<noteq> op"
  shows "eqx_apply_all_from rule eg c acc = Some (acc, eg)"
proof (induction "length ts - c" arbitrary: c)
  case 0
  then show ?case by (subst eqx_apply_all_from.simps) (simp add: terms_iter [OF assms(1)])
next
  case (Suc d)
  then have c: "c < length ts" "d = length ts - (c + 1)" by auto
  then show ?case
    using Suc.hyps(1) [OF c(2)] assms(3) terms_no_match [OF assms(1) c(1), of op ps "[]"]
    by (subst eqx_apply_all_from.simps)
      (simp add: terms_iter [OF assms(1)] eqx_rewrite_apply_def assms(2) del: eqx_match_pattern.simps)
qed

definition rewriting_ops :: "u32 set" where
  "rewriting_ops = wrs_op_of_kind ` {WIL_NODE_ADD, WIL_NODE_MUL, WIL_NODE_AND, WIL_NODE_OR, WIL_NODE_XOR}"

lemma terms_saturate:
  assumes "eg_terms ts eg" "\<forall>t\<in>set ts. shape_op t \<notin> rewriting_ops"
  shows "wrs_saturate_eqx eg k = Some (0, eg)"
proof -
  have rules: "\<forall>rule\<in>set wrs_eqx_rules. eqx_rewrite_apply_all rule eg = Some (0, eg)"
  proof
    fix rule assume "rule \<in> set wrs_eqx_rules"
    then obtain op ps where op: "eqx_lhs rule = EqxApp op ps" "op \<in> rewriting_ops"
      by (auto simp: wrs_eqx_rules_def wrs_make_comm_rule_def wrs_make_assoc_rule_def wrs_pattern_binop_def
          rewriting_ops_def)
    then show "eqx_rewrite_apply_all rule eg = Some (0, eg)"
      unfolding eqx_rewrite_apply_all_def using assms(2) by (intro terms_apply_from [OF assms(1) op(1)]) auto
  qed
  have loop: "loop (\<lambda>(count, eg) rule. do { (n, eg) \<leftarrow> eqx_rewrite_apply_all rule eg; Some (count + n, eg) }) (0, eg) rs
      = Some (0, eg)" if "set rs \<subseteq> set wrs_eqx_rules" for rs
    using that rules by (induction rs) auto
  obtain j where "(if k = 0 then 1 else k) = Suc j" by (cases k) auto
  then show ?thesis using loop by (simp add: wrs_saturate_eqx_def)
qed

section \<open>The node that is picked\<close>

lemma terms_pick:
  assumes "eg_terms ts eg" "root < length ts" "\<forall>(n, i)\<in>set build. i < length ts" "c \<le> root"
  shows "\<exists>p. wrs_pick_from g eg build root c = Some p \<and> (\<forall>n. p = Some n \<longrightarrow> (n, root) \<in> set build)"
  using assms(4)
proof (induction "root - c" arbitrary: c)
  case 0
  then have c: "c = root" by simp
  have "\<exists>best cost. loop (\<lambda>(best, cost, eg) (n, i). do {
               (r1, eg) \<leftarrow> eqx_egraph_find eg i;
               (r2, eg) \<leftarrow> eqx_egraph_find eg root;
               Some (if r1 = r2 \<and> wrs_node_cost g n < cost then (Some n, wrs_node_cost g n, eg)
                     else (best, cost, eg)) }) (best0, cost0, eg) xs = Some (best, cost, eg)
      \<and> (\<forall>n. best = Some n \<longrightarrow> best0 = Some n \<or> (n, root) \<in> set xs)"
    if "\<forall>(n, i)\<in>set xs. i < length ts" for best0 cost0 xs
    using that
  proof (induction xs arbitrary: best0 cost0)
    case (Cons x xs)
    obtain n i where x: "x = (n, i)" by fastforce
    let ?take = "i = root \<and> wrs_node_cost g n < cost0"
    obtain best cost where "loop (\<lambda>(best, cost, eg) (n, i). do {
               (r1, eg) \<leftarrow> eqx_egraph_find eg i;
               (r2, eg) \<leftarrow> eqx_egraph_find eg root;
               Some (if r1 = r2 \<and> wrs_node_cost g n < cost then (Some n, wrs_node_cost g n, eg)
                     else (best, cost, eg)) })
          (if ?take then (Some n, wrs_node_cost g n, eg) else (best0, cost0, eg)) xs = Some (best, cost, eg)"
        "\<forall>m. best = Some m \<longrightarrow> (if ?take then Some n else best0) = Some m \<or> (m, root) \<in> set xs"
      using Cons.IH [of "if ?take then Some n else best0" "if ?take then wrs_node_cost g n else cost0"] Cons.prems
      by (cases ?take) auto
    then show ?case
      using Cons.prems assms(2) by (cases ?take) (auto simp: x terms_find [OF assms(1)])
  qed simp
  from this [OF assms(3), of None "10 ^ 18"] show ?case
    unfolding c using assms(2)
    by (subst wrs_pick_from.simps) (auto simp: terms_iter [OF assms(1)] terms_find [OF assms(1)])
next
  case (Suc d)
  then have c: "c < root" "d = root - (c + 1)" "c + 1 \<le> root" by auto
  then show ?case
    using Suc.hyps(1) [OF c(2,3)] assms(2)
    by (subst wrs_pick_from.simps) (simp add: terms_iter [OF assms(1)] terms_find [OF assms(1)])
qed

lemma plain_normalized:
  assumes "has_shape g n s" and small: "length g \<le> EQX_ECLASS_ID_INVALID"
    and plain: "\<And>m. m < length g \<Longrightarrow> \<not> wrs_is_eqx_rewritable_kind (wil_node_kind g (Some m))"
  shows "\<exists>p. wrs_normalize_with_egraph g (Some n) k = Some p \<and> (\<forall>m. p = Some m \<longrightarrow> has_shape g m s)"
proof -
  have "build_ok g [] (eqx_egraph_create (if k = 0 then 1 else k)) []"
    using eg_terms_create by (simp add: build_ok_def)
  from wrs_add_node_term [OF assms(1) small this] obtain i eg build ts where
      add: "wrs_add_node g (Some n) (eqx_egraph_create (if k = 0 then 1 else k)) [] True = Some (i, eg, build, True)"
      "build_ok g ts eg build" "i < length ts" "ts ! i = s"
    by (force simp: added_def)
  have terms: "eg_terms ts eg" using add(2) by (simp add: build_ok_def)
  have "shape_op t \<notin> rewriting_ops" if "t \<in> set ts" for t
  proof -
    obtain m where "has_shape g m t" using add(2) \<open>t \<in> set ts\<close> by (auto simp: build_ok_def)
    then have "m < length g" "shape_op t = wrs_op_of_kind (wil_node_kind g (Some m))"
      by (auto elim: has_shapeE)
    with plain [of m] show ?thesis
      by (auto simp: rewriting_ops_def wrs_op_inj wrs_is_eqx_rewritable_kind_def split: WILNodeKind.splits)
  qed
  then have sat: "wrs_saturate_eqx eg k = Some (0, eg)" by (intro terms_saturate [OF terms]) simp
  have i: "i \<noteq> EQX_ECLASS_ID_INVALID" using build_count [OF add(2)] small add(3) by linarith
  have "\<forall>(n, j)\<in>set build. j < length ts" using add(2) by (auto simp: build_ok_def)
  from terms_pick [OF terms add(3) this, of 0 g] obtain p where
      "wrs_pick_best g eg build i = Some p" "\<forall>m. p = Some m \<longrightarrow> (m, i) \<in> set build"
    by (auto simp: wrs_pick_best_def)
  moreover from this have "\<forall>m. p = Some m \<longrightarrow> has_shape g m s"
    using add(2,4) by (fastforce simp: build_ok_def)
  ultimately show ?thesis
    using add(1) i by (simp add: wrs_normalize_with_egraph_def rebuild_clean [OF terms] sat)
qed

end
