(* ===== verification/Wrs_Text.thy ===== *)
theory Wrs_Text
  imports Wrs_Loader Sexp_Forms
begin

text \<open>
  Printing and loading fit together: the text of a pattern is the text of an s-expression that
  the loader reads as the same pattern, and the name of a kind is read as the kind.
\<close>

section \<open>Expressions and their text\<close>

fun sexp_render :: "sexp_t \<Rightarrow> string" where
  "sexp_render (SexpValue kind bytes) = (case bytes of None \<Rightarrow> [] | Some t \<Rightarrow> t)"
| "sexp_render (SexpList es) = ''('' @ sep_by '' '' (map sexp_render es) @ '')''"

section \<open>Names and numbers\<close>

lemma parse_kind_str: "wrs_parse_node_kind_symbol (Some (wil_node_kind_str kind)) = Some kind"
proof -
  have "find (\<lambda>k. wil_node_kind_str k = wil_node_kind_str kind) wil_node_kinds \<noteq> None"
    using wil_node_kinds_all [of kind] by (auto simp: find_None_iff)
  then obtain k where "find (\<lambda>k. wil_node_kind_str k = wil_node_kind_str kind) wil_node_kinds = Some k" by auto
  moreover from this have "wil_node_kind_str k = wil_node_kind_str kind" by (auto simp: find_Some_iff)
  ultimately show ?thesis by (simp add: wrs_parse_node_kind_symbol_def wil_node_kind_str_inj)
qed

text \<open>
  The names of node kinds can be read back: a text is the name of a kind exactly when
  reading it gives that kind.
\<close>

theorem wrs_kind_symbol_roundtrip:
  "wrs_parse_node_kind_symbol (Some text) = Some kind \<longleftrightarrow> text = wrs_node_kind_symbol kind"
proof
  assume "wrs_parse_node_kind_symbol (Some text) = Some kind"
  then show "text = wrs_node_kind_symbol kind"
    by (auto simp: wrs_parse_node_kind_symbol_def wrs_node_kind_symbol_def find_Some_iff)
next
  assume "text = wrs_node_kind_symbol kind"
  then show "wrs_parse_node_kind_symbol (Some text) = Some kind"
    by (simp add: wrs_node_kind_symbol_def parse_kind_str)
qed

lemma parse_int64_show: "wrs_parse_int64 (Some (show_signed v)) = Some v"
  using strtoll_show_signed [of v] by (simp add: wrs_parse_int64_def)

text \<open>A number is none of the words of the pattern language.\<close>

lemma show_signed_head:
  obtains c cs where "show_signed (v :: u64) = c # cs" "is_digit c \<or> c = CHR ''-''" "list_all is_digit cs"
proof (cases "sint v < 0")
  case True
  then show thesis using that [of "CHR ''-''" "show_nat (nat (- sint v))"] show_nat_digits
    by (simp add: show_signed_def show_int_def)
next
  case False
  obtain c cs where "show_nat (nat (sint v)) = c # cs" "is_digit c" "list_all is_digit cs"
    using show_nat_digits [of "nat (sint v)"] by (cases "show_nat (nat (sint v))") auto
  then show thesis using that False by (simp add: show_signed_def show_int_def)
qed

lemma number_head: "is_digit c \<or> c = CHR ''-'' \<Longrightarrow> c \<notin> {CHR ''_'', CHR ''?'', CHR ''t'', CHR ''f'', CHR 0x00}"
  by (auto simp: is_digit_def)

lemma digits_c_string: "list_all is_digit cs \<Longrightarrow> c_string cs = cs"
  by (rule c_string_id) (auto simp: list_all_iff is_digit_def)

lemma number_c_string: "c_string (show_signed (v :: u64)) = show_signed v"
proof -
  obtain c cs where c: "show_signed v = c # cs" "is_digit c \<or> c = CHR ''-''" "list_all is_digit cs"
    by (rule show_signed_head)
  then show ?thesis using number_head [OF c(2)] digits_c_string [OF c(3)] by (simp add: c_string_Cons)
qed

lemma read_number: "wrs_pattern_from_node (wirble_sexp_build_node (bare (show_signed v))) = wilPatConst v"
proof -
  obtain c cs where c: "show_signed v = c # cs" "is_digit c \<or> c = CHR ''-''" by (rule show_signed_head)
  then show ?thesis using parse_int64_show [of v] number_head [OF c(2)] number_c_string [of v]
    by (simp add: bare_node wrs_const_pattern_from_atom_def sexp_text_def wilPatConst_def)
qed

section \<open>Patterns\<close>

text \<open>The patterns that can be written: named variables and sequences, integers, truth values, no computed test.\<close>

fun writable :: "pat_ptr \<Rightarrow> bool" and all_writable :: "pat_ptr list \<Rightarrow> bool" where
  "writable None \<longleftrightarrow> False"
| "writable (Some (WIL_PAT_VAR name)) \<longleftrightarrow> (case name of None \<Rightarrow> False | Some x \<Rightarrow> CHR 0x00 \<notin> set x)"
| "writable (Some (WIL_PAT_CONST v)) \<longleftrightarrow>
     (case v of WIL_PATTERN_VALUE_INT _ \<Rightarrow> True | WIL_PATTERN_VALUE_FLOAT _ \<Rightarrow> False
      | WIL_PATTERN_VALUE_BOOL b \<Rightarrow> b = 0 \<or> b = 1)"
| "writable (Some (WIL_PAT_NODE kind ps)) \<longleftrightarrow> all_writable ps"
| "writable (Some WIL_PAT_WILDCARD) \<longleftrightarrow> True"
| "writable (Some (WIL_PAT_PREDICATE p)) \<longleftrightarrow> False"
| "writable (Some (WIL_PAT_SEQUENCE name e)) \<longleftrightarrow>
     (case name of None \<Rightarrow> False | Some x \<Rightarrow> CHR 0x00 \<notin> set x) \<and> writable e"
| "writable (Some (WIL_PAT_REFINEMENT b)) \<longleftrightarrow> writable b"
| "all_writable [] \<longleftrightarrow> True"
| "all_writable (p # ps) \<longleftrightarrow> writable p \<and> all_writable ps"

fun pattern_sexp :: "pat_ptr \<Rightarrow> sexp_t" and pattern_sexps :: "pat_ptr list \<Rightarrow> sexp_t list" where
  "pattern_sexp None = bare ''<null>''"
| "pattern_sexp (Some (WIL_PAT_VAR name)) = bare (''?'' @ name_text name)"
| "pattern_sexp (Some (WIL_PAT_CONST v)) =
     (case v of WIL_PATTERN_VALUE_INT i \<Rightarrow> bare (show_signed i) | WIL_PATTERN_VALUE_FLOAT _ \<Rightarrow> bare ''<const>''
      | WIL_PATTERN_VALUE_BOOL b \<Rightarrow> bare (if b \<noteq> 0 then ''true'' else ''false''))"
| "pattern_sexp (Some (WIL_PAT_NODE kind ps)) = SexpList (bare (wil_node_kind_str kind) # pattern_sexps ps)"
| "pattern_sexp (Some WIL_PAT_WILDCARD) = bare ''_''"
| "pattern_sexp (Some (WIL_PAT_PREDICATE p)) = SexpList [bare ''pred'']"
| "pattern_sexp (Some (WIL_PAT_SEQUENCE name e)) = SexpList [bare ''seq'', bare (''?'' @ name_text name), pattern_sexp e]"
| "pattern_sexp (Some (WIL_PAT_REFINEMENT b)) = SexpList [bare ''refine'', pattern_sexp b]"
| "pattern_sexps [] = []"
| "pattern_sexps (p # ps) = pattern_sexp p # pattern_sexps ps"

lemma render_bare [simp]: "sexp_render (bare t) = t"
  by (simp add: bare_def)

lemma render_pattern:
  "writable p \<Longrightarrow> sexp_render (pattern_sexp p) = wrs_pattern_to_buffer show_g p"
  "all_writable ps \<Longrightarrow> concat (map (\<lambda>u. '' '' @ u) (map sexp_render (pattern_sexps ps))) = wrs_inputs_to_buffer show_g ps"
  by (induction p and ps rule: pattern_sexp_pattern_sexps.induct)
    (auto simp: sep_by_def wrs_node_kind_symbol_def split: WILPatternValue.splits option.splits)

lemma kind_str_plain:
  "wil_node_kind_str kind \<notin> {''seq'', ''refine'', ''pred''}" "c_string (wil_node_kind_str kind) = wil_node_kind_str kind"
proof -
  have "wil_node_kind_str kind \<in> set (map wil_node_kind_str wil_node_kinds)" using wil_node_kinds_all by auto
  then show "wil_node_kind_str kind \<notin> {''seq'', ''refine'', ''pred''}" "c_string (wil_node_kind_str kind) = wil_node_kind_str kind"
    unfolding wil_node_kind_strs by (auto simp: c_string_id)
qed

lemma name_c_string: "CHR 0x00 \<notin> set x \<Longrightarrow> c_string (CHR ''?'' # x) = CHR ''?'' # x"
  by (intro c_string_id) (auto simp: list_all_iff)

lemma words_c_string: "c_string ''seq'' = ''seq''" "c_string ''refine'' = ''refine''" "c_string ''_'' = ''_''"
    "c_string ''true'' = ''true''" "c_string ''false'' = ''false''"
  by (simp_all add: c_string_id)

lemma read_pattern:
  "writable p \<Longrightarrow> wrs_pattern_from_node (wirble_sexp_build_node (pattern_sexp p)) = p"
  "all_writable ps \<Longrightarrow> map (wrs_pattern_from_node \<circ> wirble_sexp_build_node) (pattern_sexps ps) = ps"
proof (induction p and ps rule: pattern_sexp_pattern_sexps.induct)
  case (3 v)
  then show ?case
    by (cases v) (auto simp: read_number wilPatConst_def bare_node words_c_string wrs_const_pattern_from_atom_def sexp_text_def)
next
  case (4 kind ps)
  then show ?case using kind_str_plain [of kind] parse_kind_str [of kind]
    by (simp add: build_map bare_node wrs_atom_is_def sexp_text_def wilPatNode_def o_def)
next
  case (7 name e)
  then show ?case
    by (auto simp: bare_node words_c_string name_c_string wrs_atom_is_def wirble_sexp_node_is_atom_def sexp_text_def
        wilPatSequence_def skip_question_def name_text_def split: option.splits)
next
  case (8 b)
  then show ?case
    by (simp add: bare_node words_c_string wrs_atom_is_def wirble_sexp_node_is_atom_def sexp_text_def wilPatRefinement_def)
qed (auto simp: bare_node name_c_string words_c_string name_text_def wilPatVar_def wilPatWildcard_def split: option.splits)

text \<open>
  C18. What is printed can be loaded. The text of a pattern made of named variables, integers,
  truth values, nodes, sequences and refinements is the text of an expression that the loader
  reads as exactly that pattern.
\<close>

theorem wrs_pattern_roundtrip:
  assumes "writable p"
  shows "\<exists>e. sexp_render e = wilPatternToString show_g p
     \<and> wrs_pattern_from_sexp_node (wirble_sexp_build_from_sfsexp [e]) = p"
  using render_pattern(1) [OF assms] read_pattern(1) [OF assms]
  by (intro exI [of _ "pattern_sexp p"]) (simp add: wilPatternToString_def wrs_pattern_from_sexp_node_def)

theorem wrs_pattern_roundtrip_witness:
  "\<exists>e. sexp_render e = ''(sub ?x -7)''
     \<and> wrs_pattern_from_sexp_node (wirble_sexp_build_from_sfsexp [e])
        = Some (WIL_PAT_NODE WIL_NODE_SUB [Some (WIL_PAT_VAR (Some ''x'')), Some (WIL_PAT_CONST (WIL_PATTERN_VALUE_INT (- 7)))])"
proof -
  have "show_signed (- 7 :: u64) = ''-7''" by code_simp
  then show ?thesis
    using wrs_pattern_roundtrip [of "Some (WIL_PAT_NODE WIL_NODE_SUB [Some (WIL_PAT_VAR (Some ''x'')),
      Some (WIL_PAT_CONST (WIL_PATTERN_VALUE_INT (- 7)))])" "\<lambda>_. []"]
    by (simp add: wilPatternToString_def wrs_node_kind_symbol_def wil_node_kind_str_def name_text_def)
qed

end
