(* ===== verification/Wrs_Rules.thy ===== *)
theory Wrs_Rules
  imports Wrs_Text Wrs_Rewrite Wrs_Equivalence "HOL-Library.Signed_Division"
begin

text \<open>
  The shipped arithmetic rules \<^verbatim>\<open>stdrewrite/arithmetic.wrs\<close> under the arithmetic of 64-bit
  words: which of them keep values and make nodes lighter, and what goes wrong with the
  ones that use a variable twice.
\<close>

section \<open>The rules\<close>

definition arithmetic_wrs :: "sexp_t list" where
  "arithmetic_wrs =
    [rule_form ''add-zero-right'' (binary_form ''add'' ''?x'' ''0'') (bare ''?x''),
     rule_form ''add-zero-left'' (binary_form ''add'' ''0'' ''?x'') (bare ''?x''),
     rule_form ''sub-zero'' (binary_form ''sub'' ''?x'' ''0'') (bare ''?x''),
     rule_form ''sub-zero-left'' (binary_form ''sub'' ''0'' ''?x'') (unary_form ''neg'' ''?x''),
     rule_form ''sub-self'' (binary_form ''sub'' ''?x'' ''?x'') (bare ''0''),
     rule_form ''mul-one-right'' (binary_form ''mul'' ''?x'' ''1'') (bare ''?x''),
     rule_form ''mul-one-left'' (binary_form ''mul'' ''1'' ''?x'') (bare ''?x''),
     rule_form ''mul-zero-right'' (binary_form ''mul'' ''?x'' ''0'') (bare ''0''),
     rule_form ''mul-zero-left'' (binary_form ''mul'' ''0'' ''?x'') (bare ''0''),
     rule_form ''div-one'' (binary_form ''div'' ''?x'' ''1'') (bare ''?x''),
     rule_form ''div-self'' (binary_form ''div'' ''?x'' ''?x'') (bare ''1''),
     rule_form ''mod-one'' (binary_form ''mod'' ''?x'' ''1'') (bare ''0''),
     rule_form ''neg-zero'' (unary_form ''neg'' ''0'') (bare ''0''),
     rule_form ''abs-zero'' (unary_form ''abs'' ''0'') (bare ''0''),
     rule_form ''shl-zero'' (binary_form ''shl'' ''?x'' ''0'') (bare ''?x''),
     rule_form ''shr-zero'' (binary_form ''shr'' ''?x'' ''0'') (bare ''?x''),
     rule_form ''add-self'' (binary_form ''add'' ''?x'' ''?x'') (binary_form ''mul'' ''?x'' ''2'')]"

text \<open>The same rules as patterns.\<close>

abbreviation "px \<equiv> Some (WIL_PAT_VAR (Some ''x''))"
abbreviation "pc v \<equiv> Some (WIL_PAT_CONST (WIL_PATTERN_VALUE_INT v))"
abbreviation "p1 kind a \<equiv> Some (WIL_PAT_NODE kind [a])"
abbreviation "p2 kind a b \<equiv> Some (WIL_PAT_NODE kind [a, b])"

definition arithmetic_rules :: "WILRewriteRule list" where
  "arithmetic_rules = map (\<lambda>(name, lhs, rhs). wilRuleCreateSimple (Some name) lhs rhs)
    [(''add-zero-right'', p2 WIL_NODE_ADD px (pc 0), px),
     (''add-zero-left'', p2 WIL_NODE_ADD (pc 0) px, px),
     (''sub-zero'', p2 WIL_NODE_SUB px (pc 0), px),
     (''sub-zero-left'', p2 WIL_NODE_SUB (pc 0) px, p1 WIL_NODE_NEG px),
     (''sub-self'', p2 WIL_NODE_SUB px px, pc 0),
     (''mul-one-right'', p2 WIL_NODE_MUL px (pc 1), px),
     (''mul-one-left'', p2 WIL_NODE_MUL (pc 1) px, px),
     (''mul-zero-right'', p2 WIL_NODE_MUL px (pc 0), pc 0),
     (''mul-zero-left'', p2 WIL_NODE_MUL (pc 0) px, pc 0),
     (''div-one'', p2 WIL_NODE_DIV px (pc 1), px),
     (''div-self'', p2 WIL_NODE_DIV px px, pc 1),
     (''mod-one'', p2 WIL_NODE_MOD px (pc 1), pc 0),
     (''neg-zero'', p1 WIL_NODE_NEG (pc 0), pc 0),
     (''abs-zero'', p1 WIL_NODE_ABS (pc 0), pc 0),
     (''shl-zero'', p2 WIL_NODE_SHL px (pc 0), px),
     (''shr-zero'', p2 WIL_NODE_SHR px (pc 0), px),
     (''add-self'', p2 WIL_NODE_ADD px px, p2 WIL_NODE_MUL px (pc 2))]"

lemma read_numbers:
  "strtoll ''0'' = (0, [])" "strtoll ''1'' = (1, [])" "strtoll ''2'' = (2, [])"
  by code_simp+

lemma read_symbols:
  "wrs_parse_node_kind_symbol (Some ''add'') = Some WIL_NODE_ADD"
  "wrs_parse_node_kind_symbol (Some ''sub'') = Some WIL_NODE_SUB"
  "wrs_parse_node_kind_symbol (Some ''mul'') = Some WIL_NODE_MUL"
  "wrs_parse_node_kind_symbol (Some ''div'') = Some WIL_NODE_DIV"
  "wrs_parse_node_kind_symbol (Some ''mod'') = Some WIL_NODE_MOD"
  "wrs_parse_node_kind_symbol (Some ''neg'') = Some WIL_NODE_NEG"
  "wrs_parse_node_kind_symbol (Some ''abs'') = Some WIL_NODE_ABS"
  "wrs_parse_node_kind_symbol (Some ''shl'') = Some WIL_NODE_SHL"
  "wrs_parse_node_kind_symbol (Some ''shr'') = Some WIL_NODE_SHR"
  by code_simp+

lemma read_bare:
  "wrs_pattern_from_node (wirble_sexp_build_node (bare ''?x'')) = px"
  "wrs_pattern_from_node (wirble_sexp_build_node (bare ''0'')) = pc 0"
  "wrs_pattern_from_node (wirble_sexp_build_node (bare ''1'')) = pc 1"
  "wrs_pattern_from_node (wirble_sexp_build_node (bare ''2'')) = pc 2"
  by (simp_all add: bare_def c_string_def wilPatVar_def wilPatConst_def wrs_const_pattern_from_atom_def
      wrs_parse_int64_def sexp_text_def read_numbers)

lemma read_form:
  assumes "wrs_parse_node_kind_symbol (Some op) = Some kind" "c_string op = op" "op \<notin> {''seq'', ''refine'', ''pred''}"
  shows "wrs_pattern_from_node (wirble_sexp_build_node (binary_form op a b)) =
      p2 kind (wrs_pattern_from_node (wirble_sexp_build_node (bare a))) (wrs_pattern_from_node (wirble_sexp_build_node (bare b)))"
    and "wrs_pattern_from_node (wirble_sexp_build_node (unary_form op a)) =
      p1 kind (wrs_pattern_from_node (wirble_sexp_build_node (bare a)))"
proof -
  have head: "wirble_sexp_build_node (bare op) = WIRBLE_SEXP_NODE_ATOM WIRBLE_SEXP_ATOM_BARE op (length op)"
    using assms(2) by (simp add: bare_def wirble_sexp_atom_kind_from_sfsexp_def Let_def)
  show "wrs_pattern_from_node (wirble_sexp_build_node (binary_form op a b)) =
      p2 kind (wrs_pattern_from_node (wirble_sexp_build_node (bare a))) (wrs_pattern_from_node (wirble_sexp_build_node (bare b)))"
    "wrs_pattern_from_node (wirble_sexp_build_node (unary_form op a)) =
      p1 kind (wrs_pattern_from_node (wirble_sexp_build_node (bare a)))"
    using assms(1,3) by (simp_all add: binary_form_def unary_form_def head wrs_atom_is_def sexp_text_def wilPatNode_def)
qed

lemma atom_is_equals: "wrs_atom_is p t = wirble_sexp_atom_equals p t"
  by (simp add: wrs_atom_is_def wirble_sexp_atom_equals_def)

text \<open>A form of the file is loaded as the rule it spells.\<close>

lemma load_rule_form:
  assumes "c_string name = name" "no_keyword (bare name)" "no_keyword lhs" "no_keyword rhs"
  shows "wrs_load_form strtod file (wirble_sexp_build_node (rule_form name lhs rhs)) =
    file\<lparr>wf_rules := wf_rules file @ [wilRuleCreateSimple (Some name)
      (wrs_pattern_from_node (wirble_sexp_build_node lhs)) (wrs_pattern_from_node (wirble_sexp_build_node rhs))]\<rparr>"
  by (simp only: extract_rule_form [OF assms(2-4)] wrs_load_form_def Let_def list_is_list atom_is_equals drop_0
      wrs_rule_from_tree_def)
    (simp add: sexp_text_def bare_node [OF assms(1)] wrs_pattern_from_sexp_node_def)

lemma foldl_load_forms:
  assumes "\<forall>(name, lhs, rhs)\<in>set rs. c_string name = name \<and> no_keyword (bare name) \<and> no_keyword lhs \<and> no_keyword rhs"
  shows "foldl (wrs_load_form strtod) fl (map (\<lambda>(name, lhs, rhs). wirble_sexp_build_node (rule_form name lhs rhs)) rs) =
    fl\<lparr>wf_rules := wf_rules fl @ map (\<lambda>(name, lhs, rhs). wilRuleCreateSimple (Some name)
      (wrs_pattern_from_node (wirble_sexp_build_node lhs)) (wrs_pattern_from_node (wirble_sexp_build_node rhs))) rs\<rparr>"
  using assms by (induction rs arbitrary: fl) (auto simp: load_rule_form)

text \<open>
  The shipped file is read as its rules. From the expressions of
  \<^verbatim>\<open>stdrewrite/arithmetic.wrs\<close> the loader makes the seventeen rules, in the order of the
  file, with the default strategy.
\<close>

theorem arithmetic_wrs_loaded:
  "wrs_file_load_tree strtod ((wirble_sexp_tree_init diag)
      \<lparr>st_root := [WIRBLE_SEXP_NODE_LIST (wirble_sexp_build_from_sfsexp arithmetic_wrs)]\<rparr>)
   = \<lparr>wf_rules = arithmetic_rules, wf_strategy = WIL_STRATEGY_INNERMOST\<rparr>"
proof -
  define rs where "rs =
    [(''add-zero-right'', binary_form ''add'' ''?x'' ''0'', bare ''?x''),
     (''add-zero-left'', binary_form ''add'' ''0'' ''?x'', bare ''?x''),
     (''sub-zero'', binary_form ''sub'' ''?x'' ''0'', bare ''?x''),
     (''sub-zero-left'', binary_form ''sub'' ''0'' ''?x'', unary_form ''neg'' ''?x''),
     (''sub-self'', binary_form ''sub'' ''?x'' ''?x'', bare ''0''),
     (''mul-one-right'', binary_form ''mul'' ''?x'' ''1'', bare ''?x''),
     (''mul-one-left'', binary_form ''mul'' ''1'' ''?x'', bare ''?x''),
     (''mul-zero-right'', binary_form ''mul'' ''?x'' ''0'', bare ''0''),
     (''mul-zero-left'', binary_form ''mul'' ''0'' ''?x'', bare ''0''),
     (''div-one'', binary_form ''div'' ''?x'' ''1'', bare ''?x''),
     (''div-self'', binary_form ''div'' ''?x'' ''?x'', bare ''1''),
     (''mod-one'', binary_form ''mod'' ''?x'' ''1'', bare ''0''),
     (''neg-zero'', unary_form ''neg'' ''0'', bare ''0''),
     (''abs-zero'', unary_form ''abs'' ''0'', bare ''0''),
     (''shl-zero'', binary_form ''shl'' ''?x'' ''0'', bare ''?x''),
     (''shr-zero'', binary_form ''shr'' ''?x'' ''0'', bare ''?x''),
     (''add-self'', binary_form ''add'' ''?x'' ''?x'', binary_form ''mul'' ''?x'' ''2'')]"
  have forms: "wirble_sexp_build_from_sfsexp arithmetic_wrs =
      map (\<lambda>(name, lhs, rhs). wirble_sexp_build_node (rule_form name lhs rhs)) rs"
    by (simp add: build_map arithmetic_wrs_def rs_def)
  have "\<forall>(name, lhs, rhs)\<in>set rs. c_string name = name \<and> no_keyword (bare name) \<and> no_keyword lhs \<and> no_keyword rhs"
    by (simp add: rs_def forms_no_keyword bare_no_keyword c_string_id)
  note load = foldl_load_forms [OF this]
  have rules: "map (\<lambda>(name, lhs, rhs). wilRuleCreateSimple (Some name)
      (wrs_pattern_from_node (wirble_sexp_build_node lhs)) (wrs_pattern_from_node (wirble_sexp_build_node rhs))) rs = arithmetic_rules"
    by (simp add: rs_def arithmetic_rules_def read_bare read_form [OF read_symbols(1)] read_form [OF read_symbols(2)]
        read_form [OF read_symbols(3)] read_form [OF read_symbols(4)] read_form [OF read_symbols(5)]
        read_form [OF read_symbols(6)] read_form [OF read_symbols(7)] read_form [OF read_symbols(8)]
        read_form [OF read_symbols(9)] c_string_id)
  show ?thesis
    by (simp add: wrs_file_load_tree_def wirble_sexp_tree_root_def wirble_sexp_node_child_def
        wirble_sexp_node_is_list_def sexp_children_def forms load rules wrs_file_alloc_def)
qed

section \<open>Arithmetic of words\<close>

text \<open>
  Values are 64-bit words; division and remainder truncate, shifts take their amount modulo
  64, comparisons give 0 or 1. Parameters are given by an environment; memory, control and
  calls have no value here.
\<close>

definition bool_val :: "bool \<Rightarrow> u64" where
  "bool_val b = (if b then 1 else 0)"

definition word_unary :: "WILNodeKind \<Rightarrow> u64 \<Rightarrow> u64" where
  "word_unary kind a =
     (case kind of
        WIL_NODE_NEG \<Rightarrow> - a | WIL_NODE_NOT \<Rightarrow> not a
      | WIL_NODE_ABS \<Rightarrow> if sint a < 0 then - a else a | _ \<Rightarrow> 0)"

definition word_binary :: "WILNodeKind \<Rightarrow> u64 \<Rightarrow> u64 \<Rightarrow> u64" where
  "word_binary kind a b =
     (case kind of
        WIL_NODE_ADD \<Rightarrow> a + b | WIL_NODE_SUB \<Rightarrow> a - b | WIL_NODE_MUL \<Rightarrow> a * b
      | WIL_NODE_DIV \<Rightarrow> word_of_int (sint a sdiv sint b) | WIL_NODE_MOD \<Rightarrow> word_of_int (sint a smod sint b)
      | WIL_NODE_AND \<Rightarrow> and a b | WIL_NODE_OR \<Rightarrow> or a b | WIL_NODE_XOR \<Rightarrow> xor a b
      | WIL_NODE_SHL \<Rightarrow> push_bit (unat b mod 64) a | WIL_NODE_SHR \<Rightarrow> signed_drop_bit (unat b mod 64) a
      | WIL_NODE_EQ \<Rightarrow> bool_val (a = b) | WIL_NODE_NE \<Rightarrow> bool_val (a \<noteq> b)
      | WIL_NODE_LT \<Rightarrow> bool_val (sint a < sint b) | WIL_NODE_LE \<Rightarrow> bool_val (sint a \<le> sint b)
      | WIL_NODE_GT \<Rightarrow> bool_val (sint b < sint a) | WIL_NODE_GE \<Rightarrow> bool_val (sint b \<le> sint a) | _ \<Rightarrow> 0)"

definition word_sem :: "(u64 \<Rightarrow> u64) \<Rightarrow> WILNodeKind \<Rightarrow> u64 \<Rightarrow> u64 list \<Rightarrow> u64" where
  "word_sem env kind payload vs =
     (case kind of
        WIL_NODE_CONST_INT \<Rightarrow> payload | WIL_NODE_CONST_BOOL \<Rightarrow> bool_val ((ucast payload :: u32) \<noteq> 0)
      | WIL_NODE_CONST_FLOAT \<Rightarrow> payload | WIL_NODE_PARAM \<Rightarrow> env payload
      | _ \<Rightarrow> (case vs of [a] \<Rightarrow> word_unary kind a | [a, b] \<Rightarrow> word_binary kind a b
              | [a, b, c] \<Rightarrow> if kind = WIL_NODE_SELECT then (if a \<noteq> 0 then b else c) else 0 | _ \<Rightarrow> 0))"

lemma word_sem_respects: "sem_respects (word_sem env)"
  unfolding sem_respects_def
proof (intro conjI allI impI)
  show "word_sem env kind payload vs = word_sem env kind 0 vs" if "wrs_arity kind \<noteq> None" for kind payload vs
    using that by (cases kind) (simp_all add: wrs_arity_def word_sem_def)
qed (simp_all add: word_sem_def bool_val_def)

text \<open>The rules of the file that use no variable twice.\<close>

definition linear_rules :: "WILRewriteRule list" where
  "linear_rules = filter (\<lambda>r. distinct (pat_vars (wr_lhs r))) arithmetic_rules"

lemma linear_rules_decrease: "wrs_rules_decrease (\<lambda>_. 1) (word_sem env) 0 linear_rules"
  by (simp add: linear_rules_def arithmetic_rules_def wilRuleCreateSimple_def wilRuleCreate_def wrs_rules_decrease_def
      rule_decreases_def wrs_arity_def word_sem_def word_unary_def word_binary_def signed_modulo_int_def)

text \<open>
  Fourteen of the seventeen shipped arithmetic rules are linear, and all of those keep the
  value of 64-bit words and make a node lighter, counting every node as one.
\<close>

theorem arithmetic_rules_decrease:
  "length linear_rules = 14 \<and> wrs_rules_decrease (\<lambda>_. 1) (word_sem env) 0 linear_rules"
  using linear_rules_decrease by (simp add: linear_rules_def arithmetic_rules_def wilRuleCreateSimple_def wilRuleCreate_def)

section \<open>An example\<close>

text \<open>The sum of a parameter and zero, in a system with the linear rules.\<close>

definition add_zero_graph :: WILGraph where
  "add_zero_graph =
     (let g = snd (wil_make_param [] 0 WIL_TYPE_I32 None);
          g = snd (wil_make_const_int g 0 WIL_TYPE_I32)
      in snd (wil_make_add g (Some 0) (Some 1)))"

definition linear_system :: WILRewriteSystem where
  "linear_system = wilRewriteSystemCreate\<lparr>ws_rules := linear_rules\<rparr>"

lemma add_zero_graph_views:
  "length add_zero_graph = 3" "node_view add_zero_graph 0 = (WIL_NODE_PARAM, 0, [])"
  "node_view add_zero_graph 1 = (WIL_NODE_CONST_INT, 0, [])" "node_view add_zero_graph 2 = (WIL_NODE_ADD, 0, [Some 0, Some 1])"
  by code_simp+

lemma made_linked:
  "made g kind payload ins r \<Longrightarrow> wil_linked g \<Longrightarrow> \<forall>p\<in>set ins. valid_ptr g p \<Longrightarrow> wil_linked (snd r)"
  by (simp add: made_def)

lemma make_linked:
  "wil_linked g \<Longrightarrow> wil_linked (snd (wil_make_param g i ty nm))"
  "wil_linked g \<Longrightarrow> wil_linked (snd (wil_make_const_int g v ty))"
  "wil_linked g \<Longrightarrow> valid_ptr g a \<Longrightarrow> valid_ptr g b \<Longrightarrow> wil_linked (snd (wil_build_binary g kind a b ty))"
proof -
  show "wil_linked g \<Longrightarrow> wil_linked (snd (wil_make_param g i ty nm))"
    unfolding wil_make_param_def by (rule made_linked [OF made_payload [OF made_create]]) simp_all
  show "wil_linked g \<Longrightarrow> wil_linked (snd (wil_make_const_int g v ty))"
    unfolding wil_make_const_int_def by (rule made_linked [OF made_payload [OF made_create]]) simp_all
  show "wil_linked g \<Longrightarrow> valid_ptr g a \<Longrightarrow> valid_ptr g b \<Longrightarrow> wil_linked (snd (wil_build_binary g kind a b ty))"
    by (rule made_linked [OF made_binary]) simp_all
qed

lemma empty_linked: "wil_linked []"
  by (simp add: wil_linked_def)

lemma add_zero_graph_linked: "wil_linked add_zero_graph"
proof -
  have "length (snd (wil_make_const_int (snd (wil_make_param [] 0 WIL_TYPE_I32 None)) 0 WIL_TYPE_I32)) = 2"
    by code_simp
  then show ?thesis unfolding add_zero_graph_def Let_def wil_make_add_def
    by (intro make_linked empty_linked) (simp_all add: valid_ptr_def)
qed

lemma less_three: "(n :: nat) < 3 \<longleftrightarrow> n = 0 \<or> n = 1 \<or> n = 2"
  by auto

lemma add_zero_graph_assigned:
  "wil_weights (\<lambda>_. 1) add_zero_graph (\<lambda>n. if n = 2 then 3 else 1)"
  "wil_values (word_sem (\<lambda>_. 5)) 0 add_zero_graph (\<lambda>n. if n = 1 then 0 else 5)"
  by (auto simp: wil_weights_def wil_values_def add_zero_graph_views add_zero_graph_views(3) [unfolded One_nat_def]
      less_three word_sem_def word_binary_def)

theorem wrs_apply_recursive_sound_witness:
  "\<exists>p sys' g' v'. wrs_apply_recursive linear_system add_zero_graph (Some 2) = Some (Inr (p, sys', g'))
     \<and> wil_linked g' \<and> wil_values (word_sem (\<lambda>_. 5)) 0 g' v' \<and> (p = None \<or> ptr_val 0 v' p = 5)"
proof -
  have rules: "wrs_rules_decrease (\<lambda>_. 1) (word_sem (\<lambda>_. 5)) 0 (ws_rules linear_system)"
    using linear_rules_decrease by (simp add: linear_system_def)
  show ?thesis
    using wrs_apply_recursive_sound [OF _ word_sem_respects rules add_zero_graph_linked add_zero_graph_assigned, of 2]
    by (auto simp: add_zero_graph_views(1))
qed


section \<open>Rules that use a variable twice\<close>

text \<open>
  The second occurrence of a variable is compared by \<open>wrs_nodes_equivalent\<close>, which does not
  look at payloads.
\<close>

definition sub_self :: WILRewriteRule where
  "sub_self = arithmetic_rules ! 4"

lemma sub_self_sides:
  "wr_lhs sub_self = p2 WIL_NODE_SUB px px" "wr_rhs sub_self = pc 0" "wr_action sub_self = None" "wr_enabled sub_self"
  by (simp_all add: sub_self_def arithmetic_rules_def wilRuleCreateSimple_def wilRuleCreate_def)

lemma sub_self_matches:
  assumes n: "n < length g" "node_view g n = (WIL_NODE_SUB, pl, [Some a, Some b])"
    and ab: "a < length g" "b < length g" "wil_node_input_count g (Some a) = 0" "wil_node_input_count g (Some b) = 0"
      "wil_node_kind g (Some a) = wil_node_kind g (Some b)" "\<not> wrs_is_eqx_rewritable_kind (wil_node_kind g (Some a))"
    and small: "length g \<le> EQX_ECLASS_ID_INVALID"
  shows "wilPatternMatch g (wr_lhs sub_self) (Some n)
    = Some \<lparr>wm_succeeded = True, wm_node = Some n, wm_substitution = [(''x'', Some a)]\<rparr>"
proof -
  have same: "wrs_nodes_equivalent g (Some a) (Some b) = Some True"
    by (rule leaves_equivalent) (use ab small in simp_all)
  have "wil_node_kind g (Some n) = WIL_NODE_SUB" "wil_node_input_count g (Some n) = 2"
      "wil_node_input g (Some n) 0 = Some a" "wil_node_input g (Some n) (Suc 0) = Some b"
    using node_reads(1-3) [OF n(1)] n(2) by simp_all
  then show ?thesis using same by (simp add: sub_self_sides wilPatternMatch_def wrs_substitution_bind_def)
qed

text \<open>
  C39. The rule \<open>sub ?x ?x \<Rightarrow> 0\<close> fires on different operands. A subtraction of two inputless
  nodes of the same kind, such as two different parameters or two different constants, is
  replaced by the constant 0.
\<close>

theorem sub_self_ignores_payload:
  assumes "wil_linked g" and "n < length g" "node_view g n = (WIL_NODE_SUB, pl, [Some a, Some b])"
    and "a < length g" "b < length g" "wil_node_input_count g (Some a) = 0" "wil_node_input_count g (Some b) = 0"
    and "wil_node_kind g (Some a) = wil_node_kind g (Some b)"
        "\<not> wrs_is_eqx_rewritable_kind (wil_node_kind g (Some a))"
    and "length g \<le> EQX_ECLASS_ID_INVALID"
  shows "\<exists>sys' g'. wrs_apply_rule sys g sub_self (Some n) = Some (Inr (Some (length g), sys', g'))
     \<and> node_view g' (length g) = (WIL_NODE_CONST_INT, 0, [])"
proof -
  let ?r = "wil_make_const_int g 0 WIL_TYPE_I32" and ?r' = "\<lambda>g'. wil_node_replace_all_uses g' n (length g)"
  have made: "made g WIL_NODE_CONST_INT 0 [] ?r"
    unfolding wil_make_const_int_def by (rule made_payload [OF made_create])
  then have r: "fst ?r = length g" "length (snd ?r) = Suc (length g)" "wil_linked (snd ?r)"
      "node_view (snd ?r) (length g) = (WIL_NODE_CONST_INT, 0, [])"
    using assms(1) by (simp_all add: made_def)
  have "node_view (?r' (snd ?r)) (length g) = (WIL_NODE_CONST_INT, 0, [])"
    using replace_all_uses_view [OF r(3), of n "length g" "length g"] r assms(2) by simp
  then show ?thesis
    using sub_self_matches [OF assms(2-10)] r(1)
    by (simp add: wrs_apply_rule_def sub_self_sides wilSubstitutionApply_def Let_def)
qed

definition difference_graph :: WILGraph where
  "difference_graph =
     (let g = snd (wil_make_param [] 0 WIL_TYPE_I32 None);
          g = snd (wil_make_param g 1 WIL_TYPE_I32 None)
      in snd (wil_make_sub g (Some 0) (Some 1)))"

lemma difference_graph_views:
  "length difference_graph = 3" "node_view difference_graph 0 = (WIL_NODE_PARAM, 0, [])"
  "node_view difference_graph 1 = (WIL_NODE_PARAM, 1, [])" "node_view difference_graph 2 = (WIL_NODE_SUB, 0, [Some 0, Some 1])"
  by code_simp+

lemma difference_graph_linked: "wil_linked difference_graph"
proof -
  have "length (snd (wil_make_param (snd (wil_make_param [] 0 WIL_TYPE_I32 None)) 1 WIL_TYPE_I32 None)) = 2"
    by code_simp
  then show ?thesis unfolding difference_graph_def Let_def wil_make_sub_def
    by (intro make_linked empty_linked) (simp_all add: valid_ptr_def)
qed

theorem sub_self_ignores_payload_witness:
  "(\<exists>sys' g'. wrs_apply_rule linear_system difference_graph sub_self (Some 2) = Some (Inr (Some 3, sys', g'))
     \<and> node_view g' 3 = (WIL_NODE_CONST_INT, 0, []))
   \<and> wil_values (word_sem (\<lambda>i. if i = 0 then 9 else 4)) 0 difference_graph ((!) [9, 4, 5])"
proof
  let ?g = difference_graph
  note reads = node_reads(1,2) [of 0 ?g] node_reads(1,2) [of 1 ?g]
  show "\<exists>sys' g'. wrs_apply_rule linear_system ?g sub_self (Some 2) = Some (Inr (Some 3, sys', g'))
     \<and> node_view g' 3 = (WIL_NODE_CONST_INT, 0, [])"
    using sub_self_ignores_payload [OF difference_graph_linked _ difference_graph_views(4), of linear_system] reads
    by (simp add: difference_graph_views difference_graph_views(3) [unfolded One_nat_def] wrs_is_eqx_rewritable_kind_def
        EQX_ECLASS_ID_INVALID_def)
  show "wil_values (word_sem (\<lambda>i. if i = 0 then 9 else 4)) 0 ?g ((!) [9, 4, 5])"
    by (auto simp: wil_values_def difference_graph_views difference_graph_views(3) [unfolded One_nat_def]
        less_three word_sem_def word_binary_def)
qed

theorem wrs_nodes_equivalent_iff_witness:
  "wrs_nodes_equivalent difference_graph (Some 0) (Some 1) = Some True"
proof -
  let ?g = difference_graph
  have k: "wil_node_kind ?g (Some 0) = WIL_NODE_PARAM" "wil_node_kind ?g (Some 1) = WIL_NODE_PARAM"
      "wil_node_input_count ?g (Some 0) = 0" "wil_node_input_count ?g (Some 1) = 0"
    using node_reads(1,2) [of 0 ?g] node_reads(1,2) [of 1 ?g] by (simp_all add: difference_graph_views difference_graph_views(3) [unfolded One_nat_def])
  have "has_shape ?g 0 (Shape (wrs_op_of_kind WIL_NODE_PARAM) [])" "has_shape ?g 1 (Shape (wrs_op_of_kind WIL_NODE_PARAM) [])"
    using leaf_shape [of 0 ?g] leaf_shape [of 1 ?g] k by (simp_all add: difference_graph_views(1))
  from wrs_nodes_equivalent_iff [OF this] show ?thesis
    using k by (simp add: difference_graph_views(1) wrs_is_eqx_rewritable_kind_def EQX_ECLASS_ID_INVALID_def)
qed

end
