(* ===== verification/Frontend_Correct.thy ===== *)
theory Frontend_Correct
  imports Frontend_Backend Wrs_Rewrite Wrs_Plain Wrs_Rules
begin

text \<open>
  Correctness of the driver: a source text is executed to the value of its expression. Folding
  keeps values, an expression without a division by zero becomes a literal, and the code that
  every stage makes of a literal is followed to the register the caller reads; an expression that
  divides by zero keeps a division, which no stage can compile.
\<close>

section \<open>The value of an expression\<close>

text \<open>Over the integers, with the truncating division of C; a division by zero has no value.\<close>

fun expr_value :: "WirbleExpr \<Rightarrow> int option" where
  "expr_value (WIRBLE_EXPR_INT v) = Some (sint v)"
| "expr_value (WIRBLE_EXPR_UNARY WIRBLE_UNARY_NEG e) = map_option uminus (expr_value e)"
| "expr_value (WIRBLE_EXPR_BINARY op l r) =
     (case (expr_value l, expr_value r) of
        (Some a, Some b) \<Rightarrow>
          (case op of
             WIRBLE_BINARY_ADD \<Rightarrow> Some (a + b) | WIRBLE_BINARY_SUB \<Rightarrow> Some (a - b)
           | WIRBLE_BINARY_MUL \<Rightarrow> Some (a * b)
           | WIRBLE_BINARY_DIV \<Rightarrow> if b = 0 then None else Some (a sdiv b))
      | _ \<Rightarrow> None)"

definition in_int64 :: "int \<Rightarrow> bool" where
  "in_int64 x \<longleftrightarrow> - (2 ^ 63) \<le> x \<and> x < 2 ^ 63"

text \<open>No operation that is evaluated overflows.\<close>

fun expr_fits :: "WirbleExpr \<Rightarrow> bool" where
  "expr_fits (WIRBLE_EXPR_INT v) = True"
| "expr_fits (WIRBLE_EXPR_UNARY op e) =
     (expr_fits e \<and> pred_option in_int64 (expr_value (WIRBLE_EXPR_UNARY op e)))"
| "expr_fits (WIRBLE_EXPR_BINARY op l r) =
     (expr_fits l \<and> expr_fits r \<and> pred_option in_int64 (expr_value (WIRBLE_EXPR_BINARY op l r)))"

fun has_division :: "WirbleExpr \<Rightarrow> bool" where
  "has_division (WIRBLE_EXPR_INT v) = False"
| "has_division (WIRBLE_EXPR_UNARY op e) = has_division e"
| "has_division (WIRBLE_EXPR_BINARY op l r) = (op = WIRBLE_BINARY_DIV \<or> has_division l \<or> has_division r)"

section \<open>Folding\<close>

lemma int64_result_fits [simp]: "in_int64 x \<Longrightarrow> int64_result x = Inr (Some (word_of_int x))"
  by (simp add: int64_result_def in_int64_def)

lemma sint_int64 [simp]: "in_int64 x \<Longrightarrow> sint (word_of_int x :: u64) = x"
  by (auto simp: in_int64_def signed_of_int signed_take_bit_int_eq_self)

lemma expr_value_fits: "expr_fits e \<Longrightarrow> expr_value e = Some x \<Longrightarrow> in_int64 x"
proof (cases e)
  case (WIRBLE_EXPR_INT v)
  assume "expr_value e = Some x"
  then show ?thesis using WIRBLE_EXPR_INT sint_ge [of v] sint_lt [of v] by (simp add: in_int64_def)
qed auto

lemma is_const_value:
  "expr_fits e \<Longrightarrow> wirble_expr_is_const e = Inr (map_option word_of_int (expr_value e))"
proof (induction e)
  case (WIRBLE_EXPR_UNARY op e)
  then show ?case using expr_value_fits [of e] by (cases op) (auto split: option.splits)
next
  case (WIRBLE_EXPR_BINARY op l r)
  have nz: "in_int64 b \<Longrightarrow> (word_of_int b :: u64) = 0 \<longleftrightarrow> b = 0" for b
    using sint_int64 [of b] by (metis of_int_0 sint_0)
  from WIRBLE_EXPR_BINARY show ?case
    using expr_value_fits [of l] expr_value_fits [of r] nz
    by (auto split: option.splits WirbleBinaryOp.splits)
qed simp

lemma fold_node:
  assumes "expr_fits e"
  shows "\<exists>e'. wirble_fold_node e = Inr e' \<and> expr_fits e' \<and> expr_value e' = expr_value e
     \<and> (\<forall>x. expr_value e = Some x \<longrightarrow> e' = WIRBLE_EXPR_INT (word_of_int x))
     \<and> (expr_value e = None \<longrightarrow> e' = e)"
  using assms expr_value_fits [OF assms] is_const_value [OF assms]
  by (cases e; cases "expr_value e") (auto simp: wirble_fold_node_def)

lemma no_division_value: "\<not> has_division e \<Longrightarrow> expr_value e \<noteq> None"
proof (induction e)
  case (WIRBLE_EXPR_UNARY op e)
  then show ?case by (cases op) auto
qed (auto split: WirbleBinaryOp.splits)

lemma fold_constants:
  "expr_fits e \<Longrightarrow> \<exists>e'. wirble_expr_fold_constants e = Inr e' \<and> expr_fits e' \<and> expr_value e' = expr_value e
     \<and> (\<forall>x. expr_value e = Some x \<longrightarrow> e' = WIRBLE_EXPR_INT (word_of_int x)) \<and> size e' \<le> size e"
proof (induction e)
  case (WIRBLE_EXPR_INT v)
  then show ?case using fold_node [of "WIRBLE_EXPR_INT v"] by auto
next
  case (WIRBLE_EXPR_UNARY op e)
  then obtain e1 where e1: "wirble_expr_fold_constants e = Inr e1" "expr_fits e1" "expr_value e1 = expr_value e"
      "size e1 \<le> size e" by auto
  have v: "expr_value (WIRBLE_EXPR_UNARY op e1) = expr_value (WIRBLE_EXPR_UNARY op e)"
    using e1(3) by (cases op) simp
  then have "expr_fits (WIRBLE_EXPR_UNARY op e1)" using WIRBLE_EXPR_UNARY.prems e1(2) by simp
  from fold_node [OF this] v show ?case using e1 by (cases "expr_value (WIRBLE_EXPR_UNARY op e)") auto
next
  case (WIRBLE_EXPR_BINARY op l r)
  then obtain l1 r1 where l1: "wirble_expr_fold_constants l = Inr l1" "expr_fits l1" "expr_value l1 = expr_value l"
      "size l1 \<le> size l" and r1: "wirble_expr_fold_constants r = Inr r1" "expr_fits r1" "expr_value r1 = expr_value r"
      "size r1 \<le> size r" by auto
  have v: "expr_value (WIRBLE_EXPR_BINARY op l1 r1) = expr_value (WIRBLE_EXPR_BINARY op l r)"
    using l1(3) r1(3) by simp
  then have "expr_fits (WIRBLE_EXPR_BINARY op l1 r1)" using WIRBLE_EXPR_BINARY.prems l1(2) r1(2) by simp
  from fold_node [OF this] v show ?case
    using l1 r1 by (cases "expr_value (WIRBLE_EXPR_BINARY op l r)") auto
qed

section \<open>A literal through the front half\<close>

definition literal_graph :: "u64 \<Rightarrow> WILGraph" where
  "literal_graph v = snd (wil_make_const_int (snd (wil_make_start [])) v WIL_TYPE_I32)"

lemma lower_literal:
  "wil_make_start [] = (0, snd (wil_make_start []))"
  "wirble_lower_expr (snd (wil_make_start [])) (WIRBLE_EXPR_INT v) = (1, literal_graph v)"
  by (simp_all add: literal_graph_def wil_builder_defs)

lemma literal_nodes:
  "literal_graph v =
     [\<lparr>wn_id = 1, wn_kind = WIL_NODE_START, wn_category = WIL_CAT_CONTROL, wn_type = WIL_TYPE_CONTROL,
       wn_name = Some ''start'', wn_inputs = [], wn_uses = [], wn_payload = 0, wn_removed = False\<rparr>,
      \<lparr>wn_id = 2, wn_kind = WIL_NODE_CONST_INT, wn_category = WIL_CAT_CONSTANT, wn_type = WIL_TYPE_I32,
       wn_name = None, wn_inputs = [], wn_uses = [], wn_payload = v, wn_removed = False\<rparr>]"
  by (simp add: literal_graph_def wil_builder_defs)

lemma literal_verifies: "wil_verify_graph (literal_graph v) = None"
  by (simp add: literal_nodes wil_verify_graph_def wil_verify_node_def upt_rec)

text \<open>A rule that asks for another kind of node leaves a literal alone.\<close>

definition spares_literals :: "WILRewriteRule \<Rightarrow> bool" where
  "spares_literals rule \<longleftrightarrow>
     (case wr_lhs rule of None \<Rightarrow> True
      | Some (WIL_PAT_NODE kind inputs) \<Rightarrow> kind \<noteq> WIL_NODE_CONST_INT
      | Some _ \<Rightarrow> False)"

lemma spared_rule:
  assumes "spares_literals rule" "wil_node_kind g (Some n) = WIL_NODE_CONST_INT"
  shows "wrs_apply_rule sys g rule (Some n) = Some (Inr (None, sys, g))"
  using assms by (auto simp: spares_literals_def wrs_apply_rule_def wilPatternMatch_def
      split: option.splits WILPattern.splits)

lemma spared_node:
  assumes "list_all spares_literals (ws_rules sys)" "wil_node_kind g (Some n) = WIL_NODE_CONST_INT"
    and "wil_node_input_count g (Some n) = 0"
  shows "wrs_apply_recursive sys g (Some n) = Some (Inr (None, sys, g))"
proof -
  have "wrs_apply_first sys g rules (Some n) = Some (Inr (None, sys, g))" if "list_all spares_literals rules" for rules
    using that by (induction rules) (simp_all add: spared_rule [OF _ assms(2)])
  then have at: "wilRewriteSystemApplyAt sys g (Some n) = Some (Inr (None, sys, g))"
    using assms(1) by (simp add: wilRewriteSystemApplyAt_def)
  have inputs: "wrs_traverse (VisitInputs n 0) (sys, g) = Some (Inr (None, sys, g))"
    using assms(3) by (subst wrs_traverse.simps) simp
  show ?thesis unfolding wrs_apply_recursive_def
    by (subst wrs_traverse.simps) (simp add: at inputs)
qed

lemma literal_reads:
  "wil_node_kind (literal_graph v) (Some 1) = WIL_NODE_CONST_INT"
  "wil_node_input_count (literal_graph v) (Some 1) = 0"
  by (simp_all add: literal_nodes wil_node_defs)

lemma literal_picked:
  "\<exists>p. wrs_normalize_with_egraph (literal_graph v) (Some 1) k = Some p \<and> (p = None \<or> p = Some 1)"
proof -
  let ?g = "literal_graph v"
  have len: "length ?g = 2" by (simp add: literal_nodes)
  then have shape: "has_shape ?g 1 (Shape (wrs_op_of_kind WIL_NODE_CONST_INT) [])"
    using leaf_shape [of 1 ?g] literal_reads [of v] by simp
  have plain: "\<not> wrs_is_eqx_rewritable_kind (wil_node_kind ?g (Some m))" if "m < length ?g" for m
    using that unfolding len
    by (auto simp: literal_nodes wil_node_defs wrs_is_eqx_rewritable_kind_def less_2_cases_iff)
  obtain p where p: "wrs_normalize_with_egraph ?g (Some 1) k = Some p"
      "\<forall>m. p = Some m \<longrightarrow> has_shape ?g m (Shape (wrs_op_of_kind WIL_NODE_CONST_INT) [])"
    using plain_normalized [OF shape _ plain, of k] len by (auto simp: EQX_ECLASS_ID_INVALID_def)
  have "m = 1" if "p = Some m" for m
  proof -
    have "has_shape ?g m (Shape (wrs_op_of_kind WIL_NODE_CONST_INT) [])" using p(2) that by simp
    then have "m < length ?g" "wil_node_kind ?g (Some m) = WIL_NODE_CONST_INT"
      by (auto elim!: has_shapeE simp: wrs_op_inj)
    then show ?thesis unfolding len by (auto simp: literal_nodes wil_node_defs less_2_cases_iff)
  qed
  with p(1) show ?thesis by (cases p) auto
qed

lemma literal_normalized:
  assumes "\<And>sys. wrs = Some sys \<Longrightarrow> list_all spares_literals (ws_rules sys)"
  shows "wirble_normalize wrs (literal_graph v) (Some 1) = Some (Inr (Some 1, literal_graph v))"
proof (cases wrs)
  case (Some sys)
  have k: "(16 :: nat) = Suc 15" by simp
  have loop: "wrs_normalize_loop sys (literal_graph v) (Some 1) 16 = Some (Inr (Some 1, sys, literal_graph v))"
    unfolding k wrs_normalize_loop.simps(2) using spared_node [OF assms [OF Some] literal_reads] by simp
  obtain p where p: "wrs_normalize_with_egraph (literal_graph v) (Some 1) 16 = Some p" "p = None \<or> p = Some 1"
    using literal_picked by blast
  then have "wilRewriteSystemNormalize sys (literal_graph v) (Some 1) 16 = Some (Inr (Some 1, sys, literal_graph v))"
    using p loop by (auto simp: wilRewriteSystemNormalize_def simp del: One_nat_def)
  then show ?thesis by (simp add: wirble_normalize_def Some)
qed (simp add: wirble_normalize_def)

text \<open>The module a literal is lowered to: a copy of the literal and its return.\<close>

definition literal_insts :: "u64 \<Rightarrow> MALInst list" where
  "literal_insts v =
     [\<lparr>mi_id = 0, mi_opcode = MAL_OP_COPY, mi_type = MAL_TYPE_I32, mi_dst = 0,
       mi_operands = [MAL_OPND_IMM_INT MAL_TYPE_I32 v]\<rparr>,
      \<lparr>mi_id = 1, mi_opcode = MAL_OP_RET, mi_type = MAL_TYPE_VOID, mi_dst = MAL_INVALID_REG,
       mi_operands = [MAL_OPND_REG MAL_TYPE_I32 0]\<rparr>]"

definition literal_module :: "string \<Rightarrow> u64 \<Rightarrow> MDSMachine MALModule" where
  "literal_module target v = malLowerFromWIL (mal_module_create (Some target))
     (snd (wil_make_return (literal_graph v) (Some 0) (Some 1)))"

lemma literal_return:
  "snd (wil_make_return (literal_graph v) (Some 0) (Some 1)) =
     [\<lparr>wn_id = 1, wn_kind = WIL_NODE_START, wn_category = WIL_CAT_CONTROL, wn_type = WIL_TYPE_CONTROL,
       wn_name = Some ''start'', wn_inputs = [], wn_uses = [2], wn_payload = 0, wn_removed = False\<rparr>,
      \<lparr>wn_id = 2, wn_kind = WIL_NODE_CONST_INT, wn_category = WIL_CAT_CONSTANT, wn_type = WIL_TYPE_I32,
       wn_name = None, wn_inputs = [], wn_uses = [2], wn_payload = v, wn_removed = False\<rparr>,
      \<lparr>wn_id = 3, wn_kind = WIL_NODE_RETURN, wn_category = WIL_CAT_CONTROL, wn_type = WIL_TYPE_CONTROL,
       wn_name = None, wn_inputs = [(Some 0, WIL_EDGE_CONTROL), (Some 1, WIL_EDGE_DATA)], wn_uses = [],
       wn_payload = 0, wn_removed = False\<rparr>]"
  by (simp add: literal_nodes wil_builder_defs wil_node_defs Let_def)

lemma upt_3: "[0..<3] = [0, 1, 2 :: nat]"
  by (simp add: upt_rec)

lemma literal_lowerable: "lowerable (snd (wil_make_return (literal_graph v) (Some 0) (Some 1)))"
  unfolding lowerable_def literal_return
  by (simp add: lowered_operands_def lowerable_input_def owns_register_def value_kind_def
      mal_lower_inputs_def wil_node_defs Let_def upt_3 upt_rec)

lemma literal_module_functions:
  "\<exists>fn. mm_functions (literal_module target v) = [fn] \<and> map mb_insts (mf_blocks fn) = [literal_insts v]
     \<and> map mb_id (mf_blocks fn) = [0] \<and> map mb_succs (mf_blocks fn) = [[]] \<and> mal_verify_ssa fn"
proof -
  define m :: "MDSMachine MALModule" where "m = mal_module_create (Some target)"
  define g where "g = snd (wil_make_return (literal_graph v) (Some 0) (Some 1))"
  note g = g_def [unfolded literal_return]
  define st where "st = mal_lower_start g \<lparr>mf_name = ''wil_main'', mf_retType = MAL_TYPE_VOID,
      mf_paramTypes = [], mf_blocks = [], mf_nextSSAReg = 0\<rparr>"
  have st: "mf_blocks (lo_fn st) = [\<lparr>mb_id = 0, mb_name = ''entry'', mb_insts = [], mb_preds = [], mb_succs = [],
        mb_domParent = 0, mb_domChildren = [], mb_liveIn = [], mb_liveOut = []\<rparr>]"
      "mf_nextSSAReg (lo_fn st) = 0" "lo_nextId st = 0"
    unfolding st_def g
    by (simp_all add: mal_lower_start_def mal_find_param_count_def mal_block_create_def wil_node_defs upt_3)
  have len: "length g = 3" by (simp add: g)
  have steps: "mal_lower_node g s 0 = s" "mal_lower_node g s (Suc 0) = s"
      "mal_lower_node g s 2 = mal_lower_return g s 2" for s
    by (simp_all add: g mal_lower_node_def wil_node_defs)
  have fn: "lowered_fn m g = lo_fn (mal_lower_return g st 2)"
    by (simp add: lowered_fn_def malLowerFromWIL_def mal_function_create_def m_def mal_module_create_def
        Let_def wil_graph_node_count_def len upt_3 steps st_def)
  have reads: "wil_node_input_count g (Some 2) = 2" "wil_node_input g (Some 2) 1 = Some 1"
      "wil_node_type g (Some 1) = WIL_TYPE_I32" "wil_node_kind g (Some 1) = WIL_NODE_CONST_INT"
      "wil_node_is_const g (Some 1)" "wil_node_const_int g (Some 1) = v"
    by (simp_all add: g wil_node_defs)
  have ret: "map mb_insts (mf_blocks (lowered_fn m g)) = [literal_insts v]
      \<and> map mb_id (mf_blocks (lowered_fn m g)) = [0] \<and> map mb_succs (mf_blocks (lowered_fn m g)) = [[]]"
    unfolding fn literal_insts_def using reads
    by (simp add: mal_lower_return_def mal_lower_emit_def mal_new_reg_def mal_inst_create_def
        mal_inst_add_operand_def mal_block_insert_end_def mal_operand_from_wil_input_def mal_operand_imm_int_def
        mal_operand_reg_def mal_type_from_wil_def Let_def st)
  moreover have "mal_verify_ssa (lowered_fn m g)"
    using lower_ssa [OF literal_lowerable, of m v] unfolding g_def by simp
  moreover have "mm_functions (malLowerFromWIL m g) = [lowered_fn m g]"
    unfolding m_def g_def by (rule lowered_module [OF literal_lowerable])
  moreover have "literal_module target v = malLowerFromWIL m g"
    by (simp add: literal_module_def m_def g_def)
  ultimately show ?thesis using ret by auto
qed

text \<open>No peephole rule that asks for another opcode than a copy or a return applies to it.\<close>

definition spares_copies :: "MALRewriteRule \<Rightarrow> bool" where
  "spares_copies rule \<longleftrightarrow> mr_matchOpcode rule \<noteq> MAL_OP_COPY \<and> mr_matchOpcode rule \<noteq> MAL_OP_RET"

lemma spared_copy:
  assumes "list_all spares_copies rules" and "mi_opcode inst = MAL_OP_COPY \<or> mi_opcode inst = MAL_OP_RET"
  shows "mrs_try_rules rules inst = None"
  using assms by (induction rules) (auto simp: spares_copies_def mal_mrs_match_rule_def)

lemma spared_blocks:
  assumes "list_all spares_copies rules" and "map mb_insts bs = [literal_insts v]"
  shows "mrs_peephole_blocks rules bs = None"
  using assms spared_copy [OF assms(1)] by (auto simp: literal_insts_def map_eq_Cons_conv)

lemma literal_optimized:
  assumes "\<And>rules. mrs = Some rules \<Longrightarrow> list_all spares_copies rules"
  shows "wirble_optimize_mal mrs verifyIR (literal_module target v) = Some (Inr (literal_module target v))"
proof (cases mrs)
  case (Some rules)
  obtain fn where fn: "mm_functions (literal_module target v) = [fn]" "map mb_insts (mf_blocks fn) = [literal_insts v]"
      "mal_verify_ssa fn"
    using literal_module_functions by metis
  have "malApplyPeepholeToFixpoint rules fn = Some (False, fn)"
    unfolding malApplyPeepholeToFixpoint_def
    by (subst mrs_fixpoint.simps) (simp add: malApplyOnePeephole_def spared_blocks [OF assms [OF Some] fn(2)])
  moreover have "(literal_module target v)\<lparr>mm_functions := [fn]\<rparr> = literal_module target v"
    unfolding fn(1) [symmetric] by simp
  ultimately show ?thesis using fn by (simp add: wirble_optimize_mal_def Some)
qed (simp add: wirble_optimize_mal_def)

section \<open>A literal through the back half\<close>

lemma literal_insts_vm: "list_all mal_vm_inst (literal_insts v)"
proof -
  have "mds_selectable (literal_insts v ! 0)"
    by (rule row_selectable [of 1])
      (simp_all only: rows_used, simp_all add: literal_insts_def fits_defs)
  moreover have "mds_selectable (literal_insts v ! 1)"
    by (rule row_selectable [of 20])
      (simp_all only: rows_used, simp_all add: literal_insts_def fits_defs)
  ultimately show ?thesis by (simp add: literal_insts_def mal_vm_inst_def vm_register_def)
qed

lemma literal_eval: "mal_eval (literal_insts v) regs = TosReturned (WVM_VALUE_FROM_INT (ucast v))"
  by (simp add: literal_insts_def mal_step_def mal_vm_exec_def value_outcome_def tos_operand_value_def)

lemma literal_back_end:
  obtains bk where "wirble_back_end level verifyIR path source (literal_module target v) = Inr (Inr bk)"
    and "wirble_run_prototype (bk_wvmPrototype bk) = Some (Inr (Inr (WVM_VALUE_FROM_INT (ucast v))))"
proof -
  obtain fn where fn: "mm_functions (literal_module target v) = [fn]" "map mb_insts (mf_blocks fn) = [literal_insts v]"
    using literal_module_functions by metis
  then obtain b where b: "mf_blocks fn = [b]" "mb_insts b = literal_insts v" by (auto simp: map_eq_Cons_conv)
  have 1: "concat (map mf_blocks (mm_functions (literal_module target v))) = [b]" by (simp add: fn(1) b(1))
  have 2: "list_all mal_vm_inst (mb_insts b)" by (simp add: b(2) literal_insts_vm)
  have 3: "length (mb_insts b) < 2 ^ 29" by (simp add: b(2) literal_insts_def)
  obtain bk where bk: "wirble_back_end level verifyIR path source (literal_module target v) = Inr (Inr bk)"
      "\<And>vm. wf_vm vm \<Longrightarrow> stackSize vm = 0 \<Longrightarrow>
         run_shows (mal_eval (mb_insts b) (\<lambda>_. 0)) (wvmExecute (\<lambda>_. True) vm (Some (bk_wvmPrototype bk)))"
    using back_end_runs [OF 1 2 3] by blast
  obtain vm where vm: "wvmCreate True (\<lambda>_. True) = Some vm" "wf_vm vm" "stackSize vm = 0"
    using fresh_vm_simps(1,2) by (simp add: fresh_vm_def wvmCreate_def wvmCreateEx_def)
  show thesis
    by (rule that [OF bk(1)])
      (use bk(2) [OF vm(2,3)] vm(1) in
        \<open>auto simp: wirble_run_prototype_def run_shows_def b(2) literal_eval\<close>)
qed

section \<open>The driver computes the value\<close>

text \<open>The rules that the options ask for can be loaded and leave literals alone.\<close>

definition rules_spare_literals :: "frontend_env \<Rightarrow> WirbleCompileOptions option \<Rightarrow> streams \<Rightarrow> bool" where
  "rules_spare_literals env options out \<longleftrightarrow>
     (case options of Some opts \<Rightarrow> co_optimizationLevel opts = 0 | None \<Rightarrow> False)
     \<or> (case wirble_load_wrs env options out of
          (Inl _, _) \<Rightarrow> False
        | (Inr sys, out) \<Rightarrow>
            list_all spares_literals (ws_rules sys)
            \<and> pred_option (list_all spares_copies) (fst (wirble_load_mrs env options out)))"

lemma literal_lowered:
  "wirble_lower_graph verifyIR target (literal_graph v) 0 (Some 1) =
     Inr (snd (wil_make_return (literal_graph v) (Some 0) (Some 1)), literal_module target v)"
proof -
  obtain fn where "mm_functions (literal_module target v) = [fn]" "mal_verify_ssa fn"
    using literal_module_functions by metis
  then show ?thesis
    by (simp add: wirble_lower_graph_def literal_verifies Let_def literal_module_def [symmetric] del: One_nat_def)
qed

lemma literal_executes:
  assumes "rules_spare_literals env options out"
  shows "\<exists>out' pa. wirble_build_from_expr env sourceName options path (WIRBLE_EXPR_INT v) out = Some (Inr (Inr pa, out'))
     \<and> wirble_run_prototype (pa_wvmPrototype pa) = Some (Inr (Inr (WVM_VALUE_FROM_INT (ucast v))))"
proof -
  define target where "target = wirble_target_or_default options"
  define level where "level = (case options of None \<Rightarrow> 2 | Some opts \<Rightarrow> co_optimizationLevel opts)"
  define verifyIR where "verifyIR = (case options of None \<Rightarrow> True | Some opts \<Rightarrow> co_verifyIR opts)"
  obtain wrs out1 where wrs: "(if 0 < level then (case wirble_load_wrs env options out of
          (sys, out) \<Rightarrow> (map_sum id Some sys, out)) else (Inr None, out)) = (Inr wrs, out1)"
      "\<And>sys. wrs = Some sys \<Longrightarrow> list_all spares_literals (ws_rules sys)"
      "0 < level \<Longrightarrow> pred_option (list_all spares_copies) (fst (wirble_load_mrs env options out1))"
  proof (cases "0 < level")
    case True
    then obtain sys out1 where "wirble_load_wrs env options out = (Inr sys, out1)"
        "list_all spares_literals (ws_rules sys)"
        "pred_option (list_all spares_copies) (fst (wirble_load_mrs env options out1))"
      using assms by (auto simp: rules_spare_literals_def level_def split: option.splits prod.splits sum.splits)
    with True show thesis by (intro that [of "Some sys" out1]) simp_all
  next
    case False
    then show thesis by (intro that [of None out]) simp_all
  qed
  obtain mrs out2 where mrs: "(if 0 < level then wirble_load_mrs env options out1 else (None, out1)) = (mrs, out2)"
    by fastforce
  have spared: "list_all spares_copies rules" if "mrs = Some rules" for rules
    using that mrs wrs(3) by (auto split: if_splits)
  obtain bk where bk: "wirble_back_end level verifyIR path sourceName (literal_module target v) = Inr (Inr bk)"
      "wirble_run_prototype (bk_wvmPrototype bk) = Some (Inr (Inr (WVM_VALUE_FROM_INT (ucast v))))"
    by (rule literal_back_end)
  have start: "wil_make_start [] = (0, snd (wil_make_start []))" by (rule lower_literal)
  show ?thesis
    unfolding wirble_build_from_expr_def Let_def target_def [symmetric] level_def [symmetric] verifyIR_def [symmetric]
    by (subst start, simp only: prod.case lower_literal(2) wrs(1) sum.case,
        simp add: literal_normalized [OF wrs(2)] literal_lowered mrs literal_optimized [OF spared] bk
          del: One_nat_def)
qed

text \<open>
  C1. The driver computes the value of its source text. Let the text be parsed to an expression in
  which no evaluated operation leaves 64 bits and whose value, over the integers and with truncating
  division, is \<open>n\<close>. For each of the three targets, every optimisation level, with or without the
  verifiers, and all rule files that load and whose rules leave literals and copies alone,
  \<^verbatim>\<open>wirbleExecuteSource\<close> returns without undefined behaviour, no stage fails, and the value it
  delivers is \<open>n\<close>, truncated to 32 bits.
\<close>

theorem wirbleExecuteSource_value:
  assumes "fe_parse env text = Inr e" and "expr_fits e" and "expr_value e = Some n"
    and "wirble_target_or_default options \<in> {''x86_64'', ''aarch64'', ''wasm''}"
    and "rules_spare_literals env options out"
  shows "\<exists>out'. wirbleExecuteSource env (Some text) sourceName options out = Some (Inr (Inr (wvm_box n), out'))"
proof -
  obtain path where path: "wirble_machine_path (wirble_target_or_default options) = Some path"
    using assms(4) by (auto simp: wirble_machine_path_def)
  have "wirble_expr_fold_constants e = Inr (WIRBLE_EXPR_INT (word_of_int n))"
    using fold_constants [OF assms(2)] assms(3) by blast
  then have parse: "wirble_parse_source env (Some text) = Inr (Inr (WIRBLE_EXPR_INT (word_of_int n)))"
    by (simp add: wirble_parse_source_def assms(1))
  obtain out' pa where
      "wirble_build_from_expr env sourceName options path (WIRBLE_EXPR_INT (word_of_int n)) out = Some (Inr (Inr pa, out'))"
      "wirble_run_prototype (pa_wvmPrototype pa) = Some (Inr (Inr (WVM_VALUE_FROM_INT (ucast (word_of_int n :: u64)))))"
    using literal_executes [OF assms(5)] by blast
  moreover have "ucast (word_of_int n :: u64) = (word_of_int n :: u32)"
    by (rule bit_word_eqI) (simp add: bit_simps)
  ultimately show ?thesis
    by (simp add: wirbleExecuteSource_def wirbleCompileSourceToPrototype_def wirbleBuildPipelineArtifacts_def
        path parse wvm_box_def)
qed

section \<open>The shipped rules\<close>

text \<open>The rule files that the default options name, as the parser of S-expressions sees them.\<close>

definition wrapped :: "string \<Rightarrow> string" where
  "wrapped text = [CHR ''('', CHR 0x0A] @ text @ [CHR 0x0A, CHR '')'', CHR 0x0A]"

definition ships_rules :: "frontend_env \<Rightarrow> bool" where
  "ships_rules env \<longleftrightarrow>
     Option.bind (fe_files env (fe_dir env @ ''/arithmetic.wrs'')) (\<lambda>t. Some (fe_sexp env (wrapped t)))
       = Some (Inr arithmetic_wrs)
     \<and> Option.bind (fe_files env (fe_dir env @ ''/mal_peephole.wrs'')) (\<lambda>t. Some (fe_sexp env (wrapped t)))
       = Some (Inr mal_peephole_wrs)"

lemma parse_shipped:
  assumes "Option.bind (files path) (\<lambda>t. Some (parse (wrapped t))) = Some (Inr es)"
  shows "\<exists>tree'. wirble_sexp_tree_parse_file parse files tree (Some path) out = (True, tree', out)
     \<and> st_root tree' = [WIRBLE_SEXP_NODE_LIST (wirble_sexp_build_from_sfsexp es)]"
  using assms
  by (cases "files path")
    (simp_all add: wirble_sexp_tree_parse_file_def wirble_sexp_wrap_input_def wirble_sexp_parse_buffer_def
      wrapped_def butlast_append Let_def)

lemma add_rules_rules:
  "list_all spares_literals rules \<Longrightarrow> list_all spares_literals (ws_rules sys) \<Longrightarrow>
     list_all spares_literals (ws_rules (foldl wilRewriteSystemAddRule sys rules))"
  by (induction rules arbitrary: sys) (simp_all add: wilRewriteSystemAddRule_def spares_literals_def)

lemma arithmetic_rules_spare: "list_all spares_literals arithmetic_rules"
  by (simp add: arithmetic_rules_def spares_literals_def wilRuleCreateSimple_def wilRuleCreate_def)

lemma standard_rules_spare: "list_all spares_copies standard_rules"
  by (simp add: standard_rules_def peephole_rule_def spares_copies_def Let_def)

lemma shipped_mrs:
  assumes "ships_rules env"
  shows "fst (wirble_load_mrs env (Some (wirbleInitCompileOptions env)) out) = Some standard_rules"
proof -
  have loaded: "fst (mal_mrs_load (fe_sexp env) (fe_files env) (fe_dir env)
      (Some (fe_dir env @ ''/mal_peephole.wrs'')) out) = Some standard_rules"
  proof -
    obtain tree where tree: "wirble_sexp_tree_parse_file (fe_sexp env) (fe_files env)
          (wirble_sexp_tree_init (Some (wirble_diag_init (Some 2) (Some ''mrs''))))
          (Some (fe_dir env @ ''/mal_peephole.wrs'')) out = (True, tree, out)"
        "st_root tree = [WIRBLE_SEXP_NODE_LIST (wirble_sexp_build_from_sfsexp mal_peephole_wrs)]"
      using parse_shipped [of "fe_files env" _ "fe_sexp env"] assms unfolding ships_rules_def by blast
    have "mal_load_tree tree = Some standard_rules"
      using mal_peephole_wrs_loaded [of None] tree(2) by (simp add: mal_load_tree_def wirble_sexp_tree_root_def)
    then show ?thesis by (simp add: mal_mrs_load_def tree(1) Let_def)
  qed
  then show ?thesis
    by (auto simp: wirble_load_mrs_def wirbleInitCompileOptions_def split: prod.splits option.splits)
qed

lemma shipped_rules_spare:
  assumes "ships_rules env"
  shows "rules_spare_literals env (Some (wirbleInitCompileOptions env)) out"
proof -
  let ?options = "Some (wirbleInitCompileOptions env)"
  obtain tree where tree: "wirble_sexp_tree_parse_file (fe_sexp env) (fe_files env)
        (wirble_sexp_tree_init (Some (wirble_diag_init (Some 2) (Some ''wrs''))))
        (Some (fe_dir env @ ''/arithmetic.wrs'')) out = (True, tree, out)"
      "st_root tree = [WIRBLE_SEXP_NODE_LIST (wirble_sexp_build_from_sfsexp arithmetic_wrs)]"
    using parse_shipped [of "fe_files env" _ "fe_sexp env"] assms unfolding ships_rules_def by blast
  have "wrs_file_load_tree (fe_strtod env) tree = \<lparr>wf_rules = arithmetic_rules, wf_strategy = WIL_STRATEGY_INNERMOST\<rparr>"
    using arithmetic_wrs_loaded [of "fe_strtod env" None] tree(2)
    by (simp add: wrs_file_load_tree_def wirble_sexp_tree_root_def)
  then have wrs: "wirble_load_wrs env ?options out = (Inr (foldl wilRewriteSystemAddRule
      (wilRewriteSystemSetStrategy wilRewriteSystemCreate WIL_STRATEGY_INNERMOST) arithmetic_rules), out)"
    by (simp add: wirble_load_wrs_def wirbleInitCompileOptions_def wrsFileLoad_def tree(1) Let_def
        wrsFileApplyToSystem_def)
  have "ws_rules (wilRewriteSystemSetStrategy wilRewriteSystemCreate WIL_STRATEGY_INNERMOST) = []"
    by (simp add: wilRewriteSystemSetStrategy_def wilRewriteSystemCreate_def)
  then show ?thesis
    using add_rules_rules [OF arithmetic_rules_spare] standard_rules_spare shipped_mrs [OF assms]
    by (simp add: rules_spare_literals_def wrs)
qed

text \<open>The text \<open>-(1 + 2) * 14 / 4;\<close> with the shipped rules and the default options.\<close>

definition demo_expr :: WirbleExpr where
  "demo_expr = WIRBLE_EXPR_BINARY WIRBLE_BINARY_DIV
     (WIRBLE_EXPR_BINARY WIRBLE_BINARY_MUL
        (WIRBLE_EXPR_UNARY WIRBLE_UNARY_NEG
           (WIRBLE_EXPR_BINARY WIRBLE_BINARY_ADD (WIRBLE_EXPR_INT 1) (WIRBLE_EXPR_INT 2)))
        (WIRBLE_EXPR_INT 14))
     (WIRBLE_EXPR_INT 4)"

definition demo_env :: frontend_env where
  "demo_env =
     \<lparr>fe_parse = (\<lambda>_. Inr demo_expr),
      fe_sexp = (\<lambda>t. Inr (if CHR ''A'' \<in> set t then arithmetic_wrs else mal_peephole_wrs)),
      fe_strtod = (\<lambda>_. 0),
      fe_files = (\<lambda>p. Some (if p = ''rules/arithmetic.wrs'' then ''A'' else ''M'')),
      fe_dir = ''rules''\<rparr>"

theorem wirbleExecuteSource_value_witness:
  "\<exists>out'. wirbleExecuteSource demo_env (Some ''-(1 + 2) * 14 / 4;'') None
      (Some (wirbleInitCompileOptions demo_env)) (\<lambda>_. '''') = Some (Inr (Inr (wvm_box (-10)), out'))"
proof (rule wirbleExecuteSource_value)
  show "fe_parse demo_env ''-(1 + 2) * 14 / 4;'' = Inr demo_expr" by (simp add: demo_env_def)
  show "expr_fits demo_expr" and "expr_value demo_expr = Some (-10)"
    by (simp_all add: demo_expr_def in_int64_def signed_divide_int_def)
  show "wirble_target_or_default (Some (wirbleInitCompileOptions demo_env)) \<in> {''x86_64'', ''aarch64'', ''wasm''}"
    by (simp add: wirble_target_or_default_def wirbleInitCompileOptions_def)
  have "ships_rules demo_env" by (simp add: ships_rules_def demo_env_def wrapped_def)
  then show "rules_spare_literals demo_env (Some (wirbleInitCompileOptions demo_env)) (\<lambda>_. '''')"
    by (rule shipped_rules_spare)
qed

end
