(* ===== verification/Wrs_Kinds.thy ===== *)
theory Wrs_Kinds
  imports Wrs "HOL-Library.Sublist"
begin

text \<open>
  Rewriting a graph with rules that have no action of their own adds nodes and redirects inputs: it
  never removes a node or changes its kind.
\<close>

section \<open>The kinds of the nodes\<close>

definition kinds :: "WILGraph \<Rightarrow> WILNodeKind list" where
  "kinds g = map wn_kind g"

lemma kinds_update: "wn_kind y = wn_kind (g ! n) \<Longrightarrow> kinds (g[n := y]) = kinds g"
  by (cases "n < length g") (auto simp: kinds_def map_update list_update_same_conv list_update_beyond)

lemma kinds_add_input: "kinds (wil_node_add_input g n input ek) = kinds g"
  by (simp add: wil_node_add_input_def wil_node_register_use_def kinds_update split: option.splits)

lemma kinds_create: "kinds (snd (wil_node_create g kind ty nm)) = kinds g @ [kind]"
  by (simp add: wil_node_create_def kinds_def)

lemma kinds_inputs: "kinds (wil_add_inputs g n slots) = kinds g"
  by (induction slots arbitrary: g) (auto simp: wil_add_inputs_def kinds_add_input)

lemma kinds_built:
  "kinds (snd (wil_build_binary g kind l r ty)) = kinds g @ [kind]"
  "kinds (snd (wil_build_unary g kind l ty)) = kinds g @ [kind]"
  "kinds (snd (wil_make_const_int g v wty)) = kinds g @ [WIL_NODE_CONST_INT]"
  "kinds (snd (wil_make_return g s p)) = kinds g @ [WIL_NODE_RETURN]"
  using kinds_create kinds_inputs
  by (simp_all add: wil_build_binary_def wil_build_unary_def wil_make_const_int_def wil_set_payload_def
      wil_make_return_def wil_build_nary_def kinds_add_input kinds_update split_beta Let_def)

lemma kinds_nary: "kinds (snd (wil_build_nary g kind slots ty nm)) = kinds g @ [kind]"
  using kinds_inputs kinds_create by (simp add: wil_build_nary_def split_beta Let_def)

lemma kinds_consts:
  "kinds (snd (wil_make_const_float g f fty)) = kinds g @ [WIL_NODE_CONST_FLOAT]"
  "kinds (snd (wil_make_const_bool g b)) = kinds g @ [WIL_NODE_CONST_BOOL]"
  "kinds (snd (wil_make_const_int g v wty)) = kinds g @ [WIL_NODE_CONST_INT]"
  by (simp_all add: wil_make_const_float_def wil_make_const_bool_def kinds_built wil_set_payload_def kinds_update
      kinds_create split_beta)

lemma kinds_edits:
  "kinds (wil_node_register_use g p u) = kinds g"
  "kinds (wil_node_unregister_use g p u) = kinds g"
  by (simp_all add: wil_node_register_use_def wil_node_unregister_use_def kinds_update split: option.splits)

lemma kinds_replace_input: "kinds (wil_node_replace_input g n i p) = kinds g"
  by (simp add: wil_node_replace_input_def Let_def kinds_edits kinds_update)

lemma kinds_replace_in_user: "kinds (wil_replace_in_user old new g u) = kinds g"
proof -
  have "kinds (foldl (\<lambda>h i. if fst (wn_inputs (h ! u) ! i) = Some old
                  then wil_node_replace_input h u i (Some new) else h) g js) = kinds g" for g js
    by (induction js arbitrary: g) (simp_all add: kinds_replace_input)
  then show ?thesis by (simp add: wil_replace_in_user_def)
qed

lemma kinds_replace_all_uses: "kinds (wil_node_replace_all_uses g old new) = kinds g"
proof -
  have "kinds (foldl (wil_replace_in_user old new) g us) = kinds g" for us
    by (induction us arbitrary: g) (simp_all add: kinds_replace_in_user)
  then show ?thesis by (simp add: wil_node_replace_all_uses_def)
qed

section \<open>Rewriting\<close>

definition keeps_nodes :: "WILGraph \<Rightarrow> WILGraph \<Rightarrow> bool" where
  "keeps_nodes g g' \<longleftrightarrow> prefix (kinds g) (kinds g')"

lemma keeps_nodes_refl [simp]: "keeps_nodes g g"
  by (simp add: keeps_nodes_def)

lemma keeps_nodes_trans: "keeps_nodes a b \<Longrightarrow> keeps_nodes b c \<Longrightarrow> keeps_nodes a c"
  unfolding keeps_nodes_def by (rule prefix_order.trans)

lemma build_node_keeps: "wrs_build_node g kind inputs = Inr (p, g') \<Longrightarrow> keeps_nodes g g'"
  by (cases kind) (auto simp: wrs_build_node_def Let_def cbind_eq_Inr keeps_nodes_def kinds_built
      wil_make_add_def wil_make_sub_def wil_make_mul_def wil_make_div_def wil_make_mod_def wil_make_and_def
      wil_make_or_def wil_make_xor_def wil_make_shl_def wil_make_shr_def wil_make_neg_def wil_make_not_def
      wil_make_abs_def wil_make_eq_def wil_make_ne_def wil_make_lt_def wil_make_le_def wil_make_gt_def
      wil_make_ge_def wil_make_select_def kinds_nary)

lemma apply_pattern_keeps:
  "wrs_apply_pattern g subst pat = Inr (p, g') \<Longrightarrow> keeps_nodes g g'"
  "wrs_apply_inputs g subst pats = Inr (ps, g') \<Longrightarrow> keeps_nodes g g'"
proof (induction g subst pat and g subst pats arbitrary: p g' and ps g' rule: wrs_apply_pattern_wrs_apply_inputs.induct)
  case (6 g subst v)
  then show ?case
    by (auto simp: keeps_nodes_def Let_def kinds_consts split: WILPatternValue.splits)
next
  case (8 g subst kind inputs)
  then show ?case by (auto simp: cbind_eq_Inr dest: build_node_keeps intro: keeps_nodes_trans)
next
  case (10 g subst q qs)
  then show ?case by (auto simp: cbind_eq_Inr intro: keeps_nodes_trans)
qed auto

text \<open>A result of rewriting: the rules are the same, and the graph keeps its nodes.\<close>

definition kept_result :: "wrs_state \<Rightarrow> (node_ptr \<times> wrs_state) cres option \<Rightarrow> bool" where
  "kept_result s r \<longleftrightarrow>
     (\<forall>p s'. r = Some (Inr (p, s')) \<longrightarrow> ws_rules (fst s') = ws_rules (fst s) \<and> keeps_nodes (snd s) (snd s'))"

definition no_actions :: "WILRewriteRule list \<Rightarrow> bool" where
  "no_actions rules \<longleftrightarrow> list_all (\<lambda>rule. wr_action rule = None) rules"

lemma kept_return [simp]: "kept_result s (Some (Inr (p, s)))"
  by (simp add: kept_result_def)

lemma kept_bind:
  assumes "kept_result s r"
    and "\<And>p s'. ws_rules (fst s') = ws_rules (fst s) \<Longrightarrow> keeps_nodes (snd s) (snd s') \<Longrightarrow> kept_result s' (f (p, s'))"
  shows "kept_result s (ubind r f)"
  unfolding kept_result_def
proof (intro allI impI)
  fix p s' assume "ubind r f = Some (Inr (p, s'))"
  then obtain q t where r: "r = Some (Inr (q, t))" "f (q, t) = Some (Inr (p, s'))"
    by (auto simp: ubind_eq_Inr)
  with assms(1) have t: "ws_rules (fst t) = ws_rules (fst s)" "keeps_nodes (snd s) (snd t)"
    unfolding kept_result_def by blast+
  have "kept_result t (f (q, t))" by (rule assms(2) [OF t])
  with r(2) have "ws_rules (fst s') = ws_rules (fst t)" "keeps_nodes (snd t) (snd s')"
    unfolding kept_result_def by blast+
  with t show "ws_rules (fst s') = ws_rules (fst s) \<and> keeps_nodes (snd s) (snd s')"
    by (auto intro: keeps_nodes_trans)
qed

lemma apply_rule_keeps:
  assumes "wr_action rule = None"
  shows "kept_result (sys, g) (wrs_apply_rule sys g rule node)"
  unfolding kept_result_def
proof (intro allI impI)
  fix p s' assume a: "wrs_apply_rule sys g rule node = Some (Inr (p, s'))"
  show "ws_rules (fst s') = ws_rules (fst (sys, g)) \<and> keeps_nodes (snd (sys, g)) (snd s')"
    using a assms apply_pattern_keeps(1)
    by (auto simp: wrs_apply_rule_def ubind_eq_Inr bind_eq_Some_conv wilSubstitutionApply_def
        keeps_nodes_def kinds_replace_all_uses split: option.splits if_splits; blast)
qed

lemma apply_at_keeps:
  assumes "no_actions (ws_rules sys)"
  shows "kept_result (sys, g) (wilRewriteSystemApplyAt sys g node)"
proof -
  have "kept_result (sys, g) (wrs_apply_first sys g rules node)" if "no_actions rules" for rules sys g
    using that
  proof (induction rules arbitrary: sys g)
    case (Cons rule rules)
    have "kept_result (sys, g) (wrs_apply_rule sys g rule node)"
      using Cons.prems by (intro apply_rule_keeps) (simp add: no_actions_def)
    then show ?case unfolding wrs_apply_first.simps
    proof (rule kept_bind)
      fix p s'
      have "kept_result s' (wrs_apply_first (fst s') (snd s') rules node)"
        using Cons.IH [of "fst s'" "snd s'"] Cons.prems by (simp add: no_actions_def)
      then show "kept_result s' (case (p, s') of (replacement, sys, g) \<Rightarrow>
          if replacement \<noteq> None then Some (Inr (replacement, sys, g)) else wrs_apply_first sys g rules node)"
        by (cases s') simp
    qed
  qed simp
  with assms show ?thesis by (simp add: wilRewriteSystemApplyAt_def)
qed

lemma kept_moved:
  "ws_rules (fst s') = ws_rules (fst s) \<Longrightarrow> kinds (snd s') = kinds (snd s) \<Longrightarrow> kept_result s' r \<Longrightarrow> kept_result s r"
  unfolding kept_result_def keeps_nodes_def by metis

text \<open>The two cases of a traversal whose recursive calls keep the nodes.\<close>

lemma inputs_keep:
  assumes call: "\<And>visit t. no_actions (ws_rules (fst t)) \<Longrightarrow> kept_result t (f visit t)"
    and rules: "no_actions (ws_rules (fst s))"
  shows "kept_result s (ubind (f (VisitNode (wil_node_input (snd s) (Some n) i)) s) (\<lambda>r.
      f (VisitInputs n (Suc i))
        (case r of (replacement, sys, g) \<Rightarrow>
          (sys, if replacement = None then g else wil_node_replace_input g n i replacement))))"
proof (rule kept_bind [OF call [OF rules]])
  fix p and t :: wrs_state
  assume t: "ws_rules (fst t) = ws_rules (fst s)"
  define t' where "t' = (fst t, if p = None then snd t else wil_node_replace_input (snd t) n i p)"
  have "ws_rules (fst t') = ws_rules (fst t)" "kinds (snd t') = kinds (snd t)"
    by (simp_all add: t'_def kinds_replace_input)
  moreover from this have "kept_result t' (f (VisitInputs n (Suc i)) t')" using rules t by (intro call) simp
  ultimately have "kept_result t (f (VisitInputs n (Suc i)) t')" by (rule kept_moved)
  then show "kept_result t (f (VisitInputs n (Suc i)) (case (p, t) of (replacement, sys, g) \<Rightarrow>
          (sys, if replacement = None then g else wil_node_replace_input g n i replacement)))"
    by (cases p; cases t) (simp_all add: t'_def)
qed

lemma node_keeps:
  assumes call: "\<And>visit t. no_actions (ws_rules (fst t)) \<Longrightarrow> kept_result t (f visit t)"
    and rules: "no_actions (ws_rules (fst s))"
  shows "kept_result s (ubind (if ws_strategy (fst s) = WIL_STRATEGY_INNERMOST
        then f (VisitInputs n 0) s else Some (Inr (None, s))) (\<lambda>r.
      ubind (wilRewriteSystemApplyAt (fst (snd r)) (snd (snd r)) node) (\<lambda>r.
        if fst r \<noteq> None then Some (Inr r)
        else if ws_strategy (fst (snd r)) \<noteq> WIL_STRATEGY_INNERMOST
        then f (VisitInputs n 0) (snd r)
        else Some (Inr r))))"
proof (rule kept_bind)
  show "kept_result s (if ws_strategy (fst s) = WIL_STRATEGY_INNERMOST
      then f (VisitInputs n 0) s else Some (Inr (None, s)))"
    using call [OF rules] by simp
next
  fix p and t :: wrs_state
  assume t: "ws_rules (fst t) = ws_rules (fst s)"
  have "kept_result t (ubind (wilRewriteSystemApplyAt (fst t) (snd t) node) (\<lambda>r.
        if fst r \<noteq> None then Some (Inr r)
        else if ws_strategy (fst (snd r)) \<noteq> WIL_STRATEGY_INNERMOST
        then f (VisitInputs n 0) (snd r)
        else Some (Inr r)))"
  proof (rule kept_bind)
    show "kept_result t (wilRewriteSystemApplyAt (fst t) (snd t) node)"
      using apply_at_keeps [of "fst t" "snd t" node] rules t by simp
  next
    fix q and u :: wrs_state
    assume "ws_rules (fst u) = ws_rules (fst t)"
    then show "kept_result u (if fst (q, u) \<noteq> None then Some (Inr (q, u))
        else if ws_strategy (fst (snd (q, u))) \<noteq> WIL_STRATEGY_INNERMOST
        then f (VisitInputs n 0) (snd (q, u))
        else Some (Inr (q, u)))"
      using call [of u] rules t by simp
  qed
  then show "kept_result t (ubind (wilRewriteSystemApplyAt (fst (snd (p, t))) (snd (snd (p, t))) node) (\<lambda>r.
        if fst r \<noteq> None then Some (Inr r)
        else if ws_strategy (fst (snd r)) \<noteq> WIL_STRATEGY_INNERMOST
        then f (VisitInputs n 0) (snd r)
        else Some (Inr r)))"
    by simp
qed

lemma traverse_keeps:
  assumes "no_actions (ws_rules (fst s))"
  shows "kept_result s (wrs_traverse visit s)"
proof (cases "wrs_traverse visit s")
  case (Some y)
  have "no_actions (ws_rules (fst s)) \<longrightarrow> kept_result s (Some y)"
  proof (rule wrs_traverse.raw_induct [OF _ Some], rule impI)
    fix f :: "wrs_visit \<Rightarrow> wrs_state \<Rightarrow> (node_ptr \<times> wrs_state) cres option" and visit s y
    assume IH: "\<And>visit s y. f visit s = Some y \<Longrightarrow> no_actions (ws_rules (fst s)) \<longrightarrow> kept_result s (Some y)"
      and body: "(case visit of
        VisitInputs n i \<Rightarrow>
          if i < wil_node_input_count (snd s) (Some n) then
            ubind (f (VisitNode (wil_node_input (snd s) (Some n) i)) s) (\<lambda>r.
              f (VisitInputs n (Suc i))
                (case r of (replacement, sys, g) \<Rightarrow>
                  (sys, if replacement = None then g else wil_node_replace_input g n i replacement)))
          else Some (Inr (None, s))
      | VisitNode node \<Rightarrow>
          (case node of
             None \<Rightarrow> Some (Inr (None, s))
           | Some n \<Rightarrow>
               ubind (if ws_strategy (fst s) = WIL_STRATEGY_INNERMOST
                      then f (VisitInputs n 0) s else Some (Inr (None, s))) (\<lambda>r.
               ubind (wilRewriteSystemApplyAt (fst (snd r)) (snd (snd r)) node) (\<lambda>r.
                 if fst r \<noteq> None then Some (Inr r)
                 else if ws_strategy (fst (snd r)) \<noteq> WIL_STRATEGY_INNERMOST
                 then f (VisitInputs n 0) (snd r)
                 else Some (Inr r))))) = Some y"
      and rules: "no_actions (ws_rules (fst s))"
    have call: "kept_result t (f v t)" if "no_actions (ws_rules (fst t))" for v t
    proof (cases "f v t")
      case None
      then show ?thesis by (simp add: kept_result_def)
    next
      case (Some r)
      from IH [OF Some] that show ?thesis unfolding Some by blast
    qed
    show "kept_result s (Some y)"
    proof (cases visit)
      case (VisitInputs n i)
      show ?thesis
        using inputs_keep [where f = f, OF call rules, of n i] unfolding body [symmetric] VisitInputs by simp
    next
      case (VisitNode node)
      show ?thesis
        using node_keeps [where f = f, OF call rules, of _ node] unfolding body [symmetric] VisitNode
        by (cases node) simp_all
    qed
  qed
  with assms Some show ?thesis by simp
qed (simp add: kept_result_def)

lemma normalize_keeps:
  assumes "no_actions (ws_rules sys)" and "wilRewriteSystemNormalize sys g node k = Some (Inr (p, sys', g'))"
  shows "keeps_nodes g g'"
proof -
  have "kept_result (sys, g) (wrs_normalize_loop sys g cur k)" if "no_actions (ws_rules sys)" for sys g cur k
    using that
  proof (induction k arbitrary: sys g cur)
    case (Suc k)
    have "kept_result (sys, g) (wrs_apply_recursive sys g cur)"
      using traverse_keeps [of "(sys, g)"] Suc.prems by (simp add: wrs_apply_recursive_def)
    then show ?case unfolding wrs_normalize_loop.simps
      by (rule kept_bind) (use Suc in \<open>auto split: prod.splits\<close>)
  qed simp
  from this [OF assms(1)] assms(2) show ?thesis
    by (auto simp: wilRewriteSystemNormalize_def bind_eq_Some_conv kept_result_def)
qed

end
