(* ===== verification/Frontend_Division.thy ===== *)
theory Frontend_Division
  imports Frontend_Correct Wrs_Kinds
begin

text \<open>
  Expressions that divide by zero. Folding leaves such a division in place, no target has an
  instruction for it, and so the driver reports an error when it does not rewrite; with the shipped
  rules the division of two literals is rewritten before it gets that far.
\<close>

section \<open>A division is kept\<close>

lemma kept_division: "expr_value e = None \<Longrightarrow> has_division e"
  using no_division_value by blast

lemma lowered_kinds:
  "\<exists>ks. kinds (snd (wirble_lower_expr g e)) = kinds g @ ks \<and> (has_division e \<longrightarrow> WIL_NODE_DIV \<in> set ks)"
proof (induction e arbitrary: g)
  case (WIRBLE_EXPR_INT v)
  then show ?case by (simp add: kinds_built)
next
  case (WIRBLE_EXPR_UNARY op e)
  from WIRBLE_EXPR_UNARY.IH [of g] show ?case
    by (cases op) (auto simp: wil_make_neg_def kinds_built split: prod.splits)
next
  case (WIRBLE_EXPR_BINARY op l r)
  obtain n g1 where l: "wirble_lower_expr g l = (n, g1)" by fastforce
  obtain k g2 where r: "wirble_lower_expr g1 r = (k, g2)" by fastforce
  obtain ks1 ks2 where ks: "kinds g1 = kinds g @ ks1" "has_division l \<longrightarrow> WIL_NODE_DIV \<in> set ks1"
      "kinds g2 = kinds g1 @ ks2" "has_division r \<longrightarrow> WIL_NODE_DIV \<in> set ks2"
    using WIRBLE_EXPR_BINARY.IH(1) [of g] WIRBLE_EXPR_BINARY.IH(2) [of g1] l r by auto
  then show ?case
    by (cases op) (auto simp: l r wil_make_add_def wil_make_sub_def wil_make_mul_def wil_make_div_def kinds_built)
qed

section \<open>Its instruction\<close>

definition opcodes :: "lower_state \<Rightarrow> MALOpcode set" where
  "opcodes st = mi_opcode ` set (insts_of st)"

definition keeps_code :: "lower_state \<Rightarrow> lower_state \<Rightarrow> bool" where
  "keeps_code st st' \<longleftrightarrow> mf_blocks (lo_fn st') \<noteq> [] \<and> length (mf_blocks (lo_fn st')) = length (mf_blocks (lo_fn st))
     \<and> opcodes st \<subseteq> opcodes st'"

lemma new_reg_blocks: "mf_blocks (snd (mal_new_reg fn)) = mf_blocks fn"
  by (simp add: mal_new_reg_def)

lemma emit_code:
  assumes "mf_blocks (lo_fn st) \<noteq> []" and "mf_blocks fn = mf_blocks (lo_fn st)"
  shows "keeps_code st (mal_lower_emit (st\<lparr>lo_fn := fn\<rparr>) inst)"
    and "mi_opcode inst \<in> opcodes (mal_lower_emit (st\<lparr>lo_fn := fn\<rparr>) inst)"
  using assms by (auto simp: keeps_code_def opcodes_def insts_of_def mal_lower_emit_def mal_block_insert_end_def Let_def)

lemma keeps_code_trans: "keeps_code a b \<Longrightarrow> keeps_code b c \<Longrightarrow> keeps_code a c"
  by (auto simp: keeps_code_def)

lemma return_code:
  assumes "mf_blocks (lo_fn st) \<noteq> []"
  shows "keeps_code st (mal_lower_return g st n)"
proof -
  have plain: "keeps_code st (mal_lower_emit st inst)" for inst
    using emit_code(1) [OF assms, of "lo_fn st" inst] by simp
  have typed: "keeps_code st (mal_lower_emit (st\<lparr>lo_fn := (lo_fn st)\<lparr>mf_retType := ty\<rparr>\<rparr>) inst)" for inst ty
    using emit_code(1) [OF assms, of "(lo_fn st)\<lparr>mf_retType := ty\<rparr>" inst] by simp
  have copied: "keeps_code st (mal_lower_emit (st'\<lparr>lo_fn := (lo_fn st')\<lparr>mf_retType := ty\<rparr>\<rparr>) inst)"
    if "st' = mal_lower_emit (st\<lparr>lo_fn := snd (mal_new_reg (lo_fn st))\<rparr>) copy" for inst ty copy st'
  proof -
    have "keeps_code st st'" unfolding that by (rule emit_code(1) [OF assms new_reg_blocks])
    moreover from this have "mf_blocks (lo_fn st') \<noteq> []" by (simp add: keeps_code_def)
    then have "keeps_code st' (mal_lower_emit (st'\<lparr>lo_fn := (lo_fn st')\<lparr>mf_retType := ty\<rparr>\<rparr>) inst)"
      by (rule emit_code(1)) simp
    ultimately show ?thesis by (rule keeps_code_trans)
  qed
  show ?thesis
    using plain typed copied [OF refl] by (simp add: mal_lower_return_def Let_def split_beta)
qed

lemma node_code:
  assumes "mf_blocks (lo_fn st) \<noteq> []"
  shows "keeps_code st (mal_lower_node g st n)"
    and "wil_node_kind g (Some n) = WIL_NODE_DIV \<Longrightarrow>
      mal_opcode_from_wil WIL_NODE_DIV (wil_node_type g (Some n)) \<in> opcodes (mal_lower_node g st n)"
proof -
  note emitted = emit_code [OF assms new_reg_blocks]
  have reg: "keeps_code st (mal_lower_set_reg g n r st') = keeps_code st st'"
    "opcodes (mal_lower_set_reg g n r st') = opcodes st'" for r st'
    by (simp_all add: keeps_code_def opcodes_def)
  have "keeps_code st st" and "keeps_code st (st\<lparr>lo_nextParamReg := r\<rparr>)" for r
    using assms by (simp_all add: keeps_code_def opcodes_def insts_of_def)
  then show "keeps_code st (mal_lower_node g st n)"
    using return_code [OF assms] emitted(1)
    by (simp add: mal_lower_node_def mal_lower_value_def Let_def split_beta reg)
  have op: "mi_opcode (foldl (\<lambda>inst input. mal_inst_add_operand inst (f input)) inst xs) = mi_opcode inst"
    for f :: "node_ptr \<Rightarrow> MALOperand" and inst xs
    by (simp add: foldl_add_operands)
  show "wil_node_kind g (Some n) = WIL_NODE_DIV \<Longrightarrow>
      mal_opcode_from_wil WIL_NODE_DIV (wil_node_type g (Some n)) \<in> opcodes (mal_lower_node g st n)"
    using emitted(2) [of "foldl (\<lambda>inst input.
        mal_inst_add_operand inst (mal_operand_from_wil_input g input (lo_nodeRegs st)))
        (mal_inst_create (mal_opcode_from_wil WIL_NODE_DIV (wil_node_type g (Some n)))
           (mal_type_from_wil (wil_node_type g (Some n))) (fst (mal_new_reg (lo_fn st)))) (mal_lower_inputs g n)"]
    by (simp add: mal_lower_node_def mal_lower_value_def Let_def split_beta reg op mal_inst_create_def)
qed

lemma loop_code:
  assumes "mf_blocks (lo_fn st) \<noteq> []"
  shows "keeps_code st (foldl (mal_lower_node g) st ns)"
    and "n \<in> set ns \<Longrightarrow> wil_node_kind g (Some n) = WIL_NODE_DIV \<Longrightarrow>
      mal_opcode_from_wil WIL_NODE_DIV (wil_node_type g (Some n)) \<in> opcodes (foldl (mal_lower_node g) st ns)"
  using assms
proof (induction ns arbitrary: st)
  case Nil
  { case 1 then show ?case by (simp add: keeps_code_def) }
  { case 2 then show ?case by simp }
next
  case (Cons k ns)
  { case 1
    then have "keeps_code st (mal_lower_node g st k)" by (rule node_code)
    then show ?case using Cons.IH(1) by (auto simp: keeps_code_def) }
  { case 2
    then have k: "keeps_code st (mal_lower_node g st k)" by (simp add: node_code)
    then have ne: "mf_blocks (lo_fn (mal_lower_node g st k)) \<noteq> []" by (simp add: keeps_code_def)
    from 2 show ?case
    proof (cases "n = k")
      case True
      then show ?thesis using node_code(2) [OF 2(3), of g k] 2(2) Cons.IH(1) [OF ne] by (auto simp: keeps_code_def)
    next
      case False
      then show ?thesis using Cons.IH(2) [OF _ 2(2) ne] 2(1) by simp
    qed }
qed

section \<open>No target has it\<close>

lemma division_unselectable:
  assumes "mi_opcode inst \<in> {MAL_OP_SDIV, MAL_OP_FDIV}"
  shows "\<not> mds_selectable inst"
proof
  assume "mds_selectable inst"
  then obtain i where i: "i < 21" "mi_opcode inst = row_opcode i" by (auto simp: mds_selectable_def list_ex_iff)
  then have "mi_opcode inst \<in> set (map row_opcode [0..<21])" by auto
  with assms show False unfolding row_opcodes by auto
qed

text \<open>A function of one block that divides.\<close>

definition divides :: "MALFunction \<Rightarrow> bool" where
  "divides fn \<longleftrightarrow> length (mf_blocks fn) = 1 \<and> (\<exists>inst\<in>set (mal_insts fn). mi_opcode inst \<in> {MAL_OP_SDIV, MAL_OP_FDIV})"

lemma divides_not_lowered:
  assumes "mm_functions m = [fn]" and "divides fn"
  shows "malLowerToMDS m (Some (mdsCreateSelector (mdsLoadMachine path))) = None"
proof -
  obtain b where b: "mf_blocks fn = [b]" using assms(2) unfolding divides_def One_nat_def length_Suc_conv by auto
  then obtain inst where "inst \<in> set (mb_insts b)" "mi_opcode inst \<in> {MAL_OP_SDIV, MAL_OP_FDIV}"
    using assms(2) by (auto simp: divides_def mal_insts_def)
  then have "mds_lower_insts (mdsCreateSelector (mdsLoadMachine path)) (mb_insts b) = None"
    using selected_selectable [of path "mb_insts b"] division_unselectable unfolding list_all_iff by blast
  then show ?thesis by (simp add: malLowerToMDS_def mdsLowerFromMAL_def Let_def assms(1) b builtin_selector)
qed

lemma division_lowered:
  assumes "WIL_NODE_DIV \<in> set (kinds g)"
  shows "\<exists>fn. mm_functions (malLowerFromWIL (mal_module_create t) g) = [fn] \<and> divides fn"
proof -
  obtain n where n: "n < length g" "wil_node_kind g (Some n) = WIL_NODE_DIV"
    using assms by (auto simp: kinds_def in_set_conv_nth wil_node_kind_def wil_node_get_def)
  let ?init = "mal_lower_start g \<lparr>mf_name = ''wil_main'', mf_retType = MAL_TYPE_VOID, mf_paramTypes = [],
      mf_blocks = [], mf_nextSSAReg = 0\<rparr>"
  let ?st = "foldl (mal_lower_node g) ?init [0..<length g]"
  have one: "length (mf_blocks (lo_fn ?init)) = 1"
    by (simp add: mal_lower_start_def Let_def new_reg_loop mal_block_create_def)
  then have ne: "mf_blocks (lo_fn ?init) \<noteq> []" by auto
  have "keeps_code ?init ?st" by (rule loop_code(1) [OF ne])
  then have len: "length (mf_blocks (lo_fn ?st)) = 1" using one unfolding keeps_code_def by metis
  then obtain b where b: "mf_blocks (lo_fn ?st) = [b]" unfolding One_nat_def length_Suc_conv by auto
  have "mal_opcode_from_wil WIL_NODE_DIV ty \<in> {MAL_OP_SDIV, MAL_OP_FDIV}" for ty
    by (simp add: mal_opcode_from_wil_def)
  moreover have "mal_opcode_from_wil WIL_NODE_DIV (wil_node_type g (Some n)) \<in> opcodes ?st"
    using loop_code(2) [OF ne, of n "[0..<length g]" g] n by simp
  then obtain inst where "inst \<in> set (mb_insts b)"
      "mi_opcode inst = mal_opcode_from_wil WIL_NODE_DIV (wil_node_type g (Some n))"
    by (auto simp: opcodes_def insts_of_def b)
  ultimately have "\<exists>inst\<in>set (mb_insts b). mi_opcode inst \<in> {MAL_OP_SDIV, MAL_OP_FDIV}" by metis
  then have "divides (lo_fn ?st)" by (simp add: divides_def mal_insts_def b)
  moreover have "mm_functions (malLowerFromWIL (mal_module_create t :: 'a MALModule) g) = [lo_fn ?st]"
    by (simp add: malLowerFromWIL_def mal_function_create_def mal_module_create_def Let_def wil_graph_node_count_def)
  ultimately show ?thesis by blast
qed

section \<open>Peephole rules that do not match a division keep it\<close>

definition spares_divisions :: "MALRewriteRule list \<Rightarrow> bool" where
  "spares_divisions rules \<longleftrightarrow> list_all (\<lambda>rule. mr_matchOpcode rule \<notin> {MAL_OP_SDIV, MAL_OP_FDIV}) rules"

lemma peephole_blocks_length: "mrs_peephole_blocks rules bs = Some bs' \<Longrightarrow> length bs' = length bs"
  by (induction bs arbitrary: bs') (auto split: option.splits)

lemma step_divides:
  assumes "peephole_step rules fn fn'" and "spares_divisions rules" and "divides fn"
  shows "divides fn'"
proof -
  have step: "malApplyOnePeephole rules fn = Some fn'" using assms(1) by (simp add: peephole_step_def)
  obtain xs inst ys new where s: "mal_insts fn = xs @ inst # ys" "mal_insts fn' = xs @ new # ys"
      "mrs_rewrites rules inst new"
    using one_peephole_split [OF step] by metis
  then have "mi_opcode inst \<notin> {MAL_OP_SDIV, MAL_OP_FDIV}"
    using assms(2) by (auto simp: mrs_rewrites_def spares_divisions_def list_all_iff mal_mrs_match_rule_def
        split: if_splits)
  moreover have "length (mf_blocks fn') = length (mf_blocks fn)"
    using step by (auto simp: malApplyOnePeephole_def dest: peephole_blocks_length)
  ultimately show ?thesis using assms(3) s(1,2) by (auto simp: divides_def)
qed

lemma fixpoint_steps:
  assumes "mrs_fixpoint rules changed fn = Some (changed', fn')"
  shows "(peephole_step rules)\<^sup>*\<^sup>* fn fn'"
proof -
  have "(peephole_step rules)\<^sup>*\<^sup>* fn (snd (changed', fn'))"
    by (rule mrs_fixpoint.raw_induct [where P = "\<lambda>rs c g r. (peephole_step rs)\<^sup>*\<^sup>* g (snd r)", OF _ assms])
      (auto simp: peephole_step_def split: option.splits intro: converse_rtranclp_into_rtranclp)
  then show ?thesis by simp
qed

lemma fixpoint_divides:
  assumes "malApplyPeepholeToFixpoint rules fn = Some (changed, fn')" and "spares_divisions rules" and "divides fn"
  shows "divides fn'"
proof -
  have "(peephole_step rules)\<^sup>*\<^sup>* fn fn'"
    using assms(1) fixpoint_steps by (simp add: malApplyPeepholeToFixpoint_def)
  then show ?thesis using assms(3) by (induction rule: rtranclp_induct) (auto intro: step_divides [OF _ assms(2)])
qed

lemma optimized_divides:
  assumes "wirble_optimize_mal mrs verifyIR m = Some (Inr m')" and "pred_option spares_divisions mrs"
    and "mm_functions m = [fn]" and "divides fn"
  shows "\<exists>fn'. mm_functions m' = [fn'] \<and> divides fn'"
proof (cases mrs)
  case (Some rules)
  obtain r where r: "wirble_peephole_functions rules verifyIR [fn] = Some r"
      "map_sum id (\<lambda>fns. m\<lparr>mm_functions := fns\<rparr>) r = Inr m'"
    using assms(1,3) by (auto simp: wirble_optimize_mal_def Some)
  then obtain fns where fns: "r = Inr fns" "m' = m\<lparr>mm_functions := fns\<rparr>" by (cases r) auto
  then obtain changed fn' where "malApplyPeepholeToFixpoint rules fn = Some (changed, fn')" "fns = [fn']"
    using r(1) by (auto simp: bind_eq_Some_conv split: if_splits)
  then show ?thesis using fixpoint_divides assms(2,4) fns(2) Some by auto
qed (use assms in \<open>simp add: wirble_optimize_mal_def\<close>)

section \<open>Rules from files have no actions\<close>

lemma no_actions_append [simp]: "no_actions (xs @ ys) \<longleftrightarrow> no_actions xs \<and> no_actions ys"
  by (simp add: no_actions_def)

lemma form_no_actions: "no_actions (wf_rules f) \<Longrightarrow> no_actions (wf_rules (wrs_load_form strtod f form))"
  by (auto simp: wrs_load_form_def wrs_rule_from_tree_def wilRuleCreateSimple_def wilRuleCreate_def no_actions_def
      Let_def split: option.splits)

lemma file_no_actions: "no_actions (wf_rules (wrs_file_load_tree strtod tree))"
proof -
  have "no_actions (wf_rules (foldl (wrs_load_form strtod) f forms))" if "no_actions (wf_rules f)" for f forms
    using that by (induction forms arbitrary: f) (simp_all add: form_no_actions)
  then show ?thesis by (simp add: wrs_file_load_tree_def wrs_file_alloc_def no_actions_def)
qed

lemma loaded_no_actions: "fst (wrsFileLoad parse strtod files path out) = Some f \<Longrightarrow> no_actions (wf_rules f)"
  by (auto simp: wrsFileLoad_def Let_def file_no_actions split: prod.splits if_splits)

lemma applied_no_actions:
  assumes "pred_option (\<lambda>f. no_actions (wf_rules f)) opt" and "no_actions (ws_rules sys)"
  shows "no_actions (ws_rules (wrsFileApplyToSystem opt sys))"
proof -
  have "no_actions (ws_rules (foldl wilRewriteSystemAddRule sys rules))"
    if "no_actions rules" "no_actions (ws_rules sys)" for rules sys
    using that by (induction rules arbitrary: sys) (simp_all add: wilRewriteSystemAddRule_def no_actions_def)
  with assms show ?thesis
    by (cases opt) (simp_all add: wrsFileApplyToSystem_def wilRewriteSystemSetStrategy_def)
qed

lemma builtin_no_actions:
  assumes "no_actions (ws_rules (fst s))"
  shows "no_actions (ws_rules (fst (wrs_add_rules_from_builtin_file parse strtod files dir name s)))"
proof -
  obtain f out where f: "wrsFileLoad parse strtod files (Some (dir @ ''/'' @ name)) (snd s) = (f, out)" by fastforce
  obtain f' out' where f': "wrsFileLoad parse strtod files (Some name) out = (f', out')" by fastforce
  have "pred_option (\<lambda>f. no_actions (wf_rules f)) f" "pred_option (\<lambda>f. no_actions (wf_rules f)) f'"
    using loaded_no_actions [of parse strtod files "Some (dir @ ''/'' @ name)" "snd s"] f
      loaded_no_actions [of parse strtod files "Some name" out] f' by (cases f; cases f'; simp)+
  then show ?thesis
    using assms f f' applied_no_actions [of _ "fst s"]
    by (auto simp: wrs_add_rules_from_builtin_file_def Let_def split: option.splits)
qed

lemma load_no_actions:
  assumes "wirble_load_wrs env options out = (Inr sys, out')"
  shows "no_actions (ws_rules sys)"
proof -
  have fresh: "no_actions (ws_rules wilRewriteSystemCreate)" by (simp add: wilRewriteSystemCreate_def no_actions_def)
  show ?thesis
  proof (cases "Option.bind options co_wrsRulesPath")
    case None
    have "sys = fst (wilRewriteSystemAddAllBuiltinRules (fe_sexp env) (fe_strtod env) (fe_files env) (fe_dir env)
        (wilRewriteSystemCreate, out))"
      using assms None by (simp add: wirble_load_wrs_def split: prod.splits)
    then show ?thesis
      by (simp add: wilRewriteSystemAddAllBuiltinRules_def wilRewriteSystemAddStrengthReductionRules_def
          wilRewriteSystemAddIdentityRules_def wilRewriteSystemAddAlgebraicRules_def builtin_no_actions fresh)
  next
    case (Some path)
    then obtain f where f: "fst (wrsFileLoad (fe_sexp env) (fe_strtod env) (fe_files env) (Some path) out) = Some f"
        "sys = wrsFileApplyToSystem (Some f) wilRewriteSystemCreate"
      using assms by (auto simp: wirble_load_wrs_def split: prod.splits option.splits)
    then show ?thesis using applied_no_actions [OF _ fresh, of "Some f"] loaded_no_actions [OF f(1)] by simp
  qed
qed

lemma normalized_division:
  assumes "wirble_normalize wrs g v = Some (Inr (p, g'))" and "pred_option (\<lambda>sys. no_actions (ws_rules sys)) wrs"
    and "WIL_NODE_DIV \<in> set (kinds g)"
  shows "WIL_NODE_DIV \<in> set (kinds g')"
proof (cases wrs)
  case (Some sys)
  then obtain q sys' where "wilRewriteSystemNormalize sys g v 16 = Some (Inr (q, sys', g'))"
    using assms(1) by (auto simp: wirble_normalize_def ubind_eq_Inr split: prod.splits)
  then have "keeps_nodes g g'" using normalize_keeps assms(2) Some by simp
  then show ?thesis using assms(3) unfolding keeps_nodes_def by (meson set_mono_prefix subsetD)
qed (use assms in \<open>simp add: wirble_normalize_def\<close>)

text \<open>A program that divides is rejected by the back end.\<close>

lemma division_rejected:
  assumes "mm_functions m = [fn]" and "divides fn" and "wirble_machine_path target = Some path"
  shows "wirble_back_end level verifyIR path sourceName m = Inr (Inl ''unable to lower MAL to MDS'')"
proof -
  have "mdsValidateMachine (mdsLoadMachine (Some path))"
    using builtin_instr(6) [of 0 "Some path"] by (auto simp: mdsValidateMachine_def)
  then show ?thesis by (simp add: wirble_back_end_def Let_def divides_not_lowered [OF assms(1,2)])
qed

lemma graph_divides:
  assumes "wirble_lower_graph verifyIR target g start v = Inr (g', m)" and "WIL_NODE_DIV \<in> set (kinds g)"
  shows "\<exists>fn. mm_functions m = [fn] \<and> divides fn"
proof -
  have "WIL_NODE_DIV \<in> set (kinds (snd (wil_make_return g (Some start) v)))"
    using assms(2) by (simp add: kinds_built)
  moreover have "m = malLowerFromWIL (mal_module_create (Some target)) (snd (wil_make_return g (Some start) v))"
    using assms(1) by (auto simp: wirble_lower_graph_def Let_def split: option.splits if_splits)
  ultimately show ?thesis using division_lowered by blast
qed

text \<open>A stage that delivers did not fail.\<close>

lemma stage_delivers:
  "(case x of Inl e \<Rightarrow> fail_stage e out | Inr z \<Rightarrow> h z) = Some (Inr (Inr y, out'))
     \<longleftrightarrow> (\<exists>z. x = Inr z \<and> h z = Some (Inr (Inr y, out')))"
  "(case w of Inl e \<Rightarrow> Some (Inl e) | Inr z \<Rightarrow> k z) = Some (Inr r) \<longleftrightarrow> (\<exists>z. w = Inr z \<and> k z = Some (Inr r))"
  by (auto simp: fail_stage_def split: sum.splits)

definition mrs_spare_divisions :: "frontend_env \<Rightarrow> WirbleCompileOptions option \<Rightarrow> bool" where
  "mrs_spare_divisions env options \<longleftrightarrow>
     (\<forall>out. pred_option spares_divisions (fst (wirble_load_mrs env options out)))"

lemma division_not_built:
  assumes "wirble_machine_path (wirble_target_or_default options) = Some path"
    and "has_division e" and "mrs_spare_divisions env options"
  shows "wirble_build_from_expr env sourceName options path e out \<noteq> Some (Inr (Inr pa, out'))"
proof
  assume built: "wirble_build_from_expr env sourceName options path e out = Some (Inr (Inr pa, out'))"
  define target where "target = wirble_target_or_default options"
  define level where "level = (case options of None \<Rightarrow> 2 | Some opts \<Rightarrow> co_optimizationLevel opts)"
  define verifyIR where "verifyIR = (case options of None \<Rightarrow> True | Some opts \<Rightarrow> co_verifyIR opts)"
  obtain start g0 where g0: "wil_make_start [] = (start, g0)" by fastforce
  obtain v g where g: "wirble_lower_expr g0 e = (v, g)" by fastforce
  have division: "WIL_NODE_DIV \<in> set (kinds g)" using lowered_kinds [of g0 e] assms(2) g by auto
  obtain wrs out1 where wrs: "(if 0 < level then (case wirble_load_wrs env options out of
          (sys, out) \<Rightarrow> (map_sum id Some sys, out)) else (Inr None, out)) = (wrs, out1)"
    by fastforce
  obtain mrs out2 where mrs: "(if 0 < level then wirble_load_mrs env options out1 else (None, out1)) = (mrs, out2)"
    by fastforce
  have spared: "pred_option spares_divisions mrs"
  proof (cases "0 < level")
    case True
    then have "mrs = fst (wirble_load_mrs env options out1)" using mrs by simp
    then show ?thesis using assms(3) unfolding mrs_spare_divisions_def by blast
  qed (use mrs in simp)
  have no_action: "pred_option (\<lambda>sys. no_actions (ws_rules sys)) sys" if "wrs = Inr sys" for sys
  proof (cases "0 < level")
    case True
    obtain r where r: "wirble_load_wrs env options out = (r, out1)" "wrs = map_sum id Some r"
      using wrs True by (cases "wirble_load_wrs env options out") simp
    then show ?thesis using load_no_actions [of env options out] that by (cases r) auto
  qed (use wrs that in auto)
  note built = built [unfolded wirble_build_from_expr_def Let_def, folded target_def level_def verifyIR_def,
      simplified g0 g wrs prod.case]
  obtain sys where sys: "wrs = Inr sys" using built by (cases wrs) (simp_all add: fail_stage_def)
  obtain p g' g'' m m' bk where
      normal: "wirble_normalize sys g (Some v) = Some (Inr (p, g'))"
      and lowered: "wirble_lower_graph verifyIR target g' start p = Inr (g'', m)"
      and optimized: "wirble_optimize_mal mrs verifyIR m = Some (Inr m')"
      and back_end: "wirble_back_end level verifyIR path sourceName m' = Inr (Inr bk)"
    using built by (auto simp: sys mrs ubind_eq_Inr bind_eq_Some_conv stage_delivers)
  have "WIL_NODE_DIV \<in> set (kinds g')" by (rule normalized_division [OF normal no_action [OF sys] division])
  then obtain fn where "mm_functions m = [fn]" "divides fn" using graph_divides [OF lowered] by blast
  then obtain fn' where fn': "mm_functions m' = [fn']" "divides fn'"
    using optimized_divides [OF optimized spared] by blast
  show False using division_rejected [OF fn' assms(1)] back_end by simp
qed

lemma division_reported:
  assumes "wirble_machine_path (wirble_target_or_default (Some opts)) = Some path" and "has_division e"
    and "co_optimizationLevel opts = 0"
  shows "\<exists>msg. wirble_build_from_expr env sourceName (Some opts) path e out = Some (Inr (Inl msg, out))"
proof -
  obtain start g0 where g0: "wil_make_start [] = (start, g0)" by fastforce
  obtain v g where g: "wirble_lower_expr g0 e = (v, g)" by fastforce
  have division: "WIL_NODE_DIV \<in> set (kinds g)" using lowered_kinds [of g0 e] assms(2) g by auto
  define target where "target = wirble_target_or_default (Some opts)"
  show ?thesis
  proof (cases "wirble_lower_graph (co_verifyIR opts) target g start (Some v)")
    case (Inl msg)
    then show ?thesis
      by (simp add: wirble_build_from_expr_def assms(3) g0 g wirble_normalize_def target_def [symmetric] fail_stage_def)
  next
    case (Inr r)
    then obtain g' m where lowered: "wirble_lower_graph (co_verifyIR opts) target g start (Some v) = Inr (g', m)"
      by (cases r) simp
    then obtain fn where "mm_functions m = [fn]" "divides fn" using graph_divides division by blast
    then have "wirble_back_end 0 (co_verifyIR opts) path sourceName m = Inr (Inl ''unable to lower MAL to MDS'')"
      using division_rejected assms(1) by blast
    with lowered show ?thesis
      by (simp add: wirble_build_from_expr_def assms(3) g0 g wirble_normalize_def target_def [symmetric] fail_stage_def
          wirble_optimize_mal_def)
  qed
qed

text \<open>
  C5. A division by zero never yields a value. Let a text be parsed to an expression that divides by
  zero somewhere and in which no evaluated operation leaves 64 bits, and let no peephole rule that is
  loaded match a division. Then for every target, every optimisation level and all files of graph
  rules, \<^verbatim>\<open>wirbleExecuteSource\<close> does not deliver a value: no rewriting removes the division, and no
  target has an instruction for it. At level 0 it returns an error message, without undefined
  behaviour.
\<close>

theorem wirbleExecuteSource_division_by_zero:
  assumes "fe_parse env text = Inr e" and "expr_fits e" and "expr_value e = None"
    and "mrs_spare_divisions env (Some opts)"
  shows "wirbleExecuteSource env (Some text) sourceName (Some opts) out \<noteq> Some (Inr (Inr v, out'))
    \<and> (co_optimizationLevel opts = 0 \<longrightarrow>
       (\<exists>msg. wirbleExecuteSource env (Some text) sourceName (Some opts) out = Some (Inr (Inl msg, out))))"
proof (cases "wirble_machine_path (wirble_target_or_default (Some opts))")
  case None
  then show ?thesis
    by (simp add: wirbleExecuteSource_def wirbleCompileSourceToPrototype_def wirbleBuildPipelineArtifacts_def
        fail_stage_def)
next
  case (Some path)
  obtain e' where e': "wirble_expr_fold_constants e = Inr e'" "expr_value e' = None"
    using fold_constants [OF assms(2)] assms(3) by auto
  then have parse: "wirble_parse_source env (Some text) = Inr (Inr e')"
    by (simp add: wirble_parse_source_def assms(1))
  have run: "wirbleBuildPipelineArtifacts env (Some text) sourceName (Some opts) out =
      wirble_build_from_expr env sourceName (Some opts) path e' out"
    by (simp add: wirbleBuildPipelineArtifacts_def Some parse)
  have no_value: "wirble_build_from_expr env sourceName (Some opts) path e' out \<noteq> Some (Inr (Inr pa, out'))" for pa out'
    by (rule division_not_built [OF Some kept_division [OF e'(2)] assms(4)])
  have "wirbleExecuteSource env (Some text) sourceName (Some opts) out \<noteq> Some (Inr (Inr v, out'))"
  proof
    assume "wirbleExecuteSource env (Some text) sourceName (Some opts) out = Some (Inr (Inr v, out'))"
    then obtain r proto where "wirble_build_from_expr env sourceName (Some opts) path e' out = Some (Inr (r, out'))"
        "map_sum id pa_wvmPrototype r = Inr proto"
      by (auto simp: wirbleExecuteSource_def wirbleCompileSourceToPrototype_def run ubind_eq_Inr stage_delivers)
    then show False using no_value by (cases r) auto
  qed
  moreover have "\<exists>msg. wirbleExecuteSource env (Some text) sourceName (Some opts) out = Some (Inr (Inl msg, out))"
    if level: "co_optimizationLevel opts = 0"
  proof -
    obtain msg where "wirble_build_from_expr env sourceName (Some opts) path e' out = Some (Inr (Inl msg, out))"
      using division_reported [OF Some kept_division [OF e'(2)] level] by blast
    then show ?thesis
      by (simp add: wirbleExecuteSource_def wirbleCompileSourceToPrototype_def run fail_stage_def)
  qed
  ultimately show ?thesis by blast
qed

text \<open>The text \<open>1 + 7 / 0;\<close> with the shipped rules, and without rewriting.\<close>

definition zero_expr :: WirbleExpr where
  "zero_expr = WIRBLE_EXPR_BINARY WIRBLE_BINARY_ADD (WIRBLE_EXPR_INT 1)
     (WIRBLE_EXPR_BINARY WIRBLE_BINARY_DIV (WIRBLE_EXPR_INT 7) (WIRBLE_EXPR_INT 0))"

definition zero_env :: frontend_env where
  "zero_env = demo_env\<lparr>fe_parse := (\<lambda>_. Inr zero_expr)\<rparr>"

theorem wirbleExecuteSource_division_by_zero_witness:
  "wirbleExecuteSource zero_env (Some ''1 + 7 / 0;'') None (Some (wirbleInitCompileOptions zero_env)) (\<lambda>_. '''')
     \<noteq> Some (Inr (Inr (wvm_box 8), \<lambda>_. ''''))
   \<and> (\<exists>msg. wirbleExecuteSource zero_env (Some ''1 + 7 / 0;'') None
        (Some ((wirbleInitCompileOptions zero_env)\<lparr>co_optimizationLevel := 0\<rparr>)) (\<lambda>_. '''') = Some (Inr (Inl msg, \<lambda>_. '''')))"
proof -
  have e: "fe_parse zero_env ''1 + 7 / 0;'' = Inr zero_expr" "expr_fits zero_expr" "expr_value zero_expr = None"
    by (simp_all add: zero_env_def zero_expr_def)
  have "ships_rules zero_env" by (simp add: ships_rules_def zero_env_def demo_env_def wrapped_def)
  then have loaded: "fst (wirble_load_mrs zero_env (Some (wirbleInitCompileOptions zero_env)) out) = Some standard_rules"
    for out by (rule shipped_mrs)
  have spare: "mrs_spare_divisions zero_env (Some ((wirbleInitCompileOptions zero_env)\<lparr>co_optimizationLevel := n\<rparr>))" for n
    using loaded by (simp add: mrs_spare_divisions_def spares_divisions_def wirble_load_mrs_def standard_rules_def
        Let_def peephole_rule_def)
  have "(wirbleInitCompileOptions zero_env)\<lparr>co_optimizationLevel := 2\<rparr> = wirbleInitCompileOptions zero_env"
    by (simp add: wirbleInitCompileOptions_def)
  with wirbleExecuteSource_division_by_zero [OF e spare [of 2]] wirbleExecuteSource_division_by_zero [OF e spare [of 0]]
  show ?thesis by simp
qed

end
