(* ===== verification/Wrs_Validate.thy ===== *)
theory Wrs_Validate
  imports Wrs_Rules
begin

text \<open>
  What the validation of a rule promises, and what it lets pass: a valid rule uses on its
  right side only what a match binds, but its right side may lack inputs, and its left side
  may match the node that the replacement refers to.
\<close>

section \<open>Valid rules are closed\<close>

fun pat_names :: "pat_ptr \<Rightarrow> string option set" and pats_names :: "pat_ptr list \<Rightarrow> string option set" where
  "pat_names (Some (WIL_PAT_VAR name)) = {name}"
| "pat_names (Some (WIL_PAT_SEQUENCE name e)) = {name}"
| "pat_names (Some (WIL_PAT_NODE kind ps)) = pats_names ps"
| "pat_names (Some (WIL_PAT_REFINEMENT b)) = pat_names b"
| "pat_names _ = {}"
| "pats_names [] = {}"
| "pats_names (p # ps) = pat_names p \<union> pats_names ps"

lemma name_known_Inr: "name_known vs name = Inr b \<Longrightarrow> b \<longleftrightarrow> name \<in> set vs"
proof (induction vs)
  case (Cons v vs)
  then show ?case by (cases "v = name") (auto simp: strcmp_eq_def cbind_eq_Inr split: if_splits)
qed simp

lemma collect_name_set: "wrs_collect_name vars cap name = Inr (Some vars') \<Longrightarrow> set vars' = insert name (set vars)"
  by (auto simp: wrs_collect_name_def cbind_eq_Inr dest: name_known_Inr split: if_splits)

lemma collect_vars_set:
  "wrs_rule_collect_vars vars cap p = Inr (Some vars') \<Longrightarrow> set vars' = set vars \<union> pat_names p"
  "wrs_collect_inputs vars cap ps = Inr (Some vars') \<Longrightarrow> set vars' = set vars \<union> pats_names ps"
proof (induction vars cap p and vars cap ps arbitrary: vars' and vars' rule: wrs_rule_collect_vars_wrs_collect_inputs.induct)
  case (10 vars cap p ps)
  then obtain vars1 where 1: "wrs_rule_collect_vars vars cap p = Inr (Some vars1)" "wrs_collect_inputs vars1 cap ps = Inr (Some vars')"
    by (auto simp: cbind_eq_Inr split: option.splits)
  then show ?case using 10(1) [OF 1(1)] 10(2) [OF 1(2)] by auto
qed (auto dest: collect_name_set)

lemma names_known_subset: "names_known lhs names = Inr True \<Longrightarrow> set names \<subseteq> set lhs"
  by (induction names) (auto simp: cbind_eq_Inr dest: name_known_Inr split: if_splits)

lemma bind_binds:
  "wrs_substitution_bind g s name node = Some (ok, s') \<Longrightarrow>
     fst ` set s \<subseteq> fst ` set s' \<and> (ok \<longrightarrow> {name} \<subseteq> Some ` fst ` set s')"
proof (cases name)
  case (Some x)
  assume b: "wrs_substitution_bind g s name node = Some (ok, s')"
  have "x \<in> fst ` set s" if "map_of s x \<noteq> None" using that by (simp add: map_of_eq_None_iff)
  then show ?thesis using b Some
    by (auto simp: wrs_substitution_bind_def split: option.splits bind_splits)
qed (simp add: wrs_substitution_bind_def)

lemma match_binds:
  "wrs_match_pattern g s p node = Some (ok, s') \<Longrightarrow>
     fst ` set s \<subseteq> fst ` set s' \<and> (ok \<longrightarrow> pat_names p \<subseteq> Some ` fst ` set s')"
  "wrs_match_inputs g s ps i node = Some (ok, s') \<Longrightarrow>
     fst ` set s \<subseteq> fst ` set s' \<and> (ok \<longrightarrow> pats_names ps \<subseteq> Some ` fst ` set s')"
proof (induction g s p node and g s ps i node arbitrary: ok s' and ok s' rule: wrs_match_pattern_wrs_match_inputs.induct)
  case (3 g s name node)
  then show ?case using bind_binds [of g s name node] by simp
next
  case (4 g s name elem node)
  then show ?case using bind_binds [of g s name node] by simp
next
  case (10 g s p ps i node)
  then obtain ok1 s1 where 1: "wrs_match_pattern g s p (wil_node_input g node i) = Some (ok1, s1)"
    by (auto split: bind_splits)
  show ?case
  proof (cases ok1)
    case True
    then have "wrs_match_inputs g s1 ps (Suc i) node = Some (ok, s')" using 10(3) 1 by simp
    note a = 10(1) [OF 1] and b = 10(2) [OF 1 refl True this]
    have "fst ` set s \<subseteq> fst ` set s'" using subset_trans [OF conjunct1 [OF a] conjunct1 [OF b]] .
    moreover have "pat_names p \<subseteq> Some ` fst ` set s'"
      using subset_trans [OF mp [OF conjunct2 [OF a] True] image_mono [OF conjunct1 [OF b]]] .
    ultimately show ?thesis using b by simp
  next
    case False
    then show ?thesis using 10(1) [OF 1] 10(3) 1 by auto
  qed
qed (auto split: if_splits)

text \<open>
  C19. Valid rules instantiate what they matched. When a rule with a right side passes the
  validation and its left side matches a node, then every variable of the right side is one
  that the match has bound.
\<close>

theorem wilRuleValidate_binds:
  assumes "wilRuleValidate rule = Inr True" "wr_rhs rule \<noteq> None"
    and "wilPatternMatch g (wr_lhs rule) node = Some m" "wm_succeeded m"
    and "name \<in> pat_names (wr_rhs rule)"
  shows "\<exists>x. name = Some x \<and> x \<in> fst ` set (wm_substitution m)"
proof -
  obtain l r where lr: "wrs_rule_collect_vars [] 128 (wr_lhs rule) = Inr (Some l)"
      "wrs_rule_collect_vars [] 128 (wr_rhs rule) = Inr (Some r)" "names_known l r = Inr True"
    using assms(1,2) by (auto simp: wilRuleValidate_def cbind_eq_Inr split: option.splits WILPattern.splits)
  have "name \<in> pat_names (wr_lhs rule)"
    using names_known_subset [OF lr(3)] collect_vars_set(1) [OF lr(1)] collect_vars_set(1) [OF lr(2)] assms(5) by auto
  moreover have "wrs_match_pattern g [] (wr_lhs rule) node = Some (True, wm_substitution m)"
    using assms(3,4) by (auto simp: wilPatternMatch_def split: bind_splits)
  ultimately show ?thesis using match_binds(1) by fastforce
qed

lemma add_zero_graph_reads:
  "wil_node_kind add_zero_graph (Some 2) = WIL_NODE_ADD" "wil_node_input_count add_zero_graph (Some 2) = 2"
  "wil_node_input add_zero_graph (Some 2) 0 = Some 0" "wil_node_input add_zero_graph (Some 2) (Suc 0) = Some 1"
  "wrs_match_constant add_zero_graph (WIL_PATTERN_VALUE_INT 0) (Some 1)"
  by code_simp+

theorem wilRuleValidate_binds_witness:
  "\<exists>x. Some ''x'' = Some x \<and> x \<in> fst ` set [(''x'', Some (0 :: nat))]"
proof -
  let ?r = "wilRuleCreateSimple None (p2 WIL_NODE_ADD px (pc 0)) px"
  have "wilRuleValidate ?r = Inr True"
    by (simp add: wilRuleValidate_def wilRuleCreateSimple_def wilRuleCreate_def wrs_collect_name_def strcmp_eq_def)
  moreover have "wilPatternMatch add_zero_graph (wr_lhs ?r) (Some 2)
      = Some \<lparr>wm_succeeded = True, wm_node = Some 2, wm_substitution = [(''x'', Some 0)]\<rparr>"
    using add_zero_graph_reads
    by (simp add: wilPatternMatch_def wilRuleCreateSimple_def wilRuleCreate_def wrs_substitution_bind_def)
  ultimately show ?thesis
    using wilRuleValidate_binds [of ?r add_zero_graph "Some 2" _ "Some ''x''"]
    by (simp add: wilRuleCreateSimple_def wilRuleCreate_def)
qed

text \<open>The shipped arithmetic rules are valid.\<close>

lemma arithmetic_rules_valid: "wrs_rules_valid arithmetic_rules = Inr True"
  by (simp add: arithmetic_rules_def wilRuleValidate_def wilRuleCreateSimple_def wilRuleCreate_def
      wrs_collect_name_def strcmp_eq_def)

section \<open>What validation lets pass\<close>

text \<open>
  Validation does not look at the number of inputs. The rule that rewrites a sum of \<open>x\<close> and
  \<open>y\<close> to a sum with \<open>x\<close> as its only input is valid, and applying it to any node that it matches
  reads past the end of the array of inputs.
\<close>

theorem wilRuleValidate_misses_arity:
  defines "rule \<equiv> wilRuleCreateSimple (Some ''drop'')
      (p2 WIL_NODE_ADD px (Some (WIL_PAT_VAR (Some ''y'')))) (p1 WIL_NODE_ADD px)"
  shows "wilRuleValidate rule = Inr True \<and> wilSubstitutionApply g subst (wr_rhs rule) = Inl OutOfBounds"
  by (simp add: rule_def wilRuleValidate_def wilRuleCreateSimple_def wilRuleCreate_def wrs_collect_name_def
      strcmp_eq_def wilSubstitutionApply_def wrs_build_node_def pat_input_def arr_get_def)

text \<open>
  C40. Validation lets a rule refer to the node it replaces. The rule that rewrites a refinement
  of the variable \<open>x\<close> to the negation of \<open>x\<close> is valid although the bare variable as a left side
  is not; it fires on every node, and the replacement becomes an input of itself.
\<close>

theorem wilRuleValidate_misses_cycle:
  fixes sys :: WILRewriteSystem
  assumes "wil_linked g" "n < length g"
  defines "rule \<equiv> wilRuleCreateSimple (Some ''negate'') (wilPatRefinement px) (p1 WIL_NODE_NEG px)"
  shows "wilRuleValidate rule = Inr True
     \<and> (\<exists>sys' g'. wrs_apply_rule sys g rule (Some n) = Some (Inr (Some (length g), sys', g'))
          \<and> wil_node_input g' (Some (length g)) 0 = Some (length g))"
proof
  show "wilRuleValidate rule = Inr True"
    by (simp add: rule_def wilRuleValidate_def wilRuleCreateSimple_def wilRuleCreate_def wilPatRefinement_def
        wrs_collect_name_def strcmp_eq_def)
  define r where "r = wil_build_unary g WIL_NODE_NEG (Some n) WIL_TYPE_VOID"
  have made: "made g WIL_NODE_NEG 0 [Some n] r" unfolding r_def by (rule made_unary)
  have lk: "wil_linked (snd r)" using made assms(1,2) by (simp add: made_def valid_ptr_def)
  have len: "n < length (snd r)" "length g < length (snd r)" "n \<noteq> length g" using made assms(2) by (simp_all add: made_def)
  have "node_view (wil_node_replace_all_uses (snd r) n (length g)) (length g) = (WIL_NODE_NEG, 0, [Some (length g)])"
      "length (wil_node_replace_all_uses (snd r) n (length g)) = Suc (length g)"
    using replace_all_uses_view [OF lk len len(2)] replace_all_uses_inputs [OF lk len refl] made by (simp_all add: made_def)
  then have "wil_node_input (wil_node_replace_all_uses (snd r) n (length g)) (Some (length g)) 0 = Some (length g)"
    using node_reads(3) [of "length g" "wil_node_replace_all_uses (snd r) n (length g)" 0] by simp
  moreover have "wrs_build_node g WIL_NODE_NEG [Some n] = Inr (Some (length g), snd r)"
    using made by (simp add: wrs_build_node_def wil_make_neg_def pat_input_def r_def [symmetric] made_def)
  ultimately have build: "wil_node_input (wil_node_replace_all_uses (snd r) n (length g)) (Some (length g)) 0 = Some (length g)"
      "wilSubstitutionApply g [(''x'', Some n)] (p1 WIL_NODE_NEG px) = Inr (Some (length g), snd r)"
    by (simp_all add: wilSubstitutionApply_def wilSubstitutionLookup_def)
  have lookup: "wilPatternMatch g (wilPatRefinement px) (Some n)
      = Some \<lparr>wm_succeeded = True, wm_node = Some n, wm_substitution = [(''x'', Some n)]\<rparr>"
    by (simp add: wilPatternMatch_def wilPatRefinement_def wrs_substitution_bind_def)
  show "\<exists>sys' g'. wrs_apply_rule sys g rule (Some n) = Some (Inr (Some (length g), sys', g'))
      \<and> wil_node_input g' (Some (length g)) 0 = Some (length g)"
    using build by (simp add: rule_def wrs_apply_rule_def wilRuleCreateSimple_def wilRuleCreate_def lookup)
qed

theorem wilRuleValidate_misses_cycle_witness:
  "\<exists>sys' g'. wrs_apply_rule linear_system add_zero_graph
      (wilRuleCreateSimple (Some ''negate'') (wilPatRefinement px) (p1 WIL_NODE_NEG px)) (Some 2)
        = Some (Inr (Some 3, sys', g'))
      \<and> wil_node_input g' (Some 3) 0 = Some 3"
  using wilRuleValidate_misses_cycle [OF add_zero_graph_linked, of 2 linear_system] by (simp add: add_zero_graph_views(1))

text \<open>Looking for a rule by name behind one without a name compares with a null pointer.\<close>

lemma find_rule_unnamed:
  "wr_name rule = None \<Longrightarrow> ws_rules sys = [] \<Longrightarrow>
    wilRewriteSystemFindRule (wilRewriteSystemAddRule sys rule) (Some name) = Inl NullDeref"
  by (simp add: wilRewriteSystemFindRule_def wilRewriteSystemAddRule_def strcmp_eq_def)

end
