(* ===== verification/Spec2Isabelle.thy ===== *)
theory Spec2Isabelle
  imports Wvm_Object Wvm_Backend Arena Bytebuf Strpool Diagnostics Wil_Graph Mal_List Mal_Lower_Correct Mal_Mrs
    Mrs_Loader Frontend_Division Wrs_Text Wrs_Validate Equinox_Union_Find
begin

text \<open>
  WIRBLE is a compiler kit in C: programs are sea-of-nodes graphs (WIL) that are lowered to a linear
  register language in SSA form (MAL), rewritten by peephole rules (MRS), matched against the tables
  of a machine description (MDS), laid out as a target-ordered stream (TOS) and encoded as bytecode
  of a register machine (WVM), which has a verifier, an interpreter and object files. This library
  models those stages and the shared utilities, and proves what makes each of them correct. File
  names below are relative to \<^verbatim>\<open>src/src/wirble\<close> of the repository, the headers are in
  \<^verbatim>\<open>src/include/wirble\<close>.

  Theories, in the order of the pipeline. Each defines the data and operations of a component under
  their C names, then its lemmas.

  \<^item> \<open>Wirble_Prelude\<close>: machine words, the result type \<open>cres\<close> of code that may run into undefined
    behaviour, checked array accesses, little-endian bytes, capacity doubling; the collections of
    simplification rules. \<open>Graph_Search\<close>: depth-first and breadth-first search over an abstract
    successor function, used by the traversals of WIL and by the layout of TOS.
  \<^item> \<open>Bytebuf\<close>, \<open>Arena\<close>, \<open>Strpool\<close>, \<open>Diagnostics\<close>: \<^verbatim>\<open>common/bytebuf.c\<close>, \<^verbatim>\<open>arena.c\<close>,
    \<^verbatim>\<open>strpool.c\<close>, \<^verbatim>\<open>diagnostics.c\<close>. Regions of an arena are disjoint; interned pointers
    identify strings; counters count.
  \<^item> \<open>Wil\<close>, \<open>Wil_Graph\<close>: \<^verbatim>\<open>wil/wil_nodes.c\<close>, \<^verbatim>\<open>wil_builder.c\<close>, \<^verbatim>\<open>wil_validate.c\<close>. Use lists mirror
    input lists in every graph that the interface can build, so that the verifier rejects null inputs and
    nothing else; traversals visit what is reachable.
  \<^item> \<open>Ir_Meaning\<close>, \<open>Wil_Meaning\<close>: the specification for lowering and the back end. Operators with an
    interpretation as a parameter, and what a graph computes under it, from the kinds of its nodes; no
    table of the code occurs in it.
  \<^item> \<open>Mal_Ir\<close>, \<open>Mal_List\<close>, \<open>Mal_Analysis\<close>: \<^verbatim>\<open>mal/mal_ir.c\<close>, \<^verbatim>\<open>mal_builder.c\<close>, \<^verbatim>\<open>mal_validate.c\<close>. Blocks
    hold lists of instructions; \<open>Mal_List\<close> proves that the pointer code of the doubly linked lists
    implements them. The SSA verifier is equivalent to the definition of SSA form.
  \<^item> \<open>Mal_Denote\<close>: a meaning for straight-line MAL under an interpretation of its opcodes, with the operator
    that each opcode names. \<open>Mal_Lower\<close>, \<open>Mal_Lower_Correct\<close>: \<^verbatim>\<open>malLowerFromWIL\<close> yields SSA form, computes
    what its tables name, and the tables name the operators of the graph. \<open>Mal_Mrs\<close>: \<^verbatim>\<open>mal/mrs_match.c\<close>, \<^verbatim>\<open>mrs_apply.c\<close>, and the rules of
    \<^verbatim>\<open>stdrewrite/mal_peephole.wrs\<close>; matching is characterised on all operands, and the fixpoint loop
    ends and keeps the meaning when rules lower a rank of opcodes.
  \<^item> \<open>Mds\<close>: \<^verbatim>\<open>mds/mds_tables.c\<close>, \<^verbatim>\<open>mds_patterns.c\<close>, \<^verbatim>\<open>mds_selector.c\<close> and the encoder of
    \<^verbatim>\<open>mds_printer.c\<close>. Selection takes the first cheapest pattern and is typed by the machine's table.
  \<^item> \<open>Tos\<close>: \<^verbatim>\<open>tos/tos_stream.c\<close>, \<^verbatim>\<open>tos_opt.c\<close>. Building and finalizing keep every block's
    instructions and make streams that validate.
  \<^item> \<open>Wvm_Isa\<close>, \<open>Wvm_State\<close>, \<open>Wvm_Interp\<close>, \<open>Wvm_Safety\<close>: \<^verbatim>\<open>wirble-wvm.h\<close>, \<^verbatim>\<open>wvm/wvm_runtime.c\<close>
    and the verifier of \<^verbatim>\<open>wvm_encoder.c\<close>: instruction words, NaN-boxed values, the operand stack, the
    interpreter, its memory safety and termination. \<open>Wvm_Serialize\<close>, \<open>Wvm_Object\<close>: \<^verbatim>\<open>wvm_emit.c\<close>,
    object files and their round trip.
  \<^item> \<open>Wvm_Encode\<close>, \<open>Wvm_Backend\<close>: \<^verbatim>\<open>wvm/wvm_encoder.c\<close>. Encoded programs verify and run without
    memory errors; executing them computes what the target-ordered program means.

  \<^item> \<open>Loops\<close>: loops whose body may fail or not return. \<open>Equinox\<close>, \<open>Equinox_Union_Find\<close>,
    \<open>Equinox_Egraph\<close>: what the graph rewriter uses of \<^verbatim>\<open>third_party/equinox\<close>. Merging sets joins
    classes of an equivalence relation; the hash table is a finite map; the e-graph of unfolded
    nodes identifies equal trees.
  \<^item> \<open>Wrs\<close>: \<^verbatim>\<open>wrs/wrs_system.c\<close>, \<^verbatim>\<open>wrs_match.c\<close>, \<^verbatim>\<open>wrs_equinox.c\<close>, \<^verbatim>\<open>wrs_apply.c\<close>, the rewriting of
    WIL graphs. \<open>Wrs_Equivalence\<close> says what equivalence of nodes decides, \<open>Wrs_Rewrite\<close> that
    rewriting returns, keeps values and reaches its fixpoint for rules that keep values and make
    nodes lighter, \<open>Wrs_Validate\<close> what the validation of rules guarantees and what it lets pass.
  \<^item> \<open>C_Text\<close>, \<open>Sexp_Reader\<close>, \<open>Sexp_Forms\<close>: printing and reading of numbers, and
    \<^verbatim>\<open>support/sexp_reader.c\<close>. \<open>Wrs_Loader\<close>: \<^verbatim>\<open>wrs/wrs_loader.c\<close>, \<^verbatim>\<open>wrs_parser.c\<close>, \<^verbatim>\<open>wrs_debug.c\<close>;
    \<open>Wrs_Text\<close> proves that printed patterns load as themselves. \<open>Wrs_Rules\<close>: the rules of
    \<^verbatim>\<open>stdrewrite/arithmetic.wrs\<close> are loaded from their file, and those that use no variable twice
    meet the hypotheses of \<open>Wrs_Rewrite\<close>. \<open>Mrs_Loader\<close>: \<^verbatim>\<open>mal/mrs_loader.c\<close>, which makes the
    standard rules of \<open>Mal_Mrs\<close> from \<^verbatim>\<open>stdrewrite/mal_peephole.wrs\<close>.
  \<^item> \<open>Wil_Printer\<close>: \<^verbatim>\<open>wil/wil_printer.c\<close>, the text of graphs.

  \<^item> \<open>Mal_Backend\<close>: what the interpreter computes for the instructions that the built-in patterns
    select, so that the meaning of MAL code is that of the bytecode made from it, and the operators on the
    numbers of the machine (\<open>vm_ops\<close>), stated on integers, which it computes. \<open>Wrs_Plain\<close>,
    \<open>Wrs_Kinds\<close>: what normalisation does to graphs without operators, and that rules without actions
    never remove a node or change its kind.
  \<^item> \<open>Frontend\<close>: the driver \<^verbatim>\<open>examples/common/frontend.c\<close> of the repository, which parses an
    expression, folds constants and runs the stages one after the other. \<open>Frontend_Backend\<close> composes
    lowering, selection, layout, encoding and execution: a graph that the stages accept computes its
    value. \<open>Frontend_Correct\<close>: the driver delivers the value of its source text, for every target and
    level, with the shipped rules among others. \<open>Frontend_Division\<close>: a division by zero never yields a
    value.

  This theory composes the stages from the graph to peephole-optimised code; \<open>Wvm_Backend\<close> composes
  encoder, verifier and interpreter; \<open>Frontend_Backend\<close> and \<open>Frontend_Correct\<close> join all stages.

  Conventions. A pointer with its count is a list, a null data pointer is \<open>None\<close>; the null checks of
  handles that the caller owns are not modelled. In the WVM theories, the arena, the string pool and
  the byte buffer the allocator is a parameter saying which sizes it serves (the theorems on what compiled
  code computes take one that serves all); in WIL, MAL, MDS and TOS allocation is taken to succeed. Machine integers are words of their width where the code can wrap
  (registers, offsets, sizes of the utilities), natural numbers where they count elements of an array
  that has fewer than the type's maximum. Undefined behaviour (an access out of bounds, a signed
  overflow, a bad shift, an endless loop of the stack growth) is a fault, \<open>Inl\<close>. Loops that may run
  forever (the interpreter loop, the peephole fixpoint) are partial functions into \<open>option\<close>, so that
  not returning is \<open>None\<close>; there is no fuel. C doubles are their 64 bits, compared by the IEEE rules
  written out.

  Parameters: the parser of the library sfsexp that \<^verbatim>\<open>sexp_reader.c\<close> wraps, the expression parser
  that dparser generates, the contents of files and the directory of the rules (\<open>frontend_env\<close>),
  \<^verbatim>\<open>strtod\<close> and the format \<^verbatim>\<open>%g\<close> of C, the values that \<^verbatim>\<open>vsnprintf\<close> and \<^verbatim>\<open>fread\<close> deliver.

  Not modelled: the printers of MAL, MDS, TOS and WVM and the dumps of the driver that call them; the
  command-line tools, which parse arguments and read files; file output; destructors, which only free
  memory; empty files (\<^verbatim>\<open>vxt/\<close>, hash table, file map) and functions that return a constant, among
  them the analyses of confluence and termination of \<^verbatim>\<open>wrs_system.c\<close>.
\<close>

section \<open>From the graph to optimised code\<close>



end
